(* ===== verification/Prelude.thy ===== *)
theory Prelude
  imports Main "HOL-Library.Char_ord" "HOL-Library.Multiset"
begin

text \<open>
  Shared vocabulary of the development: the proof collections, Python's string methods on
  Latin-1 text, Python's list slices and stable sorts, decimal printing and
  \<^verbatim>\<open>datetime.isoformat\<close>, and the two list updates every in-memory store of the
  control plane is written with (replace the first match, delete the first match).

  A Python \<^verbatim>\<open>str\<close> is a \<^typ>\<open>string\<close> whose characters are the code points
  0 to 255, so \<^verbatim>\<open>len\<close> counts code points as Python does. A \<^verbatim>\<open>datetime\<close> is an
  \<^typ>\<open>int\<close>, the microseconds since the Unix epoch in UTC.
\<close>

named_theorems handler_defs \<open>definitions of request handlers\<close>
named_theorems store_defs \<open>definitions of store operations\<close>

type_synonym datetime = int

section \<open>Python strings\<close>

definition ord_of :: "char \<Rightarrow> nat" where
  "ord_of c = of_char c"

definition is_space :: "char \<Rightarrow> bool" where
  "is_space c =
     (let n = ord_of c in (9 \<le> n \<and> n \<le> 13) \<or> (28 \<le> n \<and> n \<le> 32) \<or> n = 133 \<or> n = 160)"

definition lower_char :: "char \<Rightarrow> char" where
  "lower_char c =
     (let n = ord_of c in
      if (65 \<le> n \<and> n \<le> 90) \<or> (192 \<le> n \<and> n \<le> 222 \<and> n \<noteq> 215) then char_of (n + 32) else c)"

text \<open>\<^verbatim>\<open>str.lstrip\<close>, \<^verbatim>\<open>str.rstrip\<close>, \<^verbatim>\<open>str.strip\<close> and \<^verbatim>\<open>str.lower\<close>.\<close>

definition py_lstrip :: "string \<Rightarrow> string" where
  "py_lstrip s = dropWhile is_space s"

definition py_rstrip_by :: "(char \<Rightarrow> bool) \<Rightarrow> string \<Rightarrow> string" where
  "py_rstrip_by p s = rev (dropWhile p (rev s))"

definition py_strip :: "string \<Rightarrow> string" where
  "py_strip s = py_rstrip_by is_space (py_lstrip s)"

definition py_lower :: "string \<Rightarrow> string" where
  "py_lower s = map lower_char s"

text \<open>\<^verbatim>\<open>s.split(None, 1)\<close>: at most two fields, the second keeps its trailing blanks.\<close>

definition split_ws1 :: "string \<Rightarrow> string list" where
  "split_ws1 s =
     (let s1 = py_lstrip s in
      if s1 = [] then []
      else let w = takeWhile (\<lambda>c. \<not> is_space c) s1;
               r = py_lstrip (dropWhile (\<lambda>c. \<not> is_space c) s1)
           in if r = [] then [w] else [w, r])"

text \<open>\<^verbatim>\<open>s.split()\<close>: the maximal runs of non-blank characters.\<close>

function split_ws :: "string \<Rightarrow> string list" where
  "split_ws s =
     (let s1 = py_lstrip s in
      if s1 = [] then []
      else takeWhile (\<lambda>c. \<not> is_space c) s1
             # split_ws (dropWhile (\<lambda>c. \<not> is_space c) s1))"
  by pat_completeness auto

lemma dropWhile_shorter: "xs \<noteq> [] \<Longrightarrow> P (hd xs) \<Longrightarrow> length (dropWhile P xs) < length xs"
  by (cases xs) (auto simp: le_imp_less_Suc length_dropWhile_le)

termination split_ws
proof (relation "measure length", simp)
  fix s s1 :: string
  assume "s1 = py_lstrip s" and "s1 \<noteq> []"
  then have "\<not> is_space (hd s1)"
    by (metis hd_dropWhile py_lstrip_def)
  with \<open>s1 \<noteq> []\<close> have "length (dropWhile (\<lambda>c. \<not> is_space c) s1) < length s1"
    by (rule dropWhile_shorter)
  also have "length s1 \<le> length s"
    by (simp add: \<open>s1 = py_lstrip s\<close> py_lstrip_def length_dropWhile_le)
  finally show "(dropWhile (\<lambda>c. \<not> is_space c) s1, s) \<in> measure length"
    by simp
qed

declare split_ws.simps [simp del]

text \<open>\<^verbatim>\<open>s.split(c, 1)\<close> for a one-character separator: before, and after when it occurs.\<close>

definition split_char1 :: "char \<Rightarrow> string \<Rightarrow> string \<times> string option" where
  "split_char1 c s =
     (takeWhile (\<lambda>x. x \<noteq> c) s,
      (case dropWhile (\<lambda>x. x \<noteq> c) s of [] \<Rightarrow> None | _ # r \<Rightarrow> Some r))"

text \<open>\<^verbatim>\<open>s.split(c)\<close> for a one-character separator.\<close>

fun split_char :: "char \<Rightarrow> string \<Rightarrow> string list" where
  "split_char c [] = [[]]"
| "split_char c (x # xs) =
     (if x = c then [] # split_char c xs
      else (case split_char c xs of [] \<Rightarrow> [[x]] | w # ws \<Rightarrow> (x # w) # ws))"

text \<open>\<^verbatim>\<open>s.startswith(p)\<close>, \<^verbatim>\<open>s.endswith(p)\<close>, \<^verbatim>\<open>p in s\<close> and \<^verbatim>\<open>sep.join(ws)\<close>.\<close>

fun starts_with :: "string \<Rightarrow> string \<Rightarrow> bool" where
  "starts_with [] s = True"
| "starts_with (p # ps) [] = False"
| "starts_with (p # ps) (c # cs) = (p = c \<and> starts_with ps cs)"

definition ends_with :: "string \<Rightarrow> string \<Rightarrow> bool" where
  "ends_with p s = starts_with (rev p) (rev s)"

fun contains :: "string \<Rightarrow> string \<Rightarrow> bool" where
  "contains p [] = (p = [])"
| "contains p (c # cs) = (starts_with p (c # cs) \<or> contains p cs)"

fun py_join :: "string \<Rightarrow> string list \<Rightarrow> string" where
  "py_join sep [] = []"
| "py_join sep [w] = w"
| "py_join sep (w # v # ws) = w @ sep @ py_join sep (v # ws)"

text \<open>\<^verbatim>\<open>len(s.encode("utf-8"))\<close>: one byte for an ASCII code point, two for 128 to 255.\<close>

definition utf8_len :: "string \<Rightarrow> nat" where
  "utf8_len s = sum_list (map (\<lambda>c. if ord_of c < 128 then 1 else 2) s)"

lemma split_char1_none: "c \<notin> set s \<Longrightarrow> split_char1 c s = (s, None)"
  by (induction s) (auto simp: split_char1_def)

lemma split_char1_some: "c \<notin> set s \<Longrightarrow> split_char1 c (s @ c # r) = (s, Some r)"
  by (induction s) (auto simp: split_char1_def)

lemma starts_with_iff: "starts_with p s \<longleftrightarrow> (\<exists>r. s = p @ r)"
  by (induction p s rule: starts_with.induct) auto

lemma starts_with_append [simp]: "starts_with p (p @ r)"
  by (simp add: starts_with_iff)

lemma py_strip_Nil [simp]: "py_strip [] = []"
  by (simp add: py_strip_def py_lstrip_def py_rstrip_by_def)

lemma length_py_strip_le: "length (py_strip s) \<le> length s"
proof -
  have "length (py_strip s) \<le> length (py_lstrip s)"
    by (metis length_dropWhile_le length_rev py_rstrip_by_def py_strip_def)
  also have "\<dots> \<le> length s"
    by (simp add: py_lstrip_def length_dropWhile_le)
  finally show ?thesis .
qed

lemma set_py_strip: "set (py_strip s) \<subseteq> set s"
  by (auto simp: py_strip_def py_rstrip_by_def py_lstrip_def dest!: set_dropWhileD)

lemma utf8_len_ge: "length s \<le> utf8_len s"
  by (induction s) (auto simp: utf8_len_def)

section \<open>Python lists\<close>

text \<open>\<^verbatim>\<open>xs[:k]\<close> and \<^verbatim>\<open>xs[-k:]\<close> for any integer \<open>k\<close>.\<close>

definition slice_to :: "int \<Rightarrow> 'a list \<Rightarrow> 'a list" where
  "slice_to k xs = (if 0 \<le> k then take (nat k) xs else take (length xs - nat (- k)) xs)"

definition slice_last :: "int \<Rightarrow> 'a list \<Rightarrow> 'a list" where
  "slice_last k xs =
     (if k \<le> 0 then drop (nat (- k)) xs else drop (length xs - nat k) xs)"

text \<open>\<^verbatim>\<open>xs.sort(key=k, reverse=True)\<close>: descending, ties keep their order.\<close>

definition sort_desc :: "('a \<Rightarrow> 'k::linordered_idom) \<Rightarrow> 'a list \<Rightarrow> 'a list" where
  "sort_desc k xs = sort_key (\<lambda>x. - k x) xs"

lemma set_sort_desc [simp]: "set (sort_desc k xs) = set xs"
  by (simp add: sort_desc_def)

lemma length_sort_desc [simp]: "length (sort_desc k xs) = length xs"
  by (simp add: sort_desc_def)

lemma mset_sort_desc_sorted: "sorted (map (\<lambda>x. - k x) (sort_desc k xs))"
  by (simp add: sort_desc_def)

lemma set_slice_to: "set (slice_to k xs) \<subseteq> set xs"
  by (auto simp: slice_to_def dest: in_set_takeD)

lemma set_slice_last: "set (slice_last k xs) \<subseteq> set xs"
  by (auto simp: slice_last_def dest: in_set_dropD)

lemma length_slice_to: "0 \<le> k \<Longrightarrow> length (slice_to k xs) \<le> nat k"
  by (simp add: slice_to_def)

lemma length_slice_last: "0 < k \<Longrightarrow> length (slice_last k xs) \<le> nat k"
  by (simp add: slice_last_def)

text \<open>\<^verbatim>\<open>min(max(1, k), hi)\<close>, the clamp the list endpoints apply to a limit.\<close>

definition clamp_limit :: "int \<Rightarrow> int \<Rightarrow> int" where
  "clamp_limit hi k = min (max 1 k) hi"

lemma clamp_limit_bounds: "1 \<le> hi \<Longrightarrow> 1 \<le> clamp_limit hi k \<and> clamp_limit hi k \<le> hi"
  by (auto simp: clamp_limit_def)

section \<open>First-match update and delete\<close>

text \<open>
  \<^verbatim>\<open>for i, x in enumerate(xs): if p(x): xs[i] = f(x); return xs[i]\<close>, and the same loop
  with \<^verbatim>\<open>del xs[i]; return True\<close>.
\<close>

fun update_first :: "('a \<Rightarrow> bool) \<Rightarrow> ('a \<Rightarrow> 'a) \<Rightarrow> 'a list \<Rightarrow> 'a list" where
  "update_first p f [] = []"
| "update_first p f (x # xs) = (if p x then f x # xs else x # update_first p f xs)"

fun delete_first :: "('a \<Rightarrow> bool) \<Rightarrow> 'a list \<Rightarrow> 'a list" where
  "delete_first p [] = []"
| "delete_first p (x # xs) = (if p x then xs else x # delete_first p xs)"

lemma update_first_none [simp]: "\<not> list_ex p xs \<Longrightarrow> update_first p f xs = xs"
  by (induction xs) auto

lemma delete_first_none [simp]: "\<not> list_ex p xs \<Longrightarrow> delete_first p xs = xs"
  by (induction xs) auto

lemma length_update_first [simp]: "length (update_first p f xs) = length xs"
  by (induction xs) auto

lemma set_delete_first: "set (delete_first p xs) \<subseteq> set xs"
  by (induction xs) auto

lemma set_update_first: "set (update_first p f xs) \<subseteq> set xs \<union> f ` {x \<in> set xs. p x}"
  by (induction xs) auto

lemma map_update_first:
  assumes "\<And>x. g (f x) = g x"
  shows "map g (update_first p f xs) = map g xs"
  using assms by (induction xs) auto

lemma map_delete_first:
  assumes "\<And>x. p x = q (g x)"
  shows "map g (delete_first p xs) = delete_first q (map g xs)"
  using assms by (induction xs) auto

lemma distinct_delete_first: "distinct xs \<Longrightarrow> distinct (delete_first p xs)"
  by (induction xs) (auto dest: set_delete_first [THEN subsetD])

text \<open>With unique keys, the first match is the only one.\<close>

lemma delete_first_filter:
  assumes "distinct (map key xs)"
  shows "delete_first (\<lambda>x. key x = k) xs = filter (\<lambda>x. key x \<noteq> k) xs"
  using assms
proof (induction xs)
  case Nil
  then show ?case by simp
next
  case (Cons x xs)
  have "filter (\<lambda>y. key y \<noteq> k) xs = xs" if "key x = k"
    using Cons.prems that by (intro filter_True) (auto simp: image_iff)
  with Cons show ?case by simp
qed

lemma update_first_map:
  assumes "distinct (map key xs)"
  shows "update_first (\<lambda>x. key x = k) f xs = map (\<lambda>x. if key x = k then f x else x) xs"
  using assms
proof (induction xs)
  case Nil
  then show ?case by simp
next
  case (Cons x xs)
  have "map (\<lambda>y. if key y = k then f y else y) xs = xs" if "key x = k"
    using Cons.prems that by (intro map_idI) (auto simp: image_iff)
  with Cons show ?case by simp
qed

lemma find_update_first:
  assumes "\<And>x. p x \<Longrightarrow> p (f x)"
  shows "find p (update_first p f xs) = map_option f (find p xs)"
  using assms by (induction xs) auto

lemma find_None_list_ex: "find p xs = None \<longleftrightarrow> \<not> list_ex p xs"
  by (auto simp: find_None_iff list_ex_iff)

lemma find_map_f: "find p (map f xs) = map_option f (find (\<lambda>x. p (f x)) xs)"
  by (induction xs) auto

lemma sort_key_snoc: "sort_key f (sort_key f xs @ ys) = sort_key f (xs @ ys)"
proof (rule properties_for_sort_key)
  show "mset (sort_key f (xs @ ys)) = mset (sort_key f xs @ ys)"
    by simp
  show "filter (\<lambda>x. f k = f x) (sort_key f (xs @ ys)) = filter (\<lambda>x. f k = f x) (sort_key f xs @ ys)"
    for k
    using sort_key_stable [of f "f k" xs] sort_key_stable [of f "f k" "xs @ ys"]
    by (simp add: eq_commute)
qed simp

lemma insort_key_mono:
  assumes "\<And>x y. f x \<le> f y \<longleftrightarrow> g x \<le> g y"
  shows "insort_key f x xs = insort_key g x xs"
  by (induction xs) (simp_all add: assms)

lemma sort_key_mono:
  assumes "\<And>x y. f x \<le> f y \<longleftrightarrow> g x \<le> g y"
  shows "sort_key f xs = sort_key g xs"
  by (induction xs) (simp_all add: insort_key_mono [OF assms])

lemma insort_key_map: "map h (insort_key (\<lambda>x. f (h x)) x xs) = insort_key f (h x) (map h xs)"
  by (induction xs) simp_all

lemma sort_key_map: "map h (sort_key (\<lambda>x. f (h x)) xs) = sort_key f (map h xs)"
  by (induction xs) (simp_all add: insort_key_map)

lemma slice_to_map: "slice_to k (map f xs) = map f (slice_to k xs)"
  by (simp add: slice_to_def take_map)

text \<open>The first \<open>k\<close> of a descending list are at least as large as every item left out.\<close>

lemma slice_desc_best:
  assumes "x \<in> set (slice_to k (sort_desc f xs))" and "y \<in> set xs"
    and "y \<notin> set (slice_to k (sort_desc f xs))"
  shows "f y \<le> f x"
proof -
  let ?ys = "sort_desc f xs"
  obtain n where n: "slice_to k ?ys = take n ?ys"
    by (cases "0 \<le> k") (simp_all add: slice_to_def)
  have "y \<in> set (drop n ?ys)"
    using assms(2,3) n append_take_drop_id [of n ?ys] set_sort_desc [of f xs]
    by (metis Un_iff set_append)
  moreover have "x \<in> set (take n ?ys)"
    using assms(1) n by simp
  moreover have "sorted (map (\<lambda>x. - f x) (take n ?ys @ drop n ?ys))"
    by (simp add: mset_sort_desc_sorted)
  ultimately show ?thesis
    by (auto simp: sorted_append simp del: append_take_drop_id)
qed

lemma slice_desc_sorted: "sorted (map (\<lambda>x. - f x) (slice_to k (sort_desc f xs)))"
  by (simp add: slice_to_def take_map [symmetric] sorted_wrt_take mset_sort_desc_sorted)

section \<open>Decimal and ISO-8601 printing\<close>

fun str_nat :: "nat \<Rightarrow> string" where
  "str_nat n =
     (if n < 10 then [char_of (48 + n)] else str_nat (n div 10) @ [char_of (48 + n mod 10)])"

declare str_nat.simps [simp del]

definition str_int :: "int \<Rightarrow> string" where
  "str_int i = (if i < 0 then ''-'' @ str_nat (nat (- i)) else str_nat (nat i))"

definition pad_left :: "nat \<Rightarrow> string \<Rightarrow> string" where
  "pad_left w s = replicate (w - length s) (CHR ''0'') @ s"

text \<open>The civil date of a day number (days since 1970-01-01, proleptic Gregorian).\<close>

definition civil_of_days :: "int \<Rightarrow> int \<times> int \<times> int" where
  "civil_of_days d =
     (let z = d + 719468;
          era = z div 146097;
          doe = z - era * 146097;
          yoe = (doe - doe div 1460 + doe div 36524 - doe div 146096) div 365;
          doy = doe - (365 * yoe + yoe div 4 - yoe div 100);
          mp = (5 * doy + 2) div 153;
          dd = doy - (153 * mp + 2) div 5 + 1;
          mm = (if mp < 10 then mp + 3 else mp - 9);
          yy = yoe + era * 400 + (if mm \<le> 2 then 1 else 0)
      in (yy, mm, dd))"

text \<open>\<^verbatim>\<open>datetime.isoformat()\<close> of an aware UTC timestamp.\<close>

definition isoformat :: "datetime \<Rightarrow> string" where
  "isoformat t =
     (let days = t div 86400000000;
          us = t mod 86400000000;
          secs = us div 1000000;
          micro = us mod 1000000;
          p2 = (\<lambda>k. pad_left 2 (str_int k))
      in case civil_of_days days of (y, m, d) \<Rightarrow>
           pad_left 4 (str_int y) @ ''-'' @ p2 m @ ''-'' @ p2 d @ ''T''
             @ p2 (secs div 3600) @ '':'' @ p2 (secs div 60 mod 60) @ '':'' @ p2 (secs mod 60)
             @ (if micro = 0 then [] else ''.'' @ pad_left 6 (str_int micro)) @ ''+00:00'')"

end
