(* ===== verification/Json.thy ===== *)
theory Json
  imports Prelude Complex_Main
begin

text \<open>
  The values \<^verbatim>\<open>json.loads\<close> returns and \<^verbatim>\<open>json.dumps\<close> prints, and the Python operations
  the handlers apply to them: \<^verbatim>\<open>dict.get\<close>, \<^verbatim>\<open>in\<close>, \<^verbatim>\<open>isinstance\<close>, truthiness, \<^verbatim>\<open>len\<close>,
  hashing.  A request body enters a handler as the result of \<^verbatim>\<open>json.loads(body)\<close>:
  \<^term>\<open>None\<close> when it raised, \<^term>\<open>Some v\<close> for the value.  A \<^verbatim>\<open>dict\<close> is an association list
  in insertion order with distinct keys, as \<^verbatim>\<open>json.loads\<close> builds it.  A finite double is the
  rational number it denotes.
\<close>

datatype pyfloat = Fin rat | PosInf | NegInf | NaN

datatype json =
    JNull
  | JBool bool
  | JInt int
  | JFloat pyfloat
  | JStr string
  | JArr "json list"
  | JObj "(string \<times> json) list"

type_synonym dict = "(string \<times> json) list"

text \<open>The exceptions that matter to a handler that does not catch them.\<close>

datatype py_exn = TypeError | AttributeError | OverflowError | ValueError | KeyError | IndexError
  | StoreError

section \<open>Dictionaries\<close>

text \<open>\<^verbatim>\<open>d.get(k)\<close>, \<^verbatim>\<open>d.get(k, default)\<close>, \<^verbatim>\<open>k in d\<close> and \<^verbatim>\<open>d[k] = v\<close>.\<close>

definition dget :: "dict \<Rightarrow> string \<Rightarrow> json" where
  "dget d k = (case map_of d k of None \<Rightarrow> JNull | Some v \<Rightarrow> v)"

definition dget_or :: "dict \<Rightarrow> string \<Rightarrow> json \<Rightarrow> json" where
  "dget_or d k v0 = (case map_of d k of None \<Rightarrow> v0 | Some v \<Rightarrow> v)"

definition dhas :: "dict \<Rightarrow> string \<Rightarrow> bool" where
  "dhas d k = (k \<in> fst ` set d)"

fun dset :: "(string \<times> 'v) list \<Rightarrow> string \<Rightarrow> 'v \<Rightarrow> (string \<times> 'v) list" where
  "dset [] k v = [(k, v)]"
| "dset ((k', v') # d) k v = (if k' = k then (k', v) # d else (k', v') # dset d k v)"

lemma map_of_dset: "map_of (dset d k v) = (map_of d)(k \<mapsto> v)"
  by (induction d k v rule: dset.induct) auto

lemma distinct_dset: "distinct (map fst d) \<Longrightarrow> distinct (map fst (dset d k v))"
proof (induction d k v rule: dset.induct)
  case (2 k' v' d k v)
  have "fst ` set (dset d k v) = insert k (fst ` set d)" for d :: "(string \<times> 'a) list"
    by (induction d k v rule: dset.induct) auto
  with 2 show ?case by auto
qed simp

lemma dset_absent: "k \<notin> fst ` set d \<Longrightarrow> dset d k v = d @ [(k, v)]"
  by (induction d k v rule: dset.induct) auto

lemma fst_dset: "map fst (dset d k v) = (if k \<in> fst ` set d then map fst d else map fst d @ [k])"
  by (induction d k v rule: dset.induct) auto

lemma set_dset: "distinct (map fst d) \<Longrightarrow> set (dset d k v) = insert (k, v) {p \<in> set d. fst p \<noteq> k}"
proof (induction d k v rule: dset.induct)
  case (2 k' v' d k v)
  then have "{p \<in> set d. fst p \<noteq> k'} = set d"
    by (auto simp: image_iff)
  with 2 show ?case by auto
qed auto

section \<open>Types, truth and size\<close>

fun is_str :: "json \<Rightarrow> bool" where
  "is_str (JStr s) = True"
| "is_str v = False"

fun is_bool :: "json \<Rightarrow> bool" where
  "is_bool (JBool b) = True"
| "is_bool v = False"

text \<open>\<^verbatim>\<open>isinstance(v, int)\<close>: a Python \<^verbatim>\<open>bool\<close> is an \<^verbatim>\<open>int\<close>.\<close>

fun as_int :: "json \<Rightarrow> int option" where
  "as_int (JInt i) = Some i"
| "as_int (JBool b) = Some (if b then 1 else 0)"
| "as_int v = None"

definition is_int :: "json \<Rightarrow> bool" where
  "is_int v = (as_int v \<noteq> None)"

text \<open>\<^verbatim>\<open>bool(v)\<close>.\<close>

fun truthy :: "json \<Rightarrow> bool" where
  "truthy JNull = False"
| "truthy (JBool b) = b"
| "truthy (JInt i) = (i \<noteq> 0)"
| "truthy (JFloat (Fin q)) = (q \<noteq> 0)"
| "truthy (JFloat f) = True"
| "truthy (JStr s) = (s \<noteq> [])"
| "truthy (JArr xs) = (xs \<noteq> [])"
| "truthy (JObj d) = (d \<noteq> [])"

text \<open>\<^verbatim>\<open>len(v)\<close> where the type has one (\<^verbatim>\<open>hasattr(v, "__len__")\<close>).\<close>

fun json_len :: "json \<Rightarrow> nat option" where
  "json_len (JStr s) = Some (length s)"
| "json_len (JArr xs) = Some (length xs)"
| "json_len (JObj d) = Some (length d)"
| "json_len v = None"

text \<open>\<^verbatim>\<open>type(v).__name__\<close>.\<close>

fun type_name :: "json \<Rightarrow> string" where
  "type_name JNull = ''NoneType''"
| "type_name (JBool b) = ''bool''"
| "type_name (JInt i) = ''int''"
| "type_name (JFloat f) = ''float''"
| "type_name (JStr s) = ''str''"
| "type_name (JArr xs) = ''list''"
| "type_name (JObj d) = ''dict''"

text \<open>
  \<^verbatim>\<open>v in {...}\<close> for a set of strings: a list or a dict is unhashable, so the test raises
  \<^verbatim>\<open>TypeError\<close> instead of answering.  \<^verbatim>\<open>v in (...)\<close> for a tuple compares and never raises.
\<close>

fun in_str_set :: "json \<Rightarrow> string set \<Rightarrow> py_exn + bool" where
  "in_str_set (JStr s) A = Inr (s \<in> A)"
| "in_str_set (JArr xs) A = Inl TypeError"
| "in_str_set (JObj d) A = Inl TypeError"
| "in_str_set v A = Inr False"

lemma in_str_set_True:
  "in_str_set v A = Inr True \<Longrightarrow> \<exists>s. v = JStr s \<and> s \<in> A"
  by (cases v) auto

lemma in_str_set_Inl:
  "in_str_set v A = Inl ex \<longleftrightarrow> ex = TypeError \<and> ((\<exists>xs. v = JArr xs) \<or> (\<exists>e. v = JObj e))"
  by (cases v) auto

fun in_str_tuple :: "json \<Rightarrow> string list \<Rightarrow> bool" where
  "in_str_tuple (JStr s) A = (s \<in> set A)"
| "in_str_tuple v A = False"

section \<open>Rounding\<close>

text \<open>\<^verbatim>\<open>round(x)\<close> rounds a tie to the even neighbour; \<^verbatim>\<open>round(x, 6)\<close> keeps six decimals.\<close>

definition round_half_even :: "rat \<Rightarrow> int" where
  "round_half_even q =
     (let n = floor q; r = q - of_int n in
      if r < 1/2 then n else if 1/2 < r then n + 1 else if even n then n else n + 1)"

definition round6 :: "rat \<Rightarrow> rat" where
  "round6 q = of_int (round_half_even (q * 1000000)) / 1000000"

section \<open>json.dumps\<close>

text \<open>
  \<^verbatim>\<open>json.dumps(v)\<close> with the default separators and \<^verbatim>\<open>ensure_ascii\<close>.  The text of a finite
  float is \<^verbatim>\<open>float.__repr__\<close>, the argument \<open>fr\<close>: CPython's shortest-digits printer.
\<close>

definition hex_digit :: "nat \<Rightarrow> char" where
  "hex_digit n = (if n < 10 then char_of (48 + n) else char_of (87 + n))"

definition dumps_char :: "char \<Rightarrow> string" where
  "dumps_char c =
     (let n = ord_of c in
      if n = 34 then [char_of (92::nat), char_of (34::nat)]
      else if n = 92 then [char_of (92::nat), char_of (92::nat)]
      else if n = 10 then char_of (92::nat) # ''n''
      else if n = 13 then char_of (92::nat) # ''r''
      else if n = 9 then char_of (92::nat) # ''t''
      else if n = 12 then char_of (92::nat) # ''f''
      else if n = 8 then char_of (92::nat) # ''b''
      else if 32 \<le> n \<and> n < 127 then [c]
      else char_of (92::nat) # ''u00'' @ [hex_digit (n div 16), hex_digit (n mod 16)])"

definition dumps_str :: "string \<Rightarrow> string" where
  "dumps_str s = [char_of (34::nat)] @ concat (map dumps_char s) @ [char_of (34::nat)]"

fun json_dumps :: "(rat \<Rightarrow> string) \<Rightarrow> json \<Rightarrow> string" where
  "json_dumps fr JNull = ''null''"
| "json_dumps fr (JBool b) = (if b then ''true'' else ''false'')"
| "json_dumps fr (JInt i) = str_int i"
| "json_dumps fr (JFloat (Fin q)) = fr q"
| "json_dumps fr (JFloat PosInf) = ''Infinity''"
| "json_dumps fr (JFloat NegInf) = ''-Infinity''"
| "json_dumps fr (JFloat NaN) = ''NaN''"
| "json_dumps fr (JStr s) = dumps_str s"
| "json_dumps fr (JArr xs) = ''['' @ py_join '', '' (map (json_dumps fr) xs) @ '']''"
| "json_dumps fr (JObj d) =
     ''{'' @ py_join '', '' (map (\<lambda>(k, v). dumps_str k @ '': '' @ json_dumps fr v) d) @ ''}''"

section \<open>repr and str\<close>

text \<open>
  \<^verbatim>\<open>repr(v)\<close> and \<^verbatim>\<open>str(v)\<close>.  A string is quoted with \<^verbatim>\<open>'\<close>, or with a double quote when it
  holds \<^verbatim>\<open>'\<close> and no double quote.
\<close>

definition repr_char :: "nat \<Rightarrow> char \<Rightarrow> string" where
  "repr_char q c =
     (let n = ord_of c in
      if n = 92 \<or> n = q then [char_of (92::nat), c]
      else if n = 9 then char_of (92::nat) # ''t''
      else if n = 10 then char_of (92::nat) # ''n''
      else if n = 13 then char_of (92::nat) # ''r''
      else if n < 32 \<or> (127 \<le> n \<and> n \<le> 160) \<or> n = 173
      then char_of (92::nat) # ''x'' @ [hex_digit (n div 16), hex_digit (n mod 16)]
      else [c])"

definition repr_str :: "string \<Rightarrow> string" where
  "repr_str s =
     (let q = (if 39 \<in> ord_of ` set s \<and> 34 \<notin> ord_of ` set s then 34 else 39) in
      [char_of q] @ concat (map (repr_char q) s) @ [char_of q])"

fun py_repr :: "(rat \<Rightarrow> string) \<Rightarrow> json \<Rightarrow> string" where
  "py_repr fr JNull = ''None''"
| "py_repr fr (JBool b) = (if b then ''True'' else ''False'')"
| "py_repr fr (JInt i) = str_int i"
| "py_repr fr (JFloat (Fin q)) = fr q"
| "py_repr fr (JFloat PosInf) = ''inf''"
| "py_repr fr (JFloat NegInf) = ''-inf''"
| "py_repr fr (JFloat NaN) = ''nan''"
| "py_repr fr (JStr s) = repr_str s"
| "py_repr fr (JArr xs) = ''['' @ py_join '', '' (map (py_repr fr) xs) @ '']''"
| "py_repr fr (JObj d) =
     ''{'' @ py_join '', '' (map (\<lambda>(k, v). repr_str k @ '': '' @ py_repr fr v) d) @ ''}''"

fun py_str :: "(rat \<Rightarrow> string) \<Rightarrow> json \<Rightarrow> string" where
  "py_str fr (JStr s) = s"
| "py_str fr v = py_repr fr v"

section \<open>Replies\<close>

text \<open>
  The \<^verbatim>\<open>(HTTPStatus, payload)\<close> pair the pure handlers return, and the status codes they
  use.  A handler that an exception leaves is \<open>Inl\<close> the exception where that can happen; the
  server answers it with \<open>internal_error_reply\<close> (\<^verbatim>\<open>_instrument\<close> in server.py).
\<close>

type_synonym reply = "nat \<times> json"

abbreviation HTTP_OK :: nat where "HTTP_OK \<equiv> 200"
abbreviation HTTP_CREATED :: nat where "HTTP_CREATED \<equiv> 201"
abbreviation HTTP_ACCEPTED :: nat where "HTTP_ACCEPTED \<equiv> 202"
abbreviation HTTP_BAD_REQUEST :: nat where "HTTP_BAD_REQUEST \<equiv> 400"
abbreviation HTTP_UNAUTHORIZED :: nat where "HTTP_UNAUTHORIZED \<equiv> 401"
abbreviation HTTP_FORBIDDEN :: nat where "HTTP_FORBIDDEN \<equiv> 403"
abbreviation HTTP_NOT_FOUND :: nat where "HTTP_NOT_FOUND \<equiv> 404"
abbreviation HTTP_TOO_LARGE :: nat where "HTTP_TOO_LARGE \<equiv> 413"
abbreviation HTTP_UNSUPPORTED :: nat where "HTTP_UNSUPPORTED \<equiv> 415"
abbreviation HTTP_UNPROCESSABLE :: nat where "HTTP_UNPROCESSABLE \<equiv> 422"
abbreviation HTTP_TOO_MANY :: nat where "HTTP_TOO_MANY \<equiv> 429"
abbreviation HTTP_SERVER_ERROR :: nat where "HTTP_SERVER_ERROR \<equiv> 500"
abbreviation HTTP_BAD_GATEWAY :: nat where "HTTP_BAD_GATEWAY \<equiv> 502"
abbreviation HTTP_UNAVAILABLE :: nat where "HTTP_UNAVAILABLE \<equiv> 503"
abbreviation HTTP_TIMEOUT :: nat where "HTTP_TIMEOUT \<equiv> 504"

text \<open>The payload shapes the handlers repeat.\<close>

definition err_only :: "string \<Rightarrow> json" where
  "err_only e = JObj [(''error'', JStr e)]"

definition err_detail :: "string \<Rightarrow> string \<Rightarrow> json" where
  "err_detail e d = JObj [(''error'', JStr e), (''detail'', JStr d)]"

definition err_degraded :: "string \<Rightarrow> string \<Rightarrow> json" where
  "err_degraded e d =
     JObj [(''error'', JStr e), (''detail'', JStr d), (''status'', JStr ''degraded'')]"

definition err_degraded0 :: "string \<Rightarrow> json" where
  "err_degraded0 e = JObj [(''error'', JStr e), (''status'', JStr ''degraded'')]"

text \<open>The quoted field name of a detail message.\<close>

definition quoted :: "string \<Rightarrow> string" where
  "quoted f = [CHR 0x27] @ f @ [CHR 0x27]"

definition bad_request :: "string \<Rightarrow> reply" where
  "bad_request d = (HTTP_BAD_REQUEST, err_detail ''bad_request'' d)"

definition jopt :: "('a \<Rightarrow> json) \<Rightarrow> 'a option \<Rightarrow> json" where
  "jopt f x = (case x of None \<Rightarrow> JNull | Some v \<Rightarrow> f v)"

text \<open>\<^verbatim>\<open>x or None\<close> on a string, as the \<^verbatim>\<open>to_api_dict\<close> methods print it.\<close>

definition str_or_null :: "string \<Rightarrow> json" where
  "str_or_null s = (if s = [] then JNull else JStr s)"

lemmas payload_defs = err_only_def err_detail_def err_degraded_def err_degraded0_def bad_request_def

lemma fst_bad_request [simp]: "fst (bad_request d) = HTTP_BAD_REQUEST"
  by (simp add: bad_request_def)

lemma dget_Nil [simp]: "dget [] k = JNull"
  by (simp add: dget_def)

lemma dget_Cons [simp]: "dget ((k', v) # d) k = (if k' = k then v else dget d k)"
  by (simp add: dget_def)

lemma dget_or_Nil [simp]: "dget_or [] k v = v"
  by (simp add: dget_or_def)

lemma dget_or_Cons [simp]: "dget_or ((k', w) # d) k v = (if k' = k then w else dget_or d k v)"
  by (simp add: dget_or_def)

lemma dhas_Nil [simp]: "\<not> dhas [] k"
  by (simp add: dhas_def)

lemma dhas_Cons [simp]: "dhas ((k', v) # d) k = (k' = k \<or> dhas d k)"
  by (auto simp: dhas_def)

lemma dget_absent: "\<not> dhas d k \<Longrightarrow> dget d k = JNull"
proof -
  assume "\<not> dhas d k"
  then have "map_of d k = None"
    by (simp add: dhas_def map_of_eq_None_iff)
  then show ?thesis by (simp add: dget_def)
qed

end
