(* ===== verification/Auth.thy ===== *)
theory Auth
  imports Json
begin

text \<open>
  Authentication: the verified claims and the verifiers of token_verifier.py, the bearer
  check every handler starts with (\<^verbatim>\<open>_verify_and_extract\<close> and \<^verbatim>\<open>_extract_tenant_id\<close> of
  notifications.py, \<^verbatim>\<open>_extract_bearer_token\<close> of server.py) and the domain primitives of
  auth.py.  A verifier maps a raw token to its claims, or to \<^term>\<open>None\<close> where it raises
  \<^verbatim>\<open>TokenVerificationError\<close>.
\<close>

section \<open>Claims and verifiers\<close>

record token_claims =
  tc_subject :: string
  tc_email :: string
  tc_groups :: "string set"
  tc_expires_at :: "datetime option"

definition has_group :: "token_claims \<Rightarrow> string \<Rightarrow> bool" where
  "has_group c g = (g \<in> tc_groups c)"

type_synonym verifier = "string \<Rightarrow> token_claims option"

text \<open>
  \<^verbatim>\<open>OIDCTokenVerifier.verify\<close>.  PyJWT is the parameter \<open>jwt_decode\<close>: the claim set of a token
  whose signature, issuer, audience and expiry it accepts, \<^term>\<open>None\<close> where it raises.  PyJWT
  has checked that \<^verbatim>\<open>sub\<close> is a string and \<^verbatim>\<open>exp\<close> an integer.
\<close>

fun claim_groups :: "(rat \<Rightarrow> string) \<Rightarrow> dict \<Rightarrow> string list \<Rightarrow> string list" where
  "claim_groups fr payload [] = []"
| "claim_groups fr payload (key # keys) =
     (case dget payload key of
        JArr gs \<Rightarrow> map (py_str fr) gs @ claim_groups fr payload keys
      | _ \<Rightarrow> claim_groups fr payload keys)"

definition oidc_verify :: "(rat \<Rightarrow> string) \<Rightarrow> (string \<Rightarrow> dict option) \<Rightarrow> verifier" where
  "oidc_verify fr jwt_decode raw_token =
     (case jwt_decode raw_token of
        None \<Rightarrow> None
      | Some payload \<Rightarrow>
          Some \<lparr>tc_subject = (case dget payload ''sub'' of JStr s \<Rightarrow> s | _ \<Rightarrow> []),
                tc_email = (case dget_or payload ''email'' (JStr []) of JStr s \<Rightarrow> s | _ \<Rightarrow> []),
                tc_groups = set (claim_groups fr payload [''groups'', ''cognito:groups'', ''roles'']),
                tc_expires_at =
                  (case dget payload ''exp'' of JInt i \<Rightarrow> Some (i * 1000000) | _ \<Rightarrow> None)\<rparr>)"

text \<open>\<^verbatim>\<open>DevTokenVerifier\<close>: the constructor's guards, then \<^verbatim>\<open>verify\<close>.\<close>

record dev_verifier =
  dv_token :: string
  dv_subject :: string
  dv_email :: string
  dv_admin_group :: string

definition forbidden_environments :: "string set" where
  "forbidden_environments = {''staging'', ''production'', ''prod''}"

definition dev_verifier_init ::
    "string \<Rightarrow> string \<Rightarrow> string \<Rightarrow> string \<Rightarrow> string \<Rightarrow> string + dev_verifier" where
  "dev_verifier_init dev_token subject email admin_group environment =
     (if environment \<in> forbidden_environments
      then Inl ''DevTokenVerifier must not be used in this environment.''
      else if dev_token = [] then Inl ''dev_token must not be empty.''
      else Inr \<lparr>dv_token = dev_token, dv_subject = subject, dv_email = email,
                dv_admin_group = admin_group\<rparr>)"

definition dev_verify :: "dev_verifier \<Rightarrow> verifier" where
  "dev_verify v raw_token =
     (if raw_token \<noteq> dv_token v then None
      else Some \<lparr>tc_subject = dv_subject v, tc_email = dv_email v,
                 tc_groups = {dv_admin_group v}, tc_expires_at = None\<rparr>)"

section \<open>The bearer check\<close>

definition unauth_missing :: reply where
  "unauth_missing = (HTTP_UNAUTHORIZED, err_detail ''unauthorized'' ''Bearer token required.'')"

definition unauth_invalid :: reply where
  "unauth_invalid = (HTTP_UNAUTHORIZED, err_detail ''unauthorized'' ''Invalid or expired token.'')"

definition auth_not_configured :: reply where
  "auth_not_configured =
     (HTTP_UNAVAILABLE,
      err_degraded ''auth_not_configured'' ''Authentication is not configured on this instance.'')"

text \<open>\<^verbatim>\<open>_extract_bearer_token\<close>: an absent and an empty header are the same, no token.\<close>

definition extract_bearer_token :: "string option \<Rightarrow> string option" where
  "extract_bearer_token authorization =
     (case authorization of
        None \<Rightarrow> None
      | Some a \<Rightarrow>
          if a = [] then None
          else (case split_ws1 a of
                  [scheme, rest] \<Rightarrow>
                    if py_lower scheme \<noteq> ''bearer'' then None
                    else let token = py_strip rest in if token = [] then None else Some token
                | _ \<Rightarrow> None))"

definition verify_and_extract ::
    "string option \<Rightarrow> verifier option \<Rightarrow> reply + token_claims" where
  "verify_and_extract authorization token_verifier =
     (case authorization of
        None \<Rightarrow> Inl unauth_missing
      | Some a \<Rightarrow>
          if a = [] then Inl unauth_missing
          else (case split_ws1 a of
                  [scheme, rest] \<Rightarrow>
                    if py_lower scheme \<noteq> ''bearer'' then Inl unauth_missing
                    else let raw_token = py_strip rest in
                      if raw_token = [] then Inl unauth_missing
                      else (case token_verifier of
                              None \<Rightarrow> Inl auth_not_configured
                            | Some verify \<Rightarrow>
                                (case verify raw_token of
                                   None \<Rightarrow> Inl unauth_invalid
                                 | Some claims \<Rightarrow> Inr claims))
                | _ \<Rightarrow> Inl unauth_missing))"

text \<open>\<^verbatim>\<open>_extract_tenant_id\<close>: the lower-cased email domain, \<^verbatim>\<open>default\<close> without one.\<close>

definition extract_tenant_id :: "token_claims \<Rightarrow> string" where
  "extract_tenant_id claims =
     (case split_char1 (CHR ''@'') (tc_email claims) of
        (_, Some domain) \<Rightarrow> py_lower domain
      | (_, None) \<Rightarrow> ''default'')"

text \<open>The identity every store operation is scoped to.\<close>

type_synonym owner = "string \<times> string"

definition owner_of :: "token_claims \<Rightarrow> owner" where
  "owner_of claims = (extract_tenant_id claims, tc_subject claims)"

section \<open>Principals and auth settings\<close>

datatype role = ADMIN | USER

record principal =
  pr_subject :: string
  pr_email :: string
  pr_roles :: "role set"

definition principal_build :: "string \<Rightarrow> string \<Rightarrow> role list \<Rightarrow> string + principal" where
  "principal_build subject email roles =
     (let subject = py_strip subject; email = py_lower (py_strip email); role_set = set roles in
      if subject = [] then Inl ''principal subject is required''
      else if email = [] then Inl ''principal email is required''
      else if role_set = {} then Inl ''at least one principal role is required''
      else Inr \<lparr>pr_subject = subject, pr_email = email, pr_roles = role_set\<rparr>)"

definition has_role :: "principal \<Rightarrow> role \<Rightarrow> bool" where
  "has_role p r = (r \<in> pr_roles p)"

record auth_settings =
  as_issuer_url :: "string option"
  as_audience :: "string option"
  as_admin_group :: "string option"

definition opt_truthy :: "string option \<Rightarrow> bool" where
  "opt_truthy x = (case x of None \<Rightarrow> False | Some s \<Rightarrow> s \<noteq> [])"

definition auth_is_configured :: "auth_settings \<Rightarrow> bool" where
  "auth_is_configured a =
     (opt_truthy (as_issuer_url a) \<and> opt_truthy (as_audience a) \<and> opt_truthy (as_admin_group a))"

section \<open>Lemmas\<close>

lemma verify_and_extract_bearer:
  "verify_and_extract authorization (Some verify) = Inr claims \<longleftrightarrow>
     (\<exists>t. extract_bearer_token authorization = Some t \<and> verify t = Some claims)"
  by (auto simp: verify_and_extract_def extract_bearer_token_def Let_def
      split: option.splits list.splits if_splits)

lemma verify_and_extract_no_verifier:
  "\<exists>e. verify_and_extract authorization None = Inl e"
  by (auto simp: verify_and_extract_def Let_def split: option.splits list.splits)

lemma verify_and_extract_error:
  "verify_and_extract authorization v = Inl e \<Longrightarrow>
     e \<in> {unauth_missing, unauth_invalid, auth_not_configured}"
  by (auto simp: verify_and_extract_def Let_def split: option.splits list.splits if_splits)

lemma auth_error_status:
  "verify_and_extract authorization v = Inl e \<Longrightarrow> fst e \<in> {401, 503}"
  by (auto dest!: verify_and_extract_error
      simp: unauth_missing_def unauth_invalid_def auth_not_configured_def)

lemma verify_and_extract_Inr:
  "verify_and_extract authorization v = Inr claims \<Longrightarrow>
     \<exists>verify t. v = Some verify \<and> extract_bearer_token authorization = Some t
       \<and> verify t = Some claims"
  by (cases v) (use verify_and_extract_no_verifier [of authorization] in
      \<open>auto simp: verify_and_extract_bearer\<close>)

text \<open>The token never has blanks around it and is never empty.\<close>

lemma extract_bearer_token_nonempty:
  "extract_bearer_token a = Some t \<Longrightarrow> t \<noteq> []"
  by (auto simp: extract_bearer_token_def Let_def split: option.splits list.splits if_splits)

lemma extract_tenant_id_default:
  "CHR ''@'' \<notin> set (tc_email c) \<Longrightarrow> extract_tenant_id c = ''default''"
  by (simp add: extract_tenant_id_def split_char1_none)

lemma extract_tenant_id_domain:
  "tc_email c = l @ CHR ''@'' # d \<Longrightarrow> CHR ''@'' \<notin> set l \<Longrightarrow> extract_tenant_id c = py_lower d"
  by (simp add: extract_tenant_id_def split_char1_some)

lemma dev_verifier_init_guard:
  "dev_verifier_init tok sub em grp env = Inr v \<longleftrightarrow>
     env \<notin> forbidden_environments \<and> tok \<noteq> []
       \<and> v = \<lparr>dv_token = tok, dv_subject = sub, dv_email = em, dv_admin_group = grp\<rparr>"
  by (auto simp: dev_verifier_init_def)

section \<open>Two example tokens\<close>

text \<open>Two callers of two tenants, for the concrete instances of the theorems.\<close>

definition alice_claims :: token_claims where
  "alice_claims = \<lparr>tc_subject = ''alice'', tc_email = ''alice@A.io'', tc_groups = {''admin''},
                   tc_expires_at = None\<rparr>"

definition bob_claims :: token_claims where
  "bob_claims = \<lparr>tc_subject = ''bob'', tc_email = ''bob@b.io'', tc_groups = {},
                 tc_expires_at = None\<rparr>"

definition two_users :: verifier where
  "two_users t =
     (if t = ''ta'' then Some alice_claims else if t = ''tb'' then Some bob_claims else None)"

lemma char_of_lower_eval [simp]: "lower_char (CHR ''B'') = CHR ''b''" "lower_char (CHR ''A'') = CHR ''a''"
  by (simp_all add: lower_char_def ord_of_def char_of_eq_iff)

lemma py_lower_bearer [simp]: "py_lower ''Bearer'' = ''bearer''"
  by (simp add: py_lower_def) (simp add: lower_char_def ord_of_def)

lemma example_bearer [simp]:
  "verify_and_extract (Some ''Bearer ta'') (Some two_users) = Inr alice_claims"
  "verify_and_extract (Some ''Bearer tb'') (Some two_users) = Inr bob_claims"
  by (simp_all add: verify_and_extract_def split_ws1_def py_lstrip_def py_strip_def py_rstrip_by_def
      is_space_def ord_of_def two_users_def Let_def)

lemma example_owner [simp]:
  "owner_of alice_claims = (''a.io'', ''alice'')" "owner_of bob_claims = (''b.io'', ''bob'')"
  "extract_tenant_id alice_claims = ''a.io''" "extract_tenant_id bob_claims = ''b.io''"
  "tc_subject alice_claims = ''alice''" "tc_subject bob_claims = ''bob''"
  by (simp_all add: owner_of_def extract_tenant_id_def split_char1_def alice_claims_def
      bob_claims_def py_lower_def) (simp_all add: lower_char_def ord_of_def)

end
