(* ===== verification/Stores.thy ===== *)
theory Stores
  imports Auth "HOL-Library.Multiset"
begin

text \<open>
  What the stores of the control plane have in common.  Each store protocol has two
  implementations: an in-memory one, a dictionary from the owner \<open>(tenant_id, user_id)\<close> to a
  list of items (\<open>buckets\<close>), and a PostgreSQL one, a table whose rows carry the owner and a
  primary key \<open>id\<close> (\<open>sql_\<dots>\<close>, the statements of the sources).  The order of a table's rows is
  arbitrary, so a stable sort of them covers every order \<^verbatim>\<open>ORDER BY\<close> may choose for ties.

  \<open>owner_scoped_store\<close> is the contract both kinds promise: a view of the items of one owner,
  all of them owned by it and with distinct ids.
\<close>

declare split_paired_All [simp del] split_paired_Ex [simp del]

section \<open>Buckets: dict of lists\<close>

type_synonym ('k, 'a) buckets = "'k \<Rightarrow> 'a list option"

text \<open>\<^verbatim>\<open>d.get(key, [])\<close> and \<^verbatim>\<open>d.setdefault(key, []).append(x)\<close>.\<close>

definition bucket :: "('k, 'a) buckets \<Rightarrow> 'k \<Rightarrow> 'a list" where
  "bucket d k = (case d k of None \<Rightarrow> [] | Some xs \<Rightarrow> xs)"

definition bucket_append :: "('k, 'a) buckets \<Rightarrow> 'k \<Rightarrow> 'a \<Rightarrow> ('k, 'a) buckets" where
  "bucket_append d k x = d(k \<mapsto> bucket d k @ [x])"

text \<open>
  The in-place loops over \<^verbatim>\<open>d.get(key, [])\<close>: when no element matches nothing is written, and
  the default list is not stored.
\<close>

definition bucket_update ::
    "('k, 'a) buckets \<Rightarrow> 'k \<Rightarrow> ('a \<Rightarrow> bool) \<Rightarrow> ('a \<Rightarrow> 'a) \<Rightarrow> 'a option \<times> ('k, 'a) buckets" where
  "bucket_update d k p f =
     (case find p (bucket d k) of
        None \<Rightarrow> (None, d)
      | Some x \<Rightarrow> (Some (f x), d(k \<mapsto> update_first p f (bucket d k))))"

definition bucket_delete ::
    "('k, 'a) buckets \<Rightarrow> 'k \<Rightarrow> ('a \<Rightarrow> bool) \<Rightarrow> bool \<times> ('k, 'a) buckets" where
  "bucket_delete d k p =
     (if list_ex p (bucket d k) then (True, d(k \<mapsto> delete_first p (bucket d k))) else (False, d))"

lemma bucket_empty [simp]: "bucket Map.empty k = []"
  by (simp add: bucket_def)

lemma bucket_upd [simp]: "bucket (d(k \<mapsto> xs)) k' = (if k' = k then xs else bucket d k')"
  by (simp add: bucket_def)

lemma bucket_bucket_append [simp]:
  "bucket (bucket_append d k x) k' = (if k' = k then bucket d k @ [x] else bucket d k')"
  by (simp add: bucket_append_def)

lemma bucket_snd_update [simp]:
  "bucket (snd (bucket_update d k p f)) k' =
     (if k' = k then update_first p f (bucket d k) else bucket d k')"
  by (auto simp: bucket_update_def find_None_list_ex split: option.splits)

lemma fst_bucket_update [simp]:
  "fst (bucket_update d k p f) = map_option f (find p (bucket d k))"
  by (auto simp: bucket_update_def split: option.splits)

lemma bucket_snd_delete [simp]:
  "bucket (snd (bucket_delete d k p)) k' =
     (if k' = k then delete_first p (bucket d k) else bucket d k')"
  by (auto simp: bucket_delete_def)

lemma fst_bucket_delete [simp]: "fst (bucket_delete d k p) = list_ex p (bucket d k)"
  by (auto simp: bucket_delete_def)

text \<open>The invariant of a bucket store: items sit in their owner's bucket, with distinct ids.\<close>

definition buckets_ok ::
    "('a \<Rightarrow> owner) \<Rightarrow> ('a \<Rightarrow> string) \<Rightarrow> (owner, 'a) buckets \<Rightarrow> bool" where
  "buckets_ok own ident d \<longleftrightarrow>
     (\<forall>k. (\<forall>x \<in> set (bucket d k). own x = k) \<and> distinct (map ident (bucket d k)))"

lemma buckets_okI:
  assumes "\<And>k x. x \<in> set (bucket d k) \<Longrightarrow> own x = k"
    and "\<And>k. distinct (map ident (bucket d k))"
  shows "buckets_ok own ident d"
  using assms unfolding buckets_ok_def by blast

lemma buckets_ok_own: "buckets_ok own ident d \<Longrightarrow> x \<in> set (bucket d k) \<Longrightarrow> own x = k"
  unfolding buckets_ok_def by blast

lemma buckets_ok_distinct: "buckets_ok own ident d \<Longrightarrow> distinct (map ident (bucket d k))"
  unfolding buckets_ok_def by blast

lemma buckets_ok_empty [simp]: "buckets_ok own ident Map.empty"
  by (simp add: buckets_ok_def)

lemma buckets_ok_append:
  assumes "buckets_ok own ident d" and "ident x \<notin> ident ` set (bucket d (own x))"
  shows "buckets_ok own ident (bucket_append d (own x) x)"
proof (rule buckets_okI)
  fix k y
  assume "y \<in> set (bucket (bucket_append d (own x) x) k)"
  then show "own y = k"
    by (auto split: if_splits dest: buckets_ok_own [OF assms(1)])
next
  fix k
  show "distinct (map ident (bucket (bucket_append d (own x) x) k))"
    using assms by (simp add: buckets_ok_distinct)
qed

lemma buckets_ok_update:
  assumes "buckets_ok own ident d"
    and "\<And>x. own (f x) = own x" and "\<And>x. ident (f x) = ident x"
  shows "buckets_ok own ident (snd (bucket_update d k p f))"
proof (rule buckets_okI)
  fix k' y
  assume "y \<in> set (bucket (snd (bucket_update d k p f)) k')"
  then show "own y = k'"
    using set_update_first [of p f "bucket d k"] assms(2)
    by (auto split: if_splits dest: buckets_ok_own [OF assms(1)])
next
  fix k'
  have "map ident (update_first p f xs) = map ident xs" for xs
    by (rule map_update_first) (rule assms(3))
  then show "distinct (map ident (bucket (snd (bucket_update d k p f)) k'))"
    using assms(1) by (simp add: buckets_ok_distinct)
qed

lemma distinct_map_delete_first:
  "distinct (map g xs) \<Longrightarrow> distinct (map g (delete_first p xs))"
  by (induction xs) (auto dest: set_delete_first [THEN subsetD])

lemma buckets_ok_delete:
  assumes "buckets_ok own ident d"
  shows "buckets_ok own ident (snd (bucket_delete d k p))"
proof (rule buckets_okI)
  fix k' y
  assume "y \<in> set (bucket (snd (bucket_delete d k p)) k')"
  then show "own y = k'"
    by (auto split: if_splits dest: set_delete_first [THEN subsetD] buckets_ok_own [OF assms])
next
  fix k'
  show "distinct (map ident (bucket (snd (bucket_delete d k p)) k'))"
    using assms by (simp add: buckets_ok_distinct distinct_map_delete_first)
qed

section \<open>Tables: SQL statements\<close>

text \<open>\<^verbatim>\<open>INSERT \<dots> ON CONFLICT (id) DO NOTHING\<close>.\<close>

definition sql_insert :: "('a \<Rightarrow> string) \<Rightarrow> 'a \<Rightarrow> 'a list \<Rightarrow> 'a list" where
  "sql_insert ident x rows = (if ident x \<in> ident ` set rows then rows else rows @ [x])"

text \<open>\<^verbatim>\<open>UPDATE \<dots> WHERE p RETURNING \<dots>\<close> with \<^verbatim>\<open>fetchone\<close>, and \<^verbatim>\<open>DELETE \<dots> WHERE p\<close> with a row count.\<close>

definition sql_update :: "('a \<Rightarrow> bool) \<Rightarrow> ('a \<Rightarrow> 'a) \<Rightarrow> 'a list \<Rightarrow> 'a option \<times> 'a list" where
  "sql_update p f rows =
     (map_option f (find p rows), map (\<lambda>x. if p x then f x else x) rows)"

definition sql_delete :: "('a \<Rightarrow> bool) \<Rightarrow> 'a list \<Rightarrow> bool \<times> 'a list" where
  "sql_delete p rows = (list_ex p rows, filter (\<lambda>x. \<not> p x) rows)"

text \<open>\<^verbatim>\<open>SELECT \<dots> WHERE p ORDER BY k DESC LIMIT n\<close>.\<close>

definition sql_select_desc ::
    "('a \<Rightarrow> bool) \<Rightarrow> ('a \<Rightarrow> 'k::linordered_idom) \<Rightarrow> int \<Rightarrow> 'a list \<Rightarrow> 'a list" where
  "sql_select_desc p k n rows = slice_to n (sort_desc k (filter p rows))"

definition table_view :: "('a \<Rightarrow> owner) \<Rightarrow> 'a list \<Rightarrow> owner \<Rightarrow> 'a list" where
  "table_view own rows o' = filter (\<lambda>x. own x = o') rows"

definition table_ok :: "('a \<Rightarrow> string) \<Rightarrow> 'a list \<Rightarrow> bool" where
  "table_ok ident rows = distinct (map ident rows)"

lemma table_ok_insert: "table_ok ident rows \<Longrightarrow> table_ok ident (sql_insert ident x rows)"
  by (auto simp: table_ok_def sql_insert_def)

lemma table_ok_update:
  assumes "table_ok ident rows" and "\<And>x. ident (f x) = ident x"
  shows "table_ok ident (snd (sql_update p f rows))"
proof -
  have "map ident (map (\<lambda>x. if p x then f x else x) rows) = map ident rows"
    by (simp add: assms(2))
  with assms(1) show ?thesis
    by (simp add: table_ok_def sql_update_def del: map_map)
qed

lemma table_ok_delete: "table_ok ident rows \<Longrightarrow> table_ok ident (snd (sql_delete p rows))"
  by (auto simp: table_ok_def sql_delete_def distinct_map intro: inj_on_subset)

lemma table_view_insert:
  "ident x \<notin> ident ` set rows \<Longrightarrow>
     table_view own (sql_insert ident x rows) o' =
       table_view own rows o' @ (if own x = o' then [x] else [])"
  by (simp add: table_view_def sql_insert_def)

lemma table_view_update:
  assumes "\<And>x. own (f x) = own x"
  shows "table_view own (snd (sql_update p f rows)) o' =
           map (\<lambda>x. if p x then f x else x) (table_view own rows o')"
  by (induction rows) (auto simp: table_view_def sql_update_def assms)

lemma table_view_delete:
  "table_view own (snd (sql_delete p rows)) o' = filter (\<lambda>x. \<not> p x) (table_view own rows o')"
  by (auto simp: table_view_def sql_delete_def intro: filter_cong)

lemma table_ok_view: "table_ok ident rows \<Longrightarrow> distinct (map ident (table_view own rows o'))"
  by (simp add: table_ok_def table_view_def distinct_map_filter)

lemma sql_select_desc_length: "0 \<le> n \<Longrightarrow> length (sql_select_desc p k n rows) \<le> nat n"
  by (simp add: sql_select_desc_def length_slice_to)

lemma sql_select_desc_set: "set (sql_select_desc p k n rows) \<subseteq> {x \<in> set rows. p x}"
  using set_slice_to by (fastforce simp: sql_select_desc_def)

lemma fst_sql_update [simp]: "fst (sql_update p f rows) = map_option f (find p rows)"
  by (simp add: sql_update_def)

lemma fst_sql_delete [simp]: "fst (sql_delete p rows) = list_ex p rows"
  by (simp add: sql_delete_def)

text \<open>Statements whose \<^verbatim>\<open>WHERE\<close> pins the owner touch the view of that owner only.\<close>

lemma find_table_view:
  "find (\<lambda>x. p x \<and> own x = o') rows = find p (table_view own rows o')"
  by (induction rows) (auto simp: table_view_def)

lemma list_ex_table_view:
  "list_ex (\<lambda>x. p x \<and> own x = o') rows = list_ex p (table_view own rows o')"
  by (induction rows) (auto simp: table_view_def)

lemma list_ex_ident [simp]: "list_ex (\<lambda>x. ident x = i) xs \<longleftrightarrow> i \<in> ident ` set xs"
  by (auto simp: list_ex_iff)

lemmas table_facts =
  table_ok_insert table_ok_update table_ok_delete find_table_view list_ex_table_view

lemma table_view_update_owned:
  assumes "\<And>x. own (f x) = own x"
  shows "table_view own (snd (sql_update (\<lambda>x. p x \<and> own x = o1) f rows)) o2 =
           (if o2 = o1 then map (\<lambda>x. if p x then f x else x) (table_view own rows o1)
            else table_view own rows o2)"
  by (induction rows) (auto simp: table_view_def sql_update_def assms)

lemma table_view_delete_owned:
  "table_view own (snd (sql_delete (\<lambda>x. p x \<and> own x = o1) rows)) o2 =
     (if o2 = o1 then filter (\<lambda>x. \<not> p x) (table_view own rows o1) else table_view own rows o2)"
  by (induction rows) (auto simp: table_view_def sql_delete_def)

section \<open>The contract of an owner-scoped store\<close>

text \<open>An id that no stored item has: what a new UUID is.\<close>

definition fresh_id :: "('a \<Rightarrow> string) \<Rightarrow> ('s \<Rightarrow> 'o \<Rightarrow> 'a list) \<Rightarrow> 's \<Rightarrow> string \<Rightarrow> bool" where
  "fresh_id ident view s i \<longleftrightarrow> (\<forall>o'. i \<notin> ident ` set (view s o'))"

lemma fresh_id_bucket: "fresh_id ident bucket s i \<Longrightarrow> i \<notin> ident ` set (bucket s k)"
  by (simp only: fresh_id_def) blast

lemma fresh_id_table: "fresh_id ident (table_view own) s i \<longleftrightarrow> i \<notin> ident ` set s"
  by (auto simp only: fresh_id_def table_view_def set_filter image_iff mem_Collect_eq)

locale owner_scoped_store =
  fixes item_owner :: "'a \<Rightarrow> owner"
    and item_id :: "'a \<Rightarrow> string"
    and view :: "'s \<Rightarrow> owner \<Rightarrow> 'a list"
    and inv :: "'s \<Rightarrow> bool"
  assumes view_owner: "inv s \<Longrightarrow> x \<in> set (view s o') \<Longrightarrow> item_owner x = o'"
    and view_distinct: "inv s \<Longrightarrow> distinct (map item_id (view s o'))"
begin

lemma view_disjoint:
  assumes "inv s" and "o1 \<noteq> o2"
  shows "set (view s o1) \<inter> set (view s o2) = {}"
  using assms view_owner by blast

lemma view_unique:
  assumes "inv s" and "x \<in> set (view s o')" and "y \<in> set (view s o')" and "item_id x = item_id y"
  shows "x = y"
  using assms view_distinct [of s o'] by (auto simp: distinct_map dest: inj_onD)

end

lemma buckets_scoped: "owner_scoped_store own ident bucket (buckets_ok own ident)"
  by unfold_locales (simp_all add: buckets_ok_own buckets_ok_distinct)

lemma table_scoped: "owner_scoped_store own ident (table_view own) (table_ok ident)"
  by unfold_locales (auto simp: table_ok_view, simp add: table_view_def)

end
