(* ===== verification/Notes.thy ===== *)
theory Notes
  imports Stores
begin

text \<open>
  Notes, tasks and documents (app/control_plane/notes.py): the item, the store protocol as a
  record of operations, its in-memory and PostgreSQL implementations, the contract both keep
  (locale \<open>notes_store_contract\<close>), and the four request handlers over any store.
  \<^verbatim>\<open>_now_utc()\<close> and \<^verbatim>\<open>uuid.uuid4()\<close> are the arguments \<open>now\<close> and \<open>uid\<close>.
\<close>

section \<open>Data\<close>

definition KINDS :: "string list" where
  "KINDS = [''note'', ''task'', ''doc'']"

definition MAX_TITLE_CHARS :: nat where "MAX_TITLE_CHARS = 500"
definition MAX_BODY_CHARS :: nat where "MAX_BODY_CHARS = 20000"
definition NOTES_MAX_LIST_LIMIT :: int where "NOTES_MAX_LIST_LIMIT = 200"

record note_item =
  ni_id :: string
  ni_tenant_id :: string
  ni_user_id :: string
  ni_kind :: string
  ni_title :: string
  ni_body :: string
  ni_done :: bool
  ni_created_at :: datetime
  ni_updated_at :: datetime

definition ni_owner :: "note_item \<Rightarrow> owner" where
  "ni_owner it = (ni_tenant_id it, ni_user_id it)"

definition note_to_api_dict :: "note_item \<Rightarrow> json" where
  "note_to_api_dict it =
     JObj [(''id'', JStr (ni_id it)), (''kind'', JStr (ni_kind it)), (''title'', JStr (ni_title it)),
           (''body'', JStr (ni_body it)), (''done'', JBool (ni_done it)),
           (''created_at'', JStr (isoformat (ni_created_at it))),
           (''updated_at'', JStr (isoformat (ni_updated_at it)))]"

text \<open>\<^verbatim>\<open>replace(it, title=\<dots>, body=\<dots>, done=\<dots>, updated_at=now)\<close>; an absent field is kept.\<close>

definition note_edit ::
    "string option \<Rightarrow> string option \<Rightarrow> bool option \<Rightarrow> datetime \<Rightarrow> note_item \<Rightarrow> note_item" where
  "note_edit title body don now it =
     it\<lparr>ni_title := (case title of None \<Rightarrow> ni_title it | Some t \<Rightarrow> t),
        ni_body := (case body of None \<Rightarrow> ni_body it | Some b \<Rightarrow> b),
        ni_done := (case don of None \<Rightarrow> ni_done it | Some d \<Rightarrow> d),
        ni_updated_at := now\<rparr>"

definition kind_matches :: "string option \<Rightarrow> note_item \<Rightarrow> bool" where
  "kind_matches kind it = (case kind of None \<Rightarrow> True | Some k \<Rightarrow> ni_kind it = k)"

section \<open>The store protocol and its two implementations\<close>

record 's notes_store =
  ns_create :: "note_item \<Rightarrow> 's \<Rightarrow> 's"
  ns_list_for_user :: "owner \<Rightarrow> string option \<Rightarrow> int \<Rightarrow> 's \<Rightarrow> note_item list"
  ns_update :: "owner \<Rightarrow> string \<Rightarrow> string option \<Rightarrow> string option \<Rightarrow> bool option \<Rightarrow> datetime
                  \<Rightarrow> 's \<Rightarrow> note_item option \<times> 's"
  ns_delete :: "owner \<Rightarrow> string \<Rightarrow> 's \<Rightarrow> bool \<times> 's"

type_synonym mem_notes = "(owner, note_item) buckets"
type_synonym pg_notes = "note_item list"

definition mem_notes_create :: "note_item \<Rightarrow> mem_notes \<Rightarrow> mem_notes" where
  "mem_notes_create it s = bucket_append s (ni_owner it) it"

definition mem_notes_list :: "owner \<Rightarrow> string option \<Rightarrow> int \<Rightarrow> mem_notes \<Rightarrow> note_item list" where
  "mem_notes_list key kind limit s =
     (let items = bucket s key;
          items = (case kind of None \<Rightarrow> items | Some k \<Rightarrow> filter (\<lambda>i. ni_kind i = k) items)
      in slice_to limit (rev items))"

definition mem_notes_update ::
    "owner \<Rightarrow> string \<Rightarrow> string option \<Rightarrow> string option \<Rightarrow> bool option \<Rightarrow> datetime
       \<Rightarrow> mem_notes \<Rightarrow> note_item option \<times> mem_notes" where
  "mem_notes_update key item_id title body don now s =
     bucket_update s key (\<lambda>it. ni_id it = item_id) (note_edit title body don now)"

definition mem_notes_delete :: "owner \<Rightarrow> string \<Rightarrow> mem_notes \<Rightarrow> bool \<times> mem_notes" where
  "mem_notes_delete key item_id s = bucket_delete s key (\<lambda>it. ni_id it = item_id)"

definition InMemoryNotesStore :: "mem_notes notes_store" where
  "InMemoryNotesStore =
     \<lparr>ns_create = mem_notes_create, ns_list_for_user = mem_notes_list,
      ns_update = mem_notes_update, ns_delete = mem_notes_delete\<rparr>"

definition pg_notes_create :: "note_item \<Rightarrow> pg_notes \<Rightarrow> pg_notes" where
  "pg_notes_create it rows = sql_insert ni_id it rows"

definition pg_notes_list :: "owner \<Rightarrow> string option \<Rightarrow> int \<Rightarrow> pg_notes \<Rightarrow> note_item list" where
  "pg_notes_list key kind limit rows =
     sql_select_desc (\<lambda>it. ni_owner it = key \<and> kind_matches kind it) ni_created_at limit rows"

definition pg_notes_update ::
    "owner \<Rightarrow> string \<Rightarrow> string option \<Rightarrow> string option \<Rightarrow> bool option \<Rightarrow> datetime
       \<Rightarrow> pg_notes \<Rightarrow> note_item option \<times> pg_notes" where
  "pg_notes_update key item_id title body don now rows =
     sql_update (\<lambda>it. ni_id it = item_id \<and> ni_owner it = key) (note_edit title body don now) rows"

definition pg_notes_delete :: "owner \<Rightarrow> string \<Rightarrow> pg_notes \<Rightarrow> bool \<times> pg_notes" where
  "pg_notes_delete key item_id rows =
     sql_delete (\<lambda>it. ni_id it = item_id \<and> ni_owner it = key) rows"

definition PostgresNotesStore :: "pg_notes notes_store" where
  "PostgresNotesStore =
     \<lparr>ns_create = pg_notes_create, ns_list_for_user = pg_notes_list,
      ns_update = pg_notes_update, ns_delete = pg_notes_delete\<rparr>"

section \<open>Handlers\<close>

text \<open>\<^verbatim>\<open>_validate_text\<close>: the accepted text, or the error reply.\<close>

definition validate_text :: "json \<Rightarrow> string \<Rightarrow> nat \<Rightarrow> bool \<Rightarrow> reply + string" where
  "validate_text value field max_chars required =
     (if value = JNull \<and> \<not> required then Inr []
      else (case value of
              JStr v \<Rightarrow>
                if required \<and> py_strip v = [] then Inl (bad_request (quoted field @ '' is required.''))
                else if max_chars < length v
                then Inl (HTTP_TOO_LARGE, err_detail ''payload_too_large''
                            (quoted field @ '' exceeds '' @ str_nat max_chars @ '' characters.''))
                else Inr v
            | _ \<Rightarrow> Inl (bad_request (quoted field @ '' is required.''))))"

definition kind_error :: reply where
  "kind_error =
     bad_request (quoted ''kind'' @ '' must be one of ['' @ quoted ''note'' @ '', ''
                  @ quoted ''task'' @ '', '' @ quoted ''doc'' @ ''].'')"

text \<open>
  The body of a create request: the error reply of the first check that fails, or the
  checked kind, title, text and done flag.
\<close>

definition note_create_fields :: "json option \<Rightarrow> reply + string \<times> string \<times> string \<times> bool" where
  "note_create_fields body =
     (case body of
        None \<Rightarrow> Inl (bad_request ''Body is not valid JSON.'')
      | Some (JObj data) \<Rightarrow>
          (let kind = dget_or data ''kind'' (JStr ''note'') in
           if \<not> in_str_tuple kind KINDS then Inl kind_error
           else
             (case validate_text (dget data ''title'') ''title'' MAX_TITLE_CHARS True of
                Inl terr \<Rightarrow> Inl terr
              | Inr title \<Rightarrow>
                  (case validate_text (dget data ''body'') ''body'' MAX_BODY_CHARS False of
                     Inl berr \<Rightarrow> Inl berr
                   | Inr text \<Rightarrow>
                       Inr (py_str (\<lambda>_. []) kind, title, text,
                            truthy (dget_or data ''done'' (JBool False))))))
      | Some _ \<Rightarrow> Inl (HTTP_BAD_REQUEST, err_only ''bad_request''))"

definition build_note_create_response ::
    "'s notes_store \<Rightarrow> datetime \<Rightarrow> string \<Rightarrow> string option \<Rightarrow> json option \<Rightarrow> verifier option
       \<Rightarrow> 's \<Rightarrow> reply \<times> 's" where
  "build_note_create_response store now uid authorization body token_verifier s =
     (case verify_and_extract authorization token_verifier of
        Inl err \<Rightarrow> (err, s)
      | Inr claims \<Rightarrow>
     (case note_create_fields body of
        Inl err \<Rightarrow> (err, s)
      | Inr (kind, title, text, don) \<Rightarrow>
          let item = \<lparr>ni_id = uid, ni_tenant_id = extract_tenant_id claims,
                      ni_user_id = tc_subject claims, ni_kind = kind, ni_title = title,
                      ni_body = text, ni_done = don, ni_created_at = now, ni_updated_at = now\<rparr>
          in ((HTTP_CREATED, note_to_api_dict item), ns_create store item s)))"

definition build_notes_list_response ::
    "'s notes_store \<Rightarrow> string option \<Rightarrow> verifier option \<Rightarrow> string option \<Rightarrow> int \<Rightarrow> 's \<Rightarrow> reply" where
  "build_notes_list_response store authorization token_verifier kind limit s =
     (case verify_and_extract authorization token_verifier of
        Inl err \<Rightarrow> err
      | Inr claims \<Rightarrow>
          if (case kind of None \<Rightarrow> False | Some k \<Rightarrow> k \<notin> set KINDS)
          then bad_request (''invalid '' @ quoted ''kind'' @ ''.'')
          else
            let limit = clamp_limit NOTES_MAX_LIST_LIMIT limit;
                items = ns_list_for_user store (owner_of claims) kind limit s
            in (HTTP_OK, JObj [(''notes'', JArr (map note_to_api_dict items)),
                               (''count'', JInt (int (length items)))]))"

text \<open>\<^verbatim>\<open>if k in data: v, err = _validate_text(data.get(k), ...)\<close>.\<close>

definition optional_text :: "dict \<Rightarrow> string \<Rightarrow> nat \<Rightarrow> bool \<Rightarrow> reply + string option" where
  "optional_text data k max_chars required =
     (if dhas data k
      then (case validate_text (dget data k) k max_chars required of
              Inl err \<Rightarrow> Inl err | Inr v \<Rightarrow> Inr (Some v))
      else Inr None)"

definition note_update_fields ::
    "json option \<Rightarrow> reply + string option \<times> string option \<times> bool option" where
  "note_update_fields body =
     (case body of
        None \<Rightarrow> Inl (bad_request ''Body is not valid JSON.'')
      | Some (JObj data) \<Rightarrow>
          (case optional_text data ''title'' MAX_TITLE_CHARS True of
             Inl terr \<Rightarrow> Inl terr
           | Inr title \<Rightarrow>
               (case optional_text data ''body'' MAX_BODY_CHARS False of
                  Inl berr \<Rightarrow> Inl berr
                | Inr body_text \<Rightarrow>
                    (case dget data ''done'' of
                       JNull \<Rightarrow> Inr (title, body_text, None)
                     | JBool d \<Rightarrow> Inr (title, body_text, Some d)
                     | _ \<Rightarrow> Inl (bad_request (quoted ''done'' @ '' must be a boolean.'')))))
      | Some _ \<Rightarrow> Inl (HTTP_BAD_REQUEST, err_only ''bad_request''))"

definition build_note_update_response ::
    "'s notes_store \<Rightarrow> datetime \<Rightarrow> string option \<Rightarrow> string \<Rightarrow> json option \<Rightarrow> verifier option
       \<Rightarrow> 's \<Rightarrow> reply \<times> 's" where
  "build_note_update_response store now authorization item_id body token_verifier s =
     (case verify_and_extract authorization token_verifier of
        Inl err \<Rightarrow> (err, s)
      | Inr claims \<Rightarrow>
     (case note_update_fields body of
        Inl err \<Rightarrow> (err, s)
      | Inr (title, body_text, don) \<Rightarrow>
          let (updated, s') = ns_update store (owner_of claims) item_id title body_text don now s
          in ((case updated of
                 None \<Rightarrow> (HTTP_NOT_FOUND, err_only ''not_found'')
               | Some it \<Rightarrow> (HTTP_OK, note_to_api_dict it)), s')))"

definition build_note_delete_response ::
    "'s notes_store \<Rightarrow> string option \<Rightarrow> string \<Rightarrow> verifier option \<Rightarrow> 's \<Rightarrow> reply \<times> 's" where
  "build_note_delete_response store authorization item_id token_verifier s =
     (case verify_and_extract authorization token_verifier of
        Inl err \<Rightarrow> (err, s)
      | Inr claims \<Rightarrow>
          let (ok, s') = ns_delete store (owner_of claims) item_id s
          in (if \<not> ok then (HTTP_NOT_FOUND, err_only ''not_found'')
              else (HTTP_OK, JObj [(''status'', JStr ''deleted''), (''id'', JStr item_id)]), s'))"

text \<open>The four endpoints as one step of the notes component.\<close>

datatype note_request =
    NoteCreate "string option" "json option" string
  | NoteList "string option" "string option" int
  | NoteUpdate "string option" string "json option"
  | NoteDelete "string option" string

fun note_auth :: "note_request \<Rightarrow> string option" where
  "note_auth (NoteCreate a b u) = a"
| "note_auth (NoteList a k n) = a"
| "note_auth (NoteUpdate a i b) = a"
| "note_auth (NoteDelete a i) = a"

fun notes_step ::
    "'s notes_store \<Rightarrow> verifier option \<Rightarrow> datetime \<Rightarrow> note_request \<Rightarrow> 's \<Rightarrow> reply \<times> 's" where
  "notes_step store v now (NoteCreate a b uid) s = build_note_create_response store now uid a b v s"
| "notes_step store v now (NoteList a k n) s = (build_notes_list_response store a v k n s, s)"
| "notes_step store v now (NoteUpdate a i b) s = build_note_update_response store now a i b v s"
| "notes_step store v now (NoteDelete a i) s = build_note_delete_response store a i v s"

section \<open>The contract\<close>

locale notes_store_contract = owner_scoped_store ni_owner ni_id view inv
  for view :: "'s \<Rightarrow> owner \<Rightarrow> note_item list" and inv :: "'s \<Rightarrow> bool" +
  fixes store :: "'s notes_store"
    and order :: "note_item list \<Rightarrow> note_item list"
  assumes mset_order: "mset (order xs) = mset xs"
    and inv_create: "inv s \<Longrightarrow> fresh_id ni_id view s (ni_id it) \<Longrightarrow> inv (ns_create store it s)"
    and view_create: "inv s \<Longrightarrow> fresh_id ni_id view s (ni_id it) \<Longrightarrow>
      view (ns_create store it s) o' = view s o' @ (if ni_owner it = o' then [it] else [])"
    and list_view: "inv s \<Longrightarrow> ns_list_for_user store o' kind n s =
      slice_to n (order (filter (kind_matches kind) (view s o')))"
    and inv_update: "inv s \<Longrightarrow> inv (snd (ns_update store o' i t b d now s))"
    and update_result: "inv s \<Longrightarrow> fst (ns_update store o' i t b d now s) =
      map_option (note_edit t b d now) (find (\<lambda>it. ni_id it = i) (view s o'))"
    and view_update: "inv s \<Longrightarrow> view (snd (ns_update store o1 i t b d now s)) o2 =
      (if o2 = o1 then map (\<lambda>it. if ni_id it = i then note_edit t b d now it else it) (view s o1)
       else view s o2)"
    and inv_delete: "inv s \<Longrightarrow> inv (snd (ns_delete store o' i s))"
    and delete_result: "inv s \<Longrightarrow> fst (ns_delete store o' i s) = (i \<in> ni_id ` set (view s o'))"
    and view_delete: "inv s \<Longrightarrow> view (snd (ns_delete store o1 i s)) o2 =
      (if o2 = o1 then filter (\<lambda>it. ni_id it \<noteq> i) (view s o1) else view s o2)"
begin

lemma set_list_view:
  "inv s \<Longrightarrow> it \<in> set (ns_list_for_user store o' kind n s) \<Longrightarrow>
     it \<in> set (view s o') \<and> kind_matches kind it"
  using set_slice_to mset_order [THEN mset_eq_setD] by (fastforce simp: list_view)

lemma length_list:
  "inv s \<Longrightarrow> 0 \<le> n \<Longrightarrow> length (ns_list_for_user store o' kind n s) =
     min (nat n) (length (filter (kind_matches kind) (view s o')))"
  using mset_order [THEN mset_eq_length] by (simp add: list_view slice_to_def)

end

lemma note_edit_owner [simp]: "ni_owner (note_edit t b d now it) = ni_owner it"
  by (simp add: note_edit_def ni_owner_def)

lemma note_edit_id [simp]: "ni_id (note_edit t b d now it) = ni_id it"
  by (simp add: note_edit_def)

lemma filter_kind_matches:
  "(case kind of None \<Rightarrow> xs | Some k \<Rightarrow> filter (\<lambda>i. ni_kind i = k) xs) = filter (kind_matches kind) xs"
  by (cases kind) (simp_all add: kind_matches_def [abs_def])

interpretation mem_notes: notes_store_contract
  bucket "buckets_ok ni_owner ni_id" InMemoryNotesStore rev
proof (intro notes_store_contract.intro buckets_scoped notes_store_contract_axioms.intro)
  fix s :: mem_notes and it :: note_item and i o1 o2 o' t b d now
  let ?ok = "buckets_ok ni_owner ni_id"
  show "?ok (ns_create InMemoryNotesStore it s)" 
    if "?ok s" "fresh_id ni_id bucket s (ni_id it)"
    using that
    by (simp add: InMemoryNotesStore_def mem_notes_create_def buckets_ok_append fresh_id_bucket)
  show "?ok (snd (ns_update InMemoryNotesStore o' i t b d now s))" if "?ok s"
    using that by (simp add: InMemoryNotesStore_def mem_notes_update_def buckets_ok_update)
  show "bucket (snd (ns_update InMemoryNotesStore o1 i t b d now s)) o2 =
      (if o2 = o1 then map (\<lambda>it. if ni_id it = i then note_edit t b d now it else it) (bucket s o1)
       else bucket s o2)" if "?ok s"
    using that
    by (simp add: InMemoryNotesStore_def mem_notes_update_def update_first_map buckets_ok_distinct)
  show "?ok (snd (ns_delete InMemoryNotesStore o' i s))" if "?ok s"
    using that by (simp add: InMemoryNotesStore_def mem_notes_delete_def buckets_ok_delete)
  show "bucket (snd (ns_delete InMemoryNotesStore o1 i s)) o2 =
      (if o2 = o1 then filter (\<lambda>it. ni_id it \<noteq> i) (bucket s o1) else bucket s o2)" if "?ok s"
    using that
    by (simp add: InMemoryNotesStore_def mem_notes_delete_def delete_first_filter buckets_ok_distinct)
qed (auto simp: InMemoryNotesStore_def mem_notes_create_def mem_notes_list_def mem_notes_update_def
      mem_notes_delete_def filter_kind_matches Let_def list_ex_iff)

interpretation pg_notes: notes_store_contract
  "table_view ni_owner" "table_ok ni_id" PostgresNotesStore "sort_desc ni_created_at"
proof (intro notes_store_contract.intro table_scoped notes_store_contract_axioms.intro)
  fix s :: pg_notes and it :: note_item and o' kind n
  show "table_view ni_owner (ns_create PostgresNotesStore it s) o' =
      table_view ni_owner s o' @ (if ni_owner it = o' then [it] else [])"
    if "fresh_id ni_id (table_view ni_owner) s (ni_id it)"
    using that
    by (simp add: PostgresNotesStore_def pg_notes_create_def table_view_insert fresh_id_table)
  show "ns_list_for_user PostgresNotesStore o' kind n s =
      slice_to n (sort_desc ni_created_at (filter (kind_matches kind) (table_view ni_owner s o')))"
    by (simp add: PostgresNotesStore_def pg_notes_list_def sql_select_desc_def table_view_def
        conj_commute)
qed (simp_all add: PostgresNotesStore_def pg_notes_create_def pg_notes_update_def
      pg_notes_delete_def sort_desc_def table_facts table_view_update_owned
      table_view_delete_owned)

section \<open>What the handlers keep\<close>

text \<open>The limits every stored item meets.\<close>

definition note_ok :: "note_item \<Rightarrow> bool" where
  "note_ok it \<longleftrightarrow>
     ni_kind it \<in> set KINDS \<and> py_strip (ni_title it) \<noteq> [] \<and>
     length (ni_title it) \<le> MAX_TITLE_CHARS \<and> length (ni_body it) \<le> MAX_BODY_CHARS"

text \<open>The UUID of a create request is new to the store.\<close>

fun note_req_fresh :: "('s \<Rightarrow> owner \<Rightarrow> note_item list) \<Rightarrow> 's \<Rightarrow> note_request \<Rightarrow> bool" where
  "note_req_fresh view s (NoteCreate a b uid) = fresh_id ni_id view s uid"
| "note_req_fresh view s r = True"

inductive notes_reachable ::
    "'s notes_store \<Rightarrow> ('s \<Rightarrow> owner \<Rightarrow> note_item list) \<Rightarrow> verifier option \<Rightarrow> 's \<Rightarrow> 's \<Rightarrow> bool"
  for store view v s0 where
  notes_start: "notes_reachable store view v s0 s0"
| notes_next: "notes_reachable store view v s0 s \<Longrightarrow> note_req_fresh view s r \<Longrightarrow>
     notes_reachable store view v s0 (snd (notes_step store v now r s))"

lemma validate_text_Inr:
  "validate_text v f m r = Inr t \<Longrightarrow> length t \<le> m \<and> (r \<longrightarrow> py_strip t \<noteq> [])"
  by (auto simp: validate_text_def split: json.splits if_splits)

lemma optional_text_Inr:
  "optional_text d k m r = Inr (Some t) \<Longrightarrow> length t \<le> m \<and> (r \<longrightarrow> py_strip t \<noteq> [])"
  by (auto simp: optional_text_def split: if_splits sum.splits dest: validate_text_Inr)

lemma note_create_fields_Inr:
  assumes "note_create_fields body = Inr (k, t, b, d)"
  shows "k \<in> set KINDS \<and> length t \<le> MAX_TITLE_CHARS \<and> py_strip t \<noteq> [] \<and> length b \<le> MAX_BODY_CHARS"
proof -
  obtain data where data: "body = Some (JObj data)"
    using assms by (auto simp: note_create_fields_def split: option.splits json.splits)
  then have "in_str_tuple (dget_or data ''kind'' (JStr ''note'')) KINDS"
    and "k = py_str (\<lambda>_. []) (dget_or data ''kind'' (JStr ''note''))"
    using assms by (auto simp: note_create_fields_def Let_def split: if_splits sum.splits)
  then have "k \<in> set KINDS"
    by (cases "dget_or data ''kind'' (JStr ''note'')") auto
  then show ?thesis
    using assms data
    by (auto simp: note_create_fields_def Let_def split: if_splits sum.splits
        dest!: validate_text_Inr)
qed

lemma validate_text_Inl: "validate_text v f m r = Inl e \<Longrightarrow> fst e \<in> {400, 413}"
  by (auto simp: validate_text_def split: json.splits if_splits)

lemma note_create_fields_Inl: "note_create_fields body = Inl e \<Longrightarrow> fst e \<in> {400, 413}"
  by (auto simp: note_create_fields_def Let_def kind_error_def
      split: option.splits json.splits sum.splits if_splits dest!: validate_text_Inl)

lemma note_update_fields_Inr:
  assumes "note_update_fields body = Inr (t, b, d)"
  shows "(\<forall>x. t = Some x \<longrightarrow> length x \<le> MAX_TITLE_CHARS \<and> py_strip x \<noteq> []) \<and>
         (\<forall>x. b = Some x \<longrightarrow> length x \<le> MAX_BODY_CHARS)"
  using assms
  by (auto simp: note_update_fields_def split: option.splits json.splits sum.splits
      dest!: optional_text_Inr)

lemma note_edit_ok:
  assumes "note_update_fields body = Inr (t, b, d)" and "note_ok it"
  shows "note_ok (note_edit t b d now it)"
  using note_update_fields_Inr [OF assms(1)] assms(2)
  by (auto simp: note_ok_def note_edit_def split: option.splits)

lemma snd_note_create:
  "snd (build_note_create_response st now uid a body v s) =
     (case (verify_and_extract a v, note_create_fields body) of
        (Inr claims, Inr (k, t, b, d)) \<Rightarrow>
          ns_create st \<lparr>ni_id = uid, ni_tenant_id = extract_tenant_id claims,
                      ni_user_id = tc_subject claims, ni_kind = k, ni_title = t, ni_body = b,
                      ni_done = d, ni_created_at = now, ni_updated_at = now\<rparr> s
      | _ \<Rightarrow> s)"
  by (simp add: build_note_create_response_def Let_def split: sum.split prod.split)

lemma snd_note_update:
  "snd (build_note_update_response st now a i body v s) =
     (case (verify_and_extract a v, note_update_fields body) of
        (Inr claims, Inr (t, b, d)) \<Rightarrow> snd (ns_update st (owner_of claims) i t b d now s)
      | _ \<Rightarrow> s)"
  by (simp add: build_note_update_response_def split_beta Let_def split: sum.split)

lemma snd_note_delete:
  "snd (build_note_delete_response st a i v s) =
     (case verify_and_extract a v of
        Inr claims \<Rightarrow> snd (ns_delete st (owner_of claims) i s) | _ \<Rightarrow> s)"
  by (simp add: build_note_delete_response_def split_beta Let_def split: sum.split)

lemmas snd_notes = snd_note_create snd_note_update snd_note_delete

context notes_store_contract
begin

lemma step_inv:
  "inv s \<Longrightarrow> note_req_fresh view s r \<Longrightarrow> inv (snd (notes_step store v now r s))"
  by (cases r)
    (simp_all add: snd_notes inv_create inv_update inv_delete split: sum.split prod.split)

lemma reachable_inv:
  assumes "notes_reachable store view v s0 s" and "inv s0"
  shows "inv s"
  using assms by induction (simp_all add: step_inv)

lemma step_other_owner:
  assumes "inv s" and "note_req_fresh view s r"
    and "\<forall>claims. verify_and_extract (note_auth r) v = Inr claims \<longrightarrow> o' \<noteq> owner_of claims"
  shows "view (snd (notes_step store v now r s)) o' = view s o'"
  using assms
  by (cases r)
    (auto simp: snd_notes view_create view_update view_delete ni_owner_def owner_of_def
      split: sum.split prod.split)

lemma step_own_view:
  assumes "inv s" and "inv s'" and "note_req_fresh view s r" and "note_req_fresh view s' r"
    and "verify_and_extract (note_auth r) v = Inr claims"
    and "view s (owner_of claims) = view s' (owner_of claims)"
  shows "fst (notes_step store v now r s) = fst (notes_step store v now r s') \<and>
         view (snd (notes_step store v now r s)) (owner_of claims) =
         view (snd (notes_step store v now r s')) (owner_of claims)"
  using assms
  by (cases r)
    (simp_all add: snd_notes view_create view_update view_delete list_view update_result
      delete_result build_note_create_response_def build_notes_list_response_def
      build_note_update_response_def build_note_delete_response_def Let_def split_beta
      split: sum.split prod.split)

lemma step_note_ok:
  assumes "inv s" and "note_req_fresh view s r" and "\<forall>it o'. it \<in> set (view s o') \<longrightarrow> note_ok it"
    and "it \<in> set (view (snd (notes_step store v now r s)) o')"
  shows "note_ok it"
proof (cases r)
  case (NoteCreate a body uid)
  with assms show ?thesis
    by (auto simp: snd_notes view_create split: sum.splits prod.splits if_splits)
      (auto simp: note_ok_def dest!: note_create_fields_Inr)
next
  case (NoteUpdate a i body)
  with assms show ?thesis
    by (auto simp: snd_notes view_update split: sum.splits prod.splits if_splits
        intro: note_edit_ok)
next
  case (NoteDelete a i)
  with assms show ?thesis
    by (auto simp: snd_notes view_delete split: sum.splits if_splits)
qed (use assms in auto)

lemma reachable_note_ok:
  assumes "notes_reachable store view v s0 s" and "inv s0" and "\<And>o'. view s0 o' = []"
    and "it \<in> set (view s o')"
  shows "note_ok it"
  using assms(1,4)
proof (induction arbitrary: o' it)
  case notes_start
  with assms(3) show ?case by simp
next
  case (notes_next s r now)
  show ?case
    by (rule step_note_ok [OF reachable_inv [OF notes_next.hyps(1) assms(2)] notes_next.hyps(2)])
      (use notes_next in auto)
qed

lemma delete_outcome:
  assumes "inv s" and "verify_and_extract a v = Inr claims"
  shows "fst (fst (build_note_delete_response store a i v s)) =
           (if i \<in> ni_id ` set (view s (owner_of claims)) then HTTP_OK else HTTP_NOT_FOUND)"
    and "fst (fst (build_note_delete_response store a i v
            (snd (build_note_delete_response store a i v s)))) = HTTP_NOT_FOUND"
  using assms
  by (auto simp: build_note_delete_response_def delete_result inv_delete view_delete split_beta Let_def)

lemma create_then_list:
  assumes "inv s" and "fresh_id ni_id view s uid"
    and "fst (build_note_create_response store now uid a body v s) = (HTTP_CREATED, j)"
    and "verify_and_extract a v = Inr claims"
    and "length (view s (owner_of claims)) < 200"
  shows "\<exists>js. build_notes_list_response store a v None 200
            (snd (build_note_create_response store now uid a body v s)) =
          (HTTP_OK, JObj [(''notes'', JArr js),
                          (''count'', JInt (int (length (view s (owner_of claims)) + 1)))])
          \<and> j \<in> set js"
proof -
  obtain k t b d where f: "note_create_fields body = Inr (k, t, b, d)"
    using assms(3,4)
    by (auto simp: build_note_create_response_def split: sum.splits dest!: note_create_fields_Inl)
  let ?it = "\<lparr>ni_id = uid, ni_tenant_id = extract_tenant_id claims, ni_user_id = tc_subject claims,
              ni_kind = k, ni_title = t, ni_body = b, ni_done = d, ni_created_at = now,
              ni_updated_at = now\<rparr>"
  let ?s' = "ns_create store ?it s"
  let ?xs = "ns_list_for_user store (owner_of claims) None 200 ?s'"
  have inv': "inv ?s'" using assms(1,2) by (simp add: inv_create)
  have view': "view ?s' (owner_of claims) = view s (owner_of claims) @ [?it]"
    using assms(1,2) by (simp add: view_create ni_owner_def owner_of_def)
  have all: "filter (kind_matches None) ys = ys" for ys
    by (simp add: kind_matches_def)
  have "length (order (view ?s' (owner_of claims))) \<le> 200"
    using assms(5) view' mset_order [THEN mset_eq_length] by simp
  then have "?xs = order (view ?s' (owner_of claims))"
    by (simp add: list_view [OF inv'] all slice_to_def)
  then have "set ?xs = set (view ?s' (owner_of claims))"
    and "length ?xs = length (view s (owner_of claims)) + 1"
    using view' mset_order [THEN mset_eq_setD] mset_order [THEN mset_eq_length] by simp_all
  moreover have "j = note_to_api_dict ?it"
    and "snd (build_note_create_response store now uid a body v s) = ?s'"
    using assms(3,4) f by (simp_all add: build_note_create_response_def Let_def)
  ultimately show ?thesis
    using assms(4) view'
    by (auto simp: build_notes_list_response_def clamp_limit_def NOTES_MAX_LIST_LIMIT_def)
qed

end

section \<open>Properties\<close>

text \<open>No request reads or changes another user's notes: whatever the caller sends, the
  items of an owner other than the caller are the same afterwards, in both stores.\<close>

theorem notes_isolation:
  assumes "\<forall>claims. verify_and_extract (note_auth r) v = Inr claims \<longrightarrow> o' \<noteq> owner_of claims"
  shows "(buckets_ok ni_owner ni_id m \<and> note_req_fresh bucket m r \<longrightarrow>
            bucket (snd (notes_step InMemoryNotesStore v now r m)) o' = bucket m o') \<and>
         (table_ok ni_id t \<and> note_req_fresh (table_view ni_owner) t r \<longrightarrow>
            table_view ni_owner (snd (notes_step PostgresNotesStore v now r t)) o' =
            table_view ni_owner t o')"
  using assms mem_notes.step_other_owner pg_notes.step_other_owner by blast

definition example_note :: note_item where
  "example_note = \<lparr>ni_id = ''n1'', ni_tenant_id = ''b.io'', ni_user_id = ''bob'',
     ni_kind = ''note'', ni_title = ''t'', ni_body = '''', ni_done = False,
     ni_created_at = 0, ni_updated_at = 0\<rparr>"

theorem notes_isolation_witness:
  "let r = NoteDelete (Some ''Bearer ta'') ''n1'';
       m = [(''b.io'', ''bob'') \<mapsto> [example_note]]
   in bucket (snd (notes_step InMemoryNotesStore (Some two_users) 0 r m)) (''b.io'', ''bob'')
        = [example_note] \<and>
      table_view ni_owner (snd (notes_step PostgresNotesStore (Some two_users) 0 r [example_note]))
        (''b.io'', ''bob'') = [example_note]"
proof -
  have "buckets_ok ni_owner ni_id [(''b.io'', ''bob'') \<mapsto> [example_note]]"
    by (rule buckets_okI) (auto simp: example_note_def ni_owner_def split: if_splits)
  moreover have "table_ok ni_id [example_note]"
    by (simp add: table_ok_def)
  ultimately show ?thesis
    using notes_isolation [of "NoteDelete (Some ''Bearer ta'') ''n1''" "Some two_users"
        "(''b.io'', ''bob'')" "[(''b.io'', ''bob'') \<mapsto> [example_note]]" 0 "[example_note]"]
    by (simp add: table_view_def example_note_def ni_owner_def)
qed

text \<open>What a caller is answered, and what the caller's own items become, depends on the
  caller's own items only: two stores that agree on them cannot be told apart by any request,
  whatever other tenants and users have stored.\<close>

theorem notes_noninterference:
  assumes "verify_and_extract (note_auth r) v = Inr claims"
  shows "(buckets_ok ni_owner ni_id m \<and> buckets_ok ni_owner ni_id m' \<and>
          note_req_fresh bucket m r \<and> note_req_fresh bucket m' r \<and>
          bucket m (owner_of claims) = bucket m' (owner_of claims) \<longrightarrow>
            fst (notes_step InMemoryNotesStore v now r m) =
            fst (notes_step InMemoryNotesStore v now r m') \<and>
            bucket (snd (notes_step InMemoryNotesStore v now r m)) (owner_of claims) =
            bucket (snd (notes_step InMemoryNotesStore v now r m')) (owner_of claims)) \<and>
         (table_ok ni_id t \<and> table_ok ni_id t' \<and>
          note_req_fresh (table_view ni_owner) t r \<and> note_req_fresh (table_view ni_owner) t' r \<and>
          table_view ni_owner t (owner_of claims) = table_view ni_owner t' (owner_of claims) \<longrightarrow>
            fst (notes_step PostgresNotesStore v now r t) =
            fst (notes_step PostgresNotesStore v now r t') \<and>
            table_view ni_owner (snd (notes_step PostgresNotesStore v now r t)) (owner_of claims) =
            table_view ni_owner (snd (notes_step PostgresNotesStore v now r t')) (owner_of claims))"
  using mem_notes.step_own_view [OF _ _ _ _ assms] pg_notes.step_own_view [OF _ _ _ _ assms]
  by blast

theorem notes_noninterference_witness:
  "fst (notes_step InMemoryNotesStore (Some two_users) 0 (NoteDelete (Some ''Bearer ta'') ''n1'')
      [(''b.io'', ''bob'') \<mapsto> [example_note]]) =
   fst (notes_step InMemoryNotesStore (Some two_users) 0 (NoteDelete (Some ''Bearer ta'') ''n1'')
      Map.empty)"
proof -
  have "buckets_ok ni_owner ni_id [(''b.io'', ''bob'') \<mapsto> [example_note]]"
    by (rule buckets_okI) (auto simp: example_note_def ni_owner_def split: if_splits)
  then show ?thesis
    using notes_noninterference [of "NoteDelete (Some ''Bearer ta'') ''n1''" "Some two_users"
        alice_claims "[(''b.io'', ''bob'') \<mapsto> [example_note]]" Map.empty 0 "[]" "[]"]
    by simp
qed

text \<open>C33: Whatever sequence of requests a store has served from empty, every stored note is
  within the limits the handlers enforce (kind, non-blank title, title and body lengths),
  belongs to the owner it is listed for, and has an id no other note of that owner has; in both
  stores.\<close>

theorem notes_reachable_wf:
  shows "(notes_reachable InMemoryNotesStore bucket v Map.empty m \<longrightarrow>
            (\<forall>o'. (\<forall>it \<in> set (bucket m o'). note_ok it \<and> ni_owner it = o') \<and>
                  distinct (map ni_id (bucket m o')))) \<and>
         (notes_reachable PostgresNotesStore (table_view ni_owner) v [] t \<longrightarrow>
            (\<forall>o'. (\<forall>it \<in> set (table_view ni_owner t o'). note_ok it \<and> ni_owner it = o') \<and>
                  distinct (map ni_id (table_view ni_owner t o'))))"
proof (intro conjI impI allI ballI)
  fix o' it
  assume r: "notes_reachable InMemoryNotesStore bucket v Map.empty m"
  have i: "buckets_ok ni_owner ni_id m"
    using mem_notes.reachable_inv [OF r] by simp
  show "distinct (map ni_id (bucket m o'))"
    by (rule mem_notes.view_distinct [OF i])
  assume "it \<in> set (bucket m o')"
  then show "note_ok it" and "ni_owner it = o'"
    using mem_notes.reachable_note_ok [OF r] mem_notes.view_owner [OF i] by simp_all
next
  fix o' it
  assume r: "notes_reachable PostgresNotesStore (table_view ni_owner) v [] t"
  have i: "table_ok ni_id t"
    using pg_notes.reachable_inv [OF r] by (simp add: table_ok_def)
  show "distinct (map ni_id (table_view ni_owner t o'))"
    by (rule pg_notes.view_distinct [OF i])
  assume it: "it \<in> set (table_view ni_owner t o')"
  then show "note_ok it"
    using pg_notes.reachable_note_ok [OF r] by (simp add: table_ok_def table_view_def)
  show "ni_owner it = o'"
    using pg_notes.view_owner [OF i it] .
qed

theorem notes_reachable_wf_witness:
  "let m = snd (notes_step InMemoryNotesStore (Some two_users) 0
       (NoteCreate (Some ''Bearer ta'') (Some (JObj [(''title'', JStr ''x'')])) ''u1'') Map.empty)
   in length (bucket m (''a.io'', ''alice'')) = 1 \<and>
      (\<forall>it \<in> set (bucket m (''a.io'', ''alice'')). note_ok it)"
proof -
  let ?r = "NoteCreate (Some ''Bearer ta'') (Some (JObj [(''title'', JStr ''x'')])) ''u1''"
  let ?m = "snd (notes_step InMemoryNotesStore (Some two_users) 0 ?r Map.empty)"
  have "notes_reachable InMemoryNotesStore bucket (Some two_users) Map.empty ?m"
    by (rule notes_next [OF notes_start]) (simp add: fresh_id_def)
  then have "\<forall>it \<in> set (bucket ?m (''a.io'', ''alice'')). note_ok it"
    using notes_reachable_wf [of "Some two_users" ?m "[]"] by blast
  moreover have "length (bucket ?m (''a.io'', ''alice'')) = 1"
    by (simp add: snd_notes note_create_fields_def validate_text_def KINDS_def MAX_TITLE_CHARS_def
        py_strip_def py_lstrip_def py_rstrip_by_def is_space_def ord_of_def Let_def
        InMemoryNotesStore_def mem_notes_create_def ni_owner_def)
  ultimately show ?thesis by (simp add: Let_def)
qed

text \<open>A created note is listed: after a 201, the caller's next list answers 200 with the
  created note among the items and a count one higher than the caller had (while the page of 200
  is not full), in both stores.\<close>

theorem notes_create_listed:
  assumes "verify_and_extract a v = Inr claims"
  shows "(buckets_ok ni_owner ni_id m \<and> fresh_id ni_id bucket m uid \<and>
          fst (build_note_create_response InMemoryNotesStore now uid a body v m) = (HTTP_CREATED, j) \<and>
          length (bucket m (owner_of claims)) < 200 \<longrightarrow>
            (\<exists>js. build_notes_list_response InMemoryNotesStore a v None 200
                (snd (build_note_create_response InMemoryNotesStore now uid a body v m)) =
               (HTTP_OK, JObj [(''notes'', JArr js),
                 (''count'', JInt (int (length (bucket m (owner_of claims)) + 1)))]) \<and> j \<in> set js)) \<and>
         (table_ok ni_id t \<and> fresh_id ni_id (table_view ni_owner) t uid \<and>
          fst (build_note_create_response PostgresNotesStore now uid a body v t) = (HTTP_CREATED, j) \<and>
          length (table_view ni_owner t (owner_of claims)) < 200 \<longrightarrow>
            (\<exists>js. build_notes_list_response PostgresNotesStore a v None 200
                (snd (build_note_create_response PostgresNotesStore now uid a body v t)) =
               (HTTP_OK, JObj [(''notes'', JArr js),
                 (''count'', JInt (int (length (table_view ni_owner t (owner_of claims)) + 1)))])
               \<and> j \<in> set js))"
  using mem_notes.create_then_list [OF _ _ _ assms] pg_notes.create_then_list [OF _ _ _ assms]
  by blast

theorem notes_create_listed_witness:
  "\<exists>js. build_notes_list_response InMemoryNotesStore (Some ''Bearer ta'') (Some two_users) None 200
      (snd (build_note_create_response InMemoryNotesStore 0 ''u1'' (Some ''Bearer ta'')
        (Some (JObj [(''title'', JStr ''x'')])) (Some two_users) Map.empty)) =
     (HTTP_OK, JObj [(''notes'', JArr js), (''count'', JInt 1)])"
proof -
  let ?b = "Some (JObj [(''title'', JStr ''x'')])"
  obtain j where "fst (build_note_create_response InMemoryNotesStore 0 ''u1'' (Some ''Bearer ta'') ?b
      (Some two_users) Map.empty) = (HTTP_CREATED, j)"
    by (simp add: build_note_create_response_def note_create_fields_def validate_text_def KINDS_def
        MAX_TITLE_CHARS_def py_strip_def py_lstrip_def py_rstrip_by_def is_space_def ord_of_def
        Let_def)
  then show ?thesis
    using notes_create_listed [of "Some ''Bearer ta''" "Some two_users" alice_claims Map.empty
        "''u1''" 0 ?b j "[]"]
    by (auto simp: fresh_id_def)
qed

text \<open>Delete is authoritative and idempotent in effect: it answers 200 exactly when the
  caller had the item, 404 otherwise, and the same delete again always answers 404; in both
  stores.\<close>

theorem notes_delete_once:
  assumes "verify_and_extract a v = Inr claims"
  shows "(buckets_ok ni_owner ni_id m \<longrightarrow>
            fst (fst (build_note_delete_response InMemoryNotesStore a i v m)) =
              (if i \<in> ni_id ` set (bucket m (owner_of claims)) then HTTP_OK else HTTP_NOT_FOUND) \<and>
            fst (fst (build_note_delete_response InMemoryNotesStore a i v
              (snd (build_note_delete_response InMemoryNotesStore a i v m)))) = HTTP_NOT_FOUND) \<and>
         (table_ok ni_id t \<longrightarrow>
            fst (fst (build_note_delete_response PostgresNotesStore a i v t)) =
              (if i \<in> ni_id ` set (table_view ni_owner t (owner_of claims)) then HTTP_OK
               else HTTP_NOT_FOUND) \<and>
            fst (fst (build_note_delete_response PostgresNotesStore a i v
              (snd (build_note_delete_response PostgresNotesStore a i v t)))) = HTTP_NOT_FOUND)"
  using mem_notes.delete_outcome [OF _ assms] pg_notes.delete_outcome [OF _ assms] by blast

theorem notes_delete_once_witness:
  "fst (fst (build_note_delete_response PostgresNotesStore (Some ''Bearer tb'') ''n1''
      (Some two_users) [example_note])) = HTTP_OK"
  using notes_delete_once [of "Some ''Bearer tb''" "Some two_users" bob_claims Map.empty "''n1''"
      "[example_note]"]
  by (simp add: table_ok_def table_view_def example_note_def ni_owner_def)

end
