(* ===== verification/Notifications.thy ===== *)
theory Notifications
  imports Stores
begin

text \<open>
  The in-app notification service (app/control_plane/notifications.py): events, the store
  protocol with its in-memory ring buffer and its PostgreSQL table, the contract both keep
  (locale \<open>notif_store_contract\<close>), the three handlers and the server-sent-event stream.
  \<^verbatim>\<open>publish\<close> may raise, which is \<^term>\<open>None\<close>: producers swallow it, the publish endpoint
  does not.
\<close>

section \<open>Data\<close>

text \<open>\<^verbatim>\<open>sorted(ALLOWED_EVENT_CLASSES)\<close>.\<close>

definition allowed_event_list :: "string list" where
  "allowed_event_list =
     [''agent_task_completed'', ''agent_task_done'', ''agent_task_failed'', ''agent_task_progress'',
      ''indexing_complete'', ''media_generation_complete'', ''media_task_completed'',
      ''media_task_failed'', ''model_install_requested'', ''model_install_updated'',
      ''system_notice'']"

definition ALLOWED_EVENT_CLASSES :: "string set" where
  "ALLOWED_EVENT_CLASSES = set allowed_event_list"

definition MAX_RESOURCE_ID_LEN :: nat where "MAX_RESOURCE_ID_LEN = 256"
definition MAX_NOTIFICATIONS_PER_USER :: nat where "MAX_NOTIFICATIONS_PER_USER = 200"

record notification_event =
  ne_id :: string
  ne_tenant_id :: string
  ne_user_id :: string
  ne_event_class :: string
  ne_resource_id :: string
  ne_created_at :: datetime
  ne_read_at :: "datetime option"

definition ne_owner :: "notification_event \<Rightarrow> owner" where
  "ne_owner e = (ne_tenant_id e, ne_user_id e)"

definition unread :: "notification_event \<Rightarrow> bool" where
  "unread e = (ne_read_at e = None)"

definition unread_id :: "string \<Rightarrow> notification_event \<Rightarrow> bool" where
  "unread_id i e = (ne_id e = i \<and> ne_read_at e = None)"

definition event_to_api_dict :: "notification_event \<Rightarrow> json" where
  "event_to_api_dict e =
     JObj [(''id'', JStr (ne_id e)), (''event_class'', JStr (ne_event_class e)),
           (''resource_id'', JStr (ne_resource_id e)),
           (''created_at'', JStr (isoformat (ne_created_at e))),
           (''read_at'', jopt (\<lambda>t. JStr (isoformat t)) (ne_read_at e)),
           (''read'', JBool (ne_read_at e \<noteq> None))]"

definition set_read :: "datetime \<Rightarrow> notification_event \<Rightarrow> notification_event" where
  "set_read now e = e\<lparr>ne_read_at := Some now\<rparr>"

section \<open>The store protocol and its two implementations\<close>

record 's notif_store =
  nf_list_for_user :: "owner \<Rightarrow> int \<Rightarrow> bool \<Rightarrow> 's \<Rightarrow> notification_event list"
  nf_publish :: "notification_event \<Rightarrow> 's \<Rightarrow> 's option"
  nf_mark_read :: "owner \<Rightarrow> string \<Rightarrow> datetime \<Rightarrow> 's \<Rightarrow> notification_event option \<times> 's"

type_synonym mem_notifs = "(owner, notification_event) buckets"
type_synonym pg_notifs = "notification_event list"

definition mem_notif_list :: "owner \<Rightarrow> int \<Rightarrow> bool \<Rightarrow> mem_notifs \<Rightarrow> notification_event list" where
  "mem_notif_list key limit include_read s =
     (let events = bucket s key;
          events = (if \<not> include_read then filter (\<lambda>e. ne_read_at e = None) events else events)
      in rev (slice_last limit events))"

definition mem_notif_publish :: "notification_event \<Rightarrow> mem_notifs \<Rightarrow> mem_notifs option" where
  "mem_notif_publish event s =
     (let key = ne_owner event;
          s = bucket_append s key event;
          bk = bucket s key
      in if MAX_NOTIFICATIONS_PER_USER < length bk
         then Some (s(key \<mapsto> slice_last (int MAX_NOTIFICATIONS_PER_USER) bk))
         else Some s)"

definition mem_notif_mark_read ::
    "owner \<Rightarrow> string \<Rightarrow> datetime \<Rightarrow> mem_notifs \<Rightarrow> notification_event option \<times> mem_notifs" where
  "mem_notif_mark_read key notification_id now s =
     bucket_update s key (unread_id notification_id) (set_read now)"

definition InMemoryNotificationStore :: "mem_notifs notif_store" where
  "InMemoryNotificationStore =
     \<lparr>nf_list_for_user = mem_notif_list, nf_publish = mem_notif_publish,
      nf_mark_read = mem_notif_mark_read\<rparr>"

definition pg_notif_list :: "owner \<Rightarrow> int \<Rightarrow> bool \<Rightarrow> pg_notifs \<Rightarrow> notification_event list" where
  "pg_notif_list key limit include_read rows =
     sql_select_desc (\<lambda>e. ne_owner e = key \<and> (include_read \<or> ne_read_at e = None))
       ne_created_at limit rows"

text \<open>The \<^verbatim>\<open>INSERT\<close> names no \<^verbatim>\<open>read_at\<close> column, so the row is stored unread.\<close>

definition pg_notif_publish :: "notification_event \<Rightarrow> pg_notifs \<Rightarrow> pg_notifs option" where
  "pg_notif_publish event rows = Some (sql_insert ne_id (event\<lparr>ne_read_at := None\<rparr>) rows)"

definition pg_notif_mark_read ::
    "owner \<Rightarrow> string \<Rightarrow> datetime \<Rightarrow> pg_notifs \<Rightarrow> notification_event option \<times> pg_notifs" where
  "pg_notif_mark_read key notification_id now rows =
     sql_update (\<lambda>e. unread_id notification_id e \<and> ne_owner e = key) (set_read now) rows"

definition PostgresNotificationStore :: "pg_notifs notif_store" where
  "PostgresNotificationStore =
     \<lparr>nf_list_for_user = pg_notif_list, nf_publish = pg_notif_publish,
      nf_mark_read = pg_notif_mark_read\<rparr>"

text \<open>
  The helper the producers share (\<^verbatim>\<open>_emit\<close>, \<^verbatim>\<open>_notify\<close>, \<^verbatim>\<open>_maybe_notify\<close>): no store or a class
  outside the vocabulary publishes nothing, and a failing publish is swallowed.
\<close>

definition emit_event ::
    "'n notif_store option \<Rightarrow> owner \<Rightarrow> string \<Rightarrow> string \<Rightarrow> string \<Rightarrow> datetime \<Rightarrow> 'n \<Rightarrow> 'n" where
  "emit_event store who event_class resource_id uid now ns =
     (case store of
        None \<Rightarrow> ns
      | Some ops \<Rightarrow>
          if event_class \<notin> ALLOWED_EVENT_CLASSES then ns
          else (case nf_publish ops
                   \<lparr>ne_id = uid, ne_tenant_id = fst who, ne_user_id = snd who,
                    ne_event_class = event_class, ne_resource_id = resource_id,
                    ne_created_at = now, ne_read_at = None\<rparr> ns of
                  None \<Rightarrow> ns
                | Some ns' \<Rightarrow> ns'))"

section \<open>Server-sent events\<close>

text \<open>One frame: an event, or the heartbeat comment; \<open>frame_bytes\<close> is what is written.\<close>

datatype frame = EventFrame notification_event | Ping

definition format_notification_sse :: "(rat \<Rightarrow> string) \<Rightarrow> notification_event \<Rightarrow> string" where
  "format_notification_sse fr e =
     ''data: '' @ json_dumps fr (event_to_api_dict e) @ [CHR 0x0A, CHR 0x0A]"

fun frame_bytes :: "(rat \<Rightarrow> string) \<Rightarrow> frame \<Rightarrow> string" where
  "frame_bytes fr (EventFrame e) = format_notification_sse fr e"
| "frame_bytes fr Ping = '': ping'' @ [CHR 0x0A, CHR 0x0A]"

fun emit_unseen ::
    "string list \<Rightarrow> notification_event list \<Rightarrow> frame list \<times> string list" where
  "emit_unseen emitted [] = ([], emitted)"
| "emit_unseen emitted (e # es) =
     (if ne_id e \<in> set emitted then emit_unseen emitted es
      else let (fs, em) = emit_unseen (ne_id e # emitted) es in (EventFrame e # fs, em))"

text \<open>
  The stream over the store states its ticks see (one per tick, so their number is
  \<^verbatim>\<open>max_ticks\<close>): other requests run while it sleeps.
\<close>

fun stream_notification_frames ::
    "'s notif_store \<Rightarrow> owner \<Rightarrow> int \<Rightarrow> string list \<Rightarrow> 's list \<Rightarrow> frame list" where
  "stream_notification_frames store who limit emitted [] = []"
| "stream_notification_frames store who limit emitted (s # ss) =
     (let events = nf_list_for_user store who limit False s;
          (fs, emitted') = emit_unseen emitted (rev events)
      in fs @ [Ping] @ stream_notification_frames store who limit emitted' ss)"

section \<open>Handlers\<close>

definition build_notifications_list_response ::
    "'s notif_store \<Rightarrow> string option \<Rightarrow> verifier option \<Rightarrow> bool \<Rightarrow> int \<Rightarrow> 's \<Rightarrow> reply" where
  "build_notifications_list_response store authorization token_verifier include_read limit s =
     (case verify_and_extract authorization token_verifier of
        Inl err \<Rightarrow> err
      | Inr claims \<Rightarrow>
          let limit = clamp_limit 100 limit;
              events = nf_list_for_user store (owner_of claims) limit include_read s
          in (HTTP_OK, JObj [(''notifications'', JArr (map event_to_api_dict events)),
                             (''count'', JInt (int (length events)))]))"

text \<open>
  The body of a publish request: the checked event class and the stripped resource id.  An
  event class that is a list or an object is unhashable: the membership test raises.
\<close>

definition publish_resource_id :: "dict \<Rightarrow> reply + string" where
  "publish_resource_id data =
     (case dget_or data ''resource_id'' (JStr []) of
        JStr resource_id \<Rightarrow>
          if py_strip resource_id = []
          then Inl (bad_request (quoted ''resource_id''
                     @ '' is required and must be a non-empty string.''))
          else if MAX_RESOURCE_ID_LEN < length resource_id
          then Inl (bad_request (quoted ''resource_id'' @ '' must not exceed 256 characters.''))
          else if dhas data ''content'' \<or> dhas data ''prompt'' \<or> dhas data ''completion''
          then Inl (HTTP_BAD_REQUEST, err_detail ''policy_violation''
                     ''Notification events must not carry prompt or completion content.'')
          else Inr (py_strip resource_id)
      | _ \<Rightarrow> Inl (bad_request (quoted ''resource_id''
                     @ '' is required and must be a non-empty string.'')))"

definition publish_fields :: "json option \<Rightarrow> py_exn + (reply + string \<times> string)" where
  "publish_fields body =
     (case body of
        None \<Rightarrow> Inr (Inl (bad_request ''Body is not valid JSON.''))
      | Some (JObj data) \<Rightarrow>
          (let event_class = dget_or data ''event_class'' (JStr []) in
           case in_str_set event_class ALLOWED_EVENT_CLASSES of
             Inl ex \<Rightarrow> Inl ex
           | Inr False \<Rightarrow>
               Inr (Inl (HTTP_UNPROCESSABLE, err_detail ''invalid_event_class''
                  (''event_class must be one of: ['' @ py_join '', '' (map quoted allowed_event_list)
                   @ '']'')))
           | Inr True \<Rightarrow>
               (case publish_resource_id data of
                  Inl err \<Rightarrow> Inr (Inl err)
                | Inr resource_id \<Rightarrow> Inr (Inr (py_str (\<lambda>_. []) event_class, resource_id))))
      | Some _ \<Rightarrow> Inr (Inl (bad_request ''Body must be a JSON object.'')))"

definition build_notification_publish_response ::
    "'s notif_store \<Rightarrow> datetime \<Rightarrow> string \<Rightarrow> string option \<Rightarrow> json option \<Rightarrow> verifier option
       \<Rightarrow> 's \<Rightarrow> (py_exn + reply) \<times> 's" where
  "build_notification_publish_response store now uid authorization body token_verifier s =
     (case verify_and_extract authorization token_verifier of
        Inl err \<Rightarrow> (Inr err, s)
      | Inr claims \<Rightarrow>
     (case publish_fields body of
        Inl ex \<Rightarrow> (Inl ex, s)
      | Inr (Inl err) \<Rightarrow> (Inr err, s)
      | Inr (Inr (event_class, resource_id)) \<Rightarrow>
          let event = \<lparr>ne_id = uid, ne_tenant_id = extract_tenant_id claims,
                       ne_user_id = tc_subject claims, ne_event_class = event_class,
                       ne_resource_id = resource_id, ne_created_at = now, ne_read_at = None\<rparr>
          in (case nf_publish store event s of
                None \<Rightarrow> (Inl StoreError, s)
              | Some s' \<Rightarrow> (Inr (HTTP_CREATED, event_to_api_dict event), s'))))"

definition build_notification_read_response ::
    "'s notif_store \<Rightarrow> datetime \<Rightarrow> string option \<Rightarrow> string \<Rightarrow> verifier option \<Rightarrow> 's \<Rightarrow> reply \<times> 's" where
  "build_notification_read_response store now authorization notification_id token_verifier s =
     (case verify_and_extract authorization token_verifier of
        Inl err \<Rightarrow> (err, s)
      | Inr claims \<Rightarrow>
          let (updated, s') = nf_mark_read store (owner_of claims) notification_id now s
          in ((case updated of
                 None \<Rightarrow> (HTTP_NOT_FOUND,
                          err_detail ''not_found'' ''Notification not found or already read.'')
               | Some e \<Rightarrow> (HTTP_OK, event_to_api_dict e)), s'))"

section \<open>The contract\<close>

text \<open>
  \<open>cap\<close> is what a full store drops (the oldest, or nothing); \<open>newest n\<close> is the page a
  listing returns.
\<close>

locale notif_store_contract = owner_scoped_store ne_owner ne_id view inv
  for view :: "'s \<Rightarrow> owner \<Rightarrow> notification_event list" and inv :: "'s \<Rightarrow> bool" +
  fixes store :: "'s notif_store"
    and cap :: "notification_event list \<Rightarrow> notification_event list"
    and newest :: "int \<Rightarrow> notification_event list \<Rightarrow> notification_event list"
  assumes cap_suffix: "\<exists>k. cap xs = drop k xs"
    and newest_set: "set (newest n xs) \<subseteq> set xs"
    and newest_length: "0 < n \<Longrightarrow> length (newest n xs) = min (nat n) (length xs)"
    and newest_distinct: "distinct (map ne_id xs) \<Longrightarrow> distinct (map ne_id (newest n xs))"
    and publish_some: "\<exists>s'. nf_publish store e s = Some s'"
    and inv_publish: "inv s \<Longrightarrow> fresh_id ne_id view s (ne_id e) \<Longrightarrow> ne_read_at e = None \<Longrightarrow>
      nf_publish store e s = Some s' \<Longrightarrow> inv s'"
    and view_publish: "inv s \<Longrightarrow> fresh_id ne_id view s (ne_id e) \<Longrightarrow> ne_read_at e = None \<Longrightarrow>
      nf_publish store e s = Some s' \<Longrightarrow>
      view s' o' = (if ne_owner e = o' then cap (view s o' @ [e]) else view s o')"
    and list_view: "inv s \<Longrightarrow> nf_list_for_user store o' n include_read s =
      newest n (filter (\<lambda>e. include_read \<or> unread e) (view s o'))"
    and inv_read: "inv s \<Longrightarrow> inv (snd (nf_mark_read store o' i now s))"
    and read_result: "inv s \<Longrightarrow> fst (nf_mark_read store o' i now s) =
      map_option (set_read now) (find (unread_id i) (view s o'))"
    and view_read: "inv s \<Longrightarrow> view (snd (nf_mark_read store o1 i now s)) o2 =
      (if o2 = o1 then map (\<lambda>e. if unread_id i e then set_read now e else e) (view s o1)
       else view s o2)"

lemma set_read_owner [simp]: "ne_owner (set_read now e) = ne_owner e"
  by (simp add: set_read_def ne_owner_def)

lemma set_read_id [simp]: "ne_id (set_read now e) = ne_id e"
  by (simp add: set_read_def)

lemma unread_id_set_read [simp]: "\<not> unread_id i (set_read now e)"
  by (simp add: unread_id_def set_read_def)

lemma update_first_unread:
  assumes "distinct (map ne_id xs)"
  shows "update_first (unread_id i) f xs =
           map (\<lambda>e. if unread_id i e then f e else e) xs"
  using assms
proof (induction xs)
  case Nil
  then show ?case by simp
next
  case (Cons x xs)
  have "map (\<lambda>e. if unread_id i e then f e else e) xs = xs" if "ne_id x = i"
    using Cons.prems that by (intro map_idI) (auto simp: image_iff unread_id_def)
  with Cons show ?case by (auto simp: unread_id_def)
qed

definition mem_cap :: "notification_event list \<Rightarrow> notification_event list" where
  "mem_cap xs = slice_last (int MAX_NOTIFICATIONS_PER_USER) xs"

definition mem_newest :: "int \<Rightarrow> notification_event list \<Rightarrow> notification_event list" where
  "mem_newest n xs = rev (slice_last n xs)"

definition pg_newest :: "int \<Rightarrow> notification_event list \<Rightarrow> notification_event list" where
  "pg_newest n xs = slice_to n (sort_desc ne_created_at xs)"

lemma bucket_mem_publish:
  assumes "mem_notif_publish e s = Some s'"
  shows "bucket s' k = (if ne_owner e = k then mem_cap (bucket s k @ [e]) else bucket s k)"
  using assms
  by (auto simp: mem_notif_publish_def mem_cap_def slice_last_def Let_def split: if_splits)

interpretation mem_notifs: notif_store_contract
  bucket "buckets_ok ne_owner ne_id" InMemoryNotificationStore mem_cap mem_newest
proof (intro notif_store_contract.intro buckets_scoped notif_store_contract_axioms.intro)
  fix s s' :: mem_notifs and e :: notification_event and xs n i now o1 o2 o' include_read
  let ?ok = "buckets_ok ne_owner ne_id"
  show "\<exists>k. mem_cap xs = drop k xs"
    by (auto simp: mem_cap_def slice_last_def MAX_NOTIFICATIONS_PER_USER_def)
  show "set (mem_newest n xs) \<subseteq> set xs"
    by (simp add: mem_newest_def set_slice_last)
  show "length (mem_newest n xs) = min (nat n) (length xs)" if "0 < n"
    using that by (auto simp: mem_newest_def slice_last_def)
  show "distinct (map ne_id (mem_newest n xs))" if "distinct (map ne_id xs)"
    using that by (simp add: mem_newest_def slice_last_def rev_map [symmetric] drop_map [symmetric])
  show "?ok s'" if *: "?ok s" "fresh_id ne_id bucket s (ne_id e)"
    "nf_publish InMemoryNotificationStore e s = Some s'"
  proof (rule buckets_okI)
    have pub: "mem_notif_publish e s = Some s'"
      using *(3) by (simp add: InMemoryNotificationStore_def)
    fix k
    have new: "ne_id e \<notin> ne_id ` set (bucket s k)"
      using *(2) by (rule fresh_id_bucket)
    show "ne_owner x = k" if "x \<in> set (bucket s' k)" for x
      using that buckets_ok_own [OF *(1), of x k]
        set_slice_last [of "int MAX_NOTIFICATIONS_PER_USER" "bucket s k @ [e]"]
      by (auto simp: bucket_mem_publish [OF pub] mem_cap_def split: if_splits)
    show "distinct (map ne_id (bucket s' k))"
      using buckets_ok_distinct [OF *(1), of k] new
      by (auto simp: bucket_mem_publish [OF pub] mem_cap_def slice_last_def drop_map [symmetric]
          distinct_drop simp del: drop_append)
  qed
  show "?ok (snd (nf_mark_read InMemoryNotificationStore o' i now s))" if "?ok s"
    using that
    by (simp add: InMemoryNotificationStore_def mem_notif_mark_read_def buckets_ok_update)
  show "bucket (snd (nf_mark_read InMemoryNotificationStore o1 i now s)) o2 =
      (if o2 = o1 then map (\<lambda>e. if unread_id i e then set_read now e else e) (bucket s o1)
       else bucket s o2)" if "?ok s"
    using that update_first_unread [OF buckets_ok_distinct [OF that]]
    by (simp add: InMemoryNotificationStore_def mem_notif_mark_read_def)
qed (simp_all add: InMemoryNotificationStore_def mem_notif_list_def mem_newest_def unread_def Let_def
      mem_notif_mark_read_def bucket_mem_publish, simp add: mem_notif_publish_def Let_def)

interpretation pg_notifs: notif_store_contract
  "table_view ne_owner" "table_ok ne_id" PostgresNotificationStore "\<lambda>xs. xs" pg_newest
proof (intro notif_store_contract.intro table_scoped notif_store_contract_axioms.intro)
  fix s s' :: pg_notifs and e :: notification_event and xs n o' include_read
  show "\<exists>k. xs = drop k xs" for xs :: pg_notifs
    by (rule exI [of _ 0]) simp
  show "set (pg_newest n xs) \<subseteq> set xs"
    using set_slice_to [of n "sort_desc ne_created_at xs"] by (simp add: pg_newest_def)
  show "length (pg_newest n xs) = min (nat n) (length xs)" if "0 < n"
    using that by (simp add: pg_newest_def slice_to_def)
  show "distinct (map ne_id (pg_newest n xs))" if "distinct (map ne_id xs)"
  proof -
    have "distinct (map ne_id (sort_desc ne_created_at xs))"
      using that by (simp add: distinct_map sort_desc_def)
    then show ?thesis
      by (simp add: pg_newest_def slice_to_def take_map [symmetric])
  qed
  show "table_view ne_owner s' o' =
      (if ne_owner e = o' then table_view ne_owner s o' @ [e] else table_view ne_owner s o')"
    if "fresh_id ne_id (table_view ne_owner) s (ne_id e)" "ne_read_at e = None"
      "nf_publish PostgresNotificationStore e s = Some s'"
  proof -
    have "e\<lparr>ne_read_at := None\<rparr> = e"
      using that(2) by simp
    with that show ?thesis
      by (auto simp: PostgresNotificationStore_def pg_notif_publish_def fresh_id_table
          table_view_insert)
  qed
  show "nf_list_for_user PostgresNotificationStore o' n include_read s =
      pg_newest n (filter (\<lambda>e. include_read \<or> unread e) (table_view ne_owner s o'))"
    by (simp add: PostgresNotificationStore_def pg_notif_list_def sql_select_desc_def pg_newest_def
        table_view_def unread_def conj_commute)
qed (auto simp: PostgresNotificationStore_def pg_notif_publish_def pg_notif_mark_read_def
      table_facts table_view_update_owned unread_def)

section \<open>What the handlers and the stream keep\<close>

text \<open>What every stored event meets: the content policy of the service.\<close>

definition event_ok :: "notification_event \<Rightarrow> bool" where
  "event_ok e \<longleftrightarrow>
     ne_event_class e \<in> ALLOWED_EVENT_CLASSES \<and> ne_resource_id e \<noteq> [] \<and>
     length (ne_resource_id e) \<le> MAX_RESOURCE_ID_LEN"

datatype notif_request =
    NotifPublish "string option" "json option" string
  | NotifRead "string option" string

fun notif_auth :: "notif_request \<Rightarrow> string option" where
  "notif_auth (NotifPublish a b u) = a"
| "notif_auth (NotifRead a i) = a"

fun notif_req_fresh ::
    "('s \<Rightarrow> owner \<Rightarrow> notification_event list) \<Rightarrow> 's \<Rightarrow> notif_request \<Rightarrow> bool" where
  "notif_req_fresh view s (NotifPublish a b uid) = fresh_id ne_id view s uid"
| "notif_req_fresh view s r = True"

fun notif_step ::
    "'s notif_store \<Rightarrow> verifier option \<Rightarrow> datetime \<Rightarrow> notif_request \<Rightarrow> 's
       \<Rightarrow> (py_exn + reply) \<times> 's" where
  "notif_step store v now (NotifPublish a b uid) s =
     build_notification_publish_response store now uid a b v s"
| "notif_step store v now (NotifRead a i) s =
     (case build_notification_read_response store now a i v s of (r, s') \<Rightarrow> (Inr r, s'))"

lemma publish_resource_id_Inr:
  assumes "publish_resource_id d = Inr rid"
  shows "rid \<noteq> [] \<and> length rid \<le> MAX_RESOURCE_ID_LEN \<and>
         \<not> dhas d ''content'' \<and> \<not> dhas d ''prompt'' \<and> \<not> dhas d ''completion''"
proof -
  obtain r where "dget_or d ''resource_id'' (JStr []) = JStr r"
    using assms by (cases "dget_or d ''resource_id'' (JStr [])") (auto simp: publish_resource_id_def)
  then show ?thesis
    using assms length_py_strip_le [of r] by (auto simp: publish_resource_id_def split: if_splits)
qed

lemma publish_fields_ok:
  assumes "publish_fields body = Inr (Inr (c, rid))"
  shows "c \<in> ALLOWED_EVENT_CLASSES \<and> rid \<noteq> [] \<and> length rid \<le> MAX_RESOURCE_ID_LEN \<and>
         (\<exists>d. body = Some (JObj d) \<and> \<not> dhas d ''content'' \<and> \<not> dhas d ''prompt'' \<and> \<not> dhas d ''completion'')"
proof -
  obtain d where d: "body = Some (JObj d)"
    using assms by (auto simp: publish_fields_def split: option.splits json.splits)
  show ?thesis
    using assms d publish_resource_id_Inr [of d rid]
    by (auto simp: publish_fields_def Let_def split: sum.splits bool.splits
        dest!: in_str_set_True)
qed

text \<open>The unhashable event class.\<close>

lemma publish_fields_raises:
  "publish_fields body = Inl ex \<longleftrightarrow>
     ex = TypeError \<and> (\<exists>d. body = Some (JObj d) \<and>
       ((\<exists>xs. dget_or d ''event_class'' (JStr []) = JArr xs) \<or>
        (\<exists>e. dget_or d ''event_class'' (JStr []) = JObj e)))"
proof (cases "\<exists>d. body = Some (JObj d)")
  case True
  then obtain d where "body = Some (JObj d)" ..
  then show ?thesis
    using in_str_set_Inl [of "dget_or d ''event_class'' (JStr [])" ALLOWED_EVENT_CLASSES ex]
    by (auto simp: publish_fields_def Let_def split: sum.splits bool.splits)
next
  case False
  then show ?thesis
    by (auto simp: publish_fields_def split: option.split json.split)
qed

lemma snd_notif_publish:
  "snd (build_notification_publish_response st now uid a body v s) =
     (case (verify_and_extract a v, publish_fields body) of
        (Inr claims, Inr (Inr (c, rid))) \<Rightarrow>
          (case nf_publish st
                 \<lparr>ne_id = uid, ne_tenant_id = extract_tenant_id claims, ne_user_id = tc_subject claims,
                  ne_event_class = c, ne_resource_id = rid, ne_created_at = now,
                  ne_read_at = None\<rparr> s of
             None \<Rightarrow> s | Some s' \<Rightarrow> s')
      | _ \<Rightarrow> s)"
  by (simp add: build_notification_publish_response_def Let_def split: sum.split prod.split option.split)

lemma snd_notif_read:
  "snd (build_notification_read_response st now a i v s) =
     (case verify_and_extract a v of
        Inr claims \<Rightarrow> snd (nf_mark_read st (owner_of claims) i now s) | _ \<Rightarrow> s)"
  by (simp add: build_notification_read_response_def split_beta Let_def split: sum.split)

lemmas snd_notifs = snd_notif_publish snd_notif_read

context notif_store_contract
begin

lemma publish_effect:
  assumes "inv s" and "fresh_id ne_id view s (ne_id e)" and "ne_read_at e = None"
  obtains s' where "nf_publish store e s = Some s'" and "inv s'"
    and "\<And>o'. view s' o' = (if ne_owner e = o' then cap (view s o' @ [e]) else view s o')"
  using publish_some [of e s] inv_publish [OF assms] view_publish [OF assms] by auto

text \<open>What a step does to the views: nothing, one publish, or one read.\<close>

lemma step_effect:
  assumes "inv s" and "notif_req_fresh view s r"
  obtains (same) "snd (notif_step store v now r s) = s"
  | (publish) claims e where "verify_and_extract (notif_auth r) v = Inr claims"
      "ne_owner e = owner_of claims" "event_ok e" "inv (snd (notif_step store v now r s))"
      "\<And>o'. view (snd (notif_step store v now r s)) o' =
         (if ne_owner e = o' then cap (view s o' @ [e]) else view s o')"
  | (read) claims i where "verify_and_extract (notif_auth r) v = Inr claims"
      "inv (snd (notif_step store v now r s))"
      "\<And>o'. view (snd (notif_step store v now r s)) o' =
         (if o' = owner_of claims
          then map (\<lambda>e. if unread_id i e then set_read now e else e) (view s o') else view s o')"
proof (cases "verify_and_extract (notif_auth r) v")
  case (Inl err)
  then have "snd (notif_step store v now r s) = s"
    by (cases r) (simp_all add: snd_notifs split_beta)
  then show thesis by (rule same)
next
  case (Inr claims)
  show thesis
  proof (cases r)
    case (NotifPublish a b uid)
    show thesis
    proof (cases "\<exists>c rid. publish_fields b = Inr (Inr (c, rid))")
      case False
      then have "snd (notif_step store v now r s) = s"
        using NotifPublish by (auto simp: snd_notifs split: sum.split)
      then show thesis by (rule same)
    next
      case True
      then obtain c rid where f: "publish_fields b = Inr (Inr (c, rid))" by blast
      let ?e = "\<lparr>ne_id = uid, ne_tenant_id = extract_tenant_id claims,
          ne_user_id = tc_subject claims, ne_event_class = c, ne_resource_id = rid,
          ne_created_at = now, ne_read_at = None\<rparr>"
      obtain s' where s': "nf_publish store ?e s = Some s'" "inv s'"
        "\<And>o'. view s' o' = (if ne_owner ?e = o' then cap (view s o' @ [?e]) else view s o')"
        using publish_effect [OF assms(1), of ?e] assms(2) NotifPublish by auto
      have eq: "snd (notif_step store v now r s) = s'"
        using NotifPublish Inr f s'(1) by (simp add: snd_notifs)
      show thesis
        using publish [OF Inr, of ?e] s' publish_fields_ok [OF f] unfolding eq
        by (simp add: ne_owner_def owner_of_def event_ok_def)
    qed
  next
    case (NotifRead a i)
    then have eq: "snd (notif_step store v now r s) =
        snd (nf_mark_read store (owner_of claims) i now s)"
      using Inr by (simp add: snd_notifs split_beta)
    show thesis
      using read [OF Inr, of i] assms(1) unfolding eq by (simp add: inv_read view_read)
  qed
qed

lemma step_inv:
  assumes "inv s" and "notif_req_fresh view s r"
  shows "inv (snd (notif_step store v now r s))"
  using assms(1) by (rule_tac step_effect [OF assms, of v now]) auto

lemma step_other_owner:
  assumes "inv s" and "notif_req_fresh view s r"
    and "\<forall>claims. verify_and_extract (notif_auth r) v = Inr claims \<longrightarrow> o' \<noteq> owner_of claims"
  shows "view (snd (notif_step store v now r s)) o' = view s o'"
  using assms(3) by (rule_tac step_effect [OF assms(1,2), of v now]) auto

lemma set_cap: "set (cap xs) \<subseteq> set xs"
  using cap_suffix [of xs] by (auto dest: in_set_dropD)

lemma step_event_ok:
  assumes "inv s" and "notif_req_fresh view s r" and "\<forall>e o'. e \<in> set (view s o') \<longrightarrow> event_ok e"
    and "e \<in> set (view (snd (notif_step store v now r s)) o')"
  shows "event_ok e"
proof (rule step_effect [OF assms(1,2), of v now])
  assume "snd (notif_step store v now r s) = s"
  with assms(4) have "e \<in> set (view s o')" by simp
  with assms(3) show ?thesis by blast
next
  fix claims e'
  assume "event_ok e'" and "\<And>o'. view (snd (notif_step store v now r s)) o' =
         (if ne_owner e' = o' then cap (view s o' @ [e']) else view s o')"
  with assms(4) have "e = e' \<or> e \<in> set (view s o')"
    using set_cap [of "view s o' @ [e']"] by (auto split: if_splits)
  with assms(3) \<open>event_ok e'\<close> show ?thesis by blast
next
  fix claims i
  assume "\<And>o'. view (snd (notif_step store v now r s)) o' =
         (if o' = owner_of claims
          then map (\<lambda>e. if unread_id i e then set_read now e else e) (view s o') else view s o')"
  then have "\<exists>x \<in> set (view s o'). e = x \<or> e = set_read now x"
    using assms(4) by (auto split: if_splits)
  with assms(3) show ?thesis
    by (auto simp: event_ok_def set_read_def)
qed

text \<open>The second read of the same notification answers 404.\<close>

lemma read_once:
  assumes "inv s" and "verify_and_extract a v = Inr claims"
  shows "fst (fst (build_notification_read_response store now' a i v
            (snd (build_notification_read_response store now a i v s)))) = HTTP_NOT_FOUND"
proof -
  have "find (unread_id i)
      (map (\<lambda>e. if unread_id i e then set_read now e else e) xs) = None" for xs
    by (induction xs) auto
  with assms show ?thesis
    by (simp add: build_notification_read_response_def split_beta Let_def read_result inv_read
        view_read)
qed

end

text \<open>The stream: what it emits is new, and is the caller's own unread events.\<close>

fun frame_ids :: "frame list \<Rightarrow> string list" where
  "frame_ids [] = []"
| "frame_ids (EventFrame e # fs) = ne_id e # frame_ids fs"
| "frame_ids (Ping # fs) = frame_ids fs"

lemma frame_ids_append [simp]: "frame_ids (fs @ gs) = frame_ids fs @ frame_ids gs"
  by (induction fs rule: frame_ids.induct) auto

lemma emit_unseen_facts:
  assumes "emit_unseen em es = (fs, em')"
  shows "set em' = set em \<union> ne_id ` set es \<and> set (frame_ids fs) = ne_id ` set es - set em
         \<and> distinct (frame_ids fs) \<and> Ping \<notin> set fs \<and> (\<forall>e. EventFrame e \<in> set fs \<longrightarrow> e \<in> set es)"
  using assms
proof (induction em es arbitrary: fs em' rule: emit_unseen.induct)
  case (1 em)
  then show ?case by simp
next
  case (2 em e es)
  show ?case
  proof (cases "ne_id e \<in> set em")
    case True
    with 2 show ?thesis by auto
  next
    case False
    obtain gs where "emit_unseen (ne_id e # em) es = (gs, em')" and "fs = EventFrame e # gs"
      using 2(3) False by (auto split: prod.splits)
    with 2(2) [OF False] False show ?thesis by auto
  qed
qed

lemma stream_ids:
  "set (frame_ids (stream_notification_frames store who n em ss)) \<inter> set em = {} \<and>
   distinct (frame_ids (stream_notification_frames store who n em ss)) \<and>
   set (frame_ids (stream_notification_frames store who n em ss)) =
     (\<Union>s \<in> set ss. ne_id ` set (nf_list_for_user store who n False s)) - set em"
proof (induction ss arbitrary: em)
  case Nil
  then show ?case by simp
next
  case (Cons s ss)
  obtain fs em' where e: "emit_unseen em (rev (nf_list_for_user store who n False s)) = (fs, em')"
    by fastforce
  show ?case
    using Cons.IH [of em'] emit_unseen_facts [OF e] by (simp add: e Let_def) blast
qed

lemma stream_pings:
  "length (filter (\<lambda>f. f = Ping) (stream_notification_frames store who n em ss)) = length ss"
proof (induction ss arbitrary: em)
  case Nil
  then show ?case by simp
next
  case (Cons s ss)
  obtain fs em' where e: "emit_unseen em (rev (nf_list_for_user store who n False s)) = (fs, em')"
    by fastforce
  have "filter (\<lambda>f. f = Ping) fs = []"
    using emit_unseen_facts [OF e] by (auto simp: filter_empty_conv)
  with Cons.IH [of em'] show ?case
    by (simp add: e Let_def)
qed

lemma stream_events:
  "EventFrame e \<in> set (stream_notification_frames store who n em ss) \<Longrightarrow>
     \<exists>s \<in> set ss. e \<in> set (nf_list_for_user store who n False s)"
proof (induction ss arbitrary: em)
  case Nil
  then show ?case by simp
next
  case (Cons s ss)
  obtain fs em' where e: "emit_unseen em (rev (nf_list_for_user store who n False s)) = (fs, em')"
    by fastforce
  show ?case
    using Cons.prems Cons.IH [of em'] emit_unseen_facts [OF e] by (auto simp: e Let_def)
qed

text \<open>Producers never fail on the store.\<close>

lemma emit_event_none [simp]: "emit_event None who c r uid now ns = ns"
  by (simp add: emit_event_def)

lemma emit_event_raising:
  "(\<And>e. nf_publish ops e ns = None) \<Longrightarrow> emit_event (Some ops) who c r uid now ns = ns"
  by (simp add: emit_event_def)

section \<open>Properties\<close>

text \<open>C36: No publish or read changes another user's notifications, in either store; and where
  every stored event meets the content policy (a class of the vocabulary, a non-empty resource
  id of at most 256 characters), every event stored afterwards does.\<close>

theorem notifications_isolation_policy:
  assumes "\<forall>claims. verify_and_extract (notif_auth r) v = Inr claims \<longrightarrow> o' \<noteq> owner_of claims"
  shows "(buckets_ok ne_owner ne_id m \<and> notif_req_fresh bucket m r \<longrightarrow>
            bucket (snd (notif_step InMemoryNotificationStore v now r m)) o' = bucket m o' \<and>
            ((\<forall>e o'. e \<in> set (bucket m o') \<longrightarrow> event_ok e) \<longrightarrow>
             (\<forall>e o'. e \<in> set (bucket (snd (notif_step InMemoryNotificationStore v now r m)) o') \<longrightarrow>
                event_ok e))) \<and>
         (table_ok ne_id t \<and> notif_req_fresh (table_view ne_owner) t r \<longrightarrow>
            table_view ne_owner (snd (notif_step PostgresNotificationStore v now r t)) o' =
            table_view ne_owner t o' \<and>
            ((\<forall>e o'. e \<in> set (table_view ne_owner t o') \<longrightarrow> event_ok e) \<longrightarrow>
             (\<forall>e o'. e \<in> set (table_view ne_owner
                (snd (notif_step PostgresNotificationStore v now r t)) o') \<longrightarrow> event_ok e)))"
  using mem_notifs.step_other_owner [OF _ _ assms] pg_notifs.step_other_owner [OF _ _ assms]
    mem_notifs.step_event_ok pg_notifs.step_event_ok
  by blast

definition example_event :: notification_event where
  "example_event = \<lparr>ne_id = ''e1'', ne_tenant_id = ''b.io'', ne_user_id = ''bob'',
     ne_event_class = ''system_notice'', ne_resource_id = ''r'', ne_created_at = 0,
     ne_read_at = None\<rparr>"

lemma example_event_bucket: "buckets_ok ne_owner ne_id [(''b.io'', ''bob'') \<mapsto> [example_event]]"
  by (rule buckets_okI) (auto simp: example_event_def ne_owner_def split: if_splits)

theorem notifications_isolation_policy_witness:
  "bucket (snd (notif_step InMemoryNotificationStore (Some two_users) 0
     (NotifRead (Some ''Bearer ta'') ''e1'') [(''b.io'', ''bob'') \<mapsto> [example_event]]))
     (''b.io'', ''bob'') = [example_event]"
  using notifications_isolation_policy [of "NotifRead (Some ''Bearer ta'') ''e1''" "Some two_users"
      "(''b.io'', ''bob'')" "[(''b.io'', ''bob'') \<mapsto> [example_event]]" 0 "[]"] example_event_bucket
  by simp

text \<open>A notification is read at most once: after a mark-read, whatever it answered, marking
  the same id again answers 404; in both stores.\<close>

theorem notifications_read_once:
  assumes "verify_and_extract a v = Inr claims"
  shows "(buckets_ok ne_owner ne_id m \<longrightarrow>
            fst (fst (build_notification_read_response InMemoryNotificationStore now' a i v
              (snd (build_notification_read_response InMemoryNotificationStore now a i v m)))) =
            HTTP_NOT_FOUND) \<and>
         (table_ok ne_id t \<longrightarrow>
            fst (fst (build_notification_read_response PostgresNotificationStore now' a i v
              (snd (build_notification_read_response PostgresNotificationStore now a i v t)))) =
            HTTP_NOT_FOUND)"
  using mem_notifs.read_once [OF _ assms] pg_notifs.read_once [OF _ assms] by blast

theorem notifications_read_once_witness:
  "fst (fst (build_notification_read_response PostgresNotificationStore 0 (Some ''Bearer tb'')
      ''e1'' (Some two_users) [example_event])) = HTTP_OK \<and>
   fst (fst (build_notification_read_response PostgresNotificationStore 1 (Some ''Bearer tb'')
      ''e1'' (Some two_users) (snd (build_notification_read_response PostgresNotificationStore 0
        (Some ''Bearer tb'') ''e1'' (Some two_users) [example_event])))) = HTTP_NOT_FOUND"
  using notifications_read_once [of "Some ''Bearer tb''" "Some two_users" bob_claims Map.empty 1
      "''e1''" 0 "[example_event]"]
  by (simp add: table_ok_def build_notification_read_response_def PostgresNotificationStore_def
      pg_notif_mark_read_def unread_id_def example_event_def ne_owner_def sql_update_def)

text \<open>C37: The event stream delivers exactly once: over all its ticks, the ids of the emitted
  events are distinct and are exactly the unread events the ticks listed for the caller, with one
  heartbeat per tick; whatever other requests did to the store between ticks.\<close>

theorem notification_stream_exactly_once:
  "distinct (frame_ids (stream_notification_frames store who n [] ss)) \<and>
   set (frame_ids (stream_notification_frames store who n [] ss)) =
     (\<Union>s \<in> set ss. ne_id ` set (nf_list_for_user store who n False s)) \<and>
   length (filter (\<lambda>f. f = Ping) (stream_notification_frames store who n [] ss)) = length ss"
  using stream_ids [of store who n "[]" ss] stream_pings [of store who n "[]" ss] by simp

text \<open>The publish endpoint lets exactly one exception escape: it raises \<open>TypeError\<close> when
  an authenticated body is an object whose \<open>event_class\<close> is a list or an object (which the
  membership test in a set cannot hash), and otherwise it answers.\<close>

theorem publish_raises_iff_unhashable:
  assumes "verify_and_extract a v = Inr claims"
  shows "fst (build_notification_publish_response InMemoryNotificationStore now uid a body v m) =
           Inl ex \<longleftrightarrow>
         ex = TypeError \<and> (\<exists>d. body = Some (JObj d) \<and>
           ((\<exists>xs. dget_or d ''event_class'' (JStr []) = JArr xs) \<or>
            (\<exists>e. dget_or d ''event_class'' (JStr []) = JObj e)))"
proof -
  have *: "nf_publish InMemoryNotificationStore e m = None \<longleftrightarrow> False" for e
    using mem_notifs.publish_some [of e m] by auto
  then show ?thesis
    unfolding publish_fields_raises [symmetric] using assms
    by (auto simp: build_notification_publish_response_def Let_def * split: sum.splits option.splits)
qed

theorem publish_raises_iff_unhashable_witness:
  "fst (build_notification_publish_response InMemoryNotificationStore 0 ''u'' (Some ''Bearer ta'')
     (Some (JObj [(''event_class'', JArr [])])) (Some two_users) Map.empty) = Inl TypeError"
  using publish_raises_iff_unhashable [of "Some ''Bearer ta''" "Some two_users" alice_claims 0
      "''u''" "Some (JObj [(''event_class'', JArr [])])" Map.empty TypeError]
  by simp

end
