(* ===== verification/Policy.thy ===== *)
theory Policy
  imports Stores
begin

text \<open>
  The policy gates shared by the agent, MCP, integration, media, chat and model-install
  endpoints (app/control_plane/agent_tools.py): the per-tenant allow-list, the rate and
  concurrency limiter, and the shape-only audit record.
\<close>

section \<open>Allow-list\<close>

type_synonym allowlist = "(string \<times> string set) list"

text \<open>
  \<^verbatim>\<open>parse_allowlist\<close> on the decoded environment value: \<^term>\<open>None\<close> for an unset or
  malformed one.  Anything but an object denies all; a tenant whose value is not a list has
  no entry.
\<close>

fun allowlist_items :: "(rat \<Rightarrow> string) \<Rightarrow> dict \<Rightarrow> allowlist" where
  "allowlist_items fr [] = []"
| "allowlist_items fr ((tenant, tools) # d) =
     (case tools of
        JArr ts \<Rightarrow> (tenant, set (map (py_str fr) ts)) # allowlist_items fr d
      | _ \<Rightarrow> allowlist_items fr d)"

definition parse_allowlist :: "(rat \<Rightarrow> string) \<Rightarrow> json option \<Rightarrow> allowlist" where
  "parse_allowlist fr raw =
     (case raw of
        Some (JObj data) \<Rightarrow> allowlist_items fr data
      | _ \<Rightarrow> [])"

definition is_allowed :: "allowlist \<Rightarrow> string \<Rightarrow> string \<Rightarrow> bool" where
  "is_allowed al tenant tool =
     (case map_of al tenant of None \<Rightarrow> False | Some tools \<Rightarrow> tool \<in> tools)"

lemma is_allowed_empty [simp]: "\<not> is_allowed [] tenant tool"
  by (simp add: is_allowed_def)

lemma map_of_allowlist_items:
  assumes "distinct (map fst d)"
  shows "map_of (allowlist_items fr d) t =
     (case map_of d t of Some (JArr ts) \<Rightarrow> Some (set (map (py_str fr) ts)) | _ \<Rightarrow> None)"
  using assms
proof (induction d)
  case Nil
  then show ?case by simp
next
  case (Cons p d)
  obtain k v where p: "p = (k, v)" by (cases p)
  have "map_of d t = None" if "k = t"
    using Cons.prems p that by (force simp: map_of_eq_None_iff)
  with Cons p show ?case by (auto split: json.split)
qed

section \<open>Rate and concurrency limiter\<close>

text \<open>
  \<open>rl_value\<close> is the counter of the bounded semaphore, \<open>rl_bound\<close> its initial value
  \<^verbatim>\<open>max(1, max_concurrency)\<close>; \<open>rl_windows\<close> maps a tenant to its \<^verbatim>\<open>(window, count)\<close>.
  The handlers call it in one step of their own; the interleavings of its two parts are \<open>rl_step\<close> below.
\<close>

record rate_limiter =
  rl_per_minute :: int
  rl_bound :: nat
  rl_windows :: "string \<Rightarrow> (int \<times> int) option"
  rl_value :: nat

definition rate_limiter_init :: "int \<Rightarrow> int \<Rightarrow> rate_limiter" where
  "rate_limiter_init per_minute max_concurrency =
     \<lparr>rl_per_minute = per_minute, rl_bound = nat (max 1 max_concurrency),
      rl_windows = Map.empty, rl_value = nat (max 1 max_concurrency)\<rparr>"

text \<open>\<^verbatim>\<open>try_acquire\<close> is the section under the lock, and then, with the lock released, the semaphore.\<close>

definition count_attempt :: "string \<Rightarrow> int \<Rightarrow> rate_limiter \<Rightarrow> bool \<times> rate_limiter" where
  "count_attempt tenant now rl =
     (let window = now div 60;
          (w, count) = (case rl_windows rl tenant of None \<Rightarrow> (window, 0) | Some wc \<Rightarrow> wc);
          (w, count) = (if w \<noteq> window then (window, 0) else (w, count))
      in if rl_per_minute rl \<le> count then (False, rl)
         else (True, rl\<lparr>rl_windows := (rl_windows rl)(tenant \<mapsto> (w, count + 1))\<rparr>))"

definition take_slot :: "rate_limiter \<Rightarrow> bool \<times> rate_limiter" where
  "take_slot rl = (if rl_value rl = 0 then (False, rl) else (True, rl\<lparr>rl_value := rl_value rl - 1\<rparr>))"

definition try_acquire :: "string \<Rightarrow> int \<Rightarrow> rate_limiter \<Rightarrow> bool \<times> rate_limiter" where
  "try_acquire tenant now rl =
     (case count_attempt tenant now rl of (False, rl) \<Rightarrow> (False, rl) | (True, rl) \<Rightarrow> take_slot rl)"

text \<open>A release beyond the bound raises \<^verbatim>\<open>ValueError\<close>, which is swallowed.\<close>

definition rl_release :: "rate_limiter \<Rightarrow> rate_limiter" where
  "rl_release rl =
     (if rl_bound rl \<le> rl_value rl then rl else rl\<lparr>rl_value := rl_value rl + 1\<rparr>)"

text \<open>The requests a tenant has spent in the window of \<open>now\<close>.\<close>

definition spent :: "rate_limiter \<Rightarrow> string \<Rightarrow> int \<Rightarrow> int" where
  "spent rl tenant window =
     (case rl_windows rl tenant of None \<Rightarrow> 0 | Some (w, c) \<Rightarrow> if w = window then c else 0)"

definition rl_ok :: "rate_limiter \<Rightarrow> bool" where
  "rl_ok rl \<longleftrightarrow> 1 \<le> rl_bound rl \<and> rl_value rl \<le> rl_bound rl"

text \<open>What a thread does to the limiter in one step: the section under the lock, the semaphore, the release.\<close>

datatype rl_event = Count string int | Take string int | Release

text \<open>
  Any interleaving of the threads' steps.  \<open>sys_pending\<close> are the threads between the lock and the semaphore, each
  with its tenant and the time it read; \<open>sys_log\<close> the admitted calls and \<open>sys_seen\<close> the calls that have held the
  lock, both newest first.  A thread reads the clock before it waits for the lock, so the times arrive there in any
  order; \<open>Release\<close> is taken by a holder only.
\<close>

record rl_system =
  sys_rl :: rate_limiter
  sys_pending :: "(string \<times> int) list"
  sys_held :: nat
  sys_log :: "(string \<times> int) list"
  sys_seen :: "(string \<times> int) list"

inductive rl_step :: "rl_system \<Rightarrow> rl_event \<Rightarrow> rl_system \<Rightarrow> bool" where
  rl_count: "count_attempt t now (sys_rl s) = (True, rl') \<Longrightarrow>
     rl_step s (Count t now)
       (s\<lparr>sys_rl := rl', sys_pending := (t, now) # sys_pending s, sys_seen := (t, now) # sys_seen s\<rparr>)"
| rl_full: "count_attempt t now (sys_rl s) = (False, rl') \<Longrightarrow>
     rl_step s (Count t now) (s\<lparr>sys_rl := rl', sys_seen := (t, now) # sys_seen s\<rparr>)"
| rl_admit: "(t, now) \<in> set (sys_pending s) \<Longrightarrow> take_slot (sys_rl s) = (True, rl') \<Longrightarrow>
     rl_step s (Take t now)
       (s\<lparr>sys_rl := rl', sys_pending := remove1 (t, now) (sys_pending s), sys_held := sys_held s + 1,
          sys_log := (t, now) # sys_log s\<rparr>)"
| rl_refuse: "(t, now) \<in> set (sys_pending s) \<Longrightarrow> take_slot (sys_rl s) = (False, rl') \<Longrightarrow>
     rl_step s (Take t now) (s\<lparr>sys_rl := rl', sys_pending := remove1 (t, now) (sys_pending s)\<rparr>)"
| rl_free: "0 < sys_held s \<Longrightarrow>
     rl_step s Release (s\<lparr>sys_rl := rl_release (sys_rl s), sys_held := sys_held s - 1\<rparr>)"

definition rl_system_init :: "int \<Rightarrow> int \<Rightarrow> rl_system" where
  "rl_system_init per_minute max_concurrency =
     \<lparr>sys_rl = rate_limiter_init per_minute max_concurrency, sys_pending = [], sys_held = 0, sys_log = [],
      sys_seen = []\<rparr>"

inductive rl_reachable :: "int \<Rightarrow> int \<Rightarrow> rl_system \<Rightarrow> bool" for pm mc where
  rl_start: "rl_reachable pm mc (rl_system_init pm mc)"
| rl_next: "rl_reachable pm mc s \<Longrightarrow> rl_step s e s' \<Longrightarrow> rl_reachable pm mc s'"

inductive_cases rl_step_countE: "rl_step s (Count t now) s'"
inductive_cases rl_step_takeE: "rl_step s (Take t now) s'"
inductive_cases rl_step_releaseE: "rl_step s Release s'"

text \<open>The calls admitted for a tenant in a window.\<close>

definition admitted :: "(string \<times> int) list \<Rightarrow> string \<Rightarrow> int \<Rightarrow> nat" where
  "admitted hist t w = length (filter (\<lambda>(t', n). t' = t \<and> n div 60 = w) hist)"

lemma try_acquire_eq:
  "try_acquire tenant now rl =
     (let window = now div 60;
          (w, count) = (case rl_windows rl tenant of None \<Rightarrow> (window, 0) | Some wc \<Rightarrow> wc);
          (w, count) = (if w \<noteq> window then (window, 0) else (w, count))
      in if rl_per_minute rl \<le> count then (False, rl)
         else
           let rl = rl\<lparr>rl_windows := (rl_windows rl)(tenant \<mapsto> (w, count + 1))\<rparr>
           in if rl_value rl = 0 then (False, rl)
              else (True, rl\<lparr>rl_value := rl_value rl - 1\<rparr>))"
  by (simp add: try_acquire_def count_attempt_def take_slot_def Let_def split: prod.split)

lemma try_acquire_frame:
  "rl_per_minute (snd (try_acquire t now rl)) = rl_per_minute rl"
  "rl_bound (snd (try_acquire t now rl)) = rl_bound rl"
  by (auto simp: try_acquire_eq Let_def split: prod.splits option.splits)

lemma try_acquire_value:
  "rl_value (snd (try_acquire t now rl)) =
     (if fst (try_acquire t now rl) then rl_value rl - 1 else rl_value rl)"
  "fst (try_acquire t now rl) \<Longrightarrow> 0 < rl_value rl"
  by (auto simp: try_acquire_eq Let_def split: prod.splits option.splits if_splits)

lemma try_acquire_iff:
  "fst (try_acquire t now rl) \<longleftrightarrow> spent rl t (now div 60) < rl_per_minute rl \<and> 0 < rl_value rl"
  by (auto simp: try_acquire_eq spent_def Let_def split: prod.splits option.splits if_splits)

text \<open>An attempt below the limit is counted even when no slot is free.\<close>

lemma try_acquire_spent:
  "spent (snd (try_acquire t now rl)) t (now div 60) =
     (if spent rl t (now div 60) < rl_per_minute rl then spent rl t (now div 60) + 1
      else spent rl t (now div 60))"
  by (auto simp: try_acquire_eq spent_def Let_def split: prod.splits option.splits if_splits)

lemma try_acquire_spent_other:
  "t' \<noteq> t \<Longrightarrow> spent (snd (try_acquire t now rl)) t' w = spent rl t' w"
  by (auto simp: try_acquire_eq spent_def Let_def split: prod.splits option.splits if_splits)

lemma try_acquire_ok: "rl_ok rl \<Longrightarrow> rl_ok (snd (try_acquire t now rl))"
  by (auto simp: rl_ok_def try_acquire_frame try_acquire_value)

lemma rl_release_ok: "rl_ok rl \<Longrightarrow> rl_ok (rl_release rl)"
  by (auto simp: rl_ok_def rl_release_def)

lemma rl_release_frame [simp]:
  "rl_per_minute (rl_release rl) = rl_per_minute rl" "rl_bound (rl_release rl) = rl_bound rl"
  "rl_windows (rl_release rl) = rl_windows rl"
  by (simp_all add: rl_release_def)

text \<open>A request that got a slot and gives it back leaves the free slots as they were.\<close>

lemma acquire_release_value:
  assumes "rl_ok rl" and "fst (try_acquire t now rl)"
  shows "rl_value (rl_release (snd (try_acquire t now rl))) = rl_value rl"
  using assms try_acquire_value(2) [OF assms(2)]
  by (auto simp: rl_release_def try_acquire_value(1) try_acquire_frame rl_ok_def)

text \<open>The invariant of the limiter among its users.\<close>

text \<open>The windows in which a tenant's calls held the lock, newest first, and how many times they turned to \<open>w\<close>.\<close>

definition seen_times :: "rl_system \<Rightarrow> string \<Rightarrow> int list" where
  "seen_times s t = map snd (filter (\<lambda>(t', n). t' = t) (sys_seen s))"

definition seen_windows :: "rl_system \<Rightarrow> string \<Rightarrow> int list" where
  "seen_windows s t = map (\<lambda>n. n div 60) (seen_times s t)"

fun turns :: "int \<Rightarrow> int list \<Rightarrow> nat" where
  "turns w [] = 0"
| "turns w (v # vs) = (if v = w \<and> (vs = [] \<or> hd vs \<noteq> w) then 1 else 0) + turns w vs"

text \<open>What the turns before the current one, and the current one so far, leave room for.\<close>

definition room :: "rl_system \<Rightarrow> string \<Rightarrow> int \<Rightarrow> int" where
  "room s t w =
     (let p = max 0 (rl_per_minute (sys_rl s)); n = int (turns w (seen_windows s t)) in
      case rl_windows (sys_rl s) t of
        None \<Rightarrow> p * n
      | Some (v, c) \<Rightarrow> if v = w then p * (n - 1) + c else p * n)"

definition rl_sys_ok :: "rl_system \<Rightarrow> bool" where
  "rl_sys_ok s \<longleftrightarrow>
     rl_value (sys_rl s) + sys_held s = rl_bound (sys_rl s) \<and>
     (\<forall>t v c. rl_windows (sys_rl s) t = Some (v, c) \<longrightarrow>
        1 \<le> c \<and> c \<le> rl_per_minute (sys_rl s) \<and> seen_windows s t \<noteq> [] \<and> hd (seen_windows s t) = v) \<and>
     (\<forall>t. rl_windows (sys_rl s) t = None \<and> 0 < rl_per_minute (sys_rl s) \<longrightarrow> seen_windows s t = []) \<and>
     (\<forall>t w. int (admitted (sys_log s) t w + admitted (sys_pending s) t w) \<le> room s t w)"

lemma admitted_Cons:
  "admitted ((t', n) # hist) t w = (if t' = t \<and> n div 60 = w then 1 else 0) + admitted hist t w"
  by (simp add: admitted_def)

lemma admitted_remove1:
  "(t', n) \<in> set hist \<Longrightarrow>
     admitted hist t w = (if t' = t \<and> n div 60 = w then 1 else 0) + admitted (remove1 (t', n) hist) t w"
  by (induction hist) (auto simp: admitted_def)

lemma seen_windows_push:
  "sys_seen s' = (t', n) # sys_seen s \<Longrightarrow>
     seen_windows s' t = (if t' = t then n div 60 # seen_windows s t else seen_windows s t)"
  by (simp add: seen_windows_def seen_times_def)

lemma turns_pos: "ws \<noteq> [] \<Longrightarrow> 1 \<le> turns (hd ws) ws"
  by (induction ws) auto

lemma turns_ordered: "sorted_wrt (\<ge>) ws \<Longrightarrow> turns w ws \<le> 1"
proof (induction ws)
  case (Cons v vs)
  have "turns w vs = 0" if "v = w" "vs = [] \<or> hd vs \<noteq> w"
  proof -
    have "\<forall>u \<in> set vs. u < w"
      using that Cons.prems by (cases vs) fastforce+
    then show ?thesis
      by (induction vs) auto
  qed
  then show ?case
    using Cons by auto
qed simp

lemma rl_init_ok: "rl_sys_ok (rl_system_init pm mc)"
  by (simp add: rl_sys_ok_def rl_system_init_def rate_limiter_init_def admitted_def seen_windows_def seen_times_def
      room_def)

lemma count_attempt_cases:
  assumes "count_attempt t now rl = (r, rl')"
  obtains (full) "\<not> r" "rl' = rl" "rl_per_minute rl \<le> spent rl t (now div 60)"
  | (counted) "r" "spent rl t (now div 60) < rl_per_minute rl"
      "rl' = rl\<lparr>rl_windows := (rl_windows rl)(t \<mapsto> (now div 60, spent rl t (now div 60) + 1))\<rparr>"
  using assms by (auto simp: count_attempt_def spent_def Let_def split: option.splits prod.splits if_splits)

lemma rl_counted_ok:
  assumes ok: "rl_sys_ok s" and spent: "spent (sys_rl s) t (now div 60) < rl_per_minute (sys_rl s)"
    and s': "s' = s\<lparr>sys_rl := (sys_rl s)\<lparr>rl_windows := (rl_windows (sys_rl s))(t \<mapsto>
        (now div 60, spent (sys_rl s) t (now div 60) + 1))\<rparr>,
      sys_pending := (t, now) # sys_pending s, sys_seen := (t, now) # sys_seen s\<rparr>"
  shows "rl_sys_ok s'"
proof -
  let ?v = "now div 60"
  have seen: "seen_windows s' t' = (if t = t' then ?v # seen_windows s t' else seen_windows s t')" for t'
    by (rule seen_windows_push) (simp add: s')
  have win: "rl_windows (sys_rl s') = (rl_windows (sys_rl s))(t \<mapsto> (?v, spent (sys_rl s) t ?v + 1))"
    "rl_per_minute (sys_rl s') = rl_per_minute (sys_rl s)"
    by (simp_all add: s')
  have old: "int (admitted (sys_log s) t' w + admitted (sys_pending s) t' w) \<le> room s t' w" for t' w
    using ok by (simp add: rl_sys_ok_def)
  have cur: "1 \<le> c \<and> c \<le> rl_per_minute (sys_rl s) \<and> seen_windows s t' \<noteq> [] \<and> hd (seen_windows s t') = v"
    if "rl_windows (sys_rl s) t' = Some (v, c)" for t' v c
    using ok that by (simp add: rl_sys_ok_def)
  have nonneg: "0 \<le> spent (sys_rl s) t ?v"
    using cur by (force simp: spent_def split: option.splits)
  then have pm: "0 < rl_per_minute (sys_rl s)"
    using spent by simp
  have none: "seen_windows s t' = []" if "rl_windows (sys_rl s) t' = None" for t'
    using ok that pm by (simp add: rl_sys_ok_def)
  have grown: "room s t' w + (if t = t' \<and> ?v = w then 1 else 0) \<le> room s' t' w" for t' w
  proof (cases "t = t'")
    case True
    show ?thesis
    proof (cases "rl_windows (sys_rl s) t'")
      case None
      then show ?thesis
        using True none [OF None] pm by (simp add: room_def win seen spent_def Let_def)
    next
      case (Some vc)
      obtain v c where vc: "rl_windows (sys_rl s) t' = Some (v, c)"
        using Some by (cases vc) simp
      note c = cur [OF vc]
      show ?thesis
        using True c pm by (auto simp: room_def win seen vc spent_def Let_def algebra_simps)
    qed
  next
    case False
    then show ?thesis
      by (simp add: room_def win seen Let_def)
  qed
  have "admitted (sys_log s') t' w + admitted (sys_pending s') t' w =
      admitted (sys_log s) t' w + admitted (sys_pending s) t' w + (if t = t' \<and> ?v = w then 1 else 0)" for t' w
    by (simp add: s' admitted_Cons)
  then have "int (admitted (sys_log s') t' w + admitted (sys_pending s') t' w) \<le> room s' t' w" for t' w
    using old [of t' w] grown [of t' w] by (cases "t = t' \<and> ?v = w") auto
  then show ?thesis
    using ok spent nonneg by (auto simp: rl_sys_ok_def s' seen [unfolded s'])
qed

lemma rl_full_ok:
  assumes ok: "rl_sys_ok s" and spent: "rl_per_minute (sys_rl s) \<le> spent (sys_rl s) t (now div 60)"
    and s': "s' = s\<lparr>sys_seen := (t, now) # sys_seen s\<rparr>"
  shows "rl_sys_ok s'"
proof -
  let ?v = "now div 60"
  have seen: "seen_windows s' t' = (if t = t' then ?v # seen_windows s t' else seen_windows s t')" for t'
    by (rule seen_windows_push) (simp add: s')
  have cur: "1 \<le> c \<and> c \<le> rl_per_minute (sys_rl s) \<and> seen_windows s t' \<noteq> [] \<and> hd (seen_windows s t') = v"
    if "rl_windows (sys_rl s) t' = Some (v, c)" for t' v c
    using ok that by (simp add: rl_sys_ok_def)
  show ?thesis
  proof (cases "0 < rl_per_minute (sys_rl s)")
    case True
    then obtain c where c: "rl_windows (sys_rl s) t = Some (?v, c)"
      using spent by (auto simp: spent_def split: option.splits if_splits)
    have "room s' t' w = room s t' w" for t' w
      using cur [OF c] by (cases "t' = t") (auto simp: room_def s' seen [unfolded s'] Let_def c)
    then show ?thesis
      using ok cur [OF c] c by (auto simp: rl_sys_ok_def s' seen [unfolded s'])
  next
    case False
    have "room s' t' w = room s t' w" for t' w
      using False ok by (fastforce simp: room_def s' Let_def rl_sys_ok_def split: option.split)
    then show ?thesis
      using ok False by (fastforce simp: rl_sys_ok_def s' seen [unfolded s'])
  qed
qed

lemma room_cong:
  "rl_windows (sys_rl s') = rl_windows (sys_rl s) \<Longrightarrow> rl_per_minute (sys_rl s') = rl_per_minute (sys_rl s) \<Longrightarrow>
     sys_seen s' = sys_seen s \<Longrightarrow> room s' t w = room s t w \<and> seen_windows s' t = seen_windows s t"
  by (simp add: room_def seen_windows_def seen_times_def)

lemma rl_step_ok:
  assumes "rl_step s e s'" and "rl_sys_ok s"
  shows "rl_sys_ok s'"
  using assms
proof (induction rule: rl_step.induct)
  case (rl_count t now s rl')
  then show ?case
    by (auto elim!: count_attempt_cases intro: rl_counted_ok [OF _ _ refl])
next
  case (rl_full t now s rl')
  from rl_full.hyps have "rl' = sys_rl s" "rl_per_minute (sys_rl s) \<le> spent (sys_rl s) t (now div 60)"
    by (auto elim: count_attempt_cases)
  then show ?case
    using rl_full_ok [OF rl_full.prems] by simp
next
  case (rl_admit t now s rl')
  let ?s' = "s\<lparr>sys_rl := rl', sys_pending := remove1 (t, now) (sys_pending s), sys_held := sys_held s + 1,
      sys_log := (t, now) # sys_log s\<rparr>"
  have rl': "0 < rl_value (sys_rl s)" "rl' = (sys_rl s)\<lparr>rl_value := rl_value (sys_rl s) - 1\<rparr>"
    using rl_admit.hyps(2) by (auto simp: take_slot_def split: if_splits)
  have "admitted (sys_log ?s') t' w + admitted (sys_pending ?s') t' w =
      admitted (sys_log s) t' w + admitted (sys_pending s) t' w" for t' w
    using admitted_remove1 [OF rl_admit.hyps(1), of t' w] by (simp add: admitted_Cons)
  moreover have "room ?s' t' w = room s t' w \<and> seen_windows ?s' t' = seen_windows s t'" for t' w
    by (rule room_cong) (simp_all add: rl'(2))
  ultimately show ?case
    using rl_admit.prems rl'(1) by (simp add: rl_sys_ok_def rl'(2))
next
  case (rl_refuse t now s rl')
  let ?s' = "s\<lparr>sys_rl := rl', sys_pending := remove1 (t, now) (sys_pending s)\<rparr>"
  have rl': "rl' = sys_rl s"
    using rl_refuse.hyps(2) by (auto simp: take_slot_def split: if_splits)
  have "admitted (sys_pending ?s') t' w \<le> admitted (sys_pending s) t' w" for t' w
    using admitted_remove1 [OF rl_refuse.hyps(1), of t' w] by simp
  then have "int (admitted (sys_log s) t' w + admitted (sys_pending ?s') t' w) \<le> room s t' w" for t' w
    using rl_refuse.prems by (smt (verit) rl_sys_ok_def of_nat_add of_nat_mono)
  moreover have "room ?s' t' w = room s t' w \<and> seen_windows ?s' t' = seen_windows s t'" for t' w
    by (rule room_cong) (simp_all add: rl')
  ultimately show ?case
    using rl_refuse.prems by (simp add: rl_sys_ok_def rl')
next
  case (rl_free s)
  let ?s' = "s\<lparr>sys_rl := rl_release (sys_rl s), sys_held := sys_held s - 1\<rparr>"
  have "room ?s' t' w = room s t' w \<and> seen_windows ?s' t' = seen_windows s t'" for t' w
    by (rule room_cong) simp_all
  then show ?case
    using rl_free by (auto simp: rl_sys_ok_def rl_release_def)
qed

lemma rl_reachable_ok:
  assumes "rl_reachable pm mc s"
  shows "rl_sys_ok s \<and> rl_per_minute (sys_rl s) = pm \<and> rl_bound (sys_rl s) = nat (max 1 mc)"
  using assms
proof induction
  case rl_start
  show ?case
    by (simp add: rl_init_ok) (simp add: rl_system_init_def rate_limiter_init_def)
next
  case (rl_next s e s')
  from rl_next.hyps(2) have "rl_per_minute (sys_rl s') = rl_per_minute (sys_rl s)
      \<and> rl_bound (sys_rl s') = rl_bound (sys_rl s)"
    by cases (auto elim!: count_attempt_cases simp: take_slot_def split: if_splits)
  with rl_next show ?case
    by (auto intro: rl_step_ok)
qed

lemma room_le:
  assumes "rl_sys_ok s"
  shows "room s t w \<le> max 0 (rl_per_minute (sys_rl s)) * int (turns w (seen_windows s t))"
proof (cases "rl_windows (sys_rl s) t")
  case (Some vc)
  then obtain v c where "rl_windows (sys_rl s) t = Some (v, c)" "c \<le> rl_per_minute (sys_rl s)"
    using assms by (cases vc) (auto simp: rl_sys_ok_def)
  then show ?thesis
    by (auto simp: room_def Let_def algebra_simps)
qed (simp add: room_def Let_def)

section \<open>Audit\<close>

text \<open>
  \<^verbatim>\<open>_arg_shape\<close> and \<^verbatim>\<open>_audit\<close>: what is logged of an invocation is, per argument, the type name
  and the length.  A value handed to the audit is a decoded JSON value, or the raw body of
  an upload (\<^verbatim>\<open>bytes\<close>).
\<close>

datatype audit_value = AJson json | ABytes nat

fun shape_of :: "audit_value \<Rightarrow> string \<times> nat option" where
  "shape_of (AJson v) = (type_name v, json_len v)"
| "shape_of (ABytes n) = (''bytes'', Some n)"

definition arg_shape :: "(string \<times> audit_value) list \<Rightarrow> (string \<times> string \<times> nat option) list" where
  "arg_shape arguments = map (\<lambda>(k, v). (k, shape_of v)) arguments"

definition json_args :: "dict \<Rightarrow> (string \<times> audit_value) list" where
  "json_args d = map (\<lambda>(k, v). (k, AJson v)) d"

record audit_entry =
  au_tenant_id :: string
  au_user_id :: string
  au_tool :: string
  au_decision :: string
  au_arg_shape :: "(string \<times> string \<times> nat option) list"
  au_result_class :: "string option"
  au_latency_ms :: "int option"
  au_exit_code :: "int option"

definition audit ::
    "owner \<Rightarrow> string \<Rightarrow> (string \<times> audit_value) list \<Rightarrow> string \<Rightarrow> string option \<Rightarrow> int option
       \<Rightarrow> int option \<Rightarrow> audit_entry list \<Rightarrow> audit_entry list" where
  "audit who tool arguments decision result_class latency_ms exit_code entries =
     entries @ [\<lparr>au_tenant_id = fst who, au_user_id = snd who, au_tool = tool,
                au_decision = decision, au_arg_shape = arg_shape arguments,
                au_result_class = result_class, au_latency_ms = latency_ms,
                au_exit_code = exit_code\<rparr>]"

text \<open>Arguments of the same shape cannot be told apart in the log.\<close>

definition same_shape :: "json \<Rightarrow> json \<Rightarrow> bool" where
  "same_shape v w \<longleftrightarrow> type_name v = type_name w \<and> json_len v = json_len w"

lemma audit_shape_only:
  assumes "list_all2 (\<lambda>(k, v) (k', w). k = k' \<and> same_shape v w) d e"
  shows "audit who tool (json_args d) dc rc lat ec entries = audit who tool (json_args e) dc rc lat ec entries"
proof -
  have "arg_shape (json_args d) = arg_shape (json_args e)"
    using assms
    by (induction rule: list_all2_induct) (auto simp: arg_shape_def json_args_def same_shape_def)
  then show ?thesis
    by (simp add: audit_def)
qed

section \<open>Properties\<close>

text \<open>C19: Under every interleaving of the threads' steps (the section under the lock, the semaphore, the release),
  with the times read before the lock in any order, the calls in flight and the free slots add up to the
  concurrency bound, so that it is never exceeded and no slot is lost; and a tenant is admitted in a one-minute
  window at most the per-minute limit for each time that its calls, in the order in which they held the lock,
  turned to that window.  So it is admitted at most the limit where these calls held the lock in the order of the
  times they read; where one of them was overtaken across the turn of a minute, the window starts afresh.\<close>

theorem rate_limiter_bounds:
  assumes "rl_reachable per_minute max_concurrency s"
  shows "rl_value (sys_rl s) + sys_held s = nat (max 1 max_concurrency) \<and>
     int (admitted (sys_log s) tenant window) \<le> max 0 per_minute * int (turns window (seen_windows s tenant)) \<and>
     (sorted_wrt (\<ge>) (seen_times s tenant) \<longrightarrow> int (admitted (sys_log s) tenant window) \<le> max 0 per_minute)"
proof (intro conjI impI)
  note ok = rl_reachable_ok [OF assms]
  show "rl_value (sys_rl s) + sys_held s = nat (max 1 max_concurrency)"
    using ok by (simp add: rl_sys_ok_def)
  have "int (admitted (sys_log s) tenant window + admitted (sys_pending s) tenant window) \<le> room s tenant window"
    using ok by (simp add: rl_sys_ok_def)
  then show bound: "int (admitted (sys_log s) tenant window) \<le> max 0 per_minute * int (turns window (seen_windows s tenant))"
    using room_le [of s tenant window] ok by simp
  assume "sorted_wrt (\<ge>) (seen_times s tenant)"
  then have "sorted_wrt (\<ge>) (seen_windows s tenant)"
    unfolding seen_windows_def sorted_wrt_map by (rule sorted_wrt_mono_rel [rotated]) (simp add: zdiv_mono1)
  from turns_ordered [OF this, of window] show "int (admitted (sys_log s) tenant window) \<le> max 0 per_minute"
    using bound mult_left_mono [of "int (turns window (seen_windows s tenant))" 1 "max 0 per_minute"] by simp
qed

text \<open>Two calls read the end of a minute, a third the start of the next, and it holds the lock between them: with a
  limit of one call a minute, two are admitted in the first of these minutes.\<close>

definition take_one :: "string \<Rightarrow> int \<Rightarrow> rl_system \<Rightarrow> rl_system" where
  "take_one t now s =
     s\<lparr>sys_rl := snd (try_acquire t now (sys_rl s)), sys_held := sys_held s + 1, sys_log := (t, now) # sys_log s,
       sys_seen := (t, now) # sys_seen s\<rparr>"

lemma take_one_reachable:
  assumes "rl_reachable pm mc s" and "fst (try_acquire t now (sys_rl s))" and "sys_pending s = []"
  shows "rl_reachable pm mc (take_one t now s)"
proof -
  obtain rl1 where c: "count_attempt t now (sys_rl s) = (True, rl1)" and "fst (take_slot rl1)"
    using assms(2) by (cases "count_attempt t now (sys_rl s)") (auto simp: try_acquire_def split: bool.splits)
  then obtain rl2 where k: "take_slot rl1 = (True, rl2)"
    by (metis prod.collapse)
  let ?s1 = "s\<lparr>sys_rl := rl1, sys_pending := (t, now) # sys_pending s, sys_seen := (t, now) # sys_seen s\<rparr>"
  have "rl_reachable pm mc ?s1"
    using rl_next [OF assms(1) rl_count [of t now s, OF c]] .
  from rl_next [OF this rl_admit [of t now ?s1 rl2]] show ?thesis
    using k c assms(3) by (cases s) (simp add: take_one_def try_acquire_def)
qed

lemma overtaken_exceeds_limit:
  "\<exists>s. rl_reachable 1 3 s \<and> admitted (sys_log s) ''a.io'' 1 = 2"
proof -
  let ?s0 = "rl_system_init 1 3"
  let ?s1 = "take_one ''a.io'' 119 ?s0"
  let ?s2 = "take_one ''a.io'' 120 ?s1"
  let ?s3 = "take_one ''a.io'' 119 ?s2"
  note defs = take_one_def try_acquire_eq rl_system_init_def rate_limiter_init_def
  have "rl_reachable 1 3 ?s1"
    by (rule take_one_reachable [OF rl_start]) (simp_all add: defs)
  then have "rl_reachable 1 3 ?s2"
    by (rule take_one_reachable) (simp_all add: defs)
  then have "rl_reachable 1 3 ?s3"
    by (rule take_one_reachable) (simp_all add: defs)
  moreover have "admitted (sys_log ?s3) ''a.io'' 1 = 2"
    by (simp add: defs admitted_def)
  ultimately show ?thesis
    by blast
qed

theorem rate_limiter_bounds_witness:
  "let s = take_one ''a.io'' 61 (take_one ''a.io'' 60 (rl_system_init 2 3)) in
   sys_held s = 2 \<and> rl_value (sys_rl s) + sys_held s = nat (max 1 3) \<and> admitted (sys_log s) ''a.io'' 1 = 2 \<and>
   int (admitted (sys_log s) ''a.io'' 1) \<le> max 0 2"
proof -
  let ?s1 = "take_one ''a.io'' 60 (rl_system_init 2 3)"
  let ?s2 = "take_one ''a.io'' 61 ?s1"
  note defs = take_one_def try_acquire_eq rl_system_init_def rate_limiter_init_def
  have "rl_reachable 2 3 ?s1"
    by (rule take_one_reachable [OF rl_start]) (simp_all add: defs)
  then have r: "rl_reachable 2 3 ?s2"
    by (rule take_one_reachable) (simp_all add: defs)
  have "sorted_wrt (\<ge>) (seen_times ?s2 ''a.io'')" "sys_held ?s2 = 2" "admitted (sys_log ?s2) ''a.io'' 1 = 2"
    by (simp_all add: defs seen_times_def admitted_def)
  then show ?thesis
    using rate_limiter_bounds [OF r, of "''a.io''" 1] by (simp add: Let_def)
qed

text \<open>The allow-list denies by default: a tool is permitted for a tenant exactly when the
  configured value is a JSON object whose entry for that tenant is a list holding the tool's
  name; an unset, malformed or differently shaped value permits nothing.\<close>

theorem allowlist_default_deny:
  assumes "\<forall>d. raw = Some (JObj d) \<longrightarrow> distinct (map fst d)"
  shows "is_allowed (parse_allowlist fr raw) tenant tool \<longleftrightarrow>
     (\<exists>d ts. raw = Some (JObj d) \<and> map_of d tenant = Some (JArr ts) \<and> tool \<in> py_str fr ` set ts)"
proof (cases "\<exists>d. raw = Some (JObj d)")
  case True
  then obtain d where d: "raw = Some (JObj d)" ..
  with assms have "distinct (map fst d)" by simp
  with d show ?thesis
    by (simp add: parse_allowlist_def is_allowed_def map_of_allowlist_items del: map_of_eq_Some_iff
        split: option.split json.split)
next
  case False
  then show ?thesis
    by (auto simp: parse_allowlist_def split: option.split json.split)
qed

theorem allowlist_default_deny_witness:
  "is_allowed (parse_allowlist (\<lambda>_. []) (Some (JObj [(''a.io'', JArr [JStr ''shell''])]))) ''a.io'' ''shell'' \<and>
   \<not> is_allowed (parse_allowlist (\<lambda>_. []) (Some (JObj [(''a.io'', JStr ''shell'')]))) ''a.io'' ''shell''"
  using allowlist_default_deny [of "Some (JObj [(''a.io'', JArr [JStr ''shell''])])" "\<lambda>_. []" "''a.io''" "''shell''"]
    allowlist_default_deny [of "Some (JObj [(''a.io'', JStr ''shell'')])" "\<lambda>_. []" "''a.io''" "''shell''"]
  by simp

text \<open>The audit record carries no argument content: two invocations whose arguments have
  the same names, type names and lengths leave identical audit logs.\<close>

theorem audit_no_content:
  assumes "list_all2 (\<lambda>(k, v) (k', w). k = k' \<and> same_shape v w) d e"
  shows "audit who tool (json_args d) dc rc lat ec entries =
         audit who tool (json_args e) dc rc lat ec entries"
  using assms by (rule audit_shape_only)

theorem audit_no_content_witness:
  "audit (''a.io'', ''alice'') ''shell'' (json_args [(''cmd'', JStr ''ls'')]) ''permit'' None None None [] =
   audit (''a.io'', ''alice'') ''shell'' (json_args [(''cmd'', JStr ''rm'')]) ''permit'' None None None []"
  using audit_no_content [of "[(''cmd'', JStr ''ls'')]" "[(''cmd'', JStr ''rm'')]"
      "(''a.io'', ''alice'')" "''shell''" "''permit''" None None None "[]"]
  by (simp add: same_shape_def)

end
