(* ===== verification/Conversations.thy ===== *)
theory Conversations
  imports Stores
begin

text \<open>
  Conversation threads (app/control_plane/conversations.py): conversations with their messages,
  the store protocol, the in-memory dictionary and the two PostgreSQL tables, the contract both
  keep (locale \<open>conv_store_contract\<close>) and the five handlers.  \<^verbatim>\<open>_now_utc()\<close> and \<^verbatim>\<open>uuid4()\<close> are the
  arguments \<open>now\<close> and \<open>uid\<close>.
\<close>

section \<open>Data\<close>

definition MAX_TITLE_LEN :: nat where "MAX_TITLE_LEN = 200"
definition MAX_CONTENT_LEN :: nat where "MAX_CONTENT_LEN = 100000"
definition MAX_MESSAGES_PER_CONVERSATION :: nat where "MAX_MESSAGES_PER_CONVERSATION = 2000"

definition VALID_ROLES :: "string set" where
  "VALID_ROLES = {''user'', ''assistant'', ''system''}"

record message =
  ms_id :: string
  ms_role :: string
  ms_content :: string
  ms_created_at :: datetime

record conversation =
  cv_id :: string
  cv_tenant_id :: string
  cv_user_id :: string
  cv_title :: string
  cv_created_at :: datetime
  cv_updated_at :: datetime
  cv_messages :: "message list"

definition cv_owner :: "conversation \<Rightarrow> owner" where
  "cv_owner c = (cv_tenant_id c, cv_user_id c)"

definition summary_fields :: "conversation \<Rightarrow> dict" where
  "summary_fields c =
     [(''id'', JStr (cv_id c)), (''title'', JStr (cv_title c)),
      (''created_at'', JStr (isoformat (cv_created_at c))),
      (''updated_at'', JStr (isoformat (cv_updated_at c)))]"

definition conv_summary :: "conversation \<Rightarrow> json" where
  "conv_summary c = JObj (summary_fields c)"

definition message_json :: "message \<Rightarrow> json" where
  "message_json m =
     JObj [(''id'', JStr (ms_id m)), (''role'', JStr (ms_role m)), (''content'', JStr (ms_content m)),
           (''created_at'', JStr (isoformat (ms_created_at m)))]"

definition conv_detail :: "conversation \<Rightarrow> json" where
  "conv_detail c =
     JObj (summary_fields c @ [(''messages'', JArr (map message_json (cv_messages c)))])"

definition new_conversation :: string where "new_conversation = ''New conversation''"

text \<open>The first user message seeds the title.\<close>

definition seed_title :: "string \<Rightarrow> string \<Rightarrow> string \<Rightarrow> string" where
  "seed_title title role content =
     (if title = new_conversation \<and> role = ''user''
      then (let t = py_strip (take MAX_TITLE_LEN content) in if t = [] then title else t)
      else title)"

section \<open>The store protocol and its two implementations\<close>

record 's conv_store =
  cs_create :: "owner \<Rightarrow> string \<Rightarrow> datetime \<Rightarrow> string \<Rightarrow> 's \<Rightarrow> conversation \<times> 's"
  cs_list_for_user :: "owner \<Rightarrow> int \<Rightarrow> 's \<Rightarrow> conversation list"
  cs_get :: "owner \<Rightarrow> string \<Rightarrow> 's \<Rightarrow> conversation option"
  cs_delete :: "owner \<Rightarrow> string \<Rightarrow> 's \<Rightarrow> bool \<times> 's"
  cs_append :: "owner \<Rightarrow> string \<Rightarrow> string \<Rightarrow> string \<Rightarrow> datetime \<Rightarrow> string \<Rightarrow> 's \<Rightarrow> message option \<times> 's"

text \<open>
  In memory: the dictionary from ids to \<^verbatim>\<open>(Conversation, list)\<close> in insertion order; the
  messages are kept in the conversation's own field.
\<close>

type_synonym mem_convs = "(string \<times> conversation) list"

definition new_conv :: "owner \<Rightarrow> string \<Rightarrow> datetime \<Rightarrow> string \<Rightarrow> conversation" where
  "new_conv who title now uid =
     \<lparr>cv_id = uid, cv_tenant_id = fst who, cv_user_id = snd who, cv_title = take MAX_TITLE_LEN title,
      cv_created_at = now, cv_updated_at = now, cv_messages = []\<rparr>"

definition mem_conv_create ::
    "owner \<Rightarrow> string \<Rightarrow> datetime \<Rightarrow> string \<Rightarrow> mem_convs \<Rightarrow> conversation \<times> mem_convs" where
  "mem_conv_create who title now uid s =
     (let conv = new_conv who title now uid in (conv, dset s (cv_id conv) conv))"

definition mem_conv_owned :: "string \<Rightarrow> owner \<Rightarrow> mem_convs \<Rightarrow> conversation option" where
  "mem_conv_owned conversation_id who s =
     (case map_of s conversation_id of
        None \<Rightarrow> None
      | Some conv \<Rightarrow>
          if cv_tenant_id conv \<noteq> fst who \<or> cv_user_id conv \<noteq> snd who then None else Some conv)"

definition mem_conv_list :: "owner \<Rightarrow> int \<Rightarrow> mem_convs \<Rightarrow> conversation list" where
  "mem_conv_list who limit s =
     slice_to limit (sort_desc cv_updated_at
       (map (\<lambda>c. c\<lparr>cv_messages := []\<rparr>)
         (filter (\<lambda>c. cv_tenant_id c = fst who \<and> cv_user_id c = snd who) (map snd s))))"

definition mem_conv_get :: "owner \<Rightarrow> string \<Rightarrow> mem_convs \<Rightarrow> conversation option" where
  "mem_conv_get who conversation_id s = mem_conv_owned conversation_id who s"

definition mem_conv_delete :: "owner \<Rightarrow> string \<Rightarrow> mem_convs \<Rightarrow> bool \<times> mem_convs" where
  "mem_conv_delete who conversation_id s =
     (case mem_conv_owned conversation_id who s of
        None \<Rightarrow> (False, s)
      | Some _ \<Rightarrow> (True, filter (\<lambda>(k, c). k \<noteq> conversation_id) s))"

definition trim_messages :: "message list \<Rightarrow> message list" where
  "trim_messages msgs = (if MAX_MESSAGES_PER_CONVERSATION \<le> length msgs then tl msgs else msgs)"

definition mem_conv_append ::
    "owner \<Rightarrow> string \<Rightarrow> string \<Rightarrow> string \<Rightarrow> datetime \<Rightarrow> string \<Rightarrow> mem_convs
       \<Rightarrow> message option \<times> mem_convs" where
  "mem_conv_append who conversation_id role content now uid s =
     (case mem_conv_owned conversation_id who s of
        None \<Rightarrow> (None, s)
      | Some conv \<Rightarrow>
          let msg = \<lparr>ms_id = uid, ms_role = role, ms_content = take MAX_CONTENT_LEN content,
                     ms_created_at = now\<rparr>;
              msgs = trim_messages (cv_messages conv) @ [msg];
              title = seed_title (cv_title conv) role content
          in (Some msg, dset s conversation_id
                (conv\<lparr>cv_title := title, cv_updated_at := ms_created_at msg, cv_messages := msgs\<rparr>)))"

definition InMemoryConversationStore :: "mem_convs conv_store" where
  "InMemoryConversationStore =
     \<lparr>cs_create = mem_conv_create, cs_list_for_user = mem_conv_list, cs_get = mem_conv_get,
      cs_delete = mem_conv_delete, cs_append = mem_conv_append\<rparr>"

text \<open>
  PostgreSQL: the rows of \<^verbatim>\<open>conversations\<close> (whose message field is not a column and stays empty)
  and of \<^verbatim>\<open>conversation_messages\<close>, which the foreign key deletes with their conversation.
\<close>

record message_row =
  mr_conversation_id :: string
  mr_tenant_id :: string
  mr_user_id :: string
  mr_message :: message

record pg_convs =
  pc_conversations :: "conversation list"
  pc_messages :: "message_row list"

definition pg_conv_create ::
    "owner \<Rightarrow> string \<Rightarrow> datetime \<Rightarrow> string \<Rightarrow> pg_convs \<Rightarrow> conversation \<times> pg_convs" where
  "pg_conv_create who title now uid s =
     (let conv = new_conv who title now uid
      in (conv, s\<lparr>pc_conversations := pc_conversations s @ [conv]\<rparr>))"

definition pg_conv_list :: "owner \<Rightarrow> int \<Rightarrow> pg_convs \<Rightarrow> conversation list" where
  "pg_conv_list who limit s =
     sql_select_desc (\<lambda>c. cv_owner c = who) cv_updated_at limit (pc_conversations s)"

definition thread_of :: "pg_convs \<Rightarrow> string \<Rightarrow> string \<Rightarrow> message list" where
  "thread_of s conversation_id tenant_id =
     sort_key ms_created_at (map mr_message
       (filter (\<lambda>r. mr_conversation_id r = conversation_id \<and> mr_tenant_id r = tenant_id)
         (pc_messages s)))"

definition pg_conv_get :: "owner \<Rightarrow> string \<Rightarrow> pg_convs \<Rightarrow> conversation option" where
  "pg_conv_get who conversation_id s =
     (case find (\<lambda>c. cv_id c = conversation_id \<and> cv_owner c = who) (pc_conversations s) of
        None \<Rightarrow> None
      | Some c \<Rightarrow> Some (c\<lparr>cv_messages := thread_of s conversation_id (fst who)\<rparr>))"

definition pg_conv_delete :: "owner \<Rightarrow> string \<Rightarrow> pg_convs \<Rightarrow> bool \<times> pg_convs" where
  "pg_conv_delete who conversation_id s =
     (let hit = (\<lambda>c. cv_id c = conversation_id \<and> cv_owner c = who);
          gone = map cv_id (filter hit (pc_conversations s))
      in (list_ex hit (pc_conversations s),
          s\<lparr>pc_conversations := filter (\<lambda>c. \<not> hit c) (pc_conversations s),
            pc_messages := filter (\<lambda>r. mr_conversation_id r \<notin> set gone) (pc_messages s)\<rparr>))"

definition pg_conv_append ::
    "owner \<Rightarrow> string \<Rightarrow> string \<Rightarrow> string \<Rightarrow> datetime \<Rightarrow> string \<Rightarrow> pg_convs
       \<Rightarrow> message option \<times> pg_convs" where
  "pg_conv_append who conversation_id role content now uid s =
     (case find (\<lambda>c. cv_id c = conversation_id \<and> cv_owner c = who) (pc_conversations s) of
        None \<Rightarrow> (None, s)
      | Some c \<Rightarrow>
          let msg = \<lparr>ms_id = uid, ms_role = role, ms_content = take MAX_CONTENT_LEN content,
                     ms_created_at = now\<rparr>;
              title = seed_title (cv_title c) role content
          in (Some msg,
              s\<lparr>pc_conversations := map (\<lambda>c. if cv_id c = conversation_id
                    then c\<lparr>cv_updated_at := now, cv_title := title\<rparr> else c) (pc_conversations s),
                pc_messages := pc_messages s @ [\<lparr>mr_conversation_id = conversation_id,
                    mr_tenant_id = fst who, mr_user_id = snd who, mr_message = msg\<rparr>]\<rparr>))"

definition PostgresConversationStore :: "pg_convs conv_store" where
  "PostgresConversationStore =
     \<lparr>cs_create = pg_conv_create, cs_list_for_user = pg_conv_list, cs_get = pg_conv_get,
      cs_delete = pg_conv_delete, cs_append = pg_conv_append\<rparr>"

section \<open>Handlers\<close>

text \<open>The title of a create request; an unreadable body leaves the default.\<close>

definition create_title :: "json option \<Rightarrow> string" where
  "create_title body =
     (case body of
        Some (JObj data) \<Rightarrow>
          (case dget data ''title'' of
             JStr t \<Rightarrow> if py_strip t = [] then new_conversation else py_strip t
           | _ \<Rightarrow> new_conversation)
      | _ \<Rightarrow> new_conversation)"

definition build_conversation_create_response ::
    "'s conv_store \<Rightarrow> datetime \<Rightarrow> string \<Rightarrow> string option \<Rightarrow> json option \<Rightarrow> verifier option
       \<Rightarrow> 's \<Rightarrow> reply \<times> 's" where
  "build_conversation_create_response store now uid authorization body token_verifier s =
     (case verify_and_extract authorization token_verifier of
        Inl err \<Rightarrow> (err, s)
      | Inr claims \<Rightarrow>
          let (conv, s') = cs_create store (owner_of claims) (create_title body) now uid s
          in ((HTTP_CREATED, conv_summary conv), s'))"

definition build_conversations_list_response ::
    "'s conv_store \<Rightarrow> string option \<Rightarrow> verifier option \<Rightarrow> int \<Rightarrow> 's \<Rightarrow> reply" where
  "build_conversations_list_response store authorization token_verifier limit s =
     (case verify_and_extract authorization token_verifier of
        Inl err \<Rightarrow> err
      | Inr claims \<Rightarrow>
          (HTTP_OK, JObj [(''conversations'',
             JArr (map conv_summary (cs_list_for_user store (owner_of claims) limit s)))]))"

definition build_conversation_get_response ::
    "'s conv_store \<Rightarrow> string option \<Rightarrow> string \<Rightarrow> verifier option \<Rightarrow> 's \<Rightarrow> reply" where
  "build_conversation_get_response store authorization conversation_id token_verifier s =
     (case verify_and_extract authorization token_verifier of
        Inl err \<Rightarrow> err
      | Inr claims \<Rightarrow>
          (case cs_get store (owner_of claims) conversation_id s of
             None \<Rightarrow> (HTTP_NOT_FOUND, err_only ''not_found'')
           | Some conv \<Rightarrow> (HTTP_OK, conv_detail conv)))"

definition build_conversation_delete_response ::
    "'s conv_store \<Rightarrow> string option \<Rightarrow> string \<Rightarrow> verifier option \<Rightarrow> 's \<Rightarrow> reply \<times> 's" where
  "build_conversation_delete_response store authorization conversation_id token_verifier s =
     (case verify_and_extract authorization token_verifier of
        Inl err \<Rightarrow> (err, s)
      | Inr claims \<Rightarrow>
          let (ok, s') = cs_delete store (owner_of claims) conversation_id s
          in (if \<not> ok then (HTTP_NOT_FOUND, err_only ''not_found'')
              else (HTTP_OK, JObj [(''status'', JStr ''deleted''), (''id'', JStr conversation_id)]),
              s'))"

text \<open>The role and content of an append; a role that is a list or an object is unhashable.\<close>

definition append_fields :: "json option \<Rightarrow> py_exn + (reply + string \<times> string)" where
  "append_fields body =
     (case body of
        Some (JObj data) \<Rightarrow>
          (case in_str_set (dget data ''role'') VALID_ROLES of
             Inl ex \<Rightarrow> Inl ex
           | Inr False \<Rightarrow> Inr (Inl (bad_request ''role must be user|assistant|system''))
           | Inr True \<Rightarrow>
               (case dget data ''content'' of
                  JStr content \<Rightarrow>
                    if content = [] then Inr (Inl (bad_request (quoted ''content'' @ '' is required.'')))
                    else if MAX_CONTENT_LEN < length content
                    then Inr (Inl (HTTP_TOO_LARGE, err_only ''content_too_large''))
                    else Inr (Inr (py_str (\<lambda>_. []) (dget data ''role''), content))
                | _ \<Rightarrow> Inr (Inl (bad_request (quoted ''content'' @ '' is required.'')))))
      | _ \<Rightarrow> Inr (Inl (HTTP_BAD_REQUEST, err_only ''bad_request'')))"

definition build_conversation_append_response ::
    "'s conv_store \<Rightarrow> datetime \<Rightarrow> string \<Rightarrow> string option \<Rightarrow> string \<Rightarrow> json option \<Rightarrow> verifier option
       \<Rightarrow> 's \<Rightarrow> (py_exn + reply) \<times> 's" where
  "build_conversation_append_response store now uid authorization conversation_id body token_verifier s =
     (case verify_and_extract authorization token_verifier of
        Inl err \<Rightarrow> (Inr err, s)
      | Inr claims \<Rightarrow>
     (case append_fields body of
        Inl ex \<Rightarrow> (Inl ex, s)
      | Inr (Inl err) \<Rightarrow> (Inr err, s)
      | Inr (Inr (role, content)) \<Rightarrow>
          let (msg, s') = cs_append store (owner_of claims) conversation_id role content now uid s
          in (Inr (case msg of
                     None \<Rightarrow> (HTTP_NOT_FOUND, err_only ''not_found'')
                   | Some m \<Rightarrow> (HTTP_CREATED,
                       JObj [(''id'', JStr (ms_id m)), (''role'', JStr (ms_role m)),
                             (''created_at'', JStr (isoformat (ms_created_at m)))])), s')))"

datatype conv_request =
    ConvCreate "string option" "json option" string
  | ConvList "string option" int
  | ConvGet "string option" string
  | ConvDelete "string option" string
  | ConvAppend "string option" string "json option" string

fun conv_auth :: "conv_request \<Rightarrow> string option" where
  "conv_auth (ConvCreate a b u) = a"
| "conv_auth (ConvList a n) = a"
| "conv_auth (ConvGet a i) = a"
| "conv_auth (ConvDelete a i) = a"
| "conv_auth (ConvAppend a i b u) = a"

fun conv_step ::
    "'s conv_store \<Rightarrow> verifier option \<Rightarrow> datetime \<Rightarrow> conv_request \<Rightarrow> 's \<Rightarrow> (py_exn + reply) \<times> 's" where
  "conv_step store v now (ConvCreate a b uid) s =
     (case build_conversation_create_response store now uid a b v s of (r, s') \<Rightarrow> (Inr r, s'))"
| "conv_step store v now (ConvList a n) s = (Inr (build_conversations_list_response store a v n s), s)"
| "conv_step store v now (ConvGet a i) s = (Inr (build_conversation_get_response store a i v s), s)"
| "conv_step store v now (ConvDelete a i) s =
     (case build_conversation_delete_response store a i v s of (r, s') \<Rightarrow> (Inr r, s'))"
| "conv_step store v now (ConvAppend a i b uid) s =
     build_conversation_append_response store now uid a i b v s"

section \<open>The contract\<close>

definition conv_message :: "string \<Rightarrow> string \<Rightarrow> datetime \<Rightarrow> string \<Rightarrow> message" where
  "conv_message role content now uid =
     \<lparr>ms_id = uid, ms_role = role, ms_content = take MAX_CONTENT_LEN content, ms_created_at = now\<rparr>"

definition bump ::
    "(message \<Rightarrow> message list \<Rightarrow> message list) \<Rightarrow> string \<Rightarrow> string \<Rightarrow> datetime \<Rightarrow> string
       \<Rightarrow> conversation \<Rightarrow> conversation" where
  "bump add role content now uid c =
     c\<lparr>cv_title := seed_title (cv_title c) role content, cv_updated_at := now,
       cv_messages := add (conv_message role content now uid) (cv_messages c)\<rparr>"

locale conv_store_contract = owner_scoped_store cv_owner cv_id view inv
  for view :: "'s \<Rightarrow> owner \<Rightarrow> conversation list" and inv :: "'s \<Rightarrow> bool" +
  fixes store :: "'s conv_store"
    and add :: "message \<Rightarrow> message list \<Rightarrow> message list"
  assumes add_new: "m \<in> set (add m ms)"
    and add_set: "set (add m ms) \<subseteq> insert m (set ms)"
    and create_result: "fst (cs_create store o' t now uid s) = new_conv o' t now uid"
    and inv_create: "inv s \<Longrightarrow> fresh_id cv_id view s uid \<Longrightarrow> inv (snd (cs_create store o' t now uid s))"
    and view_create: "inv s \<Longrightarrow> fresh_id cv_id view s uid \<Longrightarrow>
      view (snd (cs_create store o1 t now uid s)) o2 =
        view s o2 @ (if o1 = o2 then [new_conv o1 t now uid] else [])"
    and list_view: "inv s \<Longrightarrow> cs_list_for_user store o' n s =
      slice_to n (sort_desc cv_updated_at (map (\<lambda>c. c\<lparr>cv_messages := []\<rparr>) (view s o')))"
    and get_view: "inv s \<Longrightarrow> cs_get store o' i s = find (\<lambda>c. cv_id c = i) (view s o')"
    and delete_result: "inv s \<Longrightarrow> fst (cs_delete store o' i s) = (i \<in> cv_id ` set (view s o'))"
    and inv_delete: "inv s \<Longrightarrow> inv (snd (cs_delete store o' i s))"
    and view_delete: "inv s \<Longrightarrow> view (snd (cs_delete store o1 i s)) o2 =
      (if o2 = o1 then filter (\<lambda>c. cv_id c \<noteq> i) (view s o1) else view s o2)"
    and append_result: "inv s \<Longrightarrow> fst (cs_append store o' i role content now uid s) =
      (if i \<in> cv_id ` set (view s o') then Some (conv_message role content now uid) else None)"
    and inv_append: "inv s \<Longrightarrow> inv (snd (cs_append store o' i role content now uid s))"
    and view_append: "inv s \<Longrightarrow> view (snd (cs_append store o1 i role content now uid s)) o2 =
      (if o2 = o1 then map (\<lambda>c. if cv_id c = i then bump add role content now uid c else c) (view s o1)
       else view s o2)"

lemma bump_owner [simp]: "cv_owner (bump add r t now u c) = cv_owner c"
  by (simp add: bump_def cv_owner_def)

lemma bump_id [simp]: "cv_id (bump add r t now u c) = cv_id c"
  by (simp add: bump_def)

lemma new_conv_owner [simp]: "cv_owner (new_conv o' t now uid) = o'"
  by (simp add: new_conv_def cv_owner_def)

lemma new_conv_id [simp]: "cv_id (new_conv o' t now uid) = uid"
  by (simp add: new_conv_def)

subsection \<open>In memory\<close>

definition mem_conv_view :: "mem_convs \<Rightarrow> owner \<Rightarrow> conversation list" where
  "mem_conv_view s o' = filter (\<lambda>c. cv_owner c = o') (map snd s)"

definition mem_conv_ok :: "mem_convs \<Rightarrow> bool" where
  "mem_conv_ok s \<longleftrightarrow> distinct (map fst s) \<and> (\<forall>p \<in> set s. cv_id (snd p) = fst p)"

definition mem_add :: "message \<Rightarrow> message list \<Rightarrow> message list" where
  "mem_add m ms = trim_messages ms @ [m]"

lemma mem_conv_ids: "mem_conv_ok s \<Longrightarrow> map cv_id (map snd s) = map fst s"
  by (auto simp: mem_conv_ok_def)

lemma mem_conv_fresh:
  assumes "mem_conv_ok s" and "fresh_id cv_id mem_conv_view s uid"
  shows "uid \<notin> fst ` set s"
proof
  assume "uid \<in> fst ` set s"
  then obtain c where "(uid, c) \<in> set s" by auto
  with assms(1) have "cv_id c = uid" and "c \<in> set (mem_conv_view s (cv_owner c))"
    by (auto simp: mem_conv_ok_def mem_conv_view_def image_iff Bex_def)
  with assms(2) show False
    unfolding fresh_id_def by blast
qed

lemma mem_conv_find:
  assumes "mem_conv_ok s"
  shows "mem_conv_owned i o' s = find (\<lambda>c. cv_id c = i) (mem_conv_view s o')"
  using assms
proof (induction s)
  case Nil
  then show ?case by (simp add: mem_conv_owned_def mem_conv_view_def)
next
  case (Cons p s)
  obtain k c where p: "p = (k, c)" by (cases p)
  have ok: "mem_conv_ok s" and k: "cv_id c = k" and "k \<notin> fst ` set s"
    using Cons.prems p by (auto simp: mem_conv_ok_def)
  then have "find (\<lambda>c. cv_id c = k) (mem_conv_view s o') = None"
    using mem_conv_ids [OF ok] by (force simp: find_None_iff mem_conv_view_def mem_conv_ok_def)
  with Cons.IH [OF ok] p k show ?case
    by (cases o') (auto simp: mem_conv_owned_def mem_conv_view_def cv_owner_def)
qed

lemma mem_conv_dset:
  assumes "mem_conv_ok s" and "map_of s i = Some c" and "cv_id c' = i"
  shows "map snd (dset s i c') = map (\<lambda>x. if cv_id x = i then c' else x) (map snd s)"
  using assms
proof (induction s)
  case Nil
  then show ?case by simp
next
  case (Cons p s)
  obtain k x where p: "p = (k, x)" by (cases p)
  have ok: "mem_conv_ok s" and k: "cv_id x = k" and n: "k \<notin> fst ` set s"
    using Cons.prems p by (auto simp: mem_conv_ok_def)
  show ?case
  proof (cases "k = i")
    case True
    have "map (\<lambda>x. if cv_id x = i then c' else x) (map snd s) = map snd s"
      using n ok True by (intro map_idI) (force simp: mem_conv_ok_def)
    with True p k show ?thesis by simp
  next
    case False
    with Cons p k ok show ?thesis by simp
  qed
qed

lemma mem_conv_ok_dset:
  assumes "mem_conv_ok s" and "cv_id c = i"
  shows "mem_conv_ok (dset s i c)"
  using assms by (auto simp: mem_conv_ok_def distinct_dset set_dset)

lemma mem_conv_owned_Some:
  assumes "mem_conv_owned i o' s = Some c"
  shows "map_of s i = Some c" and "cv_owner c = o'"
  using assms
  by (cases o'; auto simp: mem_conv_owned_def cv_owner_def split: option.splits if_splits)+

lemma find_id_iff:
  "(find (\<lambda>c. cv_id c = i) xs = None) = (i \<notin> cv_id ` set xs)"
  by (auto simp: find_None_iff)

lemma mem_conv_owned_iff:
  assumes "mem_conv_ok s"
  shows "(mem_conv_owned i o' s = None) = (i \<notin> cv_id ` set (mem_conv_view s o'))"
  by (simp add: mem_conv_find [OF assms] find_id_iff)

lemma mem_conv_view_append:
  assumes ok: "mem_conv_ok s"
  shows "mem_conv_view (snd (mem_conv_append o1 i role content now uid s)) o2 =
    (if o2 = o1 then map (\<lambda>c. if cv_id c = i then bump mem_add role content now uid c else c)
        (mem_conv_view s o1)
     else mem_conv_view s o2)"
proof (cases "mem_conv_owned i o1 s")
  case None
  then have "i \<notin> cv_id ` set (mem_conv_view s o1)"
    by (simp add: mem_conv_owned_iff [OF ok])
  then have "map (\<lambda>c. if cv_id c = i then bump mem_add role content now uid c else c)
      (mem_conv_view s o1) = mem_conv_view s o1"
    by (intro map_idI) auto
  with None show ?thesis by (simp add: mem_conv_append_def)
next
  case (Some c)
  note c = mem_conv_owned_Some [OF Some]
  let ?c = "bump mem_add role content now uid c"
  have id: "cv_id c = i"
    using c(1) ok by (auto simp: mem_conv_ok_def dest: map_of_SomeD)
  have only: "x = c" if "x \<in> set (map snd s)" "cv_id x = i" for x
  proof -
    have "(i, x) \<in> set s"
      using that ok by (auto simp: mem_conv_ok_def)
    then have "map_of s i = Some x"
      using ok by (simp add: mem_conv_ok_def)
    with c(1) show ?thesis by simp
  qed
  have "snd (mem_conv_append o1 i role content now uid s) = dset s i ?c"
    using Some by (simp add: mem_conv_append_def bump_def mem_add_def conv_message_def Let_def)
  then have "mem_conv_view (snd (mem_conv_append o1 i role content now uid s)) o2 =
      filter (\<lambda>x. cv_owner x = o2) (map (\<lambda>x. if cv_id x = i then ?c else x) (map snd s))"
    using mem_conv_dset [OF ok c(1), of ?c] id by (simp add: mem_conv_view_def)
  also have "\<dots> = filter (\<lambda>x. cv_owner x = o2)
      (map (\<lambda>x. if cv_id x = i then bump mem_add role content now uid x else x) (map snd s))"
    using only by (intro arg_cong [where f = "filter _"] map_cong) auto
  also have "\<dots> = map (\<lambda>x. if cv_id x = i then bump mem_add role content now uid x else x)
      (mem_conv_view s o2)"
    by (simp add: filter_map mem_conv_view_def comp_def if_distrib cong: if_cong)
  also have "\<dots> = (if o2 = o1 then map (\<lambda>x. if cv_id x = i then bump mem_add role content now uid x else x)
      (mem_conv_view s o1) else mem_conv_view s o2)"
  proof (cases "o2 = o1")
    case False
    then have "cv_id x \<noteq> i" if "x \<in> set (mem_conv_view s o2)" for x
      using that only [of x] c(2) by (auto simp: mem_conv_view_def)
    with False show ?thesis by (simp cong: map_cong)
  qed simp
  finally show ?thesis .
qed

lemma mem_conv_view_delete:
  assumes ok: "mem_conv_ok s"
  shows "mem_conv_view (snd (mem_conv_delete o1 i s)) o2 =
    (if o2 = o1 then filter (\<lambda>c. cv_id c \<noteq> i) (mem_conv_view s o1) else mem_conv_view s o2)"
proof (cases "mem_conv_owned i o1 s")
  case None
  then have "i \<notin> cv_id ` set (mem_conv_view s o1)"
    by (simp add: mem_conv_owned_iff [OF ok])
  then have "filter (\<lambda>c. cv_id c \<noteq> i) (mem_conv_view s o1) = mem_conv_view s o1"
    by (intro filter_True) auto
  with None show ?thesis by (simp add: mem_conv_delete_def)
next
  case (Some c)
  note c = mem_conv_owned_Some [OF Some]
  have other: "cv_owner x = o1" if "x \<in> set (map snd s)" "cv_id x = i" for x
  proof -
    have "(i, x) \<in> set s"
      using that ok by (auto simp: mem_conv_ok_def)
    with c ok show ?thesis
      by (auto simp: mem_conv_ok_def dest: map_of_is_SomeI)
  qed
  have "map snd (filter (\<lambda>(k, c). k \<noteq> i) s) = filter (\<lambda>c. cv_id c \<noteq> i) (map snd s)"
    using ok by (auto simp: mem_conv_ok_def filter_map comp_def split_beta intro!: arg_cong [where f = "map snd"] filter_cong)
  then have "mem_conv_view (snd (mem_conv_delete o1 i s)) o2 =
      filter (\<lambda>c. cv_id c \<noteq> i) (mem_conv_view s o2)"
    using Some by (simp add: mem_conv_delete_def mem_conv_view_def conj_commute)
  also have "\<dots> = (if o2 = o1 then filter (\<lambda>c. cv_id c \<noteq> i) (mem_conv_view s o1) else mem_conv_view s o2)"
  proof (cases "o2 = o1")
    case False
    then have "cv_id x \<noteq> i" if "x \<in> set (mem_conv_view s o2)" for x
      using that other [of x] by (auto simp: mem_conv_view_def)
    with False show ?thesis by simp
  qed simp
  finally show ?thesis .
qed

lemma mem_conv_scoped: "owner_scoped_store cv_owner cv_id mem_conv_view mem_conv_ok"
proof
  fix s o'
  show "cv_owner x = o'" if "x \<in> set (mem_conv_view s o')" for x
    using that by (simp add: mem_conv_view_def)
  show "distinct (map cv_id (mem_conv_view s o'))" if "mem_conv_ok s"
  proof -
    have "distinct (map cv_id (map snd s))"
      unfolding mem_conv_ids [OF that] using that by (simp add: mem_conv_ok_def)
    then show ?thesis
      by (simp add: mem_conv_view_def distinct_map_filter del: map_map)
  qed
qed

interpretation mem_convs: conv_store_contract
  mem_conv_view mem_conv_ok InMemoryConversationStore mem_add
proof (intro conv_store_contract.intro mem_conv_scoped conv_store_contract_axioms.intro)
  fix s :: mem_convs and o' o1 o2 t now uid i n role content
  let ?S = InMemoryConversationStore
  show "m \<in> set (mem_add m ms)" and "set (mem_add m ms) \<subseteq> insert m (set ms)" for m ms
    by (auto simp: mem_add_def trim_messages_def dest: list.set_sel(2) split: if_splits)
       (metis MAX_MESSAGES_PER_CONVERSATION_def list.set_sel(2) list.sel(2) )
  show "mem_conv_ok (snd (cs_create ?S o' t now uid s))" if "mem_conv_ok s"
    using that
    by (simp add: InMemoryConversationStore_def mem_conv_create_def mem_conv_ok_dset Let_def)
  show "mem_conv_view (snd (cs_create ?S o1 t now uid s)) o2 =
      mem_conv_view s o2 @ (if o1 = o2 then [new_conv o1 t now uid] else [])"
    if "mem_conv_ok s" "fresh_id cv_id mem_conv_view s uid"
    using mem_conv_fresh [OF that]
    by (simp add: InMemoryConversationStore_def mem_conv_create_def dset_absent mem_conv_view_def
        Let_def)
  show "cs_list_for_user ?S o' n s =
      slice_to n (sort_desc cv_updated_at (map (\<lambda>c. c\<lparr>cv_messages := []\<rparr>) (mem_conv_view s o')))"
    by (cases o') (simp add: InMemoryConversationStore_def mem_conv_list_def mem_conv_view_def
        cv_owner_def)
  show "mem_conv_ok (snd (cs_delete ?S o' i s))" if "mem_conv_ok s"
    using that
    by (auto simp: InMemoryConversationStore_def mem_conv_delete_def mem_conv_ok_def
        distinct_map_filter split: option.split)
  show "fst (cs_append ?S o' i role content now uid s) =
      (if i \<in> cv_id ` set (mem_conv_view s o') then Some (conv_message role content now uid) else None)"
    if "mem_conv_ok s"
    using mem_conv_owned_iff [OF that, of i o']
    by (auto simp: InMemoryConversationStore_def mem_conv_append_def conv_message_def Let_def
        split: option.split)
  show "mem_conv_ok (snd (cs_append ?S o' i role content now uid s))" if "mem_conv_ok s"
    using that mem_conv_owned_Some(1) [of i o' s]
    by (auto simp: InMemoryConversationStore_def mem_conv_append_def Let_def split: option.split
        intro!: mem_conv_ok_dset) (auto simp: mem_conv_ok_def dest: map_of_SomeD)
  show "fst (cs_delete ?S o' i s) = (i \<in> cv_id ` set (mem_conv_view s o'))" if "mem_conv_ok s"
    using mem_conv_owned_iff [OF that, of i o']
    by (auto simp: InMemoryConversationStore_def mem_conv_delete_def split: option.split)
qed (simp_all add: InMemoryConversationStore_def mem_conv_create_def mem_conv_get_def
      mem_conv_find mem_conv_view_delete mem_conv_view_append Let_def)

subsection \<open>PostgreSQL\<close>

definition attach :: "pg_convs \<Rightarrow> conversation \<Rightarrow> conversation" where
  "attach s c = c\<lparr>cv_messages := thread_of s (cv_id c) (cv_tenant_id c)\<rparr>"

definition pg_conv_view :: "pg_convs \<Rightarrow> owner \<Rightarrow> conversation list" where
  "pg_conv_view s o' = map (attach s) (table_view cv_owner (pc_conversations s) o')"

text \<open>Every message row belongs to a stored conversation of its tenant (the foreign key).\<close>

definition pg_conv_ok :: "pg_convs \<Rightarrow> bool" where
  "pg_conv_ok s \<longleftrightarrow>
     table_ok cv_id (pc_conversations s) \<and>
     mr_conversation_id ` set (pc_messages s) \<subseteq> cv_id ` set (pc_conversations s) \<and>
     (\<forall>c \<in> set (pc_conversations s). cv_messages c = [])"

definition pg_add :: "message \<Rightarrow> message list \<Rightarrow> message list" where
  "pg_add m ms = sort_key ms_created_at (ms @ [m])"

lemma pg_conv_okI:
  assumes "distinct (map cv_id (pc_conversations s))"
    and "\<And>r. r \<in> set (pc_messages s) \<Longrightarrow> mr_conversation_id r \<in> cv_id ` set (pc_conversations s)"
    and "\<And>c. c \<in> set (pc_conversations s) \<Longrightarrow> cv_messages c = []"
  shows "pg_conv_ok s"
  using assms unfolding pg_conv_ok_def table_ok_def by blast

lemma pg_conv_okD:
  assumes "pg_conv_ok s"
  shows "distinct (map cv_id (pc_conversations s))"
    and "r \<in> set (pc_messages s) \<Longrightarrow> mr_conversation_id r \<in> cv_id ` set (pc_conversations s)"
    and "c \<in> set (pc_conversations s) \<Longrightarrow> cv_messages c = []"
  using assms unfolding pg_conv_ok_def table_ok_def by blast+

lemma attach_owner [simp]: "cv_owner (attach s c) = cv_owner c"
  by (simp add: attach_def cv_owner_def)

lemma attach_id [simp]: "cv_id (attach s c) = cv_id c"
  by (simp add: attach_def)

lemma attach_image [simp]: "cv_id ` attach s ` A = cv_id ` A"
  by (force simp: image_iff)

lemma pg_conv_fresh:
  assumes "fresh_id cv_id pg_conv_view s uid"
  shows "uid \<notin> cv_id ` set (pc_conversations s)"
proof
  assume "uid \<in> cv_id ` set (pc_conversations s)"
  then obtain c where "c \<in> set (pc_conversations s)" and "cv_id c = uid" by auto
  then have "attach s c \<in> set (pg_conv_view s (cv_owner c))" and "cv_id (attach s c) = uid"
    by (auto simp: pg_conv_view_def table_view_def)
  with assms show False
    unfolding fresh_id_def by blast
qed

lemma thread_fresh:
  assumes "pg_conv_ok s" and "uid \<notin> cv_id ` set (pc_conversations s)"
  shows "thread_of s uid t = []"
proof -
  have "mr_conversation_id r \<noteq> uid" if "r \<in> set (pc_messages s)" for r
    using assms that unfolding pg_conv_ok_def by blast
  then have "filter (\<lambda>r. mr_conversation_id r = uid \<and> mr_tenant_id r = t) (pc_messages s) = []"
    by (auto simp: filter_empty_conv)
  then show ?thesis by (simp add: thread_of_def)
qed

lemma thread_append:
  "thread_of (s\<lparr>pc_conversations := cs,
      pc_messages := pc_messages s @ [\<lparr>mr_conversation_id = i, mr_tenant_id = t, mr_user_id = u,
        mr_message = m\<rparr>]\<rparr>) j t' =
     (if j = i \<and> t' = t then pg_add m (thread_of s j t') else thread_of s j t')"
  by (simp add: thread_of_def pg_add_def sort_key_snoc)

lemma thread_delete:
  "j \<notin> A \<Longrightarrow> thread_of (s\<lparr>pc_conversations := cs,
      pc_messages := filter (\<lambda>r. mr_conversation_id r \<notin> A) (pc_messages s)\<rparr>) j t = thread_of s j t"
  by (simp add: thread_of_def) (metis (no_types, lifting) filter_cong)

lemma pg_conv_view_delete:
  assumes ok: "pg_conv_ok s"
  shows "pg_conv_view (snd (pg_conv_delete o1 i s)) o2 =
    (if o2 = o1 then filter (\<lambda>c. cv_id c \<noteq> i) (pg_conv_view s o1) else pg_conv_view s o2)"
proof -
  let ?hit = "\<lambda>c. cv_id c = i \<and> cv_owner c = o1"
  let ?gone = "set (map cv_id (filter ?hit (pc_conversations s)))"
  let ?s = "snd (pg_conv_delete o1 i s)"
  have convs: "pc_conversations ?s = filter (\<lambda>c. \<not> ?hit c) (pc_conversations s)"
    by (simp add: pg_conv_delete_def Let_def)
  have keep: "attach ?s c = attach s c" if "c \<in> set (pc_conversations ?s)" for c
  proof -
    have "cv_id c \<notin> ?gone"
    proof
      assume "cv_id c \<in> ?gone"
      then obtain d where "d \<in> set (pc_conversations s)" "?hit d" "cv_id d = cv_id c" by auto
      moreover have "c \<in> set (pc_conversations s)" "\<not> ?hit c"
        using that convs by auto
      ultimately show False
        using ok by (auto simp: pg_conv_ok_def table_ok_def distinct_map dest: inj_onD)
    qed
    then show ?thesis
      unfolding attach_def pg_conv_delete_def Let_def snd_conv
      by (subst thread_delete) auto
  qed
  have "pg_conv_view ?s o2 = map (attach s) (table_view cv_owner (pc_conversations ?s) o2)"
    using keep by (auto simp: pg_conv_view_def table_view_def)
  also have "table_view cv_owner (pc_conversations ?s) o2 =
      (if o2 = o1 then filter (\<lambda>c. cv_id c \<noteq> i) (table_view cv_owner (pc_conversations s) o1)
       else table_view cv_owner (pc_conversations s) o2)"
    unfolding convs by (auto simp: table_view_def intro: filter_cong)
  finally show ?thesis
    by (auto simp: pg_conv_view_def filter_map comp_def)
qed

lemma pg_conv_view_append:
  assumes ok: "pg_conv_ok s"
  shows "pg_conv_view (snd (pg_conv_append o1 i role content now uid s)) o2 =
    (if o2 = o1 then map (\<lambda>c. if cv_id c = i then bump pg_add role content now uid c else c)
        (pg_conv_view s o1)
     else pg_conv_view s o2)"
proof (cases "find (\<lambda>c. cv_id c = i \<and> cv_owner c = o1) (pc_conversations s)")
  case None
  then have "i \<notin> cv_id ` set (pg_conv_view s o1)"
    by (auto simp: find_None_iff pg_conv_view_def table_view_def)
  then have "map (\<lambda>c. if cv_id c = i then bump pg_add role content now uid c else c)
      (pg_conv_view s o1) = pg_conv_view s o1"
    by (intro map_idI) auto
  with None show ?thesis by (simp add: pg_conv_append_def)
next
  case (Some c)
  then have c: "c \<in> set (pc_conversations s)" "cv_id c = i" "cv_owner c = o1"
    by (auto simp: find_Some_iff)
  let ?s = "snd (pg_conv_append o1 i role content now uid s)"
  let ?f = "\<lambda>x. if cv_id x = i then x\<lparr>cv_updated_at := now,
              cv_title := seed_title (cv_title c) role content\<rparr> else x"
  have only: "x = c" if "x \<in> set (pc_conversations s)" "cv_id x = i" for x
    using that c ok by (auto simp: pg_conv_ok_def table_ok_def distinct_map dest: inj_onD)
  have att: "attach ?s (?f x) = (if cv_id x = i then bump pg_add role content now uid (attach s x)
      else attach s x)" if "x \<in> set (pc_conversations s)" for x
    using Some only [OF that] c
    by (auto simp: pg_conv_append_def attach_def Let_def thread_append bump_def conv_message_def
        cv_owner_def)
  have own: "cv_owner (?f x) = cv_owner x" for x
    by (simp add: cv_owner_def)
  have "pg_conv_view ?s o2 =
      map (attach ?s) (filter (\<lambda>x. cv_owner x = o2) (map ?f (pc_conversations s)))"
    using Some by (simp add: pg_conv_view_def table_view_def pg_conv_append_def Let_def)
  also have "\<dots> = map (\<lambda>x. attach ?s (?f x)) (table_view cv_owner (pc_conversations s) o2)"
    by (simp add: filter_map comp_def own table_view_def)
  also have "\<dots> = map (\<lambda>x. if cv_id x = i then bump pg_add role content now uid x else x)
      (pg_conv_view s o2)"
    using att by (auto simp: pg_conv_view_def table_view_def)
  also have "\<dots> = (if o2 = o1 then map (\<lambda>x. if cv_id x = i then bump pg_add role content now uid x else x)
      (pg_conv_view s o1) else pg_conv_view s o2)"
  proof (cases "o2 = o1")
    case False
    then have "cv_id x \<noteq> i" if "x \<in> set (pg_conv_view s o2)" for x
      using that only c(3) by (auto simp: pg_conv_view_def table_view_def)
    with False show ?thesis by (simp cong: map_cong)
  qed simp
  finally show ?thesis .
qed

lemma pg_conv_scoped: "owner_scoped_store cv_owner cv_id pg_conv_view pg_conv_ok"
proof
  fix s o'
  show "cv_owner x = o'" if "x \<in> set (pg_conv_view s o')" for x
    using that by (auto simp: pg_conv_view_def table_view_def)
  show "distinct (map cv_id (pg_conv_view s o'))" if "pg_conv_ok s"
    using that table_ok_view [of cv_id "pc_conversations s" cv_owner o']
    by (simp add: pg_conv_view_def pg_conv_ok_def comp_def)
qed

lemma pg_conv_ids: "cv_id ` set (pg_conv_view s o') = cv_id ` {c \<in> set (pc_conversations s). cv_owner c = o'}"
  by (simp add: pg_conv_view_def table_view_def)

interpretation pg_convs: conv_store_contract
  pg_conv_view pg_conv_ok PostgresConversationStore pg_add
proof (intro conv_store_contract.intro pg_conv_scoped conv_store_contract_axioms.intro)
  fix s :: pg_convs and o' o1 o2 t now uid i n role content
  let ?S = PostgresConversationStore
  show "m \<in> set (pg_add m ms)" and "set (pg_add m ms) \<subseteq> insert m (set ms)" for m ms
    by (simp_all add: pg_add_def)
  show "pg_conv_ok (snd (cs_create ?S o' t now uid s))"
    if "pg_conv_ok s" "fresh_id cv_id pg_conv_view s uid"
    using that(1) pg_conv_fresh [OF that(2)]
    by (auto simp: PostgresConversationStore_def pg_conv_create_def pg_conv_ok_def table_ok_def
        new_conv_def Let_def)
  show "pg_conv_view (snd (cs_create ?S o1 t now uid s)) o2 =
      pg_conv_view s o2 @ (if o1 = o2 then [new_conv o1 t now uid] else [])"
    if "pg_conv_ok s" "fresh_id cv_id pg_conv_view s uid"
  proof -
    have "attach (s\<lparr>pc_conversations := cs\<rparr>) c = attach s c" for cs c
      by (simp add: attach_def thread_of_def)
    moreover have "attach s (new_conv o1 t now uid) = new_conv o1 t now uid"
      using thread_fresh [OF that(1) pg_conv_fresh [OF that(2)]] by (simp add: attach_def new_conv_def)
    ultimately show ?thesis
      by (auto simp: PostgresConversationStore_def pg_conv_create_def pg_conv_view_def
          table_view_def Let_def cong: map_cong)
  qed
  show "cs_list_for_user ?S o' n s =
      slice_to n (sort_desc cv_updated_at (map (\<lambda>c. c\<lparr>cv_messages := []\<rparr>) (pg_conv_view s o')))"
    if "pg_conv_ok s"
  proof -
    have "map (\<lambda>c. c\<lparr>cv_messages := []\<rparr>) (pg_conv_view s o') = table_view cv_owner (pc_conversations s) o'"
      using that by (auto simp: pg_conv_view_def pg_conv_ok_def table_view_def attach_def intro!: map_idI)
    then show ?thesis
      by (simp add: PostgresConversationStore_def pg_conv_list_def sql_select_desc_def table_view_def)
  qed
  show "cs_get ?S o' i s = find (\<lambda>c. cv_id c = i) (pg_conv_view s o')"
  proof -
    have "find (\<lambda>c. cv_id c = i) (pg_conv_view s o') =
        map_option (attach s) (find (\<lambda>c. cv_id c = i \<and> cv_owner c = o') (pc_conversations s))"
      by (simp add: pg_conv_view_def find_map_f find_table_view)
    moreover have "attach s c = c\<lparr>cv_messages := thread_of s i (fst o')\<rparr>"
      if "find (\<lambda>c. cv_id c = i \<and> cv_owner c = o') (pc_conversations s) = Some c" for c
      using that by (auto simp: find_Some_iff attach_def cv_owner_def)
    ultimately show ?thesis
      by (auto simp: PostgresConversationStore_def pg_conv_get_def split: option.split)
  qed
  show "fst (cs_delete ?S o' i s) = (i \<in> cv_id ` set (pg_conv_view s o'))"
    by (auto simp: PostgresConversationStore_def pg_conv_delete_def pg_conv_ids list_ex_iff Let_def)
  show "pg_conv_ok (snd (cs_delete ?S o' i s))" if ok: "pg_conv_ok s"
  proof (rule pg_conv_okI)
    let ?s' = "snd (cs_delete ?S o' i s)"
    have convs: "pc_conversations ?s' = filter (\<lambda>c. \<not> (cv_id c = i \<and> cv_owner c = o')) (pc_conversations s)"
      by (simp add: PostgresConversationStore_def pg_conv_delete_def Let_def)
    show "distinct (map cv_id (pc_conversations ?s'))"
      unfolding convs by (intro distinct_map_filter pg_conv_okD(1) ok)
    show "cv_messages c = []" if "c \<in> set (pc_conversations ?s')" for c
      using that pg_conv_okD(3) [OF ok] unfolding convs by simp
    fix r
    assume "r \<in> set (pc_messages ?s')"
    then have r: "r \<in> set (pc_messages s)" and keep: "mr_conversation_id r \<notin>
        cv_id ` set (filter (\<lambda>c. cv_id c = i \<and> cv_owner c = o') (pc_conversations s))"
      by (simp_all add: PostgresConversationStore_def pg_conv_delete_def Let_def)
    obtain c where "c \<in> set (pc_conversations s)" "mr_conversation_id r = cv_id c"
      using pg_conv_okD(2) [OF ok r] by blast
    with keep have "c \<in> set (pc_conversations ?s')"
      unfolding convs by auto
    with \<open>mr_conversation_id r = cv_id c\<close> show "mr_conversation_id r \<in> cv_id ` set (pc_conversations ?s')"
      by simp
  qed
  show "fst (cs_append ?S o' i role content now uid s) =
      (if i \<in> cv_id ` set (pg_conv_view s o') then Some (conv_message role content now uid) else None)"
    by (auto simp: PostgresConversationStore_def pg_conv_append_def pg_conv_ids conv_message_def
        find_None_iff find_Some_iff Let_def split: option.split)
  show "pg_conv_ok (snd (cs_append ?S o' i role content now uid s))" if "pg_conv_ok s"
  proof (cases "find (\<lambda>c. cv_id c = i \<and> cv_owner c = o') (pc_conversations s)")
    case None
    with that show ?thesis by (simp add: PostgresConversationStore_def pg_conv_append_def)
  next
    case (Some c)
    let ?s' = "snd (cs_append ?S o' i role content now uid s)"
    let ?f = "\<lambda>x. if cv_id x = i then x\<lparr>cv_updated_at := now,
        cv_title := seed_title (cv_title c) role content\<rparr> else x"
    have convs: "pc_conversations ?s' = map ?f (pc_conversations s)"
      using Some by (simp add: PostgresConversationStore_def pg_conv_append_def Let_def)
    have "map cv_id (map ?f (pc_conversations s)) = map cv_id (pc_conversations s)"
      by simp
    then have ids: "map cv_id (pc_conversations ?s') = map cv_id (pc_conversations s)"
      unfolding convs .
    show ?thesis
    proof (rule pg_conv_okI)
      show "distinct (map cv_id (pc_conversations ?s'))"
        unfolding ids by (rule pg_conv_okD(1) [OF that])
      show "cv_messages x = []" if "x \<in> set (pc_conversations ?s')" for x
        using that pg_conv_okD(3) [OF \<open>pg_conv_ok s\<close>] unfolding convs by auto
      show "mr_conversation_id r \<in> cv_id ` set (pc_conversations ?s')" if "r \<in> set (pc_messages ?s')" for r
      proof -
        have "mr_conversation_id r = i \<or> r \<in> set (pc_messages s)"
          using that Some by (auto simp: PostgresConversationStore_def pg_conv_append_def Let_def)
        moreover have "i \<in> cv_id ` set (pc_conversations s)"
          using Some by (auto simp: find_Some_iff)
        ultimately have "mr_conversation_id r \<in> set (map cv_id (pc_conversations s))"
          using pg_conv_okD(2) [OF \<open>pg_conv_ok s\<close>, of r] by auto
        then show ?thesis
          unfolding ids [symmetric] by simp
      qed
    qed
  qed
qed (simp_all add: PostgresConversationStore_def pg_conv_create_def pg_conv_view_delete
      pg_conv_view_append Let_def)

section \<open>What the handlers keep\<close>

text \<open>The limits every stored conversation meets.\<close>

definition conv_ok :: "conversation \<Rightarrow> bool" where
  "conv_ok c \<longleftrightarrow>
     cv_title c \<noteq> [] \<and> length (cv_title c) \<le> MAX_TITLE_LEN \<and>
     (\<forall>m \<in> set (cv_messages c). ms_role m \<in> VALID_ROLES \<and> ms_content m \<noteq> [] \<and>
        length (ms_content m) \<le> MAX_CONTENT_LEN)"

fun conv_req_fresh :: "('s \<Rightarrow> owner \<Rightarrow> conversation list) \<Rightarrow> 's \<Rightarrow> conv_request \<Rightarrow> bool" where
  "conv_req_fresh view s (ConvCreate a b uid) = fresh_id cv_id view s uid"
| "conv_req_fresh view s r = True"

inductive convs_reachable ::
    "'s conv_store \<Rightarrow> ('s \<Rightarrow> owner \<Rightarrow> conversation list) \<Rightarrow> verifier option \<Rightarrow> 's \<Rightarrow> 's \<Rightarrow> bool"
  for store view v s0 where
  convs_start: "convs_reachable store view v s0 s0"
| convs_next: "convs_reachable store view v s0 s \<Longrightarrow> conv_req_fresh view s r \<Longrightarrow>
     convs_reachable store view v s0 (snd (conv_step store v now r s))"

lemma create_title_nonempty: "create_title body \<noteq> []"
  by (auto simp: create_title_def new_conversation_def split: option.split json.split)

lemma seed_title_ok:
  assumes "t \<noteq> []" and "length t \<le> MAX_TITLE_LEN"
  shows "seed_title t role content \<noteq> [] \<and> length (seed_title t role content) \<le> MAX_TITLE_LEN"
  using assms length_py_strip_le [of "take MAX_TITLE_LEN content"]
  by (auto simp: seed_title_def Let_def)

lemma new_conv_ok: "t \<noteq> [] \<Longrightarrow> conv_ok (new_conv o' t now uid)"
  by (simp add: conv_ok_def new_conv_def MAX_TITLE_LEN_def)

lemma append_fields_ok:
  assumes "append_fields body = Inr (Inr (role, content))"
  shows "role \<in> VALID_ROLES \<and> content \<noteq> [] \<and> length content \<le> MAX_CONTENT_LEN"
proof -
  obtain d where "body = Some (JObj d)"
    using assms by (auto simp: append_fields_def split: option.splits json.splits)
  moreover obtain r where "dget d ''role'' = JStr r"
    using assms \<open>body = Some (JObj d)\<close>
    by (cases "dget d ''role''") (auto simp: append_fields_def)
  moreover obtain c where "dget d ''content'' = JStr c"
    using assms calculation by (cases "dget d ''content''") (auto simp: append_fields_def split: bool.splits)
  ultimately show ?thesis
    using assms by (auto simp: append_fields_def split: bool.splits if_splits)
qed

text \<open>An append raises only on an unhashable role.\<close>

lemma append_fields_raises:
  "append_fields body = Inl ex \<longleftrightarrow> ex = TypeError \<and> (\<exists>d. body = Some (JObj d) \<and>
     ((\<exists>xs. dget d ''role'' = JArr xs) \<or> (\<exists>e. dget d ''role'' = JObj e)))"
proof (cases "\<exists>d. body = Some (JObj d)")
  case True
  then obtain d where "body = Some (JObj d)" ..
  then show ?thesis
    by (cases "dget d ''role''") (auto simp: append_fields_def split: bool.split json.split)
next
  case False
  then show ?thesis
    by (auto simp: append_fields_def split: option.split json.split)
qed

lemma snd_conv_create:
  "snd (build_conversation_create_response st now uid a b v s) =
     (case verify_and_extract a v of
        Inr claims \<Rightarrow> snd (cs_create st (owner_of claims) (create_title b) now uid s) | _ \<Rightarrow> s)"
  by (simp add: build_conversation_create_response_def split_beta Let_def split: sum.split)

lemma snd_conv_delete:
  "snd (build_conversation_delete_response st a i v s) =
     (case verify_and_extract a v of
        Inr claims \<Rightarrow> snd (cs_delete st (owner_of claims) i s) | _ \<Rightarrow> s)"
  by (simp add: build_conversation_delete_response_def split_beta Let_def split: sum.split)

lemma snd_conv_append:
  "snd (build_conversation_append_response st now uid a i b v s) =
     (case (verify_and_extract a v, append_fields b) of
        (Inr claims, Inr (Inr (r, c))) \<Rightarrow> snd (cs_append st (owner_of claims) i r c now uid s)
      | _ \<Rightarrow> s)"
  by (simp add: build_conversation_append_response_def split_beta Let_def split: sum.split)

lemmas snd_convs = snd_conv_create snd_conv_delete snd_conv_append

context conv_store_contract
begin

lemma bump_ok:
  assumes "append_fields b = Inr (Inr (role, content))" and "conv_ok c"
  shows "conv_ok (bump add role content now uid c)"
  using append_fields_ok [OF assms(1)] assms(2) seed_title_ok [of "cv_title c" role content]
    add_set [of "conv_message role content now uid" "cv_messages c"]
  by (auto simp: conv_ok_def bump_def conv_message_def MAX_CONTENT_LEN_def)

lemma step_inv:
  "inv s \<Longrightarrow> conv_req_fresh view s r \<Longrightarrow> inv (snd (conv_step store v now r s))"
  by (cases r)
    (simp_all add: snd_convs split_beta inv_create inv_delete inv_append split: sum.split prod.split)

lemma reachable_inv:
  assumes "convs_reachable store view v s0 s" and "inv s0"
  shows "inv s"
  using assms by induction (simp_all add: step_inv)

lemma step_other_owner:
  assumes "inv s" and "conv_req_fresh view s r"
    and "\<forall>claims. verify_and_extract (conv_auth r) v = Inr claims \<longrightarrow> o' \<noteq> owner_of claims"
  shows "view (snd (conv_step store v now r s)) o' = view s o'"
  using assms
  by (cases r)
    (auto simp: snd_convs split_beta view_create view_delete view_append
      split: sum.split prod.split)

lemma step_own_view:
  assumes "inv s" and "inv s'" and "conv_req_fresh view s r" and "conv_req_fresh view s' r"
    and "verify_and_extract (conv_auth r) v = Inr claims"
    and "view s (owner_of claims) = view s' (owner_of claims)"
  shows "fst (conv_step store v now r s) = fst (conv_step store v now r s')"
  using assms
  by (cases r)
    (simp_all add: create_result list_view get_view delete_result append_result
      build_conversation_create_response_def build_conversations_list_response_def
      build_conversation_get_response_def build_conversation_delete_response_def
      build_conversation_append_response_def Let_def split_beta split: sum.split prod.split)

lemma step_conv_ok:
  assumes "inv s" and "conv_req_fresh view s r" and "\<forall>o'. \<forall>c \<in> set (view s o'). conv_ok c"
    and "c \<in> set (view (snd (conv_step store v now r s)) o')"
  shows "conv_ok c"
proof -
  have old: "conv_ok x" if "x \<in> set (view s o')" for x o'
    using assms(3) that by blast
  show ?thesis
  proof (cases r)
    case (ConvCreate a b uid)
    with assms(1,2,4) show ?thesis
      by (auto simp: snd_convs split_beta view_create new_conv_ok create_title_nonempty
          split: sum.splits if_splits intro: old)
  next
    case (ConvDelete a i)
    with assms(1,4) show ?thesis
      by (auto simp: snd_convs split_beta view_delete split: sum.splits if_splits intro: old)
  next
    case (ConvAppend a i b uid)
    with assms(1,4) show ?thesis
      by (auto simp: snd_convs view_append split: sum.splits prod.splits if_splits
          intro: old bump_ok)
  qed (use assms(4) in \<open>auto intro: old\<close>)
qed

lemma reachable_conv_ok:
  assumes "convs_reachable store view v s0 s" and "inv s0" and "\<And>o'. view s0 o' = []"
    and "c \<in> set (view s o')"
  shows "conv_ok c"
  using assms(1,4)
proof (induction arbitrary: o' c)
  case convs_start
  with assms(3) show ?case by simp
next
  case (convs_next s r now)
  show ?case
    by (rule step_conv_ok [OF reachable_inv [OF convs_next.hyps(1) assms(2)] convs_next.hyps(2)])
      (use convs_next in auto)
qed

text \<open>After a 201 on an append, a get of the thread shows the message.\<close>

lemma append_then_get:
  assumes "inv s" and "verify_and_extract a v = Inr claims"
    and "append_fields b = Inr (Inr (role, content))"
    and "i \<in> cv_id ` set (view s (owner_of claims))"
  shows "\<exists>c. cs_get store (owner_of claims) i
            (snd (build_conversation_append_response store now uid a i b v s)) = Some c \<and>
          conv_message role content now uid \<in> set (cv_messages c) \<and> cv_updated_at c = now"
proof -
  let ?s = "snd (cs_append store (owner_of claims) i role content now uid s)"
  obtain c where c: "find (\<lambda>c. cv_id c = i) (view s (owner_of claims)) = Some c"
    using assms(4) by (cases "find (\<lambda>c. cv_id c = i) (view s (owner_of claims))")
      (auto simp: find_None_iff)
  then have id: "cv_id c = i"
    by (auto simp: find_Some_iff)
  have "find (\<lambda>c. cv_id c = i) (map (\<lambda>c. if cv_id c = i then bump add role content now uid c else c)
      (view s (owner_of claims))) = Some (bump add role content now uid c)"
    using c id by (simp add: find_map_f if_distrib cong: if_cong)
  then have "cs_get store (owner_of claims) i ?s = Some (bump add role content now uid c)"
    using assms(1) by (simp add: get_view inv_append view_append)
  then show ?thesis
    using assms(2,3) by (simp add: snd_convs bump_def add_new)
qed

end

text \<open>The in-memory store keeps at most 2000 messages of a thread.\<close>

definition mem_capped :: "mem_convs \<Rightarrow> bool" where
  "mem_capped s \<longleftrightarrow> (\<forall>o'. \<forall>c \<in> set (mem_conv_view s o').
     length (cv_messages c) \<le> MAX_MESSAGES_PER_CONVERSATION)"

lemma mem_capped_step:
  assumes "mem_conv_ok s" and "conv_req_fresh mem_conv_view s r" and "mem_capped s"
  shows "mem_capped (snd (conv_step InMemoryConversationStore v now r s))"
proof -
  have old: "length (cv_messages c) \<le> MAX_MESSAGES_PER_CONVERSATION" if "c \<in> set (mem_conv_view s o')"
    for c o'
    using assms(3) that unfolding mem_capped_def by blast
  have add: "length (mem_add m ms) \<le> MAX_MESSAGES_PER_CONVERSATION"
    if "length ms \<le> MAX_MESSAGES_PER_CONVERSATION" for m ms
    using that by (auto simp: mem_add_def trim_messages_def MAX_MESSAGES_PER_CONVERSATION_def)
  show ?thesis
  proof (cases r)
    case (ConvCreate a b uid)
    with assms(1,2) show ?thesis
      unfolding mem_capped_def
      by (auto simp: snd_convs split_beta mem_convs.view_create new_conv_def old split: sum.split)
  next
    case (ConvDelete a i)
    with assms(1) show ?thesis
      unfolding mem_capped_def
      by (auto simp: snd_convs split_beta mem_convs.view_delete old split: sum.split)
  next
    case (ConvAppend a i b uid)
    with assms(1) show ?thesis
      unfolding mem_capped_def
      by (auto simp: snd_convs mem_convs.view_append bump_def old add split: sum.split prod.split)
  qed (use assms(3) in simp_all)
qed

section \<open>Properties\<close>

text \<open>Conversations are isolated per owner in both stores: a request leaves the threads of
  every owner but the caller as they were, and its reply is a function of the caller's own threads
  (two stores that agree on these answer alike, whatever others have stored).\<close>

theorem convs_isolation:
  assumes "verify_and_extract (conv_auth r) v = Inr claims"
  shows "(mem_conv_ok m \<and> conv_req_fresh mem_conv_view m r \<longrightarrow>
            (o' \<noteq> owner_of claims \<longrightarrow>
               mem_conv_view (snd (conv_step InMemoryConversationStore v now r m)) o' = mem_conv_view m o') \<and>
            (mem_conv_ok m' \<and> conv_req_fresh mem_conv_view m' r \<and>
             mem_conv_view m (owner_of claims) = mem_conv_view m' (owner_of claims) \<longrightarrow>
               fst (conv_step InMemoryConversationStore v now r m) =
               fst (conv_step InMemoryConversationStore v now r m'))) \<and>
         (pg_conv_ok t \<and> conv_req_fresh pg_conv_view t r \<longrightarrow>
            (o' \<noteq> owner_of claims \<longrightarrow>
               pg_conv_view (snd (conv_step PostgresConversationStore v now r t)) o' = pg_conv_view t o') \<and>
            (pg_conv_ok t' \<and> conv_req_fresh pg_conv_view t' r \<and>
             pg_conv_view t (owner_of claims) = pg_conv_view t' (owner_of claims) \<longrightarrow>
               fst (conv_step PostgresConversationStore v now r t) =
               fst (conv_step PostgresConversationStore v now r t')))"
  using assms mem_convs.step_other_owner pg_convs.step_other_owner mem_convs.step_own_view
    pg_convs.step_own_view
  by auto

definition example_conv :: conversation where
  "example_conv = new_conv (''b.io'', ''bob'') ''plans'' 0 ''c1''"

theorem convs_isolation_witness:
  "mem_conv_view (snd (conv_step InMemoryConversationStore (Some two_users) 5
      (ConvDelete (Some ''Bearer ta'') ''c1'') [(''c1'', example_conv)])) (''b.io'', ''bob'') =
   [example_conv]"
proof -
  have "mem_conv_ok [(''c1'', example_conv)]"
    by (simp add: mem_conv_ok_def example_conv_def)
  then show ?thesis
    using convs_isolation [of "ConvDelete (Some ''Bearer ta'') ''c1''" "Some two_users" alice_claims
        "[(''c1'', example_conv)]" "(''b.io'', ''bob'')" 5 "[]" "\<lparr>pc_conversations = [], pc_messages = []\<rparr>"
        "\<lparr>pc_conversations = [], pc_messages = []\<rparr>"]
    by (simp add: mem_conv_view_def example_conv_def)
qed

text \<open>Whatever requests a conversation store has served from empty, every stored thread has a
  title of 1 to 200 characters, every stored message has a valid role and 1 to 100000 characters,
  threads of one owner have distinct ids; and the in-memory store keeps at most 2000 messages of a
  thread.\<close>

theorem convs_reachable_wf:
  "(convs_reachable InMemoryConversationStore mem_conv_view v [] m \<longrightarrow>
      (\<forall>o'. distinct (map cv_id (mem_conv_view m o')) \<and>
        (\<forall>c \<in> set (mem_conv_view m o'). conv_ok c \<and>
           length (cv_messages c) \<le> MAX_MESSAGES_PER_CONVERSATION))) \<and>
   (convs_reachable PostgresConversationStore pg_conv_view v
       \<lparr>pc_conversations = [], pc_messages = []\<rparr> t \<longrightarrow>
      (\<forall>o'. distinct (map cv_id (pg_conv_view t o')) \<and> (\<forall>c \<in> set (pg_conv_view t o'). conv_ok c)))"
proof (intro conjI impI allI ballI)
  fix o' c
  assume r: "convs_reachable InMemoryConversationStore mem_conv_view v [] m"
  have ok: "mem_conv_ok m"
    using mem_convs.reachable_inv [OF r] by (simp add: mem_conv_ok_def)
  then show "distinct (map cv_id (mem_conv_view m o'))"
    by (rule mem_convs.view_distinct)
  have "mem_capped m"
    using r
  proof induction
    case convs_start
    then show ?case by (simp add: mem_capped_def mem_conv_view_def)
  next
    case (convs_next s r now)
    then show ?case
      using mem_convs.reachable_inv [OF convs_next.hyps(1)]
      by (intro mem_capped_step) (simp_all add: mem_conv_ok_def)
  qed
  moreover assume c: "c \<in> set (mem_conv_view m o')"
  ultimately show "length (cv_messages c) \<le> MAX_MESSAGES_PER_CONVERSATION"
    unfolding mem_capped_def by blast
  show "conv_ok c"
    by (rule mem_convs.reachable_conv_ok [OF r _ _ c]) (simp_all add: mem_conv_ok_def mem_conv_view_def)
next
  fix o' c
  let ?e = "\<lparr>pc_conversations = [], pc_messages = []\<rparr>"
  assume r: "convs_reachable PostgresConversationStore pg_conv_view v ?e t"
  have e: "pg_conv_ok ?e" "pg_conv_view ?e o2 = []" for o2
    by (simp_all add: pg_conv_ok_def table_ok_def pg_conv_view_def table_view_def)
  show "distinct (map cv_id (pg_conv_view t o'))"
    by (rule pg_convs.view_distinct [OF pg_convs.reachable_inv [OF r e(1)]])
  show "conv_ok c" if "c \<in> set (pg_conv_view t o')"
    by (rule pg_convs.reachable_conv_ok [OF r e that])
qed

theorem convs_reachable_wf_witness:
  "let m = snd (conv_step InMemoryConversationStore (Some two_users) 0
       (ConvCreate (Some ''Bearer ta'') None ''c9'') [])
   in \<forall>c \<in> set (mem_conv_view m (''a.io'', ''alice'')). conv_ok c"
proof -
  let ?m = "snd (conv_step InMemoryConversationStore (Some two_users) 0
       (ConvCreate (Some ''Bearer ta'') None ''c9'') [])"
  have "convs_reachable InMemoryConversationStore mem_conv_view (Some two_users) [] ?m"
    by (rule convs_next [OF convs_start]) (simp add: fresh_id_def mem_conv_view_def)
  then show ?thesis
    using convs_reachable_wf [of "Some two_users" ?m undefined] unfolding Let_def by blast
qed

text \<open>An accepted message is shown: where the caller owns the thread and the body is
  acceptable, the next get of the thread returns it with that message among its messages and its
  update time, in both stores.\<close>

theorem convs_append_shown:
  assumes "verify_and_extract a v = Inr claims" and "append_fields b = Inr (Inr (role, content))"
  shows "(mem_conv_ok m \<and> i \<in> cv_id ` set (mem_conv_view m (owner_of claims)) \<longrightarrow>
           (\<exists>c. build_conversation_get_response InMemoryConversationStore a i v
                 (snd (build_conversation_append_response InMemoryConversationStore now uid a i b v m)) =
                 (HTTP_OK, conv_detail c) \<and>
               conv_message role content now uid \<in> set (cv_messages c) \<and> cv_updated_at c = now)) \<and>
         (pg_conv_ok t \<and> i \<in> cv_id ` set (pg_conv_view t (owner_of claims)) \<longrightarrow>
           (\<exists>c. build_conversation_get_response PostgresConversationStore a i v
                 (snd (build_conversation_append_response PostgresConversationStore now uid a i b v t)) =
                 (HTTP_OK, conv_detail c) \<and>
               conv_message role content now uid \<in> set (cv_messages c) \<and> cv_updated_at c = now))"
proof (intro conjI impI; elim conjE)
  assume "mem_conv_ok m" and "i \<in> cv_id ` set (mem_conv_view m (owner_of claims))"
  from mem_convs.append_then_get [where now = now and uid = uid, OF this(1) assms this(2)] assms(1)
  show "\<exists>c. build_conversation_get_response InMemoryConversationStore a i v
      (snd (build_conversation_append_response InMemoryConversationStore now uid a i b v m)) =
      (HTTP_OK, conv_detail c) \<and>
      conv_message role content now uid \<in> set (cv_messages c) \<and> cv_updated_at c = now"
    by (auto simp: build_conversation_get_response_def)
next
  assume "pg_conv_ok t" and "i \<in> cv_id ` set (pg_conv_view t (owner_of claims))"
  from pg_convs.append_then_get [where now = now and uid = uid, OF this(1) assms this(2)] assms(1)
  show "\<exists>c. build_conversation_get_response PostgresConversationStore a i v
      (snd (build_conversation_append_response PostgresConversationStore now uid a i b v t)) =
      (HTTP_OK, conv_detail c) \<and>
      conv_message role content now uid \<in> set (cv_messages c) \<and> cv_updated_at c = now"
    by (auto simp: build_conversation_get_response_def)
qed

theorem convs_append_shown_witness:
  "\<exists>c. build_conversation_get_response InMemoryConversationStore (Some ''Bearer tb'') ''c1''
        (Some two_users)
        (snd (build_conversation_append_response InMemoryConversationStore 7 ''m1'' (Some ''Bearer tb'')
          ''c1'' (Some (JObj [(''role'', JStr ''user''), (''content'', JStr ''hi'')])) (Some two_users)
          [(''c1'', example_conv)])) = (HTTP_OK, conv_detail c) \<and>
      conv_message ''user'' ''hi'' 7 ''m1'' \<in> set (cv_messages c)"
proof -
  let ?b = "Some (JObj [(''role'', JStr ''user''), (''content'', JStr ''hi'')])"
  have "append_fields ?b = Inr (Inr (''user'', ''hi''))"
    by (simp add: append_fields_def VALID_ROLES_def MAX_CONTENT_LEN_def)
  moreover have "mem_conv_ok [(''c1'', example_conv)]"
    and "''c1'' \<in> cv_id ` set (mem_conv_view [(''c1'', example_conv)] (''b.io'', ''bob''))"
    by (simp_all add: mem_conv_ok_def example_conv_def mem_conv_view_def)
  ultimately show ?thesis
    using convs_append_shown [of "Some ''Bearer tb''" "Some two_users" bob_claims ?b "''user''" "''hi''"
        "[(''c1'', example_conv)]" "''c1''" 7 "''m1''"]
    by auto
qed

end
