(* ===== verification/ModelRequests.thy ===== *)
theory ModelRequests
  imports Policy Notifications
begin

text \<open>
  Model install requests (app/control_plane/model_requests.py): the record, the repository
  allow-list, the store protocol with its in-memory dictionary and its PostgreSQL table, the
  contract both keep (locale \<open>model_request_contract\<close>), the permission check, the user handlers
  and the reconciler's internal handlers.  \<^verbatim>\<open>_now_utc()\<close>, \<^verbatim>\<open>uuid.uuid4()\<close> and
  \<^verbatim>\<open>int(time.time())\<close> are the arguments \<open>now\<close>, \<open>uid\<close> (\<open>nuid\<close> for the notification) and \<open>secs\<close>.
  The dash of the rate-limit message is written \<^verbatim>\<open>-\<close> (its code point is above 255).
\<close>

section \<open>Data\<close>

definition STATUSES :: "string list" where
  "STATUSES = [''requested'', ''installing'', ''applied'', ''failed'']"

definition RECONCILER_STATUSES :: "string list" where
  "RECONCILER_STATUSES = filter (\<lambda>s. s \<noteq> ''requested'') STATUSES"

definition MAX_REPO_CHARS :: nat where "MAX_REPO_CHARS = 200"
definition MAX_REVISION_CHARS :: nat where "MAX_REVISION_CHARS = 100"
definition MODEL_MAX_LIST_LIMIT :: int where "MODEL_MAX_LIST_LIMIT = 200"

record model_install_request =
  mir_id :: string
  mir_tenant_id :: string
  mir_user_id :: string
  mir_hf_repo_id :: string
  mir_revision :: string
  mir_status :: string
  mir_error_class :: string
  mir_created_at :: datetime
  mir_updated_at :: datetime

definition mir_owner :: "model_install_request \<Rightarrow> owner" where
  "mir_owner r = (mir_tenant_id r, mir_user_id r)"

definition mir_to_api_fields :: "model_install_request \<Rightarrow> dict" where
  "mir_to_api_fields r =
     [(''id'', JStr (mir_id r)), (''hf_repo_id'', JStr (mir_hf_repo_id r)),
      (''revision'', str_or_null (mir_revision r)), (''status'', JStr (mir_status r)),
      (''error_class'', str_or_null (mir_error_class r)),
      (''created_at'', JStr (isoformat (mir_created_at r))),
      (''updated_at'', JStr (isoformat (mir_updated_at r)))]"

definition mir_to_api_dict :: "model_install_request \<Rightarrow> json" where
  "mir_to_api_dict r = JObj (mir_to_api_fields r)"

definition mir_to_admin_dict :: "model_install_request \<Rightarrow> json" where
  "mir_to_admin_dict r =
     JObj (mir_to_api_fields r @
       [(''tenant_id'', JStr (mir_tenant_id r)), (''requested_by'', JStr (mir_user_id r))])"

section \<open>The two reference patterns\<close>

text \<open>
  A pattern \<^verbatim>\<open>^\<dots>$\<close> used with \<^verbatim>\<open>re.match\<close>: \<^verbatim>\<open>$\<close> also matches before one final newline.
\<close>

definition at_dollar :: "(string \<Rightarrow> bool) \<Rightarrow> string \<Rightarrow> bool" where
  "at_dollar p s \<longleftrightarrow> p s \<or> (s \<noteq> [] \<and> last s = CHR 0x0A \<and> p (butlast s))"

definition is_alnum :: "char \<Rightarrow> bool" where
  "is_alnum c =
     (let n = ord_of c in (48 \<le> n \<and> n \<le> 57) \<or> (65 \<le> n \<and> n \<le> 90) \<or> (97 \<le> n \<and> n \<le> 122))"

fun token_of :: "string \<Rightarrow> string \<Rightarrow> bool" where
  "token_of extra [] = False"
| "token_of extra (c # cs) = (is_alnum c \<and> list_all (\<lambda>c. is_alnum c \<or> c \<in> set extra) cs)"

definition hf_repo_match :: "string \<Rightarrow> bool" where
  "hf_repo_match s =
     (case split_char1 (CHR ''/'') s of
        (org, Some name) \<Rightarrow> token_of ''._-'' org \<and> at_dollar (token_of ''._-'') name
      | (_, None) \<Rightarrow> False)"

definition revision_match :: "string \<Rightarrow> bool" where
  "revision_match s = at_dollar (token_of ''._/-'') s"

section \<open>Allow-list\<close>

definition parse_repo_allowlist :: "string option \<Rightarrow> string set" where
  "parse_repo_allowlist raw =
     (case raw of
        None \<Rightarrow> {}
      | Some r \<Rightarrow> set (filter (\<lambda>p. p \<noteq> []) (map py_strip (split_char (CHR '','') r))))"

definition is_repo_allowed :: "string set \<Rightarrow> string \<Rightarrow> bool" where
  "is_repo_allowed allowlist repo_id =
     (if allowlist = {} then False
      else if ''*'' \<in> allowlist then True
      else if repo_id \<in> allowlist then True
      else fst (split_char1 (CHR ''/'') repo_id) \<in> allowlist)"

section \<open>The store protocol and its two implementations\<close>

record 's model_request_store =
  mq_create :: "model_install_request \<Rightarrow> 's \<Rightarrow> 's"
  mq_list_for_user :: "owner \<Rightarrow> int \<Rightarrow> 's \<Rightarrow> model_install_request list"
  mq_list_all :: "int \<Rightarrow> 's \<Rightarrow> model_install_request list"
  mq_list_pending :: "int \<Rightarrow> 's \<Rightarrow> model_install_request list"
  mq_get :: "string \<Rightarrow> 's \<Rightarrow> model_install_request option"
  mq_update_status :: "string \<Rightarrow> string \<Rightarrow> string \<Rightarrow> datetime \<Rightarrow> 's \<Rightarrow> model_install_request option \<times> 's"
  mq_count_open :: "string \<Rightarrow> 's \<Rightarrow> int"

definition mir_open :: "string \<Rightarrow> model_install_request \<Rightarrow> bool" where
  "mir_open tenant r \<longleftrightarrow> mir_tenant_id r = tenant \<and> mir_status r \<in> set [''requested'', ''installing'']"

definition set_status :: "string \<Rightarrow> string \<Rightarrow> datetime \<Rightarrow> model_install_request \<Rightarrow> model_install_request" where
  "set_status status error_class now r =
     r\<lparr>mir_status := status, mir_error_class := error_class, mir_updated_at := now\<rparr>"

text \<open>In memory: the dictionary from ids, in insertion order.\<close>

type_synonym mem_models = "(string \<times> model_install_request) list"
type_synonym pg_models = "model_install_request list"

definition mem_mq_create :: "model_install_request \<Rightarrow> mem_models \<Rightarrow> mem_models" where
  "mem_mq_create item s = dset s (mir_id item) item"

definition mem_mq_list_for_user :: "owner \<Rightarrow> int \<Rightarrow> mem_models \<Rightarrow> model_install_request list" where
  "mem_mq_list_for_user who limit s =
     slice_to limit (sort_desc mir_created_at (filter (\<lambda>r. mir_owner r = who) (map snd s)))"

definition mem_mq_list_all :: "int \<Rightarrow> mem_models \<Rightarrow> model_install_request list" where
  "mem_mq_list_all limit s = slice_to limit (sort_desc mir_created_at (map snd s))"

definition mem_mq_list_pending :: "int \<Rightarrow> mem_models \<Rightarrow> model_install_request list" where
  "mem_mq_list_pending limit s =
     slice_to limit (sort_key mir_created_at (filter (\<lambda>r. mir_status r = ''requested'') (map snd s)))"

definition mem_mq_get :: "string \<Rightarrow> mem_models \<Rightarrow> model_install_request option" where
  "mem_mq_get request_id s = map_of s request_id"

definition mem_mq_update_status ::
    "string \<Rightarrow> string \<Rightarrow> string \<Rightarrow> datetime \<Rightarrow> mem_models \<Rightarrow> model_install_request option \<times> mem_models" where
  "mem_mq_update_status request_id status error_class now s =
     (case map_of s request_id of
        None \<Rightarrow> (None, s)
      | Some r \<Rightarrow>
          let updated = set_status status error_class now r in (Some updated, dset s request_id updated))"

definition mem_mq_count_open :: "string \<Rightarrow> mem_models \<Rightarrow> int" where
  "mem_mq_count_open tenant s = int (length (filter (mir_open tenant) (map snd s)))"

definition InMemoryModelRequestStore :: "mem_models model_request_store" where
  "InMemoryModelRequestStore =
     \<lparr>mq_create = mem_mq_create, mq_list_for_user = mem_mq_list_for_user,
      mq_list_all = mem_mq_list_all, mq_list_pending = mem_mq_list_pending, mq_get = mem_mq_get,
      mq_update_status = mem_mq_update_status, mq_count_open = mem_mq_count_open\<rparr>"

definition pg_mq_create :: "model_install_request \<Rightarrow> pg_models \<Rightarrow> pg_models" where
  "pg_mq_create item rows = sql_insert mir_id item rows"

definition pg_mq_list_for_user :: "owner \<Rightarrow> int \<Rightarrow> pg_models \<Rightarrow> model_install_request list" where
  "pg_mq_list_for_user who limit rows =
     sql_select_desc (\<lambda>r. mir_owner r = who) mir_created_at limit rows"

definition pg_mq_list_all :: "int \<Rightarrow> pg_models \<Rightarrow> model_install_request list" where
  "pg_mq_list_all limit rows = sql_select_desc (\<lambda>_. True) mir_created_at limit rows"

text \<open>\<^verbatim>\<open>ORDER BY created_at ASC\<close>.\<close>

definition pg_mq_list_pending :: "int \<Rightarrow> pg_models \<Rightarrow> model_install_request list" where
  "pg_mq_list_pending limit rows =
     slice_to limit (sort_key mir_created_at (filter (\<lambda>r. mir_status r = ''requested'') rows))"

definition pg_mq_get :: "string \<Rightarrow> pg_models \<Rightarrow> model_install_request option" where
  "pg_mq_get request_id rows = find (\<lambda>r. mir_id r = request_id) rows"

definition pg_mq_update_status ::
    "string \<Rightarrow> string \<Rightarrow> string \<Rightarrow> datetime \<Rightarrow> pg_models \<Rightarrow> model_install_request option \<times> pg_models" where
  "pg_mq_update_status request_id status error_class now rows =
     sql_update (\<lambda>r. mir_id r = request_id) (set_status status error_class now) rows"

definition pg_mq_count_open :: "string \<Rightarrow> pg_models \<Rightarrow> int" where
  "pg_mq_count_open tenant rows = int (length (filter (mir_open tenant) rows))"

definition PostgresModelRequestStore :: "pg_models model_request_store" where
  "PostgresModelRequestStore =
     \<lparr>mq_create = pg_mq_create, mq_list_for_user = pg_mq_list_for_user,
      mq_list_all = pg_mq_list_all, mq_list_pending = pg_mq_list_pending, mq_get = pg_mq_get,
      mq_update_status = pg_mq_update_status, mq_count_open = pg_mq_count_open\<rparr>"

section \<open>Permissions\<close>

text \<open>The settings these handlers read from the configuration.\<close>

record model_config =
  mc_enabled :: bool
  mc_allow_all_users :: bool
  mc_group :: "string option"
  mc_admin_group :: "string option"
  mc_allowlist :: "string option"
  mc_max_open :: int
  mc_installer_token :: "string option"

definition is_admin :: "token_claims \<Rightarrow> model_config \<Rightarrow> bool" where
  "is_admin claims config =
     has_group claims
       (case mc_admin_group config of
          None \<Rightarrow> ''admin'' | Some g \<Rightarrow> if g = [] then ''admin'' else g)"

definition user_can_request_install :: "token_claims \<Rightarrow> model_config \<Rightarrow> bool" where
  "user_can_request_install claims config =
     (if mc_allow_all_users config then True
      else if (case mc_group config of None \<Rightarrow> False | Some g \<Rightarrow> g \<noteq> [] \<and> has_group claims g)
      then True
      else is_admin claims config)"

section \<open>Handlers\<close>

definition revision_field :: "dict \<Rightarrow> reply + string" where
  "revision_field data =
     (if \<not> truthy (dget data ''revision'') then Inr []
      else (case dget data ''revision'' of
              JStr revision \<Rightarrow>
                if MAX_REVISION_CHARS < length revision \<or> contains ''..'' revision
                     \<or> \<not> revision_match revision
                then Inl (bad_request (quoted ''revision'' @ '' is not a valid ref.''))
                else Inr revision
            | _ \<Rightarrow> Inl (bad_request (quoted ''revision'' @ '' is not a valid ref.''))))"

definition repo_field :: "dict \<Rightarrow> reply + string" where
  "repo_field data =
     (case dget data ''hf_repo_id'' of
        JStr repo \<Rightarrow>
          if MAX_REPO_CHARS < length repo \<or> \<not> hf_repo_match (py_strip repo)
          then Inl (bad_request (quoted ''hf_repo_id'' @ '' must look like '' @ quoted ''org/model'' @ ''.''))
          else Inr (py_strip repo)
      | _ \<Rightarrow> Inl (bad_request (quoted ''hf_repo_id'' @ '' must look like '' @ quoted ''org/model'' @ ''.'')))"

definition install_fields :: "json option \<Rightarrow> reply + string \<times> string" where
  "install_fields body =
     (case body of
        None \<Rightarrow> Inl (bad_request ''Body is not valid JSON.'')
      | Some (JObj data) \<Rightarrow>
          (case repo_field data of
             Inl err \<Rightarrow> Inl err
           | Inr repo \<Rightarrow>
               (case revision_field data of
                  Inl err \<Rightarrow> Inl err
                | Inr revision \<Rightarrow> Inr (repo, revision)))
      | Some _ \<Rightarrow> Inl (bad_request ''Body must be a JSON object.''))"

text \<open>The stores and gates a request sees: request store, limiter (when wired), notifications.\<close>

record ('s, 'n) model_state =
  mst_store :: 's
  mst_limiter :: "rate_limiter option"
  mst_notifs :: 'n

text \<open>What runs while the limiter's slot is held.\<close>

definition model_create_body ::
    "'s model_request_store \<Rightarrow> 'n notif_store option \<Rightarrow> model_config \<Rightarrow> datetime \<Rightarrow> string \<Rightarrow> string
       \<Rightarrow> token_claims \<Rightarrow> json option \<Rightarrow> ('s, 'n) model_state \<Rightarrow> reply \<times> ('s, 'n) model_state" where
  "model_create_body store notification_store config now uid nuid claims body st =
     (case install_fields body of
        Inl err \<Rightarrow> (err, st)
      | Inr (repo, revision) \<Rightarrow>
          let tenant_id = extract_tenant_id claims; user_id = tc_subject claims in
          if \<not> is_repo_allowed (parse_repo_allowlist (mc_allowlist config)) repo
          then ((HTTP_FORBIDDEN, err_detail ''repo_not_allowed''
                   (''This model'' @ [CHR 0x27] @ ''s org/repo is not on the operator allow-list.'')), st)
          else if mc_max_open config \<le> mq_count_open store tenant_id (mst_store st)
          then ((HTTP_TOO_MANY, err_detail ''too_many_open_requests''
                   (''Too many open install requests (max '' @ str_int (mc_max_open config)
                    @ ''). Wait for an operator to review.'')), st)
          else
            let item = \<lparr>mir_id = uid, mir_tenant_id = tenant_id, mir_user_id = user_id,
                        mir_hf_repo_id = repo, mir_revision = revision, mir_status = ''requested'',
                        mir_error_class = [], mir_created_at = now, mir_updated_at = now\<rparr>
            in ((HTTP_ACCEPTED, mir_to_api_dict item),
                st\<lparr>mst_store := mq_create store item (mst_store st),
                   mst_notifs := emit_event notification_store (tenant_id, user_id)
                     ''model_install_requested'' (mir_id item) nuid now (mst_notifs st)\<rparr>))"

definition build_model_request_create_response ::
    "'s model_request_store \<Rightarrow> 'n notif_store option \<Rightarrow> model_config \<Rightarrow> datetime \<Rightarrow> int \<Rightarrow> string \<Rightarrow> string
       \<Rightarrow> string option \<Rightarrow> json option \<Rightarrow> verifier option \<Rightarrow> ('s, 'n) model_state
       \<Rightarrow> reply \<times> ('s, 'n) model_state" where
  "build_model_request_create_response store notification_store config now secs uid nuid
       authorization body token_verifier st =
     (case verify_and_extract authorization token_verifier of
        Inl err \<Rightarrow> (err, st)
      | Inr claims \<Rightarrow>
          if \<not> mc_enabled config
          then ((HTTP_FORBIDDEN, err_detail ''model_install_disabled''
                   ''Self-serve model install is not enabled on this workspace.''), st)
          else if \<not> user_can_request_install claims config
          then ((HTTP_FORBIDDEN, err_detail ''permission_denied''
                   (''You don'' @ [CHR 0x27] @ ''t have permission to request model installs.'')), st)
          else (case mst_limiter st of
                  None \<Rightarrow> model_create_body store notification_store config now uid nuid claims body st
                | Some rl \<Rightarrow>
                    (case try_acquire (extract_tenant_id claims) secs rl of
                       (False, rl') \<Rightarrow>
                         ((HTTP_TOO_MANY, err_detail ''rate_limited''
                             ''Too many install requests right now - please slow down.''),
                          st\<lparr>mst_limiter := Some rl'\<rparr>)
                     | (True, rl') \<Rightarrow>
                         let (r, st') = model_create_body store notification_store config now uid nuid
                                claims body (st\<lparr>mst_limiter := Some rl'\<rparr>)
                         in (r, st'\<lparr>mst_limiter := map_option rl_release (mst_limiter st')\<rparr>))))"

definition build_model_requests_list_response ::
    "'s model_request_store \<Rightarrow> model_config \<Rightarrow> string option \<Rightarrow> verifier option \<Rightarrow> int \<Rightarrow> 's \<Rightarrow> reply" where
  "build_model_requests_list_response store config authorization token_verifier limit s =
     (case verify_and_extract authorization token_verifier of
        Inl err \<Rightarrow> err
      | Inr claims \<Rightarrow>
          let limit = clamp_limit MODEL_MAX_LIST_LIMIT limit;
              admin = is_admin claims config;
              payload = (if admin then map mir_to_admin_dict (mq_list_all store limit s)
                         else map mir_to_api_dict (mq_list_for_user store (owner_of claims) limit s));
              enabled = mc_enabled config
          in (HTTP_OK, JObj [(''requests'', JArr payload), (''count'', JInt (int (length payload))),
                 (''is_admin'', JBool admin), (''enabled'', JBool enabled),
                 (''can_request'', JBool (enabled \<and> user_can_request_install claims config))]))"

section \<open>Reconciler\<close>

text \<open>\<^verbatim>\<open>hmac.compare_digest\<close> on two strings raises on a non-ASCII one, which is a mismatch.\<close>

definition is_ascii :: "string \<Rightarrow> bool" where
  "is_ascii s = list_all (\<lambda>c. ord_of c < 128) s"

definition verify_reconciler_token :: "string option \<Rightarrow> model_config \<Rightarrow> bool" where
  "verify_reconciler_token authorization config =
     (case (mc_installer_token config, authorization) of
        (Some expected, Some a) \<Rightarrow>
          if expected = [] \<or> a = [] then False
          else (case split_ws1 a of
                  [scheme, rest] \<Rightarrow>
                    py_lower scheme = ''bearer'' \<and>
                    is_ascii (py_strip rest) \<and> is_ascii expected \<and> py_strip rest = expected
                | _ \<Rightarrow> False)
      | _ \<Rightarrow> False)"

definition build_reconciler_pending_response ::
    "'s model_request_store \<Rightarrow> model_config \<Rightarrow> string option \<Rightarrow> 's \<Rightarrow> reply" where
  "build_reconciler_pending_response store config authorization s =
     (if \<not> verify_reconciler_token authorization config
      then (HTTP_NOT_FOUND, err_only ''not_found'')
      else if \<not> mc_enabled config
      then (HTTP_OK, JObj [(''requests'', JArr []), (''count'', JInt 0)])
      else let items = mq_list_pending store 50 s
           in (HTTP_OK, JObj [(''requests'', JArr (map mir_to_admin_dict items)),
                              (''count'', JInt (int (length items)))]))"

definition status_fields :: "json option \<Rightarrow> reply + string \<times> string" where
  "status_fields body =
     (case body of
        None \<Rightarrow> Inl (bad_request ''Body is not valid JSON.'')
      | Some (JObj data) \<Rightarrow>
          if \<not> in_str_tuple (dget data ''status'') RECONCILER_STATUSES
          then Inl (bad_request (quoted ''status'' @ '' must be one of [''
                      @ py_join '', '' (map quoted RECONCILER_STATUSES) @ ''].''))
          else if \<not> truthy (dget data ''error_class'')
          then Inr (py_str (\<lambda>_. []) (dget data ''status''), [])
          else (case dget data ''error_class'' of
                  JStr e \<Rightarrow>
                    if 100 < length e then Inl (bad_request (quoted ''error_class'' @ '' must be a short string.''))
                    else Inr (py_str (\<lambda>_. []) (dget data ''status''), e)
                | _ \<Rightarrow> Inl (bad_request (quoted ''error_class'' @ '' must be a short string.'')))
      | Some _ \<Rightarrow> Inl (bad_request ''Body must be a JSON object.''))"

definition build_reconciler_status_response ::
    "'s model_request_store \<Rightarrow> 'n notif_store option \<Rightarrow> model_config \<Rightarrow> datetime \<Rightarrow> string
       \<Rightarrow> string option \<Rightarrow> string \<Rightarrow> json option \<Rightarrow> ('s, 'n) model_state \<Rightarrow> reply \<times> ('s, 'n) model_state" where
  "build_reconciler_status_response store notification_store config now nuid authorization request_id
       body st =
     (if \<not> verify_reconciler_token authorization config
      then ((HTTP_NOT_FOUND, err_only ''not_found''), st)
      else (case status_fields body of
              Inl err \<Rightarrow> (err, st)
            | Inr (status, error_class) \<Rightarrow>
                (case mq_update_status store request_id status error_class now (mst_store st) of
                   (None, s') \<Rightarrow> ((HTTP_NOT_FOUND, err_only ''not_found''), st\<lparr>mst_store := s'\<rparr>)
                 | (Some updated, s') \<Rightarrow>
                     ((HTTP_OK, mir_to_admin_dict updated),
                      st\<lparr>mst_store := s',
                         mst_notifs := emit_event notification_store (mir_owner updated)
                           ''model_install_updated'' (mir_id updated) nuid now (mst_notifs st)\<rparr>))))"

section \<open>The contract\<close>

locale model_request_contract =
  fixes items :: "'s \<Rightarrow> model_install_request list"
    and inv :: "'s \<Rightarrow> bool"
    and store :: "'s model_request_store"
  assumes ids_distinct: "inv s \<Longrightarrow> distinct (map mir_id (items s))"
    and inv_create: "inv s \<Longrightarrow> mir_id r \<notin> mir_id ` set (items s) \<Longrightarrow> inv (mq_create store r s)"
    and items_create: "inv s \<Longrightarrow> mir_id r \<notin> mir_id ` set (items s) \<Longrightarrow>
      items (mq_create store r s) = items s @ [r]"
    and list_user: "inv s \<Longrightarrow> mq_list_for_user store who n s =
      slice_to n (sort_desc mir_created_at (filter (\<lambda>r. mir_owner r = who) (items s)))"
    and list_all: "inv s \<Longrightarrow> mq_list_all store n s = slice_to n (sort_desc mir_created_at (items s))"
    and list_pending: "inv s \<Longrightarrow> mq_list_pending store n s =
      slice_to n (sort_key mir_created_at (filter (\<lambda>r. mir_status r = ''requested'') (items s)))"
    and get_items: "inv s \<Longrightarrow> mq_get store i s = find (\<lambda>r. mir_id r = i) (items s)"
    and inv_update: "inv s \<Longrightarrow> inv (snd (mq_update_status store i st e now s))"
    and update_result: "inv s \<Longrightarrow> fst (mq_update_status store i st e now s) =
      map_option (set_status st e now) (find (\<lambda>r. mir_id r = i) (items s))"
    and items_update: "inv s \<Longrightarrow> items (snd (mq_update_status store i st e now s)) =
      map (\<lambda>r. if mir_id r = i then set_status st e now r else r) (items s)"
    and count_open: "inv s \<Longrightarrow> mq_count_open store t s = int (length (filter (mir_open t) (items s)))"

lemma set_status_id [simp]: "mir_id (set_status st e now r) = mir_id r"
  by (simp add: set_status_def)

lemma set_status_owner [simp]: "mir_owner (set_status st e now r) = mir_owner r"
  by (simp add: set_status_def mir_owner_def)

definition mem_models_ok :: "mem_models \<Rightarrow> bool" where
  "mem_models_ok s \<longleftrightarrow> distinct (map fst s) \<and> (\<forall>p \<in> set s. mir_id (snd p) = fst p)"

lemma mem_models_ids: "mem_models_ok s \<Longrightarrow> map mir_id (map snd s) = map fst s"
  by (auto simp: mem_models_ok_def)

lemma mem_models_find:
  "mem_models_ok s \<Longrightarrow> map_of s i = find (\<lambda>r. mir_id r = i) (map snd s)"
  by (induction s) (auto simp: mem_models_ok_def)

lemma mem_models_dset:
  assumes "mem_models_ok s" and "map_of s i = Some r" and "mir_id (f r) = i"
  shows "map snd (dset s i (f r)) = map (\<lambda>x. if mir_id x = i then f x else x) (map snd s)"
  using assms
proof (induction s)
  case Nil
  then show ?case by simp
next
  case (Cons p s)
  obtain k x where p: "p = (k, x)" by (cases p)
  have ok: "mem_models_ok s" and k: "mir_id x = k" and n: "k \<notin> fst ` set s"
    using Cons.prems p by (auto simp: mem_models_ok_def)
  show ?case
  proof (cases "k = i")
    case True
    have "map (\<lambda>x. if mir_id x = i then f x else x) (map snd s) = map snd s"
      using n ok True by (intro map_idI) (force simp: mem_models_ok_def)
    with True p k Cons.prems(2) show ?thesis by simp
  next
    case False
    with Cons p k ok show ?thesis by simp
  qed
qed

lemma mem_models_ok_dset:
  "mem_models_ok s \<Longrightarrow> mir_id r = i \<Longrightarrow> mem_models_ok (dset s i r)"
  by (auto simp: mem_models_ok_def distinct_dset set_dset)

interpretation mem_models: model_request_contract
  "map snd" mem_models_ok InMemoryModelRequestStore
proof
  fix s :: mem_models and r :: model_install_request and i st e now
  let ?S = InMemoryModelRequestStore
  show "distinct (map mir_id (map snd s))" if "mem_models_ok s"
    unfolding mem_models_ids [OF that] using that by (simp add: mem_models_ok_def)
  show "mem_models_ok (mq_create ?S r s)" if "mem_models_ok s"
    using that by (simp add: InMemoryModelRequestStore_def mem_mq_create_def mem_models_ok_dset)
  show "map snd (mq_create ?S r s) = map snd s @ [r]"
    if "mem_models_ok s" "mir_id r \<notin> mir_id ` set (map snd s)"
  proof -
    have "mir_id r \<notin> fst ` set s"
      using that(2) mem_models_ids [OF that(1)] by (metis set_map)
    then show ?thesis
      by (simp add: InMemoryModelRequestStore_def mem_mq_create_def dset_absent)
  qed
  have id: "mir_id r = i" if "mem_models_ok s" "map_of s i = Some r" for r
    using that by (auto simp: mem_models_ok_def dest: map_of_SomeD)
  show "mem_models_ok (snd (mq_update_status ?S i st e now s))" if "mem_models_ok s"
    using that id [OF that]
    by (simp add: InMemoryModelRequestStore_def mem_mq_update_status_def mem_models_ok_dset Let_def
        split: option.split)
  show "map snd (snd (mq_update_status ?S i st e now s)) =
      map (\<lambda>r. if mir_id r = i then set_status st e now r else r) (map snd s)" if "mem_models_ok s"
  proof (cases "map_of s i")
    case None
    then have "\<forall>x \<in> set (map snd s). mir_id x \<noteq> i"
      using mem_models_find [OF that, of i] by (auto simp: find_None_iff)
    then have "map (\<lambda>r. if mir_id r = i then set_status st e now r else r) (map snd s) = map snd s"
      by (intro map_idI) auto
    with None show ?thesis
      by (simp add: InMemoryModelRequestStore_def mem_mq_update_status_def)
  next
    case (Some r)
    then show ?thesis
      using mem_models_dset [OF that Some, of "set_status st e now"] id [OF that Some]
      by (simp add: InMemoryModelRequestStore_def mem_mq_update_status_def Let_def)
  qed
qed (auto simp: InMemoryModelRequestStore_def mem_mq_list_for_user_def mem_mq_list_all_def
      mem_mq_list_pending_def mem_mq_get_def mem_models_find mem_mq_update_status_def
      mem_mq_count_open_def Let_def split: option.split)

lemma set_status_ids [simp]:
  "mir_id \<circ> (\<lambda>x. if mir_id x = i then set_status st e now x else x) = mir_id"
  by (rule ext) simp

interpretation pg_models: model_request_contract
  "\<lambda>rows. rows" "table_ok mir_id" PostgresModelRequestStore
  by unfold_locales
    (auto simp: PostgresModelRequestStore_def pg_mq_create_def pg_mq_list_for_user_def
      pg_mq_list_all_def pg_mq_list_pending_def pg_mq_get_def pg_mq_update_status_def
      pg_mq_count_open_def sql_insert_def sql_select_desc_def sql_update_def table_ok_def)

section \<open>What the handlers keep\<close>

text \<open>The shape of every stored request.\<close>

definition mir_ok :: "model_install_request \<Rightarrow> bool" where
  "mir_ok r \<longleftrightarrow>
     mir_status r \<in> set STATUSES \<and> hf_repo_match (mir_hf_repo_id r) \<and>
     length (mir_hf_repo_id r) \<le> MAX_REPO_CHARS \<and>
     length (mir_revision r) \<le> MAX_REVISION_CHARS \<and> \<not> contains ''..'' (mir_revision r) \<and>
     length (mir_error_class r) \<le> 100"

datatype model_event =
    ModelCreate "string option" "json option" string string int
  | ModelStatus "string option" string "json option" string

fun model_step ::
    "'s model_request_store \<Rightarrow> 'n notif_store option \<Rightarrow> model_config \<Rightarrow> verifier option \<Rightarrow> datetime
       \<Rightarrow> model_event \<Rightarrow> ('s, 'n) model_state \<Rightarrow> reply \<times> ('s, 'n) model_state" where
  "model_step store ns config v now (ModelCreate a b uid nuid secs) st =
     build_model_request_create_response store ns config now secs uid nuid a b v st"
| "model_step store ns config v now (ModelStatus a i b nuid) st =
     build_reconciler_status_response store ns config now nuid a i b st"

fun model_event_fresh :: "('s \<Rightarrow> model_install_request list) \<Rightarrow> 's \<Rightarrow> model_event \<Rightarrow> bool" where
  "model_event_fresh items s (ModelCreate a b uid nuid secs) = (uid \<notin> mir_id ` set (items s))"
| "model_event_fresh items s (ModelStatus a i b nuid) = True"

lemma repo_field_ok:
  assumes "repo_field d = Inr repo"
  shows "hf_repo_match repo \<and> length repo \<le> MAX_REPO_CHARS"
proof -
  obtain s where "dget d ''hf_repo_id'' = JStr s"
    using assms by (cases "dget d ''hf_repo_id''") (auto simp: repo_field_def)
  then show ?thesis
    using assms length_py_strip_le [of s] by (auto simp: repo_field_def split: if_splits)
qed

lemma revision_field_ok:
  assumes "revision_field d = Inr revision"
  shows "revision = [] \<or> (length revision \<le> MAX_REVISION_CHARS \<and> \<not> contains ''..'' revision
         \<and> revision_match revision)"
  using assms
  by (cases "dget d ''revision''") (auto simp: revision_field_def split: if_splits)

lemma install_fields_ok:
  assumes "install_fields body = Inr (repo, revision)"
  shows "hf_repo_match repo \<and> length repo \<le> MAX_REPO_CHARS \<and>
         length revision \<le> MAX_REVISION_CHARS \<and> \<not> contains ''..'' revision"
proof -
  obtain d where "body = Some (JObj d)"
    using assms by (auto simp: install_fields_def split: option.splits json.splits)
  then have "repo_field d = Inr repo" and "revision_field d = Inr revision"
    using assms by (auto simp: install_fields_def split: sum.splits)
  then show ?thesis
    using repo_field_ok [of d repo] revision_field_ok [of d revision] by auto
qed

lemma status_fields_ok:
  assumes "status_fields body = Inr (st, e)"
  shows "st \<in> set RECONCILER_STATUSES \<and> length e \<le> 100"
proof -
  obtain d where d: "body = Some (JObj d)"
    using assms by (auto simp: status_fields_def split: option.splits json.splits)
  then have s: "in_str_tuple (dget d ''status'') RECONCILER_STATUSES"
    and st: "st = py_str (\<lambda>_. []) (dget d ''status'')"
    using assms by (auto simp: status_fields_def split: if_splits json.splits)
  then have "st \<in> set RECONCILER_STATUSES"
    by (cases "dget d ''status''") auto
  moreover have "length e \<le> 100"
    using assms d s by (auto simp: status_fields_def split: if_splits json.splits)
  ultimately show ?thesis ..
qed

lemma reconciler_statuses: "set RECONCILER_STATUSES \<subseteq> set STATUSES"
  by (auto simp: RECONCILER_STATUSES_def)

text \<open>What the create handler did to the store: nothing, or one record past every gate.\<close>

definition created_by ::
    "'s model_request_store \<Rightarrow> model_config \<Rightarrow> token_claims \<Rightarrow> json option \<Rightarrow> datetime \<Rightarrow> string
       \<Rightarrow> 's \<Rightarrow> model_install_request \<Rightarrow> bool" where
  "created_by store config claims body now uid s r \<longleftrightarrow>
     mc_enabled config \<and> user_can_request_install claims config \<and>
     install_fields body = Inr (mir_hf_repo_id r, mir_revision r) \<and>
     is_repo_allowed (parse_repo_allowlist (mc_allowlist config)) (mir_hf_repo_id r) \<and>
     mq_count_open store (extract_tenant_id claims) s < mc_max_open config \<and>
     mir_id r = uid \<and> mir_owner r = owner_of claims \<and> mir_status r = ''requested'' \<and>
     mir_error_class r = [] \<and> mir_created_at r = now \<and> mir_updated_at r = now"

lemma model_create_body_store:
  assumes "mst_store (snd (model_create_body store ns config now uid nuid claims body st)) \<noteq> mst_store st"
    and "mc_enabled config" and "user_can_request_install claims config"
  shows "\<exists>r. created_by store config claims body now uid (mst_store st) r \<and>
           mst_store (snd (model_create_body store ns config now uid nuid claims body st)) =
             mq_create store r (mst_store st)"
proof -
  obtain repo revision where f: "install_fields body = Inr (repo, revision)"
    using assms(1) by (auto simp: model_create_body_def split: sum.splits)
  let ?r = "\<lparr>mir_id = uid, mir_tenant_id = extract_tenant_id claims, mir_user_id = tc_subject claims,
             mir_hf_repo_id = repo, mir_revision = revision, mir_status = ''requested'',
             mir_error_class = [], mir_created_at = now, mir_updated_at = now\<rparr>"
  have "created_by store config claims body now uid (mst_store st) ?r"
    using assms f
    by (auto simp: model_create_body_def created_by_def mir_owner_def owner_of_def Let_def
        split: if_splits)
  moreover have "mst_store (snd (model_create_body store ns config now uid nuid claims body st)) =
      mq_create store ?r (mst_store st)"
    using assms(1) f by (auto simp: model_create_body_def Let_def split: if_splits)
  ultimately show ?thesis by blast
qed

text \<open>The tenant's limiter, where there is one, gives a slot.\<close>

definition slot_given :: "token_claims \<Rightarrow> int \<Rightarrow> rate_limiter option \<Rightarrow> bool" where
  "slot_given claims secs limiter \<longleftrightarrow>
     (case limiter of None \<Rightarrow> True | Some rl \<Rightarrow> fst (try_acquire (extract_tenant_id claims) secs rl))"

lemma model_create_gates:
  assumes "mst_store (snd (build_model_request_create_response store ns config now secs uid nuid a b v st))
           \<noteq> mst_store st"
  shows "\<exists>claims r. verify_and_extract a v = Inr claims \<and> slot_given claims secs (mst_limiter st) \<and>
           created_by store config claims b now uid (mst_store st) r \<and>
           mst_store (snd (build_model_request_create_response store ns config now secs uid nuid a b v st)) =
             mq_create store r (mst_store st)"
proof -
  obtain claims where c: "verify_and_extract a v = Inr claims"
    using assms by (auto simp: build_model_request_create_response_def split: sum.splits)
  have g: "mc_enabled config" "user_can_request_install claims config"
    using assms c by (auto simp: build_model_request_create_response_def split: if_splits)
  obtain st' where "mst_store st' = mst_store st" and slot: "slot_given claims secs (mst_limiter st)" and
    eq: "mst_store (snd (build_model_request_create_response store ns config now secs uid nuid a b v st)) =
         mst_store (snd (model_create_body store ns config now uid nuid claims b st'))"
  proof (cases "mst_limiter st")
    case None
    show thesis
      by (rule that [of st])
        (use c g None in \<open>simp_all add: build_model_request_create_response_def slot_given_def\<close>)
  next
    case (Some rl)
    obtain ok rl' where t: "try_acquire (extract_tenant_id claims) secs rl = (ok, rl')"
      by fastforce
    have ok
      using assms c g Some t
      by (cases ok) (auto simp: build_model_request_create_response_def)
    show thesis
      by (rule that [of "st\<lparr>mst_limiter := Some rl'\<rparr>"])
        (use c g Some t \<open>ok\<close> in \<open>simp_all add: build_model_request_create_response_def slot_given_def split_beta Let_def\<close>)
  qed
  then show ?thesis
    using model_create_body_store [of store ns config now uid nuid claims b st'] assms c g slot by auto
qed

text \<open>The limiter's slot is given back whatever the body did.\<close>

lemma model_create_body_limiter:
  "mst_limiter (snd (model_create_body store ns config now uid nuid claims b st)) = mst_limiter st"
  by (simp add: model_create_body_def Let_def split: sum.split prod.split)

lemma model_create_releases:
  assumes "mst_limiter st = Some rl" and "rl_ok rl"
  shows "\<exists>rl'. mst_limiter (snd (build_model_request_create_response store ns config now secs uid nuid a b v st))
           = Some rl' \<and> rl_value rl' = rl_value rl \<and> rl_ok rl'"
proof (cases "verify_and_extract a v")
  case (Inl e)
  with assms show ?thesis by (simp add: build_model_request_create_response_def)
next
  case (Inr claims)
  obtain ok rl1 where t: "try_acquire (extract_tenant_id claims) secs rl = (ok, rl1)"
    by fastforce
  have 1: "rl_ok rl1" "\<not> ok \<Longrightarrow> rl_value rl1 = rl_value rl" "ok \<Longrightarrow> rl_value (rl_release rl1) = rl_value rl"
    using try_acquire_ok [OF assms(2), of "extract_tenant_id claims" secs]
      try_acquire_value(1) [of "extract_tenant_id claims" secs rl]
      acquire_release_value [OF assms(2), of "extract_tenant_id claims" secs] t
    by auto
  show ?thesis
    using assms Inr t 1
    by (cases ok) (auto simp: build_model_request_create_response_def split_beta Let_def
        model_create_body_limiter rl_release_ok)
qed

context model_request_contract
begin

lemma update_effect:
  assumes "inv s" and "\<forall>r \<in> set (items s). mir_ok r" and "st \<in> set RECONCILER_STATUSES" and "length e \<le> 100"
  shows "inv (snd (mq_update_status store i st e now s)) \<and>
         (\<forall>r \<in> set (items (snd (mq_update_status store i st e now s))). mir_ok r)"
  using assms reconciler_statuses
  by (auto simp: inv_update items_update mir_ok_def set_status_def)

lemma model_step_inv:
  assumes "inv (mst_store st)" and "\<forall>r \<in> set (items (mst_store st)). mir_ok r"
    and "model_event_fresh items (mst_store st) ev"
  shows "inv (mst_store (snd (model_step store ns config v now ev st))) \<and>
         (\<forall>r \<in> set (items (mst_store (snd (model_step store ns config v now ev st)))). mir_ok r)"
proof (cases ev)
  case (ModelCreate a b uid nuid secs)
  show ?thesis
  proof (cases "mst_store (snd (model_step store ns config v now ev st)) = mst_store st")
    case True
    with assms show ?thesis by simp
  next
    case False
    then obtain claims r where r: "created_by store config claims b now uid (mst_store st) r"
      and eq: "mst_store (snd (model_step store ns config v now ev st)) = mq_create store r (mst_store st)"
      using model_create_gates [of store ns config now secs uid nuid a b v st] ModelCreate by auto
    then have "mir_ok r"
      using install_fields_ok [of b "mir_hf_repo_id r" "mir_revision r"]
      by (simp add: created_by_def mir_ok_def STATUSES_def)
    moreover have "mir_id r \<notin> mir_id ` set (items (mst_store st))"
      using r assms(3) ModelCreate by (simp add: created_by_def)
    ultimately show ?thesis
      unfolding eq using assms by (auto simp: inv_create items_create)
  qed
next
  case (ModelStatus a i b nuid)
  show ?thesis
  proof (cases "verify_reconciler_token a config \<and> (\<exists>s e. status_fields b = Inr (s, e))")
    case False
    then have "snd (model_step store ns config v now ev st) = st"
      using ModelStatus by (auto simp: build_reconciler_status_response_def split: sum.splits)
    with assms show ?thesis by simp
  next
    case True
    then obtain s e where f: "status_fields b = Inr (s, e)" by blast
    then have eq: "mst_store (snd (model_step store ns config v now ev st)) =
        snd (mq_update_status store i s e now (mst_store st))"
      using ModelStatus True
      by (auto simp: build_reconciler_status_response_def split: prod.split option.split)
    show ?thesis
      unfolding eq using status_fields_ok [OF f] by (intro update_effect assms) auto
  qed
qed

text \<open>Creation never takes a tenant above the cap.\<close>

lemma create_keeps_cap:
  assumes "inv (mst_store st)" and "model_event_fresh items (mst_store st) (ModelCreate a b uid nuid secs)"
    and "mq_count_open store t (mst_store st) \<le> max 0 (mc_max_open config)"
  shows "mq_count_open store t
      (mst_store (snd (model_step store ns config v now (ModelCreate a b uid nuid secs) st)))
      \<le> max 0 (mc_max_open config)"
proof (cases "mst_store (snd (model_step store ns config v now (ModelCreate a b uid nuid secs) st)) = mst_store st")
  case True
  with assms show ?thesis by simp
next
  case False
  then obtain claims r where r: "created_by store config claims b now uid (mst_store st) r"
    and eq: "mst_store (snd (model_step store ns config v now (ModelCreate a b uid nuid secs) st)) =
      mq_create store r (mst_store st)"
    using model_create_gates [of store ns config now secs uid nuid a b v st] by auto
  have "mir_id r \<notin> mir_id ` set (items (mst_store st))"
    using r assms(2) by (simp add: created_by_def)
  then have "mq_count_open store t (mq_create store r (mst_store st)) =
      mq_count_open store t (mst_store st) + (if mir_open t r then 1 else 0)"
    using assms(1) by (simp add: count_open inv_create items_create)
  moreover have "mir_open t r \<Longrightarrow> t = extract_tenant_id claims"
    using r by (simp add: mir_open_def created_by_def mir_owner_def owner_of_def)
  ultimately show ?thesis
    unfolding eq using r assms(3) by (auto simp: created_by_def)
qed

lemma list_own:
  assumes "inv s" and "verify_and_extract a v = Inr claims" and "\<not> is_admin claims config"
  shows "\<exists>rs. build_model_requests_list_response store config a v n s =
      (HTTP_OK, JObj [(''requests'', JArr (map mir_to_api_dict rs)), (''count'', JInt (int (length rs))),
         (''is_admin'', JBool False), (''enabled'', JBool (mc_enabled config)),
         (''can_request'', JBool (mc_enabled config \<and> user_can_request_install claims config))]) \<and>
      set rs \<subseteq> {r \<in> set (items s). mir_owner r = owner_of claims} \<and> length rs \<le> 200"
proof -
  let ?rs = "mq_list_for_user store (owner_of claims) (clamp_limit MODEL_MAX_LIST_LIMIT n) s"
  have lim: "0 \<le> clamp_limit MODEL_MAX_LIST_LIMIT n" "clamp_limit MODEL_MAX_LIST_LIMIT n \<le> 200"
    using clamp_limit_bounds [of 200 n] by (simp_all add: MODEL_MAX_LIST_LIMIT_def)
  have "length ?rs \<le> nat (clamp_limit MODEL_MAX_LIST_LIMIT n)"
    unfolding list_user [OF assms(1)] by (rule length_slice_to [OF lim(1)])
  then have "length ?rs \<le> 200"
    using lim by linarith
  moreover have "set ?rs \<subseteq> {r \<in> set (items s). mir_owner r = owner_of claims}"
    unfolding list_user [OF assms(1)] using set_slice_to by fastforce
  ultimately show ?thesis
    using assms by (auto simp: build_model_requests_list_response_def Let_def)
qed

end

section \<open>Properties\<close>

text \<open>C38: Model installation is deny-by-default: a create request changes the store only when the
  caller is authenticated, the kill-switch is on, the caller is permitted, the tenant's limiter
  gives a slot (where there is a limiter), the body holds a well-formed repository on the allow-list and the tenant is below its open-request cap; and then
  it adds exactly one record, owned by the caller and in status \<open>requested\<close>.  For any store.\<close>

theorem model_create_deny_by_default:
  assumes "mst_store (snd (build_model_request_create_response store ns config now secs uid nuid a b v st))
           \<noteq> mst_store st"
  shows "\<exists>claims r. verify_and_extract a v = Inr claims \<and>
           mc_enabled config \<and> user_can_request_install claims config \<and>
           (case mst_limiter st of
              None \<Rightarrow> True
            | Some rl \<Rightarrow> fst (try_acquire (extract_tenant_id claims) secs rl)) \<and>
           install_fields b = Inr (mir_hf_repo_id r, mir_revision r) \<and>
           hf_repo_match (mir_hf_repo_id r) \<and> \<not> contains ''..'' (mir_revision r) \<and>
           is_repo_allowed (parse_repo_allowlist (mc_allowlist config)) (mir_hf_repo_id r) \<and>
           mq_count_open store (extract_tenant_id claims) (mst_store st) < mc_max_open config \<and>
           mir_owner r = owner_of claims \<and> mir_status r = ''requested'' \<and> mir_id r = uid \<and>
           mst_store (snd (build_model_request_create_response store ns config now secs uid nuid a b v st)) =
             mq_create store r (mst_store st)"
  using model_create_gates [OF assms] install_fields_ok
  by (fastforce simp: created_by_def slot_given_def)

definition example_model_config :: model_config where
  "example_model_config = \<lparr>mc_enabled = True, mc_allow_all_users = False, mc_group = None,
     mc_admin_group = None, mc_allowlist = Some ''org'', mc_max_open = 25,
     mc_installer_token = Some ''tok''\<rparr>"

definition example_model_state :: "(pg_models, pg_notifs) model_state" where
  "example_model_state = \<lparr>mst_store = [], mst_limiter = None, mst_notifs = []\<rparr>"

lemma example_install:
  "install_fields (Some (JObj [(''hf_repo_id'', JStr ''org/m'')])) = Inr (''org/m'', [])"
  by (simp add: install_fields_def repo_field_def revision_field_def hf_repo_match_def split_char1_def
      py_strip_def py_lstrip_def py_rstrip_by_def is_space_def at_dollar_def is_alnum_def ord_of_def
      MAX_REPO_CHARS_def)

lemma example_allowed: "is_repo_allowed (parse_repo_allowlist (Some ''org'')) ''org/m''"
  by (simp add: is_repo_allowed_def parse_repo_allowlist_def split_char1_def py_strip_def
      py_lstrip_def py_rstrip_by_def is_space_def ord_of_def)

definition limited_model_state :: "(pg_models, pg_notifs) model_state" where
  "limited_model_state = example_model_state\<lparr>mst_limiter := Some (rate_limiter_init 5 2)\<rparr>"

lemma example_create:
  "mst_store (snd (build_model_request_create_response PostgresModelRequestStore None
      example_model_config 0 0 ''r1'' ''x'' (Some ''Bearer ta'')
      (Some (JObj [(''hf_repo_id'', JStr ''org/m'')])) (Some two_users) limited_model_state)) \<noteq> []"
  using example_allowed
  by (simp add: build_model_request_create_response_def example_model_config_def example_install
      limited_model_state_def example_model_state_def model_create_body_def user_can_request_install_def is_admin_def
      has_group_def alice_claims_def PostgresModelRequestStore_def pg_mq_count_open_def
      pg_mq_create_def sql_insert_def try_acquire_eq rate_limiter_init_def Let_def)

theorem model_create_deny_by_default_witness:
  "\<exists>r. mst_store (snd (build_model_request_create_response PostgresModelRequestStore None
      example_model_config 0 0 ''r1'' ''x'' (Some ''Bearer ta'')
      (Some (JObj [(''hf_repo_id'', JStr ''org/m'')])) (Some two_users) limited_model_state)) = [r] \<and>
    mir_owner r = (''a.io'', ''alice'')"
  using model_create_deny_by_default [of PostgresModelRequestStore None example_model_config 0 0
      "''r1''" "''x''" "Some ''Bearer ta''" "Some (JObj [(''hf_repo_id'', JStr ''org/m'')])"
      "Some two_users" limited_model_state] example_create
  by (auto simp: limited_model_state_def example_model_state_def PostgresModelRequestStore_def pg_mq_create_def
      sql_insert_def)



text \<open>A caller who is not an administrator is listed the caller's own requests only, at most
  200 of them and without the tenant or requester fields of the operator's view; in both stores.\<close>

theorem model_list_own_only:
  assumes "verify_and_extract a v = Inr claims" and "\<not> is_admin claims config"
  shows "(mem_models_ok m \<longrightarrow> (\<exists>rs. build_model_requests_list_response InMemoryModelRequestStore config a v n m =
      (HTTP_OK, JObj [(''requests'', JArr (map mir_to_api_dict rs)), (''count'', JInt (int (length rs))),
         (''is_admin'', JBool False), (''enabled'', JBool (mc_enabled config)),
         (''can_request'', JBool (mc_enabled config \<and> user_can_request_install claims config))]) \<and>
      set rs \<subseteq> {r \<in> set (map snd m). mir_owner r = owner_of claims} \<and> length rs \<le> 200)) \<and>
    (table_ok mir_id t \<longrightarrow> (\<exists>rs. build_model_requests_list_response PostgresModelRequestStore config a v n t =
      (HTTP_OK, JObj [(''requests'', JArr (map mir_to_api_dict rs)), (''count'', JInt (int (length rs))),
         (''is_admin'', JBool False), (''enabled'', JBool (mc_enabled config)),
         (''can_request'', JBool (mc_enabled config \<and> user_can_request_install claims config))]) \<and>
      set rs \<subseteq> {r \<in> set t. mir_owner r = owner_of claims} \<and> length rs \<le> 200))"
  using mem_models.list_own [OF _ assms] pg_models.list_own [OF _ assms] by blast

theorem model_list_own_only_witness:
  "\<exists>j. build_model_requests_list_response PostgresModelRequestStore example_model_config
      (Some ''Bearer tb'') (Some two_users) 10 [] = (HTTP_OK, j)"
proof -
  have "\<not> is_admin bob_claims example_model_config"
    by (simp add: is_admin_def example_model_config_def has_group_def bob_claims_def)
  then show ?thesis
    using model_list_own_only [of "Some ''Bearer tb''" "Some two_users" bob_claims
        example_model_config "[]" 10 "[]"]
    by (auto simp: table_ok_def)
qed

text \<open>The limiter's slot is always returned: whatever a create request answers, the free
  slots afterwards are those before.\<close>

theorem model_create_returns_slot:
  assumes "mst_limiter st = Some rl" and "rl_ok rl"
  shows "\<exists>rl'. mst_limiter (snd (build_model_request_create_response store ns config now secs uid nuid a b v st))
           = Some rl' \<and> rl_value rl' = rl_value rl"
  using model_create_releases [OF assms] by blast

theorem model_create_returns_slot_witness:
  "\<exists>rl'. mst_limiter (snd (build_model_request_create_response PostgresModelRequestStore None
      example_model_config 0 0 ''r1'' ''x'' (Some ''Bearer ta'') None (Some two_users)
      (example_model_state\<lparr>mst_limiter := Some (rate_limiter_init 5 2)\<rparr>))) = Some rl' \<and> rl_value rl' = 2"
  using model_create_returns_slot [of "example_model_state\<lparr>mst_limiter := Some (rate_limiter_init 5 2)\<rparr>"
      "rate_limiter_init 5 2" PostgresModelRequestStore None example_model_config 0 0 "''r1''" "''x''"
      "Some ''Bearer ta''" None "Some two_users"]
  by (simp add: rl_ok_def rate_limiter_init_def)

text \<open>Without the installer's token the reconciler endpoints do not exist: where no token is
  configured, or the bearer is another one, both answer 404 and nothing changes; and with the
  kill-switch off the right token gets no work.\<close>

theorem reconciler_hidden:
  "(\<not> verify_reconciler_token a config \<longrightarrow>
      build_reconciler_pending_response store config a (mst_store st) = (HTTP_NOT_FOUND, err_only ''not_found'') \<and>
      build_reconciler_status_response store ns config now nuid a i b st =
        ((HTTP_NOT_FOUND, err_only ''not_found''), st)) \<and>
   (mc_installer_token config \<in> {None, Some []} \<longrightarrow> \<not> verify_reconciler_token a config) \<and>
   (verify_reconciler_token a config \<and> \<not> mc_enabled config \<longrightarrow>
      build_reconciler_pending_response store config a (mst_store st) =
        (HTTP_OK, JObj [(''requests'', JArr []), (''count'', JInt 0)]))"
  by (auto simp: build_reconciler_pending_response_def build_reconciler_status_response_def
      verify_reconciler_token_def split: option.split)

theorem reconciler_hidden_witness:
  "build_reconciler_pending_response PostgresModelRequestStore
      (example_model_config\<lparr>mc_installer_token := None\<rparr>) (Some ''Bearer tok'')
      (mst_store example_model_state) = (HTTP_NOT_FOUND, err_only ''not_found'')"
  using reconciler_hidden [of "Some ''Bearer tok''" "example_model_config\<lparr>mc_installer_token := None\<rparr>"
      PostgresModelRequestStore example_model_state None 0 "''x''" "''r''" None]
  by simp

text \<open>The revision check admits a trailing newline: the pattern's \<^verbatim>\<open>$\<close> matches before it, so
  the reference \<open>main\<close> followed by a newline is stored as it is.\<close>

theorem revision_newline_accepted:
  "install_fields (Some (JObj [(''hf_repo_id'', JStr ''org/m''),
      (''revision'', JStr (''main'' @ [CHR 0x0A]))])) = Inr (''org/m'', ''main'' @ [CHR 0x0A])"
  by (simp add: install_fields_def repo_field_def revision_field_def hf_repo_match_def split_char1_def
      py_strip_def py_lstrip_def py_rstrip_by_def is_space_def at_dollar_def is_alnum_def ord_of_def
      MAX_REPO_CHARS_def MAX_REVISION_CHARS_def revision_match_def)

end
