(* ===== verification/Retrieval.thy ===== *)
theory Retrieval
  imports Notifications
begin

text \<open>
  Document retrieval (app/control_plane/retrieval.py): chunking, the store protocol with its
  in-memory and pgvector implementations, the contract both keep (locale \<open>retrieval_contract\<close>),
  and the index, upload and query handlers; and the embedding interface of embeddings.py.

  An embedding client maps texts to vectors, or is \<^term>\<open>None\<close> where it raises
  \<^verbatim>\<open>EmbeddingError\<close>.  A vector is a list of rationals and its arithmetic is exact: the rounding of
  floating point is not modelled.  The distance operator of pgvector is the parameter \<open>vdist\<close>.
\<close>

section \<open>Data\<close>

definition RT_MAX_TITLE_LEN :: nat where "RT_MAX_TITLE_LEN = 256"
definition MAX_DOCUMENT_CHARS :: nat where "MAX_DOCUMENT_CHARS = 100000"
definition MAX_QUERY_CHARS :: nat where "MAX_QUERY_CHARS = 2000"
definition CHUNK_CHARS :: nat where "CHUNK_CHARS = 512"
definition MAX_CHUNKS_PER_DOCUMENT :: nat where "MAX_CHUNKS_PER_DOCUMENT = 400"
definition DEFAULT_TOP_K :: int where "DEFAULT_TOP_K = 5"
definition MAX_TOP_K :: int where "MAX_TOP_K = 20"
definition EMBEDDING_DIM :: nat where "EMBEDDING_DIM = 384"
definition INDEXING_EVENT_CLASS :: string where "INDEXING_EVENT_CLASS = ''indexing_complete''"

type_synonym vec = "rat list"
type_synonym embedder = "string list \<Rightarrow> vec list option"

definition embedding_unavailable :: reply where
  "embedding_unavailable =
     (HTTP_UNAVAILABLE, err_degraded ''embedding_unavailable''
        ''The embedding backend is unavailable; try again later.'')"

record document =
  do_id :: string
  do_tenant_id :: string
  do_user_id :: string
  do_title :: string
  do_created_at :: datetime

record document_chunk =
  dc_id :: string
  dc_document_id :: string
  dc_tenant_id :: string
  dc_chunk_index :: nat
  dc_content :: string
  dc_embedding :: vec
  dc_created_at :: datetime

record retrieved_passage =
  rp_document_id :: string
  rp_chunk_id :: string
  rp_chunk_index :: nat
  rp_content :: string
  rp_score :: rat

definition passage_to_api_dict :: "retrieved_passage \<Rightarrow> json" where
  "passage_to_api_dict p =
     JObj [(''document_id'', JStr (rp_document_id p)), (''chunk_id'', JStr (rp_chunk_id p)),
           (''chunk_index'', JInt (int (rp_chunk_index p))), (''content'', JStr (rp_content p)),
           (''score'', JFloat (Fin (round6 (rp_score p))))]"

section \<open>Chunking\<close>

fun chunk_loop :: "nat \<Rightarrow> string list \<Rightarrow> string list \<Rightarrow> nat \<Rightarrow> string list \<Rightarrow> string list" where
  "chunk_loop chunk_chars [] current len chunks =
     (if current \<noteq> [] then chunks @ [py_join '' '' current] else chunks)"
| "chunk_loop chunk_chars (word # words) current len chunks =
     (let added = length word + (if current \<noteq> [] then 1 else 0) in
      if current \<noteq> [] \<and> chunk_chars < len + added
      then chunk_loop chunk_chars words [word] (length word) (chunks @ [py_join '' '' current])
      else chunk_loop chunk_chars words (current @ [word]) (len + added) chunks)"

definition chunk_text :: "string \<Rightarrow> nat \<Rightarrow> string list" where
  "chunk_text content chunk_chars = chunk_loop chunk_chars (split_ws content) [] 0 []"

definition cosine :: "vec \<Rightarrow> vec \<Rightarrow> rat" where
  "cosine a b = sum_list (map2 (*) a b)"

section \<open>The store protocol and its two implementations\<close>

record 's retrieval_store =
  rs_index_document :: "document \<Rightarrow> document_chunk list \<Rightarrow> 's \<Rightarrow> 's"
  rs_query :: "string \<Rightarrow> vec \<Rightarrow> int \<Rightarrow> 's \<Rightarrow> retrieved_passage list"

definition passage_of :: "(vec \<Rightarrow> vec \<Rightarrow> rat) \<Rightarrow> vec \<Rightarrow> document_chunk \<Rightarrow> retrieved_passage" where
  "passage_of sim embedding c =
     \<lparr>rp_document_id = dc_document_id c, rp_chunk_id = dc_id c, rp_chunk_index = dc_chunk_index c,
      rp_content = dc_content c, rp_score = sim embedding (dc_embedding c)\<rparr>"

type_synonym mem_chunks = "(string, document_chunk) buckets"

record pg_chunks =
  pd_documents :: "document list"
  pd_chunks :: "document_chunk list"

definition mem_index_document :: "document \<Rightarrow> document_chunk list \<Rightarrow> mem_chunks \<Rightarrow> mem_chunks" where
  "mem_index_document document chunks s =
     s(do_tenant_id document \<mapsto> bucket s (do_tenant_id document) @ chunks)"

definition mem_chunk_query :: "string \<Rightarrow> vec \<Rightarrow> int \<Rightarrow> mem_chunks \<Rightarrow> retrieved_passage list" where
  "mem_chunk_query tenant_id embedding top_k s =
     (let scored = map (passage_of cosine embedding) (bucket s tenant_id)
      in slice_to top_k (sort_desc rp_score scored))"

definition InMemoryRetrievalStore :: "mem_chunks retrieval_store" where
  "InMemoryRetrievalStore = \<lparr>rs_index_document = mem_index_document, rs_query = mem_chunk_query\<rparr>"

definition pg_index_document :: "document \<Rightarrow> document_chunk list \<Rightarrow> pg_chunks \<Rightarrow> pg_chunks" where
  "pg_index_document document chunks s =
     s\<lparr>pd_documents := sql_insert do_id document (pd_documents s),
       pd_chunks := fold (sql_insert dc_id) chunks (pd_chunks s)\<rparr>"

text \<open>\<^verbatim>\<open>SELECT \<dots>, 1 - d AS score \<dots> ORDER BY d LIMIT k\<close> for the distance \<open>d\<close>.\<close>

definition pg_chunk_query ::
    "(vec \<Rightarrow> vec \<Rightarrow> rat) \<Rightarrow> string \<Rightarrow> vec \<Rightarrow> int \<Rightarrow> pg_chunks \<Rightarrow> retrieved_passage list" where
  "pg_chunk_query vdist tenant_id embedding top_k s =
     map (passage_of (\<lambda>q v. 1 - vdist v q) embedding)
       (slice_to top_k (sort_key (\<lambda>c. vdist (dc_embedding c) embedding)
         (filter (\<lambda>c. dc_tenant_id c = tenant_id) (pd_chunks s))))"

definition PostgresRetrievalStore :: "(vec \<Rightarrow> vec \<Rightarrow> rat) \<Rightarrow> pg_chunks retrieval_store" where
  "PostgresRetrievalStore vdist =
     \<lparr>rs_index_document = pg_index_document, rs_query = pg_chunk_query vdist\<rparr>"

section \<open>Handlers\<close>

definition required_text :: "dict \<Rightarrow> string \<Rightarrow> reply + string" where
  "required_text data k =
     (case dget_or data k (JStr []) of
        JStr s \<Rightarrow>
          if py_strip s = []
          then Inl (bad_request (quoted k @ '' is required and must be a non-empty string.''))
          else Inr s
      | _ \<Rightarrow> Inl (bad_request (quoted k @ '' is required and must be a non-empty string.'')))"

definition index_fields :: "json option \<Rightarrow> reply + string \<times> string list" where
  "index_fields body =
     (case body of
        None \<Rightarrow> Inl (bad_request ''Body is not valid JSON.'')
      | Some (JObj data) \<Rightarrow>
          (case required_text data ''title'' of
             Inl err \<Rightarrow> Inl err
           | Inr title \<Rightarrow>
               if RT_MAX_TITLE_LEN < length title
               then Inl (bad_request (quoted ''title'' @ '' must not exceed 256 characters.''))
               else
                 (case required_text data ''content'' of
                    Inl err \<Rightarrow> Inl err
                  | Inr content \<Rightarrow>
                      if MAX_DOCUMENT_CHARS < length content
                      then Inl (HTTP_TOO_LARGE, err_detail ''payload_too_large''
                                  (quoted ''content'' @ '' must not exceed 100000 characters.''))
                      else if MAX_CHUNKS_PER_DOCUMENT < length (chunk_text content CHUNK_CHARS)
                      then Inl (HTTP_TOO_LARGE, err_detail ''payload_too_large''
                                  ''document produces more than 400 chunks.'')
                      else Inr (title, chunk_text content CHUNK_CHARS)))
      | Some _ \<Rightarrow> Inl (bad_request ''Body must be a JSON object.''))"

text \<open>The chunk records of a document; \<open>cuid i\<close> is the UUID drawn for chunk \<open>i\<close>.\<close>

definition make_chunks ::
    "string \<Rightarrow> string \<Rightarrow> datetime \<Rightarrow> (nat \<Rightarrow> string) \<Rightarrow> string list \<Rightarrow> vec list \<Rightarrow> document_chunk list" where
  "make_chunks document_id tenant_id now cuid contents vectors =
     map (\<lambda>(i, text, vector).
            \<lparr>dc_id = cuid i, dc_document_id = document_id, dc_tenant_id = tenant_id,
             dc_chunk_index = i, dc_content = text, dc_embedding = vector, dc_created_at = now\<rparr>)
       (enumerate 0 (zip contents vectors))"

definition build_index_document_response ::
    "'s retrieval_store \<Rightarrow> 'n notif_store option \<Rightarrow> embedder \<Rightarrow> datetime \<Rightarrow> string \<Rightarrow> (nat \<Rightarrow> string)
       \<Rightarrow> string \<Rightarrow> string option \<Rightarrow> json option \<Rightarrow> verifier option \<Rightarrow> 's \<times> 'n \<Rightarrow> reply \<times> 's \<times> 'n" where
  "build_index_document_response store notification_store embedr now document_id cuid nuid
       authorization body token_verifier st =
     (case verify_and_extract authorization token_verifier of
        Inl err \<Rightarrow> (err, st)
      | Inr claims \<Rightarrow>
     (case index_fields body of
        Inl err \<Rightarrow> (err, st)
      | Inr (title, chunk_contents) \<Rightarrow>
     (case embedr chunk_contents of
        None \<Rightarrow> (embedding_unavailable, st)
      | Some vectors \<Rightarrow>
          let (tenant_id, user_id) = owner_of claims;
              chunks = make_chunks document_id tenant_id now cuid chunk_contents vectors;
              document = \<lparr>do_id = document_id, do_tenant_id = tenant_id, do_user_id = user_id,
                          do_title = py_strip title, do_created_at = now\<rparr>;
              (s, ns) = st
          in ((HTTP_CREATED, JObj [(''document_id'', JStr document_id),
                 (''title'', JStr (do_title document)), (''chunk_count'', JInt (int (length chunks)))]),
              rs_index_document store document chunks s,
              emit_event notification_store (tenant_id, user_id) INDEXING_EVENT_CLASS document_id
                nuid now ns))))"

definition TEXT_UPLOAD_TYPES :: "string set" where
  "TEXT_UPLOAD_TYPES =
     {''text/plain'', ''text/markdown'', ''text/x-markdown'', ''text/csv'', ''application/json'',
      ''application/xml'', ''text/xml''}"

text \<open>
  An uploaded body: its number of bytes and its UTF-8 text, \<^term>\<open>None\<close> where decoding raises.
  The object store is the parameter \<open>put\<close>; \<^term>\<open>None\<close> where it raises.
\<close>

record raw_body =
  rb_len :: nat
  rb_text :: "string option"

definition safe_name :: "string \<Rightarrow> string" where
  "safe_name filename = take 200 (map (\<lambda>c. if c = CHR ''/'' then CHR ''_'' else c) filename)"

definition upload_key :: "owner \<Rightarrow> string \<Rightarrow> string \<Rightarrow> string" where
  "upload_key who uid filename =
     ''uploads/'' @ fst who @ ''/'' @ snd who @ ''/'' @ uid @ ''/'' @ safe_name filename"

definition upload_ctype :: "string option \<Rightarrow> string" where
  "upload_ctype content_type =
     py_lower (py_strip (fst (split_char1 (CHR '';'') (case content_type of None \<Rightarrow> [] | Some c \<Rightarrow> c))))"

definition upload_checks ::
    "int \<Rightarrow> string option \<Rightarrow> string option \<Rightarrow> raw_body \<Rightarrow> reply + string \<times> string" where
  "upload_checks max_upload_bytes filename content_type body =
     (case filename of
        None \<Rightarrow> Inl (bad_request (quoted ''filename'' @ '' query param is required.''))
      | Some name \<Rightarrow>
          if name = [] then Inl (bad_request (quoted ''filename'' @ '' query param is required.''))
          else if rb_len body = 0 then Inl (bad_request ''file body is required.'')
          else if max_upload_bytes < int (rb_len body) then Inl (HTTP_TOO_LARGE, err_only ''file_too_large'')
          else
            let ctype = upload_ctype content_type in
            if ctype \<noteq> [] \<and> ctype \<notin> TEXT_UPLOAD_TYPES \<and> \<not> starts_with ''text/'' ctype
            then Inl (HTTP_UNSUPPORTED, err_detail ''unsupported_media_type''
                   ''Only text-based files can be indexed (binary/PDF extraction is not enabled).'')
            else (case rb_text body of
                    None \<Rightarrow> Inl (HTTP_UNSUPPORTED, err_only ''not_utf8_text'')
                  | Some text \<Rightarrow> Inr (name, text)))"

definition build_retrieval_upload_response ::
    "'s retrieval_store \<Rightarrow> 'n notif_store option \<Rightarrow> embedder
       \<Rightarrow> (string \<Rightarrow> raw_body \<Rightarrow> string \<Rightarrow> 'o \<Rightarrow> 'o option) option \<Rightarrow> int
       \<Rightarrow> datetime \<Rightarrow> string \<Rightarrow> (nat \<Rightarrow> string) \<Rightarrow> string \<Rightarrow> string
       \<Rightarrow> string option \<Rightarrow> string option \<Rightarrow> string option \<Rightarrow> raw_body \<Rightarrow> verifier option
       \<Rightarrow> ('s \<times> 'n) \<times> 'o \<Rightarrow> reply \<times> ('s \<times> 'n) \<times> 'o" where
  "build_retrieval_upload_response store notification_store embedr put max_upload_bytes
       now document_id cuid nuid fuid authorization filename content_type body token_verifier st =
     (case verify_and_extract authorization token_verifier of
        Inl err \<Rightarrow> (err, st)
      | Inr claims \<Rightarrow>
     (case upload_checks max_upload_bytes filename content_type body of
        Inl err \<Rightarrow> (err, st)
      | Inr (name, text) \<Rightarrow>
          let ctype = upload_ctype content_type;
              key = upload_key (owner_of claims) fuid name;
              (sn, ob) = st;
              (stored_key, ob') =
                (case put of
                   None \<Rightarrow> (None, ob)
                 | Some put_object \<Rightarrow>
                     (case put_object key body (if ctype = [] then ''text/plain'' else ctype) ob of
                        None \<Rightarrow> (None, ob)
                      | Some ob' \<Rightarrow> (Some key, ob')));
              index_body = JObj [(''title'', JStr (take RT_MAX_TITLE_LEN name)), (''content'', JStr text)];
              ((status, payload), sn') =
                build_index_document_response store notification_store embedr now document_id cuid nuid
                  authorization (Some index_body) token_verifier sn
          in ((status,
               (case payload of
                  JObj d \<Rightarrow> if status = HTTP_CREATED then JObj (dset d ''upload_key'' (jopt JStr stored_key))
                            else payload
                | _ \<Rightarrow> payload)), sn', ob')))"

text \<open>The query text and \<^verbatim>\<open>top_k\<close>, as the retrieval query and the memory recall read them.\<close>

definition query_fields :: "json option \<Rightarrow> reply + string \<times> int" where
  "query_fields body =
     (case body of
        None \<Rightarrow> Inl (bad_request ''Body is not valid JSON.'')
      | Some (JObj data) \<Rightarrow>
          (case required_text data ''query'' of
             Inl err \<Rightarrow> Inl err
           | Inr query \<Rightarrow>
               if MAX_QUERY_CHARS < length query
               then Inl (bad_request (quoted ''query'' @ '' must not exceed 2000 characters.''))
               else (case dget_or data ''top_k'' (JInt DEFAULT_TOP_K) of
                       JInt k \<Rightarrow> Inr (query, clamp_limit MAX_TOP_K k)
                     | _ \<Rightarrow> Inl (bad_request (quoted ''top_k'' @ '' must be an integer.''))))
      | Some _ \<Rightarrow> Inl (bad_request ''Body must be a JSON object.''))"

definition dimension_mismatch :: reply where
  "dimension_mismatch = (HTTP_SERVER_ERROR, err_detail ''internal_error'' ''embedding dimension mismatch.'')"

text \<open>\<^verbatim>\<open>embed_measured(client, [query])[0]\<close> raises \<^verbatim>\<open>IndexError\<close> on an empty answer.\<close>

definition build_retrieval_query_response ::
    "'s retrieval_store \<Rightarrow> embedder \<Rightarrow> string option \<Rightarrow> json option \<Rightarrow> verifier option \<Rightarrow> 's
       \<Rightarrow> py_exn + reply" where
  "build_retrieval_query_response store embedr authorization body token_verifier s =
     (case verify_and_extract authorization token_verifier of
        Inl err \<Rightarrow> Inr err
      | Inr claims \<Rightarrow>
     (case query_fields body of
        Inl err \<Rightarrow> Inr err
      | Inr (query, top_k) \<Rightarrow>
     (case embedr [query] of
        None \<Rightarrow> Inr embedding_unavailable
      | Some [] \<Rightarrow> Inl IndexError
      | Some (embedding # _) \<Rightarrow>
          if length embedding \<noteq> EMBEDDING_DIM then Inr dimension_mismatch
          else
            let passages = rs_query store (extract_tenant_id claims) embedding top_k s
            in Inr (HTTP_OK, JObj [(''results'', JArr (map passage_to_api_dict passages)),
                                   (''count'', JInt (int (length passages)))]))))"

section \<open>Chunking lemmas\<close>

definition word_ok :: "string \<Rightarrow> bool" where
  "word_ok w \<longleftrightarrow> w \<noteq> [] \<and> list_all (\<lambda>c. \<not> is_space c) w"

lemma is_space_space [simp]: "is_space (CHR '' '')"
  by (simp add: is_space_def ord_of_def)

lemma lstrip_nonspace: "s \<noteq> [] \<Longrightarrow> \<not> is_space (hd s) \<Longrightarrow> py_lstrip s = s"
  by (cases s) (simp_all add: py_lstrip_def)

lemma split_ws_words: "w \<in> set (split_ws s) \<Longrightarrow> word_ok w"
proof (induction s rule: split_ws.induct)
  case (1 s)
  let ?t = "py_lstrip s"
  show ?case
  proof (cases "?t = []")
    case True
    with 1 show ?thesis by (subst (asm) (2) split_ws.simps) simp
  next
    case False
    then have "\<not> is_space (hd ?t)"
      by (metis hd_dropWhile py_lstrip_def)
    with False have "takeWhile (\<lambda>c. \<not> is_space c) ?t \<noteq> []"
      by (cases ?t) auto
    then have "word_ok (takeWhile (\<lambda>c. \<not> is_space c) ?t)"
      by (auto simp: word_ok_def list_all_iff dest: set_takeWhileD)
    moreover have "w = takeWhile (\<lambda>c. \<not> is_space c) ?t \<or>
        w \<in> set (split_ws (dropWhile (\<lambda>c. \<not> is_space c) ?t))"
      using 1(2) False by (subst (asm) split_ws.simps) (simp add: Let_def)
    ultimately show ?thesis
      using 1(1) False by blast
  qed
qed

lemma takeWhile_word: "list_all P w \<Longrightarrow> \<not> P c \<Longrightarrow> takeWhile P (w @ c # r) = w"
  by (induction w) auto

lemma dropWhile_word: "list_all P w \<Longrightarrow> \<not> P c \<Longrightarrow> dropWhile P (w @ c # r) = c # r"
  by (induction w) auto

lemma takeWhile_word0: "list_all P w \<Longrightarrow> takeWhile P w = w"
  by (induction w) auto

lemma dropWhile_word0: "list_all P w \<Longrightarrow> dropWhile P w = []"
  by (induction w) auto

lemma split_ws_Nil [simp]: "split_ws [] = []"
  by (subst split_ws.simps) (simp add: py_lstrip_def)

lemma split_ws_space: "split_ws (CHR '' '' # r) = split_ws r"
  using split_ws.simps [of "CHR '' '' # r"] split_ws.simps [of r] by (simp add: py_lstrip_def)

lemma split_ws_word:
  assumes "word_ok w"
  shows "split_ws w = [w]" and "split_ws (w @ CHR '' '' # r) = w # split_ws r"
proof -
  have w: "w \<noteq> []" "list_all (\<lambda>c. \<not> is_space c) w" "\<not> is_space (hd w)"
    using assms by (cases w; auto simp: word_ok_def)+
  have "py_lstrip w = w" and "py_lstrip (w @ CHR '' '' # r) = w @ CHR '' '' # r"
    using w by (auto intro!: lstrip_nonspace)
  then show "split_ws w = [w]" and "split_ws (w @ CHR '' '' # r) = w # split_ws r"
    using w by (subst split_ws.simps,
        simp add: Let_def takeWhile_word dropWhile_word takeWhile_word0 dropWhile_word0 split_ws_space)+
qed

text \<open>Joining words with blanks and splitting again gives the words back.\<close>

lemma split_join: "list_all word_ok ws \<Longrightarrow> split_ws (py_join '' '' ws) = ws"
proof (induction ws rule: induct_list012)
  case (3 w v ws)
  then show ?case by (simp add: split_ws_word)
qed (simp_all add: split_ws_word)

lemma length_join: "length (py_join '' '' ws) = sum_list (map length ws) + (length ws - 1)"
  by (induction ws rule: induct_list012) auto

lemma length_join_snoc:
  "length (py_join '' '' (ws @ [w])) =
     length (py_join '' '' ws) + length w + (if ws \<noteq> [] then 1 else 0)"
  unfolding length_join by (cases ws) auto

text \<open>What the greedy packing keeps: the words in order, and the bound on a chunk.\<close>

definition chunk_ok :: "nat \<Rightarrow> string \<Rightarrow> bool" where
  "chunk_ok n c \<longleftrightarrow> (\<exists>w. word_ok w \<and> c = w) \<or> length c \<le> n"

lemma chunk_loop_spec:
  assumes "list_all word_ok words" and "list_all word_ok current"
    and "len = length (py_join '' '' current)" and "length current \<le> 1 \<or> len \<le> n"
  shows "\<exists>packs. chunk_loop n words current len chunks = chunks @ map (py_join '' '') packs \<and>
           concat packs = current @ words \<and>
           (\<forall>p \<in> set packs. p \<noteq> [] \<and> (length p \<le> 1 \<or> length (py_join '' '' p) \<le> n))"
  using assms
proof (induction n words current len chunks rule: chunk_loop.induct)
  case (1 n current len chunks)
  show ?case
  proof (cases "current = []")
    case True
    then show ?thesis by (intro exI [of _ "[]"]) simp
  next
    case False
    with 1 show ?thesis by (intro exI [of _ "[current]"]) auto
  qed
next
  case (2 n word words current len chunks)
  show ?case
  proof (cases "current \<noteq> [] \<and> n < len + (length word + (if current \<noteq> [] then 1 else 0))")
    case True
    then obtain packs where p: "chunk_loop n words [word] (length word) (chunks @ [py_join '' '' current])
          = (chunks @ [py_join '' '' current]) @ map (py_join '' '') packs"
        "concat packs = [word] @ words"
        "\<forall>p \<in> set packs. p \<noteq> [] \<and> (length p \<le> 1 \<or> length (py_join '' '' p) \<le> n)"
      using 2(1) [OF refl True] 2(3) by auto
    show ?thesis
      by (rule exI [of _ "current # packs"]) (use True p 2(5,6) in \<open>auto simp: Let_def\<close>)
  next
    case False
    have "length (current @ [word]) \<le> 1 \<or> len + (length word + (if current \<noteq> [] then 1 else 0)) \<le> n"
      using False by auto
    moreover have "len + (length word + (if current \<noteq> [] then 1 else 0)) =
        length (py_join '' '' (current @ [word]))"
      unfolding 2(5) length_join_snoc by simp
    ultimately have "\<exists>packs. chunk_loop n words (current @ [word])
          (len + (length word + (if current \<noteq> [] then 1 else 0))) chunks
          = chunks @ map (py_join '' '') packs \<and> concat packs = (current @ [word]) @ words \<and>
        (\<forall>p \<in> set packs. p \<noteq> [] \<and> (length p \<le> 1 \<or> length (py_join '' '' p) \<le> n))"
      using 2(2) [OF refl False] 2(3,4) by auto
    moreover have "chunk_loop n (word # words) current len chunks =
        chunk_loop n words (current @ [word]) (len + (length word + (if current \<noteq> [] then 1 else 0))) chunks"
      by (simp only: chunk_loop.simps Let_def False if_False)
    ultimately show ?thesis by simp
  qed
qed

lemma chunk_text_packs:
  "\<exists>packs. chunk_text content n = map (py_join '' '') packs \<and> concat packs = split_ws content \<and>
     (\<forall>p \<in> set packs. p \<noteq> [] \<and> (length p \<le> 1 \<or> length (py_join '' '' p) \<le> n))"
  using chunk_loop_spec [of "split_ws content" "[]" 0 n "[]"] split_ws_words [of _ content]
  by (auto simp: chunk_text_def list_all_iff)

section \<open>The contract\<close>

definition fresh_chunks ::
    "('s \<Rightarrow> string \<Rightarrow> document_chunk list) \<Rightarrow> 's \<Rightarrow> document_chunk list \<Rightarrow> bool" where
  "fresh_chunks view s chunks \<longleftrightarrow>
     distinct (map dc_id chunks) \<and> (\<forall>t. dc_id ` set chunks \<inter> dc_id ` set (view s t) = {})"

locale retrieval_contract =
  fixes view :: "'s \<Rightarrow> string \<Rightarrow> document_chunk list"
    and inv :: "'s \<Rightarrow> bool"
    and store :: "'s retrieval_store"
    and sim :: "vec \<Rightarrow> vec \<Rightarrow> rat"
  assumes view_tenant: "inv s \<Longrightarrow> c \<in> set (view s t) \<Longrightarrow> dc_tenant_id c = t"
    and inv_index: "inv s \<Longrightarrow> \<forall>c \<in> set chunks. dc_tenant_id c = do_tenant_id d \<Longrightarrow>
      inv (rs_index_document store d chunks s)"
    and view_index: "inv s \<Longrightarrow> fresh_chunks view s chunks \<Longrightarrow>
      \<forall>c \<in> set chunks. dc_tenant_id c = do_tenant_id d \<Longrightarrow>
      view (rs_index_document store d chunks s) t =
        view s t @ (if t = do_tenant_id d then chunks else [])"
    and query_view: "inv s \<Longrightarrow> rs_query store t q k s =
      slice_to k (sort_desc rp_score (map (passage_of sim q) (view s t)))"

definition mem_chunks_ok :: "mem_chunks \<Rightarrow> bool" where
  "mem_chunks_ok s \<longleftrightarrow> (\<forall>t. \<forall>c \<in> set (bucket s t). dc_tenant_id c = t)"

definition pg_chunk_view :: "pg_chunks \<Rightarrow> string \<Rightarrow> document_chunk list" where
  "pg_chunk_view s t = filter (\<lambda>c. dc_tenant_id c = t) (pd_chunks s)"

lemma fold_sql_insert:
  assumes "distinct (map ident xs)" and "ident ` set xs \<inter> ident ` set rows = {}"
  shows "fold (sql_insert ident) xs rows = rows @ xs"
  using assms
proof (induction xs arbitrary: rows)
  case (Cons x xs)
  have "fold (sql_insert ident) xs (rows @ [x]) = (rows @ [x]) @ xs"
    using Cons.prems by (intro Cons.IH) auto
  moreover have "sql_insert ident x rows = rows @ [x]"
    using Cons.prems by (auto simp: sql_insert_def)
  ultimately show ?case by simp
qed simp

interpretation mem_chunks: retrieval_contract bucket mem_chunks_ok InMemoryRetrievalStore cosine
proof
  fix s :: mem_chunks and d :: document and chunks :: "document_chunk list" and t q k
  show "dc_tenant_id c = t" if "mem_chunks_ok s" "c \<in> set (bucket s t)" for c
    using that unfolding mem_chunks_ok_def by blast
  show "mem_chunks_ok (rs_index_document InMemoryRetrievalStore d chunks s)"
    if "mem_chunks_ok s" "\<forall>c \<in> set chunks. dc_tenant_id c = do_tenant_id d"
    using that unfolding mem_chunks_ok_def InMemoryRetrievalStore_def mem_index_document_def
    by (simp, blast)
qed (simp_all add: InMemoryRetrievalStore_def mem_index_document_def mem_chunk_query_def)

interpretation pg_chunks: retrieval_contract
  pg_chunk_view "\<lambda>_. True" "PostgresRetrievalStore vdist" "\<lambda>q v. 1 - vdist v q" for vdist
proof
  fix s :: pg_chunks and d :: document and chunks :: "document_chunk list" and t q k
  show "pg_chunk_view (rs_index_document (PostgresRetrievalStore vdist) d chunks s) t =
      pg_chunk_view s t @ (if t = do_tenant_id d then chunks else [])"
    if "fresh_chunks pg_chunk_view s chunks" "\<forall>c \<in> set chunks. dc_tenant_id c = do_tenant_id d"
  proof -
    have "dc_id c \<notin> dc_id ` set chunks" if "c \<in> set (pd_chunks s)" for c
    proof -
      have "dc_id c \<in> dc_id ` set (pg_chunk_view s (dc_tenant_id c))"
        using that by (simp add: pg_chunk_view_def)
      with \<open>fresh_chunks pg_chunk_view s chunks\<close> show ?thesis
        unfolding fresh_chunks_def by blast
    qed
    then have "fold (sql_insert dc_id) chunks (pd_chunks s) = pd_chunks s @ chunks"
    proof (intro fold_sql_insert)
      show "distinct (map dc_id chunks)"
        using that(1) by (simp add: fresh_chunks_def)
    qed (auto, metis imageI)
    moreover have "filter (\<lambda>c. dc_tenant_id c = t) chunks = (if t = do_tenant_id d then chunks else [])"
      using that(2) by (induction chunks) auto
    ultimately show ?thesis
      by (simp add: PostgresRetrievalStore_def pg_index_document_def pg_chunk_view_def)
  qed
  show "rs_query (PostgresRetrievalStore vdist) t q k s =
      slice_to k (sort_desc rp_score (map (passage_of (\<lambda>q v. 1 - vdist v q) q) (pg_chunk_view s t)))"
  proof -
    let ?p = "passage_of (\<lambda>q v. 1 - vdist v q) q"
    have "sort_key (\<lambda>c. vdist (dc_embedding c) q) xs = sort_key (\<lambda>c. - rp_score (?p c)) xs" for xs
      by (rule sort_key_mono) (simp add: passage_of_def)
    then have "map ?p (sort_key (\<lambda>c. vdist (dc_embedding c) q) xs) = sort_desc rp_score (map ?p xs)" for xs
      using sort_key_map [of ?p "\<lambda>x. - rp_score x" xs] by (simp add: sort_desc_def)
    then show ?thesis
      by (simp add: PostgresRetrievalStore_def pg_chunk_query_def pg_chunk_view_def
          slice_to_map [symmetric])
  qed
qed (simp_all add: pg_chunk_view_def)

section \<open>What the handlers keep\<close>

lemma make_chunks_tenant: "c \<in> set (make_chunks d t now cuid cs vs) \<Longrightarrow> dc_tenant_id c = t"
  by (auto simp: make_chunks_def)

lemma make_chunks_ids:
  "map dc_id (make_chunks d t now cuid cs vs) = map cuid [0..<min (length cs) (length vs)]"
proof -
  have "map dc_id (make_chunks d t now cuid cs vs) = map cuid (map fst (enumerate 0 (zip cs vs)))"
    by (simp add: make_chunks_def split_beta comp_def del: map_fst_enumerate)
  also have "map fst (enumerate 0 (zip cs vs)) = [0..<min (length cs) (length vs)]"
    by simp
  finally show ?thesis .
qed

lemma make_chunks_content:
  assumes "length vs = length cs"
  shows "map dc_content (make_chunks d t now cuid cs vs) = cs"
proof -
  have "map dc_content (make_chunks d t now cuid cs vs) = map fst (map snd (enumerate 0 (zip cs vs)))"
    by (simp add: make_chunks_def split_beta comp_def del: map_snd_enumerate)
  then show ?thesis using assms by simp
qed

lemma make_chunks_length: "length (make_chunks d t now cuid cs vs) = min (length cs) (length vs)"
  by (simp add: make_chunks_def)

definition cuid_fresh ::
    "('s \<Rightarrow> string \<Rightarrow> document_chunk list) \<Rightarrow> 's \<Rightarrow> (nat \<Rightarrow> string) \<Rightarrow> bool" where
  "cuid_fresh view s cuid \<longleftrightarrow> inj cuid \<and> (\<forall>i t. cuid i \<notin> dc_id ` set (view s t))"

lemma cuid_fresh_chunks:
  assumes "cuid_fresh view s cuid"
  shows "fresh_chunks view s (make_chunks d t now cuid cs vs)"
proof -
  have "distinct (map cuid [0..<n])" for n
    using assms unfolding cuid_fresh_def distinct_map by (auto intro: inj_on_subset)
  then have "distinct (map dc_id (make_chunks d t now cuid cs vs))"
    unfolding make_chunks_ids .
  moreover have "dc_id ` set (make_chunks d t now cuid cs vs) \<subseteq> range cuid"
    unfolding set_map [symmetric] make_chunks_ids by auto
  moreover have "range cuid \<inter> dc_id ` set (view s t) = {}" for t
    using assms by (auto simp: cuid_fresh_def)
  ultimately show ?thesis
    unfolding fresh_chunks_def by fastforce
qed

lemma required_text_Inl: "required_text d k = Inl err \<Longrightarrow> fst err = 400"
  by (auto simp: required_text_def split: json.splits if_splits)

lemma index_fields_Inl: "index_fields b = Inl err \<Longrightarrow> fst err \<in> {400, 413}"
  by (auto simp: index_fields_def split: option.splits json.splits sum.splits if_splits
      dest: required_text_Inl)

context retrieval_contract
begin

text \<open>An index request leaves the store as it is, or adds the caller's chunks to its tenant.\<close>

lemma index_effect:
  assumes "inv s" and "cuid_fresh view s cuid"
    and "build_index_document_response store nst embedr now did cuid nuid a b v (s, ns) = (r, s', ns')"
  shows "(s' = s \<and> fst r \<noteq> HTTP_CREATED) \<or>
         (\<exists>claims title contents vectors.
            verify_and_extract a v = Inr claims \<and> index_fields b = Inr (title, contents) \<and>
            embedr contents = Some vectors \<and> fst r = HTTP_CREATED \<and> inv s' \<and>
            (\<forall>t. view s' t = view s t @ (if t = extract_tenant_id claims
               then make_chunks did (extract_tenant_id claims) now cuid contents vectors else [])))"
proof -
  consider (auth) err where "verify_and_extract a v = Inl err"
    | (fields) claims err where "verify_and_extract a v = Inr claims" "index_fields b = Inl err"
    | (embedr) claims title contents where "verify_and_extract a v = Inr claims"
        "index_fields b = Inr (title, contents)" "embedr contents = None"
    | (ok) claims title contents vectors where "verify_and_extract a v = Inr claims"
        "index_fields b = Inr (title, contents)" "embedr contents = Some vectors"
    by (cases "verify_and_extract a v"; cases "index_fields b"; force)
  then show ?thesis
  proof cases
    case auth
    then show ?thesis
      using assms(3) auth_error_status [OF auth] by (auto simp: build_index_document_response_def)
  next
    case fields
    show ?thesis
      using assms(3) fields index_fields_Inl [OF fields(2)] by (auto simp: build_index_document_response_def)
  next
    case embedr
    then show ?thesis
      using assms(3) by (auto simp: build_index_document_response_def embedding_unavailable_def)
  next
    case ok
    let ?chunks = "make_chunks did (extract_tenant_id claims) now cuid contents vectors"
    let ?d = "\<lparr>do_id = did, do_tenant_id = extract_tenant_id claims, do_user_id = tc_subject claims,
               do_title = py_strip title, do_created_at = now\<rparr>"
    have s': "s' = rs_index_document store ?d ?chunks s" and "fst r = HTTP_CREATED"
      using assms(3) ok by (auto simp: build_index_document_response_def owner_of_def Let_def)
    have t: "\<forall>c \<in> set ?chunks. dc_tenant_id c = do_tenant_id ?d"
      by (simp add: make_chunks_tenant)
    show ?thesis
      using ok \<open>fst r = HTTP_CREATED\<close> inv_index [OF assms(1) t]
        view_index [OF assms(1) cuid_fresh_chunks [OF assms(2)] t]
      unfolding s' by auto
  qed
qed

lemma query_best:
  assumes "inv s" and "0 \<le> k"
  shows "length (rs_query store t q k s) = min (nat k) (length (view s t))"
    and "sorted (map (\<lambda>p. - rp_score p) (rs_query store t q k s))"
    and "p \<in> set (rs_query store t q k s) \<Longrightarrow> \<exists>c \<in> set (view s t). p = passage_of sim q c \<and> dc_tenant_id c = t"
    and "p \<in> set (rs_query store t q k s) \<Longrightarrow> c \<in> set (view s t) \<Longrightarrow>
         passage_of sim q c \<notin> set (rs_query store t q k s) \<Longrightarrow> sim q (dc_embedding c) \<le> rp_score p"
proof -
  note qv = query_view [OF assms(1)]
  show "length (rs_query store t q k s) = min (nat k) (length (view s t))"
    using assms(2) by (simp add: qv slice_to_def)
  show "sorted (map (\<lambda>p. - rp_score p) (rs_query store t q k s))"
    unfolding qv by (rule slice_desc_sorted)
  show "\<exists>c \<in> set (view s t). p = passage_of sim q c \<and> dc_tenant_id c = t"
    if "p \<in> set (rs_query store t q k s)"
    using that set_slice_to [of k "sort_desc rp_score (map (passage_of sim q) (view s t))"]
      view_tenant [OF assms(1)] unfolding qv by auto
  show "sim q (dc_embedding c) \<le> rp_score p" if "p \<in> set (rs_query store t q k s)"
    "c \<in> set (view s t)" "passage_of sim q c \<notin> set (rs_query store t q k s)"
    using slice_desc_best [of p k rp_score "map (passage_of sim q) (view s t)" "passage_of sim q c"] that
    unfolding qv by (auto simp: passage_of_def)
qed

end

section \<open>Properties\<close>

text \<open>Chunking loses and reorders nothing: splitting the chunks of a text on blanks gives the
  words of the text, in order; no chunk is empty, and a chunk longer than the limit is a single
  word.\<close>

theorem chunk_text_sound:
  "concat (map split_ws (chunk_text content n)) = split_ws content \<and>
   (\<forall>c \<in> set (chunk_text content n). c \<noteq> [] \<and> (length c \<le> n \<or> split_ws c = [c]))"
proof -
  obtain packs where p: "chunk_text content n = map (py_join '' '') packs"
    "concat packs = split_ws content"
    "\<forall>p \<in> set packs. p \<noteq> [] \<and> (length p \<le> 1 \<or> length (py_join '' '' p) \<le> n)"
    using chunk_text_packs by blast
  have words: "list_all word_ok q" if "q \<in> set packs" for q
  proof -
    have "set q \<subseteq> set (split_ws content)"
      using that unfolding p(2) [symmetric] by auto
    then show ?thesis
      using split_ws_words by (auto simp: list_all_iff)
  qed
  have "map (\<lambda>q. split_ws (py_join '' '' q)) packs = packs"
    using words split_join by (intro map_idI) auto
  then have "concat (map split_ws (chunk_text content n)) = split_ws content"
    using p(1,2) by (simp add: comp_def)
  moreover have "c \<noteq> [] \<and> (length c \<le> n \<or> split_ws c = [c])" if c: "c \<in> set (chunk_text content n)" for c
  proof -
    obtain q where q: "q \<in> set packs" "c = py_join '' '' q"
      using c p(1) by auto
    then have f: "q \<noteq> []" "split_ws c = q" "length q \<le> 1 \<or> length c \<le> n"
      using p(3) words split_join [of q] by auto
    moreover have "c \<noteq> []"
      using f(1,2) by (cases "c = []") simp_all
    moreover have "q = [c]" if "length q \<le> 1"
      using that f(1) q(2) by (cases q) auto
    ultimately show ?thesis by auto
  qed
  ultimately show ?thesis by blast
qed

lemma chunk_text_sound_witness:
  "concat (map split_ws (chunk_text ''ab cd ef'' 5)) = [''ab'', ''cd'', ''ef''] \<and>
   list_all (\<lambda>c. c \<noteq> []) (chunk_text ''ab cd ef'' 5)"
proof -
  have "split_ws ''ab cd ef'' = [''ab'', ''cd'', ''ef'']"
    by code_simp
  with chunk_text_sound [of "''ab cd ef''" 5] show ?thesis by (auto simp: list_all_iff)
qed

text \<open>Indexing writes to the caller's tenant only: whatever the request, either the store is
  as it was (and the answer is not 201), or the answer is 201 and the caller's tenant has gained
  exactly the chunks of its text, in order, and no other tenant anything; in both stores.\<close>

theorem index_tenant_scoped:
  assumes "\<forall>cs vs. embedr cs = Some vs \<longrightarrow> length vs = length cs"
  shows "(mem_chunks_ok m \<and> cuid_fresh bucket m cuid \<and>
          build_index_document_response InMemoryRetrievalStore nst embedr now did cuid nuid a b v (m, ns)
            = (r, m', ns') \<longrightarrow>
          (m' = m \<and> fst r \<noteq> HTTP_CREATED) \<or>
          (\<exists>claims title contents new. verify_and_extract a v = Inr claims \<and>
             index_fields b = Inr (title, contents) \<and> fst r = HTTP_CREATED \<and>
             map dc_content new = contents \<and>
             (\<forall>t. bucket m' t = bucket m t @ (if t = extract_tenant_id claims then new else [])))) \<and>
         (cuid_fresh pg_chunk_view p cuid \<and>
          build_index_document_response (PostgresRetrievalStore vdist) nst embedr now did cuid nuid a b v (p, ns)
            = (r, p', ns') \<longrightarrow>
          (p' = p \<and> fst r \<noteq> HTTP_CREATED) \<or>
          (\<exists>claims title contents new. verify_and_extract a v = Inr claims \<and>
             index_fields b = Inr (title, contents) \<and> fst r = HTTP_CREATED \<and>
             map dc_content new = contents \<and>
             (\<forall>t. pg_chunk_view p' t =
                pg_chunk_view p t @ (if t = extract_tenant_id claims then new else []))))"
proof -
  have content: "map dc_content (make_chunks did t now cuid cs vs) = cs"
    if "embedr cs = Some vs" for t cs vs
    using assms that by (simp add: make_chunks_content)
  show ?thesis
    using mem_chunks.index_effect [of m cuid nst embedr now did nuid a b v ns r m' ns']
      pg_chunks.index_effect [of p cuid vdist nst embedr now did nuid a b v ns r p' ns'] content
    by blast
qed

definition zero_embed :: embedder where
  "zero_embed texts = Some (map (\<lambda>_. replicate EMBEDDING_DIM 0) texts)"

theorem index_tenant_scoped_witness:
  "let (r, m', _) = build_index_document_response InMemoryRetrievalStore None zero_embed 0 ''d''
        str_nat ''n'' (Some ''Bearer ta'') (Some (JObj [])) (Some two_users) (Map.empty, ())
   in m' = Map.empty \<and> fst r \<noteq> HTTP_CREATED"
proof -
  let ?x = "build_index_document_response InMemoryRetrievalStore None zero_embed 0 ''d''
        (\<lambda>i. replicate i (CHR ''x'')) ''n'' (Some ''Bearer ta'') (Some (JObj [])) (Some two_users)
        (Map.empty, ())"
  obtain r m' ns where x: "?x = (r, m', ns)" by (cases ?x) auto
  have "index_fields (Some (JObj [])) = Inl (bad_request (quoted ''title'' @ '' is required and must be a non-empty string.''))"
    by (simp add: index_fields_def required_text_def)
  moreover have "inj (\<lambda>i. replicate i (CHR ''x''))"
    by (rule injI) (metis length_replicate)
  ultimately have "m' = Map.empty \<and> fst r \<noteq> HTTP_CREATED"
    using index_tenant_scoped [of zero_embed Map.empty "\<lambda>i. replicate i (CHR ''x'')" None 0 "''d''"
        "''n''" "Some ''Bearer ta''" "Some (JObj [])" "Some two_users" "()" r m' ns] x
    by (auto simp: zero_embed_def mem_chunks_ok_def cuid_fresh_def)
  then show ?thesis
    using x by (simp add: build_index_document_response_def index_fields_def required_text_def)
qed

text \<open>C40: A query returns the best passages of the caller's tenant and nothing else: at most
  \<open>k\<close> of them and as many as there are, in descending order of score, each one a stored chunk of
  that tenant with its score, and no chunk left out scores higher than one returned; in both
  stores, for any distance operator of the database.\<close>

theorem query_tenant_best:
  assumes "0 \<le> k"
  shows "(mem_chunks_ok m \<longrightarrow>
           length (mem_chunk_query t q k m) = min (nat k) (length (bucket m t)) \<and>
           sorted (map (\<lambda>p. - rp_score p) (mem_chunk_query t q k m)) \<and>
           (\<forall>p \<in> set (mem_chunk_query t q k m).
              (\<exists>c \<in> set (bucket m t). p = passage_of cosine q c \<and> dc_tenant_id c = t) \<and>
              (\<forall>c \<in> set (bucket m t). passage_of cosine q c \<notin> set (mem_chunk_query t q k m) \<longrightarrow>
                 cosine q (dc_embedding c) \<le> rp_score p))) \<and>
         length (pg_chunk_query vdist t q k s) = min (nat k) (length (pg_chunk_view s t)) \<and>
         sorted (map (\<lambda>p. - rp_score p) (pg_chunk_query vdist t q k s)) \<and>
         (\<forall>p \<in> set (pg_chunk_query vdist t q k s).
            (\<exists>c \<in> set (pg_chunk_view s t). p = passage_of (\<lambda>q v. 1 - vdist v q) q c \<and> dc_tenant_id c = t) \<and>
            (\<forall>c \<in> set (pg_chunk_view s t).
               passage_of (\<lambda>q v. 1 - vdist v q) q c \<notin> set (pg_chunk_query vdist t q k s) \<longrightarrow>
               1 - vdist (dc_embedding c) q \<le> rp_score p))"
  using mem_chunks.query_best [OF _ assms, where s = m and t = t and q = q]
    pg_chunks.query_best [OF TrueI assms, where vdist = vdist and t = t and q = q and s = s]
  by (simp add: InMemoryRetrievalStore_def PostgresRetrievalStore_def)

definition example_chunk :: document_chunk where
  "example_chunk = \<lparr>dc_id = ''k'', dc_document_id = ''d'', dc_tenant_id = ''a.io'', dc_chunk_index = 0,
     dc_content = ''hello'', dc_embedding = [1], dc_created_at = 0\<rparr>"

theorem query_tenant_best_witness:
  "length (mem_chunk_query ''a.io'' [1] 5 [''a.io'' \<mapsto> [example_chunk]]) = 1"
  using query_tenant_best [of 5 "[''a.io'' \<mapsto> [example_chunk]]" "''a.io''" "[1]" "\<lambda>_ _. 0"
      "\<lparr>pd_documents = [], pd_chunks = []\<rparr>"]
  by (auto simp: mem_chunks_ok_def example_chunk_def bucket_def)

text \<open>An uploaded file is stored under the caller's prefix: its object key is the caller's
  tenant and user, the fresh id, and a file part of at most 200 characters without a slash, so no
  file name reaches another prefix.\<close>

theorem upload_key_scoped:
  "\<exists>name. upload_key who uid filename =
       ''uploads/'' @ fst who @ ''/'' @ snd who @ ''/'' @ uid @ ''/'' @ name \<and>
     CHR ''/'' \<notin> set name \<and> length name \<le> 200"
  by (rule exI [of _ "safe_name filename"])
    (auto simp: upload_key_def safe_name_def dest!: in_set_takeD split: if_splits)

end
