(* ===== verification/Memory.thy ===== *)
theory Memory
  imports Retrieval
begin

text \<open>
  Per-user memory (app/control_plane/memory.py): the store protocol with its in-memory and
  pgvector implementations, the contract both keep (locale \<open>memory_store_contract\<close>) and the
  record, list, recall and delete handlers.  The query and \<^verbatim>\<open>top_k\<close> checks of recall are those of
  the retrieval query (\<open>query_fields\<close>), which the source repeats.
\<close>

section \<open>Data\<close>

definition MAX_MEMORY_CHARS :: nat where "MAX_MEMORY_CHARS = 10000"
definition MEMORY_MAX_LIST_LIMIT :: int where "MEMORY_MAX_LIST_LIMIT = 200"

record memory =
  me_id :: string
  me_tenant_id :: string
  me_user_id :: string
  me_content :: string
  me_created_at :: datetime

record recalled_memory =
  rm_memory :: memory
  rm_score :: rat

definition me_owner :: "memory \<Rightarrow> owner" where
  "me_owner m = (me_tenant_id m, me_user_id m)"

definition memory_fields_json :: "memory \<Rightarrow> dict" where
  "memory_fields_json m =
     [(''id'', JStr (me_id m)), (''content'', JStr (me_content m)),
      (''created_at'', JStr (isoformat (me_created_at m)))]"

definition memory_to_api_dict :: "memory \<Rightarrow> json" where
  "memory_to_api_dict m = JObj (memory_fields_json m)"

definition recalled_to_api_dict :: "recalled_memory \<Rightarrow> json" where
  "recalled_to_api_dict r =
     JObj (memory_fields_json (rm_memory r) @ [(''score'', JFloat (Fin (round6 (rm_score r))))])"

text \<open>A stored item: the memory and its embedding.\<close>

type_synonym stored_memory = "memory \<times> vec"

definition sm_owner :: "stored_memory \<Rightarrow> owner" where "sm_owner x = me_owner (fst x)"
definition sm_id :: "stored_memory \<Rightarrow> string" where "sm_id x = me_id (fst x)"

section \<open>The store protocol and its two implementations\<close>

record 's memory_store =
  mm_record :: "memory \<Rightarrow> vec \<Rightarrow> 's \<Rightarrow> 's"
  mm_list_for_user :: "owner \<Rightarrow> int \<Rightarrow> 's \<Rightarrow> memory list"
  mm_recall :: "owner \<Rightarrow> vec \<Rightarrow> int \<Rightarrow> 's \<Rightarrow> recalled_memory list"
  mm_delete :: "owner \<Rightarrow> string \<Rightarrow> 's \<Rightarrow> bool \<times> 's"

type_synonym mem_memories = "(owner, stored_memory) buckets"
type_synonym pg_memories = "stored_memory list"

definition recalled :: "(vec \<Rightarrow> vec \<Rightarrow> rat) \<Rightarrow> vec \<Rightarrow> stored_memory \<Rightarrow> recalled_memory" where
  "recalled sim embedding x = \<lparr>rm_memory = fst x, rm_score = sim embedding (snd x)\<rparr>"

definition mem_memory_record :: "memory \<Rightarrow> vec \<Rightarrow> mem_memories \<Rightarrow> mem_memories" where
  "mem_memory_record m embedding s = bucket_append s (me_owner m) (m, embedding)"

definition mem_memory_list :: "owner \<Rightarrow> int \<Rightarrow> mem_memories \<Rightarrow> memory list" where
  "mem_memory_list who limit s = slice_to limit (rev (map fst (bucket s who)))"

definition mem_memory_recall :: "owner \<Rightarrow> vec \<Rightarrow> int \<Rightarrow> mem_memories \<Rightarrow> recalled_memory list" where
  "mem_memory_recall who embedding top_k s =
     (let scored = map (recalled cosine embedding) (bucket s who)
      in slice_to top_k (sort_desc rm_score scored))"

definition mem_memory_delete :: "owner \<Rightarrow> string \<Rightarrow> mem_memories \<Rightarrow> bool \<times> mem_memories" where
  "mem_memory_delete who memory_id s = bucket_delete s who (\<lambda>x. me_id (fst x) = memory_id)"

definition InMemoryMemoryStore :: "mem_memories memory_store" where
  "InMemoryMemoryStore =
     \<lparr>mm_record = mem_memory_record, mm_list_for_user = mem_memory_list,
      mm_recall = mem_memory_recall, mm_delete = mem_memory_delete\<rparr>"

definition pg_memory_record :: "memory \<Rightarrow> vec \<Rightarrow> pg_memories \<Rightarrow> pg_memories" where
  "pg_memory_record m embedding rows = sql_insert sm_id (m, embedding) rows"

definition pg_memory_list :: "owner \<Rightarrow> int \<Rightarrow> pg_memories \<Rightarrow> memory list" where
  "pg_memory_list who limit rows =
     map fst (sql_select_desc (\<lambda>x. sm_owner x = who) (\<lambda>x. me_created_at (fst x)) limit rows)"

definition pg_memory_recall ::
    "(vec \<Rightarrow> vec \<Rightarrow> rat) \<Rightarrow> owner \<Rightarrow> vec \<Rightarrow> int \<Rightarrow> pg_memories \<Rightarrow> recalled_memory list" where
  "pg_memory_recall vdist who embedding top_k rows =
     map (recalled (\<lambda>q v. 1 - vdist v q) embedding)
       (slice_to top_k (sort_key (\<lambda>x. vdist (snd x) embedding)
         (filter (\<lambda>x. sm_owner x = who) rows)))"

definition pg_memory_delete :: "owner \<Rightarrow> string \<Rightarrow> pg_memories \<Rightarrow> bool \<times> pg_memories" where
  "pg_memory_delete who memory_id rows =
     sql_delete (\<lambda>x. sm_id x = memory_id \<and> sm_owner x = who) rows"

definition PostgresMemoryStore :: "(vec \<Rightarrow> vec \<Rightarrow> rat) \<Rightarrow> pg_memories memory_store" where
  "PostgresMemoryStore vdist =
     \<lparr>mm_record = pg_memory_record, mm_list_for_user = pg_memory_list,
      mm_recall = pg_memory_recall vdist, mm_delete = pg_memory_delete\<rparr>"

section \<open>Handlers\<close>

definition record_fields :: "json option \<Rightarrow> reply + string" where
  "record_fields body =
     (case body of
        None \<Rightarrow> Inl (bad_request ''Body is not valid JSON.'')
      | Some (JObj data) \<Rightarrow>
          if dget data ''consent'' \<noteq> JBool True
          then Inl (HTTP_FORBIDDEN, err_detail ''consent_required''
                 (''Memory writes require explicit '' @ quoted ''consent''
                  @ '': true; implicit capture is not permitted.''))
          else (case required_text data ''content'' of
                  Inl err \<Rightarrow> Inl err
                | Inr content \<Rightarrow>
                    if MAX_MEMORY_CHARS < length content
                    then Inl (HTTP_TOO_LARGE, err_detail ''payload_too_large''
                           (quoted ''content'' @ '' must not exceed 10000 characters.''))
                    else Inr content)
      | Some _ \<Rightarrow> Inl (bad_request ''Body must be a JSON object.''))"

definition build_memory_record_response ::
    "'s memory_store \<Rightarrow> embedder \<Rightarrow> datetime \<Rightarrow> string \<Rightarrow> string option \<Rightarrow> json option
       \<Rightarrow> verifier option \<Rightarrow> 's \<Rightarrow> (py_exn + reply) \<times> 's" where
  "build_memory_record_response store embedr now uid authorization body token_verifier s =
     (case verify_and_extract authorization token_verifier of
        Inl err \<Rightarrow> (Inr err, s)
      | Inr claims \<Rightarrow>
     (case record_fields body of
        Inl err \<Rightarrow> (Inr err, s)
      | Inr content \<Rightarrow>
     (case embedr [content] of
        None \<Rightarrow> (Inr embedding_unavailable, s)
      | Some [] \<Rightarrow> (Inl IndexError, s)
      | Some (embedding # _) \<Rightarrow>
          let m = \<lparr>me_id = uid, me_tenant_id = extract_tenant_id claims,
                   me_user_id = tc_subject claims, me_content = content, me_created_at = now\<rparr>
          in (Inr (HTTP_CREATED, memory_to_api_dict m), mm_record store m embedding s))))"

definition build_memory_list_response ::
    "'s memory_store \<Rightarrow> string option \<Rightarrow> verifier option \<Rightarrow> int \<Rightarrow> 's \<Rightarrow> reply" where
  "build_memory_list_response store authorization token_verifier limit s =
     (case verify_and_extract authorization token_verifier of
        Inl err \<Rightarrow> err
      | Inr claims \<Rightarrow>
          let memories = mm_list_for_user store (owner_of claims)
                           (clamp_limit MEMORY_MAX_LIST_LIMIT limit) s
          in (HTTP_OK, JObj [(''memories'', JArr (map memory_to_api_dict memories)),
                             (''count'', JInt (int (length memories)))]))"

definition build_memory_recall_response ::
    "'s memory_store \<Rightarrow> embedder \<Rightarrow> string option \<Rightarrow> json option \<Rightarrow> verifier option \<Rightarrow> 's
       \<Rightarrow> py_exn + reply" where
  "build_memory_recall_response store embedr authorization body token_verifier s =
     (case verify_and_extract authorization token_verifier of
        Inl err \<Rightarrow> Inr err
      | Inr claims \<Rightarrow>
     (case query_fields body of
        Inl err \<Rightarrow> Inr err
      | Inr (query, top_k) \<Rightarrow>
     (case embedr [query] of
        None \<Rightarrow> Inr embedding_unavailable
      | Some [] \<Rightarrow> Inl IndexError
      | Some (embedding # _) \<Rightarrow>
          if length embedding \<noteq> EMBEDDING_DIM then Inr dimension_mismatch
          else
            let results = mm_recall store (owner_of claims) embedding top_k s
            in Inr (HTTP_OK, JObj [(''results'', JArr (map recalled_to_api_dict results)),
                                   (''count'', JInt (int (length results)))]))))"

definition build_memory_delete_response ::
    "'s memory_store \<Rightarrow> string option \<Rightarrow> string \<Rightarrow> verifier option \<Rightarrow> 's \<Rightarrow> reply \<times> 's" where
  "build_memory_delete_response store authorization memory_id token_verifier s =
     (case verify_and_extract authorization token_verifier of
        Inl err \<Rightarrow> (err, s)
      | Inr claims \<Rightarrow>
          let (deleted, s') = mm_delete store (owner_of claims) memory_id s
          in (if \<not> deleted then (HTTP_NOT_FOUND, err_detail ''not_found'' ''Memory not found.'')
              else (HTTP_OK, JObj [(''id'', JStr memory_id), (''deleted'', JBool True)]), s'))"

section \<open>The contract\<close>

locale memory_store_contract = owner_scoped_store sm_owner sm_id view inv
  for view :: "'s \<Rightarrow> owner \<Rightarrow> stored_memory list" and inv :: "'s \<Rightarrow> bool" +
  fixes store :: "'s memory_store"
    and order :: "stored_memory list \<Rightarrow> stored_memory list"
    and sim :: "vec \<Rightarrow> vec \<Rightarrow> rat"
  assumes mset_order: "mset (order xs) = mset xs"
    and inv_record: "inv s \<Longrightarrow> fresh_id sm_id view s (me_id m) \<Longrightarrow> inv (mm_record store m e s)"
    and view_record: "inv s \<Longrightarrow> fresh_id sm_id view s (me_id m) \<Longrightarrow>
      view (mm_record store m e s) o' = view s o' @ (if me_owner m = o' then [(m, e)] else [])"
    and list_view: "inv s \<Longrightarrow> mm_list_for_user store o' n s = map fst (slice_to n (order (view s o')))"
    and recall_view: "inv s \<Longrightarrow> mm_recall store o' q k s =
      slice_to k (sort_desc rm_score (map (recalled sim q) (view s o')))"
    and inv_delete: "inv s \<Longrightarrow> inv (snd (mm_delete store o' i s))"
    and delete_result: "inv s \<Longrightarrow> fst (mm_delete store o' i s) = (i \<in> sm_id ` set (view s o'))"
    and view_delete: "inv s \<Longrightarrow> view (snd (mm_delete store o1 i s)) o2 =
      (if o2 = o1 then filter (\<lambda>x. sm_id x \<noteq> i) (view s o1) else view s o2)"

lemma sm_id_eta: "(\<lambda>x. me_id (fst x) = i) = (\<lambda>x. sm_id x = i)"
  by (simp add: sm_id_def)

lemma sm_pair [simp]: "sm_owner (m, e) = me_owner m" "sm_id (m, e) = me_id m"
  by (simp_all add: sm_owner_def sm_id_def)

interpretation mem_memories: memory_store_contract
  bucket "buckets_ok sm_owner sm_id" InMemoryMemoryStore rev cosine
proof (intro memory_store_contract.intro buckets_scoped memory_store_contract_axioms.intro)
  fix s :: mem_memories and m :: memory and e i o1 o2 o'
  let ?ok = "buckets_ok sm_owner sm_id"
  show "?ok (mm_record InMemoryMemoryStore m e s)"
    if "?ok s" "fresh_id sm_id bucket s (me_id m)"
  proof -
    have "?ok (bucket_append s (sm_owner (m, e)) (m, e))"
      using that by (intro buckets_ok_append) (simp_all add: fresh_id_bucket)
    then show ?thesis by (simp add: InMemoryMemoryStore_def mem_memory_record_def)
  qed
  show "?ok (snd (mm_delete InMemoryMemoryStore o' i s))" if "?ok s"
    using that by (simp add: InMemoryMemoryStore_def mem_memory_delete_def buckets_ok_delete)
  show "bucket (snd (mm_delete InMemoryMemoryStore o1 i s)) o2 =
      (if o2 = o1 then filter (\<lambda>x. sm_id x \<noteq> i) (bucket s o1) else bucket s o2)" if "?ok s"
    using that
    by (simp add: InMemoryMemoryStore_def mem_memory_delete_def sm_id_eta delete_first_filter
        buckets_ok_distinct)
  show "fst (mm_delete InMemoryMemoryStore o' i s) = (i \<in> sm_id ` set (bucket s o'))"
    by (simp add: InMemoryMemoryStore_def mem_memory_delete_def sm_id_eta)
  show "mm_list_for_user InMemoryMemoryStore o' n s = map fst (slice_to n (rev (bucket s o')))" for n
    by (simp add: InMemoryMemoryStore_def mem_memory_list_def rev_map slice_to_map)
qed (simp_all add: InMemoryMemoryStore_def mem_memory_record_def mem_memory_recall_def)

interpretation pg_memories: memory_store_contract
  "table_view sm_owner" "table_ok sm_id" "PostgresMemoryStore vdist"
  "sort_desc (\<lambda>x. me_created_at (fst x))" "\<lambda>q v. 1 - vdist v q" for vdist
proof (intro memory_store_contract.intro table_scoped memory_store_contract_axioms.intro)
  fix s :: pg_memories and m :: memory and e o' q k
  show "table_view sm_owner (mm_record (PostgresMemoryStore vdist) m e s) o' =
      table_view sm_owner s o' @ (if me_owner m = o' then [(m, e)] else [])"
    if "fresh_id sm_id (table_view sm_owner) s (me_id m)"
    using that
    by (simp add: PostgresMemoryStore_def pg_memory_record_def table_view_insert fresh_id_table)
  show "mm_recall (PostgresMemoryStore vdist) o' q k s =
      slice_to k (sort_desc rm_score (map (recalled (\<lambda>q v. 1 - vdist v q) q) (table_view sm_owner s o')))"
  proof -
    let ?p = "recalled (\<lambda>q v. 1 - vdist v q) q"
    have "sort_key (\<lambda>x. vdist (snd x) q) xs = sort_key (\<lambda>x. - rm_score (?p x)) xs" for xs :: "stored_memory list"
      by (rule sort_key_mono) (simp add: recalled_def)
    then have "map ?p (sort_key (\<lambda>x. vdist (snd x) q) xs) = sort_desc rm_score (map ?p xs)" for xs
      using sort_key_map [of ?p "\<lambda>x. - rm_score x" xs] by (simp add: sort_desc_def)
    then show ?thesis
      by (simp add: PostgresMemoryStore_def pg_memory_recall_def table_view_def slice_to_map [symmetric])
  qed
qed (simp_all add: PostgresMemoryStore_def pg_memory_record_def pg_memory_list_def
      pg_memory_delete_def sql_select_desc_def table_view_def [symmetric] sort_desc_def table_facts
      table_view_delete_owned)

section \<open>What the handlers keep\<close>

datatype memory_request =
    MemRecord "string option" "json option" string
  | MemDelete "string option" string

fun memory_auth :: "memory_request \<Rightarrow> string option" where
  "memory_auth (MemRecord a b u) = a"
| "memory_auth (MemDelete a i) = a"

fun memory_step ::
    "'s memory_store \<Rightarrow> embedder \<Rightarrow> verifier option \<Rightarrow> datetime \<Rightarrow> memory_request \<Rightarrow> 's
       \<Rightarrow> (py_exn + reply) \<times> 's" where
  "memory_step store embedr v now (MemRecord a b uid) s =
     build_memory_record_response store embedr now uid a b v s"
| "memory_step store embedr v now (MemDelete a i) s =
     (case build_memory_delete_response store a i v s of (r, s') \<Rightarrow> (Inr r, s'))"

fun memory_req_fresh ::
    "('s \<Rightarrow> owner \<Rightarrow> stored_memory list) \<Rightarrow> 's \<Rightarrow> memory_request \<Rightarrow> bool" where
  "memory_req_fresh view s (MemRecord a b uid) = fresh_id sm_id view s uid"
| "memory_req_fresh view s (MemDelete a i) = True"

lemma record_fields_Inr:
  assumes "record_fields body = Inr content"
  shows "\<exists>d. body = Some (JObj d) \<and> dget d ''consent'' = JBool True \<and> py_strip content \<noteq> [] \<and>
           length content \<le> MAX_MEMORY_CHARS"
  using assms
  by (auto simp: record_fields_def required_text_def split: option.splits json.splits sum.splits if_splits)

lemma snd_memory_record:
  "snd (build_memory_record_response st em now uid a b v s) =
     (case (verify_and_extract a v, record_fields b) of
        (Inr claims, Inr content) \<Rightarrow>
          (case em [content] of
             Some (e # _) \<Rightarrow> mm_record st \<lparr>me_id = uid, me_tenant_id = extract_tenant_id claims,
                   me_user_id = tc_subject claims, me_content = content, me_created_at = now\<rparr> e s
           | _ \<Rightarrow> s)
      | _ \<Rightarrow> s)"
  by (simp add: build_memory_record_response_def Let_def split: sum.split option.split list.split)

lemma snd_memory_delete:
  "snd (build_memory_delete_response st a i v s) =
     (case verify_and_extract a v of
        Inr claims \<Rightarrow> snd (mm_delete st (owner_of claims) i s) | _ \<Rightarrow> s)"
  by (simp add: build_memory_delete_response_def split_beta Let_def split: sum.split)

lemmas snd_memory = snd_memory_record snd_memory_delete

context memory_store_contract
begin

lemma step_inv:
  "inv s \<Longrightarrow> memory_req_fresh view s r \<Longrightarrow> inv (snd (memory_step store em v now r s))"
  by (cases r)
    (simp_all add: snd_memory split_beta inv_record inv_delete
      split: sum.split prod.split option.split list.split)

lemma step_other_owner:
  assumes "inv s" and "memory_req_fresh view s r"
    and "\<forall>claims. verify_and_extract (memory_auth r) v = Inr claims \<longrightarrow> o' \<noteq> owner_of claims"
  shows "view (snd (memory_step store em v now r s)) o' = view s o'"
  using assms
  by (cases r)
    (auto simp: snd_memory split_beta view_record view_delete me_owner_def owner_of_def
      split: sum.split prod.split option.split list.split)

lemma recall_best:
  assumes "inv s" and "0 \<le> k"
  shows "length (mm_recall store o' q k s) = min (nat k) (length (view s o'))"
    and "sorted (map (\<lambda>p. - rm_score p) (mm_recall store o' q k s))"
    and "p \<in> set (mm_recall store o' q k s) \<Longrightarrow>
         \<exists>x \<in> set (view s o'). p = recalled sim q x \<and> me_owner (rm_memory p) = o'"
    and "p \<in> set (mm_recall store o' q k s) \<Longrightarrow> x \<in> set (view s o') \<Longrightarrow>
         recalled sim q x \<notin> set (mm_recall store o' q k s) \<Longrightarrow> sim q (snd x) \<le> rm_score p"
proof -
  note rv = recall_view [OF assms(1)]
  show "length (mm_recall store o' q k s) = min (nat k) (length (view s o'))"
    using assms(2) by (simp add: rv slice_to_def)
  show "sorted (map (\<lambda>p. - rm_score p) (mm_recall store o' q k s))"
    unfolding rv by (rule slice_desc_sorted)
  show "\<exists>x \<in> set (view s o'). p = recalled sim q x \<and> me_owner (rm_memory p) = o'"
    if "p \<in> set (mm_recall store o' q k s)"
  proof -
    have "p \<in> recalled sim q ` set (view s o')"
      using that set_slice_to [of k "sort_desc rm_score (map (recalled sim q) (view s o'))"]
      unfolding rv by auto
    then obtain x where x: "x \<in> set (view s o')" "p = recalled sim q x" by blast
    then show ?thesis
      using view_owner [OF assms(1) x(1)] by (auto simp: recalled_def sm_owner_def)
  qed
  show "sim q (snd x) \<le> rm_score p" if "p \<in> set (mm_recall store o' q k s)"
    "x \<in> set (view s o')" "recalled sim q x \<notin> set (mm_recall store o' q k s)"
    using slice_desc_best [of p k rm_score "map (recalled sim q) (view s o')" "recalled sim q x"] that
    unfolding rv by (auto simp: recalled_def)
qed

lemma forget:
  assumes "inv s" and "verify_and_extract a v = Inr claims"
  shows "fst (fst (build_memory_delete_response store a i v s)) =
           (if i \<in> sm_id ` set (view s (owner_of claims)) then HTTP_OK else HTTP_NOT_FOUND)"
    and "\<forall>p \<in> set (mm_recall store (owner_of claims) q k
           (snd (build_memory_delete_response store a i v s))). me_id (rm_memory p) \<noteq> i"
proof -
  show "fst (fst (build_memory_delete_response store a i v s)) =
      (if i \<in> sm_id ` set (view s (owner_of claims)) then HTTP_OK else HTTP_NOT_FOUND)"
    using assms by (simp add: build_memory_delete_response_def split_beta Let_def delete_result)
  let ?s = "snd (mm_delete store (owner_of claims) i s)"
  have "me_id (rm_memory p) \<noteq> i" if "p \<in> set (mm_recall store (owner_of claims) q k ?s)" for p
  proof -
    have "p \<in> set (map (recalled sim q) (view ?s (owner_of claims)))"
      using that set_slice_to set_sort_desc unfolding recall_view [OF inv_delete [OF assms(1)]]
      by fastforce
    then show ?thesis
      using assms(1) by (auto simp: view_delete recalled_def sm_id_def)
  qed
  then show "\<forall>p \<in> set (mm_recall store (owner_of claims) q k
      (snd (build_memory_delete_response store a i v s))). me_id (rm_memory p) \<noteq> i"
    using assms(2) by (simp add: snd_memory)
qed

end

section \<open>Properties\<close>

text \<open>Memories are private and consented: a record or delete leaves the memories of every
  owner but the caller as they were, in both stores; and a record request that changes the store
  carried \<open>consent: true\<close> and a non-blank text of at most 10000 characters.\<close>

theorem memory_isolation_consent:
  assumes "\<forall>claims. verify_and_extract (memory_auth r) v = Inr claims \<longrightarrow> o' \<noteq> owner_of claims"
  shows "(buckets_ok sm_owner sm_id m \<and> memory_req_fresh bucket m r \<longrightarrow>
            bucket (snd (memory_step InMemoryMemoryStore em v now r m)) o' = bucket m o') \<and>
         (table_ok sm_id t \<and> memory_req_fresh (table_view sm_owner) t r \<longrightarrow>
            table_view sm_owner (snd (memory_step (PostgresMemoryStore vdist) em v now r t)) o' =
            table_view sm_owner t o') \<and>
         (r = MemRecord a b uid \<and> snd (memory_step (PostgresMemoryStore vdist) em v now r t) \<noteq> t \<longrightarrow>
            (\<exists>d content. b = Some (JObj d) \<and> dget d ''consent'' = JBool True \<and>
               py_strip content \<noteq> [] \<and> length content \<le> MAX_MEMORY_CHARS \<and>
               record_fields b = Inr content))"
proof (intro conjI impI; (elim conjE)?)
  assume r: "r = MemRecord a b uid" and ch: "snd (memory_step (PostgresMemoryStore vdist) em v now r t) \<noteq> t"
  obtain content where "record_fields b = Inr content"
    using ch by (cases "record_fields b") (auto simp: r snd_memory split: sum.splits)
  then show "\<exists>d content. b = Some (JObj d) \<and> dget d ''consent'' = JBool True \<and>
      py_strip content \<noteq> [] \<and> length content \<le> MAX_MEMORY_CHARS \<and> record_fields b = Inr content"
    using record_fields_Inr [of b content] by blast
qed (use assms mem_memories.step_other_owner pg_memories.step_other_owner in blast)+

definition example_memory :: stored_memory where
  "example_memory = (\<lparr>me_id = ''m1'', me_tenant_id = ''b.io'', me_user_id = ''bob'',
     me_content = ''likes tea'', me_created_at = 0\<rparr>, [1])"

theorem memory_isolation_consent_witness:
  "table_view sm_owner (snd (memory_step (PostgresMemoryStore (\<lambda>_ _. 0)) zero_embed (Some two_users) 0
      (MemDelete (Some ''Bearer ta'') ''m1'') [example_memory])) (''b.io'', ''bob'') = [example_memory]"
  using memory_isolation_consent [of "MemDelete (Some ''Bearer ta'') ''m1''" "Some two_users"
      "(''b.io'', ''bob'')" Map.empty zero_embed 0 "[example_memory]" "\<lambda>_ _. 0"]
  by (simp add: table_ok_def table_view_def example_memory_def me_owner_def)

text \<open>Recall returns the best of the caller's own memories: as many as asked for or as there
  are, in descending order of score, each one owned by the caller, and none left out scores
  higher than one returned; in both stores.\<close>

theorem memory_recall_best:
  assumes "0 \<le> k"
  shows "(buckets_ok sm_owner sm_id m \<longrightarrow>
           length (mem_memory_recall o' q k m) = min (nat k) (length (bucket m o')) \<and>
           sorted (map (\<lambda>p. - rm_score p) (mem_memory_recall o' q k m)) \<and>
           (\<forall>p \<in> set (mem_memory_recall o' q k m). me_owner (rm_memory p) = o' \<and>
              (\<forall>x \<in> set (bucket m o'). recalled cosine q x \<notin> set (mem_memory_recall o' q k m) \<longrightarrow>
                 cosine q (snd x) \<le> rm_score p))) \<and>
         (table_ok sm_id t \<longrightarrow>
           length (pg_memory_recall vdist o' q k t) = min (nat k) (length (table_view sm_owner t o')) \<and>
           sorted (map (\<lambda>p. - rm_score p) (pg_memory_recall vdist o' q k t)) \<and>
           (\<forall>p \<in> set (pg_memory_recall vdist o' q k t). me_owner (rm_memory p) = o' \<and>
              (\<forall>x \<in> set (table_view sm_owner t o').
                 recalled (\<lambda>q v. 1 - vdist v q) q x \<notin> set (pg_memory_recall vdist o' q k t) \<longrightarrow>
                 1 - vdist (snd x) q \<le> rm_score p)))"
proof -
  have eqs: "mm_recall InMemoryMemoryStore = mem_memory_recall"
    "mm_recall (PostgresMemoryStore vdist) = pg_memory_recall vdist"
    by (simp_all add: InMemoryMemoryStore_def PostgresMemoryStore_def)
  show ?thesis
    using mem_memories.recall_best [OF _ assms, where s = m and o' = o' and q = q]
      pg_memories.recall_best [OF _ assms, where s = t and vdist = vdist and o' = o' and q = q]
    unfolding eqs by blast
qed

theorem memory_recall_best_witness:
  "length (pg_memory_recall (\<lambda>_ _. 0) (''b.io'', ''bob'') [1] 3 [example_memory]) = 1"
  using memory_recall_best [of 3 Map.empty "(''b.io'', ''bob'')" "[1]" "[example_memory]" "\<lambda>_ _. 0"]
  by (simp add: table_ok_def table_view_def example_memory_def me_owner_def)

text \<open>A deleted memory is forgotten: the delete answers 200 exactly when the caller had it,
  and no later recall of the caller returns it; in both stores.\<close>

theorem memory_forgotten:
  assumes "verify_and_extract a v = Inr claims"
  shows "(buckets_ok sm_owner sm_id m \<longrightarrow>
           fst (fst (build_memory_delete_response InMemoryMemoryStore a i v m)) =
             (if i \<in> sm_id ` set (bucket m (owner_of claims)) then HTTP_OK else HTTP_NOT_FOUND) \<and>
           (\<forall>p \<in> set (mem_memory_recall (owner_of claims) q k
              (snd (build_memory_delete_response InMemoryMemoryStore a i v m))). me_id (rm_memory p) \<noteq> i)) \<and>
         (table_ok sm_id t \<longrightarrow>
           fst (fst (build_memory_delete_response (PostgresMemoryStore vdist) a i v t)) =
             (if i \<in> sm_id ` set (table_view sm_owner t (owner_of claims)) then HTTP_OK
              else HTTP_NOT_FOUND) \<and>
           (\<forall>p \<in> set (pg_memory_recall vdist (owner_of claims) q k
              (snd (build_memory_delete_response (PostgresMemoryStore vdist) a i v t))).
              me_id (rm_memory p) \<noteq> i))"
proof -
  have eqs: "mm_recall InMemoryMemoryStore = mem_memory_recall"
    "mm_recall (PostgresMemoryStore vdist) = pg_memory_recall vdist"
    by (simp_all add: InMemoryMemoryStore_def PostgresMemoryStore_def)
  show ?thesis
    using mem_memories.forget [OF _ assms] pg_memories.forget [OF _ assms, where s = t and vdist = vdist]
    unfolding eqs by blast
qed

theorem memory_forgotten_witness:
  "fst (fst (build_memory_delete_response (PostgresMemoryStore (\<lambda>_ _. 0)) (Some ''Bearer tb'') ''m1''
      (Some two_users) [example_memory])) = HTTP_OK"
  using memory_forgotten [of "Some ''Bearer tb''" "Some two_users" bob_claims Map.empty "''m1''"
      "[1]" 3 "[example_memory]" "\<lambda>_ _. 0"]
  by (simp add: table_ok_def table_view_def example_memory_def me_owner_def)

end
