(* ===== verification/AgentTools.thy ===== *)
theory AgentTools
  imports Policy Notifications
begin

text \<open>
  Tool execution: the pure tools and the out-of-process runner (app/sandbox/tools.py,
  app/sandbox/runner.py), the sandbox executor's classification of what the child process did,
  the argument validation and the invoke handler (app/control_plane/agent_tools.py).

  The operating system is a parameter: \<open>proc\<close> maps the payload written to the child to what came
  of it.  An executor may answer differently each time, so it is given the log of the executions
  so far; the log (\<open>ag_spawned\<close>) is what the properties count.
\<close>

section \<open>Tools\<close>

definition MAX_TEXT :: nat where "MAX_TEXT = 100000"
definition MAX_ARGS_BYTES :: nat where "MAX_ARGS_BYTES = 200000"

definition text_stats :: "dict \<Rightarrow> py_exn + json" where
  "text_stats arguments =
     (case dget arguments ''text'' of
        JStr text \<Rightarrow>
          if MAX_TEXT < length text then Inl ValueError
          else Inr (JObj [(''characters'', JInt (int (length text))),
                          (''words'', JInt (int (length (split_ws text)))),
                          (''lines'', JInt (int (count_list text (CHR 0x0A)
                             + (if text \<noteq> [] then 1 else 0))))])
      | _ \<Rightarrow> Inl ValueError)"

record arg_rule =
  ru_type :: "string option"
  ru_required :: bool
  ru_max_len :: "nat option"

record tool_spec =
  ts_description :: string
  ts_schema :: "(string \<times> arg_rule) list"
  ts_run :: "dict \<Rightarrow> py_exn + json"
  ts_executor :: string

definition text_schema :: "(string \<times> arg_rule) list" where
  "text_schema =
     [(''text'', \<lparr>ru_type = Some ''string'', ru_required = True, ru_max_len = Some MAX_TEXT\<rparr>)]"

definition TOOLS :: "(string \<times> tool_spec) list" where
  "TOOLS =
     [(''text_stats'',
         \<lparr>ts_description = ''Return character, word, and line counts for a text string.'',
          ts_schema = text_schema, ts_run = text_stats, ts_executor = ''subprocess''\<rparr>),
      (''text_stats_job'',
         \<lparr>ts_description = ''Like text_stats, but executed in an isolated Kubernetes Job.'',
          ts_schema = text_schema, ts_run = text_stats, ts_executor = ''job''\<rparr>)]"

definition in_TOOLS :: "string \<Rightarrow> bool" where
  "in_TOOLS name = (map_of TOOLS name \<noteq> None)"

definition tool_executor :: "string \<Rightarrow> string" where
  "tool_executor name =
     (case map_of TOOLS name of None \<Rightarrow> ''subprocess'' | Some spec \<Rightarrow> ts_executor spec)"

section \<open>The runner\<close>

fun exn_name :: "py_exn \<Rightarrow> string" where
  "exn_name TypeError = ''TypeError''"
| "exn_name AttributeError = ''AttributeError''"
| "exn_name OverflowError = ''OverflowError''"
| "exn_name ValueError = ''ValueError''"
| "exn_name KeyError = ''KeyError''"
| "exn_name IndexError = ''IndexError''"
| "exn_name StoreError = ''Exception''"

definition not_ok :: "string \<Rightarrow> json" where
  "not_ok e = JObj [(''ok'', JBool False), (''error'', JStr e)]"

text \<open>\<^verbatim>\<open>run\<close>; a tool name that is a list or an object is unhashable and escapes.\<close>

definition runner_run :: "dict \<Rightarrow> py_exn + json" where
  "runner_run payload =
     (case (case dget payload ''tool'' of
              JStr tool \<Rightarrow> Inr (map_of TOOLS tool)
            | JArr _ \<Rightarrow> Inl TypeError
            | JObj _ \<Rightarrow> Inl TypeError
            | _ \<Rightarrow> Inr None) of
        Inl ex \<Rightarrow> Inl ex
      | Inr None \<Rightarrow> Inr (not_ok ''unknown_tool'')
      | Inr (Some spec) \<Rightarrow>
          (case dget payload ''arguments'' of
             JObj args \<Rightarrow>
               (case ts_run spec args of
                  Inr result \<Rightarrow> Inr (JObj [(''ok'', JBool True), (''result'', result)])
                | Inl ex \<Rightarrow> Inr (JObj [(''ok'', JBool False), (''error'', JStr ''tool_exception''),
                                        (''detail'', JStr (exn_name ex))]))
           | _ \<Rightarrow> Inr (not_ok ''bad_arguments'')))"

text \<open>\<^verbatim>\<open>main\<close> on the decoded request.\<close>

definition runner_main :: "json option \<Rightarrow> py_exn + json" where
  "runner_main request =
     (case request of
        Some (JObj payload) \<Rightarrow> runner_run payload
      | _ \<Rightarrow> Inr (not_ok ''bad_request''))"

section \<open>The sandbox executor\<close>

record sandbox_outcome =
  so_result_class :: string
  so_result :: json
  so_exit_code :: "int option"

definition outcome_of :: "string \<Rightarrow> int option \<Rightarrow> sandbox_outcome" where
  "outcome_of rc code = \<lparr>so_result_class = rc, so_result = JNull, so_exit_code = code\<rparr>"

text \<open>
  What came of the child: it could not be run (any exception), it was killed at the deadline, or
  it exited with a code and an output, decoded (\<^term>\<open>None\<close>: not JSON; an empty output counts as
  \<^verbatim>\<open>{}\<close>).
\<close>

datatype proc_result = SpawnFailed | TimedOut | Exited int "json option"

definition sandbox_execute :: "(json \<Rightarrow> proc_result) \<Rightarrow> string \<Rightarrow> dict \<Rightarrow> sandbox_outcome" where
  "sandbox_execute proc tool arguments =
     (case proc (JObj [(''tool'', JStr tool), (''arguments'', JObj arguments)]) of
        SpawnFailed \<Rightarrow> outcome_of ''tool_error'' None
      | TimedOut \<Rightarrow> outcome_of ''tool_timeout'' None
      | Exited code out \<Rightarrow>
          if code \<noteq> 0 then outcome_of ''tool_error'' (Some code)
          else (case out of
                  None \<Rightarrow> outcome_of ''tool_error'' (Some code)
                | Some (JObj data) \<Rightarrow>
                    if \<not> truthy (dget data ''ok'')
                    then outcome_of (if dget data ''error'' = JStr ''unknown_tool'' then ''unknown_tool''
                                     else ''tool_error'') (Some code)
                    else \<lparr>so_result_class = ''success'', so_result = dget data ''result'',
                          so_exit_code = Some 0\<rparr>
                | Some _ \<Rightarrow> outcome_of ''tool_error'' (Some code)))"

text \<open>A child that runs the runner to its end within its limits.\<close>

definition healthy_proc :: "json \<Rightarrow> proc_result" where
  "healthy_proc payload =
     (case runner_main (Some payload) of
        Inl _ \<Rightarrow> Exited 1 (Some (JObj []))
      | Inr out \<Rightarrow> Exited 0 (Some out))"

section \<open>Argument validation\<close>

definition check_argument :: "string \<Rightarrow> arg_rule \<Rightarrow> json \<Rightarrow> string option" where
  "check_argument name rule value =
     (if ru_type rule = Some ''string'' \<and> \<not> is_str value
      then Some (quoted name @ '' must be a string.'')
      else if ru_type rule = Some ''integer'' \<and> (\<not> is_int value \<or> is_bool value)
      then Some (quoted name @ '' must be an integer.'')
      else (case (ru_max_len rule, json_len value) of
              (Some max_len, Some n) \<Rightarrow>
                if max_len < n
                then Some (quoted name @ '' exceeds the maximum length of '' @ str_nat max_len @ ''.'')
                else None
            | _ \<Rightarrow> None))"

fun validate_schema :: "(string \<times> arg_rule) list \<Rightarrow> dict \<Rightarrow> string option" where
  "validate_schema [] arguments = None"
| "validate_schema ((name, rule) # schema) arguments =
     (if \<not> dhas arguments name
      then (if ru_required rule then Some (quoted name @ '' is required.'')
            else validate_schema schema arguments)
      else (case check_argument name rule (dget arguments name) of
              Some err \<Rightarrow> Some err
            | None \<Rightarrow> validate_schema schema arguments))"

definition validate_arguments :: "tool_spec \<Rightarrow> dict \<Rightarrow> string option" where
  "validate_arguments spec arguments = validate_schema (ts_schema spec) arguments"

section \<open>Running a tool\<close>

text \<open>
  The state the tool endpoints share: limiter, audit log, notifications, and the log of the
  executions that were started.
\<close>

type_synonym spawn_log = "(string \<times> dict) list"
type_synonym executor = "spawn_log \<Rightarrow> string \<Rightarrow> dict \<Rightarrow> sandbox_outcome"
type_synonym job_executor = "spawn_log \<Rightarrow> string \<Rightarrow> string \<Rightarrow> string \<Rightarrow> dict \<Rightarrow> sandbox_outcome"

record 'n agent_state =
  ag_limiter :: rate_limiter
  ag_audit :: "audit_entry list"
  ag_notifs :: 'n
  ag_spawned :: spawn_log

definition run_tool ::
    "executor \<Rightarrow> job_executor option \<Rightarrow> string \<Rightarrow> string \<Rightarrow> string \<Rightarrow> dict \<Rightarrow> 'n agent_state
       \<Rightarrow> sandbox_outcome \<times> 'n agent_state" where
  "run_tool exec job tenant_id run_id tool arguments st =
     (if tool_executor tool = ''job''
      then (case job of
              None \<Rightarrow> (outcome_of ''tool_error'' None, st)
            | Some je \<Rightarrow> (je (ag_spawned st) tenant_id run_id tool arguments,
                          st\<lparr>ag_spawned := ag_spawned st @ [(tool, arguments)]\<rparr>))
      else (exec (ag_spawned st) tool arguments,
            st\<lparr>ag_spawned := ag_spawned st @ [(tool, arguments)]\<rparr>))"

section \<open>The invoke handler\<close>

definition invoke_fields :: "(rat \<Rightarrow> string) \<Rightarrow> json option \<Rightarrow> reply + string \<times> dict" where
  "invoke_fields fr body =
     (case body of
        None \<Rightarrow> Inl (bad_request ''Body is not valid JSON.'')
      | Some (JObj data) \<Rightarrow>
          (case dget data ''tool'' of
             JStr tool \<Rightarrow>
               if tool = [] then Inl (bad_request (quoted ''tool'' @ '' is required.''))
               else (case dget_or data ''arguments'' (JObj []) of
                       JObj arguments \<Rightarrow>
                         if MAX_ARGS_BYTES < length (json_dumps fr (JObj arguments))
                         then Inl (HTTP_TOO_LARGE, err_detail ''payload_too_large''
                                     ''arguments exceed 200000 bytes.'')
                         else Inr (tool, arguments)
                     | _ \<Rightarrow> Inl (bad_request (quoted ''arguments'' @ '' must be an object.'')))
           | _ \<Rightarrow> Inl (bad_request (quoted ''tool'' @ '' is required.'')))
      | Some _ \<Rightarrow> Inl (bad_request ''Body must be a JSON object.''))"

definition tools_disabled :: reply where
  "tools_disabled =
     (HTTP_UNAVAILABLE, err_degraded ''tools_disabled'' ''Tool execution is disabled on this instance.'')"

definition invoke_reply :: "string \<Rightarrow> sandbox_outcome \<Rightarrow> int \<Rightarrow> reply" where
  "invoke_reply tool outcome latency_ms =
     (if so_result_class outcome = ''success''
      then (HTTP_OK, JObj [(''tool'', JStr tool), (''result'', so_result outcome),
              (''result_class'', JStr ''success''), (''latency_ms'', JInt latency_ms)])
      else if so_result_class outcome = ''tool_timeout''
      then (HTTP_TIMEOUT, err_degraded ''tool_timeout'' ''The tool exceeded its time budget and was terminated.'')
      else (HTTP_BAD_GATEWAY, err_degraded ''tool_error'' ''The tool failed to execute.''))"

text \<open>What runs once the caller is authorised, the request well-formed and a slot held.\<close>

definition invoke_run ::
    "'n notif_store option \<Rightarrow> executor \<Rightarrow> job_executor option \<Rightarrow> datetime \<Rightarrow> int \<Rightarrow> string \<Rightarrow> string
       \<Rightarrow> owner \<Rightarrow> string \<Rightarrow> dict \<Rightarrow> 'n agent_state \<Rightarrow> reply \<times> 'n agent_state" where
  "invoke_run notification_store exec job now latency_ms run_id nuid who tool arguments st =
     (let (outcome, st) = run_tool exec job (fst who) run_id tool arguments st;
          st = st\<lparr>ag_limiter := rl_release (ag_limiter st)\<rparr>;
          st = st\<lparr>ag_audit := audit who tool (json_args arguments) ''allowed''
                   (Some (so_result_class outcome)) (Some latency_ms) (so_exit_code outcome) (ag_audit st)\<rparr>;
          event_class = (if so_result_class outcome = ''success'' then ''agent_task_completed''
                         else ''agent_task_failed'');
          st = st\<lparr>ag_notifs := emit_event notification_store who event_class tool nuid now (ag_notifs st)\<rparr>
      in (invoke_reply tool outcome latency_ms, st))"

definition build_tool_invoke_response ::
    "(rat \<Rightarrow> string) \<Rightarrow> 'n notif_store option \<Rightarrow> bool \<Rightarrow> allowlist \<Rightarrow> executor \<Rightarrow> job_executor option
       \<Rightarrow> datetime \<Rightarrow> int \<Rightarrow> int \<Rightarrow> string \<Rightarrow> string \<Rightarrow> string option \<Rightarrow> json option \<Rightarrow> verifier option
       \<Rightarrow> 'n agent_state \<Rightarrow> reply \<times> 'n agent_state" where
  "build_tool_invoke_response fr notification_store enabled al exec job now secs latency_ms run_id nuid
       authorization body token_verifier st =
     (case verify_and_extract authorization token_verifier of
        Inl err \<Rightarrow> (err, st)
      | Inr claims \<Rightarrow>
          if \<not> enabled then (tools_disabled, st)
          else
     (case invoke_fields fr body of
        Inl err \<Rightarrow> (err, st)
      | Inr (tool, arguments) \<Rightarrow>
          let who = owner_of claims in
          if \<not> is_allowed al (fst who) tool \<or> \<not> in_TOOLS tool
          then ((HTTP_FORBIDDEN, err_detail ''tool_not_allowed''
                   ''This tool is not permitted for your organisation.''),
                st\<lparr>ag_audit := audit who tool (json_args arguments) ''denied'' None None None (ag_audit st)\<rparr>)
          else
            (case validate_arguments (the (map_of TOOLS tool)) arguments of
               Some arg_err \<Rightarrow> (bad_request arg_err, st)
             | None \<Rightarrow>
                 (case try_acquire (fst who) secs (ag_limiter st) of
                    (False, rl) \<Rightarrow>
                      ((HTTP_TOO_MANY, err_detail ''rate_limited''
                          ''Tool execution rate or concurrency limit exceeded; try again shortly.''),
                       st\<lparr>ag_limiter := rl,
                          ag_audit := audit who tool (json_args arguments) ''rate_limited'' None None None
                                        (ag_audit st)\<rparr>)
                  | (True, rl) \<Rightarrow>
                      invoke_run notification_store exec job now latency_ms run_id nuid who tool arguments
                        (st\<lparr>ag_limiter := rl\<rparr>)))))"

section \<open>Lemmas\<close>

lemma run_tool_spawned:
  "ag_spawned (snd (run_tool exec job t rid tool args st)) \<in>
     {ag_spawned st, ag_spawned st @ [(tool, args)]}"
  by (auto simp: run_tool_def split: option.split)

lemma run_tool_frame [simp]:
  "ag_limiter (snd (run_tool exec job t rid tool args st)) = ag_limiter st"
  "ag_audit (snd (run_tool exec job t rid tool args st)) = ag_audit st"
  "ag_notifs (snd (run_tool exec job t rid tool args st)) = ag_notifs st"
  by (auto simp: run_tool_def split: option.split)

lemma invoke_run_frame:
  "ag_limiter (snd (invoke_run ns exec job now lat rid nuid who tool args st)) = rl_release (ag_limiter st)"
  "ag_spawned (snd (invoke_run ns exec job now lat rid nuid who tool args st)) =
     ag_spawned (snd (run_tool exec job (fst who) rid tool args st))"
  "\<exists>e. ag_audit (snd (invoke_run ns exec job now lat rid nuid who tool args st)) = ag_audit st @ [e]
     \<and> au_tool e = tool \<and> au_decision e = ''allowed'' \<and> au_arg_shape e = arg_shape (json_args args)
     \<and> (au_tenant_id e, au_user_id e) = who"
  by (simp_all add: invoke_run_def Let_def split_beta audit_def)

text \<open>The shape a validated argument has.\<close>

definition arg_matches :: "arg_rule \<Rightarrow> json \<Rightarrow> bool" where
  "arg_matches rule v \<longleftrightarrow>
     (ru_type rule = Some ''string'' \<longrightarrow> is_str v) \<and>
     (ru_type rule = Some ''integer'' \<longrightarrow> is_int v \<and> \<not> is_bool v) \<and>
     (\<forall>m n. ru_max_len rule = Some m \<longrightarrow> json_len v = Some n \<longrightarrow> n \<le> m)"

lemma check_argument_None: "check_argument name rule v = None \<longleftrightarrow> arg_matches rule v"
  by (auto simp: check_argument_def arg_matches_def split: option.splits)

lemma validate_schema_None:
  "validate_schema schema args = None \<longleftrightarrow>
     (\<forall>(name, rule) \<in> set schema.
        (dhas args name \<longrightarrow> arg_matches rule (dget args name)) \<and> (ru_required rule \<longrightarrow> dhas args name))"
proof (induction schema)
  case (Cons p schema)
  obtain name rule where p: "p = (name, rule)" by (cases p)
  have "validate_schema (p # schema) args = None \<longleftrightarrow>
      (dhas args name \<longrightarrow> check_argument name rule (dget args name) = None) \<and>
      (ru_required rule \<longrightarrow> dhas args name) \<and> validate_schema schema args = None"
    unfolding p by (auto split: option.splits)
  then show ?case
    by (simp only: check_argument_None Cons.IH p) auto
qed simp

lemma text_tools: "in_TOOLS tool \<longleftrightarrow> tool \<in> {''text_stats'', ''text_stats_job''}"
  by (auto simp: in_TOOLS_def TOOLS_def)

lemma text_spec:
  "in_TOOLS tool \<Longrightarrow> \<exists>spec. map_of TOOLS tool = Some spec \<and> ts_run spec = text_stats \<and>
     ts_schema spec = text_schema"
  by (auto simp: text_tools TOOLS_def)

lemma text_schema_valid:
  "validate_schema text_schema args = None \<longleftrightarrow>
     (\<exists>t. dget args ''text'' = JStr t \<and> length t \<le> MAX_TEXT)"
proof -
  have "validate_schema text_schema args = None \<longleftrightarrow>
      dhas args ''text'' \<and> is_str (dget args ''text'') \<and>
      (\<forall>n. json_len (dget args ''text'') = Some n \<longrightarrow> n \<le> MAX_TEXT)"
    unfolding text_schema_def validate_schema_None by (auto simp: arg_matches_def)
  moreover have "dget args ''text'' \<noteq> JNull \<Longrightarrow> dhas args ''text''"
    using dget_absent by blast
  ultimately show ?thesis
    by (cases "dget args ''text''") auto
qed

lemma validated_text:
  assumes "map_of TOOLS tool = Some spec" and "validate_arguments spec args = None"
  shows "\<exists>t. dget args ''text'' = JStr t \<and> ts_run spec args =
     Inr (JObj [(''characters'', JInt (int (length t))), (''words'', JInt (int (length (split_ws t)))),
                (''lines'', JInt (int (count_list t (CHR 0x0A) + (if t \<noteq> [] then 1 else 0))))])"
proof -
  have "ts_run spec = text_stats" "ts_schema spec = text_schema"
    using text_spec [of tool] assms(1) by (auto simp: in_TOOLS_def)
  moreover obtain t where "dget args ''text'' = JStr t" and "length t \<le> MAX_TEXT"
    using assms(2) calculation(2) text_schema_valid [of args] by (auto simp: validate_arguments_def)
  ultimately show ?thesis
    by (simp add: text_stats_def)
qed

text \<open>Every way an invoke can end.\<close>

lemma invoke_spawned:
  assumes "ag_spawned (snd (build_tool_invoke_response fr ns enabled al exec job now secs lat rid nuid a b v st))
           \<noteq> ag_spawned st"
  shows "\<exists>claims tool args spec. verify_and_extract a v = Inr claims \<and> enabled \<and>
     invoke_fields fr b = Inr (tool, args) \<and> is_allowed al (extract_tenant_id claims) tool \<and>
     map_of TOOLS tool = Some spec \<and> validate_arguments spec args = None \<and>
     fst (try_acquire (extract_tenant_id claims) secs (ag_limiter st)) \<and>
     ag_spawned (snd (build_tool_invoke_response fr ns enabled al exec job now secs lat rid nuid a b v st)) =
       ag_spawned st @ [(tool, args)] \<and>
     (\<exists>e. ag_audit (snd (build_tool_invoke_response fr ns enabled al exec job now secs lat rid nuid a b v st))
        = ag_audit st @ [e] \<and> au_tool e = tool \<and> au_decision e = ''allowed'' \<and>
        au_arg_shape e = arg_shape (json_args args) \<and> (au_tenant_id e, au_user_id e) = owner_of claims)"
proof -
  let ?r = "build_tool_invoke_response fr ns enabled al exec job now secs lat rid nuid a b v st"
  obtain claims where c: "verify_and_extract a v = Inr claims"
    using assms by (auto simp: build_tool_invoke_response_def split: sum.splits)
  have en: enabled
    using assms c by (auto simp: build_tool_invoke_response_def split: if_splits)
  obtain tool args where f: "invoke_fields fr b = Inr (tool, args)"
    using assms c en by (auto simp: build_tool_invoke_response_def split: sum.splits)
  let ?t = "extract_tenant_id claims"
  have al: "is_allowed al ?t tool" "in_TOOLS tool"
    using assms c en f by (auto simp: build_tool_invoke_response_def owner_of_def Let_def split: if_splits)
  obtain spec where spec: "map_of TOOLS tool = Some spec"
    using al(2) by (auto simp: in_TOOLS_def)
  have v: "validate_arguments spec args = None"
    using assms c en f al spec
    by (auto simp: build_tool_invoke_response_def owner_of_def Let_def split: option.splits)
  obtain ok rl where t: "try_acquire ?t secs (ag_limiter st) = (ok, rl)"
    by fastforce
  have ok
    using assms c en f al spec v t
    by (cases ok) (auto simp: build_tool_invoke_response_def owner_of_def Let_def)
  then have r: "?r = invoke_run ns exec job now lat rid nuid (owner_of claims) tool args (st\<lparr>ag_limiter := rl\<rparr>)"
    using c en f al spec v t by (simp add: build_tool_invoke_response_def owner_of_def Let_def)
  have "ag_spawned (snd ?r) = ag_spawned st @ [(tool, args)]"
    using assms run_tool_spawned [of exec job "fst (owner_of claims)" rid tool args "st\<lparr>ag_limiter := rl\<rparr>"]
    unfolding r by (auto simp: invoke_run_frame)
  moreover have "\<exists>e. ag_audit (snd ?r) = ag_audit st @ [e] \<and> au_tool e = tool \<and>
      au_decision e = ''allowed'' \<and> au_arg_shape e = arg_shape (json_args args) \<and>
      (au_tenant_id e, au_user_id e) = owner_of claims"
    using invoke_run_frame(3) [of ns exec job now lat rid nuid "owner_of claims" tool args "st\<lparr>ag_limiter := rl\<rparr>"]
    unfolding r by simp
  ultimately show ?thesis
    using c en f al spec v t \<open>ok\<close> by auto
qed

lemma invoke_releases:
  assumes "rl_ok (ag_limiter st)"
  shows "rl_value (ag_limiter (snd (build_tool_invoke_response fr ns enabled al exec job now secs lat rid nuid a b v st)))
         = rl_value (ag_limiter st)"
proof (cases "\<exists>claims tool args. verify_and_extract a v = Inr claims \<and> enabled \<and>
    invoke_fields fr b = Inr (tool, args) \<and> is_allowed al (extract_tenant_id claims) tool \<and>
    in_TOOLS tool \<and> validate_arguments (the (map_of TOOLS tool)) args = None")
  case False
  then show ?thesis
    by (auto simp: build_tool_invoke_response_def owner_of_def Let_def split: sum.split option.split)
next
  case True
  then obtain claims tool args where c: "verify_and_extract a v = Inr claims" enabled
    "invoke_fields fr b = Inr (tool, args)" "is_allowed al (extract_tenant_id claims) tool"
    "in_TOOLS tool" "validate_arguments (the (map_of TOOLS tool)) args = None"
    by blast
  obtain ok rl where t: "try_acquire (extract_tenant_id claims) secs (ag_limiter st) = (ok, rl)"
    by fastforce
  show ?thesis
    using c t acquire_release_value [OF assms, of "extract_tenant_id claims" secs]
      try_acquire_value(1) [of "extract_tenant_id claims" secs "ag_limiter st"]
    by (cases ok) (auto simp: build_tool_invoke_response_def owner_of_def Let_def invoke_run_frame)
qed

lemma invoke_fields_size:
  "invoke_fields fr b = Inr (tool, args) \<Longrightarrow> length (json_dumps fr (JObj args)) \<le> MAX_ARGS_BYTES"
  by (auto simp: invoke_fields_def split: option.splits json.splits if_splits)

section \<open>An example\<close>

definition stats_body :: json where
  "stats_body = JObj [(''tool'', JStr ''text_stats''), (''arguments'', JObj [(''text'', JStr ''hi you'')])]"

definition tools_idle :: "unit agent_state" where
  "tools_idle = \<lparr>ag_limiter = rate_limiter_init 5 2, ag_audit = [], ag_notifs = (), ag_spawned = []\<rparr>"

lemma split_ws_eval: "split_ws ''hi you'' = [''hi'', ''you'']"
  by code_simp

lemma stats_fields:
  "invoke_fields (\<lambda>_. []) (Some stats_body) = Inr (''text_stats'', [(''text'', JStr ''hi you'')])"
proof -
  have "length (json_dumps (\<lambda>_. []) (JObj [(''text'', JStr ''hi you'')])) = 18"
    by code_simp
  then show ?thesis
    by (simp add: invoke_fields_def stats_body_def MAX_ARGS_BYTES_def del: json_dumps.simps)
qed

lemma stats_tool: "in_TOOLS ''text_stats''" "tool_executor ''text_stats'' = ''subprocess''"
  by (simp_all add: text_tools tool_executor_def TOOLS_def)

lemma stats_valid: "validate_arguments (the (map_of TOOLS ''text_stats'')) [(''text'', JStr ''hi you'')] = None"
  using text_spec [OF stats_tool(1)]
  by (auto simp: validate_arguments_def text_schema_valid MAX_TEXT_def)

lemma stats_acquire: "try_acquire t 0 (rate_limiter_init 5 2) =
    (True, (rate_limiter_init 5 2)\<lparr>rl_windows := [t \<mapsto> (0, 1)], rl_value := 1\<rparr>)"
  by (simp add: try_acquire_eq rate_limiter_init_def)

text \<open>The requests a healthy and a stuck sandbox answer.\<close>

lemma stats_invoke:
  "ag_spawned (snd (build_tool_invoke_response (\<lambda>_. []) None True [(''a.io'', {''text_stats''})] exec None 0 0 5
       ''r1'' ''n1'' (Some ''Bearer ta'') (Some stats_body) (Some two_users) tools_idle)) =
     [(''text_stats'', [(''text'', JStr ''hi you'')])]"
  by (simp add: build_tool_invoke_response_def stats_fields stats_tool stats_valid Let_def is_allowed_def
      invoke_run_frame run_tool_def tools_idle_def stats_acquire)

section \<open>Properties\<close>

text \<open>Whatever the request, the executors, the clock and the state: if an invoke request starts
  an execution, then the caller's token verified, the kill-switch is on, the tool is on the
  allow-list of the tenant the token gives and in the registry, its arguments are within the text
  limit, the tenant held a slot, and exactly this one execution was started, with one
  \<^verbatim>\<open>allowed\<close> entry of the shape of its arguments in the audit log.\<close>

theorem invoke_only_permitted:
  assumes r: "r = build_tool_invoke_response fr ns enabled al exec job now secs lat rid nuid a b v st"
    and "ag_spawned (snd r) \<noteq> ag_spawned st"
  shows "\<exists>claims tool args e t. verify_and_extract a v = Inr claims \<and> enabled \<and>
     is_allowed al (extract_tenant_id claims) tool \<and> in_TOOLS tool \<and>
     invoke_fields fr b = Inr (tool, args) \<and> length (json_dumps fr (JObj args)) \<le> MAX_ARGS_BYTES \<and>
     dget args ''text'' = JStr t \<and> length t \<le> MAX_TEXT \<and>
     fst (try_acquire (extract_tenant_id claims) secs (ag_limiter st)) \<and>
     ag_spawned (snd r) = ag_spawned st @ [(tool, args)] \<and>
     ag_audit (snd r) = ag_audit st @ [e] \<and> au_tool e = tool \<and> au_decision e = ''allowed'' \<and>
     au_arg_shape e = arg_shape (json_args args)"
proof -
  obtain claims tool args spec e where s: "verify_and_extract a v = Inr claims" enabled
      "invoke_fields fr b = Inr (tool, args)" "is_allowed al (extract_tenant_id claims) tool"
      "map_of TOOLS tool = Some spec" "validate_arguments spec args = None"
      "fst (try_acquire (extract_tenant_id claims) secs (ag_limiter st))"
      "ag_spawned (snd r) = ag_spawned st @ [(tool, args)]"
      "ag_audit (snd r) = ag_audit st @ [e]" "au_tool e = tool" "au_decision e = ''allowed''"
      "au_arg_shape e = arg_shape (json_args args)"
    using invoke_spawned [OF assms(2) [unfolded r]] unfolding r by blast
  moreover have "in_TOOLS tool"
    using s(5) by (simp add: in_TOOLS_def)
  moreover obtain t where "dget args ''text'' = JStr t" "length t \<le> MAX_TEXT"
    using text_spec [OF \<open>in_TOOLS tool\<close>] s(5,6) text_schema_valid [of args]
    by (auto simp: validate_arguments_def)
  ultimately show ?thesis
    using invoke_fields_size [OF s(3)] by blast
qed

lemma invoke_only_permitted_witness:
  "length (ag_spawned (snd (build_tool_invoke_response (\<lambda>_. []) None True
       [(''a.io'', {''text_stats''})] (\<lambda>_. sandbox_execute healthy_proc) None 0 0 5 ''r1'' ''n1''
       (Some ''Bearer ta'') (Some stats_body) (Some two_users) tools_idle))) = 1 \<and>
   (\<exists>claims tool. verify_and_extract (Some ''Bearer ta'') (Some two_users) = Inr claims \<and>
     is_allowed [(''a.io'', {''text_stats''})] (extract_tenant_id claims) tool)"
proof -
  let ?r = "build_tool_invoke_response (\<lambda>_. []) None True
       [(''a.io'', {''text_stats''})] (\<lambda>_. sandbox_execute healthy_proc) None 0 0 5 ''r1'' ''n1''
       (Some ''Bearer ta'') (Some stats_body) (Some two_users) tools_idle"
  have n: "length (ag_spawned (snd ?r)) = 1"
    by (simp add: stats_invoke)
  then have "ag_spawned (snd ?r) \<noteq> ag_spawned tools_idle"
    by (auto simp: tools_idle_def)
  from invoke_only_permitted [OF refl this] n show ?thesis by blast
qed

text \<open>An invoke request gives its slot back on every path: the semaphore's value after the
  request is its value before, whether it was refused, ran, failed or timed out.\<close>

theorem invoke_returns_slot:
  fixes st :: "'n agent_state"
  assumes "rl_ok (ag_limiter st)"
  shows "rl_value (ag_limiter (snd (build_tool_invoke_response fr ns enabled al exec job now secs lat rid nuid
           a b v st))) = rl_value (ag_limiter st)"
  using assms by (rule invoke_releases)

lemma invoke_returns_slot_witness:
  "rl_value (ag_limiter (snd (build_tool_invoke_response (\<lambda>_. []) None True
       [(''a.io'', {''text_stats''})] (\<lambda>_ _ _. outcome_of ''tool_timeout'' None) None 0 0 5 ''r1'' ''n1''
       (Some ''Bearer ta'') (Some stats_body) (Some two_users) tools_idle))) = 2"
proof -
  have "rl_ok (ag_limiter (tools_idle :: unit agent_state))"
    by (simp add: tools_idle_def rl_ok_def rate_limiter_init_def spent_def)
  from invoke_returns_slot [OF this] show ?thesis
    by (simp add: tools_idle_def rate_limiter_init_def)
qed

text \<open>Arguments the validation accepts make a registered tool succeed in a child that runs to
  its end: the sandbox reports success, exit code 0, and the numbers of characters, of
  white-space separated words and of lines of the text.\<close>

theorem sandbox_text_stats:
  assumes "map_of TOOLS tool = Some spec" and "validate_arguments spec args = None"
  shows "\<exists>t. dget args ''text'' = JStr t \<and>
     sandbox_execute healthy_proc tool args =
       \<lparr>so_result_class = ''success'',
        so_result = JObj [(''characters'', JInt (int (length t))),
                          (''words'', JInt (int (length (split_ws t)))),
                          (''lines'', JInt (int (count_list t (CHR 0x0A) + (if t \<noteq> [] then 1 else 0))))],
        so_exit_code = Some 0\<rparr>"
proof -
  obtain t where t: "dget args ''text'' = JStr t" "ts_run spec args =
     Inr (JObj [(''characters'', JInt (int (length t))), (''words'', JInt (int (length (split_ws t)))),
                (''lines'', JInt (int (count_list t (CHR 0x0A) + (if t \<noteq> [] then 1 else 0))))])"
    using validated_text [OF assms] by blast
  then show ?thesis
    using assms(1)
    by (simp add: sandbox_execute_def healthy_proc_def runner_main_def runner_run_def not_ok_def)
qed

lemma sandbox_text_stats_witness:
  "so_result (sandbox_execute healthy_proc ''text_stats'' [(''text'', JStr ''hi you'')]) =
     JObj [(''characters'', JInt 6), (''words'', JInt 2), (''lines'', JInt 1)]"
proof -
  have v: "validate_arguments (the (map_of TOOLS ''text_stats'')) [(''text'', JStr ''hi you'')] = None"
    by (rule stats_valid)
  have "map_of TOOLS ''text_stats'' = Some (the (map_of TOOLS ''text_stats''))"
    by (simp add: TOOLS_def)
  from sandbox_text_stats [OF this v] show ?thesis
    by (auto simp: split_ws_eval)
qed

end
