(* ===== verification/Inference.thy ===== *)
theory Inference
  imports Json
begin

text \<open>
  The inference client (app/control_plane/inference.py): chat messages and requests, the request
  payload, the retry loop of the vLLM client over what each HTTP attempt gave, the health probe,
  and the defensive readers of a chat response (\<^verbatim>\<open>_content\<close> and \<^verbatim>\<open>_tokens\<close> of agent_loop.py).
  The network is a parameter: what attempt \<open>i\<close> gave.
\<close>

record chat_message =
  cm_role :: string
  cm_content :: string

text \<open>The temperature and the token bound are the numbers the caller gave (\<^verbatim>\<open>True\<close> is an \<^verbatim>\<open>int\<close>).\<close>

record chat_request =
  cr_model :: string
  cr_messages :: "chat_message list"
  cr_temperature :: json
  cr_max_tokens :: "json option"

definition message_payload :: "chat_message \<Rightarrow> json" where
  "message_payload m = JObj [(''role'', JStr (cm_role m)), (''content'', JStr (cm_content m))]"

definition default_temperature :: json where
  "default_temperature = JFloat (Fin (1/5))"

definition chat_request_build ::
    "string \<Rightarrow> chat_message list \<Rightarrow> json \<Rightarrow> json option \<Rightarrow> chat_request" where
  "chat_request_build model messages temperature max_tokens =
     \<lparr>cr_model = model, cr_messages = messages, cr_temperature = temperature,
      cr_max_tokens = max_tokens\<rparr>"

definition as_vllm_payload :: "chat_request \<Rightarrow> json" where
  "as_vllm_payload r =
     JObj ([(''model'', JStr (cr_model r)), (''messages'', JArr (map message_payload (cr_messages r))),
            (''temperature'', cr_temperature r)]
           @ (case cr_max_tokens r of None \<Rightarrow> [] | Some k \<Rightarrow> [(''max_tokens'', k)]))"

section \<open>The vLLM client\<close>

definition MAX_RETRIES :: nat where "MAX_RETRIES = 1"

text \<open>
  What one attempt gave: a body (\<^term>\<open>None\<close>: not JSON), an HTTP error status, a URL error
  (connection, DNS), a timeout, or an exception of another class (a connection reset while reading,
  a malformed status line).
\<close>

datatype http_attempt = HttpBody "json option" | HttpStatus nat | UrlFail | HttpTimeout | HttpRaised

datatype infer_exn = RoutingError | Unavailable "nat option" | InferTimeout | BadJson | InferRaised

text \<open>An inference client as its callers see it; the answer may depend on the requests made before.\<close>

type_synonym chat_client = "chat_request list \<Rightarrow> chat_request \<Rightarrow> infer_exn + json"

fun vllm_attempts :: "(nat \<Rightarrow> http_attempt) \<Rightarrow> nat \<Rightarrow> nat \<Rightarrow> infer_exn + json" where
  "vllm_attempts http i 0 = Inl (Unavailable None)"
| "vllm_attempts http i (Suc n) =
     (case http i of
        HttpBody (Some j) \<Rightarrow> Inr j
      | HttpBody None \<Rightarrow> Inl BadJson
      | HttpStatus c \<Rightarrow> Inl (Unavailable (Some c))
      | UrlFail \<Rightarrow> vllm_attempts http (Suc i) n
      | HttpTimeout \<Rightarrow> Inl InferTimeout
      | HttpRaised \<Rightarrow> Inl InferRaised)"

text \<open>\<^verbatim>\<open>url\<close> is \<^term>\<open>None\<close> where resolving the endpoint raises \<^verbatim>\<open>InferenceRoutingError\<close>.\<close>

definition vllm_chat_completions ::
    "string option \<Rightarrow> (string \<Rightarrow> json \<Rightarrow> nat \<Rightarrow> http_attempt) \<Rightarrow> chat_request \<Rightarrow> infer_exn + json" where
  "vllm_chat_completions url post request =
     (case url of
        None \<Rightarrow> Inl RoutingError
      | Some u \<Rightarrow> vllm_attempts (post u (as_vllm_payload request)) 0 (MAX_RETRIES + 1))"

text \<open>\<^verbatim>\<open>open_chat_stream\<close>: the payload asks for a stream, there is one attempt, and what opens is the lines.\<close>

datatype stream_attempt = StreamLines "string list" | StreamStatus nat | StreamUrlFail | StreamTimeout | StreamRaised

definition stream_payload :: "chat_request \<Rightarrow> json" where
  "stream_payload r =
     (case as_vllm_payload r of JObj d \<Rightarrow> JObj (d @ [(''stream'', JBool True)]) | v \<Rightarrow> v)"

definition open_chat_stream ::
    "string option \<Rightarrow> (string \<Rightarrow> json \<Rightarrow> stream_attempt) \<Rightarrow> chat_request \<Rightarrow> infer_exn + string list" where
  "open_chat_stream url post request =
     (case url of
        None \<Rightarrow> Inl RoutingError
      | Some u \<Rightarrow>
          (case post u (stream_payload request) of
             StreamLines ls \<Rightarrow> Inr ls
           | StreamStatus c \<Rightarrow> Inl (Unavailable (Some c))
           | StreamUrlFail \<Rightarrow> Inl (Unavailable None)
           | StreamTimeout \<Rightarrow> Inl InferTimeout
           | StreamRaised \<Rightarrow> Inl InferRaised))"

text \<open>The health probe: a status, an HTTP error status, no connection, or anything else.\<close>

datatype probe_result = ProbeStatus nat | ProbeHttpError nat | ProbeUnreachable | ProbeOther

definition gpu_state :: "string \<Rightarrow> string \<Rightarrow> json" where
  "gpu_state gpu detail = JObj [(''gpu'', JStr gpu), (''detail'', JStr detail)]"

definition health_returned :: "nat \<Rightarrow> string" where
  "health_returned status = ''health returned '' @ str_nat status"

definition probe_inference_health :: "string \<Rightarrow> string option \<Rightarrow> (string \<Rightarrow> probe_result) \<Rightarrow> json" where
  "probe_inference_health base_url health_url get =
     (if base_url = [] then gpu_state ''unconfigured'' ''inference URL not configured''
      else (case health_url of
              None \<Rightarrow> gpu_state ''unconfigured'' ''inference URL not configured''
            | Some url \<Rightarrow>
                (case get url of
                   ProbeStatus s \<Rightarrow>
                     if 200 \<le> s \<and> s < 300 then gpu_state ''warm'' ''model ready''
                     else gpu_state ''loading'' (health_returned s)
                 | ProbeHttpError c \<Rightarrow>
                     if 500 \<le> c \<and> c < 600 then gpu_state ''loading'' (health_returned c)
                     else gpu_state ''unknown'' (health_returned c)
                 | ProbeUnreachable \<Rightarrow> gpu_state ''cold'' ''inference endpoint unreachable''
                 | ProbeOther \<Rightarrow> gpu_state ''unknown'' ''probe failed'')))"

section \<open>Reading a response\<close>

text \<open>
  \<^verbatim>\<open>_content\<close>: the assistant text, and the empty string where any step of the path has another
  shape (the exceptions of indexing and attribute access are caught).
\<close>

definition content_of :: "json \<Rightarrow> string" where
  "content_of response =
     (case response of
        JObj r \<Rightarrow>
          (case dget r ''choices'' of
             JArr (JObj c # _) \<Rightarrow>
               (case dget c ''message'' of
                  JObj m \<Rightarrow> (case dget m ''content'' of JStr s \<Rightarrow> s | _ \<Rightarrow> [])
                | _ \<Rightarrow> [])
           | _ \<Rightarrow> [])
      | _ \<Rightarrow> [])"

text \<open>
  \<^verbatim>\<open>_tokens\<close>: \<^verbatim>\<open>int(total)\<close> of a number, truncated towards zero.  \<^verbatim>\<open>int(nan)\<close> raises
  \<^verbatim>\<open>ValueError\<close>, which is caught; \<^verbatim>\<open>int(inf)\<close> raises \<^verbatim>\<open>OverflowError\<close>, which is not.
\<close>

fun int_of_number :: "json \<Rightarrow> py_exn + int" where
  "int_of_number (JInt i) = Inr i"
| "int_of_number (JBool b) = Inr (if b then 1 else 0)"
| "int_of_number (JFloat (Fin q)) = Inr (if 0 \<le> q then floor q else ceiling q)"
| "int_of_number (JFloat PosInf) = Inl OverflowError"
| "int_of_number (JFloat NegInf) = Inl OverflowError"
| "int_of_number v = Inr 0"

definition tokens_of :: "json \<Rightarrow> py_exn + int" where
  "tokens_of response =
     (case response of
        JObj r \<Rightarrow>
          (case dget r ''usage'' of
             JObj u \<Rightarrow> int_of_number (dget u ''total_tokens'')
           | _ \<Rightarrow> Inr 0)
      | _ \<Rightarrow> Inr 0)"

section \<open>Lemmas\<close>

lemma tokens_of_exn: "tokens_of r = Inl ex \<Longrightarrow> ex = OverflowError"
proof -
  have "int_of_number v = Inl ex \<Longrightarrow> ex = OverflowError" for v
    by (cases v rule: int_of_number.cases) auto
  then show "tokens_of r = Inl ex \<Longrightarrow> ex = OverflowError"
    by (auto simp: tokens_of_def split: json.splits)
qed

text \<open>What an attempt that is not retried gives.\<close>

definition attempt_result :: "http_attempt \<Rightarrow> infer_exn + json" where
  "attempt_result a =
     (case a of
        HttpBody (Some j) \<Rightarrow> Inr j
      | HttpBody None \<Rightarrow> Inl BadJson
      | HttpStatus c \<Rightarrow> Inl (Unavailable (Some c))
      | UrlFail \<Rightarrow> Inl (Unavailable None)
      | HttpTimeout \<Rightarrow> Inl InferTimeout
      | HttpRaised \<Rightarrow> Inl InferRaised)"

lemma vllm_attempts_Suc:
  "vllm_attempts http i (Suc n) =
     (if http i = UrlFail then vllm_attempts http (Suc i) n else attempt_result (http i))"
  by (cases "http i") (auto simp: attempt_result_def split: option.split)

lemma vllm_two_attempts:
  "vllm_attempts http 0 (MAX_RETRIES + 1) = attempt_result (if http 0 = UrlFail then http 1 else http 0)"
proof -
  have "vllm_attempts http 0 (Suc (Suc 0)) = attempt_result (if http 0 = UrlFail then http 1 else http 0)"
    unfolding vllm_attempts_Suc by (simp add: attempt_result_def)
  then show ?thesis
    by (simp add: MAX_RETRIES_def numeral_2_eq_2)
qed

lemma probe_gpu:
  "\<exists>g d. probe_inference_health b u get = gpu_state g d \<and>
     g \<in> {''warm'', ''loading'', ''cold'', ''unconfigured'', ''unknown''} \<and>
     (g = ''warm'' \<longleftrightarrow> b \<noteq> [] \<and> (\<exists>h s. u = Some h \<and> get h = ProbeStatus s \<and> 200 \<le> s \<and> s < 300))"
proof -
  have I: ?thesis if "probe_inference_health b u get = gpu_state g d"
    "g \<in> {''warm'', ''loading'', ''cold'', ''unconfigured'', ''unknown''}"
    "g = ''warm'' \<longleftrightarrow> b \<noteq> [] \<and> (\<exists>h s. u = Some h \<and> get h = ProbeStatus s \<and> 200 \<le> s \<and> s < 300)" for g d
    by (rule exI [of _ g], rule exI [of _ d]) (intro conjI that)
  show ?thesis
  proof (cases "b = [] \<or> u = None")
    case True
    show ?thesis
      by (rule I [of "''unconfigured''"]) (use True in \<open>auto simp: probe_inference_health_def\<close>)
  next
    case False
    then obtain h where h: "b \<noteq> []" "u = Some h" by auto
    show ?thesis
    proof (cases "get h")
      case (ProbeStatus s)
      show ?thesis
      proof (cases "200 \<le> s \<and> s < 300")
        case True
        then show ?thesis
          using h ProbeStatus by (intro I [of "''warm''"]) (simp_all add: probe_inference_health_def)
      next
        case False
        then show ?thesis
          using h ProbeStatus
          by (intro I [of "''loading''" "health_returned s"]) (auto simp: probe_inference_health_def)
      qed
    next
      case (ProbeHttpError c)
      show ?thesis
      proof (cases "500 \<le> c \<and> c < 600")
        case True
        then show ?thesis
          using h ProbeHttpError
          by (intro I [of "''loading''" "health_returned c"]) (auto simp: probe_inference_health_def)
      next
        case False
        then show ?thesis
          using h ProbeHttpError
          by (intro I [of "''unknown''" "health_returned c"]) (auto simp: probe_inference_health_def)
      qed
    next
      case ProbeUnreachable
      then show ?thesis
        using h by (intro I [of "''cold''"]) (simp_all add: probe_inference_health_def)
    next
      case ProbeOther
      then show ?thesis
        using h by (intro I [of "''unknown''"]) (simp_all add: probe_inference_health_def)
    qed
  qed
qed

section \<open>Properties\<close>

text \<open>The client returns what its first attempt gave, and tries exactly once more after a
  connection error: an HTTP error status, a timeout and a body that is not JSON are final, and two
  connection errors make the inference plane unavailable.\<close>

theorem vllm_retries_connection_errors_once:
  "vllm_chat_completions (Some u) post r =
     (let attempt = post u (as_vllm_payload r)
      in case (if attempt 0 = UrlFail then attempt 1 else attempt 0) of
           HttpBody (Some j) \<Rightarrow> Inr j
         | HttpBody None \<Rightarrow> Inl BadJson
         | HttpStatus c \<Rightarrow> Inl (Unavailable (Some c))
         | UrlFail \<Rightarrow> Inl (Unavailable None)
         | HttpTimeout \<Rightarrow> Inl InferTimeout
         | HttpRaised \<Rightarrow> Inl InferRaised)"
  unfolding vllm_chat_completions_def option.case vllm_two_attempts Let_def attempt_result_def ..

text \<open>The health probe always answers one of five states, and says the model is warm exactly
  when an endpoint is configured and its health check answered with a 2xx status.\<close>

theorem probe_warm_iff_healthy:
  "\<exists>gpu detail. probe_inference_health base_url health_url get = gpu_state gpu detail \<and>
     gpu \<in> {''warm'', ''loading'', ''cold'', ''unconfigured'', ''unknown''} \<and>
     (gpu = ''warm'' \<longleftrightarrow> base_url \<noteq> [] \<and>
        (\<exists>url s. health_url = Some url \<and> get url = ProbeStatus s \<and> 200 \<le> s \<and> s < 300))"
  by (rule probe_gpu)

end
