(* ===== verification/ModelInstaller.thy ===== *)
theory ModelInstaller
  imports ModelRequests
begin

text \<open>
  The model installer (app/model_installer/reconciler.py, app/model_installer/clients.py), composed
  with the control plane's reconciler endpoints: one pass of \<open>run_once\<close> over the pending requests
  of a model-request store, the HTTP client it reaches them with, and the ConfigMap and the
  deployment it changes.

  What the outside world does with each call is a parameter of the pass (\<open>infra\<close>): an HTTP call
  is delivered, lost before it reaches the control plane, or loses its answer after it took
  effect; AWS and Kubernetes calls succeed or raise.
\<close>

section \<open>The control plane's client\<close>

text \<open>A call that raises: an HTTP error status, or no answer.\<close>

datatype net_exn = HttpError nat | NetError

datatype fate = Delivered | Lost | NoAnswer

text \<open>The text the clients put in a path: it reaches the route as the id when it has no
  delimiter.\<close>

definition path_id :: "string \<Rightarrow> bool" where
  "path_id rid \<longleftrightarrow> rid \<noteq> [] \<and> set rid \<inter> set ''/?#'' = {}"

definition call :: "fate \<Rightarrow> ('w \<Rightarrow> reply \<times> 'w) \<Rightarrow> 'w \<Rightarrow> (net_exn + json) \<times> 'w" where
  "call fate serve w =
     (case fate of
        Lost \<Rightarrow> (Inl NetError, w)
      | NoAnswer \<Rightarrow> (Inl NetError, snd (serve w))
      | Delivered \<Rightarrow>
          (let ((code, payload), w') = serve w
           in (if 400 \<le> code then Inl (HttpError code) else Inr payload, w')))"

text \<open>\<^verbatim>\<open>Authorization: Bearer <token>\<close>, the header of both calls.\<close>

definition reconciler_header :: "string \<Rightarrow> string" where
  "reconciler_header token = ''Bearer '' @ token"

definition status_body :: "string \<Rightarrow> string \<Rightarrow> json" where
  "status_body status error_class = JObj [(''status'', JStr status), (''error_class'', JStr error_class)]"

section \<open>The world\<close>

text \<open>
  \<open>wl_model\<close> is the ConfigMap's \<^verbatim>\<open>model_id\<close> (empty when absent), \<open>wl_served\<close> the model the deployment
  was last restarted with, \<open>wl_scaled\<close> whether \<^verbatim>\<open>scale_nodegroup\<close> has ever returned.
\<close>

record ('s, 'n) world =
  wl_cp :: "('s, 'n) model_state"
  wl_model :: string
  wl_served :: string
  wl_scaled :: bool

text \<open>\<^verbatim>\<open>set_model\<close> patches the ConfigMap, then restarts the deployment; either may raise, and a call that
  raises may have been applied all the same (its answer was lost).  So what a raising \<^verbatim>\<open>set_model\<close>
  leaves is nothing (\<open>PatchFailed\<close>), the ConfigMap alone changed (\<open>RestartFailed\<close>: the answer of the
  patch was lost, or the restart had no effect), or both done (\<open>RestartLost\<close>).\<close>

datatype set_fate = SetDone | PatchFailed | RestartFailed | RestartLost

datatype ready_fate = Ready | NotReady | WaitRaised

definition k8s_set_model :: "set_fate \<Rightarrow> string \<Rightarrow> ('s, 'n) world \<Rightarrow> bool \<times> ('s, 'n) world" where
  "k8s_set_model fate repo w =
     (case fate of
        PatchFailed \<Rightarrow> (False, w)
      | RestartFailed \<Rightarrow> (False, w\<lparr>wl_model := repo\<rparr>)
      | RestartLost \<Rightarrow> (False, w\<lparr>wl_model := repo, wl_served := repo\<rparr>)
      | SetDone \<Rightarrow> (True, w\<lparr>wl_model := repo, wl_served := repo\<rparr>))"

record infra =
  in_list :: fate
  in_first :: fate
  in_second :: fate
  in_scale :: bool
  in_get :: bool
  in_set :: set_fate
  in_ready :: ready_fate
  in_rollback :: set_fate

text \<open>The world's constants: the store and settings of the control plane, the installer's own.\<close>

record ('s, 'n) installer =
  ie_store :: "'s model_request_store"
  ie_notifs :: "'n notif_store option"
  ie_config :: model_config
  ie_token :: string
  ie_allowlist :: "string set"
  ie_enabled :: bool

definition cp_list_pending :: "('s, 'n) installer \<Rightarrow> fate \<Rightarrow> ('s, 'n) world \<Rightarrow> (net_exn + json) \<times> ('s, 'n) world" where
  "cp_list_pending e fate w =
     call fate (\<lambda>w. (build_reconciler_pending_response (ie_store e) (ie_config e)
        (Some (reconciler_header (ie_token e))) (mst_store (wl_cp w)), w)) w"

definition cp_set_status ::
    "('s, 'n) installer \<Rightarrow> fate \<Rightarrow> datetime \<Rightarrow> string \<Rightarrow> string \<Rightarrow> string \<Rightarrow> string \<Rightarrow> ('s, 'n) world
       \<Rightarrow> (net_exn + json) \<times> ('s, 'n) world" where
  "cp_set_status e fate now nuid rid status error_class w =
     call fate
       (\<lambda>w. if \<not> path_id rid then ((HTTP_NOT_FOUND, err_only ''not_found''), w)
            else let (r, cp) = build_reconciler_status_response (ie_store e) (ie_notifs e) (ie_config e)
                        now nuid (Some (reconciler_header (ie_token e))) rid
                        (Some (status_body status error_class)) (wl_cp w)
                 in (r, w\<lparr>wl_cp := cp\<rparr>)) w"

text \<open>\<^verbatim>\<open>data.get("requests", [])\<close> of the list's answer.\<close>

definition pending_of :: "json \<Rightarrow> json list" where
  "pending_of payload =
     (case payload of JObj d \<Rightarrow> (case dget_or d ''requests'' (JArr []) of JArr xs \<Rightarrow> xs | _ \<Rightarrow> []) | _ \<Rightarrow> [])"

section \<open>One pass\<close>

definition installer_allows :: "string set \<Rightarrow> string \<Rightarrow> bool" where
  "installer_allows allowlist repo_id =
     (if allowlist = {} then False
      else if ''*'' \<in> allowlist then True
      else if repo_id \<in> allowlist then True
      else fst (split_char1 (CHR ''/'') repo_id) \<in> allowlist)"

definition rollback :: "infra \<Rightarrow> string \<Rightarrow> string \<Rightarrow> ('s, 'n) world \<Rightarrow> ('s, 'n) world" where
  "rollback io previous attempted w =
     (if previous = [] \<or> previous = attempted then w
      else snd (k8s_set_model (in_rollback io) previous w))"

text \<open>
  From the accepted request on.  \<^verbatim>\<open>set_status\<close> is called twice; either call may raise, which
  ends the pass; the second one is the last thing a pass does.
\<close>

definition finish ::
    "('s, 'n) installer \<Rightarrow> fate \<Rightarrow> datetime \<Rightarrow> string \<Rightarrow> string \<Rightarrow> string \<Rightarrow> string \<Rightarrow> ('s, 'n) world
       \<Rightarrow> (net_exn + bool) \<times> ('s, 'n) world" where
  "finish e fate now nuid rid status error_class w =
     (case cp_set_status e fate now nuid rid status error_class w of
        (Inl ex, w) \<Rightarrow> (Inl ex, w)
      | (Inr _, w) \<Rightarrow> (Inr True, w))"

definition install ::
    "('s, 'n) installer \<Rightarrow> infra \<Rightarrow> datetime \<Rightarrow> string \<Rightarrow> string \<Rightarrow> string \<Rightarrow> ('s, 'n) world
       \<Rightarrow> (net_exn + bool) \<times> ('s, 'n) world" where
  "install e io now nuid rid repo w =
     (case cp_set_status e (in_first io) now nuid rid ''installing'' [] w of
        (Inl ex, w) \<Rightarrow> (Inl ex, w)
      | (Inr _, w) \<Rightarrow>
          if \<not> in_scale io
          then finish e (in_second io) now nuid rid ''failed'' ''gpu_provision_failed'' w
          else
            let w = w\<lparr>wl_scaled := True\<rparr>;
                previous = (if in_get io then wl_model w else [])
            in (case k8s_set_model (in_set io) repo w of
                  (False, w) \<Rightarrow> finish e (in_second io) now nuid rid ''failed'' ''vllm_apply_failed'' w
                | (True, w) \<Rightarrow>
                    (case in_ready io of
                       WaitRaised \<Rightarrow> finish e (in_second io) now nuid rid ''failed'' ''install_failed''
                                      (rollback io previous repo w)
                     | NotReady \<Rightarrow> finish e (in_second io) now nuid rid ''failed'' ''load_timeout''
                                    (rollback io previous repo w)
                     | Ready \<Rightarrow> finish e (in_second io) now nuid rid ''applied'' [] w)))"

definition run_once ::
    "('s, 'n) installer \<Rightarrow> infra \<Rightarrow> datetime \<Rightarrow> string \<Rightarrow> ('s, 'n) world
       \<Rightarrow> (net_exn + bool) \<times> ('s, 'n) world" where
  "run_once e io now nuid w =
     (if \<not> ie_enabled e then (Inr False, w)
      else (case cp_list_pending e (in_list io) w of
              (Inl ex, w) \<Rightarrow> (Inl ex, w)
            | (Inr payload, w) \<Rightarrow>
                (case pending_of payload of
                   [] \<Rightarrow> (Inr False, w)
                 | req # _ \<Rightarrow>
                     (let d = (case req of JObj d \<Rightarrow> d | _ \<Rightarrow> []);
                          rid = py_str (\<lambda>_. []) (dget d ''id'')
                      in (case dget d ''hf_repo_id'' of
                            JStr repo \<Rightarrow>
                              if \<not> hf_repo_match repo
                              then finish e (in_first io) now nuid rid ''failed'' ''repo_invalid'' w
                              else if \<not> installer_allows (ie_allowlist e) repo
                              then finish e (in_first io) now nuid rid ''failed'' ''repo_not_allowed'' w
                              else install e io now nuid rid repo w
                          | _ \<Rightarrow> finish e (in_first io) now nuid rid ''failed'' ''repo_invalid'' w)))))"

section \<open>The lifecycle\<close>

text \<open>The abstract specification: the transitions of a request that the module's header draws.\<close>

inductive lifecycle_step :: "string \<Rightarrow> string \<Rightarrow> bool" where
  start_install: "lifecycle_step ''requested'' ''installing''"
| reject: "lifecycle_step ''requested'' ''failed''"
| succeed: "lifecycle_step ''installing'' ''applied''"
| fail: "lifecycle_step ''installing'' ''failed''"

inductive_cases lifecycle_from_installing: "lifecycle_step ''installing'' t"

definition lifecycle :: "string \<Rightarrow> string \<Rightarrow> bool" where
  "lifecycle = lifecycle_step\<^sup>*\<^sup>*"

lemma lifecycle_refl [simp]: "lifecycle s s"
  by (simp add: lifecycle_def)

lemma lifecycle_requested: "st \<in> {''installing'', ''failed'', ''applied''} \<Longrightarrow> lifecycle ''requested'' st"
proof -
  have "lifecycle_step\<^sup>*\<^sup>* ''requested'' ''applied''"
    by (rule rtranclp.rtrancl_into_rtrancl [OF r_into_rtranclp [of lifecycle_step]])
      (rule start_install, rule succeed)
  then show "st \<in> {''installing'', ''failed'', ''applied''} \<Longrightarrow> lifecycle ''requested'' st"
    by (auto simp: lifecycle_def intro: lifecycle_step.intros)
qed

text \<open>One request advanced.\<close>

definition advance ::
    "string \<Rightarrow> string \<Rightarrow> string \<Rightarrow> datetime \<Rightarrow> model_install_request \<Rightarrow> model_install_request" where
  "advance rid status error_class now r = (if mir_id r = rid then set_status status error_class now r else r)"

lemma advance_id [simp]: "mir_id (advance rid st er now r) = mir_id r"
  by (simp add: advance_def)

lemma advance_advance [simp]:
  "advance rid st2 er2 now (advance rid st1 er1 now r) = advance rid st2 er2 now r"
  by (simp add: advance_def set_status_def)

definition installer_trusted :: "('s, 'n) installer \<Rightarrow> bool" where
  "installer_trusted e \<longleftrightarrow>
     verify_reconciler_token (Some (reconciler_header (ie_token e))) (ie_config e) \<and>
     mc_enabled (ie_config e) \<and> ie_enabled e"

text \<open>What the decision of a pass should be, given how the calls went.\<close>

definition verdict :: "('s, 'n) installer \<Rightarrow> infra \<Rightarrow> string \<Rightarrow> string \<times> string" where
  "verdict e io repo =
     (if \<not> hf_repo_match repo then (''failed'', ''repo_invalid'')
      else if \<not> installer_allows (ie_allowlist e) repo then (''failed'', ''repo_not_allowed'')
      else if \<not> in_scale io then (''failed'', ''gpu_provision_failed'')
      else if in_set io \<noteq> SetDone then (''failed'', ''vllm_apply_failed'')
      else (case in_ready io of
              Ready \<Rightarrow> (''applied'', [])
            | NotReady \<Rightarrow> (''failed'', ''load_timeout'')
            | WaitRaised \<Rightarrow> (''failed'', ''install_failed'')))"

definition installer_status :: "string \<Rightarrow> string \<Rightarrow> bool" where
  "installer_status status error_class \<longleftrightarrow>
     status \<in> {''installing'', ''failed'', ''applied''} \<and> length error_class \<le> 100"

lemma status_body_fields:
  "installer_status st er \<Longrightarrow> status_fields (Some (status_body st er)) = Inr (st, er)"
  by (auto simp: installer_status_def status_fields_def status_body_def RECONCILER_STATUSES_def STATUSES_def)

context model_request_contract
begin

abbreviation requests :: "('s, 'n) world \<Rightarrow> model_install_request list" where
  "requests w \<equiv> items (mst_store (wl_cp w))"

lemma status_served:
  assumes "inv (mst_store cp)" and "installer_status st er"
    and "build_reconciler_status_response store ns config now nuid a rid (Some (status_body st er)) cp = (r, cp')"
  shows "inv (mst_store cp')"
    and "items (mst_store cp') = items (mst_store cp) \<or>
         items (mst_store cp') = map (advance rid st er now) (items (mst_store cp))"
    and "fst r < 400 \<Longrightarrow> items (mst_store cp') = map (advance rid st er now) (items (mst_store cp))"
    and "verify_reconciler_token a config \<Longrightarrow> rid \<in> mir_id ` set (items (mst_store cp)) \<Longrightarrow> fst r = 200"
proof -
  note f = status_body_fields [OF assms(2)]
  obtain u s' where u: "mq_update_status store rid st er now (mst_store cp) = (u, s')"
    by fastforce
  have s': "inv s'" "items s' = map (advance rid st er now) (items (mst_store cp))"
    using inv_update [OF assms(1), of rid st er now] items_update [OF assms(1), of rid st er now] u
    by (auto simp: advance_def)
  have found: "u \<noteq> None \<longleftrightarrow> rid \<in> mir_id ` set (items (mst_store cp))"
    using update_result [OF assms(1), of rid st er now] u by (auto simp: find_None_iff)
  have none: "u = None \<Longrightarrow> items s' = items (mst_store cp)"
    unfolding s'(2) using found by (intro map_idI) (auto simp: advance_def)
  note D = assms(3) [unfolded build_reconciler_status_response_def f sum.case prod.case u]
  show "inv (mst_store cp')"
    using D s'(1) assms(1) by (auto split: if_splits option.splits)
  show "items (mst_store cp') = items (mst_store cp) \<or>
      items (mst_store cp') = map (advance rid st er now) (items (mst_store cp))"
    using D s'(2) by (auto split: if_splits option.splits)
  show "fst r < 400 \<Longrightarrow> items (mst_store cp') = map (advance rid st er now) (items (mst_store cp))"
    using D s'(2) by (auto split: if_splits option.splits)
  show "verify_reconciler_token a config \<Longrightarrow> rid \<in> mir_id ` set (items (mst_store cp)) \<Longrightarrow> fst r = 200"
    using D found by (auto split: option.splits)
qed

text \<open>Every way a status call can go.\<close>

lemma status_call:
  assumes "inv (mst_store (wl_cp w))" and "installer_status st er" and "ie_store e = store"
    and "cp_set_status e fate now nuid rid st er w = (res, w')"
  shows "inv (mst_store (wl_cp w'))"
    and "requests w' = requests w \<or> requests w' = map (advance rid st er now) (requests w)"
    and "res = Inr j \<Longrightarrow> requests w' = map (advance rid st er now) (requests w)"
    and "wl_model w' = wl_model w" and "wl_served w' = wl_served w"
    and "installer_trusted e \<Longrightarrow> fate = Delivered \<Longrightarrow> path_id rid \<Longrightarrow> rid \<in> mir_id ` set (requests w) \<Longrightarrow>
      \<exists>j. res = Inr j"
proof -
  obtain r cp' where b: "build_reconciler_status_response store (ie_notifs e) (ie_config e) now nuid
      (Some (reconciler_header (ie_token e))) rid (Some (status_body st er)) (wl_cp w) = (r, cp')"
    by fastforce
  note S = status_served [OF assms(1,2) b]
  note D = assms(4) [unfolded cp_set_status_def call_def assms(3) b Let_def prod.case]
  obtain code payload where r: "r = (code, payload)" by fastforce
  show "inv (mst_store (wl_cp w'))"
    using D S(1) assms(1) r by (auto split: fate.splits if_splits)
  show "requests w' = requests w \<or> requests w' = map (advance rid st er now) (requests w)"
    using D S(2) r by (auto split: fate.splits if_splits)
  show "res = Inr j \<Longrightarrow> requests w' = map (advance rid st er now) (requests w)"
    using D S(3) r by (auto split: fate.splits if_splits)
  show "wl_model w' = wl_model w" "wl_served w' = wl_served w"
    using D r by (auto split: fate.splits if_splits)
  show "\<exists>j. res = Inr j" if "installer_trusted e" "fate = Delivered" "path_id rid"
    "rid \<in> mir_id ` set (requests w)"
    using D S(4) r that by (auto simp: installer_trusted_def split: if_splits)
qed

lemma finish_call:
  assumes "inv (mst_store (wl_cp w))" and "installer_status st er" and "ie_store e = store"
    and "finish e fate now nuid rid st er w = (res, w')"
  shows "inv (mst_store (wl_cp w'))"
    and "requests w' = requests w \<or> requests w' = map (advance rid st er now) (requests w)"
    and "wl_model w' = wl_model w" and "wl_served w' = wl_served w"
    and "installer_trusted e \<Longrightarrow> fate = Delivered \<Longrightarrow> path_id rid \<Longrightarrow> rid \<in> mir_id ` set (requests w) \<Longrightarrow>
      res = Inr True \<and> requests w' = map (advance rid st er now) (requests w)"
proof -
  obtain q w1 where q: "cp_set_status e fate now nuid rid st er w = (q, w1)"
    by fastforce
  have w1: "w1 = w'" and res: "res = (case q of Inl ex \<Rightarrow> Inl ex | Inr _ \<Rightarrow> Inr True)"
    using assms(4) unfolding finish_def q by (auto split: sum.splits)
  note S = status_call [OF assms(1-3) q, unfolded w1]
  show "inv (mst_store (wl_cp w'))" "wl_model w' = wl_model w" "wl_served w' = wl_served w"
    "requests w' = requests w \<or> requests w' = map (advance rid st er now) (requests w)"
    by (fact S(1), fact S(4), fact S(5), fact S(2))
  show "res = Inr True \<and> requests w' = map (advance rid st er now) (requests w)"
    if "installer_trusted e" "fate = Delivered" "path_id rid" "rid \<in> mir_id ` set (requests w)"
    using S(6) [OF that] S(3) res by auto
qed

end

section \<open>What a pass does\<close>

lemma advance_map [simp]:
  "map (advance rid st2 er2 now) (map (advance rid st1 er1 now) rs) = map (advance rid st2 er2 now) rs"
  by simp

lemma rollback_frame [simp]:
  "wl_cp (rollback io prev repo w) = wl_cp w"
  by (simp add: rollback_def k8s_set_model_def split: set_fate.split)

lemma rollback_model:
  "wl_model (rollback io prev repo w) \<in> {wl_model w, prev}"
  "wl_served (rollback io prev repo w) \<in> {wl_served w, prev}"
  by (auto simp: rollback_def k8s_set_model_def split: set_fate.split)

lemma set_model_frame:
  assumes "k8s_set_model f repo w = (ok, w')"
  shows "wl_cp w' = wl_cp w" and "wl_model w' \<in> {wl_model w, repo}"
    and "wl_served w' \<in> {wl_served w, repo}"
    and "ok \<Longrightarrow> wl_model w' = repo \<and> wl_served w' = repo" and "ok \<longleftrightarrow> f = SetDone"
  using assms by (auto simp: k8s_set_model_def split: set_fate.splits)

lemma installer_statuses [simp]:
  "installer_status ''installing'' []" "installer_status ''applied'' []"
  "installer_status ''failed'' ''repo_invalid''" "installer_status ''failed'' ''repo_not_allowed''"
  "installer_status ''failed'' ''gpu_provision_failed''" "installer_status ''failed'' ''vllm_apply_failed''"
  "installer_status ''failed'' ''install_failed''" "installer_status ''failed'' ''load_timeout''"
  by (simp_all add: installer_status_def)

text \<open>
  What is left to do after the request was marked as being installed: the second status and the
  model the cluster ends with.
\<close>

definition tail_of ::
    "infra \<Rightarrow> string \<Rightarrow> ('s, 'n) world \<Rightarrow> string \<times> string \<times> ('s, 'n) world" where
  "tail_of io repo w =
     (if \<not> in_scale io then (''failed'', ''gpu_provision_failed'', w)
      else let w1 = w\<lparr>wl_scaled := True\<rparr>;
               prev = (if in_get io then wl_model w1 else []);
               (ok, w2) = k8s_set_model (in_set io) repo w1
           in if \<not> ok then (''failed'', ''vllm_apply_failed'', w2)
              else (case in_ready io of
                      Ready \<Rightarrow> (''applied'', [], w2)
                    | NotReady \<Rightarrow> (''failed'', ''load_timeout'', rollback io prev repo w2)
                    | WaitRaised \<Rightarrow> (''failed'', ''install_failed'', rollback io prev repo w2)))"

lemma install_tail:
  "install e io now nuid rid repo w =
     (case cp_set_status e (in_first io) now nuid rid ''installing'' [] w of
        (Inl ex, w1) \<Rightarrow> (Inl ex, w1)
      | (Inr j, w1) \<Rightarrow>
          (case tail_of io repo w1 of
             (st, er, w2) \<Rightarrow> finish e (in_second io) now nuid rid st er w2))"
  by (simp add: install_def tail_of_def Let_def split: prod.split sum.split bool.split ready_fate.split)

text \<open>The model the ConfigMap ends with.\<close>

definition model_after :: "infra \<Rightarrow> string \<Rightarrow> string \<Rightarrow> string" where
  "model_after io repo before =
     (if \<not> in_scale io then before
      else (case in_set io of
              PatchFailed \<Rightarrow> before
            | RestartFailed \<Rightarrow> repo
            | RestartLost \<Rightarrow> repo
            | SetDone \<Rightarrow>
                if in_ready io \<noteq> Ready \<and> in_get io \<and> before \<noteq> [] \<and> in_rollback io \<noteq> PatchFailed then before
                else repo))"

lemma tail_of_effect:
  assumes "tail_of io repo w = (st, er, w')"
  shows "wl_cp w' = wl_cp w" and "installer_status st er" and "st \<in> {''failed'', ''applied''}"
    and "wl_model w' = model_after io repo (wl_model w)"
    and "st = ''applied'' \<Longrightarrow> wl_model w' = repo \<and> wl_served w' = repo"
    and "hf_repo_match repo \<Longrightarrow> installer_allows (ie_allowlist e) repo \<Longrightarrow> (st, er) = verdict e io repo"
  using assms
  by (auto simp: tail_of_def Let_def k8s_set_model_def rollback_def model_after_def verdict_def
      split: if_splits ready_fate.splits set_fate.splits)

context model_request_contract
begin

lemma pending_reply:
  assumes "build_reconciler_pending_response store config a s = (code, payload)"
  shows "code < 400 \<Longrightarrow> pending_of payload = [] \<or>
      pending_of payload = map mir_to_admin_dict (mq_list_pending store 50 s)"
    and "verify_reconciler_token a config \<Longrightarrow> mc_enabled config \<Longrightarrow>
      code = 200 \<and> pending_of payload = map mir_to_admin_dict (mq_list_pending store 50 s)"
  using assms
  by (auto simp: build_reconciler_pending_response_def pending_of_def Let_def split: if_splits)

lemma pending_call:
  assumes "cp_list_pending e fate w = (res, w1)" and "ie_store e = store"
  shows "w1 = w"
    and "res = Inr p \<Longrightarrow> pending_of p = [] \<or>
      pending_of p = map mir_to_admin_dict (mq_list_pending store 50 (mst_store (wl_cp w)))"
    and "installer_trusted e \<Longrightarrow> fate = Delivered \<Longrightarrow> \<exists>p. res = Inr p \<and>
      pending_of p = map mir_to_admin_dict (mq_list_pending store 50 (mst_store (wl_cp w)))"
proof -
  obtain code payload where b: "build_reconciler_pending_response store (ie_config e)
      (Some (reconciler_header (ie_token e))) (mst_store (wl_cp w)) = (code, payload)"
    by fastforce
  note D = assms(1) [unfolded cp_list_pending_def call_def assms(2) b Let_def prod.case]
  show "w1 = w"
    using D by (simp split: fate.splits)
  show "pending_of p = [] \<or>
      pending_of p = map mir_to_admin_dict (mq_list_pending store 50 (mst_store (wl_cp w)))" if "res = Inr p"
    using D pending_reply(1) [OF b] that by (simp split: fate.splits if_splits)
  show "\<exists>p. res = Inr p \<and>
      pending_of p = map mir_to_admin_dict (mq_list_pending store 50 (mst_store (wl_cp w)))"
    if "installer_trusted e" "fate = Delivered"
    using D pending_reply(2) [OF b] that by (auto simp: installer_trusted_def)
qed

lemma pending_head:
  assumes "inv s" and "mq_list_pending store 50 s = r0 # rs"
  shows "r0 \<in> set (items s)" "mir_status r0 = ''requested''"
proof -
  have "set (mq_list_pending store 50 s) \<subseteq>
      set (sort_key mir_created_at (filter (\<lambda>r. mir_status r = ''requested'') (items s)))"
    unfolding list_pending [OF assms(1)] by (rule set_slice_to)
  moreover have "r0 \<in> set (mq_list_pending store 50 s)"
    unfolding assms(2) by (rule list.set_intros)
  ultimately have "r0 \<in> set (filter (\<lambda>r. mir_status r = ''requested'') (items s))"
    unfolding set_sort by (rule subsetD)
  then show "r0 \<in> set (items s)" "mir_status r0 = ''requested''"
    unfolding set_filter by simp_all
qed

text \<open>The effect of a pass, however its calls went.\<close>

definition pass_effect ::
    "('s, 'n) installer \<Rightarrow> infra \<Rightarrow> datetime \<Rightarrow> ('s, 'n) world \<Rightarrow> ('s, 'n) world \<Rightarrow> bool" where
  "pass_effect e io now w w' \<longleftrightarrow>
     inv (mst_store (wl_cp w')) \<and>
     (requests w' = requests w \<and> wl_model w' = wl_model w \<or>
      (\<exists>r0 st er. r0 \<in> set (requests w) \<and> mir_status r0 = ''requested'' \<and> installer_status st er \<and>
         (requests w' = requests w \<or> requests w' = map (advance (mir_id r0) st er now) (requests w)) \<and>
         (wl_model w' = wl_model w \<or>
          hf_repo_match (mir_hf_repo_id r0) \<and> installer_allows (ie_allowlist e) (mir_hf_repo_id r0) \<and>
          wl_model w' = model_after io (mir_hf_repo_id r0) (wl_model w)) \<and>
         (st = ''applied'' \<longrightarrow> wl_model w' = mir_hf_repo_id r0 \<and> wl_served w' = mir_hf_repo_id r0)))"

lemma pass_effectI:
  assumes "inv (mst_store (wl_cp w'))" "r0 \<in> set (requests w)" "mir_status r0 = ''requested''"
    "installer_status st er"
    "requests w' = requests w \<or> requests w' = map (advance (mir_id r0) st er now) (requests w)"
    "wl_model w' = wl_model w \<or>
      hf_repo_match (mir_hf_repo_id r0) \<and> installer_allows (ie_allowlist e) (mir_hf_repo_id r0) \<and>
      wl_model w' = model_after io (mir_hf_repo_id r0) (wl_model w)"
    "st = ''applied'' \<Longrightarrow> wl_model w' = mir_hf_repo_id r0 \<and> wl_served w' = mir_hf_repo_id r0"
  shows "pass_effect e io now w w'"
  unfolding pass_effect_def using assms by blast

lemma install_effect:
  assumes "inv (mst_store (wl_cp w))" and "ie_store e = store"
    and "r0 \<in> set (requests w)" "mir_status r0 = ''requested''"
    and "hf_repo_match (mir_hf_repo_id r0)" "installer_allows (ie_allowlist e) (mir_hf_repo_id r0)"
    and "install e io now nuid (mir_id r0) (mir_hf_repo_id r0) w = (res, w')"
  shows "pass_effect e io now w w'"
    and "installer_trusted e \<Longrightarrow> in_first io = Delivered \<Longrightarrow> in_second io = Delivered \<Longrightarrow> path_id (mir_id r0) \<Longrightarrow>
      res = Inr True \<and> wl_model w' = model_after io (mir_hf_repo_id r0) (wl_model w) \<and>
      requests w' = map (case verdict e io (mir_hf_repo_id r0) of (st, er) \<Rightarrow> advance (mir_id r0) st er now)
        (requests w)"
proof -
  let ?rid = "mir_id r0" and ?repo = "mir_hf_repo_id r0"
  obtain q w1 where q: "cp_set_status e (in_first io) now nuid ?rid ''installing'' [] w = (q, w1)"
    by fastforce
  note Q = status_call [OF assms(1) installer_statuses(1) assms(2) q]
  obtain st er w2 where t: "tail_of io ?repo w1 = (st, er, w2)"
    by (cases "tail_of io ?repo w1")
  note T = tail_of_effect(1-5) [OF t] and V = tail_of_effect(6) [OF t assms(5,6)]
  obtain res2 w3 where f: "finish e (in_second io) now nuid ?rid st er w2 = (res2, w3)"
    by fastforce
  have inv2: "inv (mst_store (wl_cp w2))"
    using Q(1) T(1) by simp
  note F = finish_call [OF inv2 T(2) assms(2) f]
  show "pass_effect e io now w w'"
  proof (cases q)
    case (Inl ex)
    then have "w' = w1"
      using assms(7) q by (simp add: install_tail)
    then show ?thesis
      using Q(1,2,4) assms(3,4) by (intro pass_effectI [of w' r0 w "''installing''" "[]"]) auto
  next
    case (Inr j)
    have w': "w' = w3"
      using assms(7) q t f Inr by (simp add: install_tail)
    have r1: "requests w1 = map (advance ?rid ''installing'' [] now) (requests w)"
      using Q(3) Inr by blast
    have m: "wl_model w' = model_after io ?repo (wl_model w)"
      using F(3) T(4) Q(4) w' by simp
    show ?thesis
    proof (cases "requests w3 = requests w2")
      case True
      then show ?thesis
        using F(1) r1 T(1) m w' assms(3-6)
        by (intro pass_effectI [of w' r0 w "''installing''" "[]"]) auto
    next
      case False
      then have "requests w3 = map (advance ?rid st er now) (requests w2)"
        using F(2) by blast
      then have "requests w' = map (advance ?rid st er now) (requests w)"
        unfolding w' T(1) r1 by simp
      moreover have "st = ''applied'' \<Longrightarrow> wl_model w' = ?repo \<and> wl_served w' = ?repo"
        using T(5) F(3,4) w' by simp
      ultimately show ?thesis
        using F(1) m w' assms(3-6) T(2) by (intro pass_effectI [of w' r0 w st er]) auto
    qed
  qed
  assume d: "installer_trusted e" "in_first io = Delivered" "in_second io = Delivered" "path_id ?rid"
  have "?rid \<in> mir_id ` set (requests w)"
    using assms(3) by blast
  then obtain j where j: "q = Inr j"
    using Q(6) d by blast
  have w': "w' = w3" "res = res2"
    using assms(7) q t f j by (simp_all add: install_tail)
  have r1: "requests w1 = map (advance ?rid ''installing'' [] now) (requests w)"
    using Q(3) j by blast
  have "?rid \<in> mir_id ` set (requests w2)"
    using assms(3) unfolding T(1) r1 by (auto simp: image_image)
  then have "res2 = Inr True" "requests w3 = map (advance ?rid st er now) (requests w2)"
    using F(5) d by blast+
  then show "res = Inr True \<and> wl_model w' = model_after io ?repo (wl_model w) \<and>
      requests w' = map (case verdict e io ?repo of (st, er) \<Rightarrow> advance ?rid st er now) (requests w)"
    unfolding w' V [symmetric] using F(3) T(4) Q(4) by (simp add: T(1) r1)
qed

end

section \<open>Passes\<close>

text \<open>What a pass does with the oldest pending request.\<close>

definition handle_request ::
    "('s, 'n) installer \<Rightarrow> infra \<Rightarrow> datetime \<Rightarrow> string \<Rightarrow> model_install_request \<Rightarrow> ('s, 'n) world
       \<Rightarrow> (net_exn + bool) \<times> ('s, 'n) world" where
  "handle_request e io now nuid r w =
     (if \<not> hf_repo_match (mir_hf_repo_id r)
      then finish e (in_first io) now nuid (mir_id r) ''failed'' ''repo_invalid'' w
      else if \<not> installer_allows (ie_allowlist e) (mir_hf_repo_id r)
      then finish e (in_first io) now nuid (mir_id r) ''failed'' ''repo_not_allowed'' w
      else install e io now nuid (mir_id r) (mir_hf_repo_id r) w)"

lemma admin_dict:
  "\<exists>d. mir_to_admin_dict r = JObj d \<and> dget d ''id'' = JStr (mir_id r) \<and>
     dget d ''hf_repo_id'' = JStr (mir_hf_repo_id r)"
  by (simp add: mir_to_admin_dict_def mir_to_api_fields_def)

lemma run_once_handles:
  assumes "ie_enabled e" and "cp_list_pending e (in_list io) w = (Inr p, w)"
  shows "pending_of p = [] \<Longrightarrow> run_once e io now nuid w = (Inr False, w)"
    and "pending_of p = map mir_to_admin_dict (r # rs) \<Longrightarrow>
      run_once e io now nuid w = handle_request e io now nuid r w"
proof -
  obtain d where d: "mir_to_admin_dict r = JObj d" "dget d ''id'' = JStr (mir_id r)"
      "dget d ''hf_repo_id'' = JStr (mir_hf_repo_id r)"
    using admin_dict by blast
  show "pending_of p = [] \<Longrightarrow> run_once e io now nuid w = (Inr False, w)"
    using assms by (simp add: run_once_def)
  show "pending_of p = map mir_to_admin_dict (r # rs) \<Longrightarrow>
      run_once e io now nuid w = handle_request e io now nuid r w"
    using assms d by (simp add: run_once_def handle_request_def)
qed

context model_request_contract
begin

lemma handle_request_effect:
  assumes "inv (mst_store (wl_cp w))" and "ie_store e = store"
    and "r0 \<in> set (requests w)" "mir_status r0 = ''requested''"
    and "handle_request e io now nuid r0 w = (res, w')"
  shows "pass_effect e io now w w'"
    and "installer_trusted e \<Longrightarrow> in_first io = Delivered \<Longrightarrow> in_second io = Delivered \<Longrightarrow> path_id (mir_id r0) \<Longrightarrow>
      res = Inr True \<and>
      requests w' = map (case verdict e io (mir_hf_repo_id r0) of (st, er) \<Rightarrow> advance (mir_id r0) st er now)
        (requests w) \<and>
      wl_model w' = (if hf_repo_match (mir_hf_repo_id r0) \<and> installer_allows (ie_allowlist e) (mir_hf_repo_id r0)
        then model_after io (mir_hf_repo_id r0) (wl_model w) else wl_model w)"
proof -
  let ?rid = "mir_id r0" and ?repo = "mir_hf_repo_id r0"
  have id: "?rid \<in> mir_id ` set (requests w)"
    using assms(3) by blast
  have R: "pass_effect e io now w w' \<and>
      (installer_trusted e \<longrightarrow> in_first io = Delivered \<longrightarrow> path_id ?rid \<longrightarrow>
         res = Inr True \<and> requests w' = map (advance ?rid ''failed'' er now) (requests w) \<and> wl_model w' = wl_model w)"
    if f: "finish e (in_first io) now nuid ?rid ''failed'' er w = (res, w')" and er: "installer_status ''failed'' er" for er
    using finish_call [OF assms(1) er assms(2) f] id assms(3,4) er
    by (auto intro!: pass_effectI [of w' r0 w "''failed''" er])
  show "pass_effect e io now w w'"
    using assms(5) R [of "''repo_invalid''"] R [of "''repo_not_allowed''"] install_effect(1) [OF assms(1-4)]
    by (auto simp: handle_request_def split: if_splits)
  assume "installer_trusted e" "in_first io = Delivered" "in_second io = Delivered" "path_id ?rid"
  then show "res = Inr True \<and>
      requests w' = map (case verdict e io ?repo of (st, er) \<Rightarrow> advance ?rid st er now) (requests w) \<and>
      wl_model w' = (if hf_repo_match ?repo \<and> installer_allows (ie_allowlist e) ?repo
        then model_after io ?repo (wl_model w) else wl_model w)"
    using assms(5) R [of "''repo_invalid''"] R [of "''repo_not_allowed''"] install_effect(2) [OF assms(1-4)]
    by (auto simp: handle_request_def verdict_def split: if_splits)
qed

text \<open>The effect of a pass: nothing, or what the oldest pending request gets.\<close>

lemma run_once_effect:
  assumes "inv (mst_store (wl_cp w))" and "ie_store e = store"
  shows "pass_effect e io now w (snd (run_once e io now nuid w))"
proof -
  have same: "pass_effect e io now w w"
    using assms by (simp add: pass_effect_def)
  obtain res w1 where l: "cp_list_pending e (in_list io) w = (res, w1)"
    by fastforce
  note L = pending_call [OF l assms(2)]
  show ?thesis
  proof (cases "ie_enabled e \<and> (\<exists>p. res = Inr p)")
    case False
    then show ?thesis
      using same l L(1) by (auto simp: run_once_def split: sum.splits)
  next
    case True
    then obtain p where p: "res = Inr p" and en: "ie_enabled e" by blast
    have l': "cp_list_pending e (in_list io) w = (Inr p, w)"
      using l L(1) p by simp
    show ?thesis
    proof (cases "pending_of p")
      case Nil
      then show ?thesis
        using run_once_handles(1) [OF en l'] same by simp
    next
      case (Cons x xs)
      then have q: "pending_of p = map mir_to_admin_dict (mq_list_pending store 50 (mst_store (wl_cp w)))"
        using L(2) p by auto
      then obtain r0 rs where r: "mq_list_pending store 50 (mst_store (wl_cp w)) = r0 # rs"
        using Cons by (cases "mq_list_pending store 50 (mst_store (wl_cp w))") auto
      obtain res2 w2 where h: "handle_request e io now nuid r0 w = (res2, w2)"
        by fastforce
      show ?thesis
        using run_once_handles(2) [OF en l' q [unfolded r]] h
          handle_request_effect(1) [OF assms pending_head [OF assms(1) r] h] by simp
    qed
  qed
qed

lemma run_once_delivered:
  assumes "inv (mst_store (wl_cp w))" and "ie_store e = store" and "installer_trusted e"
    and "in_list io = Delivered" "in_first io = Delivered" "in_second io = Delivered"
    and "mq_list_pending store 50 (mst_store (wl_cp w)) = r0 # rs" and "path_id (mir_id r0)"
  shows "fst (run_once e io now nuid w) = Inr True"
    and "requests (snd (run_once e io now nuid w)) =
      map (case verdict e io (mir_hf_repo_id r0) of (st, er) \<Rightarrow> advance (mir_id r0) st er now) (requests w)"
    and "wl_model (snd (run_once e io now nuid w)) =
      (if hf_repo_match (mir_hf_repo_id r0) \<and> installer_allows (ie_allowlist e) (mir_hf_repo_id r0)
       then model_after io (mir_hf_repo_id r0) (wl_model w) else wl_model w)"
proof -
  obtain res w1 where l: "cp_list_pending e (in_list io) w = (res, w1)"
    by fastforce
  then obtain p where p: "cp_list_pending e (in_list io) w = (Inr p, w)"
      "pending_of p = map mir_to_admin_dict (r0 # rs)"
    using pending_call [OF l assms(2)] assms(3,4,7) by auto
  have en: "ie_enabled e"
    using assms(3) by (simp add: installer_trusted_def)
  obtain res2 w2 where h: "handle_request e io now nuid r0 w = (res2, w2)"
    by fastforce
  note H = handle_request_effect(2) [OF assms(1,2) pending_head [OF assms(1,7)] h assms(3,5,6,8)]
  show "fst (run_once e io now nuid w) = Inr True"
    "requests (snd (run_once e io now nuid w)) =
      map (case verdict e io (mir_hf_repo_id r0) of (st, er) \<Rightarrow> advance (mir_id r0) st er now) (requests w)"
    "wl_model (snd (run_once e io now nuid w)) =
      (if hf_repo_match (mir_hf_repo_id r0) \<and> installer_allows (ie_allowlist e) (mir_hf_repo_id r0)
       then model_after io (mir_hf_repo_id r0) (wl_model w) else wl_model w)"
    unfolding run_once_handles(2) [OF en p] h using H by simp_all
qed

end

section \<open>Sequences of passes and user requests\<close>

datatype installer_event =
    Pass infra datetime string
  | Create datetime "string option" "json option" string string int

fun world_step ::
    "('s, 'n) installer \<Rightarrow> verifier option \<Rightarrow> installer_event \<Rightarrow> ('s, 'n) world \<Rightarrow> ('s, 'n) world" where
  "world_step e v (Pass io now nuid) w = snd (run_once e io now nuid w)"
| "world_step e v (Create now a b uid nuid secs) w =
     w\<lparr>wl_cp := snd (build_model_request_create_response (ie_store e) (ie_notifs e) (ie_config e) now secs
                uid nuid a b v (wl_cp w))\<rparr>"

text \<open>New ids are new.\<close>

fun event_fresh :: "string list \<Rightarrow> installer_event \<Rightarrow> bool" where
  "event_fresh ids (Create now a b uid nuid secs) \<longleftrightarrow> uid \<notin> set ids"
| "event_fresh ids (Pass io now nuid) \<longleftrightarrow> True"

inductive world_reach ::
    "('s \<Rightarrow> model_install_request list) \<Rightarrow> ('s, 'n) installer \<Rightarrow> verifier option \<Rightarrow> ('s, 'n) world \<Rightarrow> ('s, 'n) world \<Rightarrow> bool"
  for items e v w0 where
  world_start: "world_reach items e v w0 w0"
| world_next: "world_reach items e v w0 w \<Longrightarrow> event_fresh (map mir_id (items (mst_store (wl_cp w)))) ev \<Longrightarrow>
     world_reach items e v w0 (world_step e v ev w)"

text \<open>How the requests evolve: along the lifecycle, and only the ones still requested.\<close>

definition follows :: "model_install_request list \<Rightarrow> model_install_request list \<Rightarrow> bool" where
  "follows rs rs' \<longleftrightarrow>
     (\<forall>r \<in> set rs. \<exists>r' \<in> set rs'. mir_id r' = mir_id r \<and> mir_owner r' = mir_owner r \<and>
        mir_hf_repo_id r' = mir_hf_repo_id r \<and> lifecycle (mir_status r) (mir_status r') \<and>
        (mir_status r \<noteq> ''requested'' \<longrightarrow> r' = r))"

lemma lifecycle_trans: "lifecycle a b \<Longrightarrow> lifecycle b c \<Longrightarrow> lifecycle a c"
  by (simp add: lifecycle_def)

lemma lifecycle_stays: "lifecycle a b \<Longrightarrow> a \<noteq> ''requested'' \<Longrightarrow> b \<noteq> ''requested''"
  unfolding lifecycle_def by (induction rule: rtranclp_induct) (auto elim: lifecycle_step.cases)

lemma follows_refl: "set rs \<subseteq> set rs' \<Longrightarrow> follows rs rs'"
  by (auto simp: follows_def)

lemma follows_trans:
  assumes "follows a b" and "follows b c"
  shows "follows a c"
  unfolding follows_def
proof
  fix r assume "r \<in> set a"
  then obtain r1 where 1: "r1 \<in> set b" "mir_id r1 = mir_id r" "mir_owner r1 = mir_owner r"
      "mir_hf_repo_id r1 = mir_hf_repo_id r" "lifecycle (mir_status r) (mir_status r1)"
      "mir_status r \<noteq> ''requested'' \<longrightarrow> r1 = r"
    using assms(1) unfolding follows_def by blast
  then obtain r2 where "r2 \<in> set c" "mir_id r2 = mir_id r1" "mir_owner r2 = mir_owner r1"
      "mir_hf_repo_id r2 = mir_hf_repo_id r1" "lifecycle (mir_status r1) (mir_status r2)"
      "mir_status r1 \<noteq> ''requested'' \<longrightarrow> r2 = r1"
    using assms(2) unfolding follows_def by blast
  with 1 show "\<exists>r' \<in> set c. mir_id r' = mir_id r \<and> mir_owner r' = mir_owner r \<and>
      mir_hf_repo_id r' = mir_hf_repo_id r \<and> lifecycle (mir_status r) (mir_status r') \<and>
      (mir_status r \<noteq> ''requested'' \<longrightarrow> r' = r)"
    using lifecycle_trans [of "mir_status r" "mir_status r1" "mir_status r2"]
    by (intro bexI [of _ r2] conjI impI) simp_all
qed

lemma follows_advance:
  assumes "distinct (map mir_id rs)" and "r0 \<in> set rs" and "mir_status r0 = ''requested''"
    and "installer_status st er"
  shows "follows rs (map (advance (mir_id r0) st er now) rs)"
  unfolding follows_def
proof
  fix r assume r: "r \<in> set rs"
  show "\<exists>r' \<in> set (map (advance (mir_id r0) st er now) rs). mir_id r' = mir_id r \<and> mir_owner r' = mir_owner r \<and>
      mir_hf_repo_id r' = mir_hf_repo_id r \<and> lifecycle (mir_status r) (mir_status r') \<and>
      (mir_status r \<noteq> ''requested'' \<longrightarrow> r' = r)"
  proof (cases "mir_id r = mir_id r0")
    case True
    then have "r = r0"
      using assms(1,2) r by (metis distinct_map inj_onD)
    moreover have "lifecycle ''requested'' st"
      using assms(4) lifecycle_requested by (simp add: installer_status_def)
    ultimately show ?thesis
      using assms(2,3) by (intro bexI [of _ "advance (mir_id r0) st er now r0"])
        (simp_all add: advance_def set_status_def mir_owner_def)
  next
    case False
    then have "advance (mir_id r0) st er now r = r"
      by (simp add: advance_def)
    then show ?thesis
      using r by (intro bexI [of _ r]) (simp_all add: image_iff, metis)
  qed
qed

definition open_requests :: "model_install_request list \<Rightarrow> nat" where
  "open_requests rs = length (filter (\<lambda>r. mir_status r = ''requested'') rs)"

lemma open_requests_advance:
  assumes "distinct (map mir_id rs)" and "r0 \<in> set rs" and "mir_status r0 = ''requested''"
    and "st \<noteq> ''requested''"
  shows "Suc (open_requests (map (advance (mir_id r0) st er now) rs)) = open_requests rs"
proof -
  obtain xs ys where rs: "rs = xs @ r0 # ys"
    using split_list [OF assms(2)] by blast
  have "map (advance (mir_id r0) st er now) xs = xs" "map (advance (mir_id r0) st er now) ys = ys"
    using assms(1) unfolding rs by (auto simp: advance_def image_iff intro!: map_idI)
  then show ?thesis
    using assms(3,4) unfolding rs by (simp add: open_requests_def advance_def set_status_def)
qed

definition delivered :: "infra \<Rightarrow> bool" where
  "delivered io \<longleftrightarrow> in_list io = Delivered \<and> in_first io = Delivered \<and> in_second io = Delivered"

fun passes :: "('s, 'n) installer \<Rightarrow> (infra \<times> datetime \<times> string) list \<Rightarrow> ('s, 'n) world \<Rightarrow> ('s, 'n) world" where
  "passes e [] w = w"
| "passes e ((io, now, nuid) # ps) w = passes e ps (snd (run_once e io now nuid w))"

lemma slice_to_head: "0 < k \<Longrightarrow> xs \<noteq> [] \<Longrightarrow> slice_to k xs = hd xs # tl (slice_to k xs)"
proof -
  assume "0 < k" "xs \<noteq> []"
  then obtain n where "nat k = Suc n" and "0 \<le> k"
    by (cases "nat k") auto
  then show ?thesis
    using \<open>xs \<noteq> []\<close> by (cases xs) (auto simp: slice_to_def)
qed

context model_request_contract
begin

lemma world_step_effect:
  assumes "inv (mst_store (wl_cp w))" and "ie_store e = store"
    and "event_fresh (map mir_id (requests w)) ev"
  shows "inv (mst_store (wl_cp (world_step e v ev w)))"
    and "follows (requests w) (requests (world_step e v ev w))"
    and "wl_model (world_step e v ev w) = wl_model w \<or>
      hf_repo_match (wl_model (world_step e v ev w)) \<and>
      installer_allows (ie_allowlist e) (wl_model (world_step e v ev w))"
proof -
  have "inv (mst_store (wl_cp (world_step e v ev w))) \<and>
      follows (requests w) (requests (world_step e v ev w)) \<and>
      (wl_model (world_step e v ev w) = wl_model w \<or>
       hf_repo_match (wl_model (world_step e v ev w)) \<and>
       installer_allows (ie_allowlist e) (wl_model (world_step e v ev w)))"
  proof (cases ev)
    case (Pass io now nuid)
    let ?w' = "snd (run_once e io now nuid w)"
    have P: "pass_effect e io now w ?w'"
      by (rule run_once_effect [OF assms(1,2)])
    have "follows (requests w) (requests ?w')"
      using P follows_advance [OF ids_distinct [OF assms(1)]] follows_refl [of "requests w" "requests ?w'"]
      unfolding pass_effect_def by auto
    moreover have "model_after io repo before \<in> {before, repo}" for repo before
      by (auto simp: model_after_def split: set_fate.split)
    then have "wl_model ?w' = wl_model w \<or>
        hf_repo_match (wl_model ?w') \<and> installer_allows (ie_allowlist e) (wl_model ?w')"
      using P unfolding pass_effect_def by (metis insertE singletonD)
    ultimately show ?thesis
      using P Pass unfolding pass_effect_def by simp
  next
    case (Create now a b uid nuid secs)
    let ?cp = "snd (build_model_request_create_response store (ie_notifs e) (ie_config e) now secs uid nuid a b v (wl_cp w))"
    show ?thesis
    proof (cases "mst_store ?cp = mst_store (wl_cp w)")
      case True
      then show ?thesis
        using assms Create by (simp add: follows_refl)
    next
      case False
      then obtain claims r where r: "created_by store (ie_config e) claims b now uid (mst_store (wl_cp w)) r"
          "mst_store ?cp = mq_create store r (mst_store (wl_cp w))"
        using model_create_gates by blast
      then have "mir_id r \<notin> mir_id ` set (requests w)"
        using assms(3) Create by (simp add: created_by_def)
      then show ?thesis
        using assms r Create follows_refl [of "requests w" "requests w @ [r]"]
        by (auto simp: inv_create items_create)
    qed
  qed
  then show "inv (mst_store (wl_cp (world_step e v ev w)))"
    "follows (requests w) (requests (world_step e v ev w))"
    "wl_model (world_step e v ev w) = wl_model w \<or>
      hf_repo_match (wl_model (world_step e v ev w)) \<and>
      installer_allows (ie_allowlist e) (wl_model (world_step e v ev w))"
    by blast+
qed

lemma world_reach_effect:
  assumes "world_reach items e v w0 w" and "inv (mst_store (wl_cp w0))" and "ie_store e = store"
  shows "inv (mst_store (wl_cp w)) \<and> follows (requests w0) (requests w) \<and>
    (wl_model w = wl_model w0 \<or> hf_repo_match (wl_model w) \<and> installer_allows (ie_allowlist e) (wl_model w))"
  using assms(1)
proof induction
  case world_start
  show ?case using assms(2) by (simp add: follows_refl)
next
  case (world_next w ev)
  then have w: "inv (mst_store (wl_cp w))" "follows (requests w0) (requests w)"
    and m: "wl_model w = wl_model w0 \<or> hf_repo_match (wl_model w) \<and> installer_allows (ie_allowlist e) (wl_model w)"
    by blast+
  note E = world_step_effect [OF w(1) assms(3) world_next.hyps(2), of v]
  have "wl_model (world_step e v ev w) = wl_model w0 \<or> hf_repo_match (wl_model (world_step e v ev w)) \<and>
      installer_allows (ie_allowlist e) (wl_model (world_step e v ev w))"
    using E(3) m by (elim disjE) simp_all
  then show ?case
    using E(1) follows_trans [OF w(2) E(2)] by blast
qed

lemma pending_nonempty:
  assumes "inv s" and "open_requests (items s) \<noteq> 0"
  obtains r0 rs where "mq_list_pending store 50 s = r0 # rs"
    "r0 = hd (sort_key mir_created_at (filter (\<lambda>r. mir_status r = ''requested'') (items s)))"
proof -
  have "sort_key mir_created_at (filter (\<lambda>r. mir_status r = ''requested'') (items s)) \<noteq> []"
    using assms(2) unfolding open_requests_def by (metis length_0_conv length_sort)
  then show thesis
    using that slice_to_head [of 50 "sort_key mir_created_at (filter (\<lambda>r. mir_status r = ''requested'') (items s))"]
    unfolding list_pending [OF assms(1)] by simp
qed

lemma passes_drain:
  assumes "ie_store e = store" and "installer_trusted e"
  shows "inv (mst_store (wl_cp w)) \<Longrightarrow> (\<forall>r \<in> set (requests w). path_id (mir_id r)) \<Longrightarrow>
      (\<forall>p \<in> set ps. delivered (fst p)) \<Longrightarrow>
      open_requests (requests (passes e ps w)) = open_requests (requests w) - length ps"
proof (induction ps arbitrary: w)
  case (Cons p ps)
  obtain io now nuid where p: "p = (io, now, nuid)" by (cases p)
  let ?w = "snd (run_once e io now nuid w)"
  have d: "in_list io = Delivered" "in_first io = Delivered" "in_second io = Delivered"
    using Cons.prems(3) p by (auto simp: delivered_def)
  have inv': "inv (mst_store (wl_cp ?w))"
    using run_once_effect [OF Cons.prems(1) assms(1)] unfolding pass_effect_def by blast
  show ?case
  proof (cases "open_requests (requests w) = 0")
    case True
    have "mq_list_pending store 50 (mst_store (wl_cp w)) = []"
      using True unfolding list_pending [OF Cons.prems(1)] open_requests_def by (simp add: slice_to_def)
    moreover obtain res w1 where l: "cp_list_pending e (in_list io) w = (res, w1)"
      by fastforce
    ultimately obtain q where "cp_list_pending e (in_list io) w = (Inr q, w)" "pending_of q = []"
      using pending_call [OF l assms(1)] assms(2) d by auto
    then have "?w = w"
      using run_once_handles(1) assms(2) by (metis installer_trusted_def snd_conv)
    then show ?thesis
      using Cons.IH [OF Cons.prems(1,2)] Cons.prems(3) p True by simp
  next
    case False
    then obtain r0 rs where r: "mq_list_pending store 50 (mst_store (wl_cp w)) = r0 # rs"
      using pending_nonempty [OF Cons.prems(1)] by blast
    note h = pending_head [OF Cons.prems(1) r]
    obtain st er where v: "verdict e io (mir_hf_repo_id r0) = (st, er)"
      by fastforce
    have R: "requests ?w = map (advance (mir_id r0) st er now) (requests w)"
      using run_once_delivered(2) [OF Cons.prems(1) assms d r] h(1) Cons.prems(2) v by simp
    have "st \<noteq> ''requested''"
      using v by (auto simp: verdict_def split: if_splits ready_fate.splits)
    then have "Suc (open_requests (requests ?w)) = open_requests (requests w)"
      unfolding R using open_requests_advance [OF ids_distinct [OF Cons.prems(1)] h] by blast
    moreover have "\<forall>r \<in> set (requests ?w). path_id (mir_id r)"
      unfolding R using Cons.prems(2) by simp
    ultimately show ?thesis
      using Cons.IH [OF inv'] Cons.prems(3) p by simp
  qed
qed simp

end

section \<open>An example\<close>

definition example_request :: model_install_request where
  "example_request = \<lparr>mir_id = ''r1'', mir_tenant_id = ''a.io'', mir_user_id = ''alice'',
     mir_hf_repo_id = ''org/m'', mir_revision = [], mir_status = ''requested'', mir_error_class = [],
     mir_created_at = 0, mir_updated_at = 0\<rparr>"

definition example_installer :: "(pg_models, pg_notifs) installer" where
  "example_installer = \<lparr>ie_store = PostgresModelRequestStore, ie_notifs = None,
     ie_config = example_model_config, ie_token = ''tok'', ie_allowlist = {''org''}, ie_enabled = True\<rparr>"

definition example_world :: "(pg_models, pg_notifs) world" where
  "example_world = \<lparr>wl_cp = example_model_state\<lparr>mst_store := [example_request]\<rparr>, wl_model = ''org/old'',
     wl_served = ''org/old'', wl_scaled = True\<rparr>"

text \<open>A cluster on which every call succeeds, and one whose deployment cannot be restarted.\<close>

definition good_infra :: infra where
  "good_infra = \<lparr>in_list = Delivered, in_first = Delivered, in_second = Delivered, in_scale = True,
     in_get = True, in_set = SetDone, in_ready = Ready, in_rollback = SetDone\<rparr>"

lemma example_trusted: "installer_trusted example_installer"
  by (simp add: installer_trusted_def example_installer_def example_model_config_def reconciler_header_def
      verify_reconciler_token_def split_ws1_def py_lstrip_def py_strip_def py_rstrip_by_def is_space_def
      ord_of_def is_ascii_def Let_def)

lemma example_store: "ie_store example_installer = PostgresModelRequestStore"
  by (simp add: example_installer_def)

lemma example_rows: "mst_store (wl_cp example_world) = [example_request]"
  by (simp add: example_world_def)

lemma example_inv: "table_ok mir_id (mst_store (wl_cp example_world))"
  by (simp add: example_rows table_ok_def)

lemma example_verdict: "verdict example_installer good_infra ''org/m'' = (''applied'', [])"
  by (simp add: verdict_def example_installer_def installer_allows_def good_infra_def hf_repo_match_def
      split_char1_def at_dollar_def is_alnum_def ord_of_def)

lemma example_delivered: "delivered good_infra"
  by (simp add: delivered_def good_infra_def)

lemma example_path: "path_id (mir_id example_request)"
  by (simp add: path_id_def example_request_def)

section \<open>Properties\<close>

text \<open>C7: The installer and the control plane together refine the drawn lifecycle (requested,
  installing, applied or failed).  Over any sequence of installer passes, whose calls may each be
  delivered, be lost or lose their answer, and of user requests, every request stays, keeps its owner and
  repository, and moves along the lifecycle only; and a request that has left \<open>requested\<close> is
  never changed again by a later pass.  In both stores.\<close>

theorem installer_refines_lifecycle:
  fixes w1 w2 :: "(mem_models, 'n) world" and u1 u2 :: "(pg_models, 'n) world"
  shows "(world_reach (map snd) e v w1 w2 \<and> ie_store e = InMemoryModelRequestStore \<and>
      mem_models_ok (mst_store (wl_cp w1)) \<longrightarrow>
      follows (map snd (mst_store (wl_cp w1))) (map snd (mst_store (wl_cp w2)))) \<and>
    (world_reach (\<lambda>rows. rows) f v u1 u2 \<and> ie_store f = PostgresModelRequestStore \<and>
      table_ok mir_id (mst_store (wl_cp u1)) \<longrightarrow>
      follows (mst_store (wl_cp u1)) (mst_store (wl_cp u2)))"
  using mem_models.world_reach_effect [of e v w1 w2] pg_models.world_reach_effect [of f v u1 u2] by blast

lemma installer_refines_lifecycle_witness:
  "follows [example_request] (mst_store (wl_cp (snd (run_once example_installer good_infra 7 ''n'' example_world))))"
proof -
  have "world_reach (\<lambda>rows. rows) example_installer None example_world
      (world_step example_installer None (Pass good_infra 7 ''n'') example_world)"
    by (rule world_next [OF world_start]) simp
  then show ?thesis
    using installer_refines_lifecycle [of _ None _ _ example_installer example_world] example_store example_inv
    by (simp add: example_rows)
qed

text \<open>Over any such sequence the ConfigMap names the model it named at first, or a well-formed
  repository on the installer's own allow-list.  In both stores.\<close>

theorem installer_deploys_allowed:
  fixes w1 w2 :: "(mem_models, 'n) world" and u1 u2 :: "(pg_models, 'n) world"
  shows "(world_reach (map snd) e v w1 w2 \<and> ie_store e = InMemoryModelRequestStore \<and>
      mem_models_ok (mst_store (wl_cp w1)) \<longrightarrow>
      wl_model w2 = wl_model w1 \<or> hf_repo_match (wl_model w2) \<and> installer_allows (ie_allowlist e) (wl_model w2)) \<and>
    (world_reach (\<lambda>rows. rows) f v u1 u2 \<and> ie_store f = PostgresModelRequestStore \<and>
      table_ok mir_id (mst_store (wl_cp u1)) \<longrightarrow>
      wl_model u2 = wl_model u1 \<or> hf_repo_match (wl_model u2) \<and> installer_allows (ie_allowlist f) (wl_model u2))"
  using mem_models.world_reach_effect [of e v w1 w2] pg_models.world_reach_effect [of f v u1 u2] by blast

lemma installer_deploys_allowed_witness:
  "let w = snd (run_once example_installer good_infra 7 ''n'' example_world)
   in wl_model w \<in> {m. m = ''org/old'' \<or> hf_repo_match m \<and> installer_allows {''org''} m}"
proof -
  have "world_reach (\<lambda>rows. rows) example_installer None example_world
      (world_step example_installer None (Pass good_infra 7 ''n'') example_world)"
    by (rule world_next [OF world_start]) simp
  then show ?thesis
    using installer_deploys_allowed [of _ None _ _ example_installer example_world] example_store example_inv
    by (simp add: Let_def example_installer_def example_world_def)
qed

text \<open>A pass whose status calls are delivered decides exactly the oldest requested request:
  it ends with the status and error class of the decision table \<open>verdict\<close>, no other request
  changes, and the ConfigMap ends with \<open>model_after\<close>: the new repository when the model came up, the
  previous one when its load failed and the rollback reached the ConfigMap, and the new repository
  when setting it raised after the ConfigMap was changed.  In both stores.\<close>

theorem installer_pass_decides:
  fixes w :: "(mem_models, 'n) world" and u :: "(pg_models, 'n) world"
  shows "(mem_models_ok (mst_store (wl_cp w)) \<and> ie_store e = InMemoryModelRequestStore \<and> installer_trusted e \<and>
      delivered io \<and> mem_mq_list_pending 50 (mst_store (wl_cp w)) = r0 # rs \<and> path_id (mir_id r0) \<longrightarrow>
      (case run_once e io now nuid w of (res, w') \<Rightarrow>
         res = Inr True \<and>
         map snd (mst_store (wl_cp w')) =
           map (case verdict e io (mir_hf_repo_id r0) of (st, er) \<Rightarrow> advance (mir_id r0) st er now)
             (map snd (mst_store (wl_cp w))) \<and>
         wl_model w' = (if hf_repo_match (mir_hf_repo_id r0) \<and> installer_allows (ie_allowlist e) (mir_hf_repo_id r0)
           then model_after io (mir_hf_repo_id r0) (wl_model w) else wl_model w))) \<and>
    (table_ok mir_id (mst_store (wl_cp u)) \<and> ie_store f = PostgresModelRequestStore \<and> installer_trusted f \<and>
      delivered io \<and> pg_mq_list_pending 50 (mst_store (wl_cp u)) = r0 # rs \<and> path_id (mir_id r0) \<longrightarrow>
      (case run_once f io now nuid u of (res, u') \<Rightarrow>
         res = Inr True \<and>
         mst_store (wl_cp u') =
           map (case verdict f io (mir_hf_repo_id r0) of (st, er) \<Rightarrow> advance (mir_id r0) st er now)
             (mst_store (wl_cp u)) \<and>
         wl_model u' = (if hf_repo_match (mir_hf_repo_id r0) \<and> installer_allows (ie_allowlist f) (mir_hf_repo_id r0)
           then model_after io (mir_hf_repo_id r0) (wl_model u) else wl_model u)))"
proof -
  have m: "mq_list_pending InMemoryModelRequestStore = mem_mq_list_pending"
    and p: "mq_list_pending PostgresModelRequestStore = pg_mq_list_pending"
    by (simp_all add: InMemoryModelRequestStore_def PostgresModelRequestStore_def)
  show ?thesis
    using mem_models.run_once_delivered [of w e io r0 rs now nuid, unfolded m]
      pg_models.run_once_delivered [of u f io r0 rs now nuid, unfolded p]
    by (auto simp: delivered_def split_beta)
qed

lemma installer_pass_decides_witness:
  "case run_once example_installer good_infra 7 ''n'' example_world of (res, w') \<Rightarrow>
     res = Inr True \<and> map mir_status (mst_store (wl_cp w')) = [''applied''] \<and> wl_model w' = ''org/m''"
proof -
  have "pg_mq_list_pending 50 (mst_store (wl_cp example_world)) = [example_request]"
    by (simp add: example_rows pg_mq_list_pending_def slice_to_def) (simp add: example_request_def)
  from installer_pass_decides [of _ _ good_infra example_request "[]" 7 "''n''" example_world example_installer]
    this example_inv example_store example_trusted example_delivered example_path
  have "case run_once example_installer good_infra 7 ''n'' example_world of (res, w') \<Rightarrow>
     res = Inr True \<and> mst_store (wl_cp w') = [advance ''r1'' ''applied'' [] 7 example_request] \<and>
     wl_model w' = model_after good_infra ''org/m'' ''org/old''"
    using example_verdict
    by (simp add: example_rows example_request_def split_beta verdict_def split: if_splits)
      (simp add: example_world_def)
  then show ?thesis
    by (simp add: split_beta advance_def example_request_def set_status_def model_after_def good_infra_def)
qed

text \<open>Passes whose calls are delivered drain the queue: after as many of them as there are requested
  requests none is requested, whatever the cluster did.  In both stores.\<close>

theorem installer_drains:
  fixes w :: "(mem_models, 'n) world" and u :: "(pg_models, 'n) world"
  assumes "list_all (\<lambda>p. delivered (fst p)) ps"
  shows "(mem_models_ok (mst_store (wl_cp w)) \<and> ie_store e = InMemoryModelRequestStore \<and> installer_trusted e \<and>
      (\<forall>r \<in> set (map snd (mst_store (wl_cp w))). path_id (mir_id r)) \<and>
      open_requests (map snd (mst_store (wl_cp w))) \<le> length ps \<longrightarrow>
      open_requests (map snd (mst_store (wl_cp (passes e ps w)))) = 0) \<and>
    (table_ok mir_id (mst_store (wl_cp u)) \<and> ie_store f = PostgresModelRequestStore \<and> installer_trusted f \<and>
      (\<forall>r \<in> set (mst_store (wl_cp u)). path_id (mir_id r)) \<and> open_requests (mst_store (wl_cp u)) \<le> length ps \<longrightarrow>
      open_requests (mst_store (wl_cp (passes f ps u))) = 0)"
  using assms mem_models.passes_drain [of e w ps] pg_models.passes_drain [of f u ps]
  by (simp add: list_all_iff)

lemma installer_drains_witness:
  "open_requests (mst_store (wl_cp (passes example_installer [(good_infra, 7, ''n'')] example_world))) = 0"
  using installer_drains [of "[(good_infra, 7, ''n'')]" _ _ example_world example_installer]
    example_inv example_store example_trusted example_delivered example_path
  by (simp add: example_rows) (simp add: open_requests_def)

end
