(* ===== verification/InstallerCluster.thy ===== *)
theory InstallerCluster
  imports ModelInstaller
begin

text \<open>
  The installer's AWS and Kubernetes clients (app/model_installer/clients.py), with their polling loops, and a
  pass of the reconciler over them.  boto3, the kubernetes client and the clock are the parameter
  \<open>cluster_api\<close>; the log of calls has no counterpart in the code.
\<close>

section \<open>The APIs\<close>

record scaling =
  sc_min :: int
  sc_max :: int
  sc_desired :: int

record nodegroup =
  ng_scaling :: scaling
  ng_status :: string

record replica_counts =
  rp_spec :: "int option"
  rp_available :: "int option"
  rp_updated :: "int option"

text \<open>\<^term>\<open>None\<close> and \<^term>\<open>False\<close> are a call that raises.\<close>

record 'w cluster_api =
  ca_now :: "'w \<Rightarrow> rat"
  ca_sleep :: "rat \<Rightarrow> 'w \<Rightarrow> 'w"
  ca_describe :: "string \<Rightarrow> string \<Rightarrow> 'w \<Rightarrow> nodegroup option \<times> 'w"
  ca_update :: "string \<Rightarrow> string \<Rightarrow> scaling \<Rightarrow> 'w \<Rightarrow> bool \<times> 'w"
  ca_read_configmap :: "string \<Rightarrow> string \<Rightarrow> 'w \<Rightarrow> (string \<times> string) list option option \<times> 'w"
  ca_patch_configmap :: "string \<Rightarrow> string \<Rightarrow> string \<Rightarrow> 'w \<Rightarrow> bool \<times> 'w"
  ca_restart :: "string \<Rightarrow> string \<Rightarrow> 'w \<Rightarrow> bool \<times> 'w"
  ca_read_status :: "string \<Rightarrow> string \<Rightarrow> 'w \<Rightarrow> replica_counts option \<times> 'w"

datatype api_call =
    DescribeNodegroup string string
  | UpdateNodegroup string string scaling
  | ReadConfigMap string string
  | PatchConfigMap string string string
  | RestartDeployment string string
  | ReadStatus string string

record 'w live =
  lv_world :: 'w
  lv_calls :: "api_call list"

definition logged :: "api_call \<Rightarrow> ('w \<Rightarrow> 'a \<times> 'w) \<Rightarrow> 'w live \<Rightarrow> 'a \<times> 'w live" where
  "logged q f c = (case f (lv_world c) of (r, w) \<Rightarrow> (r, \<lparr>lv_world = w, lv_calls = lv_calls c @ [q]\<rparr>))"

definition live_now :: "'w cluster_api \<Rightarrow> 'w live \<Rightarrow> rat" where
  "live_now api c = ca_now api (lv_world c)"

definition live_nap :: "'w cluster_api \<Rightarrow> rat \<Rightarrow> 'w live \<Rightarrow> 'w live" where
  "live_nap api d c = c\<lparr>lv_world := ca_sleep api d (lv_world c)\<rparr>"

section \<open>The polling loops\<close>

text \<open>\<^verbatim>\<open>while time.time() < deadline\<close>: a turn either ends the loop or is followed by a sleep.  On a clock that
  stands still it may run for ever, so it is a partial function.\<close>

partial_function (option) before_deadline ::
    "('c \<Rightarrow> rat) \<Rightarrow> ('c \<Rightarrow> 'c) \<Rightarrow> ('c \<Rightarrow> 'r option \<times> 'c) \<Rightarrow> rat \<Rightarrow> 'c \<Rightarrow> ('r option \<times> 'c) option" where
  "before_deadline now nap turn deadline c =
     (if now c < deadline
      then (case turn c of
              (Some r, c) \<Rightarrow> Some (Some r, c)
            | (None, c) \<Rightarrow> before_deadline now nap turn deadline (nap c))
      else Some (None, c))"

datatype cluster_exn = ApiRaised | NodegroupEntered string | NotActiveInTime

section \<open>The clients\<close>

definition scale_turn :: "'w cluster_api \<Rightarrow> string \<Rightarrow> string \<Rightarrow> 'w live \<Rightarrow> (cluster_exn + unit) option \<times> 'w live" where
  "scale_turn api cluster nodegroup c =
     (case logged (DescribeNodegroup cluster nodegroup) (ca_describe api cluster nodegroup) c of
        (None, c) \<Rightarrow> (Some (Inl ApiRaised), c)
      | (Some ng, c) \<Rightarrow>
          (if ng_status ng = ''ACTIVE'' then Some (Inr ())
           else if ng_status ng \<in> {''CREATE_FAILED'', ''DEGRADED''} then Some (Inl (NodegroupEntered (ng_status ng)))
           else None, c))"

definition scale_nodegroup ::
    "'w cluster_api \<Rightarrow> string \<Rightarrow> string \<Rightarrow> int \<Rightarrow> rat \<Rightarrow> 'w live \<Rightarrow> ((cluster_exn + unit) \<times> 'w live) option" where
  "scale_nodegroup api cluster nodegroup desired wait_s c =
     (case logged (DescribeNodegroup cluster nodegroup) (ca_describe api cluster nodegroup) c of
        (None, c) \<Rightarrow> Some (Inl ApiRaised, c)
      | (Some ng, c) \<Rightarrow>
          let sc = ng_scaling ng in
          if desired \<le> sc_desired sc \<and> ng_status ng = ''ACTIVE'' then Some (Inr (), c)
          else
            let new = \<lparr>sc_min = sc_min sc, sc_max = max (sc_max sc) desired, sc_desired = desired\<rparr> in
            (case logged (UpdateNodegroup cluster nodegroup new) (ca_update api cluster nodegroup new) c of
               (False, c) \<Rightarrow> Some (Inl ApiRaised, c)
             | (True, c) \<Rightarrow>
                 (case before_deadline (live_now api) (live_nap api 15) (scale_turn api cluster nodegroup)
                         (live_now api c + wait_s) c of
                    None \<Rightarrow> None
                  | Some (None, c) \<Rightarrow> Some (Inl NotActiveInTime, c)
                  | Some (Some r, c) \<Rightarrow> Some (r, c))))"

text \<open>\<^verbatim>\<open>(cm.data or {}).get("model_id", "")\<close>.\<close>

definition configured_model :: "(string \<times> string) list option \<Rightarrow> string" where
  "configured_model data =
     (case data of None \<Rightarrow> [] | Some d \<Rightarrow> (case map_of d ''model_id'' of None \<Rightarrow> [] | Some m \<Rightarrow> m))"

definition get_model :: "'w cluster_api \<Rightarrow> string \<Rightarrow> string \<Rightarrow> 'w live \<Rightarrow> string option \<times> 'w live" where
  "get_model api namespace configmap c =
     (case logged (ReadConfigMap namespace configmap) (ca_read_configmap api namespace configmap) c of
        (None, c) \<Rightarrow> (None, c)
      | (Some data, c) \<Rightarrow> (Some (configured_model data), c))"

definition set_model :: "'w cluster_api \<Rightarrow> string \<Rightarrow> string \<Rightarrow> string \<Rightarrow> string \<Rightarrow> 'w live \<Rightarrow> bool \<times> 'w live" where
  "set_model api namespace configmap deployment repo_id c =
     (case logged (PatchConfigMap namespace configmap repo_id) (ca_patch_configmap api namespace configmap repo_id) c of
        (False, c) \<Rightarrow> (False, c)
      | (True, c) \<Rightarrow> logged (RestartDeployment namespace deployment) (ca_restart api namespace deployment) c)"

definition replicas_ready :: "replica_counts \<Rightarrow> bool" where
  "replicas_ready dep =
     (let count = case_option 0 id; spec = count (rp_spec dep)
      in 0 < spec \<and> spec \<le> count (rp_available dep) \<and> spec \<le> count (rp_updated dep))"

definition wait_turn :: "'w cluster_api \<Rightarrow> string \<Rightarrow> string \<Rightarrow> 'w live \<Rightarrow> (cluster_exn + bool) option \<times> 'w live" where
  "wait_turn api namespace deployment c =
     (case logged (ReadStatus namespace deployment) (ca_read_status api namespace deployment) c of
        (None, c) \<Rightarrow> (Some (Inl ApiRaised), c)
      | (Some dep, c) \<Rightarrow> (if replicas_ready dep then Some (Inr True) else None, c))"

definition wait_ready ::
    "'w cluster_api \<Rightarrow> string \<Rightarrow> string \<Rightarrow> rat \<Rightarrow> 'w live \<Rightarrow> ((cluster_exn + bool) \<times> 'w live) option" where
  "wait_ready api namespace deployment timeout_s c =
     (case before_deadline (live_now api) (live_nap api 10) (wait_turn api namespace deployment)
             (live_now api c + timeout_s) c of
        None \<Rightarrow> None
      | Some (None, c) \<Rightarrow> Some (Inr False, c)
      | Some (Some r, c) \<Rightarrow> Some (r, c))"

section \<open>A pass over the clients\<close>

record cluster_names =
  cn_cluster :: string
  cn_nodegroup :: string
  cn_namespace :: string
  cn_deployment :: string
  cn_configmap :: string
  cn_ready_timeout_s :: rat

text \<open>The status call reaches the control plane's part of the world only.\<close>

definition live_status ::
    "('s, 'n) installer \<Rightarrow> fate \<Rightarrow> datetime \<Rightarrow> string \<Rightarrow> string \<Rightarrow> string \<Rightarrow> string \<Rightarrow> ('s, 'n) model_state
       \<Rightarrow> (net_exn + json) \<times> ('s, 'n) model_state" where
  "live_status e fate now nuid rid status error_class cp =
     (case cp_set_status e fate now nuid rid status error_class
             \<lparr>wl_cp = cp, wl_model = [], wl_served = [], wl_scaled = False\<rparr> of (r, w) \<Rightarrow> (r, wl_cp w))"

definition live_finish ::
    "('s, 'n) installer \<Rightarrow> fate \<Rightarrow> datetime \<Rightarrow> string \<Rightarrow> string \<Rightarrow> string \<Rightarrow> string \<Rightarrow> ('s, 'n) model_state \<times> 'w live
       \<Rightarrow> (net_exn + bool) \<times> ('s, 'n) model_state \<times> 'w live" where
  "live_finish e fate now nuid rid status error_class st =
     (case live_status e fate now nuid rid status error_class (fst st) of
        (Inl ex, cp) \<Rightarrow> (Inl ex, cp, snd st)
      | (Inr _, cp) \<Rightarrow> (Inr True, cp, snd st))"

definition live_rollback :: "'w cluster_api \<Rightarrow> cluster_names \<Rightarrow> string \<Rightarrow> string \<Rightarrow> 'w live \<Rightarrow> 'w live" where
  "live_rollback api cn previous attempted c =
     (if previous = [] \<or> previous = attempted then c
      else snd (set_model api (cn_namespace cn) (cn_configmap cn) (cn_deployment cn) previous c))"

definition install_live ::
    "('s, 'n) installer \<Rightarrow> 'w cluster_api \<Rightarrow> cluster_names \<Rightarrow> fate \<Rightarrow> fate \<Rightarrow> datetime \<Rightarrow> string \<Rightarrow> string \<Rightarrow> string
       \<Rightarrow> ('s, 'n) model_state \<times> 'w live \<Rightarrow> ((net_exn + bool) \<times> ('s, 'n) model_state \<times> 'w live) option" where
  "install_live e api cn first second now nuid rid repo st =
     (let fin = (\<lambda>status error_class st. Some (live_finish e second now nuid rid status error_class st)) in
      case live_status e first now nuid rid ''installing'' [] (fst st) of
        (Inl ex, cp) \<Rightarrow> Some (Inl ex, cp, snd st)
      | (Inr _, cp) \<Rightarrow>
          (case scale_nodegroup api (cn_cluster cn) (cn_nodegroup cn) 1 600 (snd st) of
             None \<Rightarrow> None
           | Some (Inl _, c) \<Rightarrow> fin ''failed'' ''gpu_provision_failed'' (cp, c)
           | Some (Inr _, c) \<Rightarrow>
               (case get_model api (cn_namespace cn) (cn_configmap cn) c of
                  (m, c) \<Rightarrow>
                    let previous = (case m of None \<Rightarrow> [] | Some p \<Rightarrow> p) in
                    (case set_model api (cn_namespace cn) (cn_configmap cn) (cn_deployment cn) repo c of
                       (False, c) \<Rightarrow> fin ''failed'' ''vllm_apply_failed'' (cp, c)
                     | (True, c) \<Rightarrow>
                         (case wait_ready api (cn_namespace cn) (cn_deployment cn) (cn_ready_timeout_s cn) c of
                            None \<Rightarrow> None
                          | Some (Inl _, c) \<Rightarrow>
                              fin ''failed'' ''install_failed'' (cp, live_rollback api cn previous repo c)
                          | Some (Inr ready, c) \<Rightarrow>
                              if \<not> ready
                              then fin ''failed'' ''load_timeout'' (cp, live_rollback api cn previous repo c)
                              else fin ''applied'' [] (cp, c))))))"

text \<open>The list of pending requests is read with the fate \<open>listed\<close>.\<close>

definition run_live ::
    "('s, 'n) installer \<Rightarrow> 'w cluster_api \<Rightarrow> cluster_names \<Rightarrow> fate \<Rightarrow> fate \<Rightarrow> fate \<Rightarrow> datetime \<Rightarrow> string
       \<Rightarrow> ('s, 'n) model_state \<times> 'w live \<Rightarrow> ((net_exn + bool) \<times> ('s, 'n) model_state \<times> 'w live) option" where
  "run_live e api cn listed first second now nuid st =
     (if \<not> ie_enabled e then Some (Inr False, st)
      else (case fst (cp_list_pending e listed \<lparr>wl_cp = fst st, wl_model = [], wl_served = [], wl_scaled = False\<rparr>) of
              Inl ex \<Rightarrow> Some (Inl ex, st)
            | Inr payload \<Rightarrow>
                (case pending_of payload of
                   [] \<Rightarrow> Some (Inr False, st)
                 | req # _ \<Rightarrow>
                     (let d = (case req of JObj d \<Rightarrow> d | _ \<Rightarrow> []);
                          rid = py_str (\<lambda>_. []) (dget d ''id'');
                          reject = (\<lambda>error_class. Some (live_finish e first now nuid rid ''failed'' error_class st))
                      in (case dget d ''hf_repo_id'' of
                            JStr repo \<Rightarrow>
                              if \<not> hf_repo_match repo then reject ''repo_invalid''
                              else if \<not> installer_allows (ie_allowlist e) repo then reject ''repo_not_allowed''
                              else install_live e api cn first second now nuid rid repo st
                          | _ \<Rightarrow> reject ''repo_invalid'')))))"

section \<open>Polling loops, in general\<close>

lemma before_deadline_unfold:
  "before_deadline now nap turn deadline c =
     (if now c < deadline
      then (case turn c of
              (Some r, c) \<Rightarrow> Some (Some r, c)
            | (None, c) \<Rightarrow> before_deadline now nap turn deadline (nap c))
      else Some (None, c))"
  by (rule before_deadline.simps)

text \<open>What the turns and the sleeps keep, the loop keeps; and it ends when sleeping moves the clock.\<close>

lemma before_deadline_keeps:
  assumes "before_deadline now nap turn deadline c = Some (r, c')" and "P c"
    and "\<And>c r c'. P c \<Longrightarrow> turn c = (r, c') \<Longrightarrow> P c'" and "\<And>c. P c \<Longrightarrow> P (nap c)"
  shows "P c'"
proof -
  have "(\<forall>c r c'. P c \<longrightarrow> turn c = (r, c') \<longrightarrow> P c') \<longrightarrow> (\<forall>c. P c \<longrightarrow> P (nap c)) \<longrightarrow> P c \<longrightarrow> P (snd (r, c'))"
  proof (rule before_deadline.raw_induct [where P = "\<lambda>now nap turn deadline c rc.
        (\<forall>c r c'. P c \<longrightarrow> turn c = (r, c') \<longrightarrow> P c') \<longrightarrow> (\<forall>c. P c \<longrightarrow> P (nap c)) \<longrightarrow> P c \<longrightarrow> P (snd rc)",
        OF _ assms(1)], goal_cases)
    case (1 go now nap turn deadline c rc)
    show ?case
    proof (intro impI)
      assume turn: "\<forall>c r c'. P c \<longrightarrow> turn c = (r, c') \<longrightarrow> P c'" and nap: "\<forall>c. P c \<longrightarrow> P (nap c)" and c: "P c"
      obtain r c1 where t: "turn c = (r, c1)"
        by fastforce
      then have c1: "P c1"
        using turn c by blast
      show "P (snd rc)"
      proof (cases "now c < deadline \<and> r = None")
        case True
        then have "go now nap turn deadline (nap c1) = Some rc"
          using 1(2) t by simp
        from 1(1) [OF this] show ?thesis
          using turn nap c1 by blast
      next
        case False
        then have "rc = (r, c1) \<or> rc = (None, c)"
          using 1(2) t by (cases r) (simp_all split: if_splits)
        then show ?thesis
          using c c1 by auto
      qed
    qed
  qed
  then show ?thesis
    using assms(2-4) by simp
qed

lemma before_deadline_ends:
  assumes "\<And>c. (now c :: rat) \<le> now (snd (turn c))" and "\<And>c. now c + d \<le> now (nap c)"
    and "\<And>c. size_of (snd (turn c)) \<le> size_of c + (1::nat)" and "\<And>c. size_of (nap c) = size_of c"
  shows "deadline - now c \<le> of_nat n * d \<Longrightarrow>
    \<exists>r c'. before_deadline now nap turn deadline c = Some (r, c') \<and> size_of c' \<le> size_of c + n"
proof (induction n arbitrary: c)
  case 0
  then show ?case
    by (simp add: before_deadline_unfold [of now nap turn deadline c])
next
  case (Suc n)
  obtain r c1 where t: "turn c = (r, c1)"
    by fastforce
  have clock: "now c \<le> now c1" "now c1 + d \<le> now (nap c1)"
    using assms(1) [of c] assms(2) [of c1] t by simp_all
  have grown: "size_of c1 \<le> size_of c + 1"
    using assms(3) [of c] t by simp
  show ?case
  proof (cases "now c < deadline \<and> r = None")
    case True
    have "deadline - now (nap c1) \<le> of_nat n * d"
      using Suc.prems clock by (simp add: algebra_simps)
    from Suc.IH [OF this] obtain r' c' where
      "before_deadline now nap turn deadline (nap c1) = Some (r', c')" "size_of c' \<le> size_of c1 + n"
      using assms(4) by auto
    then show ?thesis
      using True t grown clock by (auto simp: before_deadline_unfold [of now nap turn deadline c])
  next
    case False
    then show ?thesis
      using t grown clock by (cases r) (auto simp: before_deadline_unfold [of now nap turn deadline c])
  qed
qed

section \<open>A pass ends\<close>

text \<open>Calls do not turn the clock back, and a sleep takes as long as it was asked for.\<close>

definition cluster_clock :: "'w cluster_api \<Rightarrow> bool" where
  "cluster_clock api \<longleftrightarrow>
     (\<forall>a b w. ca_now api w \<le> ca_now api (snd (ca_describe api a b w))) \<and>
     (\<forall>a b sc w. ca_now api w \<le> ca_now api (snd (ca_update api a b sc w))) \<and>
     (\<forall>a b w. ca_now api w \<le> ca_now api (snd (ca_read_status api a b w))) \<and>
     (\<forall>d w. 0 \<le> d \<longrightarrow> ca_now api w + d \<le> ca_now api (ca_sleep api d w))"

lemma logged_snd:
  "snd (logged q f c) = \<lparr>lv_world = snd (f (lv_world c)), lv_calls = lv_calls c @ [q]\<rparr>"
  "fst (logged q f c) = fst (f (lv_world c))"
  by (simp_all add: logged_def split_beta)

lemma logged_calls: "logged q f c = (r, c') \<Longrightarrow> lv_calls c' = lv_calls c @ [q]"
  by (auto simp: logged_def split: prod.splits)

lemma turn_snd:
  "snd (scale_turn api cl ng c) = snd (logged (DescribeNodegroup cl ng) (ca_describe api cl ng) c)"
  "snd (wait_turn api ns dep c) = snd (logged (ReadStatus ns dep) (ca_read_status api ns dep) c)"
  by (simp_all add: scale_turn_def wait_turn_def split: prod.split option.split)

lemma live_nap_calls [simp]: "lv_calls (live_nap api d c) = lv_calls c"
  by (simp add: live_nap_def)

lemma scale_loop_ends:
  assumes "cluster_clock api" and "deadline - live_now api c \<le> of_nat n * 15"
  shows "\<exists>r c'. before_deadline (live_now api) (live_nap api 15) (scale_turn api cl ng) deadline c = Some (r, c') \<and>
    length (lv_calls c') \<le> length (lv_calls c) + n"
  by (rule before_deadline_ends [where size_of = "\<lambda>c. length (lv_calls c)" and d = 15])
    (use assms in \<open>simp_all add: turn_snd logged_snd live_now_def live_nap_def cluster_clock_def\<close>)

lemma wait_loop_ends:
  assumes "cluster_clock api" and "deadline - live_now api c \<le> of_nat n * 10"
  shows "\<exists>r c'. before_deadline (live_now api) (live_nap api 10) (wait_turn api ns dep) deadline c = Some (r, c') \<and>
    length (lv_calls c') \<le> length (lv_calls c) + n"
  by (rule before_deadline_ends [where size_of = "\<lambda>c. length (lv_calls c)" and d = 10])
    (use assms in \<open>simp_all add: turn_snd logged_snd live_now_def live_nap_def cluster_clock_def\<close>)

lemma scale_ends:
  assumes "cluster_clock api"
  shows "\<exists>r c'. scale_nodegroup api cl ng desired 600 c = Some (r, c') \<and> length (lv_calls c') \<le> length (lv_calls c) + 42"
proof -
  obtain g c1 where g: "logged (DescribeNodegroup cl ng) (ca_describe api cl ng) c = (g, c1)"
    by fastforce
  have 1: "length (lv_calls c1) = length (lv_calls c) + 1"
    using logged_calls [OF g] by simp
  show ?thesis
  proof (cases g)
    case None
    then show ?thesis
      using g 1 by (simp add: scale_nodegroup_def)
  next
    case (Some n)
    let ?new = "\<lparr>sc_min = sc_min (ng_scaling n), sc_max = max (sc_max (ng_scaling n)) desired, sc_desired = desired\<rparr>"
    obtain ok c2 where u: "logged (UpdateNodegroup cl ng ?new) (ca_update api cl ng ?new) c1 = (ok, c2)"
      by fastforce
    have 2: "length (lv_calls c2) = length (lv_calls c) + 2"
      using logged_calls [OF u] 1 by simp
    obtain r c3 where "before_deadline (live_now api) (live_nap api 15) (scale_turn api cl ng) (live_now api c2 + 600) c2
        = Some (r, c3)" "length (lv_calls c3) \<le> length (lv_calls c2) + 40"
      using scale_loop_ends [OF assms, of "live_now api c2 + 600" c2 40 cl ng] by auto
    then show ?thesis
      using g Some u 1 2 by (cases ok; cases r) (simp_all add: scale_nodegroup_def Let_def)
  qed
qed

lemma wait_ends:
  assumes "cluster_clock api"
  shows "\<exists>r c'. wait_ready api ns dep timeout c = Some (r, c') \<and>
    length (lv_calls c') \<le> length (lv_calls c) + nat \<lceil>timeout / 10\<rceil>"
proof -
  have "timeout \<le> of_nat (nat \<lceil>timeout / 10\<rceil>) * 10"
    using of_nat_ceiling [of "timeout / 10"] by simp
  then obtain r c' where "before_deadline (live_now api) (live_nap api 10) (wait_turn api ns dep) (live_now api c + timeout) c
      = Some (r, c')" "length (lv_calls c') \<le> length (lv_calls c) + nat \<lceil>timeout / 10\<rceil>"
    using wait_loop_ends [OF assms, of "live_now api c + timeout" c "nat \<lceil>timeout / 10\<rceil>" ns dep] by auto
  then show ?thesis
    by (cases r) (simp_all add: wait_ready_def)
qed

lemma set_model_calls: "length (lv_calls (snd (set_model api ns cm dep repo c))) \<le> length (lv_calls c) + 2"
  by (auto simp: set_model_def logged_snd dest!: logged_calls split: prod.split bool.split)

lemma get_model_calls: "length (lv_calls (snd (get_model api ns cm c))) = length (lv_calls c) + 1"
  by (auto simp: get_model_def dest!: logged_calls split: prod.split option.split)

lemma rollback_calls: "length (lv_calls (live_rollback api cn p a c)) \<le> length (lv_calls c) + 2"
  using set_model_calls [of api "cn_namespace cn" "cn_configmap cn" "cn_deployment cn" p c]
  by (simp add: live_rollback_def)

lemma finish_live [simp]: "snd (snd (live_finish e f now nuid rid s er st)) = snd st"
  by (simp add: live_finish_def split: prod.split sum.split)

lemma install_live_ends:
  assumes "cluster_clock api"
  shows "\<exists>r st'. install_live e api cn f1 f2 now nuid rid repo st = Some (r, st') \<and>
    length (lv_calls (snd st')) \<le> length (lv_calls (snd st)) + 47 + nat \<lceil>cn_ready_timeout_s cn / 10\<rceil>"
    (is "?P (install_live e api cn f1 f2 now nuid rid repo st)")
proof -
  let ?n = "47 + nat \<lceil>cn_ready_timeout_s cn / 10\<rceil>"
  have fin: "?P (Some (live_finish e f2 now nuid rid s er (cp, c)))"
    if "length (lv_calls c) \<le> length (lv_calls (snd st)) + ?n" for s er cp c
    using that by (cases "live_finish e f2 now nuid rid s er (cp, c)") (use finish_live [of e f2 now nuid rid s er "(cp, c)"] in auto)
  obtain r0 cp where st: "live_status e f1 now nuid rid ''installing'' [] (fst st) = (r0, cp)"
    by fastforce
  obtain r1 c1 where scale: "scale_nodegroup api (cn_cluster cn) (cn_nodegroup cn) 1 600 (snd st) = Some (r1, c1)"
    and l1: "length (lv_calls c1) \<le> length (lv_calls (snd st)) + 42"
    using scale_ends [OF assms] by blast
  obtain m c2 where get: "get_model api (cn_namespace cn) (cn_configmap cn) c1 = (m, c2)"
    by fastforce
  obtain ok c3 where set: "set_model api (cn_namespace cn) (cn_configmap cn) (cn_deployment cn) repo c2 = (ok, c3)"
    by fastforce
  obtain r4 c4 where wait: "wait_ready api (cn_namespace cn) (cn_deployment cn) (cn_ready_timeout_s cn) c3 = Some (r4, c4)"
    and l4: "length (lv_calls c4) \<le> length (lv_calls c3) + nat \<lceil>cn_ready_timeout_s cn / 10\<rceil>"
    using wait_ends [OF assms] by blast
  have l: "length (lv_calls c3) \<le> length (lv_calls (snd st)) + 45"
    using get_model_calls [of api "cn_namespace cn" "cn_configmap cn" c1] l1 get set
      set_model_calls [of api "cn_namespace cn" "cn_configmap cn" "cn_deployment cn" repo c2] by simp
  have undone: "length (lv_calls (live_rollback api cn p repo c4)) \<le> length (lv_calls (snd st)) + ?n" for p
    using rollback_calls [of api cn p repo c4] l l4 by simp
  note turn = install_live_def [of e api cn f1 f2 now nuid rid repo st, unfolded Let_def st prod.case scale get set wait
      option.case]
  show ?thesis
  proof (cases r0)
    case (Inl ex)
    then show ?thesis
      by (simp add: turn)
  next
    case r0: (Inr j)
    consider (failed) ex where "r1 = Inl ex" | (unset) u where "r1 = Inr u" "\<not> ok"
      | (unready) u ex where "r1 = Inr u" "ok" "r4 = Inl ex" | (late) u where "r1 = Inr u" "ok" "r4 = Inr False"
      | (ready) u where "r1 = Inr u" "ok" "r4 = Inr True"
      by (cases r1; cases ok; cases r4) auto
    then show ?thesis
      by cases (use l1 l l4 in \<open>simp_all add: turn r0 fin [simplified] undone [simplified]\<close>)
  qed
qed

lemma run_live_ends:
  assumes "cluster_clock api"
  shows "\<exists>r st'. run_live e api cn fl f1 f2 now nuid st = Some (r, st') \<and>
    length (lv_calls (snd st')) \<le> length (lv_calls (snd st)) + 47 + nat \<lceil>cn_ready_timeout_s cn / 10\<rceil>"
    (is "?P (run_live e api cn fl f1 f2 now nuid st)")
proof -
  have fin: "?P (Some (live_finish e f now nuid rid s er st))" for f rid s er
    by (cases "live_finish e f now nuid rid s er st") (use finish_live [of e f now nuid rid s er st] in auto)
  have inst: "?P (install_live e api cn f1 f2 now nuid rid repo st)" for rid repo
    by (rule install_live_ends [OF assms])
  show ?thesis
    by (auto simp: run_live_def Let_def fin [simplified] inst [simplified] split: sum.split list.split json.split)
qed

section \<open>A pass over the clients is a pass of the reconciler's model\<close>

text \<open>
  What Kubernetes documents of the objects the installer names, while nobody else changes them: a read shows the
  ConfigMap's model; an accepted patch replaces it; an accepted restart serves it; a patch or a restart that raises
  was applied as a whole or not at all (the client cannot tell which); and no other call in a pass changes either.
\<close>

definition same_model :: "('w \<Rightarrow> string) \<Rightarrow> ('w \<Rightarrow> string) \<Rightarrow> 'w \<Rightarrow> 'w \<Rightarrow> bool" where
  "same_model model_of served_of w w' \<longleftrightarrow> model_of w' = model_of w \<and> served_of w' = served_of w"

definition cluster_laws :: "'w cluster_api \<Rightarrow> cluster_names \<Rightarrow> ('w \<Rightarrow> string) \<Rightarrow> ('w \<Rightarrow> string) \<Rightarrow> bool" where
  "cluster_laws api cn model_of served_of \<longleftrightarrow>
     (let ns = cn_namespace cn; cm = cn_configmap cn; dep = cn_deployment cn; cl = cn_cluster cn; ng = cn_nodegroup cn;
          same = same_model model_of served_of
      in (\<forall>w. same w (snd (ca_describe api cl ng w))) \<and> (\<forall>sc w. same w (snd (ca_update api cl ng sc w))) \<and>
         (\<forall>w. same w (snd (ca_read_status api ns dep w))) \<and> (\<forall>d w. same w (ca_sleep api d w)) \<and>
         (\<forall>w. same w (snd (ca_read_configmap api ns cm w))) \<and>
         (\<forall>w. fst (ca_read_configmap api ns cm w) \<in>
            insert None {Some data |data. configured_model data = model_of w}) \<and>
         (\<forall>m w. case ca_patch_configmap api ns cm m w of
                  (ok, w') \<Rightarrow> (model_of w' = m \<or> \<not> ok \<and> model_of w' = model_of w) \<and> served_of w' = served_of w) \<and>
         (\<forall>w. case ca_restart api ns dep w of
                (ok, w') \<Rightarrow> model_of w' = model_of w \<and>
                  (served_of w' = model_of w \<or> \<not> ok \<and> served_of w' = served_of w)))"

definition live_world ::
    "('w \<Rightarrow> string) \<Rightarrow> ('w \<Rightarrow> string) \<Rightarrow> bool \<Rightarrow> ('s, 'n) model_state \<times> 'w live \<Rightarrow> ('s, 'n) world" where
  "live_world model_of served_of scaled st =
     \<lparr>wl_cp = fst st, wl_model = model_of (lv_world (snd st)), wl_served = served_of (lv_world (snd st)), wl_scaled = scaled\<rparr>"

lemma status_live:
  "cp_set_status e f now nuid rid s er w =
     (fst (live_status e f now nuid rid s er (wl_cp w)), w\<lparr>wl_cp := snd (live_status e f now nuid rid s er (wl_cp w))\<rparr>)"
  by (cases f) (simp_all add: live_status_def cp_set_status_def call_def split: prod.split)

lemma finish_refines:
  assumes "live_finish e f now nuid rid s er st = (r, st')"
  shows "finish e f now nuid rid s er (live_world mo so b st) = (r, live_world mo so b st')"
  using assms
  by (auto simp: live_finish_def finish_def status_live live_world_def split: prod.splits sum.splits)

lemma loop_same:
  assumes "cluster_laws api cn mo so"
  shows "before_deadline (live_now api) (live_nap api d) (scale_turn api (cn_cluster cn) (cn_nodegroup cn)) t c = Some (r, c')
      \<Longrightarrow> same_model mo so (lv_world c) (lv_world c')"
    and "before_deadline (live_now api) (live_nap api d) (wait_turn api (cn_namespace cn) (cn_deployment cn)) t c = Some (r', c')
      \<Longrightarrow> same_model mo so (lv_world c) (lv_world c')"
proof -
  have turn: "same_model mo so (lv_world c) (lv_world (snd (scale_turn api (cn_cluster cn) (cn_nodegroup cn) c)))"
      "same_model mo so (lv_world c) (lv_world (snd (wait_turn api (cn_namespace cn) (cn_deployment cn) c)))"
      "same_model mo so (lv_world c) (lv_world (live_nap api d c))" for c
    using assms by (simp_all add: turn_snd logged_snd live_nap_def cluster_laws_def Let_def)
  have trans: "same_model mo so w w' \<Longrightarrow> same_model mo so w' w'' \<Longrightarrow> same_model mo so w w''" for w w' w''
    by (simp add: same_model_def)
  show "same_model mo so (lv_world c) (lv_world c')"
    if "before_deadline (live_now api) (live_nap api d) (scale_turn api (cn_cluster cn) (cn_nodegroup cn)) t c = Some (r, c')"
    by (rule before_deadline_keeps [OF that, where P = "\<lambda>x. same_model mo so (lv_world c) (lv_world x)"])
      (use turn trans in \<open>metis same_model_def snd_conv\<close>)+
  show "same_model mo so (lv_world c) (lv_world c')"
    if "before_deadline (live_now api) (live_nap api d) (wait_turn api (cn_namespace cn) (cn_deployment cn)) t c = Some (r', c')"
    by (rule before_deadline_keeps [OF that, where P = "\<lambda>x. same_model mo so (lv_world c) (lv_world x)"])
      (use turn trans in \<open>metis same_model_def snd_conv\<close>)+
qed

lemma scale_same:
  assumes laws: "cluster_laws api cn mo so"
    and s: "scale_nodegroup api (cn_cluster cn) (cn_nodegroup cn) desired t c = Some (r, c')"
  shows "same_model mo so (lv_world c) (lv_world c')"
proof -
  have d: "same_model mo so w (snd (ca_describe api (cn_cluster cn) (cn_nodegroup cn) w))" for w
    using laws by (simp add: cluster_laws_def Let_def)
  have u: "same_model mo so w (snd (ca_update api (cn_cluster cn) (cn_nodegroup cn) sc w))" for sc w
    using laws by (simp add: cluster_laws_def Let_def)
  show ?thesis
    using s d u
    by (auto simp: scale_nodegroup_def logged_def Let_def same_model_def
        dest!: loop_same(1) [OF laws] split: prod.splits option.splits if_splits bool.splits) (metis snd_conv)+
qed

lemma wait_same:
  assumes laws: "cluster_laws api cn mo so"
    and w: "wait_ready api (cn_namespace cn) (cn_deployment cn) t c = Some (r, c')"
  shows "same_model mo so (lv_world c) (lv_world c')"
  using w by (auto simp: wait_ready_def dest: loop_same(2) [OF laws] split: prod.splits option.splits)

lemma set_model_refines:
  assumes laws: "cluster_laws api cn mo so"
    and s: "set_model api (cn_namespace cn) (cn_configmap cn) (cn_deployment cn) m c = (ok, c')"
  obtains fate where "k8s_set_model fate m (live_world mo so b (cp, c)) = (ok, live_world mo so b (cp, c'))"
proof -
  obtain ok1 w1 where p: "ca_patch_configmap api (cn_namespace cn) (cn_configmap cn) m (lv_world c) = (ok1, w1)"
    by fastforce
  obtain ok2 w2 where r: "ca_restart api (cn_namespace cn) (cn_deployment cn) w1 = (ok2, w2)"
    by fastforce
  have "case ca_patch_configmap api (cn_namespace cn) (cn_configmap cn) m (lv_world c) of
      (ok, w') \<Rightarrow> (mo w' = m \<or> \<not> ok \<and> mo w' = mo (lv_world c)) \<and> so w' = so (lv_world c)"
    using laws by (simp add: cluster_laws_def Let_def)
  then have w1: "mo w1 = m \<or> \<not> ok1 \<and> mo w1 = mo (lv_world c)" "so w1 = so (lv_world c)"
    by (simp_all add: p)
  have "case ca_restart api (cn_namespace cn) (cn_deployment cn) w1 of
      (ok, w') \<Rightarrow> mo w' = mo w1 \<and> (so w' = mo w1 \<or> \<not> ok \<and> so w' = so w1)"
    using laws by (simp add: cluster_laws_def Let_def)
  then have w2: "mo w2 = mo w1" "so w2 = mo w1 \<or> \<not> ok2 \<and> so w2 = so w1"
    by (simp_all add: r)
  have c': "ok = (ok1 \<and> ok2)" "lv_world c' = (if ok1 then w2 else w1)"
    using s by (cases ok1; auto simp: set_model_def logged_def p r)+
  show thesis
    by (rule that [of "if \<not> ok1 then (if mo w1 = m then RestartFailed else PatchFailed)
        else if ok2 then SetDone else if so w2 = m then RestartLost else RestartFailed"])
      (use w1 w2 in \<open>auto simp: k8s_set_model_def live_world_def c'\<close>)
qed

lemma get_model_live:
  assumes laws: "cluster_laws api cn mo so" and g: "get_model api (cn_namespace cn) (cn_configmap cn) c = (m, c')"
  shows "same_model mo so (lv_world c) (lv_world c')" "m \<in> {None, Some (mo (lv_world c))}"
proof -
  obtain r w where r: "ca_read_configmap api (cn_namespace cn) (cn_configmap cn) (lv_world c) = (r, w)"
    by fastforce
  have "same_model mo so (lv_world c) (snd (ca_read_configmap api (cn_namespace cn) (cn_configmap cn) (lv_world c)))"
    "fst (ca_read_configmap api (cn_namespace cn) (cn_configmap cn) (lv_world c)) \<in>
       insert None {Some data |data. configured_model data = mo (lv_world c)}"
    using laws by (simp_all add: cluster_laws_def Let_def)
  then have "same_model mo so (lv_world c) w" "r \<in> insert None {Some data |data. configured_model data = mo (lv_world c)}"
    by (simp_all add: r)
  then show "same_model mo so (lv_world c) (lv_world c')" "m \<in> {None, Some (mo (lv_world c))}"
    using g r by (auto simp: get_model_def logged_def)
qed

lemma rollback_refines:
  assumes "cluster_laws api cn mo so"
  obtains fate where "\<forall>io. in_rollback io = fate \<longrightarrow> rollback io previous repo (live_world mo so b (cp, c)) =
    live_world mo so b (cp, live_rollback api cn previous repo c)"
proof -
  obtain ok c' where s: "set_model api (cn_namespace cn) (cn_configmap cn) (cn_deployment cn) previous c = (ok, c')"
    by fastforce
  obtain fate where "k8s_set_model fate previous (live_world mo so b (cp, c)) = (ok, live_world mo so b (cp, c'))"
    using set_model_refines [OF assms s] .
  then show thesis
    by (intro that [of fate]) (simp add: rollback_def live_rollback_def s)
qed

lemma live_world_same:
  "same_model mo so (lv_world c) (lv_world c') \<Longrightarrow> live_world mo so b (cp, c') = live_world mo so b (cp, c)"
  by (simp add: live_world_def same_model_def)

lemma install_refines:
  assumes laws: "cluster_laws api cn mo so" and live: "install_live e api cn f1 f2 now nuid rid repo st = Some (r, st')"
  shows "\<exists>io b'. in_list io = fl \<and> in_first io = f1 \<and>
    install e io now nuid rid repo (live_world mo so b st) = (r, live_world mo so b' st')"
proof -
  obtain cp0 c0 where st0: "st = (cp0, c0)"
    by (cases st)
  obtain r0 cp where s0: "live_status e f1 now nuid rid ''installing'' [] cp0 = (r0, cp)"
    by fastforce
  have first: "cp_set_status e f1 now nuid rid ''installing'' [] (live_world mo so b st) = (r0, live_world mo so b (cp, c0))"
    by (simp add: status_live st0 live_world_def s0)
  note turn = live [unfolded install_live_def st0 fst_conv snd_conv s0 prod.case Let_def]
  show ?thesis
  proof (cases r0)
    case (Inl ex)
    let ?io = "\<lparr>in_list = fl, in_first = f1, in_second = f2, in_scale = False, in_get = False, in_set = SetDone,
                in_ready = Ready, in_rollback = SetDone\<rparr>"
    have "install e ?io now nuid rid repo (live_world mo so b st) = (r, live_world mo so b st')"
      using turn Inl first by (simp add: install_def)
    then show ?thesis
      by (metis infra.select_convs(1,2))
  next
    case r0: (Inr j)
    obtain r1 c1 where sc: "scale_nodegroup api (cn_cluster cn) (cn_nodegroup cn) 1 600 c0 = Some (r1, c1)"
      using turn r0 by (auto split: option.splits)
    have same1: "live_world mo so b (cp, c1) = live_world mo so b (cp, c0)" for b cp
      by (rule live_world_same [OF scale_same [OF laws sc]])
    show ?thesis
    proof (cases r1)
      case (Inl ex)
      let ?io = "\<lparr>in_list = fl, in_first = f1, in_second = f2, in_scale = False, in_get = False, in_set = SetDone,
                  in_ready = Ready, in_rollback = SetDone\<rparr>"
      have "live_finish e f2 now nuid rid ''failed'' ''gpu_provision_failed'' (cp, c1) = (r, st')"
        using turn r0 sc Inl by simp
      then have "install e ?io now nuid rid repo (live_world mo so b st) = (r, live_world mo so b st')"
        using finish_refines [of e f2 now nuid rid _ _ "(cp, c1)" r st' mo so b]
        by (simp add: install_def first r0 same1)
      then show ?thesis
        by (metis infra.select_convs(1,2))
    next
      case (Inr u)
      obtain m c2 where get: "get_model api (cn_namespace cn) (cn_configmap cn) c1 = (m, c2)"
        by fastforce
      note m = get_model_live [OF laws get]
      have same2: "live_world mo so b (cp, c2) = live_world mo so b (cp, c0)" for b cp
        by (rule trans [OF live_world_same [OF m(1)] same1])
      let ?prev = "case m of None \<Rightarrow> [] | Some p \<Rightarrow> p"
      obtain ok c3 where sm: "set_model api (cn_namespace cn) (cn_configmap cn) (cn_deployment cn) repo c2 = (ok, c3)"
        by fastforce
      obtain fate where k8s: "k8s_set_model fate repo (live_world mo so True (cp, c2)) = (ok, live_world mo so True (cp, c3))"
        using set_model_refines [OF laws sm] .
      note turn = turn [unfolded r0 sc Inr sum.case option.case prod.case get sm]
      define got where "got = (m \<noteq> None)"
      have prev: "?prev = (if got then mo (lv_world c0) else [])"
        using m(2) scale_same [OF laws sc] by (auto simp: same_model_def got_def)
      have up: "(live_world mo so b (cp, c0))\<lparr>wl_scaled := True\<rparr> = live_world mo so True (cp, c2)"
        using same2 [of True cp] by (simp add: live_world_def)
      have there: "wl_model (live_world mo so True (cp, c2)) = mo (lv_world c0)"
        using same2 [of True cp] by (simp add: live_world_def)
      let ?io = "\<lambda>ready undo. \<lparr>in_list = fl, in_first = f1, in_second = f2, in_scale = True, in_get = got,
                in_set = fate, in_ready = ready, in_rollback = undo\<rparr>"
      have go: "install e (?io ready undo) now nuid rid repo (live_world mo so b st) =
          (if \<not> ok then finish e f2 now nuid rid ''failed'' ''vllm_apply_failed'' (live_world mo so True (cp, c3))
           else (case ready of
                   WaitRaised \<Rightarrow> finish e f2 now nuid rid ''failed'' ''install_failed''
                     (rollback (?io ready undo) ?prev repo (live_world mo so True (cp, c3)))
                 | NotReady \<Rightarrow> finish e f2 now nuid rid ''failed'' ''load_timeout''
                     (rollback (?io ready undo) ?prev repo (live_world mo so True (cp, c3)))
                 | Ready \<Rightarrow> finish e f2 now nuid rid ''applied'' [] (live_world mo so True (cp, c3))))" for ready undo
        by (cases ok) (simp_all add: install_def first r0 up k8s prev there split: ready_fate.split)
      show ?thesis
      proof (cases ok)
        case False
        then have "live_finish e f2 now nuid rid ''failed'' ''vllm_apply_failed'' (cp, c3) = (r, st')"
          using turn by simp
        from finish_refines [OF this, of mo so True] show ?thesis
          using go [of Ready SetDone] False by (intro exI [of _ "?io Ready SetDone"] exI [of _ True]) simp
      next
        case True
        obtain r4 c4 where wt: "wait_ready api (cn_namespace cn) (cn_deployment cn) (cn_ready_timeout_s cn) c3 = Some (r4, c4)"
          using turn True by (auto split: option.splits)
        have same4: "live_world mo so True (cp, c4) = live_world mo so True (cp, c3)"
          by (rule live_world_same [OF wait_same [OF laws wt]])
        obtain fate2 where undone: "\<forall>io. in_rollback io = fate2 \<longrightarrow> rollback io ?prev repo (live_world mo so True (cp, c4)) =
            live_world mo so True (cp, live_rollback api cn ?prev repo c4)"
          by (rule rollback_refines [OF laws])
        let ?ready = "case r4 of Inl _ \<Rightarrow> WaitRaised | Inr True \<Rightarrow> Ready | Inr False \<Rightarrow> NotReady"
        let ?st = "if r4 = Inr True then (cp, c4) else (cp, live_rollback api cn ?prev repo c4)"
        let ?outcome = "case r4 of Inl _ \<Rightarrow> (''failed'', ''install_failed'') | Inr True \<Rightarrow> (''applied'', [])
            | Inr False \<Rightarrow> (''failed'', ''load_timeout'')"
        have fin: "live_finish e f2 now nuid rid (fst ?outcome) (snd ?outcome) ?st = (r, st')"
          using turn True wt by (auto split: sum.splits bool.splits)
        have "install e (?io ?ready fate2) now nuid rid repo (live_world mo so b st) = (r, live_world mo so True st')"
          using go [of ?ready fate2] finish_refines [OF fin, of mo so True] True undone [rule_format, of "?io ?ready fate2"] same4
          by (auto split: sum.splits bool.splits if_splits)
        then show ?thesis
          by (intro exI [of _ "?io ?ready fate2"] exI [of _ True]) simp
      qed
    qed
  qed
qed

lemma list_live:
  "cp_list_pending e f w =
     (fst (cp_list_pending e f \<lparr>wl_cp = wl_cp w, wl_model = [], wl_served = [], wl_scaled = False\<rparr>), w)"
  by (cases f) (simp_all add: cp_list_pending_def call_def split: prod.split)

lemma run_refines:
  assumes laws: "cluster_laws api cn mo so" and live: "run_live e api cn fl f1 f2 now nuid st = Some (r, st')"
  shows "\<exists>io b'. run_once e io now nuid (live_world mo so b st) = (r, live_world mo so b' st')"
proof -
  let ?io = "\<lparr>in_list = fl, in_first = f1, in_second = f2, in_scale = False, in_get = False, in_set = SetDone,
              in_ready = Ready, in_rollback = SetDone\<rparr>"
  let ?listed = "fst (cp_list_pending e fl \<lparr>wl_cp = fst st, wl_model = [], wl_served = [], wl_scaled = False\<rparr>)"
  have listed: "cp_list_pending e fl (live_world mo so b st) = (?listed, live_world mo so b st)"
    using list_live [of e fl "live_world mo so b st"] by (simp add: live_world_def)
  show ?thesis
  proof (cases "ie_enabled e \<and> (\<exists>payload d rest repo. ?listed = Inr payload \<and> pending_of payload = JObj d # rest \<and>
      dget d ''hf_repo_id'' = JStr repo \<and> hf_repo_match repo \<and> installer_allows (ie_allowlist e) repo)")
    case True
    then obtain payload d rest repo where t: "ie_enabled e" "?listed = Inr payload" "pending_of payload = JObj d # rest"
      "dget d ''hf_repo_id'' = JStr repo" "hf_repo_match repo" "installer_allows (ie_allowlist e) repo"
      by blast
    then have "install_live e api cn f1 f2 now nuid (py_str (\<lambda>_. []) (dget d ''id'')) repo st = Some (r, st')"
      using live by (simp add: run_live_def)
    from install_refines [OF laws this, of fl b] obtain io b' where "in_list io = fl"
      "install e io now nuid (py_str (\<lambda>_. []) (dget d ''id'')) repo (live_world mo so b st) = (r, live_world mo so b' st')"
      by blast
    then show ?thesis
      using t listed by (intro exI [of _ io] exI [of _ b']) (simp add: run_once_def)
  next
    case False
    have "run_once e ?io now nuid (live_world mo so b st) = (r, live_world mo so b st')"
      using live False listed finish_refines [of e f1 now nuid _ "''failed''" _ st r st' mo so b]
      by (auto simp: run_live_def run_once_def Let_def split: sum.splits list.splits json.splits if_splits)
    then show ?thesis
      by blast
  qed
qed

text \<open>A node group that is being changed is asked for the desired size even where that is less than its own.\<close>

lemma scale_asks_for_less:
  assumes "scale_nodegroup api cl ng desired t c = Some (r, c')" and "ca_describe api cl ng (lv_world c) = (Some n, w)"
    and "ng_status n \<noteq> ''ACTIVE''"
  shows "\<exists>most. UpdateNodegroup cl ng \<lparr>sc_min = sc_min (ng_scaling n), sc_max = most, sc_desired = desired\<rparr> \<in> set (lv_calls c')"
proof -
  let ?new = "\<lparr>sc_min = sc_min (ng_scaling n), sc_max = max (sc_max (ng_scaling n)) desired, sc_desired = desired\<rparr>"
  let ?P = "\<lambda>c. UpdateNodegroup cl ng ?new \<in> set (lv_calls c)"
  obtain ok c2 where u: "logged (UpdateNodegroup cl ng ?new) (ca_update api cl ng ?new)
      \<lparr>lv_world = w, lv_calls = lv_calls c @ [DescribeNodegroup cl ng]\<rparr> = (ok, c2)"
    by fastforce
  have new: "?P c2"
    using logged_calls [OF u] by simp
  have kept: "?P c3" if "before_deadline (live_now api) (live_nap api 15) (scale_turn api cl ng) d c2 = Some (x, c3)" for d x c3
    by (rule before_deadline_keeps [OF that, where P = ?P])
      (use new in \<open>auto simp: scale_turn_def dest!: logged_calls split: prod.splits option.splits\<close>)
  have "?P c'"
    using assms u new by (auto simp: scale_nodegroup_def logged_def [of "DescribeNodegroup cl ng"] Let_def
        dest: kept split: prod.splits option.splits bool.splits if_splits)
  then show ?thesis
    by blast
qed

section \<open>An example cluster\<close>

text \<open>The ConfigMap's model, the model served, the time.\<close>

definition example_cluster_api :: "(string \<times> string \<times> rat) cluster_api" where
  "example_cluster_api =
     \<lparr>ca_now = (\<lambda>(m, s, t). t), ca_sleep = (\<lambda>d (m, s, t). (m, s, t + max 0 d)),
      ca_describe = (\<lambda>_ _ w. (Some \<lparr>ng_scaling = \<lparr>sc_min = 0, sc_max = 1, sc_desired = 0\<rparr>, ng_status = ''ACTIVE''\<rparr>, w)),
      ca_update = (\<lambda>_ _ _ w. (True, w)),
      ca_read_configmap = (\<lambda>_ _ (m, s, t). (Some (Some [(''model_id'', m)]), (m, s, t))),
      ca_patch_configmap = (\<lambda>_ _ new (m, s, t). (True, (new, s, t))),
      ca_restart = (\<lambda>_ _ (m, s, t). (True, (m, m, t))),
      ca_read_status = (\<lambda>_ _ w. (Some \<lparr>rp_spec = Some 1, rp_available = Some 1, rp_updated = Some 1\<rparr>, w))\<rparr>"

definition example_names :: cluster_names where
  "example_names =
     \<lparr>cn_cluster = ''eks'', cn_nodegroup = ''gpu'', cn_namespace = ''inference'', cn_deployment = ''vllm'',
      cn_configmap = ''vllm-model'', cn_ready_timeout_s = 900\<rparr>"

lemma example_cluster_ok:
  "cluster_laws example_cluster_api example_names fst (\<lambda>w. fst (snd w))" "cluster_clock example_cluster_api"
  by (auto simp: cluster_laws_def cluster_clock_def same_model_def example_cluster_api_def configured_model_def Let_def)

section \<open>Property\<close>

text \<open>C8: The reconciler over its real clients: a pass always ends, after at most 137 calls of AWS and Kubernetes with
  the default timeout of 900 seconds (47 and one for each 10 seconds of the timeout), whatever these calls
  answer; and what it did is a pass of the reconciler's model, so that the lifecycle proved of those passes
  holds of it.  The conditions: calls do not turn the clock back and a sleep takes as long as it was asked for;
  and the ConfigMap and the Deployment behave as Kubernetes documents while nobody else changes them: reads show
  what is stored, an accepted patch replaces the model, an accepted restart serves it, and a patch or restart
  that raises (refused, or timed out after it reached the server) was applied as a whole or not at all.\<close>

theorem installer_pass_live:
  assumes "cluster_laws api cn model_of served_of" and "cluster_clock api"
  shows "\<exists>r st' io scaled. run_live e api cn listed first second now nuid st = Some (r, st') \<and>
    run_once e io now nuid (live_world model_of served_of False st) = (r, live_world model_of served_of scaled st') \<and>
    length (lv_calls (snd st')) \<le> length (lv_calls (snd st)) + 47 + nat \<lceil>cn_ready_timeout_s cn / 10\<rceil>"
proof -
  obtain r st' where live: "run_live e api cn listed first second now nuid st = Some (r, st')"
    "length (lv_calls (snd st')) \<le> length (lv_calls (snd st)) + 47 + nat \<lceil>cn_ready_timeout_s cn / 10\<rceil>"
    using run_live_ends [OF assms(2)] by blast
  then show ?thesis
    using run_refines [OF assms(1) live(1), of False] by blast
qed

theorem installer_pass_live_witness:
  "\<exists>r st'. run_live example_installer example_cluster_api example_names Delivered Delivered Delivered 7 ''n''
      (wl_cp example_world, \<lparr>lv_world = (''a/old'', ''a/old'', 0), lv_calls = []\<rparr>) = Some (r, st') \<and>
    length (lv_calls (snd st')) \<le> 137"
proof -
  have "nat \<lceil>cn_ready_timeout_s example_names / 10\<rceil> = 90"
    by (simp add: example_names_def)
  then show ?thesis
    using installer_pass_live [OF example_cluster_ok, of example_installer Delivered Delivered Delivered 7 "''n''"
        "(wl_cp example_world, \<lparr>lv_world = (''a/old'', ''a/old'', 0), lv_calls = []\<rparr>)"]
    by auto
qed

end
