(* ===== verification/Sessions.thy ===== *)
theory Sessions
  imports Stores
begin

text \<open>
  Sessions (session.py, session_postgres.py, \<^verbatim>\<open>purge_expired_sessions\<close> of db/migrations.py): the
  value object, the in-memory store, the PostgreSQL store and its purge, and the refinement of both
  stores to a specification over the history of operations.

  The clock an operation reads is an argument, as is the id \<^verbatim>\<open>uuid4\<close> gives.  An in-memory
  operation holds the store's lock or is one dictionary access; a SQL statement is atomic.
\<close>

section \<open>The value object\<close>

text \<open>A \<^verbatim>\<open>datetime\<close> argument: with a time zone the instant it denotes, without one its wall clock,
  which the code reads as UTC.\<close>

datatype clock_arg = Aware datetime | Naive datetime

fun as_utc :: "clock_arg \<Rightarrow> datetime" where
  "as_utc (Aware t) = t"
| "as_utc (Naive t) = t"

text \<open>\<^verbatim>\<open>datetime.max\<close>: the end of the year 9999, in microseconds.\<close>

definition MAX_DATETIME :: int where
  "MAX_DATETIME = 253402300799999999"

definition DEFAULT_SESSION_TTL :: int where
  "DEFAULT_SESSION_TTL = 8 * 3600 * 1000000"

record workspace_session =
  ws_id :: string
  ws_subject :: string
  ws_created_at :: datetime
  ws_expires_at :: datetime

text \<open>\<^verbatim>\<open>WorkspaceSession.create\<close>; \<open>clock\<close> is \<^verbatim>\<open>datetime.now(UTC)\<close>.\<close>

definition session_create ::
    "string \<Rightarrow> clock_arg option \<Rightarrow> int \<Rightarrow> datetime \<Rightarrow> string \<Rightarrow> py_exn + workspace_session" where
  "session_create subject now ttl clock uid =
     (let subject = py_strip subject in
      if subject = [] then Inl ValueError
      else if ttl \<le> 0 then Inl ValueError
      else let created_at = (case now of None \<Rightarrow> clock | Some t \<Rightarrow> as_utc t) in
        if MAX_DATETIME < created_at + ttl then Inl OverflowError
        else Inr \<lparr>ws_id = uid, ws_subject = subject, ws_created_at = created_at,
                  ws_expires_at = created_at + ttl\<rparr>)"

definition is_expired :: "workspace_session \<Rightarrow> clock_arg option \<Rightarrow> datetime \<Rightarrow> bool" where
  "is_expired s now clock =
     (ws_expires_at s \<le> (case now of None \<Rightarrow> clock | Some t \<Rightarrow> as_utc t))"

section \<open>The stores\<close>

record 's session_store =
  ss_create :: "string \<Rightarrow> int \<Rightarrow> datetime \<Rightarrow> string \<Rightarrow> 's \<Rightarrow> (py_exn + workspace_session) \<times> 's"
  ss_get :: "string \<Rightarrow> datetime \<Rightarrow> 's \<Rightarrow> workspace_session option"
  ss_delete :: "string \<Rightarrow> 's \<Rightarrow> 's"

type_synonym mem_sessions = "string \<Rightarrow> workspace_session option"

definition mem_session_create ::
    "string \<Rightarrow> int \<Rightarrow> datetime \<Rightarrow> string \<Rightarrow> mem_sessions \<Rightarrow> (py_exn + workspace_session) \<times> mem_sessions" where
  "mem_session_create subject ttl clock uid m =
     (case session_create subject None ttl clock uid of
        Inl ex \<Rightarrow> (Inl ex, m)
      | Inr s \<Rightarrow> (Inr s, m(ws_id s \<mapsto> s)))"

definition mem_session_get :: "string \<Rightarrow> datetime \<Rightarrow> mem_sessions \<Rightarrow> workspace_session option" where
  "mem_session_get session_id clock m =
     (case m session_id of
        None \<Rightarrow> None
      | Some s \<Rightarrow> if is_expired s None clock then None else Some s)"

definition mem_session_delete :: "string \<Rightarrow> mem_sessions \<Rightarrow> mem_sessions" where
  "mem_session_delete session_id m = m(session_id := None)"

definition InMemorySessionStore :: "mem_sessions session_store" where
  "InMemorySessionStore =
     \<lparr>ss_create = mem_session_create, ss_get = mem_session_get, ss_delete = mem_session_delete\<rparr>"

text \<open>The table: \<^verbatim>\<open>session_id\<close> is its primary key, so inserting a taken one raises.\<close>

type_synonym pg_sessions = "workspace_session list"

definition pg_session_create ::
    "string \<Rightarrow> int \<Rightarrow> datetime \<Rightarrow> string \<Rightarrow> pg_sessions \<Rightarrow> (py_exn + workspace_session) \<times> pg_sessions" where
  "pg_session_create subject ttl clock uid rows =
     (case session_create subject None ttl clock uid of
        Inl ex \<Rightarrow> (Inl ex, rows)
      | Inr s \<Rightarrow>
          if ws_id s \<in> ws_id ` set rows then (Inl StoreError, rows) else (Inr s, rows @ [s]))"

definition pg_session_get :: "string \<Rightarrow> datetime \<Rightarrow> pg_sessions \<Rightarrow> workspace_session option" where
  "pg_session_get session_id clock rows =
     (case find (\<lambda>s. ws_id s = session_id) rows of
        None \<Rightarrow> None
      | Some s \<Rightarrow> if is_expired s None clock then None else Some s)"

definition pg_session_delete :: "string \<Rightarrow> pg_sessions \<Rightarrow> pg_sessions" where
  "pg_session_delete session_id rows = snd (sql_delete (\<lambda>s. ws_id s = session_id) rows)"

definition PostgresSessionStore :: "pg_sessions session_store" where
  "PostgresSessionStore =
     \<lparr>ss_create = pg_session_create, ss_get = pg_session_get, ss_delete = pg_session_delete\<rparr>"

text \<open>\<^verbatim>\<open>DELETE FROM sessions WHERE expires_at <= now()\<close>, with its row count.\<close>

definition purge_expired_sessions :: "datetime \<Rightarrow> pg_sessions \<Rightarrow> nat \<times> pg_sessions" where
  "purge_expired_sessions now rows =
     (length (filter (\<lambda>s. ws_expires_at s \<le> now) rows), filter (\<lambda>s. \<not> ws_expires_at s \<le> now) rows)"

section \<open>Histories\<close>

text \<open>A history: operations with the clock each reads.  Purging is an operation of the database only.\<close>

datatype session_op =
    Create string int string
  | Get string
  | Delete string
  | Purge

datatype answer = Created "py_exn + workspace_session" | Got "workspace_session option" | Done

type_synonym history = "(datetime \<times> session_op) list"

fun session_step ::
    "'s session_store \<Rightarrow> (datetime \<Rightarrow> 's \<Rightarrow> 's) \<Rightarrow> datetime \<times> session_op \<Rightarrow> 's \<Rightarrow> answer \<times> 's" where
  "session_step st purge (now, Create subject ttl uid) s =
     (case ss_create st subject ttl now uid s of (r, s') \<Rightarrow> (Created r, s'))"
| "session_step st purge (now, Get sid) s = (Got (ss_get st sid now s), s)"
| "session_step st purge (now, Delete sid) s = (Done, ss_delete st sid s)"
| "session_step st purge (now, Purge) s = (Done, purge now s)"

fun answers :: "'s session_store \<Rightarrow> (datetime \<Rightarrow> 's \<Rightarrow> 's) \<Rightarrow> history \<Rightarrow> 's \<Rightarrow> answer list" where
  "answers st purge [] s = []"
| "answers st purge (e # es) s =
     (case session_step st purge e s of (a, s') \<Rightarrow> a # answers st purge es s')"

text \<open>
  The specification has no state but the past, latest operation first: a session is there from its
  creation until it is deleted or its time to live is over.
\<close>

fun created_in :: "history \<Rightarrow> string \<Rightarrow> workspace_session option" where
  "created_in [] sid = None"
| "created_in ((now, Create subject ttl uid) # past) sid =
     (case session_create subject None ttl now uid of
        Inr s \<Rightarrow> if uid = sid then Some s else created_in past sid
      | Inl _ \<Rightarrow> created_in past sid)"
| "created_in ((now, Delete d) # past) sid = (if d = sid then None else created_in past sid)"
| "created_in (_ # past) sid = created_in past sid"

fun spec_answer :: "history \<Rightarrow> datetime \<times> session_op \<Rightarrow> answer" where
  "spec_answer past (now, Create subject ttl uid) = Created (session_create subject None ttl now uid)"
| "spec_answer past (now, Get sid) =
     Got (case created_in past sid of
            Some s \<Rightarrow> if now < ws_expires_at s then Some s else None
          | None \<Rightarrow> None)"
| "spec_answer past (now, Delete sid) = Done"
| "spec_answer past (now, Purge) = Done"

fun spec_answers :: "history \<Rightarrow> history \<Rightarrow> answer list" where
  "spec_answers past [] = []"
| "spec_answers past (e # es) = spec_answer past e # spec_answers (e # past) es"

text \<open>The ids a history creates, and the histories of a clock that never goes back and an id
  generator that never repeats itself.\<close>

fun op_ids :: "session_op \<Rightarrow> string list" where
  "op_ids (Create subject ttl uid) = [uid]"
| "op_ids _ = []"

definition created_ids :: "history \<Rightarrow> string list" where
  "created_ids es = concat (map (\<lambda>e. op_ids (snd e)) es)"

definition plausible :: "history \<Rightarrow> bool" where
  "plausible es \<longleftrightarrow> sorted (map fst es) \<and> distinct (created_ids es)"

section \<open>Refinement\<close>

text \<open>
  The contract: \<open>knows s sid\<close> is the session a state still holds under an id.  A purge may forget
  sessions, expired ones only.
\<close>

locale session_contract =
  fixes st :: "'s session_store"
    and purge :: "datetime \<Rightarrow> 's \<Rightarrow> 's"
    and knows :: "'s \<Rightarrow> string \<Rightarrow> workspace_session option"
    and inv :: "'s \<Rightarrow> bool"
  assumes create_ok: "inv s \<Longrightarrow> session_create subject None ttl now uid = Inr w \<Longrightarrow> knows s uid = None \<Longrightarrow>
      \<exists>s'. ss_create st subject ttl now uid s = (Inr w, s') \<and> inv s' \<and> knows s' = (knows s)(uid \<mapsto> w)"
    and create_err: "session_create subject None ttl now uid = Inl ex \<Longrightarrow>
      ss_create st subject ttl now uid s = (Inl ex, s)"
    and get_knows: "inv s \<Longrightarrow> ss_get st sid now s =
      (case knows s sid of Some w \<Rightarrow> if now < ws_expires_at w then Some w else None | None \<Rightarrow> None)"
    and inv_delete: "inv s \<Longrightarrow> inv (ss_delete st sid s)"
    and knows_delete: "inv s \<Longrightarrow> knows (ss_delete st sid s) = (knows s)(sid := None)"
    and inv_purge: "inv s \<Longrightarrow> inv (purge now s)"
    and knows_purge: "inv s \<Longrightarrow> knows (purge now s) sid = knows s sid \<or>
      knows (purge now s) sid = None \<and> (\<forall>w. knows s sid = Some w \<longrightarrow> ws_expires_at w \<le> now)"
begin

text \<open>A state represents a past at a time: it holds what was created, or has forgotten it after its
  expiry.\<close>

definition represents :: "'s \<Rightarrow> history \<Rightarrow> datetime \<Rightarrow> bool" where
  "represents s past t \<longleftrightarrow> inv s \<and> (\<forall>sid.
     knows s sid = created_in past sid \<or>
     knows s sid = None \<and> (\<forall>w. created_in past sid = Some w \<longrightarrow> ws_expires_at w \<le> t))"

lemma representsD:
  assumes "represents s past t"
  shows "inv s" and "knows s sid = created_in past sid \<or>
     knows s sid = None \<and> (\<forall>w. created_in past sid = Some w \<longrightarrow> ws_expires_at w \<le> t)"
  using assms unfolding represents_def by blast+

lemma represents_later: "represents s past t \<Longrightarrow> t \<le> t' \<Longrightarrow> represents s past t'"
  unfolding represents_def by (meson order_trans)

lemma created_in_none: "sid \<notin> set (created_ids past) \<Longrightarrow> created_in past sid = None"
  by (induction past sid rule: created_in.induct) (auto simp: created_ids_def split: sum.splits)

lemma step_represents:
  assumes r: "represents s past t" and "t \<le> fst e"
    and fresh: "set (op_ids (snd e)) \<inter> set (created_ids past) = {}"
  shows "\<exists>s'. session_step st purge e s = (spec_answer past e, s') \<and> represents s' (e # past) (fst e)"
proof (cases e)
  case (Pair now oper)
  from r \<open>t \<le> fst e\<close> Pair have r: "represents s past now"
    by (auto intro: represents_later)
  note k = representsD(2) [OF r] and i = representsD(1) [OF r]
  show ?thesis
  proof (cases oper)
    case (Create subject ttl uid)
    show ?thesis
    proof (cases "session_create subject None ttl now uid")
      case (Inl ex)
      then show ?thesis
        using r create_err [OF Inl, of s] by (auto simp: Pair Create represents_def)
    next
      case (Inr w)
      have none: "knows s uid = None"
        using k [of uid] created_in_none [of uid past] fresh by (auto simp: Pair Create)
      from create_ok [OF i Inr none] obtain s' where
        s': "ss_create st subject ttl now uid s = (Inr w, s')" "inv s'" "knows s' = (knows s)(uid \<mapsto> w)"
        by blast
      have "represents s' (e # past) now"
        unfolding represents_def using s'(2,3) k Inr by (simp add: Pair Create)
      then show ?thesis
        using s'(1) Inr by (simp add: Pair Create)
    qed
  next
    case (Get sid)
    have "ss_get st sid now s = (case created_in past sid of
        Some w \<Rightarrow> if now < ws_expires_at w then Some w else None | None \<Rightarrow> None)"
      unfolding get_knows [OF i] using k [of sid] by (cases "created_in past sid") auto
    then show ?thesis
      using r by (simp add: Pair Get represents_def)
  next
    case (Delete sid)
    have "represents (ss_delete st sid s) (e # past) now"
      unfolding represents_def using inv_delete [OF i] k by (simp add: knows_delete [OF i] Pair Delete)
    then show ?thesis
      by (simp add: Pair Delete)
  next
    case Purge
    have "knows (purge now s) sid = created_in past sid \<or>
        knows (purge now s) sid = None \<and> (\<forall>w. created_in past sid = Some w \<longrightarrow> ws_expires_at w \<le> now)" for sid
      using k [of sid] knows_purge [OF i, of now sid] by force
    then have "represents (purge now s) (e # past) now"
      unfolding represents_def using inv_purge [OF i] by (simp add: Pair Purge)
    then show ?thesis
      by (simp add: Pair Purge)
  qed
qed

lemma answers_spec:
  assumes "represents s past t" and "sorted (t # map fst es)"
    and "distinct (created_ids es)" and "set (created_ids es) \<inter> set (created_ids past) = {}"
  shows "answers st purge es s = spec_answers past es"
  using assms
proof (induction es arbitrary: s past t)
  case Nil
  then show ?case by simp
next
  case (Cons e es)
  have ids: "created_ids (e # es) = op_ids (snd e) @ created_ids es"
    "created_ids (e # past) = op_ids (snd e) @ created_ids past"
    by (simp_all add: created_ids_def)
  have "set (op_ids (snd e)) \<inter> set (created_ids past) = {}"
    using Cons.prems(4) by (auto simp: ids)
  from step_represents [OF Cons.prems(1) _ this] Cons.prems(2) obtain s' where
    s': "session_step st purge e s = (spec_answer past e, s')" "represents s' (e # past) (fst e)"
    by auto
  have "answers st purge es s' = spec_answers (e # past) es"
    using Cons.prems by (intro Cons.IH [OF s'(2)]) (auto simp: ids)
  then show ?case
    by (simp add: s'(1))
qed

lemma answers_from_empty:
  assumes "inv s" and "\<And>sid. knows s sid = None" and "plausible es"
  shows "answers st purge es s = spec_answers [] es"
proof (cases es)
  case (Cons e es')
  have "represents s [] (fst e)"
    using assms(1,2) by (simp add: represents_def)
  moreover have "sorted (fst e # map fst es)"
    using assms(3) by (auto simp: plausible_def Cons)
  ultimately show ?thesis
    using assms(3) by (intro answers_spec) (auto simp: plausible_def created_ids_def)
qed simp

end

text \<open>The in-memory store has no purge.\<close>

definition no_purge :: "datetime \<Rightarrow> mem_sessions \<Rightarrow> mem_sessions" where
  "no_purge now m = m"

definition pg_purge :: "datetime \<Rightarrow> pg_sessions \<Rightarrow> pg_sessions" where
  "pg_purge now rows = snd (purge_expired_sessions now rows)"

definition mem_sessions_ok :: "mem_sessions \<Rightarrow> bool" where
  "mem_sessions_ok m \<longleftrightarrow> (\<forall>sid w. m sid = Some w \<longrightarrow> ws_id w = sid)"

lemma session_create_id: "session_create subject now ttl clock uid = Inr w \<Longrightarrow> ws_id w = uid"
  by (auto simp: session_create_def Let_def split: if_splits)

lemma mem_session_insert:
  "mem_sessions_ok m \<Longrightarrow> session_create subject None ttl now uid = Inr w \<Longrightarrow>
     mem_session_create subject ttl now uid m = (Inr w, m(uid \<mapsto> w)) \<and> mem_sessions_ok (m(uid \<mapsto> w))"
  using session_create_id [of subject None ttl now uid w]
  by (simp add: mem_session_create_def mem_sessions_ok_def)

interpretation mem_ses: session_contract InMemorySessionStore no_purge "\<lambda>m. m" mem_sessions_ok
proof unfold_locales
  fix m :: mem_sessions and subject ttl now uid w
  assume "mem_sessions_ok m" and "session_create subject None ttl now uid = Inr w"
  from mem_session_insert [OF this]
  show "\<exists>s'. ss_create InMemorySessionStore subject ttl now uid m = (Inr w, s') \<and>
      mem_sessions_ok s' \<and> s' = m(uid \<mapsto> w)"
    by (simp add: InMemorySessionStore_def)
qed (auto simp: InMemorySessionStore_def mem_session_create_def mem_session_get_def mem_session_delete_def
      no_purge_def is_expired_def mem_sessions_ok_def split: option.splits)

definition pg_knows :: "pg_sessions \<Rightarrow> string \<Rightarrow> workspace_session option" where
  "pg_knows rows sid = find (\<lambda>w. ws_id w = sid) rows"

lemma pg_knows_append:
  "pg_knows rows (ws_id w) = None \<Longrightarrow> pg_knows (rows @ [w]) = (pg_knows rows)(ws_id w \<mapsto> w)"
  by (induction rows) (auto simp: pg_knows_def fun_eq_iff)

lemma find_SomeD: "find p xs = Some x \<Longrightarrow> p x"
  by (auto simp: find_Some_iff)

lemma find_filter_id:
  "table_ok ws_id rows \<Longrightarrow>
     find (\<lambda>w. ws_id w = sid) (filter p rows) =
       (case find (\<lambda>w. ws_id w = sid) rows of Some w \<Rightarrow> if p w then Some w else None | None \<Rightarrow> None)"
proof (induction rows)
  case (Cons r rows)
  have "find (\<lambda>w. ws_id w = sid) (filter p rows) = None" if "ws_id r = sid"
    using Cons.prems that by (auto simp: table_ok_def find_None_iff image_iff)
  with Cons show ?case
    by (auto simp: table_ok_def split: option.splits)
qed simp

interpretation pg_ses: session_contract PostgresSessionStore pg_purge pg_knows "table_ok ws_id"
proof unfold_locales
  fix rows :: pg_sessions and subject ttl now uid w
  assume "table_ok ws_id rows" and c: "session_create subject None ttl now uid = Inr w"
    and n: "pg_knows rows uid = None"
  have "uid \<notin> ws_id ` set rows"
    using n by (auto simp: pg_knows_def find_None_iff)
  then show "\<exists>s'. ss_create PostgresSessionStore subject ttl now uid rows = (Inr w, s') \<and>
      table_ok ws_id s' \<and> pg_knows s' = (pg_knows rows)(uid \<mapsto> w)"
    using c n \<open>table_ok ws_id rows\<close> session_create_id [OF c] pg_knows_append [of rows w]
    by (auto simp: PostgresSessionStore_def pg_session_create_def table_ok_def)
next
  fix rows :: pg_sessions and sid now
  assume ok: "table_ok ws_id rows"
  show "ss_get PostgresSessionStore sid now rows =
      (case pg_knows rows sid of Some w \<Rightarrow> if now < ws_expires_at w then Some w else None | None \<Rightarrow> None)"
    by (auto simp: PostgresSessionStore_def pg_session_get_def pg_knows_def is_expired_def split: option.splits)
  show "table_ok ws_id (ss_delete PostgresSessionStore sid rows)"
    using ok by (simp add: PostgresSessionStore_def pg_session_delete_def table_ok_delete)
  show "pg_knows (ss_delete PostgresSessionStore sid rows) = (pg_knows rows)(sid := None)"
  proof (rule ext)
    fix x
    show "pg_knows (ss_delete PostgresSessionStore sid rows) x = ((pg_knows rows)(sid := None)) x"
      using find_SomeD [of "\<lambda>w. ws_id w = x" rows]
      by (cases "find (\<lambda>w. ws_id w = x) rows")
        (auto simp: PostgresSessionStore_def pg_session_delete_def sql_delete_def pg_knows_def
          find_filter_id [OF ok])
  qed
  show "table_ok ws_id (pg_purge now rows)"
    using ok by (simp add: pg_purge_def purge_expired_sessions_def table_ok_def distinct_map_filter)
  show "pg_knows (pg_purge now rows) sid = pg_knows rows sid \<or>
      pg_knows (pg_purge now rows) sid = None \<and> (\<forall>w. pg_knows rows sid = Some w \<longrightarrow> ws_expires_at w \<le> now)"
    using find_filter_id [OF ok]
    by (auto simp: pg_purge_def purge_expired_sessions_def pg_knows_def split: option.splits)
qed (auto simp: PostgresSessionStore_def pg_session_create_def)

section \<open>Properties\<close>

text \<open>C17: Over any history of creating, getting and deleting sessions, with a clock that does not go
  back and ids that do not repeat, both stores answer exactly as the specification: a session is
  returned from its creation, under its stripped subject, until it is deleted or its time to live
  is over, and never otherwise; and purging the table of expired rows at any moments changes no answer.\<close>

theorem sessions_refine_history:
  assumes "plausible es"
  shows "answers InMemorySessionStore no_purge es Map.empty = spec_answers [] es \<and>
         answers PostgresSessionStore pg_purge es [] = spec_answers [] es"
  using assms mem_ses.answers_from_empty [of Map.empty es] pg_ses.answers_from_empty [of "[]" es]
  by (simp_all add: mem_sessions_ok_def pg_knows_def table_ok_def)

lemma sessions_refine_history_witness:
  "let es = [(10, Create ''bob'' 5 ''i''), (12, Get ''i''), (15, Purge), (16, Get ''i'')];
       s = \<lparr>ws_id = ''i'', ws_subject = ''bob'', ws_created_at = 10, ws_expires_at = 15\<rparr>
   in answers PostgresSessionStore pg_purge es [] = [Created (Inr s), Got (Some s), Done, Got None] \<and>
      answers InMemorySessionStore no_purge es Map.empty = [Created (Inr s), Got (Some s), Done, Got None]"
proof -
  let ?es = "[(10, Create ''bob'' 5 ''i''), (12, Get ''i''), (15, Purge), (16, Get ''i'')] :: history"
  have "plausible ?es"
    by (simp add: plausible_def created_ids_def)
  moreover have "py_strip ''bob'' = ''bob''"
    by code_simp
  ultimately show ?thesis
    using sessions_refine_history [of ?es]
    by (simp add: session_create_def MAX_DATETIME_def)
qed

end
