(* ===== verification/Texts.thy ===== *)
theory Texts
  imports Json
begin

text \<open>
  More of Python's text and object operations, used by the clients and servers around the control
  plane: \<^verbatim>\<open>int(s)\<close>, \<^verbatim>\<open>strip(chars)\<close>, \<^verbatim>\<open>re.sub\<close> of a character class, URL quoting, and the
  attribute, index and iteration operations on values an untrusted peer sent, with the exceptions
  they raise.
\<close>

section \<open>Dashes and the ellipsis\<close>

text \<open>
  Code points from 256 on are not represented, but the dashes and the ellipsis occur in the program's own
  texts.  They stand at the places of control characters that no text uses.
\<close>

definition EN_DASH :: char where "EN_DASH = CHR 0x96"
definition EM_DASH :: char where "EM_DASH = CHR 0x97"
definition ELLIPSIS :: char where "ELLIPSIS = CHR 0x85"

section \<open>Stripping and substituting\<close>

text \<open>\<^verbatim>\<open>s.strip(chars)\<close>, \<^verbatim>\<open>s.rstrip(chars)\<close>.\<close>

definition strip_by :: "(char \<Rightarrow> bool) \<Rightarrow> string \<Rightarrow> string" where
  "strip_by p s = py_rstrip_by p (dropWhile p s)"

text \<open>\<^verbatim>\<open>re.sub("[...]+", "-", s)\<close>: each longest run of characters in the class becomes one \<open>by\<close>.\<close>

fun sub_runs :: "(char \<Rightarrow> bool) \<Rightarrow> char \<Rightarrow> string \<Rightarrow> string" where
  "sub_runs p by [] = []"
| "sub_runs p by (c # cs) =
     (if p c then (case cs of
                     [] \<Rightarrow> [by]
                   | d # ds \<Rightarrow> if p d then sub_runs p by cs else by # sub_runs p by cs)
      else c # sub_runs p by cs)"

lemma set_sub_runs: "set (sub_runs p by s) \<subseteq> {c. \<not> p c} \<union> {by}"
proof (induction s)
  case (Cons c cs)
  then show ?case
    by (cases cs) auto
qed simp

lemma set_dropWhile_sub: "set (dropWhile p s) \<subseteq> set s"
  by (blast dest: set_dropWhileD)

lemma set_strip_by: "set (strip_by p s) \<subseteq> set s"
  unfolding strip_by_def py_rstrip_by_def set_rev
  using set_dropWhile_sub [of p "rev (dropWhile p s)"] set_dropWhile_sub [of p s]
  unfolding set_rev by blast

lemma length_strip_by: "length (strip_by p s) \<le> length s"
  by (metis strip_by_def py_rstrip_by_def length_rev length_dropWhile_le order_trans)

lemma last_strip_by: "strip_by p s \<noteq> [] \<Longrightarrow> \<not> p (last (strip_by p s))"
  unfolding strip_by_def py_rstrip_by_def last_rev rev_is_Nil_conv by (rule hd_dropWhile)

lemma hd_strip_by:
  assumes "strip_by p s \<noteq> []"
  shows "\<not> p (hd (strip_by p s))"
proof -
  let ?u = "dropWhile p s"
  have "?u \<noteq> []"
    using assms unfolding strip_by_def py_rstrip_by_def by (metis dropWhile.simps(1) rev.simps(1))
  then have "\<not> p (hd ?u)"
    by (rule hd_dropWhile)
  moreover have "\<exists>z. ?u = strip_by p s @ z"
    by (metis strip_by_def py_rstrip_by_def takeWhile_dropWhile_id rev_append rev_rev_ident)
  ultimately show ?thesis
    using assms by auto
qed

section \<open>Numbers in text\<close>

fun digit_of :: "char \<Rightarrow> nat option" where
  "digit_of c = (let n = ord_of c in if 48 \<le> n \<and> n \<le> 57 then Some (n - 48) else None)"

declare digit_of.simps [simp del]

text \<open>The digits of \<^verbatim>\<open>int(s)\<close>: single underscores may separate them.\<close>

fun int_digits :: "nat \<Rightarrow> string \<Rightarrow> nat option" where
  "int_digits acc [] = None"
| "int_digits acc [c] = map_option (\<lambda>d. 10 * acc + d) (digit_of c)"
| "int_digits acc (c # u # cs) =
     (case digit_of c of
        None \<Rightarrow> None
      | Some d \<Rightarrow> int_digits (10 * acc + d) (if u = CHR ''_'' then cs else u # cs))"

definition py_int :: "string \<Rightarrow> int option" where
  "py_int s =
     (case py_strip s of
        [] \<Rightarrow> None
      | c # cs \<Rightarrow>
          if c = CHR ''-'' then map_option (\<lambda>n. - int n) (int_digits 0 cs)
          else if c = CHR ''+'' then map_option int (int_digits 0 cs)
          else map_option int (int_digits 0 (c # cs)))"

section \<open>URL quoting\<close>

definition is_alnum :: "char \<Rightarrow> bool" where
  "is_alnum c =
     (let n = ord_of c in (48 \<le> n \<and> n \<le> 57) \<or> (65 \<le> n \<and> n \<le> 90) \<or> (97 \<le> n \<and> n \<le> 122))"

definition hex_upper :: "nat \<Rightarrow> char" where
  "hex_upper n = (if n < 10 then char_of (48 + n) else char_of (55 + n))"

definition percent :: "nat \<Rightarrow> string" where
  "percent b = [CHR 0x25, hex_upper (b div 16), hex_upper (b mod 16)]"

text \<open>\<^verbatim>\<open>urllib.parse.quote_plus\<close>: UTF-8 bytes, a blank becomes \<^verbatim>\<open>+\<close>.\<close>

definition quote_char :: "char \<Rightarrow> string" where
  "quote_char c =
     (let n = ord_of c in
      if is_alnum c \<or> c \<in> set ''_.-~'' then [c]
      else if c = CHR '' '' then ''+''
      else if n < 128 then percent n
      else percent (192 + n div 64) @ percent (128 + n mod 64))"

definition quote_plus :: "string \<Rightarrow> string" where
  "quote_plus s = concat (map quote_char s)"

section \<open>Values from outside\<close>

text \<open>\<^verbatim>\<open>v.get(k, default)\<close>, \<^verbatim>\<open>v[0]\<close> and \<^verbatim>\<open>for x in v\<close> on any decoded value.\<close>

fun jget :: "json \<Rightarrow> string \<Rightarrow> json \<Rightarrow> py_exn + json" where
  "jget (JObj d) k v = Inr (dget_or d k v)"
| "jget _ k v = Inl AttributeError"

fun jfirst :: "json \<Rightarrow> py_exn + json" where
  "jfirst (JArr (x # xs)) = Inr x"
| "jfirst (JArr []) = Inl IndexError"
| "jfirst (JStr (c # cs)) = Inr (JStr [c])"
| "jfirst (JStr []) = Inl IndexError"
| "jfirst (JObj d) = Inl KeyError"
| "jfirst _ = Inl TypeError"

fun jiter :: "json \<Rightarrow> py_exn + json list" where
  "jiter (JArr xs) = Inr xs"
| "jiter (JStr s) = Inr (map (\<lambda>c. JStr [c]) s)"
| "jiter (JObj d) = Inr (map (\<lambda>(k, v). JStr k) d)"
| "jiter _ = Inl TypeError"

definition jor :: "json \<Rightarrow> json \<Rightarrow> json" where
  "jor v w = (if truthy v then v else w)"

definition ebind :: "'e + 'a \<Rightarrow> ('a \<Rightarrow> 'e + 'b) \<Rightarrow> 'e + 'b" where
  "ebind r f = (case r of Inl e \<Rightarrow> Inl e | Inr x \<Rightarrow> f x)"

lemma ebind_simps [simp]: "ebind (Inl e) f = Inl e" "ebind (Inr x) f = f x"
  by (simp_all add: ebind_def)

lemma ebind_Inr: "ebind r f = Inr y \<longleftrightarrow> (\<exists>x. r = Inr x \<and> f x = Inr y)"
  by (cases r) auto

end
