(* ===== verification/Dispatcher.thy ===== *)
theory Dispatcher
  imports AgentTools Texts
begin

text \<open>
  The tool-runner dispatcher (app/dispatcher) and the control plane's client of it
  (control_plane/job_executor.py): the locked-down Job template, the Kubernetes client, one run of
  a Job from its creation to its reaping, the HTTP service, and the whole path from the control
  plane to the cluster and back.

  The Kubernetes API server and the clock are a parameter, \<open>kube\<close>, acting on a state of its own;
  \<open>cl_calls\<close> logs the calls made to it and has no counterpart in the code.
\<close>

section \<open>The Job template\<close>

text \<open>The class \<^verbatim>\<open>[^a-z0-9-]\<close> of names, \<^verbatim>\<open>[^a-z0-9A-Z._-]\<close> of label values.\<close>

definition name_char :: "char \<Rightarrow> bool" where
  "name_char c = (let n = ord_of c in (97 \<le> n \<and> n \<le> 122) \<or> (48 \<le> n \<and> n \<le> 57) \<or> n = 45)"

definition label_char :: "char \<Rightarrow> bool" where
  "label_char c = (is_alnum c \<or> c \<in> set ''._-'')"

definition job_safe_name :: "string \<Rightarrow> string" where
  "job_safe_name value =
     (let v = strip_by (\<lambda>c. c = CHR ''-'') (sub_runs (\<lambda>c. \<not> name_char c) (CHR ''-'') (py_lower value));
          v = strip_by (\<lambda>c. c = CHR ''-'') (take 40 v)
      in if v = [] then ''x'' else v)"

definition safe_label :: "string \<Rightarrow> string" where
  "safe_label value =
     (let v = strip_by (\<lambda>c. c \<in> set ''-._'')
                (take 63 (sub_runs (\<lambda>c. \<not> label_char c) (CHR ''-'') value))
      in if v = [] then ''unknown'' else v)"

definition job_name :: "string \<Rightarrow> string" where
  "job_name run_id = ''tool-'' @ job_safe_name run_id"

record job_config =
  jc_image :: string
  jc_namespace :: string
  jc_service_account :: string
  jc_cpu_limit :: string
  jc_memory_limit :: string
  jc_deadline_seconds :: int
  jc_ttl_seconds :: int
  jc_workspace_size :: string
  jc_poll_interval :: rat
  jc_overall_timeout :: rat

definition env_var :: "string \<Rightarrow> string \<Rightarrow> json" where
  "env_var n v = JObj [(''name'', JStr n), (''value'', JStr v)]"

definition empty_dir :: "string \<Rightarrow> string \<Rightarrow> json" where
  "empty_dir n limit =
     JObj [(''name'', JStr n), (''emptyDir'', JObj [(''sizeLimit'', JStr limit)])]"

definition mount_at :: "string \<Rightarrow> string \<Rightarrow> json" where
  "mount_at n path = JObj [(''name'', JStr n), (''mountPath'', JStr path)]"

definition job_payload :: "string \<Rightarrow> dict \<Rightarrow> json" where
  "job_payload tool arguments = JObj [(''tool'', JStr tool), (''arguments'', JObj arguments)]"

definition job_labels :: "string \<Rightarrow> string \<Rightarrow> string \<Rightarrow> json" where
  "job_labels run_id tenant_id tool =
     JObj [(''app.kubernetes.io/name'', JStr ''agent-tool-runner''),
           (''app.kubernetes.io/managed-by'', JStr ''tool-runner-dispatcher''),
           (''agent-tools/tenant'', JStr (safe_label tenant_id)),
           (''agent-tools/run-id'', JStr (safe_label run_id)),
           (''agent-tools/tool'', JStr (safe_label tool))]"

definition container_security :: json where
  "container_security =
     JObj [(''allowPrivilegeEscalation'', JBool False), (''readOnlyRootFilesystem'', JBool True),
           (''runAsNonRoot'', JBool True), (''runAsUser'', JInt 1000),
           (''capabilities'', JObj [(''drop'', JArr [JStr ''ALL''])]),
           (''seccompProfile'', JObj [(''type'', JStr ''RuntimeDefault'')])]"

definition job_container :: "job_config \<Rightarrow> string \<Rightarrow> json" where
  "job_container cfg payload =
     JObj [(''name'', JStr ''runner''), (''image'', JStr (jc_image cfg)),
           (''command'', JArr [JStr ''python3'', JStr ''-m'', JStr ''app.sandbox.runner'']),
           (''env'', JArr [env_var ''AGENT_TOOL_INPUT'' payload, env_var ''PYTHONDONTWRITEBYTECODE'' ''1'',
              env_var ''PYTHONHASHSEED'' ''0'', env_var ''HOME'' ''/work'', env_var ''TMPDIR'' ''/tmp'']),
           (''securityContext'', container_security),
           (''resources'', JObj [(''requests'', JObj [(''cpu'', JStr ''50m''), (''memory'', JStr ''64Mi'')]),
              (''limits'', JObj [(''cpu'', JStr (jc_cpu_limit cfg)), (''memory'', JStr (jc_memory_limit cfg))])]),
           (''volumeMounts'', JArr [mount_at ''workspace'' ''/work'', mount_at ''tmp'' ''/tmp''])]"

definition pod_spec :: "job_config \<Rightarrow> string \<Rightarrow> json" where
  "pod_spec cfg payload =
     JObj [(''restartPolicy'', JStr ''Never''), (''serviceAccountName'', JStr (jc_service_account cfg)),
           (''automountServiceAccountToken'', JBool False),
           (''nodeSelector'', JObj [(''kubernetes.io/os'', JStr ''linux'')]),
           (''securityContext'', JObj [(''runAsNonRoot'', JBool True), (''runAsUser'', JInt 1000),
              (''fsGroup'', JInt 1000), (''seccompProfile'', JObj [(''type'', JStr ''RuntimeDefault'')])]),
           (''containers'', JArr [job_container cfg payload]),
           (''volumes'', JArr [empty_dir ''workspace'' (jc_workspace_size cfg), empty_dir ''tmp'' ''16Mi''])]"

definition build_job_manifest ::
    "(rat \<Rightarrow> string) \<Rightarrow> job_config \<Rightarrow> string \<Rightarrow> string \<Rightarrow> string \<Rightarrow> dict \<Rightarrow> json" where
  "build_job_manifest fr cfg run_id tenant_id tool arguments =
     (let labels = job_labels run_id tenant_id tool;
          payload = json_dumps fr (job_payload tool arguments)
      in JObj [(''apiVersion'', JStr ''batch/v1''), (''kind'', JStr ''Job''),
           (''metadata'', JObj [(''name'', JStr (job_name run_id)),
              (''namespace'', JStr (jc_namespace cfg)), (''labels'', labels)]),
           (''spec'', JObj [(''backoffLimit'', JInt 0), (''activeDeadlineSeconds'', JInt (jc_deadline_seconds cfg)),
              (''ttlSecondsAfterFinished'', JInt (jc_ttl_seconds cfg)),
              (''template'', JObj [(''metadata'', JObj [(''labels'', labels)]),
                 (''spec'', pod_spec cfg payload)])])])"

section \<open>The Kubernetes client\<close>

datatype http_result = HttpFail nat | UrlFail | Broken | Payload string

datatype k8s_exn = K8sError "nat option" | TransportError | OtherError py_exn

text \<open>
  The API server behind HTTP, the monotonic clock, \<^verbatim>\<open>json.loads\<close> and \<^verbatim>\<open>float.__repr__\<close>.  A call may
  end in an HTTP error status, a URL error, another transport exception (\<open>Broken\<close>, such as a
  timeout while the body is read), or a payload.
\<close>

record 'w kube =
  ku_http :: "string \<Rightarrow> string \<Rightarrow> json option \<Rightarrow> 'w \<Rightarrow> http_result \<times> 'w"
  ku_now :: "'w \<Rightarrow> rat"
  ku_sleep :: "rat \<Rightarrow> 'w \<Rightarrow> 'w"
  ku_loads :: "string \<Rightarrow> json option"
  ku_repr :: "rat \<Rightarrow> string"
  ku_ns :: string

record 'w cluster =
  cl_world :: 'w
  cl_calls :: "(string \<times> string) list"

definition k8s_raw ::
    "'w kube \<Rightarrow> string \<Rightarrow> string \<Rightarrow> json option \<Rightarrow> 'w cluster \<Rightarrow> (k8s_exn + string) \<times> 'w cluster" where
  "k8s_raw env meth path body c =
     (case ku_http env meth path body (cl_world c) of
        (r, w) \<Rightarrow>
          ((case r of
              HttpFail code \<Rightarrow> Inl (K8sError (Some code))
            | UrlFail \<Rightarrow> Inl (K8sError None)
            | Broken \<Rightarrow> Inl TransportError
            | Payload p \<Rightarrow> Inr p),
           c\<lparr>cl_world := w, cl_calls := cl_calls c @ [(meth, path)]\<rparr>))"

definition k8s_request ::
    "'w kube \<Rightarrow> string \<Rightarrow> string \<Rightarrow> json option \<Rightarrow> 'w cluster \<Rightarrow> (k8s_exn + json) \<times> 'w cluster" where
  "k8s_request env meth path body c =
     (case k8s_raw env meth path body c of
        (Inl ex, c) \<Rightarrow> (Inl ex, c)
      | (Inr p, c) \<Rightarrow>
          (case ku_loads env (if p = [] then ''{}'' else p) of
             None \<Rightarrow> (Inl (OtherError ValueError), c)
           | Some v \<Rightarrow> (Inr v, c)))"

definition jobs_path :: "'w kube \<Rightarrow> string" where
  "jobs_path env = ''/apis/batch/v1/namespaces/'' @ ku_ns env @ ''/jobs''"

definition k8s_create_job :: "'w kube \<Rightarrow> json \<Rightarrow> 'w cluster \<Rightarrow> (k8s_exn + json) \<times> 'w cluster" where
  "k8s_create_job env manifest = k8s_request env ''POST'' (jobs_path env) (Some manifest)"

definition k8s_get_job :: "'w kube \<Rightarrow> string \<Rightarrow> 'w cluster \<Rightarrow> (k8s_exn + json) \<times> 'w cluster" where
  "k8s_get_job env name = k8s_request env ''GET'' (jobs_path env @ ''/'' @ name) None"

definition k8s_delete_job :: "'w kube \<Rightarrow> string \<Rightarrow> 'w cluster \<Rightarrow> (k8s_exn + json) \<times> 'w cluster" where
  "k8s_delete_job env name =
     k8s_request env ''DELETE'' (jobs_path env @ ''/'' @ name @ ''?propagationPolicy=Background'') None"

definition pods_path :: "'w kube \<Rightarrow> string" where
  "pods_path env = ''/api/v1/namespaces/'' @ ku_ns env @ ''/pods''"

definition k8s_list_pods :: "'w kube \<Rightarrow> string \<Rightarrow> 'w cluster \<Rightarrow> (k8s_exn + json) \<times> 'w cluster" where
  "k8s_list_pods env selector c =
     (case k8s_request env ''GET'' (pods_path env @ ''?labelSelector='' @ quote_plus selector) None c of
        (Inl ex, c) \<Rightarrow> (Inl ex, c)
      | (Inr out, c) \<Rightarrow>
          (case jget out ''items'' (JArr []) of
             Inl ex \<Rightarrow> (Inl (OtherError ex), c)
           | Inr items \<Rightarrow> (Inr items, c)))"

definition k8s_read_pod_log :: "'w kube \<Rightarrow> string \<Rightarrow> 'w cluster \<Rightarrow> (k8s_exn + string) \<times> 'w cluster" where
  "k8s_read_pod_log env pod_name =
     k8s_raw env ''GET'' (pods_path env @ ''/'' @ pod_name @ ''/log?limitBytes=65536'') None"

section \<open>One Job\<close>

record job_outcome =
  jo_result_class :: string
  jo_result :: json
  jo_exit_code :: json

definition job_failed :: "string \<Rightarrow> json \<Rightarrow> job_outcome" where
  "job_failed rc code = \<lparr>jo_result_class = rc, jo_result = JNull, jo_exit_code = code\<rparr>"

definition classify_log :: "(string \<Rightarrow> json option) \<Rightarrow> string \<Rightarrow> job_outcome" where
  "classify_log loads log_text =
     (case loads (if log_text = [] then ''{}'' else log_text) of
        None \<Rightarrow> job_failed ''tool_error'' (JInt 0)
      | Some (JObj data) \<Rightarrow>
          if \<not> truthy (dget data ''ok'')
          then job_failed (if dget data ''error'' = JStr ''unknown_tool'' then ''unknown_tool'' else ''tool_error'')
                 (JInt 0)
          else \<lparr>jo_result_class = ''success'', jo_result = dget data ''result'', jo_exit_code = JInt 0\<rparr>
      | Some _ \<Rightarrow> job_failed ''tool_error'' (JInt 0))"

fun failed_reason :: "json list \<Rightarrow> py_exn + string" where
  "failed_reason [] = Inr ''tool_error''"
| "failed_reason (cond # conds) =
     ebind (jget cond ''type'' JNull) (\<lambda>t.
       if t = JStr ''Failed''
       then ebind (jget cond ''reason'' JNull) (\<lambda>r.
              if r = JStr ''DeadlineExceeded'' then Inr ''tool_timeout'' else failed_reason conds)
       else failed_reason conds)"

definition job_failed_reason :: "json \<Rightarrow> py_exn + string" where
  "job_failed_reason job =
     ebind (jget job ''status'' (JObj [])) (\<lambda>status.
     ebind (jget status ''conditions'' (JArr [])) (\<lambda>conds.
     ebind (jiter (jor conds (JArr []))) failed_reason))"

definition first_pod_name :: "json \<Rightarrow> py_exn + json" where
  "first_pod_name pods =
     ebind (jfirst pods) (\<lambda>pod. ebind (jget pod ''metadata'' (JObj [])) (\<lambda>m. jget m ''name'' JNull))"

definition read_pod_result ::
    "'w kube \<Rightarrow> string \<Rightarrow> 'w cluster \<Rightarrow> (k8s_exn + job_outcome) \<times> 'w cluster" where
  "read_pod_result env selector c =
     (case k8s_list_pods env selector c of
        (Inl (K8sError _), c) \<Rightarrow> (Inr (job_failed ''tool_error'' JNull), c)
      | (Inl ex, c) \<Rightarrow> (Inl ex, c)
      | (Inr pods, c) \<Rightarrow>
          if \<not> truthy pods then (Inr (job_failed ''tool_error'' JNull), c)
          else (case first_pod_name pods of
                  Inl ex \<Rightarrow> (Inl (OtherError ex), c)
                | Inr name \<Rightarrow>
                    (case k8s_read_pod_log env (py_str (ku_repr env) name) c of
                       (Inl (K8sError _), c) \<Rightarrow> (Inr (job_failed ''tool_error'' JNull), c)
                     | (Inl ex, c) \<Rightarrow> (Inl ex, c)
                     | (Inr log_text, c) \<Rightarrow> (Inr (classify_log (ku_loads env) log_text), c))))"

definition exit_code_of :: "json \<Rightarrow> py_exn + json" where
  "exit_code_of pods =
     ebind (jfirst pods) (\<lambda>pod.
     ebind (jget pod ''status'' (JObj [])) (\<lambda>status.
     ebind (jget status ''containerStatuses'' (JArr [])) (\<lambda>st.
     let statuses = jor st (JArr []) in
     ebind (if truthy statuses then ebind (jfirst statuses) (\<lambda>s. jget s ''state'' (JObj [])) else Inr (JObj []))
       (\<lambda>state. ebind (jget state ''terminated'' (JObj [])) (\<lambda>term. jget term ''exitCode'' JNull)))))"

definition pod_exit_code :: "'w kube \<Rightarrow> string \<Rightarrow> 'w cluster \<Rightarrow> (k8s_exn + json) \<times> 'w cluster" where
  "pod_exit_code env selector c =
     (case k8s_list_pods env selector c of
        (Inl (K8sError _), c) \<Rightarrow> (Inr JNull, c)
      | (Inl ex, c) \<Rightarrow> (Inl ex, c)
      | (Inr pods, c) \<Rightarrow>
          if \<not> truthy pods then (Inr JNull, c)
          else (case exit_code_of pods of
                  Inl ex \<Rightarrow> (Inl (OtherError ex), c)
                | Inr code \<Rightarrow> (Inr code, c)))"

text \<open>\<^verbatim>\<open>status.get("succeeded")\<close>, then \<^verbatim>\<open>status.get("failed")\<close>.\<close>

definition job_status :: "json \<Rightarrow> py_exn + bool \<times> bool" where
  "job_status job =
     ebind (jget job ''status'' (JObj [])) (\<lambda>status.
     ebind (jget status ''succeeded'' JNull) (\<lambda>s.
     ebind (jget status ''failed'' JNull) (\<lambda>f. Inr (truthy s, truthy f))))"

definition fail_job ::
    "'w kube \<Rightarrow> string \<Rightarrow> json \<Rightarrow> 'w cluster \<Rightarrow> (k8s_exn + job_outcome) \<times> 'w cluster" where
  "fail_job env selector job c =
     (case job_failed_reason job of
        Inl ex \<Rightarrow> (Inl (OtherError ex), c)
      | Inr reason \<Rightarrow>
          (case pod_exit_code env selector c of
             (Inl ex, c) \<Rightarrow> (Inl ex, c)
           | (Inr code, c) \<Rightarrow> (Inr (job_failed reason code), c)))"

definition nap :: "'w kube \<Rightarrow> rat \<Rightarrow> 'w cluster \<Rightarrow> 'w cluster" where
  "nap env d c = c\<lparr>cl_world := ku_sleep env d (cl_world c)\<rparr>"

text \<open>The polling loop.  It may not return, so it is a partial function.\<close>

partial_function (option) poll ::
    "'w kube \<Rightarrow> rat \<Rightarrow> string \<Rightarrow> string \<Rightarrow> rat \<Rightarrow> 'w cluster \<Rightarrow> ((k8s_exn + job_outcome) \<times> 'w cluster) option" where
  "poll env interval name selector deadline c =
     (case k8s_get_job env name c of
        (Inl (K8sError _), c) \<Rightarrow> Some (Inr (job_failed ''tool_error'' JNull), c)
      | (Inl ex, c) \<Rightarrow> Some (Inl ex, c)
      | (Inr job, c) \<Rightarrow>
          (case job_status job of
             Inl ex \<Rightarrow> Some (Inl (OtherError ex), c)
           | Inr (succeeded, failed) \<Rightarrow>
               if succeeded then Some (read_pod_result env selector c)
               else if failed then Some (fail_job env selector job c)
               else if deadline < ku_now env (cl_world c)
               then Some (Inr (job_failed ''tool_timeout'' JNull), c)
               else poll env interval name selector deadline (nap env interval c)))"

text \<open>The \<^verbatim>\<open>finally\<close> clause: the Job is deleted whatever happened; only a \<open>K8sError\<close> is swallowed.\<close>

definition reap ::
    "'w kube \<Rightarrow> string \<Rightarrow> (k8s_exn + job_outcome) \<times> 'w cluster \<Rightarrow> (k8s_exn + job_outcome) \<times> 'w cluster" where
  "reap env name rc =
     (case rc of (r, c) \<Rightarrow>
        (case k8s_delete_job env name c of
           (Inl (K8sError _), c) \<Rightarrow> (r, c)
         | (Inl ex, c) \<Rightarrow> (Inl ex, c)
         | (Inr _, c) \<Rightarrow> (r, c)))"

definition run_selector :: "string \<Rightarrow> string" where
  "run_selector run_id = ''agent-tools/run-id='' @ safe_label run_id"

definition run_tool_job ::
    "'w kube \<Rightarrow> job_config \<Rightarrow> string \<Rightarrow> string \<Rightarrow> string \<Rightarrow> dict \<Rightarrow> 'w cluster
       \<Rightarrow> ((k8s_exn + job_outcome) \<times> 'w cluster) option" where
  "run_tool_job env cfg run_id tenant_id tool arguments c =
     (let manifest = build_job_manifest (ku_repr env) cfg run_id tenant_id tool arguments;
          name = job_name run_id;
          selector = run_selector run_id
      in (case k8s_create_job env manifest c of
            (Inl (K8sError _), c) \<Rightarrow> Some (Inr (job_failed ''tool_error'' JNull), c)
          | (Inl ex, c) \<Rightarrow> Some (Inl ex, c)
          | (Inr _, c) \<Rightarrow>
              map_option (reap env name)
                (poll env (jc_poll_interval cfg) name selector
                   (ku_now env (cl_world c) + jc_overall_timeout cfg) c)))"

section \<open>The HTTP service\<close>

record dispatcher_config =
  dc_token :: "string option"
  dc_image :: string
  dc_namespace :: string
  dc_service_account :: string
  dc_cpu_limit :: string
  dc_memory_limit :: string
  dc_deadline_seconds :: int
  dc_ttl_seconds :: int

text \<open>\<^verbatim>\<open>DispatcherConfig.from_env\<close>; \<^verbatim>\<open>int\<close> raises \<^verbatim>\<open>ValueError\<close> on text that is not a number.\<close>

definition env_or :: "(string \<Rightarrow> string option) \<Rightarrow> string \<Rightarrow> string \<Rightarrow> string" where
  "env_or e k v = (case e k of None \<Rightarrow> v | Some s \<Rightarrow> s)"

definition str_or :: "string \<Rightarrow> string \<Rightarrow> string" where
  "str_or s v = (if s = [] then v else s)"

definition int_arg :: "string \<Rightarrow> py_exn + int" where
  "int_arg s = (case py_int s of None \<Rightarrow> Inl ValueError | Some i \<Rightarrow> Inr i)"

definition dispatcher_from_env :: "(string \<Rightarrow> string option) \<Rightarrow> py_exn + dispatcher_config" where
  "dispatcher_from_env e =
     (let token = py_strip (env_or e ''DISPATCHER_TOKEN'' []) in
      ebind (int_arg (str_or (env_or e ''RUNNER_DEADLINE_SECONDS'' ''30'') ''30'')) (\<lambda>deadline.
      ebind (int_arg (str_or (env_or e ''RUNNER_TTL_SECONDS'' ''120'') ''120'')) (\<lambda>ttl.
        Inr \<lparr>dc_token = (if token = [] then None else Some token),
             dc_image = env_or e ''RUNNER_IMAGE'' [],
             dc_namespace = env_or e ''JOBS_NAMESPACE'' ''agent-jobs'',
             dc_service_account = env_or e ''RUNNER_SERVICE_ACCOUNT'' ''agent-tool-runner'',
             dc_cpu_limit = env_or e ''RUNNER_CPU_LIMIT'' ''500m'',
             dc_memory_limit = env_or e ''RUNNER_MEMORY_LIMIT'' ''256Mi'',
             dc_deadline_seconds = deadline, dc_ttl_seconds = ttl\<rparr>)))"

definition dispatcher_job_config :: "dispatcher_config \<Rightarrow> job_config" where
  "dispatcher_job_config d =
     \<lparr>jc_image = dc_image d, jc_namespace = dc_namespace d, jc_service_account = dc_service_account d,
      jc_cpu_limit = dc_cpu_limit d, jc_memory_limit = dc_memory_limit d,
      jc_deadline_seconds = dc_deadline_seconds d, jc_ttl_seconds = dc_ttl_seconds d,
      jc_workspace_size = ''64Mi'', jc_poll_interval = 1 / 2, jc_overall_timeout = 45\<rparr>"

text \<open>\<^verbatim>\<open>_bearer\<close> is the same check as the control plane's, line for line.\<close>

definition dispatcher_bearer :: "string option \<Rightarrow> string option" where
  "dispatcher_bearer authorization =
     (case authorization of
        None \<Rightarrow> None
      | Some a \<Rightarrow>
          if a = [] then None
          else (case split_ws1 a of
                  [scheme, rest] \<Rightarrow>
                    if py_lower scheme \<noteq> ''bearer'' then None
                    else let token = py_strip rest in if token = [] then None else Some token
                | _ \<Rightarrow> None))"

text \<open>\<^verbatim>\<open>hmac.compare_digest\<close> on strings refuses text that is not ASCII.\<close>

definition is_ascii :: "string \<Rightarrow> bool" where
  "is_ascii s = list_all (\<lambda>c. ord_of c < 128) s"

definition compare_digest :: "string \<Rightarrow> string \<Rightarrow> py_exn + bool" where
  "compare_digest a b = (if is_ascii a \<and> is_ascii b then Inr (a = b) else Inl TypeError)"

definition dispatch_fields :: "json option \<Rightarrow> reply + string \<times> dict \<times> string \<times> string" where
  "dispatch_fields body =
     (case body of
        None \<Rightarrow> Inl (bad_request ''invalid JSON'')
      | Some (JObj data) \<Rightarrow>
          (case dget data ''tool'' of
             JStr tool \<Rightarrow>
               if tool = [] then Inl (bad_request (quoted ''tool'' @ '' required''))
               else (case dget_or data ''arguments'' (JObj []) of
                       JObj arguments \<Rightarrow>
                         (case dget data ''run_id'' of
                            JStr run_id \<Rightarrow>
                              if run_id = [] then Inl (bad_request (quoted ''run_id'' @ '' required''))
                              else (case dget data ''tenant_id'' of
                                      JStr tenant_id \<Rightarrow>
                                        if tenant_id = []
                                        then Inl (bad_request (quoted ''tenant_id'' @ '' required''))
                                        else Inr (tool, arguments, run_id, tenant_id)
                                    | _ \<Rightarrow> Inl (bad_request (quoted ''tenant_id'' @ '' required'')))
                          | _ \<Rightarrow> Inl (bad_request (quoted ''run_id'' @ '' required'')))
                     | _ \<Rightarrow> Inl (bad_request (quoted ''arguments'' @ '' must be object'')))
           | _ \<Rightarrow> Inl (bad_request (quoted ''tool'' @ '' required'')))
      | Some _ \<Rightarrow> Inl (HTTP_BAD_REQUEST, err_only ''bad_request''))"

definition run_payload :: "job_outcome \<Rightarrow> json" where
  "run_payload o' =
     JObj [(''result_class'', JStr (jo_result_class o')), (''result'', jo_result o'),
           (''exit_code'', jo_exit_code o')]"

text \<open>\<^verbatim>\<open>build_run_response\<close>: a reply, an exception, or (\<^term>\<open>None\<close>) no return at all.\<close>

definition build_run_response ::
    "'w kube \<Rightarrow> dispatcher_config \<Rightarrow> string option \<Rightarrow> json option \<Rightarrow> 'w cluster
       \<Rightarrow> ((k8s_exn + reply) \<times> 'w cluster) option" where
  "build_run_response env d authorization body c =
     (case dc_token d of
        None \<Rightarrow> Some (Inr (HTTP_UNAVAILABLE, err_only ''dispatcher_unconfigured''), c)
      | Some token \<Rightarrow>
          if token = [] then Some (Inr (HTTP_UNAVAILABLE, err_only ''dispatcher_unconfigured''), c)
          else (case dispatcher_bearer authorization of
                  None \<Rightarrow> Some (Inr (HTTP_UNAUTHORIZED, err_only ''unauthorized''), c)
                | Some presented \<Rightarrow>
                    (case compare_digest presented token of
                       Inl ex \<Rightarrow> Some (Inl (OtherError ex), c)
                     | Inr False \<Rightarrow> Some (Inr (HTTP_UNAUTHORIZED, err_only ''unauthorized''), c)
                     | Inr True \<Rightarrow>
                         (case dispatch_fields body of
                            Inl err \<Rightarrow> Some (Inr err, c)
                          | Inr (tool, arguments, run_id, tenant_id) \<Rightarrow>
                              if \<not> in_TOOLS tool \<or> tool_executor tool \<noteq> ''job''
                              then Some (Inr (HTTP_BAD_REQUEST, err_only ''not_a_job_tool''), c)
                              else (case run_tool_job env (dispatcher_job_config d) run_id tenant_id tool arguments c of
                                      None \<Rightarrow> None
                                    | Some (Inl ex, c) \<Rightarrow> Some (Inl ex, c)
                                    | Some (Inr out, c) \<Rightarrow> Some (Inr (HTTP_OK, run_payload out), c))))))"

text \<open>\<^verbatim>\<open>do_GET\<close> and \<^verbatim>\<open>do_POST\<close>.  \<open>body\<close> is what the bytes read decode to; none are read without a
  positive length, and no bytes are not JSON.\<close>

definition dispatcher_get :: "string \<Rightarrow> reply" where
  "dispatcher_get path =
     (if fst (split_char1 (CHR ''?'') path) = ''/healthz'' then (HTTP_OK, JObj [(''status'', JStr ''ok'')])
      else (HTTP_NOT_FOUND, err_only ''not_found''))"

definition MAX_BODY :: int where "MAX_BODY = 262144"

definition dispatcher_post ::
    "'w kube \<Rightarrow> dispatcher_config \<Rightarrow> string \<Rightarrow> string option \<Rightarrow> string option \<Rightarrow> json option
       \<Rightarrow> 'w cluster \<Rightarrow> ((k8s_exn + reply) \<times> 'w cluster) option" where
  "dispatcher_post env d path content_length authorization body c =
     (if fst (split_char1 (CHR ''?'') path) \<noteq> ''/run'' then Some (Inr (HTTP_NOT_FOUND, err_only ''not_found''), c)
      else (case int_arg (str_or (case content_length of None \<Rightarrow> [] | Some s \<Rightarrow> s) ''0'') of
              Inl ex \<Rightarrow> Some (Inl (OtherError ex), c)
            | Inr len \<Rightarrow>
                if MAX_BODY < len then Some (Inr (HTTP_TOO_LARGE, err_only ''too_large''), c)
                else build_run_response env d authorization (if 0 < len then body else None) c))"

section \<open>The control plane's client\<close>

text \<open>What \<^verbatim>\<open>urlopen\<close> gives: an HTTP error, a \<^verbatim>\<open>TimeoutError\<close>, another exception, or the decoded body
  (\<^term>\<open>None\<close>: not JSON, which \<^verbatim>\<open>json.loads\<close> raises on; an empty body is \<^verbatim>\<open>{}\<close>).\<close>

datatype post_result = PostHttpError nat | PostTimeout | PostFailed | PostData "json option"

record job_client =
  jx_base_url :: string
  jx_token :: "string option"
  jx_timeout :: rat

definition job_client_init :: "string option \<Rightarrow> string option \<Rightarrow> job_client" where
  "job_client_init base_url token =
     \<lparr>jx_base_url = py_rstrip_by (\<lambda>c. c = CHR ''/'') (case base_url of None \<Rightarrow> [] | Some u \<Rightarrow> u),
      jx_token = (case token of Some t \<Rightarrow> if t = [] then None else Some t | None \<Rightarrow> None),
      jx_timeout = 60\<rparr>"

definition job_configured :: "job_client \<Rightarrow> bool" where
  "job_configured x = (jx_base_url x \<noteq> [] \<and> jx_token x \<noteq> None)"

definition call_body :: "string \<Rightarrow> string \<Rightarrow> string \<Rightarrow> dict \<Rightarrow> json" where
  "call_body tenant_id run_id tool arguments =
     JObj [(''tenant_id'', JStr tenant_id), (''run_id'', JStr run_id), (''tool'', JStr tool),
           (''arguments'', JObj arguments)]"

text \<open>\<^verbatim>\<open>execute\<close>: \<open>post\<close> is \<^verbatim>\<open>urlopen\<close> with its timeout, of a \<^verbatim>\<open>POST\<close> request with this URL, authorization
  and body.  The dispatcher answers with a string and an integer or null; other values are shown as
  text.\<close>

definition job_execute ::
    "(rat \<Rightarrow> string) \<Rightarrow> (rat \<Rightarrow> string \<Rightarrow> string \<Rightarrow> json \<Rightarrow> post_result) \<Rightarrow> job_client
       \<Rightarrow> string \<Rightarrow> string \<Rightarrow> string \<Rightarrow> dict \<Rightarrow> sandbox_outcome" where
  "job_execute fr post x tenant_id run_id tool arguments =
     (if \<not> job_configured x then outcome_of ''tool_error'' None
      else (case post (jx_timeout x) (jx_base_url x @ ''/run'') (''Bearer '' @ the (jx_token x))
                   (call_body tenant_id run_id tool arguments) of
              PostHttpError code \<Rightarrow> outcome_of ''tool_error'' None
            | PostTimeout \<Rightarrow> outcome_of ''tool_timeout'' None
            | PostFailed \<Rightarrow> outcome_of ''tool_error'' None
            | PostData None \<Rightarrow> outcome_of ''tool_error'' None
            | PostData (Some (JObj data)) \<Rightarrow>
                \<lparr>so_result_class = py_str fr (dget_or data ''result_class'' (JStr ''tool_error'')),
                 so_result = dget data ''result'',
                 so_exit_code = as_int (dget data ''exit_code'')\<rparr>
            | PostData (Some _) \<Rightarrow> outcome_of ''tool_error'' None))"

section \<open>Names and labels\<close>








section \<open>The policy of the template\<close>











section \<open>Reaping and termination\<close>

text \<open>At most \<open>n\<close> calls were made, and they only read.\<close>

definition reads :: "nat \<Rightarrow> 'w cluster \<Rightarrow> 'w cluster \<Rightarrow> bool" where
  "reads n c c' \<longleftrightarrow>
     (\<exists>mid. cl_calls c' = cl_calls c @ mid \<and> length mid \<le> n \<and> list_all (\<lambda>q. fst q = ''GET'') mid)"

lemma reads_refl [simp]: "reads n c c"
  by (simp add: reads_def)

lemma reads_trans: "reads m a b \<Longrightarrow> reads n b c \<Longrightarrow> reads (m + n) a c"
  unfolding reads_def by (elim exE conjE) (rule exI, auto)

lemma reads_more: "reads m a b \<Longrightarrow> m \<le> n \<Longrightarrow> reads n a b"
  unfolding reads_def by fastforce

lemma raw_calls: "cl_calls (snd (k8s_raw env m p b c)) = cl_calls c @ [(m, p)]"
  by (simp add: k8s_raw_def split_beta)

lemma request_snd: "snd (k8s_request env m p b c) = snd (k8s_raw env m p b c)"
  by (auto simp: k8s_request_def split: prod.splits sum.splits option.splits)

lemma request_calls: "cl_calls (snd (k8s_request env m p b c)) = cl_calls c @ [(m, p)]"
  by (simp add: request_snd raw_calls)

lemma get_reads: "reads 1 c (snd (k8s_request env ''GET'' p b c))"
  and raw_reads: "reads 1 c (snd (k8s_raw env ''GET'' p b c))"
  by (simp_all add: reads_def request_calls raw_calls)

lemma get_job_reads: "k8s_get_job env name c = (r, c') \<Longrightarrow> reads 1 c c'"
  by (metis get_reads k8s_get_job_def snd_conv)

lemma list_pods_reads: "k8s_list_pods env selector c = (r, c') \<Longrightarrow> reads 1 c c'"
proof -
  have "snd (k8s_list_pods env selector c) =
      snd (k8s_request env ''GET'' (pods_path env @ ''?labelSelector='' @ quote_plus selector) None c)"
    unfolding k8s_list_pods_def by (auto split: prod.splits sum.splits)
  then show "k8s_list_pods env selector c = (r, c') \<Longrightarrow> reads 1 c c'"
    by (metis get_reads snd_conv)
qed

lemma log_reads: "k8s_read_pod_log env name c = (r, c') \<Longrightarrow> reads 1 c c'"
  by (metis raw_reads k8s_read_pod_log_def snd_conv)

lemma result_reads: "read_pod_result env selector c = (r, c') \<Longrightarrow> reads 2 c c'"
proof -
  assume a: "read_pod_result env selector c = (r, c')"
  obtain p c1 where p: "k8s_list_pods env selector c = (p, c1)" by fastforce
  note 1 = list_pods_reads [OF p]
  have "c' = c1 \<or> (\<exists>name l. k8s_read_pod_log env name c1 = (l, c'))"
    using a p unfolding read_pod_result_def
    by (auto split: sum.splits k8s_exn.splits if_splits prod.splits)
  then have "reads 1 c1 c'"
    by (auto dest: log_reads)
  from reads_trans [OF 1 this] show ?thesis
    by (simp add: numeral_2_eq_2)
qed

lemma fail_reads: "fail_job env selector job c = (r, c') \<Longrightarrow> reads 1 c c'"
proof -
  assume a: "fail_job env selector job c = (r, c')"
  obtain p c1 where p: "k8s_list_pods env selector c = (p, c1)" by fastforce
  have "c' = c \<or> c' = c1"
    using a p unfolding fail_job_def pod_exit_code_def
    by (auto split: sum.splits k8s_exn.splits if_splits prod.splits)
  with list_pods_reads [OF p] show ?thesis by auto
qed

text \<open>One turn of the loop with any continuation: it stops having read at most three more times, or
  naps and goes on.\<close>

definition poll_step ::
    "('w cluster \<Rightarrow> ((k8s_exn + job_outcome) \<times> 'w cluster) option) \<Rightarrow> 'w kube \<Rightarrow> rat \<Rightarrow> string \<Rightarrow> string \<Rightarrow> rat
       \<Rightarrow> 'w cluster \<Rightarrow> ((k8s_exn + job_outcome) \<times> 'w cluster) option" where
  "poll_step go env interval name selector deadline c =
     (case k8s_get_job env name c of
        (Inl (K8sError _), c) \<Rightarrow> Some (Inr (job_failed ''tool_error'' JNull), c)
      | (Inl ex, c) \<Rightarrow> Some (Inl ex, c)
      | (Inr job, c) \<Rightarrow>
          (case job_status job of
             Inl ex \<Rightarrow> Some (Inl (OtherError ex), c)
           | Inr (succeeded, failed) \<Rightarrow>
               if succeeded then Some (read_pod_result env selector c)
               else if failed then Some (fail_job env selector job c)
               else if deadline < ku_now env (cl_world c)
               then Some (Inr (job_failed ''tool_timeout'' JNull), c)
               else go (nap env interval c)))"

lemma poll_unfold:
  "poll env interval name selector deadline c =
     poll_step (poll env interval name selector deadline) env interval name selector deadline c"
  unfolding poll_step_def by (rule poll.simps)

lemma poll_turn:
  obtains (stop) r c' where "poll_step go env interval name selector deadline c = Some (r, c')" and "reads 3 c c'"
  | (again) c1 where "reads 1 c c1" and "ku_now env (cl_world c1) \<le> deadline"
      and "snd (k8s_get_job env name c) = c1"
      and "poll_step go env interval name selector deadline c = go (nap env interval c1)"
proof -
  obtain g c1 where g: "k8s_get_job env name c = (g, c1)" by fastforce
  have 1: "reads 1 c c1" using get_job_reads [OF g] .
  have here: "reads 3 c c1" using 1 by (rule reads_more) simp
  have far: "reads 3 c c'" if "reads 2 c1 c'" for c'
    using reads_trans [OF 1 that] by (simp add: numeral_3_eq_3)
  show thesis
  proof (cases g)
    case (Inl ex)
    show thesis
      by (cases ex) (auto intro!: stop [OF _ here] simp: poll_step_def g Inl)
  next
    case (Inr job)
    note u = poll_step_def [of go env interval name selector deadline c, unfolded g Inr prod.case sum.case]
    show thesis
    proof (cases "job_status job")
      case (Inl ex)
      show thesis by (rule stop [OF _ here]) (simp add: u Inl)
    next
      case st: (Inr sf)
      obtain s f where sf: "sf = (s, f)" by (cases sf)
      note u = u [unfolded st sf prod.case sum.case]
      consider "s" | "\<not> s" "f" | "\<not> s" "\<not> f" "deadline < ku_now env (cl_world c1)"
        | "\<not> s" "\<not> f" "ku_now env (cl_world c1) \<le> deadline"
        by fastforce
      then show thesis
      proof cases
        case 1
        obtain r c' where r: "read_pod_result env selector c1 = (r, c')" by fastforce
        show thesis
          by (rule stop [OF _ far [OF result_reads [OF r]]]) (simp add: u 1 r)
      next
        case 2
        obtain r c' where r: "fail_job env selector job c1 = (r, c')" by fastforce
        have "reads 2 c1 c'" using fail_reads [OF r] by (rule reads_more) simp
        then show thesis
          by (intro stop [OF _ far]) (simp_all add: u 2 r)
      next
        case 3
        show thesis by (rule stop [OF _ here]) (simp add: u 3)
      next
        case 4
        then show thesis
          by (intro again [OF 1]) (simp_all add: u g)
      qed
    qed
  qed
qed

lemma nap_calls [simp]: "cl_calls (nap env d c) = cl_calls c"
  by (simp add: nap_def)

lemma reads_nap: "reads n (nap env d c) c' = reads n c c'"
  by (simp add: reads_def)

lemma poll_reads:
  assumes "poll env interval name selector deadline c = Some rc"
  shows "\<exists>n. reads n c (snd rc)"
proof (rule poll.raw_induct [folded poll_step_def,
      where P = "\<lambda>env interval name selector deadline c rc. \<exists>n. reads n c (snd rc)", OF _ assms], goal_cases)
  case (1 go env interval name selector deadline c rc)
  show ?case
  proof (cases rule: poll_turn [of "go env interval name selector deadline" env interval name selector deadline c])
    case (stop r c')
    then show ?thesis
      using 1(2) by auto
  next
    case (again c1)
    have "go env interval name selector deadline (nap env interval c1) = Some rc"
      using again(4) 1(2) by simp
    from 1(1) [OF this] obtain n where "reads n (nap env interval c1) (snd rc)"
      by (rule exE)
    then show ?thesis
      using reads_trans [OF again(1)] by (auto simp: reads_nap)
  qed
qed

text \<open>The clock: calls do not turn it back, and a sleep takes as long as it was asked for.\<close>

definition clock_ok :: "'w kube \<Rightarrow> bool" where
  "clock_ok env \<longleftrightarrow>
     (\<forall>m p b w. ku_now env w \<le> ku_now env (snd (ku_http env m p b w))) \<and>
     (\<forall>d w. 0 \<le> d \<longrightarrow> ku_now env w + d \<le> ku_now env (ku_sleep env d w))"

lemma get_job_clock:
  "clock_ok env \<Longrightarrow> ku_now env (cl_world c) \<le> ku_now env (cl_world (snd (k8s_get_job env name c)))"
  by (simp add: k8s_get_job_def request_snd k8s_raw_def split_beta clock_ok_def)

lemma poll_terminates:
  assumes "clock_ok env" and "0 < interval"
  shows "deadline - ku_now env (cl_world c) < of_nat n * interval \<Longrightarrow>
    \<exists>r c'. poll env interval name selector deadline c = Some (r, c') \<and> reads (n + 3) c c'"
proof (induction n arbitrary: c)
  case 0
  show ?case
  proof (cases rule: poll_turn [of "poll env interval name selector deadline" env interval name selector deadline c])
    case (again c1)
    then show ?thesis
      using 0 get_job_clock [OF assms(1), of c name] by simp
  qed (auto simp: poll_unfold [of _ _ _ _ _ c])
next
  case (Suc n)
  show ?case
  proof (cases rule: poll_turn [of "poll env interval name selector deadline" env interval name selector deadline c])
    case (stop r c')
    then show ?thesis by (auto simp: poll_unfold [of _ _ _ _ _ c] intro: reads_more)
  next
    case (again c1)
    have "ku_now env (cl_world c1) + interval \<le> ku_now env (cl_world (nap env interval c1))"
      using assms by (simp add: nap_def clock_ok_def)
    moreover have "ku_now env (cl_world c) \<le> ku_now env (cl_world c1)"
      using get_job_clock [OF assms(1), of c name] again(3) by simp
    ultimately have "deadline - ku_now env (cl_world (nap env interval c1)) < of_nat n * interval"
      using Suc.prems by (simp add: algebra_simps)
    from Suc.IH [OF this] obtain r c' where
      r: "poll env interval name selector deadline (nap env interval c1) = Some (r, c')" "reads (n + 3) c1 c'"
      by (auto simp: reads_nap)
    have "reads (Suc n + 3) c c'"
      using reads_trans [OF again(1) r(2)] by simp
    then show ?thesis
      using r(1) again(4) by (auto simp: poll_unfold [of _ _ _ _ _ c])
  qed
qed

text \<open>What a run of a created Job leaves in the log of calls: the creation, reads, and the deletion of
  the same Job.\<close>

definition reaped :: "'w kube \<Rightarrow> string \<Rightarrow> nat \<Rightarrow> 'w cluster \<Rightarrow> 'w cluster \<Rightarrow> bool" where
  "reaped env name n c c' \<longleftrightarrow>
     (\<exists>mid. cl_calls c' = cl_calls c @ (''POST'', jobs_path env) # mid
        @ [(''DELETE'', jobs_path env @ ''/'' @ name @ ''?propagationPolicy=Background'')] \<and>
      length mid \<le> n \<and> list_all (\<lambda>q. fst q = ''GET'') mid)"

lemma create_calls:
  "k8s_create_job env m c = (r, c') \<Longrightarrow> cl_calls c' = cl_calls c @ [(''POST'', jobs_path env)]"
  by (metis k8s_create_job_def request_calls snd_conv)

lemma reap_calls:
  "cl_calls (snd (reap env name (r, c))) =
     cl_calls c @ [(''DELETE'', jobs_path env @ ''/'' @ name @ ''?propagationPolicy=Background'')]"
proof -
  obtain a c1 where a: "k8s_delete_job env name c = (a, c1)" by fastforce
  then have "cl_calls c1 = cl_calls c @ [(''DELETE'', jobs_path env @ ''/'' @ name @ ''?propagationPolicy=Background'')]"
    by (metis k8s_delete_job_def request_calls snd_conv)
  with a show ?thesis
    by (auto simp: reap_def split: sum.splits k8s_exn.splits)
qed

lemma reap_reaped:
  assumes "k8s_create_job env m c = (x, c0)" and "reads n c0 c1"
  shows "reaped env name n c (snd (reap env name (r, c1)))"
  using assms(2) create_calls [OF assms(1)] reap_calls [of env name r c1]
  unfolding reaped_def reads_def by force

lemma run_created:
  assumes "k8s_create_job env (build_job_manifest (ku_repr env) cfg run_id tenant_id tool arguments) c = (Inr v, c0)"
  shows "run_tool_job env cfg run_id tenant_id tool arguments c =
     map_option (reap env (job_name run_id))
       (poll env (jc_poll_interval cfg) (job_name run_id) (run_selector run_id)
          (ku_now env (cl_world c0) + jc_overall_timeout cfg) c0)"
  by (simp add: run_tool_job_def assms Let_def)

lemma run_not_created:
  assumes "k8s_create_job env (build_job_manifest (ku_repr env) cfg run_id tenant_id tool arguments) c = (Inl ex, c0)"
  shows "\<exists>r. run_tool_job env cfg run_id tenant_id tool arguments c = Some (r, c0)"
  by (cases ex) (simp_all add: run_tool_job_def assms Let_def)

lemma run_reaped:
  assumes "run_tool_job env cfg run_id tenant_id tool arguments c = Some (r, c')"
  shows "case k8s_create_job env (build_job_manifest (ku_repr env) cfg run_id tenant_id tool arguments) c of
      (Inl ex, c0) \<Rightarrow> c' = c0 \<and> cl_calls c' = cl_calls c @ [(''POST'', jobs_path env)]
    | (Inr v, c0) \<Rightarrow> \<exists>n. reaped env (job_name run_id) n c c'"
proof -
  obtain x c0 where x: "k8s_create_job env
      (build_job_manifest (ku_repr env) cfg run_id tenant_id tool arguments) c = (x, c0)" by fastforce
  show ?thesis
  proof (cases x)
    case (Inl ex)
    then show ?thesis
      using run_not_created [of env cfg run_id tenant_id tool arguments c ex c0] x assms create_calls [OF x] by auto
  next
    case (Inr v)
    from x [unfolded Inr] assms obtain r1 c1 where
      p: "poll env (jc_poll_interval cfg) (job_name run_id) (run_selector run_id)
          (ku_now env (cl_world c0) + jc_overall_timeout cfg) c0 = Some (r1, c1)"
        and r: "reap env (job_name run_id) (r1, c1) = (r, c')"
      by (auto simp: run_created)
    from poll_reads [OF p] reap_reaped [OF x, of _ c1 "job_name run_id" r1] show ?thesis
      using x Inr by (auto simp: r)
  qed
qed

lemma run_terminates:
  assumes "clock_ok env" and "0 < jc_poll_interval cfg"
  shows "\<exists>r c'. run_tool_job env cfg run_id tenant_id tool arguments c = Some (r, c') \<and>
     length (cl_calls c') \<le> length (cl_calls c) + nat \<lfloor>jc_overall_timeout cfg / jc_poll_interval cfg\<rfloor> + 6"
proof -
  obtain x c0 where x: "k8s_create_job env
      (build_job_manifest (ku_repr env) cfg run_id tenant_id tool arguments) c = (x, c0)" by fastforce
  let ?k = "nat \<lfloor>jc_overall_timeout cfg / jc_poll_interval cfg\<rfloor>"
  show ?thesis
  proof (cases x)
    case (Inl ex)
    then show ?thesis
      using run_not_created [of env cfg run_id tenant_id tool arguments c ex c0] x create_calls [OF x] by auto
  next
    case (Inr v)
    have "jc_overall_timeout cfg / jc_poll_interval cfg < of_nat (Suc ?k)"
      by linarith
    then have "jc_overall_timeout cfg < of_nat (Suc ?k) * jc_poll_interval cfg"
      using assms(2) by (simp add: pos_divide_less_eq del: of_nat_Suc)
    then have "ku_now env (cl_world c0) + jc_overall_timeout cfg - ku_now env (cl_world c0) <
        of_nat (Suc ?k) * jc_poll_interval cfg"
      by simp
    from poll_terminates [OF assms this, of "job_name run_id" "run_selector run_id"] obtain r1 c1 where
      p: "poll env (jc_poll_interval cfg) (job_name run_id) (run_selector run_id)
          (ku_now env (cl_world c0) + jc_overall_timeout cfg) c0 = Some (r1, c1)"
        and n: "reads (Suc ?k + 3) c0 c1"
      by blast
    let ?r = "reap env (job_name run_id) (r1, c1)"
    have "reaped env (job_name run_id) (Suc ?k + 3) c (snd ?r)"
      by (rule reap_reaped [OF x n])
    then have "length (cl_calls (snd ?r)) \<le> length (cl_calls c) + ?k + 6"
      unfolding reaped_def by auto
    then show ?thesis
      using run_created [OF x [unfolded Inr]] p by (metis option.simps(9) prod.collapse)
  qed
qed

section \<open>The whole path\<close>

text \<open>
  What the dispatcher relies on of a cluster that runs a Job to its end: \<open>completes \<dots> n c\<close> says that
  the Job is reported as running at \<open>n\<close> polls within the deadline, then as succeeded, and that the
  log of its pod is \<open>out\<close>, after which it can be deleted.
\<close>

definition pod_logs :: "'w kube \<Rightarrow> string \<Rightarrow> string \<Rightarrow> string \<Rightarrow> 'w cluster \<Rightarrow> bool" where
  "pod_logs env name selector out c \<longleftrightarrow>
     (case k8s_list_pods env selector c of
        (Inr pods, c) \<Rightarrow>
          truthy pods \<and>
          (case first_pod_name pods of
             Inr pod \<Rightarrow>
               (case k8s_read_pod_log env (py_str (ku_repr env) pod) c of
                  (Inr l, c) \<Rightarrow> l = out \<and> (\<exists>v. fst (k8s_delete_job env name c) = Inr v)
                | _ \<Rightarrow> False)
           | _ \<Rightarrow> False)
      | _ \<Rightarrow> False)"

fun completes ::
    "'w kube \<Rightarrow> rat \<Rightarrow> string \<Rightarrow> string \<Rightarrow> rat \<Rightarrow> string \<Rightarrow> nat \<Rightarrow> 'w cluster \<Rightarrow> bool" where
  "completes env interval name selector deadline out 0 c =
     (case k8s_get_job env name c of
        (Inr job, c) \<Rightarrow> (\<exists>f. job_status job = Inr (True, f)) \<and> pod_logs env name selector out c
      | _ \<Rightarrow> False)"
| "completes env interval name selector deadline out (Suc n) c =
     (case k8s_get_job env name c of
        (Inr job, c) \<Rightarrow> job_status job = Inr (False, False) \<and> ku_now env (cl_world c) \<le> deadline \<and>
          completes env interval name selector deadline out n (nap env interval c)
      | _ \<Rightarrow> False)"

lemma read_logged:
  assumes "pod_logs env name selector out c"
  shows "\<exists>c'. read_pod_result env selector c = (Inr (classify_log (ku_loads env) out), c') \<and>
     (\<exists>v c''. k8s_delete_job env name c' = (Inr v, c''))"
proof -
  from assms obtain pods c1 where 1: "k8s_list_pods env selector c = (Inr pods, c1)"
    unfolding pod_logs_def by (auto split: prod.splits sum.splits)
  from assms 1 obtain pod where 2: "truthy pods" "first_pod_name pods = Inr pod"
    unfolding pod_logs_def by (auto split: sum.splits)
  from assms 1 2 obtain c2 v where 3: "k8s_read_pod_log env (py_str (ku_repr env) pod) c1 = (Inr out, c2)"
      "fst (k8s_delete_job env name c2) = Inr v"
    unfolding pod_logs_def by (auto split: prod.splits sum.splits)
  obtain a c3 where "k8s_delete_job env name c2 = (a, c3)" by fastforce
  with 1 2 3 show ?thesis
    by (auto simp: read_pod_result_def)
qed

lemma poll_completes:
  "completes env interval name selector deadline out n c \<Longrightarrow>
     \<exists>c'. poll env interval name selector deadline c = Some (Inr (classify_log (ku_loads env) out), c') \<and>
       (\<exists>v c''. k8s_delete_job env name c' = (Inr v, c''))"
proof (induction n arbitrary: c)
  case 0
  then obtain job c1 f where g: "k8s_get_job env name c = (Inr job, c1)" "job_status job = Inr (True, f)"
      "pod_logs env name selector out c1"
    by (auto split: prod.splits sum.splits)
  from read_logged [OF g(3)] show ?case
    unfolding poll_unfold [of env interval name selector deadline c] poll_step_def by (auto simp: g)
next
  case (Suc n)
  then obtain job c1 where g: "k8s_get_job env name c = (Inr job, c1)" "job_status job = Inr (False, False)"
      "ku_now env (cl_world c1) \<le> deadline"
      "completes env interval name selector deadline out n (nap env interval c1)"
    by (auto split: prod.splits sum.splits)
  have "\<not> deadline < ku_now env (cl_world c1)"
    using g(3) by simp
  with Suc.IH [OF g(4)] show ?case
    unfolding poll_unfold [of env interval name selector deadline c] poll_step_def by (simp add: g(1,2))
qed

text \<open>A cluster runs this call: it takes the Job, runs the runner on its input, and \<open>json.loads\<close> reads
  back what \<open>json.dumps\<close> printed of the two texts involved.\<close>

definition runs_job ::
    "'w kube \<Rightarrow> job_config \<Rightarrow> string \<Rightarrow> string \<Rightarrow> string \<Rightarrow> dict \<Rightarrow> nat \<Rightarrow> 'w cluster \<Rightarrow> bool" where
  "runs_job env cfg run_id tenant_id tool arguments n c \<longleftrightarrow>
     (case k8s_create_job env (build_job_manifest (ku_repr env) cfg run_id tenant_id tool arguments) c of
        (Inr v, c) \<Rightarrow>
          (case runner_main (ku_loads env (json_dumps (ku_repr env) (job_payload tool arguments))) of
             Inr result \<Rightarrow>
               ku_loads env (json_dumps (ku_repr env) (job_payload tool arguments)) =
                 Some (job_payload tool arguments) \<and>
               ku_loads env (json_dumps (ku_repr env) result) = Some result \<and>
               completes env (jc_poll_interval cfg) (job_name run_id) (run_selector run_id)
                 (ku_now env (cl_world c) + jc_overall_timeout cfg) (json_dumps (ku_repr env) result) n c
           | Inl _ \<Rightarrow> False)
      | _ \<Rightarrow> False)"

lemma dumps_obj_nonempty: "json_dumps fr (JObj d) \<noteq> []"
  by simp

lemma runner_obj: "runner_run d = Inr v \<Longrightarrow> \<exists>d'. v = JObj d'"
  by (auto simp: runner_run_def not_ok_def split: json.splits option.splits sum.splits)

lemma run_job_outcome:
  assumes "runs_job env cfg run_id tenant_id tool arguments n c"
  shows "\<exists>data c'. runner_main (Some (job_payload tool arguments)) = Inr (JObj data) \<and>
     run_tool_job env cfg run_id tenant_id tool arguments c =
       Some (Inr (if truthy (dget data ''ok'')
                  then \<lparr>jo_result_class = ''success'', jo_result = dget data ''result'', jo_exit_code = JInt 0\<rparr>
                  else job_failed (if dget data ''error'' = JStr ''unknown_tool'' then ''unknown_tool''
                                   else ''tool_error'') (JInt 0)), c')"
proof -
  let ?fr = "ku_repr env" and ?pl = "job_payload tool arguments"
  from assms obtain v c0 where cr: "k8s_create_job env (build_job_manifest ?fr cfg run_id tenant_id tool arguments) c
      = (Inr v, c0)"
    unfolding runs_job_def by (auto split: prod.splits sum.splits)
  note a = assms [unfolded runs_job_def cr prod.case sum.case]
  from a obtain result where r: "runner_main (ku_loads env (json_dumps ?fr ?pl)) = Inr result"
    by (auto split: sum.splits)
  note a = a [unfolded r sum.case]
  have "runner_main (Some ?pl) = Inr result"
    using r a by (simp del: json_dumps.simps)
  moreover from this obtain data where d: "result = JObj data"
    using runner_obj [of _ result] by (auto simp: runner_main_def job_payload_def)
  moreover from a [THEN conjunct2, THEN conjunct2, THEN poll_completes] obtain c1 w c2 where
    "poll env (jc_poll_interval cfg) (job_name run_id) (run_selector run_id)
      (ku_now env (cl_world c0) + jc_overall_timeout cfg) c0
     = Some (Inr (classify_log (ku_loads env) (json_dumps ?fr result)), c1)"
    "k8s_delete_job env (job_name run_id) c1 = (Inr w, c2)"
    by blast
  then have "run_tool_job env cfg run_id tenant_id tool arguments c =
      Some (Inr (classify_log (ku_loads env) (json_dumps ?fr result)), c2)"
    by (simp add: run_created [OF cr] reap_def del: json_dumps.simps)
  moreover have "ku_loads env (json_dumps ?fr (JObj data)) = Some (JObj data)"
    using a d by simp
  ultimately show ?thesis
    by (auto simp: classify_log_def dumps_obj_nonempty simp del: json_dumps.simps)
qed

lemma bearer_token:
  assumes "py_strip token = token" and "token \<noteq> []"
  shows "dispatcher_bearer (Some (''Bearer '' @ token)) = Some token"
proof -
  have "hd token \<in> {c. \<not> is_space c}"
  proof -
    have "py_lstrip token \<noteq> []"
      using assms by (auto simp: py_strip_def py_rstrip_by_def)
    then have "\<not> is_space (hd (py_lstrip token))"
      unfolding py_lstrip_def by (rule hd_dropWhile)
    moreover have "length (py_lstrip token) = length token"
      using assms(1) length_dropWhile_le [of is_space token] length_dropWhile_le [of is_space "rev (py_lstrip token)"]
      by (metis le_antisym length_rev py_lstrip_def py_rstrip_by_def py_strip_def)
    then have "py_lstrip token = token"
      by (metis append_eq_append_conv append_self_conv2 length_0_conv length_append add_cancel_left_left
          py_lstrip_def takeWhile_dropWhile_id)
    ultimately show ?thesis by simp
  qed
  then obtain c cs where t: "token = c # cs" "\<not> is_space c"
    using assms(2) by (cases token) auto
  have sp: "\<not> is_space (CHR ''B'')" "\<not> is_space (CHR ''e'')" "\<not> is_space (CHR ''a'')" "\<not> is_space (CHR ''r'')"
    "is_space (CHR '' '')"
    by (simp_all add: is_space_def ord_of_def)
  have "split_ws1 (''Bearer '' @ token) = [''Bearer'', token]"
    by (simp add: split_ws1_def py_lstrip_def sp t)
  then show ?thesis
    using assms by (simp add: dispatcher_bearer_def)
qed

section \<open>The wire between the client and the dispatcher\<close>

text \<open>
  The dispatcher at the other end of the client's request: \<open>service\<close> is the URL it listens at.  What
  is posted elsewhere does not reach it; the body goes over as text with its length, through the
  HTTP handler, its path and its cap; a reply that takes longer than the client's timeout is not
  seen; an exception closes the connection; the answer comes back as text.
\<close>

definition dispatcher_link ::
    "'w kube \<Rightarrow> dispatcher_config \<Rightarrow> 'w cluster \<Rightarrow> string \<Rightarrow> rat \<Rightarrow> string \<Rightarrow> string \<Rightarrow> json \<Rightarrow> post_result" where
  "dispatcher_link env d c service timeout url header body =
     (if take (length service) url \<noteq> service then PostFailed
      else let text = json_dumps (ku_repr env) body in
        (case dispatcher_post env d (drop (length service) url) (Some (str_nat (length text))) (Some header)
                (ku_loads env text) c of
           None \<Rightarrow> PostTimeout
         | Some (r, c') \<Rightarrow>
             if timeout < ku_now env (cl_world c') - ku_now env (cl_world c) then PostTimeout
             else (case r of
                     Inl ex \<Rightarrow> PostFailed
                   | Inr (code, payload) \<Rightarrow>
                       if 400 \<le> code then PostHttpError code
                       else PostData (ku_loads env (json_dumps (ku_repr env) payload)))))"

text \<open>The wire carries a call: the request fits the dispatcher's cap, \<open>json.loads\<close> reads back the texts
  of the request and of the reply, and the run is over before the client's timeout.\<close>

definition carries ::
    "'w kube \<Rightarrow> job_config \<Rightarrow> rat \<Rightarrow> string \<Rightarrow> string \<Rightarrow> string \<Rightarrow> dict \<Rightarrow> 'w cluster \<Rightarrow> bool" where
  "carries env cfg timeout run_id tenant_id tool arguments c \<longleftrightarrow>
     int (length (json_dumps (ku_repr env) (call_body tenant_id run_id tool arguments))) \<le> MAX_BODY \<and>
     ku_loads env (json_dumps (ku_repr env) (call_body tenant_id run_id tool arguments)) =
       Some (call_body tenant_id run_id tool arguments) \<and>
     (case run_tool_job env cfg run_id tenant_id tool arguments c of
        Some (Inr out, c') \<Rightarrow>
          ku_loads env (json_dumps (ku_repr env) (run_payload out)) = Some (run_payload out) \<and>
          ku_now env (cl_world c') - ku_now env (cl_world c) \<le> timeout
      | _ \<Rightarrow> False)"

text \<open>The length of the request is read back by \<^verbatim>\<open>int\<close>.\<close>

definition decimal :: "char \<Rightarrow> bool" where
  "decimal c \<longleftrightarrow> 48 \<le> ord_of c \<and> ord_of c \<le> 57"

definition add_digit :: "nat \<Rightarrow> char \<Rightarrow> nat" where
  "add_digit n c = 10 * n + (ord_of c - 48)"

lemma digit_of_decimal: "decimal c \<Longrightarrow> digit_of c = Some (ord_of c - 48)"
  by (simp add: decimal_def digit_of.simps)

lemma int_digits_foldl:
  "cs \<noteq> [] \<Longrightarrow> list_all decimal cs \<Longrightarrow> int_digits acc cs = Some (foldl add_digit acc cs)"
proof (induction acc cs rule: int_digits.induct)
  case (3 acc c u cs)
  have "u \<noteq> CHR ''_''"
    using 3(3) by (auto simp: decimal_def ord_of_def)
  moreover have "10 * acc + (ord_of c - 48) = add_digit acc c"
    by (simp add: add_digit_def)
  ultimately show ?case
    using 3 by (simp add: digit_of_decimal)
qed (simp_all add: digit_of_decimal add_digit_def)

lemma digit_char:
  assumes "k < 10"
  shows "decimal (char_of (48 + k))" and "add_digit n (char_of (48 + k)) = 10 * n + k"
proof -
  have "ord_of (char_of (48 + k)) = 48 + k"
    using assms by (simp add: ord_of_def)
  then show "decimal (char_of (48 + k))" "add_digit n (char_of (48 + k)) = 10 * n + k"
    using assms by (simp_all add: decimal_def add_digit_def)
qed

lemma str_nat_digits: "str_nat n \<noteq> [] \<and> list_all decimal (str_nat n) \<and> foldl add_digit 0 (str_nat n) = n"
proof (induction n rule: str_nat.induct)
  case (1 n)
  then show ?case
    by (subst (1 2 3) str_nat.simps) (simp add: digit_char del: One_nat_def)
qed

lemma py_strip_plain: "list_all (\<lambda>c. \<not> is_space c) s \<Longrightarrow> py_strip s = s"
proof -
  assume s: "list_all (\<lambda>c. \<not> is_space c) s"
  have keep: "list_all (\<lambda>c. \<not> is_space c) xs \<Longrightarrow> dropWhile is_space xs = xs" for xs
    by (cases xs) auto
  from keep [OF s] keep [of "rev s"] s show ?thesis
    by (simp add: py_strip_def py_lstrip_def py_rstrip_by_def)
qed

lemma py_int_str_nat: "py_int (str_nat n) = Some (int n)"
proof -
  obtain c cs where s: "str_nat n = c # cs"
    using str_nat_digits [of n] by (cases "str_nat n") auto
  have d: "list_all decimal (c # cs)"
    using str_nat_digits [of n] s by simp
  then have "list_all (\<lambda>k. \<not> is_space k) (c # cs)"
    unfolding list_all_iff by (auto simp: decimal_def is_space_def)
  then have "py_strip (c # cs) = c # cs"
    by (rule py_strip_plain)
  moreover have "c \<noteq> CHR ''-''" "c \<noteq> CHR ''+''"
    using d by (auto simp: decimal_def ord_of_def)
  ultimately show ?thesis
    using int_digits_foldl [of "c # cs" 0] d str_nat_digits [of n] by (simp add: py_int_def s)
qed

lemma run_response_accepted:
  assumes "dc_token d = Some token" and "token \<noteq> []" and "dispatcher_bearer a = Some token" and "is_ascii token"
    and "dispatch_fields body = Inr (tool, args, rid, tenant)" and "in_TOOLS tool" and "tool_executor tool = ''job''"
  shows "build_run_response env d a body c =
     (case run_tool_job env (dispatcher_job_config d) rid tenant tool args c of
        None \<Rightarrow> None
      | Some (Inl ex, c) \<Rightarrow> Some (Inl ex, c)
      | Some (Inr out, c) \<Rightarrow> Some (Inr (HTTP_OK, run_payload out), c))"
  by (simp add: build_run_response_def assms(1-6) compare_digest_def) (simp add: assms(7))

lemma run_response_cases:
  assumes "build_run_response env d a body c = rc"
  shows "(\<exists>r. rc = Some (r, c)) \<or>
     (\<exists>token tool args rid tenant. dc_token d = Some token \<and> token \<noteq> [] \<and> dispatcher_bearer a = Some token \<and>
        dispatch_fields body = Inr (tool, args, rid, tenant) \<and> in_TOOLS tool \<and> tool_executor tool = ''job'' \<and>
        rc = (case run_tool_job env (dispatcher_job_config d) rid tenant tool args c of
                None \<Rightarrow> None
              | Some (Inl ex, c) \<Rightarrow> Some (Inl ex, c)
              | Some (Inr out, c) \<Rightarrow> Some (Inr (HTTP_OK, run_payload out), c)))"
proof (rule ccontr)
  assume n: "\<not> ?thesis"
  note D = assms [unfolded build_run_response_def]
  obtain token where t: "dc_token d = Some token"
    using n D by (cases "dc_token d") auto
  note D = D [unfolded t option.case]
  have ne: "token \<noteq> []"
    using n D by (cases "token = []") auto
  obtain p where p: "dispatcher_bearer a = Some p"
    using n D ne by (cases "dispatcher_bearer a") auto
  note D = D [unfolded p option.case if_not_P [OF ne]]
  have cd: "compare_digest p token = Inr True"
  proof (cases "compare_digest p token")
    case (Inr b)
    then show ?thesis using n D by (cases b) auto
  qed (use n D in auto)
  then have [simp]: "p = token"
    by (auto simp: compare_digest_def split: if_splits)
  note D = D [unfolded cd sum.case bool.case]
  obtain tool args rid tenant where f: "dispatch_fields body = Inr (tool, args, rid, tenant)"
    using n D by (cases "dispatch_fields body") auto
  note D = D [unfolded f sum.case prod.case]
  show False
  proof (cases "in_TOOLS tool \<and> tool_executor tool = ''job''")
    case True
    then have "\<not> (\<not> in_TOOLS tool \<or> tool_executor tool \<noteq> ''job'')"
      by blast
    note D = D [unfolded if_not_P [OF this]]
    have p': "dispatcher_bearer a = Some token"
      using p by simp
    show False
      by (rule notE [OF n], intro disjI2 exI conjI, rule t, rule ne, rule p', rule f,
          rule True [THEN conjunct1], rule True [THEN conjunct2], rule D [symmetric])
  next
    case False
    then have "\<not> in_TOOLS tool \<or> tool_executor tool \<noteq> ''job''"
      by blast
    note D = D [unfolded if_P [OF this]]
    show False
      by (rule notE [OF n], rule disjI1, rule exI, rule D [symmetric])
  qed
qed

text \<open>A call the wire carries is answered with what the dispatcher answered.\<close>

lemma link_carried:
  assumes "build_run_response env d (Some header) (Some (call_body tenant_id run_id tool arguments)) c =
      Some (Inr (HTTP_OK, run_payload out), c')"
    and "carries env cfg timeout run_id tenant_id tool arguments c"
    and "run_tool_job env cfg run_id tenant_id tool arguments c = Some (Inr out, c')"
  shows "dispatcher_link env d c service timeout (service @ ''/run'') header
      (call_body tenant_id run_id tool arguments) = PostData (Some (run_payload out))"
proof -
  let ?text = "json_dumps (ku_repr env) (call_body tenant_id run_id tool arguments)"
  note w = assms(2) [unfolded carries_def assms(3), simplified option.case prod.case sum.case]
  have l: "int_arg (str_or (str_nat (length ?text)) ''0'') = Inr (int (length ?text))"
    using str_nat_digits [of "length ?text"] by (simp add: int_arg_def str_or_def py_int_str_nat)
  have p: "fst (split_char1 (CHR ''?'') ''/run'') = ''/run''"
    by code_simp
  have ne: "0 < int (length ?text)"
    by (simp add: call_body_def)
  have "dispatcher_post env d ''/run'' (Some (str_nat (length ?text))) (Some header) (ku_loads env ?text) c =
      Some (Inr (HTTP_OK, run_payload out), c')"
    using w ne by (simp add: dispatcher_post_def l p assms(1) del: json_dumps.simps)
  then show ?thesis
    using w by (simp add: dispatcher_link_def del: json_dumps.simps)
qed


section \<open>Properties\<close>


text \<open>C10: The dispatcher calls the cluster only for a request that shows its token, whose fields are
  valid, and whose tool is registered for Jobs.  Whenever the call that creates the Job returned and
  the dispatcher returns or raises, the Job has been deleted again, last and once, whatever the
  cluster answered in between.  Where the creating call itself raised, it is the only call: a Job
  the cluster took although its answer was lost is not deleted by the dispatcher.\<close>

theorem dispatcher_gated_and_reaped:
  assumes "build_run_response env d authorization body c = Some (r, c')"
  shows "c' = c \<or>
     (\<exists>token tool args run_id tenant. dc_token d = Some token \<and> token \<noteq> [] \<and>
        dispatcher_bearer authorization = Some token \<and> dispatch_fields body = Inr (tool, args, run_id, tenant) \<and>
        in_TOOLS tool \<and> tool_executor tool = ''job'' \<and>
        (case k8s_create_job env
             (build_job_manifest (ku_repr env) (dispatcher_job_config d) run_id tenant tool args) c of
           (Inl ex, c0) \<Rightarrow> c' = c0 \<and> cl_calls c' = cl_calls c @ [(''POST'', jobs_path env)]
         | (Inr v, c0) \<Rightarrow> \<exists>n. reaped env (job_name run_id) n c c'))"
  using run_response_cases [OF assms]
proof (elim disjE exE conjE)
  fix token tool args run_id tenant
  assume g: "dc_token d = Some token" "token \<noteq> []" "dispatcher_bearer authorization = Some token"
    "dispatch_fields body = Inr (tool, args, run_id, tenant)" "in_TOOLS tool" "tool_executor tool = ''job''"
    and r: "Some (r, c') = (case run_tool_job env (dispatcher_job_config d) run_id tenant tool args c of
                None \<Rightarrow> None
              | Some (Inl ex, c) \<Rightarrow> Some (Inl ex, c)
              | Some (Inr out, c) \<Rightarrow> Some (Inr (HTTP_OK, run_payload out), c))"
  from r obtain r1 where "run_tool_job env (dispatcher_job_config d) run_id tenant tool args c = Some (r1, c')"
    by (auto split: option.splits sum.splits)
  note run_reaped [OF this]
  then show ?thesis
    by (intro disjI2 exI conjI) (rule g | assumption)+
qed auto

text \<open>C32: The dispatcher's polling ends: where the clock moves on while it sleeps and calls do not turn it
  back, a request is answered (or an exception leaves it) within 96 calls of the cluster,
  whatever the cluster answers.\<close>

theorem dispatcher_terminates:
  assumes "clock_ok env"
  shows "\<exists>r c'. build_run_response env d authorization body c = Some (r, c') \<and>
     length (cl_calls c') \<le> length (cl_calls c) + 96"
  using run_response_cases [OF refl, of env d authorization body c]
proof (elim disjE exE conjE)
  fix token tool args run_id tenant
  assume r: "build_run_response env d authorization body c =
      (case run_tool_job env (dispatcher_job_config d) run_id tenant tool args c of
         None \<Rightarrow> None
       | Some (Inl ex, c) \<Rightarrow> Some (Inl ex, c)
       | Some (Inr out, c) \<Rightarrow> Some (Inr (HTTP_OK, run_payload out), c))"
  have "0 < jc_poll_interval (dispatcher_job_config d)"
    and "nat \<lfloor>jc_overall_timeout (dispatcher_job_config d) / jc_poll_interval (dispatcher_job_config d)\<rfloor> = 90"
    by (simp_all add: dispatcher_job_config_def)
  with run_terminates [OF assms, of "dispatcher_job_config d" run_id tenant tool args c]
  obtain r1 c' where "run_tool_job env (dispatcher_job_config d) run_id tenant tool args c = Some (r1, c')"
    "length (cl_calls c') \<le> length (cl_calls c) + 96"
    by (auto simp: algebra_simps)
  then show ?thesis
    unfolding r by (cases r1) auto
qed auto

text \<open>C9: The two executors are the same to their callers: a Job tool sent through the client and the
  dispatcher to a cluster that runs the Job has the outcome (class, result, exit code) that the
  subprocess sandbox gives the same call.  The conditions: the client posts to the URL the dispatcher
  listens at, both hold the same token (not empty, ASCII, without blanks around it), the ids are not
  empty and the tool is one of the registered Job tools; the cluster takes the Job, reports it as
  running at \<open>n\<close> polls before the deadline and then as succeeded, and gives the output the runner
  prints for the Job's input as the log of its pod; and the wire carries the call: its body is at
  most 262,144 bytes, \<open>json.loads\<close> reads back the texts sent, and the run is over within the
  client's timeout.\<close>

theorem job_path_equals_sandbox:
  assumes "job_configured x" and "jx_token x = Some token" and "dc_token d = Some token"
    and "token \<noteq> []" and "py_strip token = token" and "is_ascii token"
    and "run_id \<noteq> []" and "tenant_id \<noteq> []" and "in_TOOLS tool" and "tool_executor tool = ''job''"
    and "runs_job env (dispatcher_job_config d) run_id tenant_id tool arguments n c"
    and "carries env (dispatcher_job_config d) (jx_timeout x) run_id tenant_id tool arguments c"
    and "jx_base_url x = service"
  shows "job_execute fr (dispatcher_link env d c service) x tenant_id run_id tool arguments =
     sandbox_execute healthy_proc tool arguments"
proof -
  let ?body = "call_body tenant_id run_id tool arguments"
  have "tool \<noteq> []"
    using assms(9) by (auto simp: text_tools)
  then have f: "dispatch_fields (Some ?body) = Inr (tool, arguments, run_id, tenant_id)"
    using assms(7,8) by (simp add: dispatch_fields_def call_body_def)
  obtain data c' where main: "runner_main (Some (job_payload tool arguments)) = Inr (JObj data)"
    and run: "run_tool_job env (dispatcher_job_config d) run_id tenant_id tool arguments c =
       Some (Inr (if truthy (dget data ''ok'')
                  then \<lparr>jo_result_class = ''success'', jo_result = dget data ''result'', jo_exit_code = JInt 0\<rparr>
                  else job_failed (if dget data ''error'' = JStr ''unknown_tool'' then ''unknown_tool''
                                   else ''tool_error'') (JInt 0)), c')"
    using run_job_outcome [OF assms(11)] by blast
  note response = run_response_accepted [OF assms(3,4) bearer_token [OF assms(5,4)] assms(6) f assms(9,10), of env c,
      unfolded run option.case prod.case sum.case]
  note link = link_carried [OF response assms(12) run, of service]
  have "job_execute fr (dispatcher_link env d c service) x tenant_id run_id tool arguments =
      (if truthy (dget data ''ok'')
       then \<lparr>so_result_class = ''success'', so_result = dget data ''result'', so_exit_code = Some 0\<rparr>
       else outcome_of (if dget data ''error'' = JStr ''unknown_tool'' then ''unknown_tool'' else ''tool_error'') (Some 0))"
    using assms(1,2,13) link by (simp add: job_execute_def run_payload_def job_failed_def outcome_of_def)
  also have "\<dots> = sandbox_execute healthy_proc tool arguments"
    using main by (simp add: sandbox_execute_def healthy_proc_def job_payload_def)
  finally show ?thesis .
qed

section \<open>Examples\<close>

definition example_args :: dict where
  "example_args = [(''text'', JStr ''a b'')]"

definition example_result :: json where
  "example_result = JObj [(''characters'', JInt 3), (''words'', JInt 2), (''lines'', JInt 1)]"

definition example_out :: json where
  "example_out = JObj [(''ok'', JBool True), (''result'', example_result)]"

definition example_payload :: json where
  "example_payload = job_payload ''text_stats_job'' example_args"

text \<open>A cluster that answers its first five calls as a Job run to its end would, on a clock of its
  own; the texts it exchanges are read back by \<open>loads\<close>.\<close>

definition example_http :: "string \<Rightarrow> string \<Rightarrow> json option \<Rightarrow> nat \<times> rat \<Rightarrow> http_result \<times> (nat \<times> rat)" where
  "example_http m p b w =
     (case w of (k, t) \<Rightarrow>
        (if k = 1 then Payload ''j'' else if k = 2 then Payload ''p''
         else if k = 3 then Payload (json_dumps (\<lambda>_. []) example_out) else Payload ''c'', (k + 1, t)))"

definition example_outcome :: job_outcome where
  "example_outcome = \<lparr>jo_result_class = ''success'', jo_result = example_result, jo_exit_code = JInt 0\<rparr>"

definition example_call :: json where
  "example_call = call_body ''a.io'' ''r1'' ''text_stats_job'' example_args"

definition example_texts :: "(string \<times> json) list" where
  "example_texts =
     [(''c'', JObj []),
      (''j'', JObj [(''status'', JObj [(''succeeded'', JInt 1)])]),
      (''p'', JObj [(''items'', JArr [JObj [(''metadata'', JObj [(''name'', JStr ''pod'')])]])])] @
     map (\<lambda>v. (json_dumps (\<lambda>_. []) v, v))
       [example_payload, example_out, example_call, run_payload example_outcome]"

definition example_loads :: "string \<Rightarrow> json option" where
  "example_loads = map_of example_texts"

definition example_kube :: "(nat \<times> rat) kube" where
  "example_kube = \<lparr>ku_http = example_http, ku_now = snd, ku_sleep = (\<lambda>d (k, t). (k, t + d)),
                   ku_loads = example_loads, ku_repr = (\<lambda>_. []), ku_ns = ''agent-jobs''\<rparr>"

definition example_dispatcher :: dispatcher_config where
  "example_dispatcher = \<lparr>dc_token = Some ''s3'', dc_image = ''img'', dc_namespace = ''agent-jobs'',
     dc_service_account = ''runner'', dc_cpu_limit = ''500m'', dc_memory_limit = ''256Mi'',
     dc_deadline_seconds = 30, dc_ttl_seconds = 120\<rparr>"

definition example_cluster :: "(nat \<times> rat) cluster" where
  "example_cluster = \<lparr>cl_world = (0, 0), cl_calls = []\<rparr>"

lemma example_texts_distinct: "distinct (map fst example_texts)"
  by code_simp

lemma example_loads_simps:
  "example_loads ''c'' = Some (JObj [])"
  "example_loads ''j'' = Some (JObj [(''status'', JObj [(''succeeded'', JInt 1)])])"
  "example_loads ''p'' = Some (JObj [(''items'', JArr [JObj [(''metadata'', JObj [(''name'', JStr ''pod'')])]])])"
  "example_loads (json_dumps (\<lambda>_. []) example_payload) = Some example_payload"
  "example_loads (json_dumps (\<lambda>_. []) example_out) = Some example_out"
  "example_loads (json_dumps (\<lambda>_. []) example_call) = Some example_call"
  "example_loads (json_dumps (\<lambda>_. []) (run_payload example_outcome)) = Some (run_payload example_outcome)"
  unfolding example_loads_def
  by (rule map_of_is_SomeI [OF example_texts_distinct], simp add: example_texts_def)+

lemma example_clock: "clock_ok example_kube"
  by (auto simp: clock_ok_def example_kube_def example_http_def)

lemma example_words: "split_ws ''a b'' = [''a'', ''b'']"
  by code_simp

lemma example_main: "runner_main (Some example_payload) = Inr example_out"
  by (simp add: runner_main_def runner_run_def example_payload_def job_payload_def example_args_def TOOLS_def
      text_stats_def MAX_TEXT_def example_out_def example_result_def example_words)

lemma example_kube_simps:
  "ku_loads example_kube = example_loads" "ku_repr example_kube = (\<lambda>_. [])"
  "ku_http example_kube = example_http" "ku_now example_kube = snd"
  by (simp_all add: example_kube_def)

lemmas example_call_simps = k8s_create_job_def k8s_get_job_def k8s_list_pods_def k8s_read_pod_log_def
  k8s_delete_job_def k8s_request_def k8s_raw_def example_http_def example_loads_simps example_kube_simps

lemma example_created:
  "k8s_create_job example_kube m example_cluster =
     (Inr (JObj []), \<lparr>cl_world = (1, 0), cl_calls = [(''POST'', jobs_path example_kube)]\<rparr>)"
  by (simp add: example_call_simps example_cluster_def)

lemma example_runs:
  "runs_job example_kube (dispatcher_job_config example_dispatcher) ''r1'' ''a.io'' ''text_stats_job'' example_args 0
     example_cluster"
proof -
  note pl = example_payload_def [symmetric]
  have [simp]: "Ex Not"
    by (rule exI [of _ False]) simp
  have "completes example_kube i name sel dl (json_dumps (\<lambda>_. []) example_out) 0
      \<lparr>cl_world = (1, 0), cl_calls = cs\<rparr>" for i name sel dl cs
    by (simp add: example_call_simps pod_logs_def first_pod_name_def job_status_def del: json_dumps.simps)
  then show ?thesis
    unfolding runs_job_def example_created
    by (simp add: pl example_loads_simps example_kube_simps example_main del: json_dumps.simps completes.simps)
qed

lemma example_run:
  "\<exists>cs. run_tool_job example_kube (dispatcher_job_config example_dispatcher) ''r1'' ''a.io'' ''text_stats_job''
     example_args example_cluster = Some (Inr example_outcome, \<lparr>cl_world = (5, 0), cl_calls = cs\<rparr>)"
proof -
  have "classify_log example_loads (json_dumps (\<lambda>_. []) example_out) = example_outcome"
    using dumps_obj_nonempty [of "\<lambda>_. []" "[(''ok'', JBool True), (''result'', example_result)]"]
    by (simp add: classify_log_def example_loads_simps example_outcome_def example_out_def [symmetric]
        del: json_dumps.simps)
       (simp add: example_out_def)
  moreover have "json_dumps (\<lambda>_. []) example_out \<noteq> []"
    by (simp add: example_out_def)
  ultimately show ?thesis
    by (simp add: run_created [OF example_created] poll_unfold poll_step_def read_pod_result_def reap_def
        job_status_def first_pod_name_def example_call_simps del: json_dumps.simps)
qed

lemma example_carries:
  "carries example_kube (dispatcher_job_config example_dispatcher) 60 ''r1'' ''a.io'' ''text_stats_job'' example_args
     example_cluster"
proof -
  have "int (length (json_dumps (\<lambda>_. []) example_call)) \<le> MAX_BODY"
    by code_simp
  with example_run show ?thesis
    by (auto simp: carries_def example_call_def [symmetric] example_kube_simps example_loads_simps
        example_cluster_def simp del: json_dumps.simps)
qed

lemma example_token: "py_strip ''s3'' = ''s3''" "is_ascii ''s3''" "dispatcher_bearer (Some ''Bearer s3'') = Some ''s3''"
  by code_simp+

lemma example_job_tool: "in_TOOLS ''text_stats_job''" "tool_executor ''text_stats_job'' = ''job''"
  by (simp_all add: in_TOOLS_def tool_executor_def TOOLS_def)

lemma job_path_equals_sandbox_witness:
  "job_execute (\<lambda>_. []) (dispatcher_link example_kube example_dispatcher example_cluster ''http://d'')
     (job_client_init (Some ''http://d/'') (Some ''s3'')) ''a.io'' ''r1'' ''text_stats_job'' example_args =
   \<lparr>so_result_class = ''success'', so_result = example_result, so_exit_code = Some 0\<rparr>"
proof -
  let ?x = "job_client_init (Some ''http://d/'') (Some ''s3'')"
  have "sandbox_execute healthy_proc ''text_stats_job'' example_args =
      \<lparr>so_result_class = ''success'', so_result = example_result, so_exit_code = Some 0\<rparr>"
    using example_main
    by (simp add: sandbox_execute_def healthy_proc_def example_payload_def job_payload_def example_out_def)
  moreover have x: "job_configured ?x" "jx_base_url ?x = ''http://d''"
    by code_simp+
  moreover have "jx_token ?x = Some ''s3''" "jx_timeout ?x = 60"
    by (simp_all add: job_client_init_def)
  moreover have "dc_token example_dispatcher = Some ''s3''"
    by (simp add: example_dispatcher_def)
  ultimately show ?thesis
    using job_path_equals_sandbox [OF x(1) _ _ _ example_token(1,2) _ _ example_job_tool example_runs _ x(2)]
      example_carries by simp
qed

definition example_body :: json where
  "example_body = JObj [(''tool'', JStr ''text_stats_job''), (''arguments'', JObj example_args),
     (''run_id'', JStr ''r1''), (''tenant_id'', JStr ''a.io'')]"

text \<open>The same cluster, but its Job never leaves the running state and its clock only moves on sleeping.\<close>

definition stuck_kube :: "(nat \<times> rat) kube" where
  "stuck_kube = example_kube\<lparr>ku_http := (\<lambda>m p b w. (Payload ''c'', w))\<rparr>"

lemma stuck_clock: "clock_ok stuck_kube"
  by (auto simp: clock_ok_def stuck_kube_def example_kube_def)

lemma dispatcher_terminates_witness:
  "\<exists>r c'. build_run_response stuck_kube example_dispatcher (Some ''Bearer s3'') (Some example_body) example_cluster
       = Some (r, c') \<and>
     length (cl_calls c') \<le> 96"
  using dispatcher_terminates [OF stuck_clock, of example_dispatcher "Some ''Bearer s3''" "Some example_body"
      example_cluster]
  by (simp add: example_cluster_def)

lemma dispatcher_gated_and_reaped_witness:
  "\<exists>r c'. build_run_response example_kube example_dispatcher (Some ''Bearer s3'') (Some example_body) example_cluster
       = Some (r, c') \<and>
     (c' = example_cluster \<or> (\<exists>n. reaped example_kube (job_name ''r1'') n example_cluster c'))"
proof -
  let ?b = "build_run_response example_kube example_dispatcher (Some ''Bearer s3'') (Some example_body) example_cluster"
  obtain r c' where b: "?b = Some (r, c')"
    using dispatcher_terminates [OF example_clock, of example_dispatcher "Some ''Bearer s3''"
        "Some example_body" example_cluster] by blast
  have "dispatch_fields (Some example_body) = Inr (''text_stats_job'', example_args, ''r1'', ''a.io'')"
    by (simp add: dispatch_fields_def example_body_def)
  then show ?thesis
    using dispatcher_gated_and_reaped [OF b] b by (auto simp: example_created)
qed

end
