(* ===== verification/Outbound.thy ===== *)
theory Outbound
  imports Texts "HOL-Library.Word"
begin

text \<open>
  The outbound guard (outbound.py): the parts of a URL as \<^verbatim>\<open>urllib.parse.urlsplit\<close> gives them, IP
  addresses as \<^verbatim>\<open>ipaddress\<close> reads and classifies them (Python 3.14, the image's version), the
  validation of a URL against a host allow-list with every resolved address checked, and the pinned
  request.

  DNS is the parameter \<open>resolve\<close> (\<^verbatim>\<open>getaddrinfo\<close>: the addresses in order, \<^term>\<open>None\<close> for
  \<^verbatim>\<open>gaierror\<close>); sockets and TLS are the parameter \<open>transport\<close>.
\<close>

section \<open>Partitions\<close>

text \<open>\<^verbatim>\<open>s.partition(c)\<close> as before and, when \<open>c\<close> occurs, after; \<^verbatim>\<open>s.rpartition(c)\<close> likewise at the last
  occurrence, with the text itself after when there is none.\<close>

definition rpartition :: "char \<Rightarrow> string \<Rightarrow> string option \<times> string" where
  "rpartition c s =
     (let tail = rev (takeWhile (\<lambda>x. x \<noteq> c) (rev s)) in
      if c \<in> set s then (Some (take (length s - length tail - 1) s), tail) else (None, s))"

section \<open>IP addresses\<close>

type_synonym ipv4 = "32 word"
type_synonym ipv6 = "128 word"

datatype ip_addr = V4 ipv4 | V6 ipv6

definition is_digit :: "char \<Rightarrow> bool" where
  "is_digit c = (48 \<le> ord_of c \<and> ord_of c \<le> 57)"

definition dec_value :: "string \<Rightarrow> nat" where
  "dec_value s = foldl (\<lambda>n c. 10 * n + (ord_of c - 48)) 0 s"

definition parse_octet :: "string \<Rightarrow> nat option" where
  "parse_octet s =
     (if s = [] then None
      else if \<not> list_all is_digit s then None
      else if 3 < length s then None
      else if s \<noteq> ''0'' \<and> hd s = CHR ''0'' then None
      else if 255 < dec_value s then None
      else Some (dec_value s))"

definition octets_word :: "nat list \<Rightarrow> ipv4" where
  "octets_word os = foldl (\<lambda>a n. a * 256 + of_nat n) 0 os"

definition parse_v4 :: "string \<Rightarrow> ipv4 option" where
  "parse_v4 s =
     (if s = [] then None
      else let octets = split_char (CHR ''.'') s in
        if length octets \<noteq> 4 then None
        else map_option octets_word (those (map parse_octet octets)))"

definition hex_value :: "char \<Rightarrow> nat option" where
  "hex_value c =
     (let n = ord_of c in
      if 48 \<le> n \<and> n \<le> 57 then Some (n - 48)
      else if 97 \<le> n \<and> n \<le> 102 then Some (n - 87)
      else if 65 \<le> n \<and> n \<le> 70 then Some (n - 55)
      else None)"

text \<open>Empty text raises in \<^verbatim>\<open>int(s, 16)\<close>.\<close>

definition parse_hextet :: "string \<Rightarrow> nat option" where
  "parse_hextet s =
     (if s = [] \<or> 4 < length s then None
      else map_option (foldl (\<lambda>n d. 16 * n + d) 0) (those (map hex_value s)))"

text \<open>\<^verbatim>\<open>'%x' % n\<close>.\<close>

fun hex_text :: "nat \<Rightarrow> string" where
  "hex_text n = (if n < 16 then [hex_digit n] else hex_text (n div 16) @ [hex_digit (n mod 16)])"

declare hex_text.simps [simp del]

definition hextets_word :: "nat list \<Rightarrow> ipv6" where
  "hextets_word hs = foldl (\<lambda>a n. a * 65536 + of_nat n) 0 hs"

text \<open>A trailing dotted quad becomes two hextets.\<close>

definition v6_parts :: "string \<Rightarrow> string list option" where
  "v6_parts s =
     (let parts = split_char (CHR '':'') s in
      if length parts < 3 then None
      else if CHR ''.'' \<in> set (last parts)
      then map_option (\<lambda>a. butlast parts @ [hex_text (unat a div 65536), hex_text (unat a mod 65536)])
             (parse_v4 (last parts))
      else Some parts)"

text \<open>The positions of \<^verbatim>\<open>::\<close>, ends aside.\<close>

definition skips :: "string list \<Rightarrow> nat list" where
  "skips parts = filter (\<lambda>i. parts ! i = []) [1..<length parts - 1]"

definition v6_hextets :: "string list \<Rightarrow> nat list option" where
  "v6_hextets parts =
     (if 9 < length parts then None
      else (case skips parts of
              [] \<Rightarrow>
                if length parts \<noteq> 8 \<or> hd parts = [] \<or> last parts = [] then None
                else those (map parse_hextet parts)
            | [k] \<Rightarrow>
                (let hi = (if hd parts = [] then k - 1 else k);
                     lo = length parts - k - 1;
                     lo' = (if last parts = [] then lo - 1 else lo)
                 in if hd parts = [] \<and> hi \<noteq> 0 then None
                    else if last parts = [] \<and> lo' \<noteq> 0 then None
                    else if 8 \<le> hi + lo' then None
                    else (case (those (map parse_hextet (take hi parts)),
                                those (map parse_hextet (drop (length parts - lo') parts))) of
                            (Some his, Some los) \<Rightarrow> Some (his @ replicate (8 - (hi + lo')) 0 @ los)
                          | _ \<Rightarrow> None))
            | _ \<Rightarrow> None))"

text \<open>\<^verbatim>\<open>IPv6Address\<close>: a scope id after one \<^verbatim>\<open>%\<close> is dropped from the address.\<close>

definition parse_v6 :: "string \<Rightarrow> ipv6 option" where
  "parse_v6 s =
     (if CHR ''/'' \<in> set s then None
      else (case split_char1 (CHR ''%'') s of
              (addr, scope) \<Rightarrow>
                if (case scope of None \<Rightarrow> False | Some z \<Rightarrow> z = [] \<or> CHR ''%'' \<in> set z) then None
                else if addr = [] then None
                else (case v6_parts addr of
                        None \<Rightarrow> None
                      | Some parts \<Rightarrow> map_option hextets_word (v6_hextets parts))))"

definition ip_address :: "string \<Rightarrow> ip_addr option" where
  "ip_address s =
     (case (if CHR ''/'' \<in> set s then None else parse_v4 s) of
        Some a \<Rightarrow> Some (V4 a)
      | None \<Rightarrow> map_option V6 (parse_v6 s))"

section \<open>Networks\<close>

text \<open>\<^verbatim>\<open>a in net\<close>: the leading \<open>len\<close> bits agree.\<close>

definition in_net4 :: "ipv4 \<Rightarrow> nat list \<times> nat \<Rightarrow> bool" where
  "in_net4 a net = (drop_bit (32 - snd net) a = drop_bit (32 - snd net) (octets_word (fst net)))"

definition net6 :: "nat list \<Rightarrow> ipv6" where
  "net6 hs = hextets_word (take 8 (hs @ [0, 0, 0, 0, 0, 0, 0, 0]))"

definition in_net6 :: "ipv6 \<Rightarrow> nat list \<times> nat \<Rightarrow> bool" where
  "in_net6 a net = (drop_bit (128 - snd net) a = drop_bit (128 - snd net) (net6 (fst net)))"

text \<open>The tables of \<^verbatim>\<open>ipaddress\<close>.\<close>

definition private_nets4 :: "(nat list \<times> nat) list" where
  "private_nets4 =
     [([0, 0, 0, 0], 8), ([10, 0, 0, 0], 8), ([127, 0, 0, 0], 8), ([169, 254, 0, 0], 16),
      ([172, 16, 0, 0], 12), ([192, 0, 0, 0], 24), ([192, 0, 0, 170], 31), ([192, 0, 2, 0], 24),
      ([192, 168, 0, 0], 16), ([198, 18, 0, 0], 15), ([198, 51, 100, 0], 24), ([203, 0, 113, 0], 24),
      ([240, 0, 0, 0], 4), ([255, 255, 255, 255], 32)]"

definition private_exceptions4 :: "(nat list \<times> nat) list" where
  "private_exceptions4 = [([192, 0, 0, 9], 32), ([192, 0, 0, 10], 32)]"

definition private_nets6 :: "(nat list \<times> nat) list" where
  "private_nets6 =
     [([0, 0, 0, 0, 0, 0, 0, 1], 128), ([0], 128), ([0, 0, 0, 0, 0, 0xFFFF], 96),
      ([0x64, 0xFF9B, 1], 48), ([0x100], 64), ([0x2001], 23), ([0x2001, 0xDB8], 32), ([0x2002], 16),
      ([0x3FFF], 20), ([0xFC00], 7), ([0xFE80], 10)]"

definition private_exceptions6 :: "(nat list \<times> nat) list" where
  "private_exceptions6 =
     [([0x2001, 1, 0, 0, 0, 0, 0, 1], 128), ([0x2001, 1, 0, 0, 0, 0, 0, 2], 128), ([0x2001, 3], 32),
      ([0x2001, 4, 0x112], 48), ([0x2001, 0x20], 28), ([0x2001, 0x30], 28)]"

definition reserved_nets6 :: "(nat list \<times> nat) list" where
  "reserved_nets6 =
     [([0], 8), ([0x100], 8), ([0x200], 7), ([0x400], 6), ([0x800], 5), ([0x1000], 4), ([0x4000], 3),
      ([0x6000], 3), ([0x8000], 3), ([0xA000], 3), ([0xC000], 3), ([0xE000], 4), ([0xF000], 5),
      ([0xF800], 6), ([0xFE00], 9)]"

definition is_private4 :: "ipv4 \<Rightarrow> bool" where
  "is_private4 a \<longleftrightarrow> list_ex (in_net4 a) private_nets4 \<and> \<not> list_ex (in_net4 a) private_exceptions4"

text \<open>On an address that is not IPv4-mapped.\<close>

definition is_private6 :: "ipv6 \<Rightarrow> bool" where
  "is_private6 a \<longleftrightarrow> list_ex (in_net6 a) private_nets6 \<and> \<not> list_ex (in_net6 a) private_exceptions6"

definition ipv4_mapped :: "ipv6 \<Rightarrow> ipv4 option" where
  "ipv4_mapped a = (if drop_bit 32 a = 0xFFFF then Some (ucast a) else None)"

definition blocked4 :: "ipv4 \<Rightarrow> bool" where
  "blocked4 a \<longleftrightarrow>
     is_private4 a \<or> in_net4 a ([127, 0, 0, 0], 8) \<or> in_net4 a ([169, 254, 0, 0], 16) \<or>
     in_net4 a ([240, 0, 0, 0], 4) \<or> in_net4 a ([224, 0, 0, 0], 4) \<or> a = 0"

definition blocked6 :: "ipv6 \<Rightarrow> bool" where
  "blocked6 a \<longleftrightarrow>
     is_private6 a \<or> a = 1 \<or> in_net6 a ([0xFE80], 10) \<or> list_ex (in_net6 a) reserved_nets6 \<or>
     in_net6 a ([0xFF00], 8) \<or> a = 0"

text \<open>\<^verbatim>\<open>str\<close> of an IPv4 address.\<close>

definition str_v4 :: "ipv4 \<Rightarrow> string" where
  "str_v4 a =
     (let n = unat a in
      py_join ''.'' [str_nat (n div 16777216), str_nat (n div 65536 mod 256), str_nat (n div 256 mod 256),
                     str_nat (n mod 256)])"

definition METADATA_IPS :: "string list" where
  "METADATA_IPS = [''169.254.169.254'', ''fd00:ec2::254'']"

text \<open>\<^verbatim>\<open>_classify_ip\<close>: a reason to refuse, or none.\<close>

definition classify4 :: "ipv4 \<Rightarrow> string option" where
  "classify4 a = (if blocked4 a then Some ''private_ip'' else None)"

definition classify_ip :: "string \<Rightarrow> string option" where
  "classify_ip raw_ip =
     (if raw_ip \<in> set METADATA_IPS then Some ''metadata''
      else (case ip_address raw_ip of
              None \<Rightarrow> Some ''malformed''
            | Some (V4 a) \<Rightarrow> classify4 a
            | Some (V6 a) \<Rightarrow>
                (case ipv4_mapped a of
                   Some m \<Rightarrow> if str_v4 m \<in> set METADATA_IPS then Some ''metadata'' else classify4 m
                 | None \<Rightarrow> if blocked6 a then Some ''private_ip'' else None)))"

section \<open>URLs\<close>

record url_parts =
  up_scheme :: string
  up_netloc :: string
  up_path :: string
  up_query :: string

definition is_c0_or_space :: "char \<Rightarrow> bool" where
  "is_c0_or_space c = (ord_of c \<le> 32)"

definition unsafe_url_char :: "char \<Rightarrow> bool" where
  "unsafe_url_char c = (ord_of c \<in> {9, 10, 13})"

definition is_alpha :: "char \<Rightarrow> bool" where
  "is_alpha c = (let n = ord_of c in (65 \<le> n \<and> n \<le> 90) \<or> (97 \<le> n \<and> n \<le> 122))"

definition scheme_char :: "char \<Rightarrow> bool" where
  "scheme_char c = (is_alnum c \<or> c \<in> set ''+-.'')"

definition split_scheme :: "string \<Rightarrow> string \<times> string" where
  "split_scheme url =
     (case split_char1 (CHR '':'') url of
        (pre, Some after) \<Rightarrow>
          if pre \<noteq> [] \<and> is_alpha (hd pre) \<and> list_all scheme_char pre
          then (py_lower pre, after) else ([], url)
      | (_, None) \<Rightarrow> ([], url))"

definition netloc_end :: "char \<Rightarrow> bool" where
  "netloc_end c = (c \<in> set ''/?#'')"

text \<open>\<^verbatim>\<open>_check_bracketed_netloc\<close> and \<^verbatim>\<open>_check_bracketed_host\<close>.\<close>

definition ip_future :: "string \<Rightarrow> bool" where
  "ip_future host =
     (case host of
        [] \<Rightarrow> False
      | v # r \<Rightarrow>
          (case split_char1 (CHR ''.'') r of
             (hex, Some rest) \<Rightarrow> hex \<noteq> [] \<and> list_all (\<lambda>c. hex_value c \<noteq> None) hex \<and> rest \<noteq> []
           | (_, None) \<Rightarrow> False))"

definition bracketed_host_ok :: "string \<Rightarrow> bool" where
  "bracketed_host_ok host =
     (if starts_with ''v'' host then ip_future host
      else (case ip_address host of Some (V6 _) \<Rightarrow> True | _ \<Rightarrow> False))"

definition bracketed_netloc_ok :: "string \<Rightarrow> bool" where
  "bracketed_netloc_ok netloc =
     (case split_char1 (CHR ''['') (snd (rpartition (CHR ''@'') netloc)) of
        (pre, Some bracketed) \<Rightarrow>
          (case split_char1 (CHR '']'') bracketed of
             (host, port) \<Rightarrow>
               pre = [] \<and> (case port of None \<Rightarrow> True | Some p \<Rightarrow> p = [] \<or> starts_with '':'' p) \<and>
               bracketed_host_ok host)
      | (pre, None) \<Rightarrow> bracketed_host_ok (fst (split_char1 (CHR '':'') pre)))"

definition netloc_ok :: "string \<Rightarrow> bool" where
  "netloc_ok netloc \<longleftrightarrow>
     (CHR ''['' \<in> set netloc \<longleftrightarrow> CHR '']'' \<in> set netloc) \<and>
     (CHR ''['' \<in> set netloc \<longrightarrow> bracketed_netloc_ok netloc)"

text \<open>\<^verbatim>\<open>urlsplit\<close>; \<^term>\<open>None\<close> is \<^verbatim>\<open>ValueError\<close>.  The normalisation check of \<^verbatim>\<open>_checknetloc\<close> finds nothing in
  code points up to 255.\<close>

definition urlsplit :: "string \<Rightarrow> url_parts option" where
  "urlsplit url =
     (let url = filter (\<lambda>c. \<not> unsafe_url_char c) (dropWhile is_c0_or_space url);
          (scheme, url) = split_scheme url;
          (netloc, url) = (if starts_with ''//'' url
                           then (takeWhile (\<lambda>c. \<not> netloc_end c) (drop 2 url), dropWhile (\<lambda>c. \<not> netloc_end c) (drop 2 url))
                           else ([], url));
          url = fst (split_char1 (CHR ''#'') url);
          (path, query) = split_char1 (CHR ''?'') url
      in if netloc_ok netloc
         then Some \<lparr>up_scheme = scheme, up_netloc = netloc, up_path = path,
                    up_query = (case query of None \<Rightarrow> [] | Some q \<Rightarrow> q)\<rparr>
         else None)"

text \<open>\<^verbatim>\<open>username\<close> and \<^verbatim>\<open>password\<close>, \<^verbatim>\<open>hostname\<close> and \<^verbatim>\<open>port\<close>.\<close>

definition userinfo :: "url_parts \<Rightarrow> string option \<times> string option" where
  "userinfo u =
     (case fst (rpartition (CHR ''@'') (up_netloc u)) of
        None \<Rightarrow> (None, None)
      | Some info \<Rightarrow> (case split_char1 (CHR '':'') info of (name, pw) \<Rightarrow> (Some name, pw)))"

definition hostinfo :: "url_parts \<Rightarrow> string \<times> string" where
  "hostinfo u =
     (let info = snd (rpartition (CHR ''@'') (up_netloc u)) in
      case split_char1 (CHR ''['') info of
        (_, Some bracketed) \<Rightarrow>
          (case split_char1 (CHR '']'') bracketed of
             (host, rest) \<Rightarrow>
               (host, (case split_char1 (CHR '':'') (case rest of None \<Rightarrow> [] | Some r \<Rightarrow> r) of
                         (_, None) \<Rightarrow> [] | (_, Some p) \<Rightarrow> p)))
      | (_, None) \<Rightarrow>
          (case split_char1 (CHR '':'') info of
             (host, None) \<Rightarrow> (host, []) | (host, Some p) \<Rightarrow> (host, p)))"

definition hostname :: "url_parts \<Rightarrow> string option" where
  "hostname u =
     (let h = fst (hostinfo u) in
      if h = [] then None
      else (case split_char1 (CHR ''%'') h of
              (host, None) \<Rightarrow> Some (py_lower host)
            | (host, Some zone) \<Rightarrow> Some (py_lower host @ ''%'' @ zone)))"

text \<open>\<open>Inl\<close>: \<^verbatim>\<open>ValueError\<close>; \<open>Inr None\<close>: no port.\<close>

definition port_of :: "url_parts \<Rightarrow> py_exn + nat option" where
  "port_of u =
     (let p = snd (hostinfo u) in
      if p = [] then Inr None
      else if \<not> list_all is_digit p then Inl ValueError
      else if 65535 < dec_value p then Inl ValueError
      else Inr (Some (dec_value p)))"

section \<open>Validation\<close>

record validated_target =
  vt_scheme :: string
  vt_host :: string
  vt_ip :: string
  vt_port :: nat
  vt_path :: string

type_synonym resolver = "string \<Rightarrow> nat \<Rightarrow> string list option"

text \<open>The loop over the resolved addresses: the first reason that is not waived.\<close>

fun first_reject :: "bool \<Rightarrow> string list \<Rightarrow> string option" where
  "first_reject permitted [] = None"
| "first_reject permitted (raw_ip # ips) =
     (case classify_ip raw_ip of
        None \<Rightarrow> first_reject permitted ips
      | Some reason \<Rightarrow>
          if reason = ''private_ip'' \<and> permitted then first_reject permitted ips else Some reason)"

definition default_port :: "string \<Rightarrow> nat" where
  "default_port scheme = (if scheme = ''http'' then 80 else 443)"

definition str_path :: "string \<Rightarrow> string \<Rightarrow> string" where
  "str_path path query =
     (let path = (if path = [] then ''/'' else path) in if query = [] then path else path @ ''?'' @ query)"

definition validate_outbound_url ::
    "resolver \<Rightarrow> string set \<Rightarrow> bool \<Rightarrow> string set \<Rightarrow> string \<Rightarrow> string + validated_target" where
  "validate_outbound_url resolve allowed_hosts allow_http permit_hosts url =
     (case urlsplit (py_strip url) of
        None \<Rightarrow> Inl ''malformed''
      | Some parts \<Rightarrow>
          let scheme = py_lower (up_scheme parts) in
          if \<not> (scheme = ''https'' \<or> allow_http \<and> scheme = ''http'') then Inl ''scheme''
          else if (case userinfo parts of (name, pw) \<Rightarrow>
                     (case name of None \<Rightarrow> False | Some s \<Rightarrow> s \<noteq> []) \<or> (case pw of None \<Rightarrow> False | Some s \<Rightarrow> s \<noteq> []))
          then Inl ''credentials''
          else (case hostname parts of
                  None \<Rightarrow> Inl ''malformed''
                | Some host \<Rightarrow>
                    let host = py_lower host in
                    if host \<notin> py_lower ` allowed_hosts then Inl ''host_not_allowed''
                    else (case port_of parts of
                            Inl _ \<Rightarrow> Inl ''malformed''
                          | Inr p \<Rightarrow>
                              let port = (case p of Some n \<Rightarrow> if n = 0 then default_port scheme else n
                                                  | None \<Rightarrow> default_port scheme)
                              in (case resolve host port of
                                    None \<Rightarrow> Inl ''dns''
                                  | Some [] \<Rightarrow> Inl ''dns''
                                  | Some (pinned # others) \<Rightarrow>
                                      (case first_reject (host \<in> py_lower ` permit_hosts) (pinned # others) of
                                         Some reason \<Rightarrow> Inl reason
                                       | None \<Rightarrow>
                                           let path = str_path (up_path parts) (up_query parts)
                                           in Inr \<lparr>vt_scheme = scheme, vt_host = host, vt_ip = pinned,
                                                   vt_port = port, vt_path = path\<rparr>)))))"

section \<open>The pinned request\<close>

text \<open>
  What a connection is made with: the address and port the socket goes to, the name TLS presents and
  verifies (none over http), the name of the \<^verbatim>\<open>Host\<close> header, and the request.
\<close>

record connection =
  cn_ip :: string
  cn_port :: nat
  cn_tls_name :: "string option"
  cn_host :: string
  cn_method :: string
  cn_path :: string
  cn_headers :: "(string \<times> string) list"
  cn_body :: "string option"

record outbound_response =
  or_status :: int
  or_headers :: "(string \<times> string) list"
  or_body :: string

definition response_class :: "outbound_response \<Rightarrow> string" where
  "response_class r = str_int (or_status r div 100) @ ''xx''"

text \<open>A \<^verbatim>\<open>TimeoutError\<close>, another \<^verbatim>\<open>OSError\<close>, an exception of another class, or a response.\<close>

datatype wire = WireTimeout | WireOSError | WireRaised | WireResponse int "(string \<times> string) list" string

datatype open_exn = OpenTimeout | OpenOSError | OpenRaised

type_synonym transport = "connection list \<Rightarrow> connection \<Rightarrow> wire"

definition connection_of ::
    "validated_target \<Rightarrow> string \<Rightarrow> (string \<times> string) list \<Rightarrow> string option \<Rightarrow> connection" where
  "connection_of t meth headers body =
     \<lparr>cn_ip = vt_ip t, cn_port = vt_port t,
      cn_tls_name = (if vt_scheme t = ''https'' then Some (vt_host t) else None), cn_host = vt_host t,
      cn_method = meth, cn_path = vt_path t, cn_headers = headers, cn_body = body\<rparr>"

definition guarded_open ::
    "transport \<Rightarrow> validated_target \<Rightarrow> string \<Rightarrow> (string \<times> string) list \<Rightarrow> string option \<Rightarrow> nat
       \<Rightarrow> connection list \<Rightarrow> (open_exn + outbound_response) \<times> connection list" where
  "guarded_open transport t meth headers body max_response_bytes sent =
     (let conn = connection_of t meth headers body in
      ((case transport sent conn of
          WireTimeout \<Rightarrow> Inl OpenTimeout
        | WireOSError \<Rightarrow> Inl OpenOSError
        | WireRaised \<Rightarrow> Inl OpenRaised
        | WireResponse status hs data \<Rightarrow>
            Inr \<lparr>or_status = status, or_headers = foldl (\<lambda>d (k, v). dset d (py_lower k) v) [] hs,
                 or_body = take max_response_bytes data\<rparr>),
       sent @ [conn]))"

section \<open>What passes\<close>

text \<open>The addresses that are global unicast by the IANA registries of special-purpose addresses, IPv4 by their octets
  and IPv6 by their leading hextet where a range ends there.\<close>

definition in_shared4 :: "ipv4 \<Rightarrow> bool" where
  "in_shared4 a \<longleftrightarrow> unat a div 16777216 = 100 \<and> 64 \<le> unat a div 65536 mod 256 \<and> unat a div 65536 mod 256 \<le> 127"

definition inside4 :: "ipv4 \<Rightarrow> bool" where
  "inside4 a \<longleftrightarrow>
     (let o1 = unat a div 16777216; o2 = unat a div 65536 mod 256 in
        o1 = 0 \<or> o1 = 10 \<or> o1 = 127 \<or> 224 \<le> o1 \<or> o1 = 169 \<and> o2 = 254 \<or>
        o1 = 172 \<and> 16 \<le> o2 \<and> o2 \<le> 31 \<or> o1 = 192 \<and> o2 = 168)"

definition special4 :: "ipv4 \<Rightarrow> bool" where
  "special4 a \<longleftrightarrow>
     in_net4 a ([192, 0, 0, 0], 24) \<and> \<not> in_net4 a ([192, 0, 0, 9], 32) \<and> \<not> in_net4 a ([192, 0, 0, 10], 32) \<or>
     in_net4 a ([192, 0, 2, 0], 24) \<or> in_net4 a ([198, 18, 0, 0], 15) \<or> in_net4 a ([198, 51, 100, 0], 24) \<or>
     in_net4 a ([203, 0, 113, 0], 24)"

definition global4 :: "ipv4 \<Rightarrow> bool" where
  "global4 a \<longleftrightarrow> \<not> inside4 a \<and> \<not> special4 a \<and> \<not> in_shared4 a"

definition hextet1 :: "ipv6 \<Rightarrow> nat" where
  "hextet1 a = unat a div 2 ^ 112"

text \<open>2000::/3 less 6to4, the documentation ranges, and 2001::/23 but for what that range has of global addresses.\<close>

definition global6 :: "ipv6 \<Rightarrow> bool" where
  "global6 a \<longleftrightarrow>
     0x2000 \<le> hextet1 a \<and> hextet1 a \<le> 0x3FFF \<and> hextet1 a \<noteq> 0x2002 \<and>
     \<not> in_net6 a ([0x2001, 0xDB8], 32) \<and> \<not> in_net6 a ([0x3FFF], 20) \<and>
     (in_net6 a ([0x2001], 23) \<longrightarrow> list_ex (in_net6 a) private_exceptions6)"

definition site_local6 :: "ipv6 \<Rightarrow> bool" where
  "site_local6 a \<longleftrightarrow> 0xFEC0 \<le> hextet1 a \<and> hextet1 a \<le> 0xFEFF"

lemma in_net4_iff:
  "in_net4 a (os, l) \<longleftrightarrow> unat a div 2 ^ (32 - l) = unat (octets_word os) div 2 ^ (32 - l)"
  unfolding in_net4_def fst_conv snd_conv word_unat_eq_iff unat_drop_bit_eq by (simp add: drop_bit_eq_div)

lemma in_net6_iff:
  "in_net6 a (hs, l) \<longleftrightarrow> unat a div 2 ^ (128 - l) = unat (net6 hs) div 2 ^ (128 - l)"
  unfolding in_net6_def fst_conv snd_conv word_unat_eq_iff unat_drop_bit_eq by (simp add: drop_bit_eq_div)

lemma octet_ranges:
  fixes h :: nat
  assumes "h < 65536" and "h div 256 \<noteq> 0 \<and> h div 256 \<noteq> 10 \<and> h div 16 \<noteq> 2753 \<and> h \<noteq> 49320"
    and "h div 256 \<noteq> 127" and "h \<noteq> 43518" and "h div 4096 \<noteq> 15" and "h div 4096 \<noteq> 14"
  shows "h div 256 \<noteq> 0 \<and> h div 256 \<noteq> 10 \<and> h div 256 \<noteq> 127 \<and> h div 256 < 224 \<and>
    \<not> (h div 256 = 169 \<and> h mod 256 = 254) \<and> \<not> (h div 256 = 172 \<and> 16 \<le> h mod 256 \<and> h mod 256 \<le> 31) \<and>
    \<not> (h div 256 = 192 \<and> h mod 256 = 168)"
proof -
  define q r where "q = h div 256" and "r = h mod 256"
  have h: "h = 256 * q + r" "r < 256" "q < 256"
    using assms(1) by (auto simp: q_def r_def)
  have "h = r + 16 * q * 16"
    using h(1) by simp
  then have "h div 16 = 16 * q + r div 16"
    using div_mult_self1 [of 16 r "16 * q"] by simp
  moreover have "h div 4096 = q div 16"
    by (simp add: q_def div_mult2_eq [symmetric])
  ultimately have d: "h div 16 = 16 * q + r div 16" "h div 4096 = q div 16"
    by blast+
  note a = assms(2-6) [folded q_def, unfolded d]
  have "q < 224"
    by (rule ccontr) (use a h(3) in \<open>auto simp: not_less dest: div_le_mono [of 224 q 16]\<close>)
  note q = this
  have "q = 169 \<Longrightarrow> r \<noteq> 254" "q = 192 \<Longrightarrow> r \<noteq> 168"
    using a h(1) by auto
  moreover have "q = 172 \<Longrightarrow> 16 \<le> r \<Longrightarrow> 31 < r"
  proof (rule ccontr)
    assume "q = 172" "16 \<le> r" "\<not> 31 < r"
    then have "r div 16 = 1" by simp
    with \<open>q = 172\<close> a show False by simp
  qed
  ultimately show ?thesis
    unfolding q_def [symmetric] r_def [symmetric] using a q by auto
qed

lemma unblocked4_outside:
  assumes "\<not> blocked4 a"
  shows "\<not> inside4 a"
proof -
  let ?h = "unat a div 65536"
  have d: "unat a div 16777216 = ?h div 256" "unat a div 268435456 = ?h div 4096" "unat a div 1048576 = ?h div 16"
    by (simp_all add: div_mult2_eq [symmetric])
  have "unat a < 2 ^ 32"
    using unsigned_less [of a] by simp
  then have lt: "?h < 65536" by simp
  have n: "\<not> in_net4 a ([127, 0, 0, 0], 8)" "\<not> in_net4 a ([169, 254, 0, 0], 16)" "\<not> in_net4 a ([240, 0, 0, 0], 4)"
    "\<not> in_net4 a ([224, 0, 0, 0], 4)" and np: "\<not> is_private4 a"
    using assms unfolding blocked4_def by blast+
  have ex: "list_ex (in_net4 a) private_exceptions4 \<Longrightarrow> unat a div 256 = 12582912"
    by (auto simp: private_exceptions4_def in_net4_iff octets_word_def)
  have "?h div 256 \<noteq> 0 \<and> ?h div 256 \<noteq> 10 \<and> ?h div 16 \<noteq> 2753 \<and> ?h \<noteq> 49320"
  proof (cases "list_ex (in_net4 a) private_exceptions4")
    case True
    have "?h = unat a div 256 div 256"
      by (simp add: div_mult2_eq [symmetric])
    then have "?h = 49152"
      using ex [OF True] by simp
    then show ?thesis by simp
  next
    case False
    then have "\<not> list_ex (in_net4 a) private_nets4"
      using np by (simp add: is_private4_def)
    then have "\<not> in_net4 a ([0, 0, 0, 0], 8)" "\<not> in_net4 a ([10, 0, 0, 0], 8)" "\<not> in_net4 a ([172, 16, 0, 0], 12)"
      "\<not> in_net4 a ([192, 168, 0, 0], 16)"
      by (simp_all add: private_nets4_def)
    then show ?thesis
      by (simp add: in_net4_iff octets_word_def d)
  qed
  moreover have "?h div 256 \<noteq> 127" "?h \<noteq> 43518" "?h div 4096 \<noteq> 15" "?h div 4096 \<noteq> 14"
    using n by (simp_all add: in_net4_iff octets_word_def d)
  ultimately show ?thesis
    using octet_ranges [OF lt] unfolding inside4_def Let_def d by (metis leD)
qed

lemma unblocked4_global:
  assumes "\<not> blocked4 a"
  shows "global4 a \<or> in_shared4 a"
proof -
  have apart: "\<not> in_net4 a ([192, 0, 2, 0], 24)" "\<not> in_net4 a ([198, 18, 0, 0], 15)" "\<not> in_net4 a ([198, 51, 100, 0], 24)"
    "\<not> in_net4 a ([203, 0, 113, 0], 24)" if "in_net4 a ([192, 0, 0, 9], 32) \<or> in_net4 a ([192, 0, 0, 10], 32)"
    using that by (auto simp: in_net4_iff octets_word_def)
  have "\<not> special4 a"
    using assms apart
    by (auto simp: special4_def blocked4_def is_private4_def private_nets4_def private_exceptions4_def)
  then show ?thesis
    using unblocked4_outside [OF assms] by (simp add: global4_def)
qed

lemma net6_one: "n < 65536 \<Longrightarrow> unat (net6 [n]) = n * 2 ^ 112"
proof -
  assume n: "n < 65536"
  have "net6 [n] = of_nat (n * 2 ^ 112)"
    by (simp add: net6_def hextets_word_def mult.assoc)
  moreover have "n * 2 ^ 112 < 2 ^ LENGTH(128)"
    using n by simp
  ultimately show ?thesis
    by (simp only: unsigned_of_nat take_bit_nat_eq_self of_nat_id)
qed

lemma in_net6_hextet:
  assumes "n < 65536" and "l \<le> 16"
  shows "in_net6 a ([n], l) \<longleftrightarrow> hextet1 a div 2 ^ (16 - l) = n div 2 ^ (16 - l)"
proof -
  have e: "128 - l = 112 + (16 - l)"
    using assms(2) by simp
  show ?thesis
    unfolding in_net6_iff net6_one [OF assms(1)] e power_add hextet1_def div_mult2_eq by simp
qed

lemma in_net6_first:
  assumes "in_net6 a (hs, l)" and "16 \<le> l" and "l \<le> 128"
  shows "hextet1 a = hextet1 (net6 hs)"
proof -
  have e: "112 = (128 - l) + (l - 16)"
    using assms(2,3) by simp
  show ?thesis
    using assms(1) unfolding in_net6_iff hextet1_def e power_add div_mult2_eq by simp
qed

lemma exception_first: "list_ex (in_net6 a) private_exceptions6 \<Longrightarrow> hextet1 a = 0x2001"
proof -
  assume "list_ex (in_net6 a) private_exceptions6"
  then obtain hs l where "(hs, l) \<in> set private_exceptions6" and n: "in_net6 a (hs, l)"
    by (auto simp: list_ex_iff)
  then have "16 \<le> l" "l \<le> 128" "hextet1 (net6 hs) = 0x2001"
    by (auto simp: private_exceptions6_def net6_def hextets_word_def hextet1_def)
  then show ?thesis
    using in_net6_first [OF n] by simp
qed

lemma div_not: "(h::nat) div n \<noteq> q \<Longrightarrow> h < n * q \<or> n * Suc q \<le> h"
  using div_nat_eqI [of n q h] by force

lemma hextet_ranges:
  fixes h :: nat
  assumes "h div 256 \<noteq> 0" "h div 256 \<noteq> 1" "h div 512 \<noteq> 1" "h div 1024 \<noteq> 1" "h div 2048 \<noteq> 1" "h div 4096 \<noteq> 1"
    and "h div 8192 \<noteq> 2" "h div 8192 \<noteq> 3" "h div 8192 \<noteq> 4" "h div 8192 \<noteq> 5" "h div 8192 \<noteq> 6"
    and "h div 4096 \<noteq> 14" "h div 2048 \<noteq> 30" "h div 1024 \<noteq> 62" "h div 512 \<noteq> 126" "h div 128 \<noteq> 508"
    and "h div 64 \<noteq> 1018" "h div 256 \<noteq> 255" and "h < 65536"
  shows "(0x2000 \<le> h \<and> h \<le> 0x3FFF) \<or> (0xFEC0 \<le> h \<and> h \<le> 0xFEFF)"
proof -
  note a = assms(1-18) [THEN div_not, simplified]
  have 1: "8192 \<le> h"
    using a(1-6) by linarith
  show ?thesis
  proof (cases "h < 16384")
    case True
    with 1 show ?thesis by simp
  next
    case False
    then have 2: "57344 \<le> h" using a(7-11) by linarith
    then have "65216 \<le> h" using a(12-17) by linarith
    then show ?thesis using a(18) assms(19) by linarith
  qed
qed

lemma in_net6_within:
  assumes "in_net6 a (hs, l)" and "m \<le> l" and "l \<le> 128"
  shows "unat a div 2 ^ (128 - m) = unat (net6 hs) div 2 ^ (128 - m)"
proof -
  have e: "128 - m = (128 - l) + (l - m)"
    using assms(2,3) by simp
  show ?thesis
    using assms(1) unfolding in_net6_iff e power_add div_mult2_eq by simp
qed

lemma exception_23: "list_ex (in_net6 a) private_exceptions6 \<Longrightarrow> unat a div 2 ^ 105 = unat (net6 [0x2001]) div 2 ^ 105"
proof -
  assume "list_ex (in_net6 a) private_exceptions6"
  then obtain hs l where e: "(hs, l) \<in> set private_exceptions6" and n: "in_net6 a (hs, l)"
    by (auto simp: list_ex_iff)
  have "23 \<le> l" "l \<le> 128" "unat (net6 hs) div 2 ^ 105 = unat (net6 [0x2001]) div 2 ^ 105"
    using e by (auto simp: private_exceptions6_def net6_def hextets_word_def)
  then show ?thesis
    using in_net6_within [OF n, of 23] by simp
qed

lemma documentation6:
  assumes "list_ex (in_net6 a) private_exceptions6"
  shows "\<not> in_net6 a ([0x2001, 0xDB8], 32)" and "\<not> in_net6 a ([0x3FFF], 20)"
proof -
  have "unat (net6 [0x2001, 0xDB8]) div 2 ^ 105 \<noteq> unat (net6 [0x2001]) div 2 ^ 105"
    by (simp add: net6_def hextets_word_def)
  then show "\<not> in_net6 a ([0x2001, 0xDB8], 32)"
    using exception_23 [OF assms] in_net6_within [of a "[0x2001, 0xDB8]" 32 23] by auto
  have "hextet1 (net6 [0x3FFF]) = 0x3FFF"
    by (simp add: hextet1_def net6_def hextets_word_def)
  then show "\<not> in_net6 a ([0x3FFF], 20)"
    using exception_first [OF assms] in_net6_first [of a "[0x3FFF]" 20] by auto
qed

lemma unblocked6_global:
  assumes "\<not> blocked6 a"
  shows "global6 a \<or> site_local6 a"
proof (cases "list_ex (in_net6 a) private_exceptions6")
  case True
  then show ?thesis
    by (simp add: global6_def exception_first documentation6)
next
  case False
  let ?h = "hextet1 a"
  have nr: "\<not> list_ex (in_net6 a) reserved_nets6" and n2: "\<not> in_net6 a ([0xFE80], 10)" "\<not> in_net6 a ([0xFF00], 8)"
    and np: "\<not> list_ex (in_net6 a) private_nets6"
    using assms False unfolding blocked6_def is_private6_def by blast+
  have r: "list_all (\<lambda>net. \<not> in_net6 a net) reserved_nets6"
    using nr by (simp add: list_all_iff list_ex_iff)
  have p: "\<not> in_net6 a ([0xFC00], 7)" "\<not> in_net6 a ([0x2002], 16)" "\<not> in_net6 a ([0x2001, 0xDB8], 32)"
    "\<not> in_net6 a ([0x3FFF], 20)" "\<not> in_net6 a ([0x2001], 23)"
    using np by (simp_all add: private_nets6_def)
  have "unat a < 2 ^ 128"
    using unsigned_less [of a] by simp
  then have lt: "?h < 65536"
    by (simp add: hextet1_def)
  have "?h div 256 \<noteq> 0" "?h div 256 \<noteq> 1" "?h div 512 \<noteq> 1" "?h div 1024 \<noteq> 1" "?h div 2048 \<noteq> 1"
    "?h div 4096 \<noteq> 1" "?h div 8192 \<noteq> 2" "?h div 8192 \<noteq> 3" "?h div 8192 \<noteq> 4" "?h div 8192 \<noteq> 5"
    "?h div 8192 \<noteq> 6" "?h div 4096 \<noteq> 14" "?h div 2048 \<noteq> 30" "?h div 1024 \<noteq> 62" "?h div 128 \<noteq> 508"
    using r by (simp_all add: reserved_nets6_def in_net6_hextet)
  moreover have "?h div 512 \<noteq> 126" "?h div 64 \<noteq> 1018" "?h div 256 \<noteq> 255" and h: "?h \<noteq> 0x2002"
    using n2 p(1,2) by (simp_all add: in_net6_hextet)
  ultimately have "(0x2000 \<le> ?h \<and> ?h \<le> 0x3FFF) \<or> (0xFEC0 \<le> ?h \<and> ?h \<le> 0xFEFF)"
    by (intro hextet_ranges lt)
  with h p(3-5) show ?thesis
    by (simp only: global6_def site_local6_def) blast
qed

section \<open>Lemmas on validation\<close>

text \<open>A global unicast address; and an address of the two inside ranges that \<^verbatim>\<open>ipaddress\<close> calls neither private nor
  reserved: shared address space (100.64.0.0/10) and site-local (fec0::/10).\<close>

definition global_ip :: "string \<Rightarrow> bool" where
  "global_ip s \<longleftrightarrow>
     (case ip_address s of
        None \<Rightarrow> False
      | Some (V4 a) \<Rightarrow> global4 a
      | Some (V6 a) \<Rightarrow> (case ipv4_mapped a of Some m \<Rightarrow> global4 m | None \<Rightarrow> global6 a))"

definition gap_ip :: "string \<Rightarrow> bool" where
  "gap_ip s \<longleftrightarrow>
     (case ip_address s of
        None \<Rightarrow> False
      | Some (V4 a) \<Rightarrow> in_shared4 a
      | Some (V6 a) \<Rightarrow> (case ipv4_mapped a of Some m \<Rightarrow> in_shared4 m | None \<Rightarrow> site_local6 a))"

definition unblocked_ip :: "string \<Rightarrow> bool" where
  "unblocked_ip s \<longleftrightarrow> global_ip s \<or> gap_ip s"

definition metadata_ip :: "string \<Rightarrow> bool" where
  "metadata_ip s \<longleftrightarrow>
     s \<in> set METADATA_IPS \<or>
     (\<exists>a m. ip_address s = Some (V6 a) \<and> ipv4_mapped a = Some m \<and> str_v4 m \<in> set METADATA_IPS)"

lemma classify_none: "classify_ip s = None \<Longrightarrow> unblocked_ip s"
  by (auto simp: classify_ip_def classify4_def unblocked_ip_def global_ip_def gap_ip_def
      dest: unblocked4_global unblocked6_global split: if_splits option.splits ip_addr.splits)

lemma classify_metadata: "metadata_ip s \<Longrightarrow> classify_ip s = Some ''metadata''"
  by (auto simp: classify_ip_def metadata_ip_def)

lemma classify_reasons: "classify_ip s = Some r \<Longrightarrow> r = ''metadata'' \<or> r = ''malformed'' \<or> r = ''private_ip''"
  by (auto simp: classify_ip_def classify4_def split: if_splits option.splits ip_addr.splits)

lemma classify_parses: "classify_ip s = Some ''private_ip'' \<Longrightarrow> ip_address s \<noteq> None"
  by (auto simp: classify_ip_def split: if_splits option.splits)

lemma reasons_differ: "''metadata'' \<noteq> ''private_ip''" "''malformed'' \<noteq> ''private_ip''"
  by simp_all

lemma first_reject_none:
  "first_reject permitted ips = None \<Longrightarrow>
     list_all (\<lambda>s. classify_ip s = None \<or> permitted \<and> classify_ip s = Some ''private_ip'') ips"
  by (induction permitted ips rule: first_reject.induct) (auto split: option.splits if_splits)

lemma validate_inr:
  assumes "validate_outbound_url resolve allowed allow_http permit url = Inr t"
  obtains parts host ips where "urlsplit (py_strip url) = Some parts"
    and "vt_scheme t = ''https'' \<or> allow_http \<and> vt_scheme t = ''http''"
    and "hostname parts = Some host" and "vt_host t = py_lower host" and "vt_host t \<in> py_lower ` allowed"
    and "port_of parts = Inr None \<and> vt_port t = default_port (vt_scheme t) \<or>
         (\<exists>n. port_of parts = Inr (Some n) \<and> vt_port t = (if n = 0 then default_port (vt_scheme t) else n))"
    and "resolve (vt_host t) (vt_port t) = Some (vt_ip t # ips)"
    and "first_reject (vt_host t \<in> py_lower ` permit) (vt_ip t # ips) = None"
    and "vt_path t = str_path (up_path parts) (up_query parts)"
proof -
  note D = assms [unfolded validate_outbound_url_def]
  from D obtain parts where p: "urlsplit (py_strip url) = Some parts"
    by (auto split: option.splits)
  note D = D [unfolded p option.case Let_def]
  let ?s = "py_lower (up_scheme parts)"
  have sch: "?s = ''https'' \<or> allow_http \<and> ?s = ''http''"
    using D by (auto split: if_splits)
  then have sch': "\<not> \<not> (?s = ''https'' \<or> allow_http \<and> ?s = ''http'')"
    by (rule notI [OF notE, rotated])
  note D = D [unfolded if_not_P [OF sch']]
  have "\<not> (case userinfo parts of (name, pw) \<Rightarrow>
                     (case name of None \<Rightarrow> False | Some s \<Rightarrow> s \<noteq> []) \<or> (case pw of None \<Rightarrow> False | Some s \<Rightarrow> s \<noteq> []))"
    using D by (cases "hostname parts") (auto split: if_splits)
  note D = D [unfolded if_not_P [OF this]]
  from D obtain host where h: "hostname parts = Some host"
    by (auto split: option.splits)
  note D = D [unfolded h option.case]
  have a: "py_lower host \<in> py_lower ` allowed"
    using D by (auto split: if_splits)
  then have "\<not> py_lower host \<notin> py_lower ` allowed" by blast
  note D = D [unfolded if_not_P [OF this]]
  from D obtain po where po: "port_of parts = Inr po"
    by (auto split: sum.splits)
  note D = D [unfolded po sum.case]
  let ?port = "case po of None \<Rightarrow> default_port ?s | Some n \<Rightarrow> if n = 0 then default_port ?s else n"
  from D obtain ip ips where r: "resolve (py_lower host) ?port = Some (ip # ips)"
    by (auto split: option.splits list.splits)
  note D = D [unfolded r option.case list.case]
  have f: "first_reject (py_lower host \<in> py_lower ` permit) (ip # ips) = None"
    using D by (auto split: option.splits simp del: first_reject.simps)
  note D = D [unfolded f option.case]
  have t: "t = \<lparr>vt_scheme = ?s, vt_host = py_lower host, vt_ip = ip, vt_port = ?port,
      vt_path = str_path (up_path parts) (up_query parts)\<rparr>"
    using D by simp
  show thesis
    by (rule that [of parts host ips]) (use p sch h a po r f t in \<open>auto split: option.splits\<close>)
qed

lemma port_bound: "port_of parts = Inr (Some n) \<Longrightarrow> n \<le> 65535"
  by (auto simp: port_of_def Let_def split: if_splits)

lemma set_split_fst: "set (fst (split_char1 c s)) \<subseteq> set s"
  by (auto simp: split_char1_def dest: set_takeWhileD)

lemma set_split_snd: "snd (split_char1 c s) = Some r \<Longrightarrow> set r \<subseteq> set s"
  by (auto simp: split_char1_def split: list.splits dest: set_dropWhileD) (metis list.set_intros(2) set_dropWhileD)

lemma split_scheme_set: "set (snd (split_scheme url)) \<subseteq> set url"
  using set_split_snd [of "CHR '':''" url] by (auto simp: split_scheme_def split: prod.splits option.splits)

text \<open>Where the parts of a split URL come from.\<close>

lemma urlsplit_parts:
  assumes "urlsplit url = Some parts"
  shows "list_all (\<lambda>c. \<not> unsafe_url_char c) (up_path parts @ up_query parts)"
    and "up_netloc parts \<noteq> [] \<Longrightarrow> up_path parts = [] \<or> hd (up_path parts) = CHR ''/''"
proof -
  let ?u = "filter (\<lambda>c. \<not> unsafe_url_char c) (dropWhile is_c0_or_space url)"
  obtain scheme v where v: "split_scheme ?u = (scheme, v)" by fastforce
  obtain netloc w where w: "(if starts_with ''//'' v
      then (takeWhile (\<lambda>c. \<not> netloc_end c) (drop 2 v), dropWhile (\<lambda>c. \<not> netloc_end c) (drop 2 v))
      else ([], v)) = (netloc, w)" by fastforce
  let ?x = "fst (split_char1 (CHR ''#'') w)"
  obtain path query where pq: "split_char1 (CHR ''?'') ?x = (path, query)" by fastforce
  have parts: "up_netloc parts = netloc" "up_path parts = path" "up_query parts = (case query of None \<Rightarrow> [] | Some q \<Rightarrow> q)"
    using assms by (auto simp: urlsplit_def v w pq Let_def split: if_splits)
  have "set w \<subseteq> set v"
    using w by (auto split: if_splits dest: set_dropWhileD in_set_dropD)
  moreover have "set v \<subseteq> set ?u"
    using split_scheme_set [of ?u] by (simp add: v)
  ultimately have "set ?x \<subseteq> {c. \<not> unsafe_url_char c}"
    using set_split_fst [of "CHR ''#''" w] by auto
  then show "list_all (\<lambda>c. \<not> unsafe_url_char c) (up_path parts @ up_query parts)"
  proof -
    assume u: "set ?x \<subseteq> {c. \<not> unsafe_url_char c}"
    have "set path \<subseteq> set ?x"
      using set_split_fst [of "CHR ''?''" ?x] unfolding pq fst_conv .
    moreover have "set (up_query parts) \<subseteq> set ?x"
      using set_split_snd [of "CHR ''?''" ?x] unfolding parts pq snd_conv by (cases query) simp_all
    ultimately show ?thesis
      unfolding list_all_iff set_append parts(2) using u by blast
  qed
  assume "up_netloc parts \<noteq> []"
  then have "starts_with ''//'' v"
    using w parts(1) by (cases "starts_with ''//'' v") (simp_all only: if_False prod.inject simp_thms)
  then have "w = dropWhile (\<lambda>c. \<not> netloc_end c) (drop 2 v)"
    using w by (simp only: if_True prod.inject)
  then have end_w: "w = [] \<or> netloc_end (hd w)"
    using hd_dropWhile [of "\<lambda>c. \<not> netloc_end c" "drop 2 v"] by blast
  then have "path = [] \<or> hd path = CHR ''/''"
  proof (cases w)
    case Nil
    then show ?thesis using pq by (simp add: split_char1_def)
  next
    case (Cons c cs)
    have path: "path = takeWhile (\<lambda>x. x \<noteq> CHR ''?'') (takeWhile (\<lambda>x. x \<noteq> CHR ''#'') (c # cs))"
      using pq by (simp only: split_char1_def Cons fst_conv prod.inject)
    have "c = CHR ''/'' \<or> c = CHR ''?'' \<or> c = CHR ''#''"
      using end_w by (simp add: Cons netloc_end_def)
    then show ?thesis
      unfolding path by (elim disjE) simp_all
  qed
  then show "up_path parts = [] \<or> hd (up_path parts) = CHR ''/''"
    unfolding parts .
qed


lemma hostname_netloc: "hostname parts = Some h \<Longrightarrow> up_netloc parts \<noteq> []"
  by (auto simp: hostname_def hostinfo_def rpartition_def split_char1_def)

lemma path_safe:
  assumes "urlsplit url = Some parts" and "up_netloc parts \<noteq> []"
  shows "starts_with ''/'' (str_path (up_path parts) (up_query parts)) \<and>
    list_all (\<lambda>c. \<not> unsafe_url_char c) (str_path (up_path parts) (up_query parts))"
proof -
  let ?p = "if up_path parts = [] then ''/'' else up_path parts"
  have sep: "\<not> unsafe_url_char (CHR ''/'')" "\<not> unsafe_url_char (CHR ''?'')"
    by (simp_all add: unsafe_url_char_def ord_of_def)
  have "list_all (\<lambda>c. \<not> unsafe_url_char c) ?p" "list_all (\<lambda>c. \<not> unsafe_url_char c) (up_query parts)"
    using urlsplit_parts(1) [OF assms(1)] sep by simp_all
  moreover obtain r where r: "?p = CHR ''/'' # r"
    using urlsplit_parts(2) [OF assms] by (cases "up_path parts") auto
  ultimately show ?thesis
    using sep by (simp add: str_path_def Let_def)
qed

lemma validated_safe:
  assumes "validate_outbound_url resolve allowed_hosts allow_http permit_hosts url = Inr t"
  shows "(vt_scheme t = ''https'' \<or> allow_http \<and> vt_scheme t = ''http'') \<and>
    vt_host t \<in> py_lower ` allowed_hosts \<and> 1 \<le> vt_port t \<and> vt_port t \<le> 65535 \<and>
    starts_with ''/'' (vt_path t) \<and> list_all (\<lambda>c. \<not> unsafe_url_char c) (vt_path t) \<and>
    (\<exists>ips. resolve (vt_host t) (vt_port t) = Some (vt_ip t # ips) \<and>
       list_all (\<lambda>ip. \<not> metadata_ip ip \<and> ip_address ip \<noteq> None \<and>
         (unblocked_ip ip \<or> vt_host t \<in> py_lower ` permit_hosts)) (vt_ip t # ips))"
proof -
  from assms obtain parts host ips where v: "urlsplit (py_strip url) = Some parts"
      "vt_scheme t = ''https'' \<or> allow_http \<and> vt_scheme t = ''http''"
      "hostname parts = Some host" "vt_host t \<in> py_lower ` allowed_hosts"
      "resolve (vt_host t) (vt_port t) = Some (vt_ip t # ips)"
      "vt_path t = str_path (up_path parts) (up_query parts)"
    and port: "port_of parts = Inr None \<and> vt_port t = default_port (vt_scheme t) \<or>
         (\<exists>n. port_of parts = Inr (Some n) \<and> vt_port t = (if n = 0 then default_port (vt_scheme t) else n))"
    and ok: "first_reject (vt_host t \<in> py_lower ` permit_hosts) (vt_ip t # ips) = None"
    by (rule validate_inr)
  have "1 \<le> vt_port t \<and> vt_port t \<le> 65535"
    using port port_bound [of parts] by (auto simp: default_port_def)
  moreover have "\<not> metadata_ip ip \<and> ip_address ip \<noteq> None \<and> (unblocked_ip ip \<or> vt_host t \<in> py_lower ` permit_hosts)"
    if "classify_ip ip = None \<or> vt_host t \<in> py_lower ` permit_hosts \<and> classify_ip ip = Some ''private_ip''" for ip
  proof -
    have "unblocked_ip ip \<Longrightarrow> ip_address ip \<noteq> None"
      by (cases "ip_address ip") (simp_all add: unblocked_ip_def global_ip_def gap_ip_def)
    then show ?thesis
      using that classify_none [of ip] classify_metadata [of ip] classify_parses [of ip] reasons_differ by auto
  qed
  then have "list_all (\<lambda>ip. \<not> metadata_ip ip \<and> ip_address ip \<noteq> None \<and>
      (unblocked_ip ip \<or> vt_host t \<in> py_lower ` permit_hosts)) (vt_ip t # ips)"
    using first_reject_none [OF ok] by (rule list.pred_mono_strong [rotated])
  ultimately show ?thesis
    using v path_safe [OF v(1) hostname_netloc [OF v(3)]] by auto
qed

section \<open>Properties\<close>

text \<open>C4: A URL that passes the guard has the scheme https (or http where allowed), a host on the allow-list, a port
  in range, and a path that starts with a slash and holds no line break or tab.  Every address its host resolved
  to, the pinned one among them, is well formed and not the metadata service's; and unless the host is one of
  those permitted to be private, it is global unicast by the IANA registries, or in one of the two inside ranges
  that the guard lets through, 100.64.0.0/10 and fec0::/10.\<close>

theorem outbound_target_safe:
  assumes "validate_outbound_url resolve allowed_hosts allow_http permit_hosts url = Inr t"
  shows "(vt_scheme t = ''https'' \<or> allow_http \<and> vt_scheme t = ''http'') \<and>
    vt_host t \<in> py_lower ` allowed_hosts \<and> 1 \<le> vt_port t \<and> vt_port t \<le> 65535 \<and>
    starts_with ''/'' (vt_path t) \<and> list_all (\<lambda>c. \<not> unsafe_url_char c) (vt_path t) \<and>
    (\<exists>ips. resolve (vt_host t) (vt_port t) = Some (vt_ip t # ips) \<and>
       list_all (\<lambda>ip. \<not> metadata_ip ip \<and> ip_address ip \<noteq> None \<and>
         (global_ip ip \<or> gap_ip ip \<or> vt_host t \<in> py_lower ` permit_hosts)) (vt_ip t # ips))"
  using validated_safe [OF assms] unfolding unblocked_ip_def by (simp add: disj_assoc)

definition example_resolve :: resolver where
  "example_resolve host port = Some [''93.184.216.34'', ''100.64.0.1'']"

lemma parse_v4_eval:
  "those (map parse_octet (split_char (CHR ''.'') ''93.184.216.34'')) = Some [93, 184, 216, 34]"
  "those (map parse_octet (split_char (CHR ''.'') ''100.64.0.1'')) = Some [100, 64, 0, 1]"
  by code_simp+

lemma classify_v4_eval: "classify_ip ''93.184.216.34'' = None" "classify_ip ''100.64.0.1'' = None"
proof -
  have n: "CHR ''/'' \<notin> set ''93.184.216.34''" "CHR ''/'' \<notin> set ''100.64.0.1''"
    "length (split_char (CHR ''.'') ''93.184.216.34'') = 4" "length (split_char (CHR ''.'') ''100.64.0.1'') = 4"
    "''93.184.216.34'' \<notin> set METADATA_IPS" "''100.64.0.1'' \<notin> set METADATA_IPS"
    by code_simp+
  have a: "ip_address ''93.184.216.34'' = Some (V4 1572395042)" "ip_address ''100.64.0.1'' = Some (V4 1681915905)"
    unfolding ip_address_def parse_v4_def Let_def parse_v4_eval
    using n by (simp_all add: octets_word_def del: split_char.simps)
  have "\<not> blocked4 1572395042" "\<not> blocked4 1681915905"
    by (simp_all add: blocked4_def is_private4_def private_nets4_def in_net4_iff octets_word_def)
  then show "classify_ip ''93.184.216.34'' = None" "classify_ip ''100.64.0.1'' = None"
    unfolding classify_ip_def a using n by (simp_all add: classify4_def)
qed

lemma example_valid:
  "validate_outbound_url example_resolve {''api.io''} False {} ''https://API.io/v1?q=a'' =
     Inr \<lparr>vt_scheme = ''https'', vt_host = ''api.io'', vt_ip = ''93.184.216.34'', vt_port = 443, vt_path = ''/v1?q=a''\<rparr>"
proof -
  have u: "urlsplit (py_strip ''https://API.io/v1?q=a'') =
      Some \<lparr>up_scheme = ''https'', up_netloc = ''API.io'', up_path = ''/v1'', up_query = ''q=a''\<rparr>" (is "_ = Some ?p")
    by code_simp
  have "hostname ?p = Some ''api.io''" "port_of ?p = Inr None" "userinfo ?p = (None, None)"
    "py_lower ''https'' = ''https''" "py_lower ''api.io'' = ''api.io''"
    by code_simp+
  then show ?thesis
    by (simp add: validate_outbound_url_def u example_resolve_def classify_v4_eval str_path_def default_port_def)
qed

lemma outbound_target_safe_witness:
  "\<not> metadata_ip ''93.184.216.34'' \<and> (global_ip ''93.184.216.34'' \<or> gap_ip ''93.184.216.34'') \<and>
   (global_ip ''100.64.0.1'' \<or> gap_ip ''100.64.0.1'')"
  using outbound_target_safe [OF example_valid] by (simp add: example_resolve_def)

text \<open>The shared address space 100.64.0.0/10, which providers and clusters use inside, passes:
  \<^verbatim>\<open>ipaddress\<close> calls it neither private nor reserved.\<close>

lemma shared_space_passes: "classify_ip ''100.64.0.1'' = None"
  by (rule classify_v4_eval)

end
