(* ===== verification/Integrations.thy ===== *)
theory Integrations
  imports AgentTools Outbound "HOL-Library.List_Lexorder"
begin

text \<open>
  The integration harness (integrations.py), its per-tenant credentials (integration_secrets.py) and the
  Google Calendar integration (integrations_google.py): the executor that resolves credentials,
  mints access tokens and sends every request through the outbound guard, the tenant switch in
  memory and in PostgreSQL, and the two handlers.

  The secret store is the parameter \<open>re_fetch\<close> (it may answer differently as time goes on, and may
  raise); DNS and the network are the parameters \<open>ix_dns\<close> and \<open>ix_net\<close>, which see every
  connection made so far.  \<open>ix_sent\<close> logs the connections and has no counterpart in the code.
\<close>

section \<open>Credentials\<close>

type_synonym creds = "(string \<times> string) list"

text \<open>\<^verbatim>\<open>^[A-Za-z0-9][A-Za-z0-9._-]*$\<close> with \<^verbatim>\<open>match\<close>: \<^verbatim>\<open>$\<close> also matches before a final line break.\<close>

definition component_char :: "char \<Rightarrow> bool" where
  "component_char c = (is_alnum c \<or> c \<in> set ''._-'')"

definition safe_component :: "string \<Rightarrow> bool" where
  "safe_component s =
     (case s of
        [] \<Rightarrow> False
      | c # cs \<Rightarrow> is_alnum c \<and> (list_all component_char cs \<or>
          (cs \<noteq> [] \<and> last cs = CHR 0x0A \<and> list_all component_char (butlast cs))))"

datatype ix_exn = SecretError | HttpLibError | PyError py_exn

definition check_component :: "string \<Rightarrow> ix_exn + string" where
  "check_component s = (if s = [] \<or> \<not> safe_component s then Inl SecretError else Inr s)"

definition build_secret_id ::
    "string \<Rightarrow> string \<Rightarrow> string \<Rightarrow> string option \<Rightarrow> string \<Rightarrow> ix_exn + string" where
  "build_secret_id env tenant integration user project =
     ebind (check_component project) (\<lambda>p.
     ebind (check_component env) (\<lambda>e.
     ebind (check_component tenant) (\<lambda>t.
     ebind (check_component integration) (\<lambda>i.
     (case user of
        None \<Rightarrow> Inr (py_join ''/'' [p, e, ''integrations'', t, i])
      | Some u \<Rightarrow> ebind (check_component u) (\<lambda>u. Inr (py_join ''/'' [p, e, ''integrations'', t, i, u])))))))"

text \<open>A later key of a decoded object with the same text as an earlier one cannot occur: keys are
  strings.\<close>

definition parse_secret_string ::
    "(string \<Rightarrow> json option) \<Rightarrow> (rat \<Rightarrow> string) \<Rightarrow> string option \<Rightarrow> creds option" where
  "parse_secret_string loads fr raw =
     (case raw of
        None \<Rightarrow> None
      | Some s \<Rightarrow>
          (case loads s of
             None \<Rightarrow> Some [(''value'', s)]
           | Some (JObj data) \<Rightarrow> Some (map (\<lambda>(k, v). (k, py_str fr v)) data)
           | Some v \<Rightarrow> Some [(''value'', py_str fr v)]))"

record secret_env =
  re_env :: string
  re_project :: string
  re_ttl :: rat
  re_fetch :: "rat \<Rightarrow> string \<Rightarrow> ix_exn + string option"
  re_loads :: "string \<Rightarrow> json option"
  re_repr :: "rat \<Rightarrow> string"

type_synonym secret_cache = "string \<Rightarrow> (rat \<times> creds option) option"

definition secret_resolve ::
    "secret_env \<Rightarrow> rat \<Rightarrow> string \<Rightarrow> string \<Rightarrow> secret_cache \<Rightarrow> (ix_exn + creds option) \<times> secret_cache" where
  "secret_resolve re now tenant_id integration cache =
     (case build_secret_id (re_env re) tenant_id integration None (re_project re) of
        Inl ex \<Rightarrow> (Inl ex, cache)
      | Inr sid \<Rightarrow>
          (case cache sid of
             Some (expires, v) \<Rightarrow>
               if now < expires then (Inr v, cache)
               else (case re_fetch re now sid of
                       Inl ex \<Rightarrow> (Inl ex, cache)
                     | Inr raw \<Rightarrow>
                         let v = parse_secret_string (re_loads re) (re_repr re) raw
                         in (Inr v, cache(sid \<mapsto> (now + re_ttl re, v))))
           | None \<Rightarrow>
               (case re_fetch re now sid of
                  Inl ex \<Rightarrow> (Inl ex, cache)
                | Inr raw \<Rightarrow>
                    let v = parse_secret_string (re_loads re) (re_repr re) raw
                    in (Inr v, cache(sid \<mapsto> (now + re_ttl re, v))))))"

section \<open>Integrations\<close>

record outbound_request =
  rq_method :: string
  rq_url :: string
  rq_headers :: "(string \<times> string) list"
  rq_body :: "string option"
  rq_allow_http :: bool

datatype built = Built outbound_request | UnknownOperation | BuilderRaised

record token_refresh =
  tr_hosts :: "string set"
  tr_key :: string
  tr_build :: "creds \<Rightarrow> outbound_request"
  tr_parse :: "int \<Rightarrow> string \<Rightarrow> ix_exn + string option \<times> int"

record integration =
  ig_hosts :: "string set"
  ig_secret :: bool
  ig_build :: "string \<Rightarrow> dict \<Rightarrow> creds option \<Rightarrow> built"
  ig_permit :: "string set"
  ig_refresh :: "token_refresh option"

text \<open>The operator's switch.\<close>

record 's tenant_state =
  tn_is_enabled :: "string \<Rightarrow> string \<Rightarrow> 's \<Rightarrow> bool"
  tn_disable :: "string \<Rightarrow> string \<Rightarrow> 's \<Rightarrow> 's"
  tn_enable :: "string \<Rightarrow> string \<Rightarrow> 's \<Rightarrow> 's"

definition mem_is_enabled :: "string \<Rightarrow> string \<Rightarrow> (string \<times> string) set \<Rightarrow> bool" where
  "mem_is_enabled tenant_id integration disabled = ((tenant_id, integration) \<notin> disabled)"

definition mem_disable :: "string \<Rightarrow> string \<Rightarrow> (string \<times> string) set \<Rightarrow> (string \<times> string) set" where
  "mem_disable tenant_id integration disabled = insert (tenant_id, integration) disabled"

definition mem_enable :: "string \<Rightarrow> string \<Rightarrow> (string \<times> string) set \<Rightarrow> (string \<times> string) set" where
  "mem_enable tenant_id integration disabled = disabled - {(tenant_id, integration)}"

definition InMemoryTenantIntegrationState :: "(string \<times> string) set tenant_state" where
  "InMemoryTenantIntegrationState =
     \<lparr>tn_is_enabled = mem_is_enabled, tn_disable = mem_disable, tn_enable = mem_enable\<rparr>"

text \<open>The table \<^verbatim>\<open>integration_tenant_state\<close>, keyed by tenant and integration.\<close>

type_synonym switch_rows = "((string \<times> string) \<times> bool) list"

definition pg_is_enabled :: "string \<Rightarrow> string \<Rightarrow> switch_rows \<Rightarrow> bool" where
  "pg_is_enabled tenant_id integration rows =
     (case find (\<lambda>r. fst r = (tenant_id, integration)) rows of None \<Rightarrow> True | Some r \<Rightarrow> snd r)"

text \<open>\<^verbatim>\<open>INSERT \<dots> ON CONFLICT (tenant_id, integration) DO UPDATE\<close>.\<close>

definition pg_set :: "string \<Rightarrow> string \<Rightarrow> bool \<Rightarrow> switch_rows \<Rightarrow> switch_rows" where
  "pg_set tenant_id integration enabled rows =
     (if list_ex (\<lambda>r. fst r = (tenant_id, integration)) rows
      then map (\<lambda>r. if fst r = (tenant_id, integration) then (fst r, enabled) else r) rows
      else rows @ [((tenant_id, integration), enabled)])"

definition PostgresTenantIntegrationState :: "switch_rows tenant_state" where
  "PostgresTenantIntegrationState =
     \<lparr>tn_is_enabled = pg_is_enabled, tn_disable = (\<lambda>t i. pg_set t i False), tn_enable = (\<lambda>t i. pg_set t i True)\<rparr>"

section \<open>The executor\<close>

record integration_outcome =
  io_class :: string
  io_status :: "int option"
  io_result :: json

definition io_fail :: "string \<Rightarrow> integration_outcome" where
  "io_fail rc = \<lparr>io_class = rc, io_status = None, io_result = JNull\<rparr>"

record ix_env =
  ix_registry :: "(string \<times> integration) list"
  ix_secrets :: "secret_env option"
  ix_dns :: "connection list \<Rightarrow> resolver"
  ix_net :: transport
  ix_loads :: "string \<Rightarrow> json option"

record ix_state =
  ix_cache :: secret_cache
  ix_tokens :: "string \<times> string \<Rightarrow> (string \<times> rat) option"
  ix_sent :: "connection list"

definition MAX_RESULT_BYTES :: nat where "MAX_RESULT_BYTES = 262144"
definition TOKEN_MARGIN :: int where "TOKEN_MARGIN = 60"

definition available :: "ix_env \<Rightarrow> string \<Rightarrow> allowlist \<Rightarrow> string list" where
  "available env tenant_id al =
     sort (filter (\<lambda>name. is_allowed al tenant_id name) (map fst (ix_registry env)))"

text \<open>\<^verbatim>\<open>_send\<close>: a response, an outcome to answer with, or an exception that is no \<^verbatim>\<open>OSError\<close>.\<close>

definition ix_send ::
    "ix_env \<Rightarrow> string set \<Rightarrow> string set \<Rightarrow> outbound_request \<Rightarrow> ix_state
       \<Rightarrow> (ix_exn + (integration_outcome + outbound_response)) \<times> ix_state" where
  "ix_send env allowed_hosts permit_hosts rq st =
     (case validate_outbound_url (ix_dns env (ix_sent st)) allowed_hosts (rq_allow_http rq) permit_hosts (rq_url rq) of
        Inl reason \<Rightarrow> (Inr (Inl (io_fail (''blocked:'' @ reason))), st)
      | Inr target \<Rightarrow>
          (case guarded_open (ix_net env) target (rq_method rq) (rq_headers rq) (rq_body rq) MAX_RESULT_BYTES (ix_sent st) of
             (r, sent) \<Rightarrow>
               ((case r of
                   Inl OpenTimeout \<Rightarrow> Inr (Inl (io_fail ''upstream_timeout''))
                 | Inl OpenOSError \<Rightarrow> Inr (Inl (io_fail ''upstream_error''))
                 | Inl OpenRaised \<Rightarrow> Inl HttpLibError
                 | Inr resp \<Rightarrow> Inr (Inr resp)),
                st\<lparr>ix_sent := sent\<rparr>)))"

text \<open>\<^verbatim>\<open>_ensure_access_token\<close>: an outcome to abort with, or the credentials to go on with.\<close>

definition ensure_access_token ::
    "ix_env \<Rightarrow> rat \<Rightarrow> string \<Rightarrow> integration \<Rightarrow> string \<Rightarrow> creds \<Rightarrow> ix_state
       \<Rightarrow> (ix_exn + (integration_outcome + creds)) \<times> ix_state" where
  "ensure_access_token env now name spec tenant_id creds st =
     (case ig_refresh spec of
        None \<Rightarrow> (Inr (Inr creds), st)
      | Some tr \<Rightarrow>
          (let refresh =
             (case ix_send env (tr_hosts tr) {} (tr_build tr creds) st of
                (Inl ex, st) \<Rightarrow> (Inl ex, st)
              | (Inr (Inl err), st) \<Rightarrow> (Inr (Inl err), st)
              | (Inr (Inr resp), st) \<Rightarrow>
                  (case tr_parse tr (or_status resp) (or_body resp) of
                     Inl ex \<Rightarrow> (Inl ex, st)
                   | Inr (None, _) \<Rightarrow> (Inr (Inl (io_fail ''refresh_failed'')), st)
                   | Inr (Some token, lifetime) \<Rightarrow>
                       if token = [] then (Inr (Inl (io_fail ''refresh_failed'')), st)
                       else (Inr (Inr (dset creds (tr_key tr) token)),
                             st\<lparr>ix_tokens := (ix_tokens st)((tenant_id, name) \<mapsto>
                                  (token, now + of_int (max 0 (lifetime - TOKEN_MARGIN))))\<rparr>)))
           in (case ix_tokens st (tenant_id, name) of
                 Some (token, expires) \<Rightarrow>
                   if now < expires then (Inr (Inr (dset creds (tr_key tr) token)), st) else refresh
               | None \<Rightarrow> refresh)))"

definition ix_decode :: "(string \<Rightarrow> json option) \<Rightarrow> outbound_response \<Rightarrow> json" where
  "ix_decode loads resp =
     (case loads (or_body resp) of
        None \<Rightarrow> JObj [(''status'', JInt (or_status resp)), (''result_class'', JStr (response_class resp)),
                 (''bytes'', JInt (int (length (or_body resp))))]
      | Some parsed \<Rightarrow> JObj [(''status'', JInt (or_status resp)), (''result_class'', JStr (response_class resp)),
                 (''data'', parsed)])"

text \<open>The main request, once the credentials are there.\<close>

definition ix_call ::
    "ix_env \<Rightarrow> integration \<Rightarrow> string \<Rightarrow> dict \<Rightarrow> creds option \<Rightarrow> ix_state
       \<Rightarrow> (ix_exn + integration_outcome) \<times> ix_state" where
  "ix_call env spec operation params creds st =
     (case ig_build spec operation params creds of
        UnknownOperation \<Rightarrow> (Inr (io_fail ''unknown_operation''), st)
      | BuilderRaised \<Rightarrow> (Inr (io_fail ''upstream_error''), st)
      | Built rq \<Rightarrow>
          (case ix_send env (ig_hosts spec) (ig_permit spec) rq st of
             (Inl ex, st) \<Rightarrow> (Inl ex, st)
           | (Inr (Inl err), st) \<Rightarrow> (Inr err, st)
           | (Inr (Inr resp), st) \<Rightarrow>
               (Inr \<lparr>io_class = ''success'', io_status = Some (or_status resp),
                     io_result = ix_decode (ix_loads env) resp\<rparr>, st)))"

text \<open>\<^verbatim>\<open>invoke\<close>; an empty mapping of credentials is no credentials.\<close>

definition ix_invoke ::
    "ix_env \<Rightarrow> rat \<Rightarrow> string \<Rightarrow> string \<Rightarrow> dict \<Rightarrow> string \<Rightarrow> ix_state
       \<Rightarrow> (ix_exn + integration_outcome) \<times> ix_state" where
  "ix_invoke env now name operation params tenant_id st =
     (case map_of (ix_registry env) name of
        None \<Rightarrow> (Inr (io_fail ''unknown_integration''), st)
      | Some spec \<Rightarrow>
          if \<not> ig_secret spec then ix_call env spec operation params None st
          else (case ix_secrets env of
                  None \<Rightarrow> (Inr (io_fail ''no_credentials''), st)
                | Some re \<Rightarrow>
                    (case secret_resolve re now tenant_id name (ix_cache st) of
                       (Inl ex, cache) \<Rightarrow> (Inl ex, st\<lparr>ix_cache := cache\<rparr>)
                     | (Inr resolved, cache) \<Rightarrow>
                         (let st = st\<lparr>ix_cache := cache\<rparr> in
                          case resolved of
                            None \<Rightarrow> (Inr (io_fail ''no_credentials''), st)
                          | Some creds \<Rightarrow>
                              if creds = [] then (Inr (io_fail ''no_credentials''), st)
                              else (case ensure_access_token env now name spec tenant_id creds st of
                                      (Inl ex, st) \<Rightarrow> (Inl ex, st)
                                    | (Inr (Inl err), st) \<Rightarrow> (Inr err, st)
                                    | (Inr (Inr creds), st) \<Rightarrow> ix_call env spec operation params (Some creds) st)))))"

section \<open>The handlers\<close>

text \<open>The state the endpoints share: their own limiter, the audit log, the notifications, the executor's.\<close>

record 'n hub_state =
  hb_limiter :: rate_limiter
  hb_audit :: "audit_entry list"
  hb_notifs :: 'n
  hb_ix :: ix_state

definition integrations_disabled :: reply where
  "integrations_disabled =
     (HTTP_UNAVAILABLE,
      err_degraded ''integrations_disabled'' ''Personal-information integrations are disabled on this instance.'')"

text \<open>\<^verbatim>\<open>parse_integration_allowlist\<close> on the decoded value, as \<^const>\<open>parse_allowlist\<close>.\<close>

definition parse_integration_allowlist :: "(rat \<Rightarrow> string) \<Rightarrow> json option \<Rightarrow> allowlist" where
  "parse_integration_allowlist fr raw =
     (case raw of
        Some (JObj data) \<Rightarrow> allowlist_items fr data
      | _ \<Rightarrow> [])"

definition integrations_gate ::
    "string option \<Rightarrow> verifier option \<Rightarrow> bool \<Rightarrow> reply + owner" where
  "integrations_gate authorization token_verifier enabled =
     (case verify_and_extract authorization token_verifier of
        Inl err \<Rightarrow> Inl err
      | Inr claims \<Rightarrow> if \<not> enabled then Inl integrations_disabled else Inr (owner_of claims))"

definition build_integrations_list_response ::
    "bool \<Rightarrow> allowlist \<Rightarrow> ix_env \<Rightarrow> string option \<Rightarrow> verifier option \<Rightarrow> reply" where
  "build_integrations_list_response enabled al env authorization token_verifier =
     (case integrations_gate authorization token_verifier enabled of
        Inl err \<Rightarrow> err
      | Inr who \<Rightarrow> (HTTP_OK, JObj [(''integrations'', JArr (map JStr (available env (fst who) al)))]))"

definition MAX_PARAMS_BYTES :: nat where "MAX_PARAMS_BYTES = 100000"

definition integration_fields ::
    "(rat \<Rightarrow> string) \<Rightarrow> json option \<Rightarrow> reply + string \<times> string \<times> dict" where
  "integration_fields fr body =
     (case body of
        Some (JObj data) \<Rightarrow>
          (case dget data ''integration'' of
             JStr name \<Rightarrow>
               if name = [] then Inl (bad_request (quoted ''integration'' @ '' is required.''))
               else (case dget data ''operation'' of
                       JStr operation \<Rightarrow>
                         if operation = [] then Inl (bad_request (quoted ''operation'' @ '' is required.''))
                         else (case dget_or data ''params'' (JObj []) of
                                 JObj params \<Rightarrow>
                                   if MAX_PARAMS_BYTES < length (json_dumps fr (JObj params))
                                   then Inl (HTTP_TOO_LARGE, err_only ''payload_too_large'')
                                   else Inr (name, operation, params)
                               | _ \<Rightarrow> Inl (bad_request (quoted ''params'' @ '' must be an object.'')))
                     | _ \<Rightarrow> Inl (bad_request (quoted ''operation'' @ '' is required.'')))
           | _ \<Rightarrow> Inl (bad_request (quoted ''integration'' @ '' is required.'')))
      | _ \<Rightarrow> Inl (HTTP_BAD_REQUEST, err_only ''bad_request''))"

definition integration_to_http :: "integration_outcome \<Rightarrow> reply" where
  "integration_to_http o' =
     (let rc = io_class o' in
      if rc = ''success''
      then (HTTP_OK, JObj [(''status'', jopt JInt (io_status o')), (''result'', io_result o')])
      else if rc = ''unknown_integration'' then (HTTP_NOT_FOUND, err_only ''unknown_integration'')
      else if rc = ''unknown_operation'' then (HTTP_NOT_FOUND, err_only ''unknown_operation'')
      else if rc = ''no_credentials'' then (HTTP_BAD_GATEWAY, err_degraded0 ''no_credentials'')
      else if rc = ''refresh_failed'' then (HTTP_BAD_GATEWAY, err_degraded0 ''credential_refresh_failed'')
      else if starts_with ''blocked:'' rc
      then (HTTP_BAD_GATEWAY, JObj [(''error'', JStr ''outbound_blocked''), (''reason'', JStr (drop 8 rc))])
      else if rc = ''upstream_timeout'' then (HTTP_TIMEOUT, err_degraded0 ''upstream_timeout'')
      else (HTTP_BAD_GATEWAY, err_degraded0 ''upstream_error''))"

definition integration_label :: "string \<Rightarrow> string \<Rightarrow> string" where
  "integration_label name operation = ''integration:'' @ name @ ''/'' @ operation"

text \<open>\<^verbatim>\<open>_maybe_notify\<close>; what publishing raises is taken.\<close>

definition maybe_notify ::
    "'n notif_store option \<Rightarrow> owner \<Rightarrow> string \<Rightarrow> integration_outcome \<Rightarrow> string \<Rightarrow> datetime \<Rightarrow> 'n \<Rightarrow> 'n" where
  "maybe_notify notification_store who name outcome nuid now =
     (let event = (if io_class outcome = ''success'' then ''agent_task_completed'' else ''agent_task_failed'')
      in emit_event notification_store who event (''integration:'' @ name) nuid now)"

text \<open>What runs once a slot is held: the slot comes back also when the call raises.\<close>

definition integrations_run ::
    "'n notif_store option \<Rightarrow> ix_env \<Rightarrow> rat \<Rightarrow> datetime \<Rightarrow> int \<Rightarrow> string \<Rightarrow> owner \<Rightarrow> string \<Rightarrow> string \<Rightarrow> dict
       \<Rightarrow> 'n hub_state \<Rightarrow> (ix_exn + reply) \<times> 'n hub_state" where
  "integrations_run notification_store env clock now latency_ms nuid who name operation params st =
     (case ix_invoke env clock name operation params (fst who) (hb_ix st) of
        (r, ix) \<Rightarrow>
          (let st = st\<lparr>hb_ix := ix, hb_limiter := rl_release (hb_limiter st)\<rparr> in
           case r of
             Inl ex \<Rightarrow> (Inl ex, st)
           | Inr outcome \<Rightarrow>
               (Inr (integration_to_http outcome),
                st\<lparr>hb_audit := audit who (integration_label name operation) (json_args params) ''allowed''
                      (Some (io_class outcome)) (Some latency_ms) None (hb_audit st),
                   hb_notifs := maybe_notify notification_store who name outcome nuid now (hb_notifs st)\<rparr>)))"

definition build_integrations_invoke_response ::
    "(rat \<Rightarrow> string) \<Rightarrow> 'n notif_store option \<Rightarrow> bool \<Rightarrow> allowlist \<Rightarrow> 's tenant_state \<Rightarrow> 's \<Rightarrow> ix_env
       \<Rightarrow> rat \<Rightarrow> datetime \<Rightarrow> int \<Rightarrow> int \<Rightarrow> string \<Rightarrow> string option \<Rightarrow> json option \<Rightarrow> verifier option
       \<Rightarrow> 'n hub_state \<Rightarrow> (ix_exn + reply) \<times> 'n hub_state" where
  "build_integrations_invoke_response fr notification_store enabled al ts switch env clock now secs latency_ms nuid
       authorization body token_verifier st =
     (case integrations_gate authorization token_verifier enabled of
        Inl err \<Rightarrow> (Inr err, st)
      | Inr who \<Rightarrow>
          (case integration_fields fr body of
             Inl err \<Rightarrow> (Inr err, st)
           | Inr (name, operation, params) \<Rightarrow>
               let label = integration_label name operation;
                   refuse = (\<lambda>decision. audit who label (json_args params) decision None None None (hb_audit st))
               in
               if \<not> is_allowed al (fst who) name
               then (Inr (HTTP_FORBIDDEN, err_only ''integration_not_allowed''), st\<lparr>hb_audit := refuse ''denied''\<rparr>)
               else if \<not> tn_is_enabled ts (fst who) name switch
               then (Inr (HTTP_FORBIDDEN, err_only ''tenant_disabled''), st\<lparr>hb_audit := refuse ''tenant_disabled''\<rparr>)
               else (case try_acquire (fst who) secs (hb_limiter st) of
                       (False, rl) \<Rightarrow>
                         (Inr (HTTP_TOO_MANY, err_only ''rate_limited''),
                          st\<lparr>hb_limiter := rl, hb_audit := refuse ''rate_limited''\<rparr>)
                     | (True, rl) \<Rightarrow>
                         integrations_run notification_store env clock now latency_ms nuid who name operation params
                           (st\<lparr>hb_limiter := rl\<rparr>))))"

section \<open>Google Calendar\<close>

definition API_HOST :: string where "API_HOST = ''www.googleapis.com''"
definition OAUTH_HOST :: string where "OAUTH_HOST = ''oauth2.googleapis.com''"

text \<open>\<^verbatim>\<open>quote(s, safe='')\<close> and \<^verbatim>\<open>urlencode\<close>.\<close>

definition quote_all :: "string \<Rightarrow> string" where
  "quote_all s = concat (map (\<lambda>c. if c = CHR '' '' then percent 32 else quote_char c) s)"

definition urlencode :: "(string \<times> string) list \<Rightarrow> string" where
  "urlencode ps = py_join ''&'' (map (\<lambda>(k, v). quote_plus k @ ''='' @ quote_plus v) ps)"

definition cred :: "creds \<Rightarrow> string \<Rightarrow> string" where
  "cred c k = (case map_of c k of None \<Rightarrow> [] | Some v \<Rightarrow> v)"

definition google_refresh_request :: "creds \<Rightarrow> outbound_request" where
  "google_refresh_request c =
     \<lparr>rq_method = ''POST'', rq_url = ''https://'' @ OAUTH_HOST @ ''/token'',
      rq_headers = [(''Content-Type'', ''application/x-www-form-urlencoded'')],
      rq_body = Some (urlencode [(''client_id'', cred c ''CLIENT_ID''), (''client_secret'', cred c ''CLIENT_SECRET''),
                 (''refresh_token'', cred c ''REFRESH_TOKEN''), (''grant_type'', ''refresh_token'')]),
      rq_allow_http = False\<rparr>"

text \<open>\<^verbatim>\<open>int(v)\<close> on a decoded value.\<close>

fun int_of_json :: "json \<Rightarrow> py_exn + int" where
  "int_of_json (JInt i) = Inr i"
| "int_of_json (JBool b) = Inr (if b then 1 else 0)"
| "int_of_json (JFloat (Fin q)) = Inr (if 0 \<le> q then \<lfloor>q\<rfloor> else \<lceil>q\<rceil>)"
| "int_of_json (JFloat NaN) = Inl ValueError"
| "int_of_json (JFloat _) = Inl OverflowError"
| "int_of_json (JStr s) = (case py_int s of None \<Rightarrow> Inl ValueError | Some i \<Rightarrow> Inr i)"
| "int_of_json _ = Inl TypeError"

definition google_parse_token ::
    "(string \<Rightarrow> json option) \<Rightarrow> int \<Rightarrow> string \<Rightarrow> ix_exn + string option \<times> int" where
  "google_parse_token loads status body =
     (if status \<noteq> 200 then Inr (None, 0)
      else (case loads body of
              None \<Rightarrow> Inr (None, 0)
            | Some (JObj data) \<Rightarrow>
                (case (case int_of_json (dget_or data ''expires_in'' (JInt 0)) of
                         Inr i \<Rightarrow> Inr i
                       | Inl OverflowError \<Rightarrow> Inl (PyError OverflowError)
                       | Inl _ \<Rightarrow> Inr 0) of
                   Inl ex \<Rightarrow> Inl ex
                 | Inr lifetime \<Rightarrow>
                     Inr (case dget data ''access_token'' of
                            JStr t \<Rightarrow> if t = [] then None else Some t | _ \<Rightarrow> None, lifetime))
            | Some _ \<Rightarrow> Inl (PyError AttributeError)))"

definition calendar_headers :: "creds option \<Rightarrow> (string \<times> string) list" where
  "calendar_headers c =
     [(''Authorization'', ''Bearer '' @ cred (case c of None \<Rightarrow> [] | Some cs \<Rightarrow> cs) ''ACCESS_TOKEN''),
      (''Accept'', ''application/json'')]"

definition calendar_path :: "string \<Rightarrow> string" where
  "calendar_path calendar_id = ''/calendar/v3/calendars/'' @ quote_all calendar_id"

text \<open>\<^verbatim>\<open>int\<close> of an infinity raises \<^verbatim>\<open>OverflowError\<close>, which the executor's \<^verbatim>\<open>except\<close> takes.\<close>

definition google_calendar_build ::
    "(rat \<Rightarrow> string) \<Rightarrow> string \<Rightarrow> dict \<Rightarrow> creds option \<Rightarrow> built" where
  "google_calendar_build fr operation params c =
     (let calendar_id = py_str fr (dget_or params ''calendar_id'' (JStr ''primary''));
          get = (\<lambda>rest. Built \<lparr>rq_method = ''GET'', rq_url = ''https://'' @ API_HOST @ calendar_path calendar_id @ rest,
                          rq_headers = calendar_headers c, rq_body = None, rq_allow_http = False\<rparr>)
      in if operation = ''list_events''
         then (case int_of_json (dget_or params ''max_results'' (JInt 10)) of
                 Inl OverflowError \<Rightarrow> BuilderRaised
               | Inl _ \<Rightarrow> get (''/events?maxResults=10&singleEvents=true&orderBy=startTime'')
               | Inr n \<Rightarrow> get (''/events?maxResults='' @ str_int (max 1 (min n 250)) @ ''&singleEvents=true&orderBy=startTime''))
         else if operation = ''get_event''
         then (case dget params ''event_id'' of
                 JStr event_id \<Rightarrow>
                   if event_id = [] then UnknownOperation
                   else get (''/events/'' @ quote_all event_id)
               | _ \<Rightarrow> UnknownOperation)
         else UnknownOperation)"

definition google_calendar :: "(rat \<Rightarrow> string) \<Rightarrow> (string \<Rightarrow> json option) \<Rightarrow> integration" where
  "google_calendar fr loads =
     \<lparr>ig_hosts = {API_HOST}, ig_secret = True, ig_build = google_calendar_build fr, ig_permit = {},
      ig_refresh = Some \<lparr>tr_hosts = {OAUTH_HOST}, tr_key = ''ACCESS_TOKEN'', tr_build = google_refresh_request,
                        tr_parse = google_parse_token loads\<rparr>\<rparr>"

section \<open>Secret ids\<close>

lemma split_char_join:
  "ws \<noteq> [] \<Longrightarrow> list_all (\<lambda>w. c \<notin> set w) ws \<Longrightarrow> split_char c (py_join [c] ws) = ws"
proof (induction "[c]" ws rule: py_join.induct)
  case (2 w)
  then show ?case
    by (induction w) auto
next
  case (3 w v ws)
  then have "split_char c (py_join [c] (v # ws)) = v # ws"
    by simp
  moreover have "split_char c (w @ c # r) = w # split_char c r" if "c \<notin> set w" for r
    using that by (induction w) auto
  ultimately show ?case
    using 3 by simp
qed simp

lemma component_no_slash: "safe_component s \<Longrightarrow> CHR ''/'' \<notin> set s"
proof -
  have n: "\<not> is_alnum (CHR ''/'')" "\<not> component_char (CHR ''/'')" "CHR ''/'' \<noteq> CHR 0x0A"
    by (simp_all add: is_alnum_def component_char_def ord_of_def)
  assume "safe_component s"
  then obtain c cs where s: "s = c # cs" "is_alnum c"
    and r: "list_all component_char cs \<or> cs \<noteq> [] \<and> last cs = CHR 0x0A \<and> list_all component_char (butlast cs)"
    by (auto simp: safe_component_def split: list.splits)
  have "set cs \<subseteq> {x. component_char x} \<union> {CHR 0x0A}"
  proof (cases "list_all component_char cs")
    case False
    then obtain ds where "cs = ds @ [CHR 0x0A]" "list_all component_char ds"
      using r by (metis append_butlast_last_id)
    then show ?thesis
      by (auto simp: list_all_iff)
  qed (auto simp: list_all_iff)
  then have "CHR ''/'' \<notin> set cs"
    using n by blast
  then show ?thesis
    using s n by auto
qed

lemma check_Inr: "check_component s = Inr x \<longleftrightarrow> x = s \<and> safe_component s"
  by (auto simp: check_component_def safe_component_def)

lemma secret_id_Inr:
  "build_secret_id e t i None p = Inr sid \<longleftrightarrow>
     safe_component p \<and> safe_component e \<and> safe_component t \<and> safe_component i \<and>
     sid = py_join ''/'' [p, e, ''integrations'', t, i]"
  by (auto simp: build_secret_id_def ebind_Inr check_Inr)

lemma secret_id_inj:
  assumes "build_secret_id e t i None p = Inr sid" and "build_secret_id e t' i' None p = Inr sid"
  shows "t = t' \<and> i = i'"
proof -
  let ?ws = "[p, e, ''integrations'', t, i]" and ?ws' = "[p, e, ''integrations'', t', i']"
  have n: "list_all (\<lambda>w. CHR ''/'' \<notin> set w) ?ws" "list_all (\<lambda>w. CHR ''/'' \<notin> set w) ?ws'"
    using assms by (simp_all add: secret_id_Inr component_no_slash)
  have "py_join ''/'' ?ws = py_join ''/'' ?ws'"
    using assms by (simp only: secret_id_Inr)
  then have "split_char (CHR ''/'') (py_join ''/'' ?ws) = split_char (CHR ''/'') (py_join ''/'' ?ws')"
    by (rule arg_cong)
  then have "?ws = ?ws'"
    using split_char_join [OF _ n(1)] split_char_join [OF _ n(2)] by (simp only: list.distinct not_False_eq_True)
  then show ?thesis by simp
qed

section \<open>Egress\<close>

text \<open>A connection the guard let through for a set of hosts.\<close>

definition guarded :: "string set \<Rightarrow> string set \<Rightarrow> bool \<Rightarrow> connection \<Rightarrow> bool" where
  "guarded hosts permit http c \<longleftrightarrow>
     cn_host c \<in> py_lower ` hosts \<and> (cn_tls_name c = Some (cn_host c) \<or> http \<and> cn_tls_name c = None) \<and>
     \<not> metadata_ip (cn_ip c) \<and> (unblocked_ip (cn_ip c) \<or> cn_host c \<in> py_lower ` permit) \<and>
     list_all (\<lambda>x. \<not> unsafe_url_char x) (cn_path c)"

definition egress_ok :: "integration \<Rightarrow> connection \<Rightarrow> bool" where
  "egress_ok spec c \<longleftrightarrow>
     (\<exists>operation params creds rq. ig_build spec operation params creds = Built rq \<and>
        guarded (ig_hosts spec) (ig_permit spec) (rq_allow_http rq) c) \<or>
     (\<exists>tr creds. ig_refresh spec = Some tr \<and> guarded (tr_hosts tr) {} (rq_allow_http (tr_build tr creds)) c)"

text \<open>What an operation adds to the log of connections.\<close>

definition adds :: "nat \<Rightarrow> (connection \<Rightarrow> bool) \<Rightarrow> ix_state \<Rightarrow> ix_state \<Rightarrow> bool" where
  "adds n p st st' \<longleftrightarrow> (\<exists>new. ix_sent st' = ix_sent st @ new \<and> length new \<le> n \<and> list_all p new)"

lemma adds_refl [simp]: "ix_sent st' = ix_sent st \<Longrightarrow> adds n p st st'"
  by (simp add: adds_def)

lemma adds_trans: "adds m p a b \<Longrightarrow> adds n p b c \<Longrightarrow> adds (m + n) p a c"
  unfolding adds_def by (elim exE conjE) (rule exI, auto)

lemma adds_mono: "adds m p a b \<Longrightarrow> m \<le> n \<Longrightarrow> (\<And>c. p c \<Longrightarrow> q c) \<Longrightarrow> adds n q a b"
  unfolding adds_def by (meson le_trans list.pred_mono_strong)

lemma send_frame:
  assumes "ix_send env hosts permit rq st = (r, st')"
  shows "ix_cache st' = ix_cache st" and "ix_tokens st' = ix_tokens st" and "adds 1 (guarded hosts permit (rq_allow_http rq)) st st'"
proof -
  let ?v = "validate_outbound_url (ix_dns env (ix_sent st)) hosts (rq_allow_http rq) permit (rq_url rq)"
  show "ix_cache st' = ix_cache st" "ix_tokens st' = ix_tokens st"
    using assms by (auto simp: ix_send_def split: sum.splits prod.splits)
  show "adds 1 (guarded hosts permit (rq_allow_http rq)) st st'"
  proof (cases ?v)
    case (Inl reason)
    then show ?thesis using assms by (simp add: ix_send_def)
  next
    case (Inr t)
    note o = validated_safe [OF Inr]
    let ?c = "connection_of t (rq_method rq) (rq_headers rq) (rq_body rq)"
    have "guarded hosts permit (rq_allow_http rq) ?c"
      using o by (auto simp: guarded_def connection_of_def)
    moreover have "ix_sent st' = ix_sent st @ [?c]"
      using assms Inr by (auto simp: ix_send_def guarded_open_def Let_def)
    ultimately show ?thesis
      by (simp add: adds_def)
  qed
qed

lemma token_frame:
  assumes "ensure_access_token env now name spec t creds st = (r, st')"
  shows "ix_cache st' = ix_cache st" and "adds 1 (egress_ok spec) st st'"
    and "\<And>k. k \<noteq> (t, name) \<Longrightarrow> ix_tokens st' k = ix_tokens st k"
proof -
  have "ix_cache st' = ix_cache st \<and> adds 1 (egress_ok spec) st st' \<and>
    (\<forall>k. k \<noteq> (t, name) \<longrightarrow> ix_tokens st' k = ix_tokens st k)"
  proof (cases "ig_refresh spec")
    case None
    then show ?thesis using assms by (simp add: ensure_access_token_def)
  next
    case (Some tr)
    obtain a st1 where a: "ix_send env (tr_hosts tr) {} (tr_build tr creds) st = (a, st1)" by fastforce
    have "adds 1 (egress_ok spec) st st1"
      by (rule adds_mono [OF send_frame(3) [OF a]]) (auto simp: egress_ok_def Some)
    moreover have "st' = st \<or> st' = st1 \<or> (\<exists>v. st' = st1\<lparr>ix_tokens := (ix_tokens st1)((t, name) \<mapsto> v)\<rparr>)"
      using assms by (auto simp: ensure_access_token_def Some a Let_def split: sum.splits option.splits prod.splits if_splits)
    ultimately show ?thesis
      using send_frame(1,2) [OF a] by (auto simp: adds_def)
  qed
  then show "ix_cache st' = ix_cache st" "adds 1 (egress_ok spec) st st'"
    "\<And>k. k \<noteq> (t, name) \<Longrightarrow> ix_tokens st' k = ix_tokens st k"
    by blast+
qed

lemma call_frame:
  assumes "ix_call env spec operation params creds st = (r, st')"
  shows "ix_cache st' = ix_cache st" and "ix_tokens st' = ix_tokens st" and "adds 1 (egress_ok spec) st st'"
proof -
  have "st' = st \<or> (\<exists>rq a. ig_build spec operation params creds = Built rq \<and>
      ix_send env (ig_hosts spec) (ig_permit spec) rq st = (a, st'))"
    using assms by (auto simp: ix_call_def split: built.splits prod.splits sum.splits)
  then have "ix_cache st' = ix_cache st \<and> ix_tokens st' = ix_tokens st \<and> adds 1 (egress_ok spec) st st'"
  proof (elim disjE exE conjE)
    fix rq a
    assume b: "ig_build spec operation params creds = Built rq"
      and s: "ix_send env (ig_hosts spec) (ig_permit spec) rq st = (a, st')"
    have "adds 1 (egress_ok spec) st st'"
      by (rule adds_mono [OF send_frame(3) [OF s]]) (use b in \<open>auto simp: egress_ok_def\<close>)
    then show ?thesis
      using send_frame(1,2) [OF s] by blast
  qed simp
  then show "ix_cache st' = ix_cache st" "ix_tokens st' = ix_tokens st" "adds 1 (egress_ok spec) st st'"
    by blast+
qed

lemma resolve_cache:
  assumes "secret_resolve re now t name cache = (r, cache')"
  shows "cache' = cache \<or> (\<exists>sid v. build_secret_id (re_env re) t name None (re_project re) = Inr sid \<and> cache' = cache(sid \<mapsto> v))"
  using assms by (auto simp: secret_resolve_def Let_def split: sum.splits option.splits prod.splits if_splits)

lemma invoke_cases:
  assumes "ix_invoke env now name operation params t st = (r, st')"
  shows "st' = st \<or>
    (\<exists>spec. map_of (ix_registry env) name = Some spec \<and>
      (\<exists>creds. ix_call env spec operation params creds st = (r, st')) \<or>
      (\<exists>re a cache. ix_secrets env = Some re \<and> secret_resolve re now t name (ix_cache st) = (a, cache) \<and>
         (st' = st\<lparr>ix_cache := cache\<rparr> \<or>
          (\<exists>spec creds b st1. map_of (ix_registry env) name = Some spec \<and>
             ensure_access_token env now name spec t creds (st\<lparr>ix_cache := cache\<rparr>) = (b, st1) \<and>
             (st' = st1 \<or> (\<exists>creds. ix_call env spec operation params creds st1 = (r, st')))))))"
proof (cases "map_of (ix_registry env) name")
  case None
  then show ?thesis using assms by (simp add: ix_invoke_def)
next
  case reg: (Some spec)
  show ?thesis
  proof (cases "ig_secret spec")
    case False
    then show ?thesis using assms reg by (auto simp: ix_invoke_def)
  next
    case sec: True
    show ?thesis
    proof (cases "ix_secrets env")
      case None
      then show ?thesis using assms reg sec by (simp add: ix_invoke_def)
    next
      case re: (Some re)
      obtain a cache where a: "secret_resolve re now t name (ix_cache st) = (a, cache)" by fastforce
      note D = assms [unfolded ix_invoke_def reg re option.case a prod.case]
      show ?thesis
      proof (cases "\<exists>creds. a = Inr (Some creds) \<and> creds \<noteq> []")
        case False
        then have "st' = st\<lparr>ix_cache := cache\<rparr>"
          using D sec by (auto simp: Let_def split: sum.splits option.splits)
        then show ?thesis using re a by blast
      next
        case True
        then obtain creds where c: "a = Inr (Some creds)" "creds \<noteq> []" by blast
        obtain b st1 where b: "ensure_access_token env now name spec t creds (st\<lparr>ix_cache := cache\<rparr>) = (b, st1)"
          by fastforce
        have "st' = st1 \<or> (\<exists>creds. ix_call env spec operation params creds st1 = (r, st'))"
          using D sec c b by (auto simp: Let_def split: sum.splits)
        then show ?thesis using re a b reg by blast
      qed
    qed
  qed
qed

lemma invoke_frame:
  assumes "ix_invoke env now name operation params t st = (r, st')"
  shows "ix_sent st' = ix_sent st \<or>
      (\<exists>spec. map_of (ix_registry env) name = Some spec \<and> adds 2 (egress_ok spec) st st')"
    and "\<And>k. k \<noteq> (t, name) \<Longrightarrow> ix_tokens st' k = ix_tokens st k"
    and "ix_cache st' = ix_cache st \<or>
      (\<exists>re sid v. ix_secrets env = Some re \<and> build_secret_id (re_env re) t name None (re_project re) = Inr sid \<and>
        ix_cache st' = (ix_cache st)(sid \<mapsto> v))"
proof -
  consider "st' = st"
    | spec creds where "map_of (ix_registry env) name = Some spec" "ix_call env spec operation params creds st = (r, st')"
    | re a cache where "ix_secrets env = Some re" "secret_resolve re now t name (ix_cache st) = (a, cache)"
        "st' = st\<lparr>ix_cache := cache\<rparr>"
    | re a cache spec creds b st1 where "ix_secrets env = Some re" "secret_resolve re now t name (ix_cache st) = (a, cache)"
        "map_of (ix_registry env) name = Some spec"
        "ensure_access_token env now name spec t creds (st\<lparr>ix_cache := cache\<rparr>) = (b, st1)"
        "st' = st1 \<or> (\<exists>creds. ix_call env spec operation params creds st1 = (r, st'))"
    using invoke_cases [OF assms] by blast
  then have "(ix_sent st' = ix_sent st \<or>
      (\<exists>spec. map_of (ix_registry env) name = Some spec \<and> adds 2 (egress_ok spec) st st')) \<and>
    (\<forall>k. k \<noteq> (t, name) \<longrightarrow> ix_tokens st' k = ix_tokens st k) \<and>
    (ix_cache st' = ix_cache st \<or>
      (\<exists>re sid v. ix_secrets env = Some re \<and> build_secret_id (re_env re) t name None (re_project re) = Inr sid \<and>
        ix_cache st' = (ix_cache st)(sid \<mapsto> v)))"
  proof cases
    case 2
    note f = call_frame [OF 2(2)]
    have "adds 2 (egress_ok spec) st st'"
      using f(3) by (rule adds_mono) simp_all
    then show ?thesis using 2(1) f(1,2) by auto
  next
    case 3
    then show ?thesis using resolve_cache [OF 3(2)] by auto
  next
    case 4
    note f = token_frame [OF 4(4)]
    have a1: "adds 1 (egress_ok spec) st st1"
      using f(2) by (simp add: adds_def)
    have "adds 1 (egress_ok spec) st1 st' \<and> ix_cache st' = ix_cache st1 \<and> ix_tokens st' = ix_tokens st1"
      using 4(5) call_frame by (metis adds_refl)
    then have "adds 2 (egress_ok spec) st st'" "ix_cache st' = cache" "ix_tokens st' = ix_tokens st1"
      using adds_trans [OF a1] f(1) by (auto simp: numeral_2_eq_2)
    then show ?thesis
      using 4(1,3) resolve_cache [OF 4(2)] f(3) by auto
  qed auto
  then show "ix_sent st' = ix_sent st \<or>
      (\<exists>spec. map_of (ix_registry env) name = Some spec \<and> adds 2 (egress_ok spec) st st')"
    "\<And>k. k \<noteq> (t, name) \<Longrightarrow> ix_tokens st' k = ix_tokens st k"
    "ix_cache st' = ix_cache st \<or>
      (\<exists>re sid v. ix_secrets env = Some re \<and> build_secret_id (re_env re) t name None (re_project re) = Inr sid \<and>
        ix_cache st' = (ix_cache st)(sid \<mapsto> v))"
    by blast+
qed

section \<open>Isolation of tenants\<close>

text \<open>Two executor states that a tenant cannot tell apart, and two worlds whose secret stores agree on the
  tenant's own secrets.\<close>

definition tenant_agree :: "secret_env \<Rightarrow> string \<Rightarrow> ix_state \<Rightarrow> ix_state \<Rightarrow> bool" where
  "tenant_agree re t a b \<longleftrightarrow>
     ix_sent a = ix_sent b \<and> (\<forall>i. ix_tokens a (t, i) = ix_tokens b (t, i)) \<and>
     (\<forall>i sid. build_secret_id (re_env re) t i None (re_project re) = Inr sid \<longrightarrow> ix_cache a sid = ix_cache b sid)"

definition fetch_agree :: "secret_env \<Rightarrow> string \<Rightarrow> (rat \<Rightarrow> string \<Rightarrow> ix_exn + string option) \<Rightarrow> bool" where
  "fetch_agree re t f \<longleftrightarrow>
     (\<forall>now i sid. build_secret_id (re_env re) t i None (re_project re) = Inr sid \<longrightarrow> f now sid = re_fetch re now sid)"

lemma send_agree:
  assumes "ix_sent a = ix_sent b"
  shows "fst (ix_send (env\<lparr>ix_secrets := x\<rparr>) hosts permit rq a) = fst (ix_send env hosts permit rq b)"
    and "ix_sent (snd (ix_send (env\<lparr>ix_secrets := x\<rparr>) hosts permit rq a)) = ix_sent (snd (ix_send env hosts permit rq b))"
  using assms by (auto simp: ix_send_def split: sum.splits prod.splits)

lemma call_agree:
  assumes "tenant_agree re t a b"
  shows "fst (ix_call (env\<lparr>ix_secrets := x\<rparr>) spec operation params creds a) = fst (ix_call env spec operation params creds b) \<and>
    tenant_agree re t (snd (ix_call (env\<lparr>ix_secrets := x\<rparr>) spec operation params creds a))
      (snd (ix_call env spec operation params creds b))"
proof (cases "ig_build spec operation params creds")
  case (Built rq)
  obtain r a1 where r: "ix_send (env\<lparr>ix_secrets := x\<rparr>) (ig_hosts spec) (ig_permit spec) rq a = (r, a1)" by fastforce
  obtain r' b1 where r': "ix_send env (ig_hosts spec) (ig_permit spec) rq b = (r', b1)" by fastforce
  have "r = r'" "ix_sent a1 = ix_sent b1"
    using send_agree [of a b x env "ig_hosts spec" "ig_permit spec" rq] assms r r' by (auto simp: tenant_agree_def)
  then show ?thesis
    using assms send_frame(1,2) [OF r] send_frame(1,2) [OF r']
    by (auto simp: ix_call_def Built r r' tenant_agree_def split: sum.splits)
qed (use assms in \<open>simp_all add: ix_call_def\<close>)

lemma resolve_agree:
  assumes "tenant_agree re t a b" and "fetch_agree re t f"
    and "secret_resolve (re\<lparr>re_fetch := f\<rparr>) now t name (ix_cache a) = (r, ca)"
    and "secret_resolve re now t name (ix_cache b) = (r', cb)"
  shows "r = r' \<and> tenant_agree re t (a\<lparr>ix_cache := ca\<rparr>) (b\<lparr>ix_cache := cb\<rparr>)"
proof (cases "build_secret_id (re_env re) t name None (re_project re)")
  case (Inl ex)
  then show ?thesis using assms by (auto simp: secret_resolve_def tenant_agree_def)
next
  case (Inr sid)
  have c: "ix_cache a sid = ix_cache b sid" and f: "f now sid = re_fetch re now sid"
    using assms(1,2) Inr by (auto simp: tenant_agree_def fetch_agree_def)
  show ?thesis
    using assms(1,3,4) c f Inr
    by (auto simp: secret_resolve_def tenant_agree_def Let_def split: option.splits prod.splits if_splits sum.splits)
qed

lemma token_agree:
  assumes "tenant_agree re t a b"
    and "ensure_access_token (env\<lparr>ix_secrets := x\<rparr>) now name spec t creds a = (r, a')"
    and "ensure_access_token env now name spec t creds b = (r', b')"
  shows "r = r' \<and> tenant_agree re t a' b'"
proof (cases "ig_refresh spec")
  case None
  then show ?thesis using assms by (auto simp: ensure_access_token_def)
next
  case (Some tr)
  have tk: "ix_tokens a (t, name) = ix_tokens b (t, name)"
    using assms(1) by (simp add: tenant_agree_def)
  obtain s a1 where s: "ix_send (env\<lparr>ix_secrets := x\<rparr>) (tr_hosts tr) {} (tr_build tr creds) a = (s, a1)" by fastforce
  obtain s' b1 where s': "ix_send env (tr_hosts tr) {} (tr_build tr creds) b = (s', b1)" by fastforce
  have e: "s = s'" "ix_sent a1 = ix_sent b1"
    using send_agree [of a b x env "tr_hosts tr" "{}" "tr_build tr creds"] assms(1) s s' by (auto simp: tenant_agree_def)
  then have ag: "tenant_agree re t a1 b1"
    using assms(1) send_frame(1,2) [OF s] send_frame(1,2) [OF s'] by (auto simp: tenant_agree_def)
  then have up: "tenant_agree re t (a1\<lparr>ix_tokens := (ix_tokens a1)((t, name) \<mapsto> v)\<rparr>)
      (b1\<lparr>ix_tokens := (ix_tokens b1)((t, name) \<mapsto> v)\<rparr>)" for v
    by (auto simp: tenant_agree_def)
  show ?thesis
    using assms ag up e
    by (auto simp: ensure_access_token_def Some tk s s' Let_def split: option.splits prod.splits if_splits sum.splits)
qed

lemma invoke_agree:
  assumes ag: "tenant_agree re t a b" and f: "fetch_agree re t f" and re: "ix_secrets env = Some re"
    and "ix_invoke (env\<lparr>ix_secrets := Some (re\<lparr>re_fetch := f\<rparr>)\<rparr>) now name operation params t a = (r, a')"
    and "ix_invoke env now name operation params t b = (r', b')"
  shows "r = r' \<and> tenant_agree re t a' b'"
proof (cases "map_of (ix_registry env) name")
  case None
  then show ?thesis using assms by (auto simp: ix_invoke_def)
next
  case reg: (Some spec)
  let ?x = "Some (re\<lparr>re_fetch := f\<rparr>)"
  obtain s ca where s: "secret_resolve (re\<lparr>re_fetch := f\<rparr>) now t name (ix_cache a) = (s, ca)" by fastforce
  obtain s' cb where s': "secret_resolve re now t name (ix_cache b) = (s', cb)" by fastforce
  from resolve_agree [OF ag f s s'] have ag1: "s = s'" "tenant_agree re t (a\<lparr>ix_cache := ca\<rparr>) (b\<lparr>ix_cache := cb\<rparr>)"
    by blast+
  have e: "ix_registry (env\<lparr>ix_secrets := ?x\<rparr>) = ix_registry env" "ix_secrets (env\<lparr>ix_secrets := ?x\<rparr>) = ?x"
    by simp_all
  note D = assms(4) [unfolded ix_invoke_def e reg option.case s prod.case]
    assms(5) [unfolded ix_invoke_def re reg option.case s' prod.case]
  show ?thesis
  proof (cases "ig_secret spec")
    case False
    then show ?thesis
      using D call_agree [OF ag, of ?x env spec operation params None] by (simp add: prod_eq_iff)
  next
    case sec: True
    show ?thesis
    proof (cases "\<exists>creds. s = Inr (Some creds) \<and> creds \<noteq> []")
      case False
      then show ?thesis
        using D sec ag1 by (auto simp: Let_def split: sum.splits option.splits)
    next
      case True
      then obtain creds where c: "s = Inr (Some creds)" "creds \<noteq> []" by blast
      obtain u a1 where u: "ensure_access_token (env\<lparr>ix_secrets := ?x\<rparr>) now name spec t creds (a\<lparr>ix_cache := ca\<rparr>) = (u, a1)"
        by fastforce
      obtain u' b1 where u': "ensure_access_token env now name spec t creds (b\<lparr>ix_cache := cb\<rparr>) = (u', b1)"
        by fastforce
      from token_agree [OF ag1(2) u u'] have ag2: "u = u'" "tenant_agree re t a1 b1"
        by blast+
      note ca = call_agree [OF ag2(2), of ?x env spec operation params]
      have A: "(case (u, a1) of (Inl ex, st) \<Rightarrow> (Inl ex, st) | (Inr (Inl err), st) \<Rightarrow> (Inr err, st)
          | (Inr (Inr creds), st) \<Rightarrow> ix_call (env\<lparr>ix_secrets := ?x\<rparr>) spec operation params (Some creds) st) = (r, a')"
        using D(1) sec c by (simp add: u)
      have B: "(case (u, b1) of (Inl ex, st) \<Rightarrow> (Inl ex, st) | (Inr (Inl err), st) \<Rightarrow> (Inr err, st)
          | (Inr (Inr creds), st) \<Rightarrow> ix_call env spec operation params (Some creds) st) = (r', b')"
        using D(2) sec c ag1(1) by (simp add: u' ag2(1))
      show ?thesis
      proof (cases u)
        case (Inl ex)
        then show ?thesis using A B ag2(2) by simp
      next
        case (Inr v)
        then show ?thesis
          using A B ag2(2) ca by (cases v) (simp, simp add: prod_eq_iff, metis)
      qed
    qed
  qed
qed

section \<open>The handler\<close>

lemma run_hub:
  "hb_limiter (snd (integrations_run ns env clock now lat nuid who name operation params st)) = rl_release (hb_limiter st)"
  "hb_ix (snd (integrations_run ns env clock now lat nuid who name operation params st)) =
     snd (ix_invoke env clock name operation params (fst who) (hb_ix st))"
  by (auto simp: integrations_run_def Let_def split: prod.splits sum.splits)

lemma invoke_response_cases:
  assumes "build_integrations_invoke_response fr ns enabled al ts switch env clock now secs lat nuid a b v st = (r, st')"
  obtains (refused) "hb_ix st' = hb_ix st" and "rl_value (hb_limiter st') = rl_value (hb_limiter st)"
  | (ran) who name operation params rl where "integrations_gate a v enabled = Inr who"
      and "integration_fields fr b = Inr (name, operation, params)" and "is_allowed al (fst who) name"
      and "tn_is_enabled ts (fst who) name switch" and "try_acquire (fst who) secs (hb_limiter st) = (True, rl)"
      and "(r, st') = integrations_run ns env clock now lat nuid who name operation params (st\<lparr>hb_limiter := rl\<rparr>)"
proof (cases "integrations_gate a v enabled")
  case (Inl e)
  then show thesis using assms refused by (simp add: build_integrations_invoke_response_def)
next
  case g: (Inr who)
  show thesis
  proof (cases "integration_fields fr b")
    case (Inl e)
    then show thesis using assms g refused by (simp add: build_integrations_invoke_response_def)
  next
    case (Inr f)
    obtain name operation params where f: "integration_fields fr b = Inr (name, operation, params)"
      using Inr by (cases f) auto
    obtain ok rl where t: "try_acquire (fst who) secs (hb_limiter st) = (ok, rl)" by fastforce
    note D = assms [unfolded build_integrations_invoke_response_def g f t sum.case prod.case Let_def]
    show thesis
    proof (cases "is_allowed al (fst who) name \<and> tn_is_enabled ts (fst who) name switch \<and> ok")
      case True
      then show thesis using ran g f t D by auto
    next
      case False
      have "\<not> ok \<Longrightarrow> rl_value rl = rl_value (hb_limiter st)"
        using try_acquire_value(1) [of "fst who" secs "hb_limiter st"] t by simp
      then show thesis
        using False D by (intro refused) (auto split: if_splits bool.splits)
    qed
  qed
qed

lemma handler_egress:
  assumes "build_integrations_invoke_response fr ns enabled al ts switch env clock now secs lat nuid a b v st = (r, st')"
  shows "\<exists>new. ix_sent (hb_ix st') = ix_sent (hb_ix st) @ new \<and> length new \<le> 2 \<and>
    (new = [] \<or>
     (\<exists>claims name operation params spec. verify_and_extract a v = Inr claims \<and> enabled \<and>
        integration_fields fr b = Inr (name, operation, params) \<and>
        is_allowed al (extract_tenant_id claims) name \<and> tn_is_enabled ts (extract_tenant_id claims) name switch \<and>
        fst (try_acquire (extract_tenant_id claims) secs (hb_limiter st)) \<and>
        map_of (ix_registry env) name = Some spec \<and> list_all (egress_ok spec) new))"
  using assms
proof (cases rule: invoke_response_cases)
  case (ran who name operation params rl)
  obtain claims where c: "verify_and_extract a v = Inr claims" "enabled" "who = owner_of claims"
    using ran(1) by (auto simp: integrations_gate_def split: sum.splits if_splits)
  obtain x ix where i: "ix_invoke env clock name operation params (fst who) (hb_ix st) = (x, ix)" by fastforce
  have ix: "hb_ix st' = ix"
    using run_hub(2) [of ns env clock now lat nuid who name operation params "st\<lparr>hb_limiter := rl\<rparr>", folded ran(6)] i
    by simp
  from invoke_frame(1) [OF i] consider "ix_sent ix = ix_sent (hb_ix st)"
    | spec where "map_of (ix_registry env) name = Some spec" "adds 2 (egress_ok spec) (hb_ix st) ix" by blast
  then show ?thesis
  proof cases
    case 2
    then obtain new where "ix_sent ix = ix_sent (hb_ix st) @ new" "length new \<le> 2" "list_all (egress_ok spec) new"
      unfolding adds_def by blast
    moreover have "fst (try_acquire (fst who) secs (hb_limiter st))"
      using ran(5) by simp
    ultimately show ?thesis
      using 2(1) ran(2-4) c unfolding ix by (auto simp: owner_of_def)
  qed (simp add: ix)
qed simp

lemma handler_slot:
  assumes "build_integrations_invoke_response fr ns enabled al ts switch env clock now secs lat nuid a b v st = (r, st')"
    and "rl_ok (hb_limiter st)"
  shows "rl_value (hb_limiter st') = rl_value (hb_limiter st)"
  using assms(1)
proof (cases rule: invoke_response_cases)
  case (ran who name operation params rl)
  have "hb_limiter st' = rl_release rl"
    using run_hub(1) [of ns env clock now lat nuid who name operation params "st\<lparr>hb_limiter := rl\<rparr>", folded ran(6)]
    by simp
  then show ?thesis
    using acquire_release_value [OF assms(2), of "fst who" secs] ran(5) by simp
qed

section \<open>The switch\<close>

datatype switch_op = Disable string string | Enable string string

fun switch_step :: "'s tenant_state \<Rightarrow> switch_op \<Rightarrow> 's \<Rightarrow> 's" where
  "switch_step ts (Disable t i) s = tn_disable ts t i s"
| "switch_step ts (Enable t i) s = tn_enable ts t i s"

text \<open>The last operation on a tenant and integration decides; none means enabled.\<close>

fun switched :: "switch_op list \<Rightarrow> string \<Rightarrow> string \<Rightarrow> bool" where
  "switched [] t i = True"
| "switched (Disable t' i' # past) t i = (if (t', i') = (t, i) then False else switched past t i)"
| "switched (Enable t' i' # past) t i = (if (t', i') = (t, i) then True else switched past t i)"

text \<open>The contract of the switch.\<close>

locale switch_contract =
  fixes ts :: "'s tenant_state"
  assumes disable: "tn_is_enabled ts t i (tn_disable ts t' i' s) = (if (t', i') = (t, i) then False else tn_is_enabled ts t i s)"
    and enable: "tn_is_enabled ts t i (tn_enable ts t' i' s) = (if (t', i') = (t, i) then True else tn_is_enabled ts t i s)"
begin

lemma switch_history:
  assumes "\<And>t i. tn_is_enabled ts t i s"
  shows "tn_is_enabled ts t i (foldr (switch_step ts) past s) = switched past t i"
  using assms by (induction past t i rule: switched.induct) (simp_all add: disable enable)

end

interpretation mem_switch: switch_contract InMemoryTenantIntegrationState
  by unfold_locales (auto simp: InMemoryTenantIntegrationState_def mem_is_enabled_def mem_disable_def mem_enable_def)

lemma find_map_row:
  "find (\<lambda>r. fst r = k) (map (\<lambda>r. if fst r = m then (fst r, b) else r) rows) =
     (if m = k then map_option (\<lambda>r. (m, b)) (find (\<lambda>r. fst r = k) rows) else find (\<lambda>r. fst r = k) rows)"
  by (induction rows) auto

lemma find_snoc: "find p (xs @ [x]) = (case find p xs of None \<Rightarrow> if p x then Some x else None | Some y \<Rightarrow> Some y)"
  by (induction xs) auto

lemma find_set_row:
  "find (\<lambda>r. fst r = k) (pg_set t i b rows) =
     (if (t, i) = k then Some ((t, i), b) else find (\<lambda>r. fst r = k) rows)"
proof (cases "list_ex (\<lambda>r. fst r = (t, i)) rows")
  case True
  then have "find (\<lambda>r. fst r = (t, i)) rows \<noteq> None"
    by (simp add: find_None_list_ex)
  then show ?thesis
    unfolding pg_set_def if_P [OF True] find_map_row by auto
next
  case False
  then have "find (\<lambda>r. fst r = (t, i)) rows = None"
    by (simp add: find_None_list_ex)
  then show ?thesis
    unfolding pg_set_def if_not_P [OF False] find_snoc by (auto split: option.splits)
qed

interpretation pg_switch: switch_contract PostgresTenantIntegrationState
  by unfold_locales (auto simp: PostgresTenantIntegrationState_def pg_is_enabled_def find_set_row split: option.splits)

section \<open>Google's hosts\<close>

lemma google_egress:
  assumes "egress_ok (google_calendar fr loads) c"
  shows "cn_host c \<in> py_lower ` {API_HOST, OAUTH_HOST} \<and> cn_tls_name c = Some (cn_host c) \<and> unblocked_ip (cn_ip c)"
proof -
  have http: "google_calendar_build fr operation params creds = Built rq \<Longrightarrow> \<not> rq_allow_http rq" for operation params creds rq
    by (auto simp: google_calendar_build_def Let_def split: if_splits sum.splits py_exn.splits json.splits)
  show ?thesis
    using assms unfolding egress_ok_def
  proof (elim disjE exE conjE)
    fix operation params creds rq
    assume "ig_build (google_calendar fr loads) operation params creds = Built rq"
      and g: "guarded (ig_hosts (google_calendar fr loads)) (ig_permit (google_calendar fr loads)) (rq_allow_http rq) c"
    then have "\<not> rq_allow_http rq"
      using http by (simp add: google_calendar_def)
    with g show ?thesis
      by (simp add: guarded_def google_calendar_def)
  next
    fix tr creds
    assume "ig_refresh (google_calendar fr loads) = Some tr"
      and "guarded (tr_hosts tr) {} (rq_allow_http (tr_build tr creds)) c"
    then show ?thesis
      by (auto simp: guarded_def google_calendar_def google_refresh_request_def)
  qed
qed


section \<open>Properties\<close>

text \<open>C3: An invoke request makes at most two connections, and none unless the caller is verified, the
  feature on, the fields valid, the integration on the tenant's allow-list, the tenant not switched
  off and a slot held; and every connection went through the guard: to an allow-listed host of
  that integration (or its token endpoint), TLS verified against that host unless the integration asks for http, at
  an address the guard holds for public (C4) unless the integration permits the host, never the metadata service.\<close>

theorem integrations_egress_gated:
  "case build_integrations_invoke_response fr ns enabled al ts switch env clock now secs lat nuid a b v st of
     (r, st') \<Rightarrow>
       \<exists>new. ix_sent (hb_ix st') = ix_sent (hb_ix st) @ new \<and> length new \<le> 2 \<and>
         (new = [] \<or>
          (\<exists>claims name operation params spec. verify_and_extract a v = Inr claims \<and> enabled \<and>
             integration_fields fr b = Inr (name, operation, params) \<and>
             is_allowed al (extract_tenant_id claims) name \<and> tn_is_enabled ts (extract_tenant_id claims) name switch \<and>
             fst (try_acquire (extract_tenant_id claims) secs (hb_limiter st)) \<and>
             map_of (ix_registry env) name = Some spec \<and> list_all (egress_ok spec) new))"
proof -
  obtain r st' where
    e: "build_integrations_invoke_response fr ns enabled al ts switch env clock now secs lat nuid a b v st = (r, st')"
    by fastforce
  show ?thesis
    unfolding e prod.case by (rule handler_egress [OF e])
qed

text \<open>An invoke request gives its slot back on every path, also when the executor raises.\<close>

theorem integrations_return_slot:
  assumes "rl_ok (hb_limiter st)"
  shows "rl_value (hb_limiter (snd (build_integrations_invoke_response fr ns enabled al ts switch env clock now secs
           lat nuid a b v st))) = rl_value (hb_limiter st)"
  using handler_slot [OF _ assms] by (metis prod.collapse)

text \<open>C18: Tenants are isolated in the executor: what an invoke answers a tenant and which connections
  it makes, headers and bodies with their credentials included, depend on no other tenant's
  secrets, cached secrets or cached tokens; and it leaves those of every other tenant as they were.\<close>

theorem integration_tenants_isolated:
  assumes "tenant_agree re t a b" and "fetch_agree re t f" and "ix_secrets env = Some re"
  shows "case ix_invoke (env\<lparr>ix_secrets := Some (re\<lparr>re_fetch := f\<rparr>)\<rparr>) now name operation params t a of (r, a') \<Rightarrow>
     case ix_invoke env now name operation params t b of (r', b') \<Rightarrow>
       r = r' \<and> ix_sent a' = ix_sent b' \<and> tenant_agree re t a' b' \<and>
       (\<forall>t2 i. t2 \<noteq> t \<longrightarrow> ix_tokens b' (t2, i) = ix_tokens b (t2, i) \<and>
          (\<forall>sid. build_secret_id (re_env re) t2 i None (re_project re) = Inr sid \<longrightarrow> ix_cache b' sid = ix_cache b sid))"
proof -
  obtain r a' where 1: "ix_invoke (env\<lparr>ix_secrets := Some (re\<lparr>re_fetch := f\<rparr>)\<rparr>) now name operation params t a = (r, a')"
    by fastforce
  obtain r' b' where 2: "ix_invoke env now name operation params t b = (r', b')" by fastforce
  note agree = invoke_agree [OF assms 1 2]
  have "ix_cache b' sid = ix_cache b sid" if "t2 \<noteq> t" "build_secret_id (re_env re) t2 i None (re_project re) = Inr sid"
    for t2 i sid
    using invoke_frame(3) [OF 2]
  proof (elim disjE exE conjE)
    fix re1 sid1 v
    assume "ix_secrets env = Some re1" and s1: "build_secret_id (re_env re1) t name None (re_project re1) = Inr sid1"
      and c: "ix_cache b' = (ix_cache b)(sid1 \<mapsto> v)"
    then have "re1 = re"
      using assms(3) by simp
    then have "sid1 \<noteq> sid"
      using secret_id_inj [OF that(2)] s1 that(1) by blast
    then show ?thesis
      by (simp add: c)
  qed simp
  moreover have "ix_tokens b' (t2, i) = ix_tokens b (t2, i)" if "t2 \<noteq> t" for t2 i
    using invoke_frame(2) [OF 2] that by simp
  moreover have "ix_sent a' = ix_sent b'"
    using agree by (simp add: tenant_agree_def)
  ultimately show ?thesis
    using agree unfolding 1 2 by simp
qed

text \<open>The Google Calendar integration talks to Google only: every connection goes to its API
  or its token endpoint, over TLS verified against that name, at an address the guard holds for public, whatever
  the operation, the parameters and the credentials are.\<close>

theorem google_calendar_confined:
  assumes "map_of (ix_registry env) name = Some (google_calendar fr loads)"
  shows "case ix_invoke env now name operation params t st of (r, st') \<Rightarrow>
     \<exists>new. ix_sent st' = ix_sent st @ new \<and>
       list_all (\<lambda>c. (cn_host c = API_HOST \<or> cn_host c = OAUTH_HOST) \<and> cn_tls_name c = Some (cn_host c) \<and>
                   unblocked_ip (cn_ip c)) new"
proof -
  obtain r st' where i: "ix_invoke env now name operation params t st = (r, st')" by fastforce
  have low: "py_lower API_HOST = API_HOST" "py_lower OAUTH_HOST = OAUTH_HOST"
    by code_simp+
  have e: "(cn_host c = API_HOST \<or> cn_host c = OAUTH_HOST) \<and> cn_tls_name c = Some (cn_host c) \<and> unblocked_ip (cn_ip c)"
    if "egress_ok (google_calendar fr loads) c" for c
    using google_egress [OF that] low by auto
  from invoke_frame(1) [OF i] assms
  consider "ix_sent st' = ix_sent st" | "adds 2 (egress_ok (google_calendar fr loads)) st st'" by auto
  then show ?thesis
  proof cases
    case 2
    then obtain new where n: "ix_sent st' = ix_sent st @ new" "list_all (egress_ok (google_calendar fr loads)) new"
      unfolding adds_def by blast
    then show ?thesis
      unfolding i using list.pred_mono_strong [OF n(2) e] by auto
  qed (simp add: i)
qed

text \<open>The two tenant switches are one: over any operations both answer that a tenant's
  integration is on unless the last operation on it disabled it.\<close>

theorem tenant_switches_agree:
  "tn_is_enabled InMemoryTenantIntegrationState t i (foldr (switch_step InMemoryTenantIntegrationState) past {}) =
     switched past t i \<and>
   tn_is_enabled PostgresTenantIntegrationState t i (foldr (switch_step PostgresTenantIntegrationState) past []) =
     switched past t i"
proof -
  have "tn_is_enabled InMemoryTenantIntegrationState t i {}" "tn_is_enabled PostgresTenantIntegrationState t i []" for t i
    by (simp_all add: InMemoryTenantIntegrationState_def PostgresTenantIntegrationState_def mem_is_enabled_def
        pg_is_enabled_def)
  then show ?thesis
    using mem_switch.switch_history [of "{}" t i past] pg_switch.switch_history [of "[]" t i past] by blast
qed

section \<open>Witnesses\<close>

definition example_secrets :: secret_env where
  "example_secrets = \<lparr>re_env = ''dev'', re_project = ''p'', re_ttl = 300, re_fetch = (\<lambda>_ _. Inr None),
                     re_loads = (\<lambda>_. None), re_repr = (\<lambda>_. [])\<rparr>"

definition example_ix :: ix_env where
  "example_ix = \<lparr>ix_registry = [(''google_calendar'', google_calendar (\<lambda>_. []) (\<lambda>_. None))],
                ix_secrets = Some example_secrets, ix_dns = (\<lambda>_. example_resolve), ix_net = (\<lambda>_ _. WireTimeout),
                ix_loads = (\<lambda>_. None)\<rparr>"

definition empty_ix :: ix_state where
  "empty_ix = \<lparr>ix_cache = Map.empty, ix_tokens = Map.empty, ix_sent = []\<rparr>"

definition example_hub :: "unit hub_state" where
  "example_hub = \<lparr>hb_limiter = rate_limiter_init 5 2, hb_audit = [], hb_notifs = (), hb_ix = empty_ix\<rparr>"

lemma integrations_return_slot_witness:
  "rl_value (hb_limiter (snd (build_integrations_invoke_response (\<lambda>_. []) None True [(''a.io'', {''google_calendar''})]
     InMemoryTenantIntegrationState {} example_ix 0 0 0 0 ''n'' (Some ''Bearer ta'')
     (Some (JObj [(''integration'', JStr ''google_calendar''), (''operation'', JStr ''list_events'')]))
     (Some two_users) example_hub))) = 2"
proof -
  have "rl_ok (hb_limiter example_hub)" "rl_value (hb_limiter example_hub) = 2"
    by (simp_all add: example_hub_def rl_ok_def rate_limiter_init_def)
  then show ?thesis
    using integrations_return_slot [of example_hub] by simp
qed

text \<open>Another tenant's token and secrets change nothing.\<close>

lemma integration_tenants_isolated_witness:
  "let a = empty_ix\<lparr>ix_tokens := [(''b.io'', ''google_calendar'') \<mapsto> (''tok'', 9)]\<rparr>;
       f = (\<lambda>_ sid. if sid = ''p/dev/integrations/b.io/google_calendar'' then Inr (Some ''s'') else Inr None)
   in fst (ix_invoke (example_ix\<lparr>ix_secrets := Some (example_secrets\<lparr>re_fetch := f\<rparr>)\<rparr>) 0 ''google_calendar''
            ''list_events'' [] ''a.io'' a) =
      fst (ix_invoke example_ix 0 ''google_calendar'' ''list_events'' [] ''a.io'' empty_ix)"
proof -
  let ?a = "empty_ix\<lparr>ix_tokens := [(''b.io'', ''google_calendar'') \<mapsto> (''tok'', 9)]\<rparr>"
  let ?f = "\<lambda>_ sid. if sid = ''p/dev/integrations/b.io/google_calendar'' then Inr (Some ''s'') else Inr None :: ix_exn + string option"
  have ne: "''b.io'' \<noteq> ''a.io''"
    by simp
  then have "tenant_agree example_secrets ''a.io'' ?a empty_ix"
    by (simp add: tenant_agree_def empty_ix_def)
  moreover have "fetch_agree example_secrets ''a.io'' ?f"
  proof -
    have b: "build_secret_id ''dev'' ''b.io'' ''google_calendar'' None ''p'' = Inr ''p/dev/integrations/b.io/google_calendar''"
      by code_simp
    have "sid \<noteq> ''p/dev/integrations/b.io/google_calendar''"
      if "build_secret_id (re_env example_secrets) ''a.io'' i None (re_project example_secrets) = Inr sid" for i sid
    proof
      assume "sid = ''p/dev/integrations/b.io/google_calendar''"
      with that have "build_secret_id ''dev'' ''a.io'' i None ''p'' = Inr ''p/dev/integrations/b.io/google_calendar''"
        by (simp only: example_secrets_def secret_env.select_convs)
      from secret_id_inj [OF this b] ne show False
        by simp
    qed
    then show ?thesis
      by (auto simp: fetch_agree_def) (simp_all add: example_secrets_def)
  qed
  moreover have "ix_secrets example_ix = Some example_secrets"
    by (simp add: example_ix_def)
  ultimately show ?thesis
    using integration_tenants_isolated [where re = example_secrets and t = "''a.io''" and a = ?a and b = empty_ix
        and f = ?f and env = example_ix and now = 0 and name = "''google_calendar''"
        and operation = "''list_events''" and params = "[]"]
    unfolding Let_def split_beta by blast
qed

lemma google_calendar_confined_witness:
  "\<exists>new. ix_sent (snd (ix_invoke example_ix 0 ''google_calendar'' ''list_events'' [] ''a.io'' empty_ix)) = new \<and>
     list_all (\<lambda>c. (cn_host c = API_HOST \<or> cn_host c = OAUTH_HOST) \<and> cn_tls_name c = Some (cn_host c) \<and>
                 unblocked_ip (cn_ip c)) new"
proof -
  have "map_of (ix_registry example_ix) ''google_calendar'' = Some (google_calendar (\<lambda>_. []) (\<lambda>_. None))"
    by (simp add: example_ix_def)
  moreover have "ix_sent empty_ix = []"
    by (simp add: empty_ix_def)
  ultimately show ?thesis
    using google_calendar_confined [of example_ix "''google_calendar''" "\<lambda>_. []" "\<lambda>_. None" empty_ix 0 "''list_events''"
        "[]" "''a.io''"]
    by (simp add: split_beta)
qed

end
