(* ===== verification/Mcp.thy ===== *)
theory Mcp
  imports AgentTools Texts
begin

text \<open>
  mcp.py and mcp_servers/stub_server.py: the registry of MCP servers, the exchange with a server
  process spawned for one call (its command, its environment with the tenant's own secret, the
  newline-delimited JSON-RPC it is sent, what it printed and how it ended), the two calls of the
  executor, the two handlers, and the stub server on the other end of the pipe.  What the operating
  system does with a process is the parameter \<open>mx_spawn\<close>, the managed secret storage the parameter
  \<open>mx_secret\<close>, \<^verbatim>\<open>json.loads\<close> of a line the parameter \<open>loads\<close>.
\<close>

section \<open>Servers and processes\<close>

record mcp_server =
  ms_command :: "string list"
  ms_secret :: "string option"

text \<open>\<^verbatim>\<open>MCP_SERVERS\<close>; \<open>exe\<close> is \<^verbatim>\<open>sys.executable\<close>.\<close>

definition MCP_SERVERS :: "string \<Rightarrow> (string \<times> mcp_server) list" where
  "MCP_SERVERS exe =
     [(''stub'', \<lparr>ms_command = [exe, ''-m'', ''app.mcp_servers.stub_server''], ms_secret = None\<rparr>)]"

definition in_MCP_SERVERS :: "string \<Rightarrow> bool" where
  "in_MCP_SERVERS server = (server \<in> fst ` set (MCP_SERVERS []))"

text \<open>What a process is started with, and how its run ended: its exit status with its output.\<close>

record spawn =
  sp_command :: "string list"
  sp_env :: "(string \<times> string) list"
  sp_input :: string

datatype mcp_process = NotSpawned | OutOfTime | ProcExit int string

record mcp_env =
  mx_servers :: "(string \<times> mcp_server) list"
  mx_secret :: "(string \<Rightarrow> string \<Rightarrow> py_exn + (string \<times> string) list option) option"
  mx_pythonpath :: string
  mx_spawn :: "spawn list \<Rightarrow> spawn \<Rightarrow> mcp_process"
  mx_loads :: "string \<Rightarrow> json option"
  mx_repr :: "rat \<Rightarrow> string"

record mcp_outcome =
  mo_class :: string
  mo_result :: json

datatype mcp_exn = MCPTimeout | MCPServerError | Raised py_exn | SpawnError

text \<open>\<^verbatim>\<open>parse_mcp_allowlist\<close> on the decoded value, as \<^const>\<open>parse_allowlist\<close>.\<close>

definition parse_mcp_allowlist :: "(rat \<Rightarrow> string) \<Rightarrow> json option \<Rightarrow> allowlist" where
  "parse_mcp_allowlist fr raw =
     (case raw of
        Some (JObj data) \<Rightarrow> allowlist_items fr data
      | _ \<Rightarrow> [])"

section \<open>The exchange\<close>

definition base_env :: "mcp_env \<Rightarrow> (string \<times> string) list" where
  "base_env env =
     [(''PATH'', ''/usr/local/bin:/usr/bin:/bin''), (''PYTHONPATH'', mx_pythonpath env),
      (''PYTHONHASHSEED'', ''0''), (''PYTHONDONTWRITEBYTECODE'', ''1''),
      (''LC_ALL'', ''C.UTF-8''), (''LANG'', ''C.UTF-8'')]"

definition child_env :: "mcp_env \<Rightarrow> mcp_server \<Rightarrow> string \<Rightarrow> py_exn + (string \<times> string) list" where
  "child_env env server_spec tenant_id =
     (case (ms_secret server_spec, mx_secret env) of
        (Some secret_key, Some resolver) \<Rightarrow>
          if secret_key = [] then Inr (base_env env)
          else ebind (resolver tenant_id secret_key) (\<lambda>scoped.
                 Inr (foldl (\<lambda>e (k, v). dset e k v) (base_env env) (case scoped of None \<Rightarrow> [] | Some c \<Rightarrow> c)))
      | _ \<Rightarrow> Inr (base_env env))"

text \<open>
  \<^verbatim>\<open>splitlines\<close>, then every line stripped, the blank ones left out.  Splitting a carriage return and a
  line feed apart adds blank lines only.
\<close>

fun split_lines :: "string \<Rightarrow> string list" where
  "split_lines [] = [[]]"
| "split_lines (c # cs) =
     (if c = CHR 0x0A \<or> c = CHR 0x0D then [] # split_lines cs
      else (case split_lines cs of [] \<Rightarrow> [[c]] | l # ls \<Rightarrow> (c # l) # ls))"

definition is_byte_space :: "char \<Rightarrow> bool" where
  "is_byte_space c = (ord_of c = 32 \<or> 9 \<le> ord_of c \<and> ord_of c \<le> 13)"

definition read_lines :: "(string \<Rightarrow> json option) \<Rightarrow> string \<Rightarrow> json list" where
  "read_lines loads out =
     List.map_filter loads (filter (\<lambda>l. l \<noteq> []) (map (strip_by is_byte_space) (split_lines out)))"

definition payload_of :: "(rat \<Rightarrow> string) \<Rightarrow> json list \<Rightarrow> string" where
  "payload_of fr requests = py_join [CHR 0x0A] (map (json_dumps fr) requests) @ [CHR 0x0A]"

definition exchange ::
    "mcp_env \<Rightarrow> mcp_server \<Rightarrow> string \<Rightarrow> json list \<Rightarrow> spawn list \<Rightarrow> (mcp_exn + json list) \<times> spawn list" where
  "exchange env server_spec tenant_id requests spawned =
     (case child_env env server_spec tenant_id of
        Inl ex \<Rightarrow> (Inl (Raised ex), spawned)
      | Inr e \<Rightarrow>
          let sp = \<lparr>sp_command = ms_command server_spec, sp_env = e, sp_input = payload_of (mx_repr env) requests\<rparr>;
              spawned' = spawned @ [sp]
          in (case mx_spawn env spawned sp of
                NotSpawned \<Rightarrow> (Inl SpawnError, spawned')
              | OutOfTime \<Rightarrow> (Inl MCPTimeout, spawned')
              | ProcExit rc out \<Rightarrow>
                  if rc \<noteq> 0 then (Inl MCPServerError, spawned')
                  else (Inr (read_lines (mx_loads env) out), spawned')))"

definition handshake :: "json list" where
  "handshake =
     [JObj [(''jsonrpc'', JStr ''2.0''), (''id'', JInt 1), (''method'', JStr ''initialize''),
        (''params'', JObj [(''protocolVersion'', JStr ''2024-11-05''), (''capabilities'', JObj []),
           (''clientInfo'', JObj [(''name'', JStr ''private-ai-workspace''), (''version'', JStr ''1'')])])],
      JObj [(''jsonrpc'', JStr ''2.0''), (''method'', JStr ''notifications/initialized'')]]"

text \<open>\<^verbatim>\<open>v == n\<close> for a decoded value: Python compares numbers of different types by value.\<close>

fun equals_int :: "json \<Rightarrow> int \<Rightarrow> bool" where
  "equals_int (JInt i) n = (i = n)"
| "equals_int (JFloat (Fin q)) n = (q = of_int n)"
| "equals_int (JBool b) n = ((if b then 1 else 0) = n)"
| "equals_int _ n = False"

fun mcp_find :: "json list \<Rightarrow> int \<Rightarrow> py_exn + dict option" where
  "mcp_find [] rid = Inr None"
| "mcp_find (JObj r # rs) rid = (if equals_int (dget r ''id'') rid then Inr (Some r) else mcp_find rs rid)"
| "mcp_find (_ # rs) rid = Inl AttributeError"

definition mcp_fail :: "string \<Rightarrow> mcp_outcome" where
  "mcp_fail rc = \<lparr>mo_class = rc, mo_result = JNull\<rparr>"

definition success :: "json \<Rightarrow> mcp_outcome" where
  "success v = \<lparr>mo_class = ''success'', mo_result = v\<rparr>"

text \<open>What the two calls make of the replies; an \<^verbatim>\<open>AttributeError\<close> here is outside their \<^verbatim>\<open>try\<close>.\<close>

definition read_tools :: "json list \<Rightarrow> py_exn + mcp_outcome" where
  "read_tools responses =
     ebind (mcp_find responses 2) (\<lambda>resp.
     case resp of
       None \<Rightarrow> Inr (mcp_fail ''server_error'')
     | Some r \<Rightarrow>
         if \<not> dhas r ''result'' then Inr (mcp_fail ''server_error'')
         else ebind (jget (dget r ''result'') ''tools'' (JArr [])) (\<lambda>tools.
                Inr (success (JObj [(''tools'', tools)]))))"

definition read_call :: "json list \<Rightarrow> py_exn + mcp_outcome" where
  "read_call responses =
     ebind (mcp_find responses 2) (\<lambda>resp.
     case resp of
       None \<Rightarrow> Inr (mcp_fail ''server_error'')
     | Some r \<Rightarrow>
         if dhas r ''error''
         then ebind (jget (dget r ''error'') ''code'' JNull) (\<lambda>code.
                Inr (mcp_fail (if equals_int code (- 32601) then ''unknown_tool'' else ''server_error'')))
         else Inr (success (jor (dget r ''result'') (JObj []))))"

definition list_request :: json where
  "list_request = JObj [(''jsonrpc'', JStr ''2.0''), (''id'', JInt 2), (''method'', JStr ''tools/list'')]"

definition call_request :: "string \<Rightarrow> dict \<Rightarrow> json" where
  "call_request tool arguments =
     JObj [(''jsonrpc'', JStr ''2.0''), (''id'', JInt 2), (''method'', JStr ''tools/call''),
           (''params'', JObj [(''name'', JStr tool), (''arguments'', JObj arguments)])]"

definition list_tools :: "mcp_env \<Rightarrow> string \<Rightarrow> string \<Rightarrow> spawn list \<Rightarrow> (py_exn + mcp_outcome) \<times> spawn list" where
  "list_tools env server tenant_id spawned =
     (case map_of (mx_servers env) server of
        None \<Rightarrow> (Inr (mcp_fail ''unknown_tool''), spawned)
      | Some spec \<Rightarrow>
          (case exchange env spec tenant_id (handshake @ [list_request]) spawned of
             (Inl MCPTimeout, spawned) \<Rightarrow> (Inr (mcp_fail ''server_timeout''), spawned)
           | (Inl _, spawned) \<Rightarrow> (Inr (mcp_fail ''server_error''), spawned)
           | (Inr responses, spawned) \<Rightarrow> (read_tools responses, spawned)))"

definition call_tool ::
    "mcp_env \<Rightarrow> string \<Rightarrow> string \<Rightarrow> dict \<Rightarrow> string \<Rightarrow> spawn list \<Rightarrow> (py_exn + mcp_outcome) \<times> spawn list" where
  "call_tool env server tool arguments tenant_id spawned =
     (case map_of (mx_servers env) server of
        None \<Rightarrow> (Inr (mcp_fail ''unknown_tool''), spawned)
      | Some spec \<Rightarrow>
          (case exchange env spec tenant_id (handshake @ [call_request tool arguments]) spawned of
             (Inl MCPTimeout, spawned) \<Rightarrow> (Inr (mcp_fail ''server_timeout''), spawned)
           | (Inl _, spawned) \<Rightarrow> (Inr (mcp_fail ''server_error''), spawned)
           | (Inr responses, spawned) \<Rightarrow> (read_call responses, spawned)))"

section \<open>The handlers\<close>

record 'n mcp_state =
  mc_limiter :: rate_limiter
  mc_audit :: "audit_entry list"
  mc_notifs :: 'n
  mc_spawned :: "spawn list"

definition mcp_gate :: "string option \<Rightarrow> verifier option \<Rightarrow> bool \<Rightarrow> reply + owner" where
  "mcp_gate authorization token_verifier enabled =
     (case verify_and_extract authorization token_verifier of
        Inl err \<Rightarrow> Inl err
      | Inr claims \<Rightarrow>
          if \<not> enabled
          then Inl (HTTP_UNAVAILABLE, err_degraded ''mcp_disabled'' ''MCP integrations are disabled on this instance.'')
          else Inr (owner_of claims))"

definition server_field :: "json option \<Rightarrow> reply + string" where
  "server_field body =
     (case body of
        None \<Rightarrow> Inl (HTTP_BAD_REQUEST, err_only ''bad_request'')
      | Some data \<Rightarrow>
          (case (case data of JObj d \<Rightarrow> dget d ''server'' | _ \<Rightarrow> JNull) of
             JStr server \<Rightarrow>
               if server = [] then Inl (bad_request (quoted ''server'' @ '' is required.'')) else Inr server
           | _ \<Rightarrow> Inl (bad_request (quoted ''server'' @ '' is required.''))))"

definition build_mcp_list_response ::
    "bool \<Rightarrow> allowlist \<Rightarrow> mcp_env \<Rightarrow> string option \<Rightarrow> json option \<Rightarrow> verifier option \<Rightarrow> 'n mcp_state
       \<Rightarrow> (py_exn + reply) \<times> 'n mcp_state" where
  "build_mcp_list_response enabled al env authorization body token_verifier st =
     (case mcp_gate authorization token_verifier enabled of
        Inl err \<Rightarrow> (Inr err, st)
      | Inr who \<Rightarrow>
          (case server_field body of
             Inl err \<Rightarrow> (Inr err, st)
           | Inr server \<Rightarrow>
               if \<not> is_allowed al (fst who) server \<or> \<not> in_MCP_SERVERS server
               then (Inr (HTTP_FORBIDDEN, err_only ''server_not_allowed''),
                     st\<lparr>mc_audit := audit who (''mcp:'' @ server) [] ''denied'' None None None (mc_audit st)\<rparr>)
               else (case list_tools env server (fst who) (mc_spawned st) of
                       (r, spawned) \<Rightarrow>
                         (ebind r (\<lambda>outcome.
                            if mo_class outcome \<noteq> ''success''
                            then Inr (HTTP_BAD_GATEWAY, err_degraded0 ''mcp_error'')
                            else ebind (jget (mo_result outcome) ''tools'' JNull) (\<lambda>tools.
                                   Inr (HTTP_OK, JObj [(''server'', JStr server), (''tools'', tools)]))),
                          st\<lparr>mc_spawned := spawned\<rparr>))))"

definition MCP_MAX_ARGS_BYTES :: nat where "MCP_MAX_ARGS_BYTES = 100000"

definition mcp_fields :: "(rat \<Rightarrow> string) \<Rightarrow> json option \<Rightarrow> reply + string \<times> string \<times> dict" where
  "mcp_fields fr body =
     (case body of
        Some (JObj data) \<Rightarrow>
          (case dget data ''server'' of
             JStr server \<Rightarrow>
               if server = [] then Inl (bad_request (quoted ''server'' @ '' is required.''))
               else (case dget data ''tool'' of
                       JStr tool \<Rightarrow>
                         if tool = [] then Inl (bad_request (quoted ''tool'' @ '' is required.''))
                         else (case dget_or data ''arguments'' (JObj []) of
                                 JObj arguments \<Rightarrow>
                                   if MCP_MAX_ARGS_BYTES < length (json_dumps fr (JObj arguments))
                                   then Inl (HTTP_TOO_LARGE, err_only ''payload_too_large'')
                                   else Inr (server, tool, arguments)
                               | _ \<Rightarrow> Inl (bad_request (quoted ''arguments'' @ '' must be an object.'')))
                     | _ \<Rightarrow> Inl (bad_request (quoted ''tool'' @ '' is required.'')))
           | _ \<Rightarrow> Inl (bad_request (quoted ''server'' @ '' is required.'')))
      | _ \<Rightarrow> Inl (HTTP_BAD_REQUEST, err_only ''bad_request''))"

definition mcp_label :: "string \<Rightarrow> string \<Rightarrow> string" where
  "mcp_label server tool = ''mcp:'' @ server @ ''/'' @ tool"

definition mcp_reply :: "string \<Rightarrow> string \<Rightarrow> mcp_outcome \<Rightarrow> reply" where
  "mcp_reply server tool outcome =
     (let rc = mo_class outcome in
      if rc = ''success''
      then (HTTP_OK, JObj [(''server'', JStr server), (''tool'', JStr tool), (''result'', mo_result outcome)])
      else if rc = ''unknown_tool'' then (HTTP_NOT_FOUND, err_only ''unknown_tool'')
      else if rc = ''server_timeout'' then (HTTP_TIMEOUT, err_degraded0 ''mcp_timeout'')
      else (HTTP_BAD_GATEWAY, err_degraded0 ''mcp_error''))"

text \<open>What runs once a slot is held; the slot comes back also when the call raises.\<close>

definition mcp_run ::
    "'n notif_store option \<Rightarrow> mcp_env \<Rightarrow> datetime \<Rightarrow> int \<Rightarrow> string \<Rightarrow> owner \<Rightarrow> string \<Rightarrow> string \<Rightarrow> dict
       \<Rightarrow> 'n mcp_state \<Rightarrow> (py_exn + reply) \<times> 'n mcp_state" where
  "mcp_run notification_store env now latency_ms nuid who server tool arguments st =
     (case call_tool env server tool arguments (fst who) (mc_spawned st) of
        (r, spawned) \<Rightarrow>
          (let st = st\<lparr>mc_spawned := spawned, mc_limiter := rl_release (mc_limiter st)\<rparr> in
           case r of
             Inl ex \<Rightarrow> (Inl ex, st)
           | Inr outcome \<Rightarrow>
               let event = (if mo_class outcome = ''success'' then ''agent_task_completed'' else ''agent_task_failed'') in
               (Inr (mcp_reply server tool outcome),
                st\<lparr>mc_audit := audit who (mcp_label server tool) (json_args arguments) ''allowed''
                      (Some (mo_class outcome)) (Some latency_ms) None (mc_audit st),
                   mc_notifs := emit_event notification_store who event (''mcp:'' @ server) nuid now (mc_notifs st)\<rparr>)))"

definition build_mcp_invoke_response ::
    "(rat \<Rightarrow> string) \<Rightarrow> 'n notif_store option \<Rightarrow> bool \<Rightarrow> allowlist \<Rightarrow> mcp_env \<Rightarrow> datetime \<Rightarrow> int \<Rightarrow> int \<Rightarrow> string
       \<Rightarrow> string option \<Rightarrow> json option \<Rightarrow> verifier option \<Rightarrow> 'n mcp_state \<Rightarrow> (py_exn + reply) \<times> 'n mcp_state" where
  "build_mcp_invoke_response fr notification_store enabled al env now secs latency_ms nuid
       authorization body token_verifier st =
     (case mcp_gate authorization token_verifier enabled of
        Inl err \<Rightarrow> (Inr err, st)
      | Inr who \<Rightarrow>
          (case mcp_fields fr body of
             Inl err \<Rightarrow> (Inr err, st)
           | Inr (server, tool, arguments) \<Rightarrow>
               let refuse = (\<lambda>decision. audit who (mcp_label server tool) (json_args arguments) decision
                                          None None None (mc_audit st))
               in
               if \<not> is_allowed al (fst who) server \<or> \<not> in_MCP_SERVERS server
               then (Inr (HTTP_FORBIDDEN, err_only ''server_not_allowed''), st\<lparr>mc_audit := refuse ''denied''\<rparr>)
               else (case try_acquire (fst who) secs (mc_limiter st) of
                       (False, rl) \<Rightarrow>
                         (Inr (HTTP_TOO_MANY, err_only ''rate_limited''),
                          st\<lparr>mc_limiter := rl, mc_audit := refuse ''rate_limited''\<rparr>)
                     | (True, rl) \<Rightarrow>
                         mcp_run notification_store env now latency_ms nuid who server tool arguments
                           (st\<lparr>mc_limiter := rl\<rparr>))))"

section \<open>The stub server\<close>

definition stub_tools :: json where
  "stub_tools =
     JArr [JObj [(''name'', JStr ''echo''), (''description'', JStr ''Echo back the provided message.''),
       (''inputSchema'', JObj [(''type'', JStr ''object''),
          (''properties'', JObj [(''message'', JObj [(''type'', JStr ''string'')])]),
          (''required'', JArr [JStr ''message''])])]]"

definition rpc_result :: "json \<Rightarrow> json \<Rightarrow> json" where
  "rpc_result rid result = JObj [(''jsonrpc'', JStr ''2.0''), (''id'', rid), (''result'', result)]"

definition rpc_error :: "json \<Rightarrow> int \<Rightarrow> string \<Rightarrow> json" where
  "rpc_error rid code message =
     JObj [(''jsonrpc'', JStr ''2.0''), (''id'', rid),
           (''error'', JObj [(''code'', JInt code), (''message'', JStr message)])]"

definition echo_result :: "string \<Rightarrow> json" where
  "echo_result message =
     JObj [(''content'', JArr [JObj [(''type'', JStr ''text''), (''text'', JStr message)]]), (''isError'', JBool False)]"

definition stub_handle :: "json \<Rightarrow> py_exn + json option" where
  "stub_handle request =
     ebind (jget request ''method'' JNull) (\<lambda>meth.
     ebind (jget request ''id'' JNull) (\<lambda>rid.
     ebind (jget request ''params'' JNull) (\<lambda>p.
     let params = jor p (JObj []) in
     if meth = JStr ''initialize''
     then Inr (Some (rpc_result rid
            (JObj [(''protocolVersion'', JStr ''2024-11-05''), (''capabilities'', JObj [(''tools'', JObj [])]),
                   (''serverInfo'', JObj [(''name'', JStr ''stub-mcp''), (''version'', JStr ''0.1.0'')])])))
     else if meth = JStr ''tools/list'' then Inr (Some (rpc_result rid (JObj [(''tools'', stub_tools)])))
     else if meth = JStr ''tools/call''
     then ebind (jget params ''name'' JNull) (\<lambda>name.
          ebind (jget params ''arguments'' JNull) (\<lambda>a.
          let arguments = jor a (JObj []) in
          if name = JStr ''echo''
          then ebind (jget arguments ''message'' JNull) (\<lambda>message.
                 case message of
                   JStr m \<Rightarrow> Inr (Some (rpc_result rid (echo_result m)))
                 | _ \<Rightarrow> Inr (Some (rpc_error rid (- 32602) (quoted ''message'' @ '' must be a string''))))
          else Inr (Some (rpc_error rid (- 32601) ''unknown tool''))))
     else if rid = JNull then Inr None
     else Inr (Some (rpc_error rid (- 32601) ''method not found'')))))"

text \<open>\<^verbatim>\<open>main\<close> over the lines of its input: the exit status and what was printed by then.\<close>

fun stub_lines :: "(string \<Rightarrow> json option) \<Rightarrow> (rat \<Rightarrow> string) \<Rightarrow> string list \<Rightarrow> int \<times> string" where
  "stub_lines loads fr [] = (0, [])"
| "stub_lines loads fr (line # lines) =
     (let line = py_strip line;
          printing = (\<lambda>v. case stub_lines loads fr lines of (rc, out) \<Rightarrow> (rc, json_dumps fr v @ [CHR 0x0A] @ out))
      in if line = [] then stub_lines loads fr lines
         else (case loads line of
                 None \<Rightarrow> printing (rpc_error JNull (- 32700) ''parse error'')
               | Some request \<Rightarrow>
                   (case stub_handle request of
                      Inl ex \<Rightarrow> (1, [])
                    | Inr None \<Rightarrow> stub_lines loads fr lines
                    | Inr (Some response) \<Rightarrow> printing response)))"

definition stub_main :: "(string \<Rightarrow> json option) \<Rightarrow> (rat \<Rightarrow> string) \<Rightarrow> string \<Rightarrow> int \<times> string" where
  "stub_main loads fr input = stub_lines loads fr (split_lines input)"

section \<open>Lines of JSON\<close>

text \<open>What \<^verbatim>\<open>json.dumps\<close> prints is printable ASCII, so an object is one line of its own.\<close>

definition printable :: "string \<Rightarrow> bool" where
  "printable s \<longleftrightarrow> list_all (\<lambda>c. 32 \<le> ord_of c \<and> ord_of c < 127) s"

lemma printable_append [simp]: "printable (s @ t) \<longleftrightarrow> printable s \<and> printable t"
  by (simp add: printable_def)

lemma printable_Cons [simp]: "printable (c # s) \<longleftrightarrow> 32 \<le> ord_of c \<and> ord_of c < 127 \<and> printable s"
  by (simp add: printable_def)

lemma printable_Nil [simp]: "printable []"
  by (simp add: printable_def)

lemma ord_of_char_of [simp]: "n < 256 \<Longrightarrow> ord_of (char_of n) = n"
  by (simp add: ord_of_def)

lemma printable_hex: "n < 16 \<Longrightarrow> printable [hex_digit n]"
  by (simp add: hex_digit_def)

lemma printable_dumps_char: "printable (dumps_char c)"
proof -
  have "ord_of c < 16 * 16"
    by (simp add: ord_of_def)
  then have "ord_of c div 16 < 16" "ord_of c mod 16 < 16"
    by (rule less_mult_imp_div_less) simp
  then have "printable [hex_digit (ord_of c div 16)]" "printable [hex_digit (ord_of c mod 16)]"
    using printable_hex by blast+
  moreover have "printable [h] \<Longrightarrow> printable [k] \<Longrightarrow> printable (char_of (92::nat) # ''u00'' @ [h, k])" for h k
    by (simp add: ord_of_def)
  ultimately have hex:
    "printable (char_of (92::nat) # ''u00'' @ [hex_digit (ord_of c div 16), hex_digit (ord_of c mod 16)])"
    by blast
  have esc: "printable [char_of (92::nat), char_of (34::nat)]" "printable [char_of (92::nat), char_of (92::nat)]"
    "printable (char_of (92::nat) # ''n'')" "printable (char_of (92::nat) # ''r'')" "printable (char_of (92::nat) # ''t'')"
    "printable (char_of (92::nat) # ''f'')" "printable (char_of (92::nat) # ''b'')"
    by (simp_all add: ord_of_def)
  have same: "32 \<le> ord_of c \<and> ord_of c < 127 \<Longrightarrow> printable [c]"
    by simp
  show ?thesis
    unfolding dumps_char_def Let_def
    by (simp only: hex esc same split: if_split) simp
qed

lemma printable_dumps_str: "printable (dumps_str s)"
proof -
  have "printable (concat (map dumps_char s))"
    by (induction s) (simp_all add: printable_dumps_char)
  then show ?thesis
    by (simp add: dumps_str_def)
qed

lemma printable_str_nat: "printable (str_nat n)"
proof (induction n rule: str_nat.induct)
  case (1 n)
  moreover have "n mod 10 < 10"
    by simp
  then have "n mod 10 < 79"
    by linarith
  ultimately show ?case
    by (subst str_nat.simps) simp
qed

lemma printable_join: "printable sep \<Longrightarrow> list_all printable ws \<Longrightarrow> printable (py_join sep ws)"
  by (induction sep ws rule: py_join.induct) simp_all

lemma printable_dumps:
  assumes "\<And>q. printable (fr q)"
  shows "printable (json_dumps fr v)"
proof (induction v)
  case (JFloat f)
  show ?case
    using assms by (cases f) (simp_all add: ord_of_def)
next
  case (JArr xs)
  then show ?case
    by (simp add: ord_of_def printable_join list_all_iff)
next
  case (JObj d)
  have "list_all printable (map (\<lambda>(k, v). dumps_str k @ '': '' @ json_dumps fr v) d)"
    using JObj by (fastforce simp: list_all_iff printable_dumps_str ord_of_def)
  then show ?case
    by (simp add: ord_of_def printable_join)
qed (simp_all add: printable_dumps_str str_int_def printable_str_nat ord_of_def)

lemma split_lines_nonempty [simp]: "split_lines s \<noteq> []"
  by (cases s) (auto split: list.split)

lemma split_lines_line:
  assumes "printable l"
  shows "split_lines (l @ CHR 0x0A # s) = l # split_lines s"
  using assms
proof (induction l)
  case (Cons c l)
  then have "c \<noteq> CHR 0x0A" "c \<noteq> CHR 0x0D"
    by (auto simp: ord_of_def)
  with Cons show ?case
    by simp
qed simp

text \<open>A text of lines.\<close>

definition text_of :: "(rat \<Rightarrow> string) \<Rightarrow> json list \<Rightarrow> string" where
  "text_of fr vs = concat (map (\<lambda>v. json_dumps fr v @ [CHR 0x0A]) vs)"

lemma payload_text: "vs \<noteq> [] \<Longrightarrow> payload_of fr vs = text_of fr vs"
proof (induction vs)
  case (Cons v vs)
  then show ?case
    by (cases vs) (auto simp: payload_of_def text_of_def)
qed simp

definition is_obj :: "json \<Rightarrow> bool" where
  "is_obj v = (case v of JObj _ \<Rightarrow> True | _ \<Rightarrow> False)"

lemma strip_obj:
  assumes "is_obj v" and "\<not> p (CHR 0x7B)" and "\<not> p (CHR 0x7D)"
  shows "py_rstrip_by p (dropWhile p (json_dumps fr v)) = json_dumps fr v"
proof -
  obtain d where v: "v = JObj d"
    using assms(1) by (auto simp: is_obj_def split: json.splits)
  show ?thesis
    using assms(2,3) by (simp add: v py_rstrip_by_def)
qed

lemma split_text:
  assumes "\<And>q. printable (fr q)"
  shows "split_lines (text_of fr vs) = map (json_dumps fr) vs @ [[]]"
  by (induction vs) (simp_all add: text_of_def split_lines_line printable_dumps [OF assms])

lemma read_text:
  assumes "\<And>q. printable (fr q)" and "\<forall>v \<in> set vs. is_obj v \<and> loads (json_dumps fr v) = Some v"
  shows "read_lines loads (text_of fr vs) = vs"
proof -
  have strip: "strip_by is_byte_space (json_dumps fr v) = json_dumps fr v" "json_dumps fr v \<noteq> []" if "v \<in> set vs" for v
  proof -
    have v: "is_obj v" using that assms(2) by blast
    show "strip_by is_byte_space (json_dumps fr v) = json_dumps fr v"
      unfolding strip_by_def by (rule strip_obj [OF v]) (simp_all add: is_byte_space_def ord_of_def)
    show "json_dumps fr v \<noteq> []"
      using v by (auto simp: is_obj_def split: json.splits)
  qed
  have "map (strip_by is_byte_space) (map (json_dumps fr) vs @ [[]]) = map (json_dumps fr) vs @ [[]]"
    using strip(1) by (simp add: strip_by_def py_rstrip_by_def)
  moreover have "filter (\<lambda>l. l \<noteq> []) (map (json_dumps fr) vs @ [[]]) = map (json_dumps fr) vs"
    using strip(2) by (auto intro!: filter_True)
  moreover have "List.map_filter loads (map (json_dumps fr) vs) = vs"
    using assms(2) by (induction vs) (auto simp: List.map_filter_simps)
  ultimately show ?thesis
    unfolding read_lines_def split_text [OF assms(1)] by (simp only:)
qed

text \<open>The stub over printed requests that it does not raise on.\<close>

fun stub_replies :: "json list \<Rightarrow> json list" where
  "stub_replies [] = []"
| "stub_replies (v # vs) =
     (case stub_handle v of Inr (Some r) \<Rightarrow> r # stub_replies vs | _ \<Rightarrow> stub_replies vs)"

lemma stub_lines_text:
  assumes "\<forall>v \<in> set vs. is_obj v \<and> loads (json_dumps fr v) = Some v \<and> (\<exists>r. stub_handle v = Inr r)"
  shows "stub_lines loads fr (map (json_dumps fr) vs @ [[]]) = (0, text_of fr (stub_replies vs))"
  using assms
proof (induction vs)
  case Nil
  then show ?case
    by (simp add: text_of_def py_strip_def py_lstrip_def py_rstrip_by_def)
next
  case (Cons v vs)
  have v: "is_obj v" "loads (json_dumps fr v) = Some v" using Cons.prems by simp_all
  obtain r where r: "stub_handle v = Inr r" using Cons.prems by auto
  have strip: "py_strip (json_dumps fr v) = json_dumps fr v"
    unfolding py_strip_def py_lstrip_def
    by (rule strip_obj [OF v(1)]) (simp_all add: is_space_def Let_def ord_of_def)
  have ne: "json_dumps fr v \<noteq> []"
    using v(1) by (auto simp: is_obj_def split: json.splits)
  have IH: "stub_lines loads fr (map (json_dumps fr) vs @ [[]]) = (0, text_of fr (stub_replies vs))"
    using Cons by simp
  show ?case
    by (cases r) (simp_all add: Let_def strip ne v(2) r IH text_of_def)
qed

lemma stub_main_text:
  assumes "\<And>q. printable (fr q)"
    and "\<forall>v \<in> set vs. is_obj v \<and> loads (json_dumps fr v) = Some v \<and> (\<exists>r. stub_handle v = Inr r)"
  shows "stub_main loads fr (text_of fr vs) = (0, text_of fr (stub_replies vs))"
  unfolding stub_main_def split_text [OF assms(1)] by (rule stub_lines_text [OF assms(2)])

section \<open>The processes started\<close>

text \<open>A process of a server for a tenant: its command, and nothing in its environment but the fixed
  variables and that tenant's own secret of that server.\<close>

definition spawn_scoped :: "mcp_env \<Rightarrow> mcp_server \<Rightarrow> string \<Rightarrow> spawn \<Rightarrow> bool" where
  "spawn_scoped env spec tenant sp \<longleftrightarrow>
     sp_command sp = ms_command spec \<and>
     (\<forall>kv \<in> set (sp_env sp). kv \<in> set (base_env env) \<or>
        (\<exists>key r c. ms_secret spec = Some key \<and> mx_secret env = Some r \<and> r tenant key = Inr (Some c) \<and> kv \<in> set c))"

lemma dset_entries: "set (dset d k v) \<subseteq> insert (k, v) (set d)"
  by (induction d k v rule: dset.induct) auto

lemma set_env_update: "set (foldl (\<lambda>e (k, v). dset e k v) e0 c) \<subseteq> set e0 \<union> set c"
proof (induction c arbitrary: e0)
  case (Cons kv c)
  obtain k v where kv: "kv = (k, v)" by fastforce
  show ?case
    using Cons [of "dset e0 k v"] dset_entries [of e0 k v] by (auto simp: kv)
qed simp

lemma child_env_scoped:
  assumes "child_env env spec tenant = Inr e"
  shows "spawn_scoped env spec tenant \<lparr>sp_command = ms_command spec, sp_env = e, sp_input = i\<rparr>"
proof -
  consider "e = base_env env"
    | key r x where "ms_secret spec = Some key" "mx_secret env = Some r" "r tenant key = Inr x"
        "e = foldl (\<lambda>e (k, v). dset e k v) (base_env env) (case x of None \<Rightarrow> [] | Some c \<Rightarrow> c)"
    using assms by (auto simp: child_env_def ebind_Inr split: option.splits if_splits)
  then show ?thesis
  proof cases
    case 2
    show ?thesis
      using 2 set_env_update [of "base_env env" "case x of None \<Rightarrow> [] | Some c \<Rightarrow> c"]
      by (cases x) (auto simp: spawn_scoped_def)
  qed (simp add: spawn_scoped_def)
qed

text \<open>One call starts at most one process, to which it sends its requests.\<close>

definition starts :: "mcp_env \<Rightarrow> mcp_server \<Rightarrow> string \<Rightarrow> json list \<Rightarrow> spawn list \<Rightarrow> spawn list \<Rightarrow> bool" where
  "starts env spec tenant requests past past' \<longleftrightarrow>
     past' = past \<or> (\<exists>sp. past' = past @ [sp] \<and> spawn_scoped env spec tenant sp \<and>
                         sp_input sp = payload_of (mx_repr env) requests)"

lemma exchange_starts:
  "exchange env spec tenant requests past = (r, past') \<Longrightarrow> starts env spec tenant requests past past'"
  using child_env_scoped [of env spec tenant]
  by (auto simp: exchange_def starts_def Let_def split: sum.splits mcp_process.splits if_splits)

lemma list_tools_starts:
  "list_tools env server tenant past = (r, past') \<Longrightarrow>
     past' = past \<or> (\<exists>spec. map_of (mx_servers env) server = Some spec \<and>
                     starts env spec tenant (handshake @ [list_request]) past past')"
  using exchange_starts [of env _ tenant "handshake @ [list_request]" past]
  by (auto simp: list_tools_def split: option.splits prod.splits sum.splits mcp_exn.splits)

lemma call_tool_starts:
  "call_tool env server tool args tenant past = (r, past') \<Longrightarrow>
     past' = past \<or> (\<exists>spec. map_of (mx_servers env) server = Some spec \<and>
                     starts env spec tenant (handshake @ [call_request tool args]) past past')"
  using exchange_starts [of env _ tenant "handshake @ [call_request tool args]" past]
  by (auto simp: call_tool_def split: option.splits prod.splits sum.splits mcp_exn.splits)

text \<open>A call that is answered leaves one entry under its caller; one that raises leaves none.\<close>

definition call_audited ::
    "py_exn + reply \<Rightarrow> owner \<Rightarrow> string \<Rightarrow> string \<Rightarrow> dict \<Rightarrow> int \<Rightarrow> audit_entry list \<Rightarrow> audit_entry list \<Rightarrow> bool" where
  "call_audited r who server tool args latency_ms before after \<longleftrightarrow>
     (case r of
        Inl ex \<Rightarrow> after = before
      | Inr p \<Rightarrow> \<exists>rc. after = audit who (mcp_label server tool) (json_args args) ''allowed'' (Some rc)
                          (Some latency_ms) None before)"

lemma mcp_run_frame:
  assumes "(r, st') = mcp_run ns env now lat nuid who server tool args st"
  shows "mc_spawned st' = snd (call_tool env server tool args (fst who) (mc_spawned st))"
    and "mc_limiter st' = rl_release (mc_limiter st)"
    and "call_audited r who server tool args lat (mc_audit st) (mc_audit st')"
  using assms by (auto simp: mcp_run_def call_audited_def Let_def split: prod.splits sum.splits)

lemma mcp_gate_Inr:
  "mcp_gate a v enabled = Inr who \<longleftrightarrow> enabled \<and> (\<exists>claims. verify_and_extract a v = Inr claims \<and> who = owner_of claims)"
  by (auto simp: mcp_gate_def split: sum.splits)

lemma mcp_invoke_cases:
  assumes "build_mcp_invoke_response fr ns enabled al env now secs lat nuid a b v st = (r, st')"
  obtains (refused) "mc_spawned st' = mc_spawned st" and "rl_value (mc_limiter st') = rl_value (mc_limiter st)"
  | (ran) who server tool args rl where "mcp_gate a v enabled = Inr who"
      and "mcp_fields fr b = Inr (server, tool, args)" and "is_allowed al (fst who) server"
      and "in_MCP_SERVERS server" and "try_acquire (fst who) secs (mc_limiter st) = (True, rl)"
      and "(r, st') = mcp_run ns env now lat nuid who server tool args (st\<lparr>mc_limiter := rl\<rparr>)"
proof (cases "mcp_gate a v enabled")
  case (Inl e)
  then show thesis using assms refused by (simp add: build_mcp_invoke_response_def)
next
  case g: (Inr who)
  show thesis
  proof (cases "mcp_fields fr b")
    case (Inl e)
    then show thesis using assms g refused by (simp add: build_mcp_invoke_response_def)
  next
    case (Inr f)
    obtain server tool args where f: "mcp_fields fr b = Inr (server, tool, args)"
      using Inr by (cases f) auto
    obtain ok rl where t: "try_acquire (fst who) secs (mc_limiter st) = (ok, rl)" by fastforce
    note D = assms [unfolded build_mcp_invoke_response_def g f t sum.case prod.case Let_def]
    show thesis
    proof (cases "is_allowed al (fst who) server \<and> in_MCP_SERVERS server \<and> ok")
      case True
      then show thesis using ran g f t D by auto
    next
      case False
      have "\<not> ok \<Longrightarrow> rl_value rl = rl_value (mc_limiter st)"
        using try_acquire_value(1) [of "fst who" secs "mc_limiter st"] t by simp
      then show thesis
        using False D by (intro refused) (auto split: if_splits bool.splits)
    qed
  qed
qed

lemma mcp_invoke_slot:
  assumes "build_mcp_invoke_response fr ns enabled al env now secs lat nuid a b v st = (r, st')"
    and "rl_ok (mc_limiter st)"
  shows "rl_value (mc_limiter st') = rl_value (mc_limiter st)"
  using assms(1)
proof (cases rule: mcp_invoke_cases)
  case (ran who server tool args rl)
  then show ?thesis
    using acquire_release_value [OF assms(2), of "fst who" secs] mcp_run_frame(2) [OF ran(6)] by simp
qed

lemma mcp_list_starts:
  assumes "build_mcp_list_response enabled al env a b v st = (r, st')"
  shows "mc_spawned st' = mc_spawned st \<or>
    (\<exists>claims server spec. verify_and_extract a v = Inr claims \<and> enabled \<and> server_field b = Inr server \<and>
       is_allowed al (extract_tenant_id claims) server \<and> in_MCP_SERVERS server \<and>
       map_of (mx_servers env) server = Some spec \<and>
       starts env spec (extract_tenant_id claims) (handshake @ [list_request]) (mc_spawned st) (mc_spawned st') \<and>
       mc_limiter st' = mc_limiter st \<and> mc_audit st' = mc_audit st)"
proof (cases "mcp_gate a v enabled")
  case (Inl e)
  then show ?thesis using assms by (simp add: build_mcp_list_response_def)
next
  case g: (Inr who)
  show ?thesis
  proof (cases "server_field b")
    case (Inl e)
    then show ?thesis using assms g by (simp add: build_mcp_list_response_def)
  next
    case (Inr server)
    obtain x past' where l: "list_tools env server (fst who) (mc_spawned st) = (x, past')" by fastforce
    show ?thesis
      using assms g Inr l list_tools_starts [OF l]
      by (auto simp: build_mcp_list_response_def mcp_gate_Inr owner_of_def split: if_splits)
  qed
qed

lemma mcp_invoke_starts:
  assumes "build_mcp_invoke_response fr ns enabled al env now secs lat nuid a b v st = (r, st')"
  shows "mc_spawned st' = mc_spawned st \<or>
    (\<exists>claims server tool args spec. verify_and_extract a v = Inr claims \<and> enabled \<and>
       mcp_fields fr b = Inr (server, tool, args) \<and>
       is_allowed al (extract_tenant_id claims) server \<and> in_MCP_SERVERS server \<and>
       fst (try_acquire (extract_tenant_id claims) secs (mc_limiter st)) \<and>
       map_of (mx_servers env) server = Some spec \<and>
       starts env spec (extract_tenant_id claims) (handshake @ [call_request tool args]) (mc_spawned st) (mc_spawned st') \<and>
       call_audited r (owner_of claims) server tool args lat (mc_audit st) (mc_audit st'))"
  using assms
proof (cases rule: mcp_invoke_cases)
  case (ran who server tool args rl)
  obtain x past' where c: "call_tool env server tool args (fst who) (mc_spawned st) = (x, past')" by fastforce
  have "mc_spawned st' = past'"
    using mcp_run_frame(1) [OF ran(6)] c by simp
  moreover have "call_audited r who server tool args lat (mc_audit st) (mc_audit st')"
    using mcp_run_frame(3) [OF ran(6)] by simp
  ultimately show ?thesis
    using ran(1-5) call_tool_starts [OF c]
    by (auto simp: mcp_gate_Inr owner_of_def)
qed simp

section \<open>The client and the stub server\<close>

definition stub_call_reply :: "string \<Rightarrow> dict \<Rightarrow> json" where
  "stub_call_reply tool args =
     (if tool = ''echo''
      then (case dget args ''message'' of
              JStr m \<Rightarrow> rpc_result (JInt 2) (echo_result m)
            | _ \<Rightarrow> rpc_error (JInt 2) (- 32602) (quoted ''message'' @ '' must be a string''))
      else rpc_error (JInt 2) (- 32601) ''unknown tool'')"

definition stub_init_reply :: json where
  "stub_init_reply =
     rpc_result (JInt 1)
       (JObj [(''protocolVersion'', JStr ''2024-11-05''), (''capabilities'', JObj [(''tools'', JObj [])]),
              (''serverInfo'', JObj [(''name'', JStr ''stub-mcp''), (''version'', JStr ''0.1.0'')])])"

definition stub_list_reply :: json where
  "stub_list_reply = rpc_result (JInt 2) (JObj [(''tools'', stub_tools)])"

lemma jor_obj [simp]: "jor (JObj d) (JObj []) = JObj d" "jor JNull w = w"
  by (auto simp: jor_def)

lemma stub_handle_handshake:
  "map stub_handle handshake = [Inr (Some stub_init_reply), Inr None]"
  by (simp add: handshake_def stub_handle_def stub_init_reply_def dget_def dget_or_def Let_def jor_def)

lemma stub_handle_list: "stub_handle list_request = Inr (Some stub_list_reply)"
  by (simp add: list_request_def stub_handle_def stub_list_reply_def dget_def dget_or_def Let_def jor_def)

lemma stub_handle_call: "stub_handle (call_request tool args) = Inr (Some (stub_call_reply tool args))"
  by (simp add: call_request_def stub_handle_def stub_call_reply_def dget_def dget_or_def Let_def
      split: json.split option.split)

definition talk :: "string \<Rightarrow> dict \<Rightarrow> json set" where
  "talk tool args =
     set (handshake @ [list_request, call_request tool args]) \<union>
     {stub_init_reply, stub_list_reply, stub_call_reply tool args}"

lemma is_obj_rpc: "is_obj (rpc_result rid v)" "is_obj (rpc_error rid c m)" "is_obj (JObj d)"
  by (simp_all add: rpc_result_def rpc_error_def is_obj_def)

lemma is_obj_stub: "is_obj (stub_call_reply tool args)"
  by (auto simp: stub_call_reply_def is_obj_rpc split: json.split)

lemma talk_objects: "v \<in> talk tool args \<Longrightarrow> is_obj v"
  by (auto simp: talk_def handshake_def list_request_def call_request_def stub_init_reply_def stub_list_reply_def
      is_obj_rpc is_obj_stub)

lemma stub_replies_talk:
  "stub_replies (handshake @ [list_request]) = [stub_init_reply, stub_list_reply]"
  "stub_replies (handshake @ [call_request tool args]) = [stub_init_reply, stub_call_reply tool args]"
proof -
  obtain a c where h: "handshake = [a, c]" "stub_handle a = Inr (Some stub_init_reply)" "stub_handle c = Inr None"
    using stub_handle_handshake by (auto simp: handshake_def)
  show "stub_replies (handshake @ [list_request]) = [stub_init_reply, stub_list_reply]"
    by (simp add: h stub_handle_list)
  show "stub_replies (handshake @ [call_request tool args]) = [stub_init_reply, stub_call_reply tool args]"
    by (simp add: h stub_handle_call)
qed

lemma stub_handles_talk:
  assumes "v \<in> set (handshake @ [list_request, call_request tool args])"
  shows "\<exists>r. stub_handle v = Inr r"
proof -
  have "\<forall>v \<in> set handshake. \<exists>r. stub_handle v = Inr r"
    using stub_handle_handshake by (auto simp: handshake_def)
  then show ?thesis
    using assms stub_handle_list stub_handle_call by auto
qed

text \<open>The server command runs the stub.\<close>

definition runs_stub :: "mcp_env \<Rightarrow> string list \<Rightarrow> bool" where
  "runs_stub env cmd \<longleftrightarrow>
     (\<forall>past sp. sp_command sp = cmd \<longrightarrow>
        mx_spawn env past sp =
          (case stub_main (mx_loads env) (mx_repr env) (sp_input sp) of (rc, out) \<Rightarrow> ProcExit rc out))"

lemma exchange_stub:
  assumes "runs_stub env cmd" and "\<And>q. printable (mx_repr env q)"
    and "\<forall>v \<in> talk tool args. mx_loads env (json_dumps (mx_repr env) v) = Some v"
    and "set vs \<subseteq> set (handshake @ [list_request, call_request tool args])" and "vs \<noteq> []"
    and "set (stub_replies vs) \<subseteq> talk tool args"
  shows "fst (exchange env \<lparr>ms_command = cmd, ms_secret = None\<rparr> t vs past) = Inr (stub_replies vs)"
proof -
  have vs: "\<forall>v \<in> set vs. is_obj v \<and> mx_loads env (json_dumps (mx_repr env) v) = Some v \<and> (\<exists>r. stub_handle v = Inr r)"
  proof
    fix v assume "v \<in> set vs"
    then have "v \<in> set (handshake @ [list_request, call_request tool args])"
      using assms(4) by (rule set_rev_mp)
    then have "v \<in> talk tool args" and "\<exists>r. stub_handle v = Inr r"
      by (auto simp only: talk_def dest: stub_handles_talk)
    then show "is_obj v \<and> mx_loads env (json_dumps (mx_repr env) v) = Some v \<and> (\<exists>r. stub_handle v = Inr r)"
      using talk_objects assms(3) by blast
  qed
  have "\<forall>v \<in> set (stub_replies vs). is_obj v \<and> mx_loads env (json_dumps (mx_repr env) v) = Some v"
    using assms(3,6) talk_objects by blast
  then have "read_lines (mx_loads env) (text_of (mx_repr env) (stub_replies vs)) = stub_replies vs"
    by (rule read_text [OF assms(2)])
  moreover have "stub_main (mx_loads env) (mx_repr env) (payload_of (mx_repr env) vs) =
      (0, text_of (mx_repr env) (stub_replies vs))"
    unfolding payload_text [OF assms(5)] by (rule stub_main_text [OF assms(2) vs])
  ultimately show ?thesis
    using assms(1) by (simp add: exchange_def child_env_def runs_stub_def)
qed

lemma read_stub_list: "read_tools [stub_init_reply, stub_list_reply] = Inr (success (JObj [(''tools'', stub_tools)]))"
  by (simp add: read_tools_def stub_init_reply_def stub_list_reply_def rpc_result_def dget_def dget_or_def dhas_def)

definition stub_outcome :: "string \<Rightarrow> dict \<Rightarrow> mcp_outcome" where
  "stub_outcome tool args =
     (if tool \<noteq> ''echo'' then mcp_fail ''unknown_tool''
      else (case dget args ''message'' of JStr m \<Rightarrow> success (echo_result m) | _ \<Rightarrow> mcp_fail ''server_error''))"

lemma read_stub_call: "read_call [stub_init_reply, stub_call_reply tool args] = Inr (stub_outcome tool args)"
  by (auto simp: read_call_def stub_init_reply_def stub_call_reply_def stub_outcome_def rpc_result_def rpc_error_def
      echo_result_def jor_def dget_def dget_or_def dhas_def split: json.split option.split)

lemma stub_calls:
  assumes "map_of (mx_servers env) server = Some \<lparr>ms_command = cmd, ms_secret = None\<rparr>"
    and "runs_stub env cmd" and "\<And>q. printable (mx_repr env q)"
    and "\<forall>v \<in> talk tool args. mx_loads env (json_dumps (mx_repr env) v) = Some v"
  shows "fst (list_tools env server t past) = Inr (success (JObj [(''tools'', stub_tools)]))"
    and "fst (call_tool env server tool args t past) = Inr (stub_outcome tool args)"
proof -
  note ex = exchange_stub [OF assms(2-4)]
  have "fst (exchange env \<lparr>ms_command = cmd, ms_secret = None\<rparr> t (handshake @ [list_request]) past) =
      Inr [stub_init_reply, stub_list_reply]"
    using ex [of "handshake @ [list_request]"] by (simp add: stub_replies_talk talk_def subset_insertI2)
  then show "fst (list_tools env server t past) = Inr (success (JObj [(''tools'', stub_tools)]))"
    by (auto simp: list_tools_def assms(1) read_stub_list split: prod.split)
  have "fst (exchange env \<lparr>ms_command = cmd, ms_secret = None\<rparr> t (handshake @ [call_request tool args]) past) =
      Inr [stub_init_reply, stub_call_reply tool args]"
    using ex [of "handshake @ [call_request tool args]"] by (simp add: stub_replies_talk talk_def subset_insertI2)
  then show "fst (call_tool env server tool args t past) = Inr (stub_outcome tool args)"
    by (auto simp: call_tool_def assms(1) read_stub_call split: prod.split)
qed

section \<open>What the stub answers\<close>

text \<open>The typing of a JSON-RPC reply to the request with this id.\<close>

inductive rpc_reply :: "json \<Rightarrow> json \<Rightarrow> bool" where
  Result: "rpc_reply rid (JObj [(''jsonrpc'', JStr ''2.0''), (''id'', rid), (''result'', JObj r)])"
| Error: "rpc_reply rid (JObj [(''jsonrpc'', JStr ''2.0''), (''id'', rid),
            (''error'', JObj [(''code'', JInt c), (''message'', JStr m)])])"

declare rpc_reply.intros [intro]

lemma rpc_reply_result: "is_obj v \<Longrightarrow> rpc_reply rid (rpc_result rid v)"
  by (auto simp: is_obj_def rpc_result_def split: json.splits)

lemma rpc_reply_error: "rpc_reply rid (rpc_error rid c m)"
  by (auto simp: rpc_error_def)

text \<open>A request of the protocol: its parameters and their arguments are objects, or left out.\<close>

definition rpc_request :: "dict \<Rightarrow> bool" where
  "rpc_request d \<longleftrightarrow>
     (case dget d ''params'' of
        JNull \<Rightarrow> True
      | JObj p \<Rightarrow> (case dget p ''arguments'' of JNull \<Rightarrow> True | JObj a \<Rightarrow> True | _ \<Rightarrow> False)
      | _ \<Rightarrow> False)"

lemma jget_obj [simp]: "jget (JObj d) k JNull = Inr (dget d k)"
  by (simp add: dget_def dget_or_def split: option.split)

lemma stub_handle_typed:
  assumes "rpc_request d"
  shows "(stub_handle (JObj d) = Inr None \<and> dget d ''id'' = JNull) \<or>
         (\<exists>v. stub_handle (JObj d) = Inr (Some v) \<and> rpc_reply (dget d ''id'') v)"
proof -
  obtain p where p: "jor (dget d ''params'') (JObj []) = JObj p"
    and a: "\<exists>a. jor (dget p ''arguments'') (JObj []) = JObj a"
  proof (cases "dget d ''params''")
    case (JObj p)
    then have "\<exists>a. jor (dget p ''arguments'') (JObj []) = JObj a"
      using assms by (auto simp: rpc_request_def split: json.splits)
    with JObj that show thesis by simp
  qed (use assms that [of "[]"] in \<open>simp_all add: rpc_request_def dget_def\<close>)
  obtain a where a: "jor (dget p ''arguments'') (JObj []) = JObj a" using a ..
  show ?thesis
    by (auto simp: stub_handle_def p a Let_def stub_tools_def echo_result_def is_obj_def simp del: jget.simps(1)
        intro!: rpc_reply_result rpc_reply_error split: json.split)
qed

section \<open>Replies that escape\<close>

text \<open>A server that prints anything but objects, or an error that is no object, raises past the \<^verbatim>\<open>try\<close>
  of the call: no reply and no audit entry, though the slot comes back.\<close>

lemma malformed_reply_raises:
  "read_call (JInt i # vs) = Inl AttributeError"
  "equals_int (dget r ''id'') 2 \<Longrightarrow> dhas r ''error'' \<Longrightarrow> dget r ''error'' = JStr m \<Longrightarrow>
     read_call (JObj r # vs) = Inl AttributeError"
  by (simp_all add: read_call_def)

lemma raising_call_unaudited:
  assumes "fst (call_tool env server tool args (fst who) (mc_spawned st)) = Inl ex"
  shows "fst (mcp_run ns env now lat nuid who server tool args st) = Inl ex \<and>
         mc_audit (snd (mcp_run ns env now lat nuid who server tool args st)) = mc_audit st"
  using assms by (auto simp: mcp_run_def Let_def split: prod.split sum.split)

section \<open>Properties\<close>

text \<open>C30: A request to list or to call starts at most one server process.  A call starts one only past every
  gate (verified token, feature on, valid fields, server on the tenant's allow-list and in the registry, a
  slot of the limiter held) and, when it is answered, leaves one audit entry under the caller.  A listing
  starts one only for a verified caller, feature on, a named server on the tenant's allow-list and in the
  registry; but it passes no limiter and leaves no audit entry: limiter and audit log are as before it.  In
  both cases the process runs that server's command, is sent this request only, and finds in its
  environment nothing but the fixed variables and the caller's tenant's own secret of that server.\<close>

theorem mcp_process_gated:
  "(case build_mcp_list_response enabled al env a b v st of (r, st') \<Rightarrow>
      mc_spawned st' = mc_spawned st \<or>
      (\<exists>claims server spec. verify_and_extract a v = Inr claims \<and> enabled \<and> server_field b = Inr server \<and>
         is_allowed al (extract_tenant_id claims) server \<and> in_MCP_SERVERS server \<and>
         map_of (mx_servers env) server = Some spec \<and>
         starts env spec (extract_tenant_id claims) (handshake @ [list_request]) (mc_spawned st) (mc_spawned st') \<and>
         mc_limiter st' = mc_limiter st \<and> mc_audit st' = mc_audit st)) \<and>
   (case build_mcp_invoke_response fr ns enabled al env now secs lat nuid a b v st of (r, st') \<Rightarrow>
      mc_spawned st' = mc_spawned st \<or>
      (\<exists>claims server tool args spec. verify_and_extract a v = Inr claims \<and> enabled \<and>
         mcp_fields fr b = Inr (server, tool, args) \<and>
         is_allowed al (extract_tenant_id claims) server \<and> in_MCP_SERVERS server \<and>
         fst (try_acquire (extract_tenant_id claims) secs (mc_limiter st)) \<and>
         map_of (mx_servers env) server = Some spec \<and>
         starts env spec (extract_tenant_id claims) (handshake @ [call_request tool args])
           (mc_spawned st) (mc_spawned st') \<and>
         call_audited r (owner_of claims) server tool args lat (mc_audit st) (mc_audit st')))"
proof -
  obtain r s where l: "build_mcp_list_response enabled al env a b v st = (r, s)" by fastforce
  obtain q u where i: "build_mcp_invoke_response fr ns enabled al env now secs lat nuid a b v st = (q, u)" by fastforce
  show ?thesis
    unfolding l i prod.case using mcp_list_starts [OF l] mcp_invoke_starts [OF i] by blast
qed

text \<open>C31: The client and the stub server understand each other: where the server's command runs the stub
  and \<^verbatim>\<open>json.loads\<close> reads back what was printed, listing gives the stub's tools, calling echo
  with a message gives that message back, without one fails, and any other tool is unknown.\<close>

theorem mcp_stub_roundtrip:
  assumes "map_of (mx_servers env) server = Some \<lparr>ms_command = cmd, ms_secret = None\<rparr>"
    and "runs_stub env cmd" and "\<And>q. printable (mx_repr env q)"
    and "\<forall>v \<in> talk tool args. mx_loads env (json_dumps (mx_repr env) v) = Some v"
  shows "fst (list_tools env server t past) = Inr (success (JObj [(''tools'', stub_tools)])) \<and>
         fst (call_tool env server tool args t past) =
           Inr (if tool \<noteq> ''echo'' then mcp_fail ''unknown_tool''
                else (case dget args ''message'' of
                        JStr m \<Rightarrow> success (echo_result m) | _ \<Rightarrow> mcp_fail ''server_error''))"
  using stub_calls [OF assms] unfolding stub_outcome_def by blast

definition example_talk :: "json list" where
  "example_talk =
     handshake @ [list_request, call_request ''echo'' [(''message'', JStr ''hi'')], stub_init_reply, stub_list_reply,
                  stub_call_reply ''echo'' [(''message'', JStr ''hi'')]]"

definition example_mcp :: mcp_env where
  "example_mcp =
     (let loads = (\<lambda>s. find (\<lambda>v. json_dumps (\<lambda>_. ''1.5'') v = s) example_talk) in
      \<lparr>mx_servers = MCP_SERVERS ''python'', mx_secret = None, mx_pythonpath = [],
       mx_spawn = (\<lambda>past sp. case stub_main loads (\<lambda>_. ''1.5'') (sp_input sp) of (rc, out) \<Rightarrow> ProcExit rc out),
       mx_loads = loads, mx_repr = (\<lambda>_. ''1.5'')\<rparr>)"

lemma find_printed: "distinct (map f xs) \<Longrightarrow> \<forall>v \<in> set xs. find (\<lambda>w. f w = f v) xs = Some v"
  by (induction xs) force+

lemma example_distinct: "distinct (map (json_dumps (\<lambda>_. ''1.5'')) example_talk)"
  by code_simp

theorem mcp_stub_roundtrip_witness:
  "fst (call_tool example_mcp ''stub'' ''echo'' [(''message'', JStr ''hi'')] ''acme'' []) = Inr (success (echo_result ''hi''))"
proof -
  have t: "talk ''echo'' [(''message'', JStr ''hi'')] = set example_talk"
    by (auto simp: talk_def example_talk_def)
  have "\<forall>v \<in> talk ''echo'' [(''message'', JStr ''hi'')].
      mx_loads example_mcp (json_dumps (mx_repr example_mcp) v) = Some v"
    using find_printed [OF example_distinct] unfolding t by (simp add: example_mcp_def Let_def)
  moreover have "map_of (mx_servers example_mcp) ''stub'' =
      Some \<lparr>ms_command = [''python'', ''-m'', ''app.mcp_servers.stub_server''], ms_secret = None\<rparr>"
    by (simp add: example_mcp_def MCP_SERVERS_def Let_def)
  moreover have "runs_stub example_mcp cmd" for cmd
    by (simp add: runs_stub_def example_mcp_def Let_def)
  moreover have "printable (mx_repr example_mcp q)" for q
    by (simp add: example_mcp_def Let_def ord_of_def)
  ultimately show ?thesis
    using mcp_stub_roundtrip [of example_mcp "''stub''" "[''python'', ''-m'', ''app.mcp_servers.stub_server'']"
        "''echo''" "[(''message'', JStr ''hi'')]" "''acme''" "[]"]
    by (simp add: dget_def dget_or_def)
qed

text \<open>The stub answers a request of the protocol with a reply of the protocol to that request's id,
  a result or an error, never raises on one, and stays silent on notifications only.\<close>

theorem stub_replies_typed:
  assumes "rpc_request d"
  shows "(stub_handle (JObj d) = Inr None \<and> dget d ''id'' = JNull) \<or>
         (\<exists>v. stub_handle (JObj d) = Inr (Some v) \<and> rpc_reply (dget d ''id'') v)"
  by (rule stub_handle_typed [OF assms])

theorem stub_replies_typed_witness:
  "rpc_reply (JInt 7) (the (projr (stub_handle (JObj [(''id'', JInt 7), (''method'', JStr ''tools/list'')]))))"
proof -
  have "rpc_request [(''id'', JInt 7), (''method'', JStr ''tools/list'')]"
    by (simp add: rpc_request_def dget_def dget_or_def)
  from stub_replies_typed [OF this] show ?thesis
    by (auto simp: dget_def dget_or_def)
qed

end
