(* ===== verification/Chat.thy ===== *)
theory Chat
  imports Auth Policy Inference Texts
begin

text \<open>
  The chat endpoints of server.py: parsing a chat request, \<^verbatim>\<open>build_chat_response\<close> (the buffered
  completion), \<^verbatim>\<open>prepare_chat_stream\<close> and \<^verbatim>\<open>_handle_chat_stream\<close> (the relay of an upstream stream).
  The inference plane is a client, a parameter; the lines of an upstream stream, the clock that each
  line of the relay reads and whether each write reaches the caller are parameters too.
\<close>

section \<open>Responses\<close>

record response =
  rs_status :: nat
  rs_payload :: json
  rs_headers :: "(string \<times> string) list"
  rs_raw :: "string option"

definition json_response :: "reply \<Rightarrow> response" where
  "json_response r = \<lparr>rs_status = fst r, rs_payload = snd r, rs_headers = [], rs_raw = None\<rparr>"

definition retry_response :: "reply \<Rightarrow> string \<Rightarrow> response" where
  "retry_response r after =
     \<lparr>rs_status = fst r, rs_payload = snd r, rs_headers = [(''Retry-After'', after)], rs_raw = None\<rparr>"

section \<open>Parsing a request\<close>

definition CHAT_ROLES :: "string set" where
  "CHAT_ROLES = {''system'', ''user'', ''assistant'', ''tool''}"

definition chat_roles_text :: string where
  "chat_roles_text = ''['' @ py_join '', '' (map quoted [''assistant'', ''system'', ''tool'', ''user'']) @ '']''"

definition message_error :: "nat \<Rightarrow> string \<Rightarrow> string" where
  "message_error i what = ''messages['' @ str_nat i @ '']'' @ what"

text \<open>The loop over the messages: an exception, an error text, or the messages.\<close>

fun parse_messages :: "nat \<Rightarrow> json list \<Rightarrow> py_exn + (string + chat_message list)" where
  "parse_messages i [] = Inr (Inr [])"
| "parse_messages i (msg # msgs) =
     (case msg of
        JObj m \<Rightarrow>
          ebind (in_str_set (dget_or m ''role'' (JStr [])) CHAT_ROLES) (\<lambda>valid.
            if \<not> valid then Inr (Inl (message_error i (''.role must be one of '' @ chat_roles_text)))
            else (case (dget_or m ''role'' (JStr []), dget_or m ''content'' (JStr [])) of
                    (JStr role, JStr content) \<Rightarrow>
                      ebind (parse_messages (Suc i) msgs) (\<lambda>rest.
                        Inr (case rest of
                               Inl err \<Rightarrow> Inl err
                             | Inr ms \<Rightarrow> Inr (\<lparr>cm_role = role, cm_content = content\<rparr> # ms)))
                  | _ \<Rightarrow> Inr (Inl (message_error i ''.content must be a string''))))
      | _ \<Rightarrow> Inr (Inl (message_error i '' must be an object'')))"

text \<open>The number that a decoded value is, if it is a finite one.\<close>

fun number_of :: "json \<Rightarrow> rat option" where
  "number_of (JInt i) = Some (of_int i)"
| "number_of (JBool b) = Some (if b then 1 else 0)"
| "number_of (JFloat (Fin q)) = Some q"
| "number_of _ = None"

definition temperature_field :: "dict \<Rightarrow> rat option" where
  "temperature_field data =
     (case number_of (dget_or data ''temperature'' (JFloat (Fin (1/5)))) of
        None \<Rightarrow> None
      | Some q \<Rightarrow> if 0 \<le> q \<and> q \<le> 2 then Some q else None)"

definition max_tokens_ok :: "json \<Rightarrow> bool" where
  "max_tokens_ok v =
     (case v of JNull \<Rightarrow> True | JInt i \<Rightarrow> 1 \<le> i | JBool b \<Rightarrow> b | _ \<Rightarrow> False)"

definition parse_chat_request :: "json option \<Rightarrow> py_exn + (string + chat_request)" where
  "parse_chat_request body =
     (case body of
        None \<Rightarrow> Inr (Inl ''request body is not valid JSON'')
      | Some (JObj data) \<Rightarrow>
          (case dget_or data ''model'' (JStr []) of
             JStr model \<Rightarrow>
               if py_strip model = [] then Inr (Inl (quoted ''model'' @ '' is required and must be a non-empty string''))
               else (case dget data ''messages'' of
                       JArr (m # ms) \<Rightarrow>
                         ebind (parse_messages 0 (m # ms)) (\<lambda>r.
                           Inr (case r of
                                  Inl err \<Rightarrow> Inl err
                                | Inr messages \<Rightarrow>
                                    (case temperature_field data of
                                       None \<Rightarrow> Inl (quoted ''temperature'' @ '' must be a number between 0 and 2'')
                                     | Some q \<Rightarrow>
                                         if \<not> max_tokens_ok (dget data ''max_tokens'')
                                         then Inl (quoted ''max_tokens'' @ '' must be a positive integer'')
                                         else Inr (chat_request_build (py_strip model) messages (JFloat (Fin q))
                                                (case dget data ''max_tokens'' of JNull \<Rightarrow> None | v \<Rightarrow> Some v)))))
                     | _ \<Rightarrow> Inr (Inl (quoted ''messages'' @ '' is required and must be a non-empty array'')))
           | _ \<Rightarrow> Inr (Inl (quoted ''model'' @ '' is required and must be a non-empty string'')))
      | Some _ \<Rightarrow> Inr (Inl ''request body must be a JSON object''))"

section \<open>The buffered completion\<close>

datatype chat_exn = ParseRaised py_exn | ClientRaised infer_exn

record chat_state =
  ct_limiter :: "rate_limiter option"
  ct_sent :: "chat_request list"

definition not_configured :: reply where
  "not_configured = (HTTP_UNAVAILABLE, err_degraded ''inference_not_configured'' ''Inference backend is not configured.'')"

definition degraded_retry :: "string \<Rightarrow> string \<Rightarrow> nat \<Rightarrow> response" where
  "degraded_retry err detail after =
     retry_response (HTTP_UNAVAILABLE,
       JObj [(''error'', JStr err), (''detail'', JStr detail), (''status'', JStr ''degraded''),
             (''retry_after'', JInt (int after))]) (str_nat after)"

text \<open>The \<^verbatim>\<open>except\<close> clauses; the other exceptions leave the handler.\<close>

definition chat_result :: "infer_exn + json \<Rightarrow> chat_exn + response" where
  "chat_result r =
     (case r of
        Inr result \<Rightarrow> Inr (json_response (HTTP_OK, result))
      | Inl (Unavailable status) \<Rightarrow>
          Inr (if status = Some 429
               then degraded_retry ''inference_unavailable'' ''The inference service is at capacity.'' 60
               else degraded_retry ''inference_unavailable'' ''The inference service is currently unavailable.'' 30)
      | Inl RoutingError \<Rightarrow>
          Inr (degraded_retry ''inference_not_reachable'' ''The inference endpoint could not be reached.'' 10)
      | Inl InferTimeout \<Rightarrow>
          Inr (degraded_retry ''inference_timeout''
                 (''The inference request timed out. The model may be loading '' @ [EM_DASH] @ '' retry shortly.'') 30)
      | Inl ex \<Rightarrow> Inl (ClientRaised ex))"

text \<open>\<open>client\<close> makes an inference client of a base URL.\<close>

definition chat_forward ::
    "(string \<Rightarrow> chat_client) \<Rightarrow> string \<Rightarrow> chat_request \<Rightarrow> chat_state \<Rightarrow> (chat_exn + response) \<times> chat_state" where
  "chat_forward client base_url request st =
     (chat_result (client base_url (ct_sent st) request),
      st\<lparr>ct_sent := ct_sent st @ [request], ct_limiter := map_option rl_release (ct_limiter st)\<rparr>)"

definition build_chat_response ::
    "(string \<Rightarrow> chat_client) \<Rightarrow> string option \<Rightarrow> int \<Rightarrow> string option \<Rightarrow> json option \<Rightarrow> verifier option
       \<Rightarrow> chat_state \<Rightarrow> (chat_exn + response) \<times> chat_state" where
  "build_chat_response client base_url now authorization body token_verifier st =
     (case verify_and_extract authorization token_verifier of
        Inl err \<Rightarrow> (Inr (json_response err), st)
      | Inr claims \<Rightarrow>
          if \<not> opt_truthy base_url then (Inr (json_response not_configured), st)
          else (case parse_chat_request body of
                  Inl ex \<Rightarrow> (Inl (ParseRaised ex), st)
                | Inr (Inl parse_error) \<Rightarrow> (Inr (json_response (bad_request parse_error)), st)
                | Inr (Inr request) \<Rightarrow>
                    (case ct_limiter st of
                       None \<Rightarrow> chat_forward client (the base_url) request st
                     | Some rl \<Rightarrow>
                         (case try_acquire (extract_tenant_id claims) now rl of
                            (False, rl) \<Rightarrow>
                              (Inr (retry_response (HTTP_TOO_MANY, err_degraded ''rate_limited''
                                      ''Chat rate/concurrency limit exceeded; retry shortly.'') ''5''),
                               st\<lparr>ct_limiter := Some rl\<rparr>)
                          | (True, rl) \<Rightarrow>
                              chat_forward client (the base_url) request (st\<lparr>ct_limiter := Some rl\<rparr>)))))"

section \<open>The stream\<close>

definition prepare_chat_stream ::
    "string option \<Rightarrow> string option \<Rightarrow> json option \<Rightarrow> verifier option \<Rightarrow> py_exn + (response + chat_request)" where
  "prepare_chat_stream base_url authorization body token_verifier =
     (case extract_bearer_token authorization of
        None \<Rightarrow> Inr (Inl (json_response unauth_missing))
      | Some raw_token \<Rightarrow>
          (case token_verifier of
             None \<Rightarrow> Inr (Inl (json_response (HTTP_UNAVAILABLE, err_degraded0 ''auth_not_configured'')))
           | Some verify \<Rightarrow>
               (case verify raw_token of
                  None \<Rightarrow> Inr (Inl (json_response unauth_invalid))
                | Some claims \<Rightarrow>
                    if \<not> opt_truthy base_url
                    then Inr (Inl (json_response (HTTP_UNAVAILABLE, err_degraded0 ''inference_not_configured'')))
                    else ebind (parse_chat_request body) (\<lambda>r.
                           Inr (case r of
                                  Inl parse_error \<Rightarrow> Inl (json_response (bad_request parse_error))
                                | Inr request \<Rightarrow> Inr request)))))"

text \<open>
  The relay: \<open>alive i\<close> says whether the \<open>i\<close>-th write reaches the caller, \<open>clock i\<close> is the clock after it.
\<close>

fun relay :: "(nat \<Rightarrow> bool) \<Rightarrow> (nat \<Rightarrow> rat) \<Rightarrow> rat \<Rightarrow> nat \<Rightarrow> string list \<Rightarrow> string list" where
  "relay alive clock deadline i [] = []"
| "relay alive clock deadline i (line # lines) =
     (if \<not> alive i then []
      else line # (if deadline < clock i then [] else relay alive clock deadline (Suc i) lines))"

text \<open>What the caller is sent: one JSON response, or the lines of an event stream.\<close>

datatype chat_output = Plain response | EventStream "string list"

definition open_failed :: "infer_exn \<Rightarrow> chat_exn + chat_output" where
  "open_failed ex =
     (case ex of
        Unavailable _ \<Rightarrow>
          Inr (Plain (retry_response (HTTP_UNAVAILABLE,
                 JObj [(''error'', JStr ''inference_unavailable''), (''status'', JStr ''degraded''),
                       (''retry_after'', JInt 30)]) ''30''))
      | InferTimeout \<Rightarrow> Inr (Plain (json_response (HTTP_TIMEOUT, err_degraded0 ''inference_timeout'')))
      | RoutingError \<Rightarrow> Inr (Plain (json_response (HTTP_TIMEOUT, err_degraded0 ''inference_timeout'')))
      | ex \<Rightarrow> Inl (ClientRaised ex))"

text \<open>\<open>open_stream\<close> makes a stream opener of a base URL; \<open>start\<close> is the clock when the relay begins.\<close>

definition handle_chat_stream ::
    "(string \<Rightarrow> chat_request list \<Rightarrow> chat_request \<Rightarrow> infer_exn + string list) \<Rightarrow> string option \<Rightarrow> rat
       \<Rightarrow> (nat \<Rightarrow> bool) \<Rightarrow> (nat \<Rightarrow> rat) \<Rightarrow> rat \<Rightarrow> int \<Rightarrow> string option \<Rightarrow> json option \<Rightarrow> verifier option
       \<Rightarrow> rate_limiter \<times> chat_request list \<Rightarrow> (chat_exn + chat_output) \<times> rate_limiter \<times> chat_request list" where
  "handle_chat_stream open_stream base_url max_seconds alive clock start now authorization body token_verifier st =
     (case prepare_chat_stream base_url authorization body token_verifier of
        Inl ex \<Rightarrow> (Inl (ParseRaised ex), st)
      | Inr (Inl err) \<Rightarrow> (Inr (Plain err), st)
      | Inr (Inr request) \<Rightarrow>
          (let tenant_id = (case verify_and_extract authorization token_verifier of
                              Inl _ \<Rightarrow> ''unknown'' | Inr claims \<Rightarrow> extract_tenant_id claims)
           in (case try_acquire tenant_id now (fst st) of
                 (False, rl) \<Rightarrow> (Inr (Plain (json_response (HTTP_TOO_MANY, err_only ''rate_limited''))), (rl, snd st))
               | (True, rl) \<Rightarrow>
                   ((case open_stream (the base_url) (snd st) request of
                       Inl ex \<Rightarrow> open_failed ex
                     | Inr lines \<Rightarrow> Inr (EventStream (relay alive clock (start + max_seconds) 0 lines))),
                    (rl_release rl, snd st @ [request])))))"

section \<open>Lemmas\<close>

definition message_ok :: "chat_message \<Rightarrow> bool" where
  "message_ok m \<longleftrightarrow> cm_role m \<in> CHAT_ROLES"

definition request_ok :: "chat_request \<Rightarrow> bool" where
  "request_ok r \<longleftrightarrow>
     cr_model r \<noteq> [] \<and> cr_messages r \<noteq> [] \<and> list_all message_ok (cr_messages r) \<and>
     (\<exists>q. cr_temperature r = JFloat (Fin q) \<and> 0 \<le> q \<and> q \<le> 2) \<and>
     cr_max_tokens r \<in> {None, Some (JBool True)} \<union> {Some (JInt i) |i. 1 \<le> i}"

lemma sum_case_Inr:
  "(case r of Inl e \<Rightarrow> Inl (f e) | Inr x \<Rightarrow> Inr (g x)) = Inr y \<longleftrightarrow> (\<exists>x. r = Inr x \<and> g x = y)"
  by (cases r) auto

lemma parse_messages_ok:
  "parse_messages i msgs = Inr (Inr ms) \<Longrightarrow> length ms = length msgs \<and> list_all message_ok ms"
proof (induction msgs arbitrary: i ms)
  case (Cons m msgs)
  then show ?case
    by (cases m) (auto simp: ebind_Inr sum_case_Inr message_ok_def split: json.splits if_splits)
qed simp

lemma temperature_field_range: "temperature_field data = Some q \<Longrightarrow> 0 \<le> q \<and> q \<le> 2"
  unfolding temperature_field_def by (cases "number_of (dget_or data ''temperature'' (JFloat (Fin (1/5))))") (auto split: if_splits)

lemma max_tokens_given:
  "max_tokens_ok v \<Longrightarrow>
     (case v of JNull \<Rightarrow> None | w \<Rightarrow> Some w) \<in> {None, Some (JBool True)} \<union> {Some (JInt i) |i. 1 \<le> i}"
  by (cases v) (auto simp: max_tokens_ok_def)

lemma parse_chat_request_ok:
  assumes "parse_chat_request body = Inr (Inr r)"
  shows "request_ok r"
proof -
  obtain data where b: "body = Some (JObj data)"
    using assms by (simp add: parse_chat_request_def split: option.splits json.splits)
  obtain model where model: "dget_or data ''model'' (JStr []) = JStr model"
    using assms b by (simp add: parse_chat_request_def split: json.splits)
  have ne: "py_strip model \<noteq> []"
    using assms b model by (auto simp: parse_chat_request_def split: if_splits)
  obtain m ms where ms: "dget data ''messages'' = JArr (m # ms)"
    using assms b model ne by (simp add: parse_chat_request_def split: json.splits list.splits)
  obtain messages where p: "parse_messages 0 (m # ms) = Inr (Inr messages)"
    using assms b model ne ms
    by (cases "parse_messages 0 (m # ms)") (auto simp: parse_chat_request_def simp del: parse_messages.simps split: sum.splits)
  obtain q where q: "temperature_field data = Some q"
    using assms b model ne ms p
    by (cases "temperature_field data") (simp_all add: parse_chat_request_def del: parse_messages.simps)
  have k: "max_tokens_ok (dget data ''max_tokens'')"
    and r: "r = chat_request_build (py_strip model) messages (JFloat (Fin q))
             (case dget data ''max_tokens'' of JNull \<Rightarrow> None | v \<Rightarrow> Some v)"
    using assms b model ne ms p q
    by (simp_all add: parse_chat_request_def del: parse_messages.simps split: if_splits)
  have "messages \<noteq> []" "list_all message_ok messages"
    using parse_messages_ok [OF p] by auto
  then show ?thesis
    using ne temperature_field_range [OF q] max_tokens_given [OF k]
    by (simp add: r request_ok_def chat_request_build_def)
qed

text \<open>Which request was forwarded, if one was, and what it took.\<close>

definition forwarded ::
    "string option \<Rightarrow> verifier option \<Rightarrow> string option \<Rightarrow> json option \<Rightarrow> int \<Rightarrow> rate_limiter option \<Rightarrow> chat_request \<Rightarrow> bool" where
  "forwarded authorization token_verifier base_url body now limiter request \<longleftrightarrow>
     (\<exists>claims. verify_and_extract authorization token_verifier = Inr claims \<and> opt_truthy base_url \<and>
        parse_chat_request body = Inr (Inr request) \<and> request_ok request \<and>
        (case limiter of None \<Rightarrow> True | Some rl \<Rightarrow> fst (try_acquire (extract_tenant_id claims) now rl)))"

lemma forwardedI:
  "verify_and_extract a v = Inr claims \<Longrightarrow> opt_truthy u \<Longrightarrow> parse_chat_request b = Inr (Inr r) \<Longrightarrow>
     (case l of None \<Rightarrow> True | Some rl \<Rightarrow> fst (try_acquire (extract_tenant_id claims) now rl)) \<Longrightarrow>
     forwarded a v u b now l r"
  unfolding forwarded_def using parse_chat_request_ok by blast

lemma chat_cases:
  assumes "build_chat_response client u now a b v st = (r, st')"
  shows "(ct_sent st' = ct_sent st \<and> (case ct_limiter st of None \<Rightarrow> st' = st
            | Some rl \<Rightarrow> \<exists>rl'. ct_limiter st' = Some rl' \<and> rl_value rl' = rl_value rl)) \<or>
         (\<exists>req. forwarded a v u b now (ct_limiter st) req \<and> ct_sent st' = ct_sent st @ [req] \<and>
            r = chat_result (client (the u) (ct_sent st) req) \<and>
            (case ct_limiter st of None \<Rightarrow> ct_limiter st' = None
             | Some rl \<Rightarrow> \<exists>claims. verify_and_extract a v = Inr claims \<and>
                 ct_limiter st' = Some (rl_release (snd (try_acquire (extract_tenant_id claims) now rl)))))"
proof (cases "verify_and_extract a v")
  case (Inl e)
  then show ?thesis using assms by (auto simp: build_chat_response_def split: option.split)
next
  case v: (Inr claims)
  show ?thesis
  proof (cases "opt_truthy u \<and> (\<exists>req. parse_chat_request b = Inr (Inr req))")
    case False
    then show ?thesis
      using assms v by (auto simp: build_chat_response_def split: option.split sum.splits if_splits)
  next
    case True
    then obtain req where u: "opt_truthy u" and req: "parse_chat_request b = Inr (Inr req)" by blast
    note D = assms [unfolded build_chat_response_def v req sum.case]
    show ?thesis
    proof (cases "ct_limiter st")
      case None
      then show ?thesis
        using D u forwardedI [OF v u req, where l = None and now = now] by (auto simp: chat_forward_def)
    next
      case (Some rl)
      obtain ok rl' where t: "try_acquire (extract_tenant_id claims) now rl = (ok, rl')" by fastforce
      show ?thesis
      proof (cases ok)
        case True
        then show ?thesis
          using D u Some t v forwardedI [OF v u req, where l = "Some rl" and now = now] by (auto simp: chat_forward_def)
      next
        case False
        then have "rl_value rl' = rl_value rl"
          using try_acquire_value(1) [of "extract_tenant_id claims" now rl] t by simp
        then show ?thesis
          using False D u Some t by auto
      qed
    qed
  qed
qed

lemma prepare_stream_Inr:
  assumes "prepare_chat_stream u a b v = Inr (Inr req)"
  shows "\<exists>claims. verify_and_extract a v = Inr claims \<and> opt_truthy u \<and> parse_chat_request b = Inr (Inr req)"
proof -
  obtain t where t: "extract_bearer_token a = Some t"
    using assms by (cases "extract_bearer_token a") (simp_all add: prepare_chat_stream_def)
  obtain verify where v: "v = Some verify"
    using assms t by (cases v) (simp_all add: prepare_chat_stream_def)
  obtain claims where c: "verify t = Some claims"
    using assms t v by (cases "verify t") (simp_all add: prepare_chat_stream_def)
  have u: "opt_truthy u"
    using assms t v c by (simp add: prepare_chat_stream_def split: if_splits)
  obtain w where w: "parse_chat_request b = Inr w"
    using assms t v c u by (cases "parse_chat_request b") (simp_all add: prepare_chat_stream_def)
  then have "w = Inr req"
    using assms t v c u by (cases w) (simp_all add: prepare_chat_stream_def)
  then show ?thesis
    using t v c u w by (auto simp: verify_and_extract_bearer)
qed

lemma stream_cases:
  assumes "handle_chat_stream op u m alive clock start now a b v (rl, sent) = (r, rl', sent')"
  shows "(sent' = sent \<and> rl_value rl' = rl_value rl) \<or>
         (\<exists>req claims. forwarded a v u b now (Some rl) req \<and> sent' = sent @ [req] \<and>
            verify_and_extract a v = Inr claims \<and>
            rl' = rl_release (snd (try_acquire (extract_tenant_id claims) now rl)) \<and>
            r = (case op (the u) sent req of
                   Inl ex \<Rightarrow> open_failed ex
                 | Inr lines \<Rightarrow> Inr (EventStream (relay alive clock (start + m) 0 lines))))"
proof (cases "\<exists>req. prepare_chat_stream u a b v = Inr (Inr req)")
  case False
  then show ?thesis
    using assms by (auto simp: handle_chat_stream_def split: sum.splits)
next
  case True
  then obtain req where p: "prepare_chat_stream u a b v = Inr (Inr req)" by blast
  obtain claims where c: "verify_and_extract a v = Inr claims" "opt_truthy u" "parse_chat_request b = Inr (Inr req)"
    using prepare_stream_Inr [OF p] by blast
  obtain ok q where t: "try_acquire (extract_tenant_id claims) now rl = (ok, q)" by fastforce
  show ?thesis
  proof (cases ok)
    case True
    then show ?thesis
      using assms p c t forwardedI [OF c, where l = "Some rl" and now = now] by (auto simp: handle_chat_stream_def)
  next
    case False
    then have "rl_value q = rl_value rl"
      using try_acquire_value(1) [of "extract_tenant_id claims" now rl] t by simp
    then show ?thesis
      using assms p c(1) t False by (auto simp: handle_chat_stream_def)
  qed
qed

text \<open>What the relay writes, said of positions: the lines up to the first write that fails, and at most
  one line past the first check of the clock that finds the deadline over.\<close>

lemma relay_positions:
  "relay alive clock deadline i lines =
     take (min (length (takeWhile alive [i..<i + length lines]))
               (Suc (length (takeWhile (\<lambda>k. clock k \<le> deadline) [i..<i + length lines])))) lines"
proof (induction lines arbitrary: i)
  case (Cons l ls)
  have u: "[i..<i + length (l # ls)] = i # [Suc i..<Suc i + length ls]"
    by (simp add: upt_conv_Cons del: upt_Suc)
  show ?case
    unfolding u using Cons.IH [of "Suc i"] by (simp add: not_less)
qed simp

section \<open>Properties\<close>

text \<open>C16: The inference plane is asked only past every gate (verified token, configured, valid request,
  slot held where the endpoint is limited), at most once per request and with exactly the validated
  request; and the slot is given back on every path, also when the client raises.\<close>

theorem chat_gated_and_released:
  assumes "rl_ok rl"
  shows "(case build_chat_response client base_url now authorization body token_verifier
               \<lparr>ct_limiter = Some rl, ct_sent = sent\<rparr> of
            (r, st') \<Rightarrow>
              (\<exists>rl'. ct_limiter st' = Some rl' \<and> rl_value rl' = rl_value rl) \<and>
              (ct_sent st' = sent \<or>
               (\<exists>request. forwarded authorization token_verifier base_url body now (Some rl) request \<and>
                  ct_sent st' = sent @ [request] \<and> r = chat_result (client (the base_url) sent request)))) \<and>
         (case handle_chat_stream open_stream base_url max_seconds alive clock start now authorization body
                 token_verifier (rl, sent) of
            (r, rl', sent') \<Rightarrow>
              rl_value rl' = rl_value rl \<and>
              (sent' = sent \<or>
               (\<exists>request. forwarded authorization token_verifier base_url body now (Some rl) request \<and>
                  sent' = sent @ [request])))"
proof -
  let ?st = "\<lparr>ct_limiter = Some rl, ct_sent = sent\<rparr>"
  obtain r st' where b: "build_chat_response client base_url now authorization body token_verifier ?st = (r, st')"
    by fastforce
  obtain q rl' sent' where s: "handle_chat_stream open_stream base_url max_seconds alive clock start now
      authorization body token_verifier (rl, sent) = (q, rl', sent')"
    by (metis prod.collapse)
  have rel: "rl_value (rl_release (snd (try_acquire t now rl))) = rl_value rl" if "fst (try_acquire t now rl)" for t
    by (rule acquire_release_value [OF assms that])
  show ?thesis
    unfolding b s prod.case using chat_cases [OF b] stream_cases [OF s] rel
    by (fastforce simp: forwarded_def)
qed

definition chat_body :: json where
  "chat_body = JObj [(''model'', JStr ''m''),
     (''messages'', JArr [JObj [(''role'', JStr ''user''), (''content'', JStr ''hi'')]])]"

lemma chat_body_parsed:
  "parse_chat_request (Some chat_body) =
     Inr (Inr (chat_request_build ''m'' [\<lparr>cm_role = ''user'', cm_content = ''hi''\<rparr>] (JFloat (Fin (1/5))) None))"
proof -
  have "py_strip ''m'' = ''m''"
    by code_simp
  then show ?thesis
    by (simp add: parse_chat_request_def chat_body_def dget_def dget_or_def CHAT_ROLES_def
        temperature_field_def max_tokens_ok_def)
qed

lemma chat_gated_and_released_witness:
  "(case build_chat_response (\<lambda>_ _ _. Inl InferTimeout) (Some ''http://v'') 0 (Some ''Bearer ta'') (Some chat_body)
       (Some two_users) \<lparr>ct_limiter = Some (rate_limiter_init 5 2), ct_sent = []\<rparr> of
      (r, st') \<Rightarrow> length (ct_sent st') = 1 \<and> (\<exists>rl'. ct_limiter st' = Some rl' \<and> rl_value rl' = 2))"
proof -
  let ?x = "build_chat_response (\<lambda>_ _ _. Inl InferTimeout) (Some ''http://v'') 0 (Some ''Bearer ta'') (Some chat_body)
       (Some two_users) \<lparr>ct_limiter = Some (rate_limiter_init 5 2), ct_sent = []\<rparr>"
  obtain r st' where x: "?x = (r, st')" by fastforce
  have "rl_ok (rate_limiter_init 5 2)"
    by (simp add: rl_ok_def rate_limiter_init_def spent_def)
  from chat_gated_and_released [OF this, where client = "\<lambda>_ _ _. Inl InferTimeout" and base_url = "Some ''http://v''"
      and now = 0 and authorization = "Some ''Bearer ta''" and body = "Some chat_body"
      and token_verifier = "Some two_users" and sent = "[]"]
  have "\<exists>rl'. ct_limiter st' = Some rl' \<and> rl_value rl' = 2"
    unfolding x by (simp add: rate_limiter_init_def)
  moreover have "length (ct_sent (snd ?x)) = 1"
    by (simp add: build_chat_response_def chat_body_parsed opt_truthy_def try_acquire_eq rate_limiter_init_def
        chat_forward_def)
  ultimately show ?thesis
    using x by simp
qed

text \<open>The relay of a stream is exactly a prefix of the upstream's lines: its length is the number of
  writes before the first that fails, cut one line after the connection's lifetime is seen to be over.\<close>

theorem relay_bounded:
  "relay alive clock deadline 0 lines =
     take (min (length (takeWhile alive [0..<length lines]))
               (Suc (length (takeWhile (\<lambda>k. clock k \<le> deadline) [0..<length lines])))) lines"
  using relay_positions [of alive clock deadline 0 lines] by simp

end
