(* ===== verification/Documents.thy ===== *)
theory Documents
  imports Auth Policy Inference Texts
begin

text \<open>
  The document editor (app/control_plane/documents.py), and what it shares with the model comparison
  and the research agent: the state those endpoints keep (their limiter, the audit log, the requests the
  inference plane was sent) and one question to a model.
\<close>

section \<open>Asking a model\<close>

record ask_state =
  as_limiter :: rate_limiter
  as_audit :: "audit_entry list"
  as_sent :: "chat_request list"

text \<open>\<^verbatim>\<open>_content(client.chat_completions(request))\<close>.\<close>

definition ask :: "chat_client \<Rightarrow> chat_request \<Rightarrow> ask_state \<Rightarrow> (infer_exn + string) \<times> ask_state" where
  "ask client request st =
     ((case client (as_sent st) request of Inl ex \<Rightarrow> Inl ex | Inr resp \<Rightarrow> Inr (content_of resp)),
      st\<lparr>as_sent := as_sent st @ [request]\<rparr>)"

definition system_user :: "string \<Rightarrow> string \<Rightarrow> chat_message list" where
  "system_user system user =
     [\<lparr>cm_role = ''system'', cm_content = system\<rparr>, \<lparr>cm_role = ''user'', cm_content = user\<rparr>]"

definition release_slot :: "ask_state \<Rightarrow> ask_state" where
  "release_slot st = st\<lparr>as_limiter := rl_release (as_limiter st)\<rparr>"

definition is_unavailable :: "infer_exn \<Rightarrow> bool" where
  "is_unavailable ex = (case ex of Unavailable _ \<Rightarrow> True | _ \<Rightarrow> False)"

text \<open>A body that is a JSON object; anything else is refused without a detail.\<close>

definition object_body :: "json option \<Rightarrow> reply + dict" where
  "object_body body =
     (case body of Some (JObj data) \<Rightarrow> Inr data | _ \<Rightarrow> Inl (HTTP_BAD_REQUEST, err_only ''bad_request''))"

text \<open>A field that must be a string that is not blank.\<close>

definition needed_text :: "dict \<Rightarrow> string \<Rightarrow> reply + string" where
  "needed_text data k =
     (case dget data k of
        JStr s \<Rightarrow> if py_strip s = [] then Inl (bad_request (quoted k @ '' is required.'')) else Inr s
      | _ \<Rightarrow> Inl (bad_request (quoted k @ '' is required.'')))"

lemma needed_text_Inr: "needed_text data k = Inr s \<longleftrightarrow> dget data k = JStr s \<and> py_strip s \<noteq> []"
  by (cases "dget data k") (auto simp: needed_text_def)

lemma object_body_Inr: "object_body body = Inr data \<longleftrightarrow> body = Some (JObj data)"
  by (auto simp: object_body_def split: option.splits json.splits)

section \<open>The editor\<close>

definition DOC_MAX_CONTENT_CHARS :: nat where "DOC_MAX_CONTENT_CHARS = 20000"
definition DOC_MAX_INSTRUCTION_CHARS :: nat where "DOC_MAX_INSTRUCTION_CHARS = 2000"
definition DOC_MAX_TOKENS :: int where "DOC_MAX_TOKENS = 1024"

definition DOC_SYSTEM :: string where
  "DOC_SYSTEM =
     ''You are a writing assistant. Apply the user'' @ [CHR 0x27] @ ''s instruction to the document and ''
     @ ''return ONLY the revised document text '' @ [EM_DASH] @ '' no preamble, no explanation, no code ''
     @ ''fences. Preserve the author'' @ [CHR 0x27] @ ''s voice and any content the instruction does not ''
     @ ''ask you to change.''"

text \<open>Content, instruction and model of a request within its bounds.\<close>

definition document_fields ::
    "(rat \<Rightarrow> string) \<Rightarrow> nat \<Rightarrow> json option \<Rightarrow> reply + string \<times> string \<times> string" where
  "document_fields fr max_content_chars body =
     ebind (object_body body) (\<lambda>data.
     ebind (needed_text data ''content'') (\<lambda>content.
     ebind (needed_text data ''instruction'') (\<lambda>instruction.
       if max_content_chars < length content then Inl (HTTP_TOO_LARGE, err_only ''content_too_long'')
       else if DOC_MAX_INSTRUCTION_CHARS < length instruction
       then Inl (HTTP_TOO_LARGE, err_only ''instruction_too_long'')
       else Inr (content, instruction, py_str fr (jor (dget data ''model'') (JStr ''default''))))))"

definition document_request :: "string \<Rightarrow> string \<Rightarrow> string \<Rightarrow> chat_request" where
  "document_request content instruction model =
     chat_request_build model
       (system_user DOC_SYSTEM
          (''Instruction: '' @ instruction @ [CHR 0x0A, CHR 0x0A] @ ''Document:'' @ [CHR 0x0A] @ content))
       default_temperature (Some (JInt DOC_MAX_TOKENS))"

definition document_outcome ::
    "owner \<Rightarrow> string \<Rightarrow> string \<Rightarrow> int \<Rightarrow> infer_exn + string \<Rightarrow> ask_state \<Rightarrow> reply \<times> ask_state" where
  "document_outcome who content instruction latency_ms answer st =
     (case answer of
        Inl ex \<Rightarrow>
          (if is_unavailable ex then (HTTP_UNAVAILABLE, err_degraded0 ''documents_unavailable'')
           else (HTTP_BAD_GATEWAY, err_degraded0 ''edit_failed''), st)
      | Inr result \<Rightarrow>
          ((HTTP_OK, JObj [(''result'', JStr result)]),
           st\<lparr>as_audit := audit who ''document_edit''
                (json_args [(''content'', JStr content), (''instruction'', JStr instruction)])
                ''allowed'' (Some ''success'') (Some latency_ms) None (as_audit st)\<rparr>))"

definition build_document_edit_response ::
    "(rat \<Rightarrow> string) \<Rightarrow> bool \<Rightarrow> chat_client option \<Rightarrow> nat \<Rightarrow> int \<Rightarrow> int \<Rightarrow> string option \<Rightarrow> json option
       \<Rightarrow> verifier option \<Rightarrow> ask_state \<Rightarrow> reply \<times> ask_state" where
  "build_document_edit_response fr enabled inference_client max_content_chars secs latency_ms
       authorization body token_verifier st =
     (case verify_and_extract authorization token_verifier of
        Inl err \<Rightarrow> (err, st)
      | Inr claims \<Rightarrow>
          if \<not> enabled \<or> inference_client = None
          then ((HTTP_UNAVAILABLE, err_degraded ''documents_unavailable''
                   ''The inference backend is not configured; AI edit is unavailable.''), st)
          else
     (case document_fields fr max_content_chars body of
        Inl err \<Rightarrow> (err, st)
      | Inr (content, instruction, model) \<Rightarrow>
     (case try_acquire (extract_tenant_id claims) secs (as_limiter st) of
        (False, rl) \<Rightarrow> ((HTTP_TOO_MANY, err_only ''rate_limited''), st\<lparr>as_limiter := rl\<rparr>)
      | (True, rl) \<Rightarrow>
          let (answer, st) = ask (the inference_client) (document_request content instruction model)
                               (st\<lparr>as_limiter := rl\<rparr>)
          in document_outcome (owner_of claims) content instruction latency_ms answer (release_slot st))))"

section \<open>Lemmas\<close>

lemma ask_frame [simp]:
  "as_limiter (snd (ask client req st)) = as_limiter st"
  "as_audit (snd (ask client req st)) = as_audit st"
  "as_sent (snd (ask client req st)) = as_sent st @ [req]"
  by (simp_all add: ask_def)

lemma release_slot_frame [simp]:
  "as_limiter (release_slot st) = rl_release (as_limiter st)"
  "as_audit (release_slot st) = as_audit st"
  "as_sent (release_slot st) = as_sent st"
  by (simp_all add: release_slot_def)

lemma document_outcome_frame [simp]:
  "as_limiter (snd (document_outcome who c i l a st)) = as_limiter st"
  "as_sent (snd (document_outcome who c i l a st)) = as_sent st"
  by (simp_all add: document_outcome_def split: sum.split)

lemma document_fields_Inr:
  assumes "document_fields fr m body = Inr (content, instruction, model)"
  shows "\<exists>data. body = Some (JObj data) \<and> dget data ''content'' = JStr content \<and>
    dget data ''instruction'' = JStr instruction \<and> py_strip content \<noteq> [] \<and> py_strip instruction \<noteq> [] \<and>
    length content \<le> m \<and> length instruction \<le> DOC_MAX_INSTRUCTION_CHARS"
  using assms
  by (auto simp: document_fields_def ebind_Inr needed_text_Inr object_body_Inr split: if_splits)

text \<open>What an edit asks the model when it gets that far.\<close>

lemma document_edit_cases:
  assumes "build_document_edit_response fr enabled ic m secs lat a b v st = (r, st')"
  shows "(as_sent st' = as_sent st \<and> as_audit st' = as_audit st \<and>
            rl_value (as_limiter st') = rl_value (as_limiter st)) \<or>
         (\<exists>claims client content instruction model rl.
            verify_and_extract a v = Inr claims \<and> enabled \<and> ic = Some client \<and>
            document_fields fr m b = Inr (content, instruction, model) \<and>
            try_acquire (extract_tenant_id claims) secs (as_limiter st) = (True, rl) \<and>
            (r, st') = document_outcome (owner_of claims) content instruction lat
               (fst (ask client (document_request content instruction model) (st\<lparr>as_limiter := rl\<rparr>)))
               (release_slot (snd (ask client (document_request content instruction model) (st\<lparr>as_limiter := rl\<rparr>)))))"
proof (cases "verify_and_extract a v")
  case (Inl e)
  then show ?thesis using assms by (auto simp: build_document_edit_response_def)
next
  case v: (Inr claims)
  show ?thesis
  proof (cases "enabled \<and> ic \<noteq> None")
    case False
    then show ?thesis using assms v by (auto simp: build_document_edit_response_def)
  next
    case True
    then obtain client where ic: enabled "ic = Some client" by auto
    show ?thesis
    proof (cases "document_fields fr m b")
      case (Inl e)
      then show ?thesis using assms v ic by (auto simp: build_document_edit_response_def)
    next
      case (Inr f)
      obtain content instruction model where f: "f = (content, instruction, model)" by (cases f)
      obtain ok rl where t: "try_acquire (extract_tenant_id claims) secs (as_limiter st) = (ok, rl)" by fastforce
      show ?thesis
      proof (cases ok)
        case False
        then show ?thesis
          using assms v ic Inr f t try_acquire_value(1) [of "extract_tenant_id claims" secs "as_limiter st"]
          by (auto simp: build_document_edit_response_def)
      next
        case True
        then show ?thesis
          using assms v ic Inr f t by (auto simp: build_document_edit_response_def split_beta)
      qed
    qed
  qed
qed

lemma document_outcome_cases:
  "document_outcome who c i lat (fst (ask client req st)) st2 = (r, st') \<Longrightarrow>
     (\<exists>resp. client (as_sent st) req = Inr resp \<and> fst r = HTTP_OK \<and>
        r = (HTTP_OK, JObj [(''result'', JStr (content_of resp))]) \<and>
        as_audit st' = audit who ''document_edit'' (json_args [(''content'', JStr c), (''instruction'', JStr i)])
                ''allowed'' (Some ''success'') (Some lat) None (as_audit st2)) \<or>
     ((\<exists>ex. client (as_sent st) req = Inl ex) \<and> fst r \<in> {HTTP_UNAVAILABLE, HTTP_BAD_GATEWAY} \<and>
        as_audit st' = as_audit st2)"
  by (auto simp: document_outcome_def ask_def split: sum.splits if_splits)

section \<open>An example\<close>

definition edit_body :: json where
  "edit_body = JObj [(''content'', JStr ''a text''), (''instruction'', JStr ''shorten'')]"

lemma edit_fields: "document_fields fr DOC_MAX_CONTENT_CHARS (Some edit_body) = Inr (''a text'', ''shorten'', ''default'')"
proof -
  have "py_strip ''a text'' = ''a text''" "py_strip ''shorten'' = ''shorten''"
    by code_simp+
  then show ?thesis
    by (simp add: document_fields_def object_body_def edit_body_def needed_text_def jor_def
        DOC_MAX_CONTENT_CHARS_def DOC_MAX_INSTRUCTION_CHARS_def)
qed

definition ask_idle :: ask_state where
  "ask_idle = \<lparr>as_limiter = rate_limiter_init 5 2, as_audit = [], as_sent = []\<rparr>"

lemma ask_idle_ok: "rl_ok (as_limiter ask_idle)" "rl_value (as_limiter ask_idle) = 2"
  by (simp_all add: ask_idle_def rl_ok_def rate_limiter_init_def spent_def)

section \<open>Properties\<close>

text \<open>An edit asks the model at most once, only past every gate (verified token, switch, configured
  client, both texts present and within their bounds, a slot held), with the editor's instructions as the
  system message and the caller's texts only in the user message.  The slot is given back on every path, a
  failing model included; and the audit log grows by one entry, of the shape of the texts, exactly when the
  model answered.\<close>

theorem document_edit_gated:
  assumes "rl_ok (as_limiter st)"
  shows "case build_document_edit_response fr enabled inference_client max_content secs latency
                authorization body token_verifier st of
     (r, st') \<Rightarrow>
       rl_value (as_limiter st') = rl_value (as_limiter st) \<and>
       ((as_sent st' = as_sent st \<and> as_audit st' = as_audit st) \<or>
        (\<exists>claims client content instruction model.
           verify_and_extract authorization token_verifier = Inr claims \<and> enabled \<and>
           inference_client = Some client \<and>
           document_fields fr max_content body = Inr (content, instruction, model) \<and>
           py_strip content \<noteq> [] \<and> length content \<le> max_content \<and>
           py_strip instruction \<noteq> [] \<and> length instruction \<le> DOC_MAX_INSTRUCTION_CHARS \<and>
           fst (try_acquire (extract_tenant_id claims) secs (as_limiter st)) \<and>
           as_sent st' = as_sent st @ [document_request content instruction model] \<and>
           (case client (as_sent st) (document_request content instruction model) of
              Inl ex \<Rightarrow> fst r \<in> {HTTP_UNAVAILABLE, HTTP_BAD_GATEWAY} \<and> as_audit st' = as_audit st
            | Inr resp \<Rightarrow>
                r = (HTTP_OK, JObj [(''result'', JStr (content_of resp))]) \<and>
                as_audit st' = audit (owner_of claims) ''document_edit''
                  (json_args [(''content'', JStr content), (''instruction'', JStr instruction)])
                  ''allowed'' (Some ''success'') (Some latency) None (as_audit st))))"
proof -
  obtain r st' where b: "build_document_edit_response fr enabled inference_client max_content secs latency
      authorization body token_verifier st = (r, st')"
    by fastforce
  show ?thesis
  proof (cases "as_sent st' = as_sent st \<and> as_audit st' = as_audit st \<and>
      rl_value (as_limiter st') = rl_value (as_limiter st)")
    case True
    then show ?thesis unfolding b by simp
  next
    case False
    then obtain claims client content instruction model rl
      where g: "verify_and_extract authorization token_verifier = Inr claims" enabled "inference_client = Some client"
          "document_fields fr max_content body = Inr (content, instruction, model)"
        and t: "try_acquire (extract_tenant_id claims) secs (as_limiter st) = (True, rl)"
        and o: "(r, st') = document_outcome (owner_of claims) content instruction latency
               (fst (ask client (document_request content instruction model) (st\<lparr>as_limiter := rl\<rparr>)))
               (release_slot (snd (ask client (document_request content instruction model) (st\<lparr>as_limiter := rl\<rparr>))))"
      using document_edit_cases [OF b] by blast
    let ?req = "document_request content instruction model"
    have s: "as_limiter st' = rl_release rl" "as_sent st' = as_sent st @ [?req]"
      using arg_cong [OF o, of "as_limiter \<circ> snd"] arg_cong [OF o, of "as_sent \<circ> snd"] by simp_all
    have "rl_value (as_limiter st') = rl_value (as_limiter st)"
      using acquire_release_value [OF assms, of "extract_tenant_id claims" secs] t s(1) by simp
    moreover have "case client (as_sent st) ?req of
        Inl ex \<Rightarrow> fst r \<in> {HTTP_UNAVAILABLE, HTTP_BAD_GATEWAY} \<and> as_audit st' = as_audit st
      | Inr resp \<Rightarrow> r = (HTTP_OK, JObj [(''result'', JStr (content_of resp))]) \<and>
          as_audit st' = audit (owner_of claims) ''document_edit''
            (json_args [(''content'', JStr content), (''instruction'', JStr instruction)])
            ''allowed'' (Some ''success'') (Some latency) None (as_audit st)"
      using document_outcome_cases [OF o [symmetric]] by (auto split: sum.split)
    ultimately show ?thesis
      unfolding b prod.case using g t s(2) document_fields_Inr [OF g(4)]
      by (intro conjI disjI2 exI) auto
  qed
qed

lemma document_edit_gated_witness:
  "(case build_document_edit_response (\<lambda>_. []) True (Some (\<lambda>_ _. Inl InferTimeout)) DOC_MAX_CONTENT_CHARS 0 7
       (Some ''Bearer ta'') (Some edit_body) (Some two_users) ask_idle of
      (r, st') \<Rightarrow> rl_value (as_limiter st') = 2 \<and> length (as_sent st') = 1 \<and> fst r = HTTP_BAD_GATEWAY)"
proof -
  let ?x = "build_document_edit_response (\<lambda>_. []) True (Some (\<lambda>_ _. Inl InferTimeout)) DOC_MAX_CONTENT_CHARS 0 7
       (Some ''Bearer ta'') (Some edit_body) (Some two_users) ask_idle"
  obtain r st' where x: "?x = (r, st')" by fastforce
  have "rl_value (as_limiter st') = 2"
    using document_edit_gated [OF ask_idle_ok(1), where fr = "\<lambda>_. []" and enabled = True
        and inference_client = "Some (\<lambda>_ _. Inl InferTimeout)" and max_content = DOC_MAX_CONTENT_CHARS
        and secs = 0 and latency = 7 and authorization = "Some ''Bearer ta''" and body = "Some edit_body"
        and token_verifier = "Some two_users"]
    unfolding x by (simp add: ask_idle_ok)
  moreover have "length (as_sent (snd ?x)) = 1 \<and> fst (fst ?x) = HTTP_BAD_GATEWAY"
    by (simp add: build_document_edit_response_def edit_fields ask_idle_def try_acquire_eq rate_limiter_init_def
        ask_def document_outcome_def is_unavailable_def release_slot_def)
  ultimately show ?thesis
    using x by simp
qed

end
