(* ===== verification/Compare.thy ===== *)
theory Compare
  imports Documents
begin

text \<open>
  The model comparison (app/control_plane/compare.py): one prompt to several models, the results under
  blind labels, and the optional synthesis of the answers.
\<close>

definition CMP_MAX_PROMPT_CHARS :: nat where "CMP_MAX_PROMPT_CHARS = 8000"
definition CMP_MAX_MODELS :: nat where "CMP_MAX_MODELS = 4"
definition CMP_MAX_TOKENS :: int where "CMP_MAX_TOKENS = 512"
definition CMP_LABELS :: string where "CMP_LABELS = ''ABCDEFGH''"

record compare_result =
  cp_label :: string
  cp_model :: string
  cp_content :: "string option"
  cp_error :: "string option"

text \<open>\<^verbatim>\<open>_one\<close>: a content or the name of what went wrong.\<close>

definition answer_or_error :: "infer_exn + string \<Rightarrow> string option \<times> string option" where
  "answer_or_error r =
     (case r of
        Inr content \<Rightarrow> (Some content, None)
      | Inl ex \<Rightarrow> (None, Some (if is_unavailable ex then ''unavailable'' else ''error'')))"

definition cmp_one ::
    "chat_client \<Rightarrow> string \<Rightarrow> chat_message list \<Rightarrow> int \<Rightarrow> ask_state
       \<Rightarrow> (string option \<times> string option) \<times> ask_state" where
  "cmp_one client model messages max_tokens st =
     apfst answer_or_error
       (ask client (chat_request_build model messages default_temperature (Some (JInt max_tokens))) st)"

text \<open>The loop over the models; a label past the last one raises \<^verbatim>\<open>IndexError\<close>.\<close>

fun compare_loop ::
    "chat_client \<Rightarrow> chat_message list \<Rightarrow> int \<Rightarrow> nat \<Rightarrow> string list \<Rightarrow> ask_state
       \<Rightarrow> (py_exn + compare_result list) \<times> ask_state" where
  "compare_loop client messages max_tokens i [] st = (Inr [], st)"
| "compare_loop client messages max_tokens i (model # models) st =
     (let ((content, err), st) = cmp_one client model messages max_tokens st in
      if length CMP_LABELS \<le> i then (Inl IndexError, st)
      else
        let (rest, st) = compare_loop client messages max_tokens (Suc i) models st
        in (ebind rest (\<lambda>rs. Inr (\<lparr>cp_label = [CMP_LABELS ! i], cp_model = model, cp_content = content,
                                   cp_error = err\<rparr> # rs)), st))"

definition has_content :: "compare_result \<Rightarrow> bool" where
  "has_content r = (case cp_content r of None \<Rightarrow> False | Some s \<Rightarrow> s \<noteq> [])"

definition SYNTH_SYSTEM :: string where
  "SYNTH_SYSTEM =
     ''You are given two or more candidate answers to the same prompt, ''
     @ ''labelled [A], [B], '' @ [ELLIPSIS] @ '' Synthesise the best combined answer and note ''
     @ ''where they agree or differ. Do not invent facts.''"

definition synthesis_messages :: "string \<Rightarrow> compare_result list \<Rightarrow> chat_message list" where
  "synthesis_messages prompt good =
     system_user SYNTH_SYSTEM
       (''Prompt: '' @ prompt @ [CHR 0x0A, CHR 0x0A] @ ''Candidates:'' @ [CHR 0x0A]
        @ py_join [CHR 0x0A, CHR 0x0A] (map (\<lambda>r. ''['' @ cp_label r @ ''] '' @ the (cp_content r)) good))"

definition run_compare ::
    "chat_client \<Rightarrow> string \<Rightarrow> string list \<Rightarrow> int \<Rightarrow> bool \<Rightarrow> ask_state
       \<Rightarrow> (py_exn + compare_result list \<times> string option) \<times> ask_state" where
  "run_compare client prompt models max_tokens synthesize st =
     (case compare_loop client [\<lparr>cm_role = ''user'', cm_content = prompt\<rparr>] max_tokens 0 models st of
        (Inl ex, st) \<Rightarrow> (Inl ex, st)
      | (Inr results, st) \<Rightarrow>
          let good = filter has_content results in
          if synthesize \<and> 2 \<le> length good
          then let ((synthesis, _), st) =
                     cmp_one client (cp_model (hd good)) (synthesis_messages prompt good) max_tokens st
               in (Inr (results, synthesis), st)
          else (Inr (results, None), st))"

text \<open>Prompt, models and the synthesis flag of a request within its bounds.\<close>

definition compare_fields ::
    "(rat \<Rightarrow> string) \<Rightarrow> nat \<Rightarrow> json list \<Rightarrow> json option \<Rightarrow> reply + string \<times> string list \<times> bool" where
  "compare_fields fr max_prompt_chars default_models body =
     ebind (object_body body) (\<lambda>data.
     ebind (needed_text data ''prompt'') (\<lambda>prompt.
       if max_prompt_chars < length prompt then Inl (HTTP_TOO_LARGE, err_only ''prompt_too_long'')
       else (case jor (dget data ''models'') (JArr default_models) of
               JArr models \<Rightarrow>
                 if 2 \<le> length models \<and> length models \<le> CMP_MAX_MODELS
                 then Inr (prompt, map (py_str fr) models, truthy (dget data ''synthesize''))
                 else Inl (bad_request (quoted ''models'' @ '' must list 2'' @ [EN_DASH] @ ''4 model names.''))
             | _ \<Rightarrow> Inl (bad_request (quoted ''models'' @ '' must list 2'' @ [EN_DASH] @ ''4 model names.'')))))"

definition compare_result_dict :: "compare_result \<Rightarrow> json" where
  "compare_result_dict r =
     JObj [(''label'', JStr (cp_label r)), (''model'', JStr (cp_model r)),
           (''content'', jopt JStr (cp_content r)), (''error'', jopt JStr (cp_error r))]"

definition build_compare_response ::
    "(rat \<Rightarrow> string) \<Rightarrow> bool \<Rightarrow> chat_client option \<Rightarrow> nat \<Rightarrow> json list \<Rightarrow> int \<Rightarrow> int \<Rightarrow> string option
       \<Rightarrow> json option \<Rightarrow> verifier option \<Rightarrow> ask_state \<Rightarrow> (py_exn + reply) \<times> ask_state" where
  "build_compare_response fr enabled inference_client max_prompt_chars default_models secs latency_ms
       authorization body token_verifier st =
     (case verify_and_extract authorization token_verifier of
        Inl err \<Rightarrow> (Inr err, st)
      | Inr claims \<Rightarrow>
          if \<not> enabled \<or> inference_client = None
          then (Inr (HTTP_UNAVAILABLE, err_degraded ''compare_unavailable''
                   ''The inference backend is not configured; compare is unavailable.''), st)
          else
     (case compare_fields fr max_prompt_chars default_models body of
        Inl err \<Rightarrow> (Inr err, st)
      | Inr (prompt, models, synthesize) \<Rightarrow>
     (case try_acquire (extract_tenant_id claims) secs (as_limiter st) of
        (False, rl) \<Rightarrow> (Inr (HTTP_TOO_MANY, err_only ''rate_limited''), st\<lparr>as_limiter := rl\<rparr>)
      | (True, rl) \<Rightarrow>
          (case run_compare (the inference_client) prompt models CMP_MAX_TOKENS synthesize
                  (st\<lparr>as_limiter := rl\<rparr>) of
             (Inl ex, st) \<Rightarrow> (Inl ex, release_slot st)
           | (Inr (results, synthesis), st) \<Rightarrow>
               (Inr (HTTP_OK, JObj [(''results'', JArr (map compare_result_dict results)),
                                    (''synthesis'', jopt JStr synthesis)]),
                (release_slot st)\<lparr>as_audit := audit (owner_of claims) ''compare''
                   (json_args [(''models'', JArr (map JStr models))])
                   ''allowed'' (Some ''success'') (Some latency_ms) None (as_audit st)\<rparr>)))))"

section \<open>The comparison, said of positions\<close>

definition compare_request :: "string \<Rightarrow> int \<Rightarrow> string \<Rightarrow> chat_request" where
  "compare_request prompt max_tokens model =
     chat_request_build model [\<lparr>cm_role = ''user'', cm_content = prompt\<rparr>] default_temperature
       (Some (JInt max_tokens))"

text \<open>What model number \<open>i\<close> answers: it is asked after those before it.\<close>

definition answer_at :: "chat_client \<Rightarrow> chat_request list \<Rightarrow> chat_request list \<Rightarrow> nat \<Rightarrow> infer_exn + json" where
  "answer_at client sent requests i = client (sent @ take i requests) (requests ! i)"

definition result_at ::
    "chat_client \<Rightarrow> string \<Rightarrow> int \<Rightarrow> string list \<Rightarrow> chat_request list \<Rightarrow> nat \<Rightarrow> compare_result" where
  "result_at client prompt max_tokens models sent i =
     (let answer = answer_at client sent (map (compare_request prompt max_tokens) models) i
      in \<lparr>cp_label = [CMP_LABELS ! i], cp_model = models ! i,
          cp_content = (case answer of Inl _ \<Rightarrow> None | Inr resp \<Rightarrow> Some (content_of resp)),
          cp_error = (case answer of
                        Inl ex \<Rightarrow> Some (if is_unavailable ex then ''unavailable'' else ''error'')
                      | Inr _ \<Rightarrow> None)\<rparr>)"

definition synthesis_request :: "string \<Rightarrow> int \<Rightarrow> compare_result list \<Rightarrow> chat_request" where
  "synthesis_request prompt max_tokens results =
     (let good = filter has_content results
      in chat_request_build (cp_model (hd good)) (synthesis_messages prompt good) default_temperature
           (Some (JInt max_tokens)))"

lemma cmp_one_eq:
  "cmp_one client model messages k st =
     (let req = chat_request_build model messages default_temperature (Some (JInt k)) in
      (case client (as_sent st) req of
         Inl ex \<Rightarrow> (None, Some (if is_unavailable ex then ''unavailable'' else ''error''))
       | Inr resp \<Rightarrow> (Some (content_of resp), None), st\<lparr>as_sent := as_sent st @ [req]\<rparr>))"
  by (simp add: cmp_one_def ask_def answer_or_error_def split: sum.split)

lemma compare_loop_eq:
  assumes "i + length models \<le> length CMP_LABELS"
  shows "compare_loop client [\<lparr>cm_role = ''user'', cm_content = prompt\<rparr>] k i models st =
     (Inr (map (\<lambda>j. (result_at client prompt k models (as_sent st) j)\<lparr>cp_label := [CMP_LABELS ! (i + j)]\<rparr>)
             [0..<length models]),
      st\<lparr>as_sent := as_sent st @ map (compare_request prompt k) models\<rparr>)"
  using assms
proof (induction models arbitrary: i st)
  case (Cons m ms)
  let ?st = "st\<lparr>as_sent := as_sent st @ [compare_request prompt k m]\<rparr>"
  have shift: "result_at client prompt k (m # ms) (as_sent st) (Suc j)\<lparr>cp_label := l\<rparr> =
      result_at client prompt k ms (as_sent ?st) j\<lparr>cp_label := l\<rparr>" for j l
    by (simp add: result_at_def answer_at_def Let_def)
  have u: "[0..<length (m # ms)] = 0 # map Suc [0..<length ms]"
    by (simp add: upt_conv_Cons map_Suc_upt del: upt_Suc)
  have IH: "compare_loop client [\<lparr>cm_role = ''user'', cm_content = prompt\<rparr>] k (Suc i) ms ?st =
     (Inr (map (\<lambda>j. (result_at client prompt k ms (as_sent ?st) j)\<lparr>cp_label := [CMP_LABELS ! (Suc i + j)]\<rparr>)
             [0..<length ms]),
      ?st\<lparr>as_sent := as_sent ?st @ map (compare_request prompt k) ms\<rparr>)"
    using Cons.prems by (intro Cons.IH) simp
  have one: "cmp_one client m [\<lparr>cm_role = ''user'', cm_content = prompt\<rparr>] k st =
      ((cp_content (result_at client prompt k (m # ms) (as_sent st) 0),
        cp_error (result_at client prompt k (m # ms) (as_sent st) 0)), ?st)"
    by (simp add: cmp_one_eq compare_request_def result_at_def answer_at_def Let_def split: sum.split)
  have "\<not> length CMP_LABELS \<le> i"
    using Cons.prems by simp
  moreover have "\<lparr>cp_label = l, cp_model = m, cp_content = cp_content (result_at client prompt k (m # ms) s 0),
       cp_error = cp_error (result_at client prompt k (m # ms) s 0)\<rparr> =
     (result_at client prompt k (m # ms) s 0)\<lparr>cp_label := l\<rparr>" for l s
    by (simp add: result_at_def Let_def)
  ultimately show ?case
    unfolding u by (simp add: one IH shift comp_def)
qed simp

lemma run_compare_eq:
  assumes "length models \<le> length CMP_LABELS"
  shows "run_compare client prompt models k syn st =
     (let results = map (result_at client prompt k models (as_sent st)) [0..<length models];
          sent = as_sent st @ map (compare_request prompt k) models;
          req = synthesis_request prompt k results
      in if syn \<and> 2 \<le> length (filter has_content results)
         then (Inr (results, case client sent req of Inl _ \<Rightarrow> None | Inr resp \<Rightarrow> Some (content_of resp)),
               st\<lparr>as_sent := sent @ [req]\<rparr>)
         else (Inr (results, None), st\<lparr>as_sent := sent\<rparr>))"
proof -
  have "(result_at client prompt k models s j)\<lparr>cp_label := [CMP_LABELS ! j]\<rparr> = result_at client prompt k models s j"
    for s j
    by (simp add: result_at_def Let_def)
  then have "compare_loop client [\<lparr>cm_role = ''user'', cm_content = prompt\<rparr>] k 0 models st =
     (Inr (map (result_at client prompt k models (as_sent st)) [0..<length models]),
      st\<lparr>as_sent := as_sent st @ map (compare_request prompt k) models\<rparr>)"
    using assms by (simp add: compare_loop_eq)
  then show ?thesis
    by (simp add: run_compare_def cmp_one_eq synthesis_request_def Let_def split: sum.split)
qed

lemma compare_fields_Inr:
  assumes "compare_fields fr m dm body = Inr (prompt, models, syn)"
  shows "2 \<le> length models \<and> length models \<le> CMP_MAX_MODELS \<and> py_strip prompt \<noteq> [] \<and> length prompt \<le> m"
  using assms
  by (auto simp: compare_fields_def ebind_Inr needed_text_Inr object_body_Inr split: if_splits json.splits)

lemma compare_cases:
  assumes "build_compare_response fr enabled ic m dm secs lat a b v st = (r, st')"
  shows "(as_sent st' = as_sent st \<and> as_audit st' = as_audit st \<and> (\<exists>p. r = Inr p \<and> fst p \<noteq> HTTP_OK) \<and>
            rl_value (as_limiter st') = rl_value (as_limiter st)) \<or>
         (\<exists>claims client prompt models syn rl.
            verify_and_extract a v = Inr claims \<and> enabled \<and> ic = Some client \<and>
            compare_fields fr m dm b = Inr (prompt, models, syn) \<and>
            try_acquire (extract_tenant_id claims) secs (as_limiter st) = (True, rl) \<and>
            (case run_compare client prompt models CMP_MAX_TOKENS syn (st\<lparr>as_limiter := rl\<rparr>) of
               (Inl ex, st2) \<Rightarrow> (r, st') = (Inl ex, release_slot st2)
             | (Inr (results, synthesis), st2) \<Rightarrow>
                 r = Inr (HTTP_OK, JObj [(''results'', JArr (map compare_result_dict results)),
                                    (''synthesis'', jopt JStr synthesis)]) \<and>
                 st' = (release_slot st2)\<lparr>as_audit := audit (owner_of claims) ''compare''
                   (json_args [(''models'', JArr (map JStr models))])
                   ''allowed'' (Some ''success'') (Some lat) None (as_audit st2)\<rparr>))"
proof (cases "verify_and_extract a v")
  case (Inl e)
  then have "fst e \<noteq> HTTP_OK"
    by (auto dest: auth_error_status)
  with Inl show ?thesis using assms by (cases e) (auto simp: build_compare_response_def)
next
  case v: (Inr claims)
  show ?thesis
  proof (cases "enabled \<and> ic \<noteq> None")
    case False
    then show ?thesis using assms v by (auto simp: build_compare_response_def)
  next
    case True
    then obtain client where ic: "enabled" "ic = Some client" by auto
    show ?thesis
    proof (cases "compare_fields fr m dm b")
      case (Inl e)
      then have "fst e \<noteq> HTTP_OK"
        by (auto simp: compare_fields_def object_body_def needed_text_def bad_request_def ebind_def
            split: option.splits json.splits if_splits)
      then show ?thesis using assms v ic Inl by (cases e) (auto simp: build_compare_response_def)
    next
      case (Inr f)
      obtain prompt models syn where f: "f = (prompt, models, syn)" by (cases f)
      obtain ok rl where t: "try_acquire (extract_tenant_id claims) secs (as_limiter st) = (ok, rl)" by fastforce
      show ?thesis
      proof (cases ok)
        case False
        then show ?thesis
          using assms v ic Inr f t try_acquire_value(1) [of "extract_tenant_id claims" secs "as_limiter st"]
          by (auto simp: build_compare_response_def)
      next
        case True
        obtain q st2 where q: "run_compare client prompt models CMP_MAX_TOKENS syn (st\<lparr>as_limiter := rl\<rparr>) = (q, st2)"
          by fastforce
        show ?thesis
          using assms v ic Inr f t True q
          by (cases q) (auto simp: build_compare_response_def)
      qed
    qed
  qed
qed

section \<open>Properties\<close>

text \<open>C29: A comparison that gets past its gates asks two to four models, each exactly once and in order,
  with the same prompt and nothing of the others' answers, and reports for each, under its blind label, its
  own answer or its own failure; the synthesis is asked only on request and of two answers with content or
  more.  One that does not asks nobody and audits nothing.  The handler raises nothing, and its slot is
  given back.\<close>

theorem compare_answers_each:
  assumes "rl_ok (as_limiter st)"
  shows "case build_compare_response fr enabled inference_client max_prompt default_models secs latency
                authorization body token_verifier st of
     (r, st') \<Rightarrow>
       rl_value (as_limiter st') = rl_value (as_limiter st) \<and>
       ((as_sent st' = as_sent st \<and> as_audit st' = as_audit st \<and> (\<exists>p. r = Inr p \<and> fst p \<noteq> HTTP_OK)) \<or>
        (\<exists>claims client prompt models synthesize.
           verify_and_extract authorization token_verifier = Inr claims \<and> enabled \<and>
           inference_client = Some client \<and>
           compare_fields fr max_prompt default_models body = Inr (prompt, models, synthesize) \<and>
           2 \<le> length models \<and> length models \<le> 4 \<and> length prompt \<le> max_prompt \<and>
           fst (try_acquire (extract_tenant_id claims) secs (as_limiter st)) \<and>
           (let results = map (result_at client prompt CMP_MAX_TOKENS models (as_sent st)) [0..<length models];
                asked = as_sent st @ map (compare_request prompt CMP_MAX_TOKENS) models;
                combine = synthesize \<and> 2 \<le> length (filter has_content results);
                req = synthesis_request prompt CMP_MAX_TOKENS results;
                synthesis = (if combine
                             then (case client asked req of Inl _ \<Rightarrow> None | Inr resp \<Rightarrow> Some (content_of resp))
                             else None)
            in r = Inr (HTTP_OK, JObj [(''results'', JArr (map compare_result_dict results)),
                                       (''synthesis'', jopt JStr synthesis)]) \<and>
               as_sent st' = asked @ (if combine then [req] else []) \<and>
               as_audit st' = audit (owner_of claims) ''compare'' (json_args [(''models'', JArr (map JStr models))])
                 ''allowed'' (Some ''success'') (Some latency) None (as_audit st))))"
proof -
  obtain r st' where b: "build_compare_response fr enabled inference_client max_prompt default_models secs latency
      authorization body token_verifier st = (r, st')"
    by fastforce
  show ?thesis
  proof (cases "as_sent st' = as_sent st \<and> as_audit st' = as_audit st \<and> (\<exists>p. r = Inr p \<and> fst p \<noteq> HTTP_OK) \<and>
      rl_value (as_limiter st') = rl_value (as_limiter st)")
    case True
    then show ?thesis unfolding b by simp
  next
    case False
    then obtain claims client prompt models syn rl
      where g: "verify_and_extract authorization token_verifier = Inr claims" enabled "inference_client = Some client"
          "compare_fields fr max_prompt default_models body = Inr (prompt, models, syn)"
        and t: "try_acquire (extract_tenant_id claims) secs (as_limiter st) = (True, rl)"
        and o: "case run_compare client prompt models CMP_MAX_TOKENS syn (st\<lparr>as_limiter := rl\<rparr>) of
               (Inl ex, st2) \<Rightarrow> (r, st') = (Inl ex, release_slot st2)
             | (Inr (results, synthesis), st2) \<Rightarrow>
                 r = Inr (HTTP_OK, JObj [(''results'', JArr (map compare_result_dict results)),
                                    (''synthesis'', jopt JStr synthesis)]) \<and>
                 st' = (release_slot st2)\<lparr>as_audit := audit (owner_of claims) ''compare''
                   (json_args [(''models'', JArr (map JStr models))])
                   ''allowed'' (Some ''success'') (Some latency) None (as_audit st2)\<rparr>"
      using compare_cases [OF b] by (elim disjE exE conjE) (blast | (rule that; assumption))+
    note len = compare_fields_Inr [OF g(4)]
    then have "length models \<le> length CMP_LABELS"
      by (simp add: CMP_LABELS_def CMP_MAX_MODELS_def)
    note eq = run_compare_eq [OF this, of client prompt CMP_MAX_TOKENS syn "st\<lparr>as_limiter := rl\<rparr>"]
    have "rl_value (rl_release rl) = rl_value (as_limiter st)"
      using acquire_release_value [OF assms, of "extract_tenant_id claims" secs] t by simp
    then show ?thesis
      unfolding b prod.case using g t o [unfolded eq] len
      by (intro conjI disjI2 exI) (auto simp: Let_def CMP_MAX_MODELS_def split: if_splits)
  qed
qed

definition compare_body :: json where
  "compare_body = JObj [(''prompt'', JStr ''why''), (''models'', JArr [JStr ''a'', JStr ''b''])]"

lemma compare_body_fields:
  "compare_fields fr CMP_MAX_PROMPT_CHARS [] (Some compare_body) = Inr (''why'', [''a'', ''b''], False)"
proof -
  have "py_strip ''why'' = ''why''"
    by code_simp
  then show ?thesis
    by (simp add: compare_fields_def object_body_def compare_body_def needed_text_def jor_def
        CMP_MAX_PROMPT_CHARS_def CMP_MAX_MODELS_def)
qed

lemma compare_answers_each_witness:
  "(case build_compare_response (\<lambda>_. []) True (Some (\<lambda>_ _. Inl InferTimeout)) CMP_MAX_PROMPT_CHARS [] 0 7
       (Some ''Bearer ta'') (Some compare_body) (Some two_users) ask_idle of
      (r, st') \<Rightarrow> rl_value (as_limiter st') = 2 \<and>
        map cr_model (as_sent st') = [''a'', ''b''])"
proof -
  let ?x = "build_compare_response (\<lambda>_. []) True (Some (\<lambda>_ _. Inl InferTimeout)) CMP_MAX_PROMPT_CHARS [] 0 7
       (Some ''Bearer ta'') (Some compare_body) (Some two_users) ask_idle"
  obtain r st' where x: "?x = (r, st')" by fastforce
  have "rl_value (as_limiter st') = 2"
    using compare_answers_each [OF ask_idle_ok(1), where fr = "\<lambda>_. []" and enabled = True
        and inference_client = "Some (\<lambda>_ _. Inl InferTimeout)" and max_prompt = CMP_MAX_PROMPT_CHARS
        and default_models = "[]" and secs = 0 and latency = 7 and authorization = "Some ''Bearer ta''"
        and body = "Some compare_body" and token_verifier = "Some two_users"]
    unfolding x by (simp add: ask_idle_ok)
  moreover have "map cr_model (as_sent (snd ?x)) = [''a'', ''b'']"
    by (simp add: build_compare_response_def compare_body_fields ask_idle_def try_acquire_eq
        rate_limiter_init_def run_compare_def cmp_one_eq chat_request_build_def CMP_LABELS_def release_slot_def Let_def)
  ultimately show ?thesis
    using x by simp
qed

end
