(* ===== verification/WebSearch.thy ===== *)
theory WebSearch
  imports Outbound Texts
begin

text \<open>
  The web-search client (app/control_plane/web_search.py): its configuration, the guarded request of one
  query, and the reading of whatever the search service sent back.  Name resolution, the network and
  \<^verbatim>\<open>json.loads\<close> are parameters.
\<close>

section \<open>Configuration\<close>

definition WS_DEFAULT_TOP_K :: int where "WS_DEFAULT_TOP_K = 5"
definition WS_MAX_SNIPPET :: nat where "WS_MAX_SNIPPET = 500"
definition WS_MAX_TITLE :: nat where "WS_MAX_TITLE = 200"
definition WS_MAX_RESULT_BYTES :: nat where "WS_MAX_RESULT_BYTES = 2097152"

record web_result =
  wr_title :: string
  wr_url :: string
  wr_snippet :: string

record web_search_config =
  wc_provider :: string
  wc_url :: string
  wc_allowed_hosts :: "string set"
  wc_api_key :: string
  wc_api_key_header :: string
  wc_top_k :: int

text \<open>On the decoded environment value: \<^term>\<open>None\<close> for an unset or a malformed one.\<close>

definition parse_web_search_config :: "(rat \<Rightarrow> string) \<Rightarrow> json option \<Rightarrow> web_search_config option" where
  "parse_web_search_config fr raw =
     (case raw of
        Some (JObj data) \<Rightarrow>
          (case dget data ''url'' of
             JStr url \<Rightarrow>
               if url = [] then None
               else (case dget data ''host'' of
                       JStr host \<Rightarrow>
                         if host = [] then None
                         else Some
                           \<lparr>wc_provider = py_str fr (dget_or data ''provider'' (JStr ''web'')),
                            wc_url = url, wc_allowed_hosts = {host},
                            wc_api_key = py_str fr (dget_or data ''api_key'' (JStr [])),
                            wc_api_key_header =
                              py_str fr (dget_or data ''api_key_header'' (JStr ''Authorization'')),
                            wc_top_k = (case as_int (dget_or data ''top_k'' (JInt WS_DEFAULT_TOP_K)) of
                                          Some k \<Rightarrow> if 0 < k then k else WS_DEFAULT_TOP_K
                                        | None \<Rightarrow> WS_DEFAULT_TOP_K)\<rparr>
                     | _ \<Rightarrow> None)
           | _ \<Rightarrow> None)
      | _ \<Rightarrow> None)"

section \<open>Reading the results\<close>

text \<open>\<^verbatim>\<open>_extract_items\<close>: the first of the known shapes.\<close>

fun first_list :: "dict \<Rightarrow> string list \<Rightarrow> json list option" where
  "first_list data [] = None"
| "first_list data (key # keys) =
     (case dget data key of JArr xs \<Rightarrow> Some xs | _ \<Rightarrow> first_list data keys)"

definition extract_items :: "json \<Rightarrow> json list option" where
  "extract_items data =
     (case data of
        JArr xs \<Rightarrow> Some xs
      | JObj d \<Rightarrow>
          (case first_list d [''results'', ''organic'', ''items'', ''data''] of
             Some xs \<Rightarrow> Some xs
           | None \<Rightarrow>
               (case dget d ''webPages'' of
                  JObj w \<Rightarrow> (case dget w ''value'' of JArr xs \<Rightarrow> Some xs | _ \<Rightarrow> None)
                | _ \<Rightarrow> None))
      | _ \<Rightarrow> None)"

text \<open>\<^verbatim>\<open>it.get(a) or it.get(b) or \<dots> or last\<close>.\<close>

fun first_truthy :: "dict \<Rightarrow> string list \<Rightarrow> json \<Rightarrow> json" where
  "first_truthy d [] last_value = last_value"
| "first_truthy d (k # ks) last_value = jor (dget d k) (first_truthy d ks last_value)"

fun read_item :: "(rat \<Rightarrow> string) \<Rightarrow> json \<Rightarrow> web_result option" where
  "read_item fr (JObj d) =
     (case first_truthy d [''url'', ''link'', ''href''] (JStr []) of
        JStr url \<Rightarrow>
          if url = [] then None
          else Some \<lparr>wr_title = take WS_MAX_TITLE (py_str fr (first_truthy d [''title'', ''name''] (JStr url))),
                     wr_url = url,
                     wr_snippet = take WS_MAX_SNIPPET (py_str fr
                       (first_truthy d [''snippet'', ''content'', ''description'', ''text''] (JStr [])))\<rparr>
      | _ \<Rightarrow> None)"
| "read_item fr v = None"

text \<open>\<^verbatim>\<open>_parse\<close>, on the decoded body.\<close>

definition parse_results :: "(rat \<Rightarrow> string) \<Rightarrow> int \<Rightarrow> json option \<Rightarrow> web_result list" where
  "parse_results fr top_k body =
     (case body of
        None \<Rightarrow> []
      | Some data \<Rightarrow>
          (case extract_items data of
             None \<Rightarrow> []
           | Some items \<Rightarrow> List.map_filter (read_item fr) (slice_to top_k items)))"

section \<open>Searching\<close>

text \<open>\<^verbatim>\<open>urllib.parse.quote\<close>, which keeps slashes.\<close>

definition url_quote :: "string \<Rightarrow> string" where
  "url_quote s =
     concat (map (\<lambda>c. if c = CHR ''/'' then [c] else if c = CHR '' '' then percent 32 else quote_char c) s)"

definition search_url :: "web_search_config \<Rightarrow> string \<Rightarrow> string" where
  "search_url cfg query =
     wc_url cfg
     @ (if wc_url cfg \<noteq> [] \<and> last (wc_url cfg) \<in> set ''=?&/'' then [] else ''&q='')
     @ url_quote query"

definition search_headers :: "web_search_config \<Rightarrow> (string \<times> string) list" where
  "search_headers cfg =
     (let headers = [(''Accept'', ''application/json'')]
      in if wc_api_key cfg \<noteq> [] then dset headers (wc_api_key_header cfg) (wc_api_key cfg) else headers)"

record web_env =
  we_config :: web_search_config
  we_resolve :: resolver
  we_net :: transport
  we_loads :: "string \<Rightarrow> json option"
  we_float :: "rat \<Rightarrow> string"

text \<open>
  \<^verbatim>\<open>search\<close> with the guarded opener: a URL the guard refuses, a timeout and a connection error give no
  results; an exception of another class leaves the client.  \<open>conns\<close> is the log of the connections made.
\<close>

definition search :: "web_env \<Rightarrow> string \<Rightarrow> connection list \<Rightarrow> (open_exn + web_result list) \<times> connection list" where
  "search env query conns =
     (let cfg = we_config env in
      case validate_outbound_url (we_resolve env) (wc_allowed_hosts cfg) False {} (search_url cfg query) of
        Inl reject \<Rightarrow> (Inr [], conns)
      | Inr target \<Rightarrow>
          (case guarded_open (we_net env) target ''GET'' (search_headers cfg) None WS_MAX_RESULT_BYTES conns of
             (Inl OpenRaised, conns) \<Rightarrow> (Inl OpenRaised, conns)
           | (Inl _, conns) \<Rightarrow> (Inr [], conns)
           | (Inr resp, conns) \<Rightarrow>
               (Inr (if or_status resp div 100 \<noteq> 2 then []
                     else parse_results (we_float env) (wc_top_k cfg) (we_loads env (or_body resp))), conns)))"

section \<open>Lemmas\<close>

text \<open>A connection of the client: one the guard let through, to the configured host, over https.\<close>

definition search_connection :: "web_env \<Rightarrow> string \<Rightarrow> connection \<Rightarrow> bool" where
  "search_connection env query c \<longleftrightarrow>
     (\<exists>t. validate_outbound_url (we_resolve env) (wc_allowed_hosts (we_config env)) False {}
            (search_url (we_config env) query) = Inr t \<and>
          c = connection_of t ''GET'' (search_headers (we_config env)) None)"

lemma search_conns:
  assumes "search env query conns = (r, conns')"
  shows "\<exists>new. conns' = conns @ new \<and> length new \<le> 1 \<and> list_all (search_connection env query) new"
proof (cases "validate_outbound_url (we_resolve env) (wc_allowed_hosts (we_config env)) False {}
            (search_url (we_config env) query)")
  case (Inl reject)
  then show ?thesis using assms by (simp add: search_def)
next
  case (Inr t)
  have "conns' = conns @ [connection_of t ''GET'' (search_headers (we_config env)) None]"
    using assms Inr
    by (auto simp: search_def guarded_open_def Let_def split: wire.splits)
  then show ?thesis
    using Inr by (auto simp: search_connection_def)
qed

lemma length_map_filter: "length (List.map_filter f xs) \<le> length xs"
  by (induction xs) (auto simp: List.map_filter_simps split: option.split)

lemma in_map_filter: "r \<in> set (List.map_filter f xs) \<Longrightarrow> \<exists>x \<in> set xs. f x = Some r"
  by (induction xs) (auto simp: List.map_filter_simps split: option.splits)

lemma read_item_bounds:
  "read_item fr v = Some r \<Longrightarrow>
     length (wr_title r) \<le> WS_MAX_TITLE \<and> length (wr_snippet r) \<le> WS_MAX_SNIPPET \<and> wr_url r \<noteq> []"
  by (cases v) (auto split: json.splits if_splits)

lemma parse_results_bounds:
  assumes "0 < k"
  shows "int (length (parse_results fr k body)) \<le> k"
    and "r \<in> set (parse_results fr k body) \<Longrightarrow>
           length (wr_title r) \<le> WS_MAX_TITLE \<and> length (wr_snippet r) \<le> WS_MAX_SNIPPET \<and> wr_url r \<noteq> []"
proof -
  have "int (length (slice_to k xs)) \<le> k" for xs :: "json list"
    using assms by (simp add: slice_to_def)
  then have "int (length (List.map_filter (read_item fr) (slice_to k xs))) \<le> k" for xs :: "json list"
    using length_map_filter [of "read_item fr" "slice_to k xs"] order_trans of_nat_mono by blast
  then show "int (length (parse_results fr k body)) \<le> k"
    using assms by (auto simp: parse_results_def split: option.split)
  show "r \<in> set (parse_results fr k body) \<Longrightarrow>
           length (wr_title r) \<le> WS_MAX_TITLE \<and> length (wr_snippet r) \<le> WS_MAX_SNIPPET \<and> wr_url r \<noteq> []"
    using read_item_bounds by (auto simp: parse_results_def dest!: in_map_filter split: option.splits)
qed

lemma parsed_top_k: "parse_web_search_config fr raw = Some cfg \<Longrightarrow> 0 < wc_top_k cfg"
  by (auto simp: parse_web_search_config_def WS_DEFAULT_TOP_K_def split: option.splits json.splits if_splits)

lemma parsed_hosts: "parse_web_search_config fr raw = Some cfg \<Longrightarrow> \<exists>host. host \<noteq> [] \<and> wc_allowed_hosts cfg = {host}"
  by (auto simp: parse_web_search_config_def split: option.splits json.splits if_splits)


section \<open>Properties\<close>

text \<open>C22: A search with a parsed configuration contacts the configured host and nothing else: at most one
  connection, over TLS, made for a URL the outbound guard let through, to an address that the guard holds for
  public (C4 says which these are).
  What it returns is bounded: at most \<^verbatim>\<open>top_k\<close> results, each with a URL, a title of at most 200 and a
  snippet of at most 500 characters, whatever the service sent.\<close>

theorem web_search_confined:
  assumes "parse_web_search_config fr raw = Some (we_config env)"
  shows "case search env query conns of
     (r, conns') \<Rightarrow>
       (\<exists>new host. conns' = conns @ new \<and> length new \<le> 1 \<and> wc_allowed_hosts (we_config env) = {host} \<and>
          list_all (\<lambda>c. cn_tls_name c = Some (py_lower host) \<and> cn_host c = py_lower host \<and>
                        unblocked_ip (cn_ip c) \<and> \<not> metadata_ip (cn_ip c) \<and> cn_body c = None) new) \<and>
       (case r of
          Inl ex \<Rightarrow> ex = OpenRaised
        | Inr results \<Rightarrow>
            int (length results) \<le> wc_top_k (we_config env) \<and>
            list_all (\<lambda>w. wr_url w \<noteq> [] \<and> length (wr_title w) \<le> 200 \<and> length (wr_snippet w) \<le> 500) results)"
proof -
  obtain r conns' where s: "search env query conns = (r, conns')" by fastforce
  obtain host where h: "wc_allowed_hosts (we_config env) = {host}"
    using parsed_hosts [OF assms] by blast
  obtain new where new: "conns' = conns @ new" "length new \<le> 1" "list_all (search_connection env query) new"
    using search_conns [OF s] by blast
  have "list_all (\<lambda>c. cn_tls_name c = Some (py_lower host) \<and> cn_host c = py_lower host \<and>
      unblocked_ip (cn_ip c) \<and> \<not> metadata_ip (cn_ip c) \<and> cn_body c = None) new"
    using new(3)
  proof (rule list.pred_mono_strong)
    fix c assume "search_connection env query c"
    then obtain t where t: "validate_outbound_url (we_resolve env) {host} False {} (search_url (we_config env) query) = Inr t"
      and c: "c = connection_of t ''GET'' (search_headers (we_config env)) None"
      unfolding search_connection_def h by blast
    show "cn_tls_name c = Some (py_lower host) \<and> cn_host c = py_lower host \<and>
      unblocked_ip (cn_ip c) \<and> \<not> metadata_ip (cn_ip c) \<and> cn_body c = None"
      using validated_safe [OF t] by (auto simp: c connection_of_def)
  qed
  moreover have "case r of Inl ex \<Rightarrow> ex = OpenRaised
    | Inr results \<Rightarrow> int (length results) \<le> wc_top_k (we_config env) \<and>
        list_all (\<lambda>w. wr_url w \<noteq> [] \<and> length (wr_title w) \<le> 200 \<and> length (wr_snippet w) \<le> 500) results"
    using s parsed_top_k [OF assms] parse_results_bounds [OF parsed_top_k [OF assms]]
    by (auto simp: search_def guarded_open_def Let_def list_all_iff WS_MAX_TITLE_def WS_MAX_SNIPPET_def
        split: sum.splits wire.splits if_splits)
  ultimately show ?thesis
    unfolding s prod.case using new h by blast
qed

definition search_conf :: json where
  "search_conf = JObj [(''url'', JStr ''https://API.io/v1?q=''), (''host'', JStr ''api.io'')]"

lemma search_url_eval:
  "search_url (the (parse_web_search_config (\<lambda>_. []) (Some search_conf))) ''a'' = ''https://API.io/v1?q=a''"
  by code_simp

definition example_web :: web_env where
  "example_web = \<lparr>we_config = the (parse_web_search_config (\<lambda>_. []) (Some search_conf)),
     we_resolve = example_resolve, we_net = (\<lambda>_ _. WireTimeout), we_loads = (\<lambda>_. None), we_float = (\<lambda>_. [])\<rparr>"

lemma example_web_config:
  "parse_web_search_config (\<lambda>_. []) (Some search_conf) = Some (we_config example_web)"
  by (simp add: example_web_def parse_web_search_config_def search_conf_def)

lemma example_web_search: "length (snd (search example_web ''a'' [])) = 1"
proof -
  have "wc_allowed_hosts (we_config example_web) = {''api.io''}"
    by (simp add: example_web_def parse_web_search_config_def search_conf_def)
  moreover have "search_url (we_config example_web) ''a'' = ''https://API.io/v1?q=a''"
    using search_url_eval by (simp add: example_web_def)
  ultimately show ?thesis
    by (simp add: search_def) (simp add: example_web_def example_valid guarded_open_def Let_def)
qed

lemma web_search_confined_witness:
  "\<exists>c. snd (search example_web ''a'' []) = [c] \<and> unblocked_ip (cn_ip c)"
proof -
  obtain r cs where s: "search example_web ''a'' [] = (r, cs)" by fastforce
  then have "length cs = 1"
    using example_web_search by simp
  then obtain c where "cs = [c]"
    by (cases cs) auto
  then show ?thesis
    using web_search_confined [OF example_web_config, where query = "''a''" and conns = "[]"] s by auto
qed

end
