(* ===== verification/Research.thy ===== *)
theory Research
  imports AgentLoop Retrieval Documents WebSearch
begin

text \<open>
  The research agent (app/control_plane/deep_research.py): plan the queries, retrieve passages from the
  tenant's own corpus and, where asked and configured, from the web, and synthesise a cited answer.

  The retrieval store is read only; the limiter, the audit log and the notifications are those of the
  tool endpoints.  Any exception of a phase ends the run as failed and is \<^term>\<open>None\<close> here; what the phase
  did before it raised stays in the state.  \<open>elapsed k\<close> is the wall-clock time at the \<open>k\<close>-th check.
\<close>

section \<open>Data\<close>

definition MAX_QUESTION_BYTES :: nat where "MAX_QUESTION_BYTES = 4000"
definition MAX_PASSAGES :: nat where "MAX_PASSAGES = 12"
definition RESEARCH_CAPABILITY :: string where "RESEARCH_CAPABILITY = ''deep_research''"

record research_budgets =
  rb_max_subqueries :: int
  rb_top_k :: int
  rb_wall_clock_seconds :: rat
  rb_max_tokens :: int
  rb_model :: string

record research_outcome =
  ro_status :: string
  ro_answer :: "string option"
  ro_sources :: "string list"
  ro_subqueries :: nat
  ro_detail :: "string option"

text \<open>What synthesis and citation read of a passage, of the corpus or of the web.\<close>

record passage =
  pa_document_id :: string
  pa_content :: string
  pa_chunk_id :: string

definition corpus_passage :: "retrieved_passage \<Rightarrow> passage" where
  "corpus_passage p =
     \<lparr>pa_document_id = rp_document_id p, pa_content = rp_content p, pa_chunk_id = rp_chunk_id p\<rparr>"

definition web_passage :: "web_result \<Rightarrow> passage" where
  "web_passage res =
     \<lparr>pa_document_id = wr_url res,
      pa_content = strip_by (\<lambda>c. c = CHR '' '' \<or> c = EM_DASH)
        (wr_title res @ '' '' @ [EM_DASH] @ '' '' @ wr_snippet res),
      pa_chunk_id = wr_url res\<rparr>"

record 'n research_state =
  rs_agent :: "'n agent_state"
  rs_sent :: "chat_request list"
  rs_conns :: "connection list"

record ('s, 'n) research_env =
  re_store :: "'s retrieval_store"
  re_corpus :: 's
  re_embed :: embedder
  re_chat :: chat_client
  re_loads :: "string \<Rightarrow> json option"
  re_budgets :: research_budgets
  re_web :: "web_env option"
  re_elapsed :: "nat \<Rightarrow> rat"
  re_notif_store :: "'n notif_store option"
  re_now :: datetime
  re_run_id :: string
  re_nuid :: "string \<Rightarrow> string"

section \<open>Plan\<close>

definition plan_system :: "int \<Rightarrow> string" where
  "plan_system k =
     ''You decompose a research question into focused search queries. Reply ''
     @ ''with EXACTLY one JSON object and nothing else: ''
     @ ''{'' @ [CHR 0x22] @ ''queries'' @ [CHR 0x22] @ '': ['' @ [CHR 0x22] @ ''...'' @ [CHR 0x22] @ '', ''
     @ [CHR 0x22] @ ''...'' @ [CHR 0x22] @ '']}. Use at most '' @ str_int k @ '' queries.''"

definition research_request :: "research_budgets \<Rightarrow> string \<Rightarrow> string \<Rightarrow> chat_request" where
  "research_request b system user =
     chat_request_build (rb_model b) (system_user system user) default_temperature (Some (JInt (rb_max_tokens b)))"

definition stripped_text :: "json \<Rightarrow> string option" where
  "stripped_text v = (case v of JStr s \<Rightarrow> if py_strip s = [] then None else Some (py_strip s) | _ \<Rightarrow> None)"

definition planned_queries :: "(string \<Rightarrow> json option) \<Rightarrow> int \<Rightarrow> string \<Rightarrow> string \<Rightarrow> string list" where
  "planned_queries loads max_subqueries question content =
     (let obj = (case extract_json_object loads content of None \<Rightarrow> [] | Some d \<Rightarrow> d);
          queries = (case dget obj ''queries'' of
                       JArr raw \<Rightarrow> slice_to max_subqueries (List.map_filter stripped_text raw)
                     | _ \<Rightarrow> [])
      in if queries = [] then [question] else queries)"

text \<open>One call of the model: its content, or \<^term>\<open>None\<close> where it raised.\<close>

definition chat_call ::
    "('s, 'n) research_env \<Rightarrow> chat_request \<Rightarrow> 'n research_state \<Rightarrow> string option \<times> 'n research_state" where
  "chat_call env request st =
     ((case re_chat env (rs_sent st) request of Inl _ \<Rightarrow> None | Inr resp \<Rightarrow> Some (content_of resp)),
      st\<lparr>rs_sent := rs_sent st @ [request]\<rparr>)"

definition plan ::
    "('s, 'n) research_env \<Rightarrow> string \<Rightarrow> 'n research_state \<Rightarrow> string list option \<times> 'n research_state" where
  "plan env question st =
     apfst (map_option (planned_queries (re_loads env) (rb_max_subqueries (re_budgets env)) question))
       (chat_call env (research_request (re_budgets env)
          (plan_system (rb_max_subqueries (re_budgets env))) question) st)"

section \<open>Retrieve\<close>

text \<open>The inner loop both retrievals share: add what was not seen; \<^term>\<open>True\<close> when the list is full.\<close>

fun add_passages :: "passage list \<Rightarrow> string set \<Rightarrow> passage list \<Rightarrow> bool \<times> string set \<times> passage list" where
  "add_passages [] seen passages = (False, seen, passages)"
| "add_passages (p # ps) seen passages =
     (if pa_chunk_id p \<in> seen then add_passages ps seen passages
      else
        let seen = insert (pa_chunk_id p) seen; passages = passages @ [p] in
        if MAX_PASSAGES \<le> length passages then (True, seen, passages)
        else add_passages ps seen passages)"

fun retrieve ::
    "('s, 'n) research_env \<Rightarrow> string \<Rightarrow> string list \<Rightarrow> string set \<Rightarrow> passage list \<Rightarrow> passage list option" where
  "retrieve env tenant_id [] seen passages = Some passages"
| "retrieve env tenant_id (q # qs) seen passages =
     (case re_embed env [q] of
        Some (embedding # _) \<Rightarrow>
          (case add_passages (map corpus_passage
                  (rs_query (re_store env) tenant_id embedding (rb_top_k (re_budgets env)) (re_corpus env)))
                  seen passages of
             (True, _, passages) \<Rightarrow> Some passages
           | (False, seen, passages) \<Rightarrow> retrieve env tenant_id qs seen passages)
      | _ \<Rightarrow> None)"

fun retrieve_web ::
    "web_env \<Rightarrow> string list \<Rightarrow> string set \<Rightarrow> passage list \<Rightarrow> connection list
       \<Rightarrow> passage list option \<times> connection list" where
  "retrieve_web web [] seen passages conns = (Some passages, conns)"
| "retrieve_web web (q # qs) seen passages conns =
     (case search web q conns of
        (Inl _, conns) \<Rightarrow> (None, conns)
      | (Inr results, conns) \<Rightarrow>
          (case add_passages (map web_passage results) seen passages of
             (True, _, passages) \<Rightarrow> (Some passages, conns)
           | (False, seen, passages) \<Rightarrow> retrieve_web web qs seen passages conns))"

text \<open>The web results join the corpus passages up to the same bound.\<close>

fun merge_web :: "passage list \<Rightarrow> string set \<Rightarrow> passage list \<Rightarrow> passage list" where
  "merge_web [] existing passages = passages"
| "merge_web (wp # wps) existing passages =
     (if pa_chunk_id wp \<notin> existing \<and> length passages < MAX_PASSAGES
      then merge_web wps (insert (pa_chunk_id wp) existing) (passages @ [wp])
      else merge_web wps existing passages)"

section \<open>Synthesize\<close>

definition RESEARCH_SYSTEM :: string where
  "RESEARCH_SYSTEM =
     ''Answer the question using ONLY the numbered sources provided. Cite ''
     @ ''sources inline as [n]. If the sources do not contain the answer, say ''
     @ ''so plainly; do not invent facts.''"

definition passage_line :: "nat \<Rightarrow> passage \<Rightarrow> string" where
  "passage_line i p =
     ''['' @ str_nat (i + 1) @ ''] (doc:'' @ pa_document_id p @ '') '' @ pa_content p"

definition research_context :: "passage list \<Rightarrow> string" where
  "research_context passages =
     (if passages = [] then ''(no relevant documents were found)''
      else py_join [CHR 0x0A] (map (\<lambda>(i, p). passage_line i p) (enumerate 0 passages)))"

definition synthesis_of :: "research_budgets \<Rightarrow> string \<Rightarrow> passage list \<Rightarrow> chat_request" where
  "synthesis_of b question passages =
     research_request b RESEARCH_SYSTEM
       (''Question: '' @ question @ [CHR 0x0A, CHR 0x0A] @ ''Sources:'' @ [CHR 0x0A] @ research_context passages)"

section \<open>The run\<close>

fun cited :: "passage list \<Rightarrow> string list \<Rightarrow> string list" where
  "cited [] sources = sources"
| "cited (p # ps) sources =
     cited ps (if pa_document_id p \<in> set sources then sources else sources @ [pa_document_id p])"

definition emit_research ::
    "('s, 'n) research_env \<Rightarrow> owner \<Rightarrow> string \<Rightarrow> 'n research_state \<Rightarrow> 'n research_state" where
  "emit_research env who event st =
     st\<lparr>rs_agent := (rs_agent st)\<lparr>ag_notifs :=
          emit_event (re_notif_store env) who event (re_run_id env) (re_nuid env event) (re_now env)
            (ag_notifs (rs_agent st))\<rparr>\<rparr>"

definition research_fail ::
    "('s, 'n) research_env \<Rightarrow> owner \<Rightarrow> string \<Rightarrow> nat \<Rightarrow> 'n research_state
       \<Rightarrow> research_outcome \<times> 'n research_state" where
  "research_fail env who detail subqueries st =
     (\<lparr>ro_status = ''failed'', ro_answer = None, ro_sources = [], ro_subqueries = subqueries,
       ro_detail = Some detail\<rparr>,
      emit_research env who ''agent_task_failed'' st)"

definition over_budget :: "('s, 'n) research_env \<Rightarrow> nat \<Rightarrow> bool" where
  "over_budget env k \<longleftrightarrow> rb_wall_clock_seconds (re_budgets env) < re_elapsed env k"

text \<open>From the passages on: the last call of the model, the audit, the outcome.\<close>

definition research_finish ::
    "('s, 'n) research_env \<Rightarrow> owner \<Rightarrow> string \<Rightarrow> nat \<Rightarrow> passage list \<Rightarrow> 'n research_state
       \<Rightarrow> research_outcome \<times> 'n research_state" where
  "research_finish env who question subqueries passages st =
     (case chat_call env (synthesis_of (re_budgets env) question passages) st of
        (None, st) \<Rightarrow> research_fail env who ''inference_unavailable'' 0 st
      | (Some answer, st) \<Rightarrow>
          let st = st\<lparr>rs_agent := (rs_agent st)\<lparr>ag_audit :=
                     audit who ''deep_research'' (json_args [(''question'', JStr question)]) ''allowed''
                       (Some ''success'') None None (ag_audit (rs_agent st))\<rparr>\<rparr>
          in (\<lparr>ro_status = ''completed'', ro_answer = Some answer, ro_sources = cited passages [],
               ro_subqueries = subqueries, ro_detail = None\<rparr>,
              emit_research env who ''agent_task_completed'' st))"

definition run_deep_research ::
    "('s, 'n) research_env \<Rightarrow> owner \<Rightarrow> string \<Rightarrow> bool \<Rightarrow> 'n research_state
       \<Rightarrow> research_outcome \<times> 'n research_state" where
  "run_deep_research env who question use_web st =
     (case plan env question (emit_research env who ''agent_task_progress'' st) of
        (None, st) \<Rightarrow> research_fail env who ''inference_unavailable'' 0 st
      | (Some queries, st) \<Rightarrow>
          if over_budget env 0 then research_fail env who ''wall_clock'' (length queries) st
          else
     (case retrieve env (fst who) queries {} [] of
        None \<Rightarrow> research_fail env who ''inference_unavailable'' 0 st
      | Some passages \<Rightarrow>
          if over_budget env 1 then research_fail env who ''wall_clock'' (length queries) st
          else
     (case (if use_web then re_web env else None) of
        None \<Rightarrow> research_finish env who question (length queries) passages st
      | Some web \<Rightarrow>
          (case retrieve_web web queries {} [] (rs_conns st) of
             (None, conns) \<Rightarrow> research_fail env who ''inference_unavailable'' 0 (st\<lparr>rs_conns := conns\<rparr>)
           | (Some wps, conns) \<Rightarrow>
               let passages = merge_web wps (pa_chunk_id ` set passages) passages;
                   st = st\<lparr>rs_conns := conns\<rparr>
               in if over_budget env 2 then research_fail env who ''wall_clock'' (length queries) st
                  else research_finish env who question (length queries) passages st))))"

section \<open>The handler\<close>

definition research_fields :: "json option \<Rightarrow> reply + string \<times> bool" where
  "research_fields body =
     (case body of
        None \<Rightarrow> Inl (bad_request ''Body is not valid JSON.'')
      | Some (JObj data) \<Rightarrow>
          ebind (needed_text data ''question'') (\<lambda>question.
            if MAX_QUESTION_BYTES < utf8_len question
            then Inl (HTTP_TOO_LARGE, err_detail ''payload_too_large'' ''question exceeds 4000 bytes.'')
            else Inr (question, truthy (dget data ''web'')))
      | Some _ \<Rightarrow> Inl (HTTP_BAD_REQUEST, err_only ''bad_request''))"

definition research_reply :: "research_outcome \<Rightarrow> reply" where
  "research_reply outcome =
     (if ro_status outcome = ''failed''
      then (HTTP_BAD_GATEWAY, JObj [(''status'', JStr ''failed''), (''error'', JStr ''research_failed''),
              (''detail'', JStr ''The deep-research run failed before completing.'')])
      else (HTTP_OK, JObj [(''status'', JStr (ro_status outcome)), (''answer'', jopt JStr (ro_answer outcome)),
              (''sources'', JArr (map JStr (ro_sources outcome))),
              (''subqueries'', JInt (int (ro_subqueries outcome)))]))"

definition set_limiter :: "rate_limiter \<Rightarrow> 'n research_state \<Rightarrow> 'n research_state" where
  "set_limiter rl st = st\<lparr>rs_agent := (rs_agent st)\<lparr>ag_limiter := rl\<rparr>\<rparr>"

text \<open>\<open>available\<close>: an inference client is configured.\<close>

definition build_deep_research_response ::
    "bool \<Rightarrow> bool \<Rightarrow> allowlist \<Rightarrow> ('s, 'n) research_env \<Rightarrow> int \<Rightarrow> string option \<Rightarrow> json option
       \<Rightarrow> verifier option \<Rightarrow> 'n research_state \<Rightarrow> reply \<times> 'n research_state" where
  "build_deep_research_response enabled available al env secs authorization body token_verifier st =
     (case verify_and_extract authorization token_verifier of
        Inl err \<Rightarrow> (err, st)
      | Inr claims \<Rightarrow>
          if \<not> enabled
          then ((HTTP_UNAVAILABLE, err_degraded ''tools_disabled''
                   ''Agent execution is disabled on this instance.''), st)
          else if \<not> available
          then ((HTTP_UNAVAILABLE, err_degraded ''research_unavailable''
                   ''The inference backend is not configured; deep research is unavailable.''), st)
          else
     (case research_fields body of
        Inl err \<Rightarrow> (err, st)
      | Inr (question, web) \<Rightarrow>
          let who = owner_of claims in
          if \<not> is_allowed al (fst who) RESEARCH_CAPABILITY
          then ((HTTP_FORBIDDEN, err_detail ''not_allowed''
                   ''Deep research is not permitted for your organisation.''),
                st\<lparr>rs_agent := (rs_agent st)\<lparr>ag_audit :=
                   audit who RESEARCH_CAPABILITY (json_args [(''question'', JStr question)]) ''denied''
                     None None None (ag_audit (rs_agent st))\<rparr>\<rparr>)
          else
     (case try_acquire (fst who) secs (ag_limiter (rs_agent st)) of
        (False, rl) \<Rightarrow>
          ((HTTP_TOO_MANY, err_detail ''rate_limited''
              ''Deep-research rate or concurrency limit exceeded; try again shortly.''), set_limiter rl st)
      | (True, rl) \<Rightarrow>
          let (outcome, st) = run_deep_research env who question (web \<and> re_web env \<noteq> None) (set_limiter rl st)
          in (research_reply outcome, set_limiter (rl_release (ag_limiter (rs_agent st))) st))))"

section \<open>What a run should gather and cite\<close>

text \<open>The queries of a run: those the model's first answer plans.\<close>

definition plan_request :: "research_budgets \<Rightarrow> string \<Rightarrow> chat_request" where
  "plan_request b question = research_request b (plan_system (rb_max_subqueries b)) question"

definition planned ::
    "('s, 'n) research_env \<Rightarrow> string \<Rightarrow> 'n research_state \<Rightarrow> string list \<Rightarrow> bool" where
  "planned env question st queries \<longleftrightarrow>
     (\<exists>resp. re_chat env (rs_sent st) (plan_request (re_budgets env) question) = Inr resp \<and>
        queries = planned_queries (re_loads env) (rb_max_subqueries (re_budgets env)) question (content_of resp))"

text \<open>What the store returns to these queries for this tenant, and what the searches of these queries
  return, made one after another from a log of connections on.\<close>

definition corpus_finds :: "('s, 'n) research_env \<Rightarrow> string \<Rightarrow> string list \<Rightarrow> passage set" where
  "corpus_finds env tenant_id queries =
     (\<Union>q \<in> set queries. case re_embed env [q] of
        Some (e # _) \<Rightarrow>
          corpus_passage ` set (rs_query (re_store env) tenant_id e (rb_top_k (re_budgets env)) (re_corpus env))
      | _ \<Rightarrow> {})"

fun web_finds :: "web_env \<Rightarrow> string list \<Rightarrow> connection list \<Rightarrow> passage set" where
  "web_finds web [] conns = {}"
| "web_finds web (q # qs) conns =
     (case search web q conns of
        (Inl _, _) \<Rightarrow> {}
      | (Inr results, conns) \<Rightarrow> web_passage ` set results \<union> web_finds web qs conns)"

definition finds ::
    "('s, 'n) research_env \<Rightarrow> string \<Rightarrow> bool \<Rightarrow> string list \<Rightarrow> connection list \<Rightarrow> passage set" where
  "finds env tenant_id use_web queries conns =
     corpus_finds env tenant_id queries \<union>
     (case (if use_web then re_web env else None) of None \<Rightarrow> {} | Some web \<Rightarrow> web_finds web queries conns)"

text \<open>Passages gathered of what was found: nothing else, no two with one id, at most the bound, and
  below the bound nothing is missing.\<close>

definition gathered :: "passage set \<Rightarrow> passage list \<Rightarrow> bool" where
  "gathered found ps \<longleftrightarrow>
     set ps \<subseteq> found \<and> distinct (map pa_chunk_id ps) \<and> length ps \<le> MAX_PASSAGES \<and>
     (length ps < MAX_PASSAGES \<longrightarrow> pa_chunk_id ` found \<subseteq> pa_chunk_id ` set ps)"

text \<open>Sources cite passages: every passage's document, nothing else, and each once.\<close>

definition cites :: "string list \<Rightarrow> passage list \<Rightarrow> bool" where
  "cites sources ps \<longleftrightarrow>
     distinct sources \<and> (\<forall>d. d \<in> set sources \<longleftrightarrow> (\<exists>p \<in> set ps. pa_document_id p = d))"

section \<open>Lemmas\<close>

lemma cited_set: "set (cited ps sources) = set sources \<union> pa_document_id ` set ps"
  by (induction ps sources rule: cited.induct) auto

lemma cited_distinct: "distinct sources \<Longrightarrow> distinct (cited ps sources)"
  by (induction ps sources rule: cited.induct) auto

lemma cited_cites: "cites (cited ps []) ps"
  by (auto simp: cites_def cited_set cited_distinct)

lemma gathered_start: "gathered {} []"
  by (simp add: gathered_def)

lemma gathered_full: "gathered F ps \<Longrightarrow> F \<subseteq> G \<Longrightarrow> MAX_PASSAGES \<le> length ps \<Longrightarrow> gathered G ps"
  by (auto simp: gathered_def)

lemma gathered_known: "gathered F ps \<Longrightarrow> pa_chunk_id p \<in> pa_chunk_id ` set ps \<Longrightarrow> gathered (insert p F) ps"
  by (auto simp: gathered_def)

lemma gathered_add:
  "gathered F ps \<Longrightarrow> pa_chunk_id p \<notin> pa_chunk_id ` set ps \<Longrightarrow> length ps < MAX_PASSAGES \<Longrightarrow>
     gathered (insert p F) (ps @ [p])"
  by (auto simp: gathered_def)

lemma gathered_room: "gathered F ps \<Longrightarrow> length ps < MAX_PASSAGES \<Longrightarrow> pa_chunk_id ` F = pa_chunk_id ` set ps"
  by (auto simp: gathered_def)

lemma add_passages_gathers:
  assumes "add_passages found seen ps = (full, seen', ps')" and "gathered F ps" and "length ps < MAX_PASSAGES"
    and "seen = pa_chunk_id ` set ps"
  shows "gathered (F \<union> set found) ps' \<and> seen' = pa_chunk_id ` set ps' \<and> (full \<longleftrightarrow> MAX_PASSAGES \<le> length ps')"
  using assms
proof (induction found seen ps arbitrary: F rule: add_passages.induct)
  case (2 p found seen ps)
  have F: "F \<union> set (p # found) = insert p F \<union> set found"
    by auto
  show ?case
  proof (cases "pa_chunk_id p \<in> seen")
    case True
    have "gathered (insert p F) ps"
      using gathered_known [OF 2(4), of p] True 2(6) by simp
    moreover have "add_passages found seen ps = (full, seen', ps')"
      using 2(3) True by simp
    ultimately show ?thesis
      unfolding F using 2(1) [OF True _ _ 2(5,6)] by blast
  next
    case False
    have g: "gathered (insert p F) (ps @ [p])"
      using gathered_add [OF 2(4), of p] False 2(5,6) by simp
    show ?thesis
    proof (cases "MAX_PASSAGES \<le> length (ps @ [p])")
      case True
      have "gathered (insert p F \<union> set found) (ps @ [p])"
        by (rule gathered_full [OF g _ True]) auto
      then show ?thesis
        unfolding F using 2(3,6) False True by auto
    next
      case more: False
      have "add_passages found (insert (pa_chunk_id p) seen) (ps @ [p]) = (full, seen', ps')"
        using 2(3) False more by (simp add: Let_def)
      from 2(2) [OF False refl refl more this g] show ?thesis
        unfolding F using more 2(6) by simp
    qed
  qed
qed auto

lemma retrieve_gathers:
  "retrieve env t qs seen ps = Some ps' \<Longrightarrow> gathered F ps \<Longrightarrow> length ps < MAX_PASSAGES \<Longrightarrow>
     seen = pa_chunk_id ` set ps \<Longrightarrow> gathered (F \<union> corpus_finds env t qs) ps'"
proof (induction qs arbitrary: seen ps F)
  case Nil
  then show ?case by (simp add: corpus_finds_def)
next
  case (Cons q qs)
  obtain e es where e: "re_embed env [q] = Some (e # es)"
    using Cons.prems(1) by (auto split: option.splits list.splits)
  let ?found = "map corpus_passage (rs_query (re_store env) t e (rb_top_k (re_budgets env)) (re_corpus env))"
  obtain full seen2 ps2 where a: "add_passages ?found seen ps = (full, seen2, ps2)"
    by (metis prod.collapse)
  have F: "F \<union> corpus_finds env t (q # qs) = (F \<union> set ?found) \<union> corpus_finds env t qs"
    using e by (simp add: corpus_finds_def Un_assoc)
  note ok = add_passages_gathers [OF a Cons.prems(2-4)]
  show ?case
  proof (cases full)
    case True
    then have ps': "ps' = ps2" "MAX_PASSAGES \<le> length ps2"
      using Cons.prems(1) e a ok by simp_all
    show ?thesis
      unfolding F ps'(1) by (rule gathered_full [OF conjunct1 [OF ok] Un_upper1 ps'(2)])
  next
    case False
    then have "retrieve env t qs seen2 ps2 = Some ps'" "length ps2 < MAX_PASSAGES"
      using Cons.prems(1) e a ok by auto
    from Cons.IH [OF this(1) conjunct1 [OF ok] this(2)] ok show ?thesis
      by (simp only: F simp_thms)
  qed
qed

lemma retrieve_web_conns:
  "retrieve_web web qs seen ps conns = (r, conns') \<Longrightarrow>
     \<exists>new. conns' = conns @ new \<and> length new \<le> length qs \<and>
        list_all (\<lambda>c. \<exists>q \<in> set qs. search_connection web q c) new"
proof (induction qs arbitrary: seen ps conns)
  case (Cons q qs)
  obtain r1 conns1 where s: "search web q conns = (r1, conns1)" by fastforce
  obtain new1 where n1: "conns1 = conns @ new1" "length new1 \<le> 1" "list_all (search_connection web q) new1"
    using search_conns [OF s] by blast
  have n1': "list_all (\<lambda>c. \<exists>q' \<in> set (q # qs). search_connection web q' c) new1"
    using n1(3) by (auto simp: list_all_iff)
  show ?case
  proof (cases "conns' = conns1")
    case True
    then show ?thesis
      using n1 n1' by auto
  next
    case False
    then obtain results seen2 ps2 where "retrieve_web web qs seen2 ps2 conns1 = (r, conns')"
      using Cons.prems s by (auto split: sum.splits prod.splits bool.splits)
    from Cons.IH [OF this] obtain new2 where n2: "conns' = conns1 @ new2" "length new2 \<le> length qs"
        "list_all (\<lambda>c. \<exists>q \<in> set qs. search_connection web q c) new2"
      by blast
    have "list_all (\<lambda>c. \<exists>q' \<in> set (q # qs). search_connection web q' c) (new1 @ new2)"
      using n1' n2(3) by (auto simp: list_all_iff)
    then show ?thesis
      using n1 n2 by (intro exI [of _ "new1 @ new2"]) auto
  qed
qed simp

lemma retrieve_web_gathers:
  "retrieve_web web qs seen ps conns = (Some ps', conns') \<Longrightarrow> gathered F ps \<Longrightarrow> length ps < MAX_PASSAGES \<Longrightarrow>
     seen = pa_chunk_id ` set ps \<Longrightarrow> gathered (F \<union> web_finds web qs conns) ps'"
proof (induction qs arbitrary: seen ps conns F)
  case (Cons q qs)
  obtain results conns1 where s: "search web q conns = (Inr results, conns1)"
    using Cons.prems(1) by (auto split: prod.splits sum.splits)
  obtain full seen2 ps2 where a: "add_passages (map web_passage results) seen ps = (full, seen2, ps2)"
    by (metis prod.collapse)
  have F: "F \<union> web_finds web (q # qs) conns =
      (F \<union> set (map web_passage results)) \<union> web_finds web qs conns1"
    using s by (simp add: Un_assoc)
  note ok = add_passages_gathers [OF a Cons.prems(2-4)]
  show ?case
  proof (cases full)
    case True
    then have ps': "ps' = ps2" "MAX_PASSAGES \<le> length ps2"
      using Cons.prems(1) s a ok by simp_all
    show ?thesis
      unfolding F ps'(1) by (rule gathered_full [OF conjunct1 [OF ok] Un_upper1 ps'(2)])
  next
    case False
    then have "retrieve_web web qs seen2 ps2 conns1 = (Some ps', conns')" "length ps2 < MAX_PASSAGES"
      using Cons.prems(1) s a ok by auto
    from Cons.IH [OF this(1) conjunct1 [OF ok] this(2)] ok show ?thesis
      by (simp only: F simp_thms)
  qed
qed simp

lemma merge_web_adds:
  "gathered F ps \<Longrightarrow> existing = pa_chunk_id ` set ps \<Longrightarrow> gathered (F \<union> set wps) (merge_web wps existing ps)"
proof (induction wps existing ps arbitrary: F rule: merge_web.induct)
  case (2 wp wps existing ps)
  have F: "F \<union> set (wp # wps) = insert wp F \<union> set wps"
    by auto
  show ?case
  proof (cases "pa_chunk_id wp \<notin> existing \<and> length ps < MAX_PASSAGES")
    case True
    then have "gathered (insert wp F) (ps @ [wp])"
      using gathered_add [OF 2(3), of wp] 2(4) by simp
    from 2(1) [OF True this] show ?thesis
      unfolding F using True 2(4) by simp
  next
    case False
    then have "gathered (insert wp F) ps"
      using 2(4) by (auto intro: gathered_known [OF 2(3)] gathered_full [OF 2(3)])
    from 2(2) [OF False this 2(4)] show ?thesis
      by (simp only: F merge_web.simps if_not_P [OF False] if_False)
  qed
qed simp

text \<open>Web passages that were cut at the bound fill the merged list.\<close>

lemma merge_web_gathers:
  assumes "gathered F ps" and "gathered W wps"
  shows "gathered (F \<union> W) (merge_web wps (pa_chunk_id ` set ps) ps)"
proof -
  let ?m = "merge_web wps (pa_chunk_id ` set ps) ps"
  have m: "gathered (F \<union> set wps) ?m"
    by (rule merge_web_adds [OF assms(1) refl])
  have "pa_chunk_id ` (F \<union> W) \<subseteq> pa_chunk_id ` set ?m" if room: "length ?m < MAX_PASSAGES"
  proof -
    note ids = gathered_room [OF m room]
    have "length wps = card (pa_chunk_id ` set wps)"
      using assms(2) by (simp add: gathered_def distinct_card flip: set_map)
    also have "\<dots> \<le> card (pa_chunk_id ` set ?m)"
      using ids by (intro card_mono) auto
    also have "\<dots> \<le> length ?m"
      using card_length [of "map pa_chunk_id ?m"] by simp
    finally have "pa_chunk_id ` W = pa_chunk_id ` set wps"
      using room by (intro gathered_room [OF assms(2)]) simp
    then show ?thesis
      using ids by auto
  qed
  then show ?thesis
    using m assms(2) unfolding gathered_def by blast
qed

lemma length_planned:
  "0 \<le> k \<Longrightarrow> length (planned_queries loads k question content) \<le> max 1 (nat k)"
  by (auto simp: planned_queries_def slice_to_def Let_def split: json.split)

text \<open>The frame of a run.\<close>

lemma emit_research_frame [simp]:
  "rs_sent (emit_research env who e st) = rs_sent st" "rs_conns (emit_research env who e st) = rs_conns st"
  "ag_limiter (rs_agent (emit_research env who e st)) = ag_limiter (rs_agent st)"
  "ag_audit (rs_agent (emit_research env who e st)) = ag_audit (rs_agent st)"
  "ag_spawned (rs_agent (emit_research env who e st)) = ag_spawned (rs_agent st)"
  by (simp_all add: emit_research_def)

lemma set_limiter_frame [simp]:
  "rs_sent (set_limiter rl st) = rs_sent st" "rs_conns (set_limiter rl st) = rs_conns st"
  "ag_limiter (rs_agent (set_limiter rl st)) = rl"
  "ag_audit (rs_agent (set_limiter rl st)) = ag_audit (rs_agent st)"
  "ag_spawned (rs_agent (set_limiter rl st)) = ag_spawned (rs_agent st)"
  by (simp_all add: set_limiter_def)

lemma planned_limiter [simp]: "planned env question (set_limiter rl st) = planned env question st"
  by (intro ext) (simp add: planned_def)

lemma research_fail_frame [simp]:
  "rs_sent (snd (research_fail env who d n st)) = rs_sent st" "rs_conns (snd (research_fail env who d n st)) = rs_conns st"
  "ag_limiter (rs_agent (snd (research_fail env who d n st))) = ag_limiter (rs_agent st)"
  "ag_audit (rs_agent (snd (research_fail env who d n st))) = ag_audit (rs_agent st)"
  "ag_spawned (rs_agent (snd (research_fail env who d n st))) = ag_spawned (rs_agent st)"
  "ro_status (fst (research_fail env who d n st)) = ''failed''"
  by (simp_all add: research_fail_def)

lemma plan_cases:
  assumes "plan env question st = (r, st')"
  shows "st' = st\<lparr>rs_sent := rs_sent st @ [plan_request (re_budgets env) question]\<rparr> \<and>
    (case r of None \<Rightarrow> True | Some qs \<Rightarrow> planned env question st qs)"
  using assms by (auto simp: plan_def chat_call_def plan_request_def planned_def split: sum.splits)

lemma planned_length:
  "planned env question st queries \<Longrightarrow> 0 \<le> rb_max_subqueries (re_budgets env) \<Longrightarrow>
     length queries \<le> max 1 (nat (rb_max_subqueries (re_budgets env)))"
  using length_planned unfolding planned_def by fastforce

text \<open>What the last phase leaves.\<close>

definition research_done :: "owner \<Rightarrow> string \<Rightarrow> research_outcome \<Rightarrow> 'n research_state \<Rightarrow> 'n research_state \<Rightarrow> bool" where
  "research_done who question outcome st st' \<longleftrightarrow>
     ag_limiter (rs_agent st') = ag_limiter (rs_agent st) \<and> ag_spawned (rs_agent st') = ag_spawned (rs_agent st) \<and>
     ((ro_status outcome = ''failed'' \<and> ag_audit (rs_agent st') = ag_audit (rs_agent st)) \<or>
      (ro_status outcome = ''completed'' \<and>
       ag_audit (rs_agent st') = audit who ''deep_research'' (json_args [(''question'', JStr question)]) ''allowed''
          (Some ''success'') None None (ag_audit (rs_agent st))))"

text \<open>A completed run: the answer is the model's, to the passages, and the sources cite them.\<close>

definition answered ::
    "('s, 'n) research_env \<Rightarrow> string \<Rightarrow> passage list \<Rightarrow> research_outcome \<Rightarrow> chat_request list \<Rightarrow> bool" where
  "answered env question passages outcome sent \<longleftrightarrow>
     cites (ro_sources outcome) passages \<and>
     (\<exists>resp. re_chat env sent (synthesis_of (re_budgets env) question passages) = Inr resp \<and>
        ro_answer outcome = Some (content_of resp))"

lemma research_finish_frame:
  assumes "research_finish env who question n passages st = (outcome, st')"
  shows "rs_sent st' = rs_sent st @ [synthesis_of (re_budgets env) question passages] \<and> rs_conns st' = rs_conns st \<and>
    research_done who question outcome st st' \<and>
    (ro_status outcome = ''completed'' \<longrightarrow> answered env question passages outcome (rs_sent st))"
proof (cases "re_chat env (rs_sent st) (synthesis_of (re_budgets env) question passages)")
  case (Inl ex)
  let ?st = "st\<lparr>rs_sent := rs_sent st @ [synthesis_of (re_budgets env) question passages]\<rparr>"
  have "(outcome, st') = research_fail env who ''inference_unavailable'' 0 ?st"
    using assms Inl by (simp add: research_finish_def chat_call_def)
  then have "outcome = fst (research_fail env who ''inference_unavailable'' 0 ?st)"
    "st' = snd (research_fail env who ''inference_unavailable'' 0 ?st)"
    by (metis fst_conv, metis snd_conv)
  then show ?thesis by (simp add: research_done_def)
next
  case (Inr resp)
  then show ?thesis
    using assms by (auto simp: research_finish_def chat_call_def research_done_def answered_def cited_cites Let_def)
qed

text \<open>What a run leaves: its questions to the model, its connections, its audit entry.\<close>

definition asked_model ::
    "('s, 'n) research_env \<Rightarrow> owner \<Rightarrow> string \<Rightarrow> bool \<Rightarrow> 'n research_state \<Rightarrow> research_outcome
       \<Rightarrow> chat_request list \<Rightarrow> bool" where
  "asked_model env who question use_web st outcome sent \<longleftrightarrow>
     (sent = [plan_request (re_budgets env) question] \<and> ro_status outcome = ''failed'') \<or>
     (\<exists>queries passages. planned env question st queries \<and>
        gathered (finds env (fst who) use_web queries (rs_conns st)) passages \<and>
        sent = [plan_request (re_budgets env) question, synthesis_of (re_budgets env) question passages] \<and>
        (ro_status outcome = ''completed'' \<longrightarrow>
           answered env question passages outcome (rs_sent st @ [plan_request (re_budgets env) question])))"

definition web_use ::
    "('s, 'n) research_env \<Rightarrow> string \<Rightarrow> bool \<Rightarrow> 'n research_state \<Rightarrow> connection list \<Rightarrow> bool" where
  "web_use env question use_web st conns \<longleftrightarrow>
     conns = [] \<or>
     (\<exists>web queries. use_web \<and> re_web env = Some web \<and> planned env question st queries \<and>
        length conns \<le> length queries \<and>
        (0 \<le> rb_max_subqueries (re_budgets env) \<longrightarrow> length queries \<le> max 1 (nat (rb_max_subqueries (re_budgets env)))) \<and>
        list_all (\<lambda>c. \<exists>q \<in> set queries. search_connection web q c) conns)"

definition run_effect ::
    "('s, 'n) research_env \<Rightarrow> owner \<Rightarrow> string \<Rightarrow> bool \<Rightarrow> 'n research_state \<Rightarrow> research_outcome \<Rightarrow> 'n research_state
       \<Rightarrow> bool" where
  "run_effect env who question use_web st outcome st' \<longleftrightarrow>
     (\<exists>sent conns. rs_sent st' = rs_sent st @ sent \<and> rs_conns st' = rs_conns st @ conns \<and>
        research_done who question outcome st st' \<and> asked_model env who question use_web st outcome sent \<and>
        web_use env question use_web st conns)"

lemma asked_model_limiter:
  "asked_model env who question use_web (set_limiter rl st) = asked_model env who question use_web st"
  by (intro ext) (simp add: asked_model_def)

lemma web_use_limiter: "web_use env question use_web (set_limiter rl st) = web_use env question use_web st"
  by (intro ext) (simp add: web_use_def)

lemma fail_effect:
  assumes "research_fail env who d n st1 = (outcome, st')"
    and "rs_sent st1 = rs_sent st @ [plan_request (re_budgets env) question]" "rs_conns st1 = rs_conns st @ conns"
    and "ag_limiter (rs_agent st1) = ag_limiter (rs_agent st)" "ag_audit (rs_agent st1) = ag_audit (rs_agent st)"
    and "ag_spawned (rs_agent st1) = ag_spawned (rs_agent st)" and "web_use env question use_web st conns"
  shows "run_effect env who question use_web st outcome st'"
proof -
  have o: "outcome = fst (research_fail env who d n st1)" "st' = snd (research_fail env who d n st1)"
    using assms(1) by simp_all
  show ?thesis
    unfolding run_effect_def
    by (rule exI [of _ "[plan_request (re_budgets env) question]"], rule exI [of _ conns])
      (simp add: o assms(2-) research_done_def asked_model_def)
qed

lemma finish_effect:
  assumes "research_finish env who question n passages st1 = (outcome, st')"
    and "rs_sent st1 = rs_sent st @ [plan_request (re_budgets env) question]" "rs_conns st1 = rs_conns st @ conns"
    and "ag_limiter (rs_agent st1) = ag_limiter (rs_agent st)" "ag_audit (rs_agent st1) = ag_audit (rs_agent st)"
    and "ag_spawned (rs_agent st1) = ag_spawned (rs_agent st)" and "web_use env question use_web st conns"
    and "planned env question st queries"
    and "gathered (finds env (fst who) use_web queries (rs_conns st)) passages"
  shows "run_effect env who question use_web st outcome st'"
proof -
  note f = research_finish_frame [OF assms(1)]
  have "research_done who question outcome st st'"
    using f assms(4-6) by (simp add: research_done_def)
  moreover have "asked_model env who question use_web st outcome
      [plan_request (re_budgets env) question, synthesis_of (re_budgets env) question passages]"
    using assms(8,9) f unfolding asked_model_def assms(2) by blast
  ultimately show ?thesis
    unfolding run_effect_def using f assms(2,3,7)
    by (intro exI [of _ "[plan_request (re_budgets env) question, synthesis_of (re_budgets env) question passages]"]
        exI [of _ conns]) simp
qed

lemma emit_planned [simp]: "planned env question (emit_research env who e st) = planned env question st"
  by (intro ext) (simp add: planned_def)

lemma run_deep_research_effect:
  assumes "run_deep_research env who question use_web st = (outcome, st')"
  shows "run_effect env who question use_web st outcome st'"
proof -
  let ?st0 = "emit_research env who ''agent_task_progress'' st"
  let ?st1 = "?st0\<lparr>rs_sent := rs_sent ?st0 @ [plan_request (re_budgets env) question]\<rparr>"
  obtain r s where p0: "plan env question ?st0 = (r, s)" by fastforce
  then have p: "plan env question ?st0 = (r, ?st1)"
    using plan_cases [OF p0] by simp
  have f: "rs_sent ?st1 = rs_sent st @ [plan_request (re_budgets env) question]" "rs_conns ?st1 = rs_conns st @ []"
    "ag_limiter (rs_agent ?st1) = ag_limiter (rs_agent st)" "ag_audit (rs_agent ?st1) = ag_audit (rs_agent st)"
    "ag_spawned (rs_agent ?st1) = ag_spawned (rs_agent st)"
    by simp_all
  have none: "web_use env question use_web st []"
    by (simp add: web_use_def)
  note D = assms [unfolded run_deep_research_def p prod.case]
  note fail = fail_effect [OF _ f none]
  show ?thesis
  proof (cases r)
    case None
    then show ?thesis using D by (intro fail) simp
  next
    case (Some queries)
    note D = D [unfolded Some option.case]
    have plan: "planned env question st queries"
      using plan_cases [OF p] Some by simp
    show ?thesis
    proof (cases "over_budget env 0")
      case True
      then show ?thesis using D by (intro fail) simp
    next
      case False
      note D = D [unfolded if_not_P [OF False]]
      show ?thesis
      proof (cases "retrieve env (fst who) queries {} []")
        case None
        then show ?thesis using D by (intro fail) simp
      next
        case (Some passages)
        note D = D [unfolded Some option.case]
        have ok: "gathered (corpus_finds env (fst who) queries) passages"
          using retrieve_gathers [OF Some gathered_start] by (simp add: MAX_PASSAGES_def)
        show ?thesis
        proof (cases "over_budget env 1")
          case True
          then show ?thesis using D by (intro fail) simp
        next
          case False
          note D = D [unfolded if_not_P [OF False]]
          show ?thesis
          proof (cases "if use_web then re_web env else None")
            case None
            have "gathered (finds env (fst who) use_web queries (rs_conns st)) passages"
              using ok by (simp add: finds_def None)
            then show ?thesis
              by (rule finish_effect [OF D [unfolded None option.case] f none plan])
          next
            case (Some web)
            note D = D [unfolded Some option.case]
            have w: use_web "re_web env = Some web"
              using Some by (simp_all split: if_splits)
            obtain rw conns where rw: "retrieve_web web queries {} [] (rs_conns ?st1) = (rw, conns)" by fastforce
            obtain new where n: "conns = rs_conns ?st1 @ new" "length new \<le> length queries"
                "list_all (\<lambda>c. \<exists>q \<in> set queries. search_connection web q c) new"
              using retrieve_web_conns [OF rw] by blast
            have use: "web_use env question use_web st new"
              unfolding web_use_def using w n(2,3) plan planned_length [OF plan] by blast
            let ?st2 = "?st1\<lparr>rs_conns := conns\<rparr>"
            have f2: "rs_sent ?st2 = rs_sent st @ [plan_request (re_budgets env) question]"
              "rs_conns ?st2 = rs_conns st @ new"
              "ag_limiter (rs_agent ?st2) = ag_limiter (rs_agent st)" "ag_audit (rs_agent ?st2) = ag_audit (rs_agent st)"
              "ag_spawned (rs_agent ?st2) = ag_spawned (rs_agent st)"
              using n(1) by simp_all
            note fail = fail_effect [OF _ f2 use]
            show ?thesis
            proof (cases rw)
              case None
              then show ?thesis using D rw by (intro fail) simp
            next
              case (Some wps)
              show ?thesis
              proof (cases "over_budget env 2")
                case True
                then show ?thesis using D rw Some by (intro fail) (simp add: Let_def)
              next
                case False
                have "gathered (web_finds web queries (rs_conns st)) wps"
                  using retrieve_web_gathers [OF rw [unfolded Some] gathered_start] by (simp add: MAX_PASSAGES_def)
                from merge_web_gathers [OF ok this]
                have "gathered (finds env (fst who) use_web queries (rs_conns st))
                    (merge_web wps (pa_chunk_id ` set passages) passages)"
                  using w by (simp add: finds_def)
                then show ?thesis
                  using D rw Some False by (intro finish_effect [OF _ f2 use plan]) (simp_all add: Let_def)
              qed
            qed
          qed
        qed
      qed
    qed
  qed
qed

lemma research_handler_cases:
  assumes "build_deep_research_response enabled available al env secs a b v st = (r, st')"
  shows "(rs_sent st' = rs_sent st \<and> rs_conns st' = rs_conns st \<and> fst r \<noteq> HTTP_OK \<and>
            ag_spawned (rs_agent st') = ag_spawned (rs_agent st) \<and>
            rl_value (ag_limiter (rs_agent st')) = rl_value (ag_limiter (rs_agent st))) \<or>
         (\<exists>claims question web rl outcome st2.
            verify_and_extract a v = Inr claims \<and> enabled \<and> available \<and>
            research_fields b = Inr (question, web) \<and>
            is_allowed al (extract_tenant_id claims) RESEARCH_CAPABILITY \<and>
            try_acquire (extract_tenant_id claims) secs (ag_limiter (rs_agent st)) = (True, rl) \<and>
            run_deep_research env (owner_of claims) question (web \<and> re_web env \<noteq> None) (set_limiter rl st) =
              (outcome, st2) \<and>
            r = research_reply outcome \<and> st' = set_limiter (rl_release (ag_limiter (rs_agent st2))) st2)"
proof (cases "verify_and_extract a v")
  case (Inl e)
  then have "fst e \<noteq> HTTP_OK"
    by (auto dest: auth_error_status)
  with Inl show ?thesis using assms by (intro disjI1) (auto simp: build_deep_research_response_def)
next
  case v: (Inr claims)
  show ?thesis
  proof (cases "enabled \<and> available")
    case False
    then show ?thesis using assms v by (intro disjI1) (auto simp: build_deep_research_response_def split: if_splits)
  next
    case on: True
    show ?thesis
    proof (cases "research_fields b")
      case (Inl e)
      then have "fst e \<noteq> HTTP_OK"
        by (auto simp: research_fields_def needed_text_def bad_request_def ebind_def
            split: option.splits json.splits if_splits)
      then show ?thesis using assms v on Inl by (intro disjI1) (auto simp: build_deep_research_response_def)
    next
      case (Inr f)
      obtain question web where f: "f = (question, web)" by (cases f)
      show ?thesis
      proof (cases "is_allowed al (extract_tenant_id claims) RESEARCH_CAPABILITY")
        case False
        then show ?thesis
          using assms v on Inr f by (intro disjI1) (auto simp: build_deep_research_response_def owner_of_def Let_def)
      next
        case al: True
        obtain ok rl where t: "try_acquire (extract_tenant_id claims) secs (ag_limiter (rs_agent st)) = (ok, rl)"
          by fastforce
        show ?thesis
        proof (cases ok)
          case False
          then show ?thesis
            using assms v on Inr f al t
              try_acquire_value(1) [of "extract_tenant_id claims" secs "ag_limiter (rs_agent st)"]
            by (intro disjI1) (auto simp: build_deep_research_response_def owner_of_def Let_def)
        next
          case True
          obtain outcome st2 where q: "run_deep_research env (owner_of claims) question (web \<and> re_web env \<noteq> None)
              (set_limiter rl st) = (outcome, st2)"
            by fastforce
          show ?thesis
            using assms v on Inr f al t True q
            by (auto simp: build_deep_research_response_def owner_of_def Let_def)
        qed
      qed
    qed
  qed
qed

lemma research_fields_Inr:
  "research_fields b = Inr (question, web) \<Longrightarrow>
     py_strip question \<noteq> [] \<and> utf8_len question \<le> MAX_QUESTION_BYTES \<and>
     (\<exists>data. b = Some (JObj data) \<and> web = truthy (dget data ''web''))"
  by (auto simp: research_fields_def ebind_Inr needed_text_Inr split: option.splits json.splits if_splits)

text \<open>Two corpora the tenant sees alike cannot be told apart by its runs, whatever the store.\<close>

lemma retrieve_corpus:
  assumes "\<And>e k. rs_query (re_store env) t e k c = rs_query (re_store env) t e k (re_corpus env)"
  shows "retrieve (env\<lparr>re_corpus := c\<rparr>) t qs seen ps = retrieve env t qs seen ps"
  by (induction qs arbitrary: seen ps) (auto simp: assms split: option.split list.split prod.split bool.split)

lemma research_corpus_update [simp]:
  "plan (env\<lparr>re_corpus := c\<rparr>) = plan env" "emit_research (env\<lparr>re_corpus := c\<rparr>) = emit_research env"
  "research_fail (env\<lparr>re_corpus := c\<rparr>) = research_fail env"
  "over_budget (env\<lparr>re_corpus := c\<rparr>) = over_budget env"
  "research_finish (env\<lparr>re_corpus := c\<rparr>) = research_finish env"
proof -
  have chat: "chat_call (env\<lparr>re_corpus := c\<rparr>) = chat_call env"
    by (intro ext) (simp add: chat_call_def)
  show e: "emit_research (env\<lparr>re_corpus := c\<rparr>) = emit_research env"
    by (intro ext) (simp add: emit_research_def)
  show f: "research_fail (env\<lparr>re_corpus := c\<rparr>) = research_fail env"
    by (intro ext) (simp add: research_fail_def e)
  show "plan (env\<lparr>re_corpus := c\<rparr>) = plan env"
    by (intro ext) (simp add: plan_def chat)
  show "over_budget (env\<lparr>re_corpus := c\<rparr>) = over_budget env"
    by (intro ext) (simp add: over_budget_def)
  show "research_finish (env\<lparr>re_corpus := c\<rparr>) = research_finish env"
    by (intro ext) (simp add: research_finish_def chat e f split: option.split prod.split)
qed

lemma run_research_corpus:
  assumes "\<And>e k. rs_query (re_store env) (fst who) e k c = rs_query (re_store env) (fst who) e k (re_corpus env)"
  shows "run_deep_research (env\<lparr>re_corpus := c\<rparr>) who question web st = run_deep_research env who question web st"
proof -
  note r = retrieve_corpus [OF assms]
  show ?thesis
    by (simp add: run_deep_research_def r Let_def split: option.split prod.split)
qed

lemma research_handler_corpus:
  assumes "\<And>claims e k. verify_and_extract a v = Inr claims \<Longrightarrow>
      rs_query (re_store env) (extract_tenant_id claims) e k c =
      rs_query (re_store env) (extract_tenant_id claims) e k (re_corpus env)"
  shows "build_deep_research_response enabled available al (env\<lparr>re_corpus := c\<rparr>) secs a b v st =
     build_deep_research_response enabled available al env secs a b v st"
proof (cases "verify_and_extract a v")
  case (Inr claims)
  have "run_deep_research (env\<lparr>re_corpus := c\<rparr>) (owner_of claims) q web s =
      run_deep_research env (owner_of claims) q web s" for q web s
    by (rule run_research_corpus) (simp add: owner_of_def assms [OF Inr])
  then show ?thesis
    by (simp add: build_deep_research_response_def Inr Let_def split: sum.split prod.split bool.split)
qed (simp add: build_deep_research_response_def)

context retrieval_contract
begin

lemma research_view:
  assumes "inv (re_corpus env)" and "inv c" and "re_store env = store"
    and "verify_and_extract a v = Inr claims"
    and "view c (extract_tenant_id claims) = view (re_corpus env) (extract_tenant_id claims)"
  shows "build_deep_research_response enabled available al (env\<lparr>re_corpus := c\<rparr>) secs a b v st =
     build_deep_research_response enabled available al env secs a b v st"
proof (rule research_handler_corpus)
  fix claims' e k
  assume "verify_and_extract a v = Inr claims'"
  then have "claims' = claims"
    using assms(4) by simp
  then show "rs_query (re_store env) (extract_tenant_id claims') e k c =
      rs_query (re_store env) (extract_tenant_id claims') e k (re_corpus env)"
    unfolding assms(3) query_view [OF assms(1)] query_view [OF assms(2)] by (simp add: assms(5))
qed

lemma corpus_of_tenant:
  assumes "inv (re_corpus env)" and "re_store env = store" and "p \<in> corpus_finds env t queries"
  shows "\<exists>c \<in> set (view (re_corpus env) t). dc_tenant_id c = t \<and> pa_document_id p = dc_document_id c \<and>
    pa_content p = dc_content c \<and> pa_chunk_id p = dc_id c"
proof -
  obtain e r where r: "r \<in> set (rs_query store t e (rb_top_k (re_budgets env)) (re_corpus env))"
    and p: "p = corpus_passage r"
  proof -
    obtain q where q: "p \<in> (case re_embed env [q] of
        Some (e # _) \<Rightarrow>
          corpus_passage ` set (rs_query (re_store env) t e (rb_top_k (re_budgets env)) (re_corpus env))
      | _ \<Rightarrow> {})"
      using assms(3) unfolding corpus_finds_def by blast
    then obtain e es where "re_embed env [q] = Some (e # es)"
      by (cases "re_embed env [q]"; cases "the (re_embed env [q])") simp_all
    then show thesis
      using q assms(2) that by auto
  qed
  have "r \<in> set (map (passage_of sim e) (view (re_corpus env) t))"
    using r set_slice_to unfolding query_view [OF assms(1)] by fastforce
  then obtain c where "c \<in> set (view (re_corpus env) t)" "r = passage_of sim e c"
    by auto
  then show ?thesis
    using p view_tenant [OF assms(1)] by (auto simp: corpus_passage_def passage_of_def)
qed

end

section \<open>An example\<close>

definition example_answer :: json where
  "example_answer = JObj [(''choices'', JArr [JObj [(''message'', JObj [(''content'', JStr ''ok'')])]])]"

definition example_research :: "(pg_chunks, unit) research_env" where
  "example_research =
     \<lparr>re_store = PostgresRetrievalStore (\<lambda>_ _. 0), re_corpus = \<lparr>pd_documents = [], pd_chunks = []\<rparr>,
      re_embed = (\<lambda>_. Some [[1]]), re_chat = (\<lambda>_ _. Inr example_answer), re_loads = (\<lambda>_. None),
      re_budgets = \<lparr>rb_max_subqueries = 4, rb_top_k = 5, rb_wall_clock_seconds = 90, rb_max_tokens = 512,
                    rb_model = ''default''\<rparr>,
      re_web = None, re_elapsed = (\<lambda>_. 0), re_notif_store = None, re_now = 0, re_run_id = ''r1'',
      re_nuid = (\<lambda>_. [])\<rparr>"

definition research_idle :: "unit research_state" where
  "research_idle = \<lparr>rs_agent = tools_idle, rs_sent = [], rs_conns = []\<rparr>"

definition research_body :: json where
  "research_body = JObj [(''question'', JStr ''why''), (''web'', JBool True)]"

lemma research_body_fields: "research_fields (Some research_body) = Inr (''why'', True)"
proof -
  have "py_strip ''why'' = ''why''" "utf8_len ''why'' = 3"
    by code_simp+
  then show ?thesis
    by (simp add: research_fields_def research_body_def needed_text_def MAX_QUESTION_BYTES_def)
qed

lemma extract_ok: "extract_json_object (\<lambda>_. None) ''ok'' = None"
  by code_simp

text \<open>Chunks of the caller's tenant and of another one; a run over the former.\<close>

definition own_chunk :: document_chunk where
  "own_chunk = \<lparr>dc_id = ''c'', dc_document_id = ''d'', dc_tenant_id = ''a.io'', dc_chunk_index = 0,
     dc_content = ''facts'', dc_embedding = [1], dc_created_at = 0\<rparr>"

definition foreign_chunk :: document_chunk where
  "foreign_chunk = own_chunk\<lparr>dc_tenant_id := ''b.io''\<rparr>"

definition stocked_research :: "(pg_chunks, unit) research_env" where
  "stocked_research = example_research\<lparr>re_corpus := \<lparr>pd_documents = [], pd_chunks = [own_chunk, foreign_chunk]\<rparr>\<rparr>"

lemma stocked_run:
  "fst (run_deep_research stocked_research (''a.io'', u) ''why'' False st) =
     \<lparr>ro_status = ''completed'', ro_answer = Some ''ok'', ro_sources = [''d''], ro_subqueries = 1, ro_detail = None\<rparr>"
  by (simp add: run_deep_research_def plan_def chat_call_def stocked_research_def example_research_def
      planned_queries_def example_answer_def content_of_def extract_ok over_budget_def PostgresRetrievalStore_def
      pg_chunk_query_def slice_to_def research_finish_def own_chunk_def foreign_chunk_def corpus_passage_def passage_of_def
      MAX_PASSAGES_def Let_def)

section \<open>Properties\<close>

text \<open>C13: A research request asks the model only past every gate (verified token, switch, configured
  client, question within its bound, tenant allow-listed for the capability, a slot held), and at most
  twice: the plan, then the synthesis of the passages gathered.  These are passages that the caller's
  own tenant's corpus returned to the embeddings of the planned queries, or that the web searches of
  these queries returned, if the request asked for them and the operator configured a client: no
  two with one id, at most 12, and, below 12, none that was found is missing.  A completed answer is
  what the model made of those passages, and its sources are the documents of those passages: all of
  them, no others, and each once.  Web connections are made only where web search is asked for and
  configured, by that client, at most one for each planned query.  The slot is given back on every
  path, and no tool is run.\<close>

theorem research_gated_and_cited:
  assumes "rl_ok (ag_limiter (rs_agent st))"
  shows "case build_deep_research_response enabled available al env secs authorization body token_verifier st of
     (r, st') \<Rightarrow>
       rl_value (ag_limiter (rs_agent st')) = rl_value (ag_limiter (rs_agent st)) \<and>
       ag_spawned (rs_agent st') = ag_spawned (rs_agent st) \<and>
       ((rs_sent st' = rs_sent st \<and> rs_conns st' = rs_conns st \<and> fst r \<noteq> HTTP_OK) \<or>
        (\<exists>claims question web outcome sent conns.
           verify_and_extract authorization token_verifier = Inr claims \<and> enabled \<and> available \<and>
           research_fields body = Inr (question, web) \<and> utf8_len question \<le> MAX_QUESTION_BYTES \<and>
           is_allowed al (extract_tenant_id claims) RESEARCH_CAPABILITY \<and>
           fst (try_acquire (extract_tenant_id claims) secs (ag_limiter (rs_agent st))) \<and>
           r = research_reply outcome \<and>
           rs_sent st' = rs_sent st @ sent \<and> asked_model env (owner_of claims) question web st outcome sent \<and>
           rs_conns st' = rs_conns st @ conns \<and> web_use env question web st conns))"
proof -
  obtain r st' where b: "build_deep_research_response enabled available al env secs authorization body
      token_verifier st = (r, st')"
    by fastforce
  show ?thesis
    unfolding b prod.case using research_handler_cases [OF b]
  proof (elim disjE exE conjE, goal_cases)
    case (2 claims question web rl outcome st2)
    then obtain sent conns where e: "rs_sent st2 = rs_sent st @ sent" "rs_conns st2 = rs_conns st @ conns"
        "research_done (owner_of claims) question outcome (set_limiter rl st) st2"
        "asked_model env (owner_of claims) question (web \<and> re_web env \<noteq> None) st outcome sent"
        "web_use env question (web \<and> re_web env \<noteq> None) st conns"
      using run_deep_research_effect [OF 2(7)]
      unfolding run_effect_def set_limiter_frame asked_model_limiter web_use_limiter by blast
    have "rl_value (rl_release rl) = rl_value (ag_limiter (rs_agent st))"
      using acquire_release_value [OF assms, of "extract_tenant_id claims" secs] 2 by simp
    moreover have "web_use env question web st conns"
      using e(5) by (auto simp: web_use_def)
    moreover have "asked_model env (owner_of claims) question web st outcome sent"
      using e(4) by (cases "re_web env") (auto simp: asked_model_def finds_def)
    moreover have "ag_limiter (rs_agent st2) = rl" "ag_spawned (rs_agent st2) = ag_spawned (rs_agent st)"
      using e(3) by (simp_all add: research_done_def)
    ultimately show ?case
      using 2 e(1,2) research_fields_Inr [OF 2(4)]
      by (intro conjI disjI2 exI [of _ claims] exI [of _ question] exI [of _ web] exI [of _ outcome]
          exI [of _ sent] exI [of _ conns]) simp_all
  qed auto
qed

lemma research_gated_and_cited_witness:
  "(case build_deep_research_response True True [(''a.io'', {''deep_research''})] stocked_research 0
       (Some ''Bearer ta'') (Some research_body) (Some two_users) research_idle of
      (r, st') \<Rightarrow>
        r = (HTTP_OK, JObj [(''status'', JStr ''completed''), (''answer'', JStr ''ok''),
               (''sources'', JArr [JStr ''d'']), (''subqueries'', JInt 1)]) \<and>
        rl_value (ag_limiter (rs_agent st')) = 2 \<and> rs_conns st' = [])"
proof -
  let ?x = "build_deep_research_response True True [(''a.io'', {''deep_research''})] stocked_research 0
       (Some ''Bearer ta'') (Some research_body) (Some two_users) research_idle"
  obtain r st' where x: "?x = (r, st')" by fastforce
  have limiter: "rl_ok (ag_limiter (rs_agent research_idle))" "rl_value (ag_limiter (rs_agent research_idle)) = 2"
    by (simp_all add: research_idle_def tools_idle_def rl_ok_def rate_limiter_init_def spent_def)
  have web: "re_web stocked_research = None" "rs_conns research_idle = []"
    by (simp_all add: stocked_research_def example_research_def research_idle_def)
  have "fst ?x = (HTTP_OK, JObj [(''status'', JStr ''completed''), (''answer'', JStr ''ok''),
               (''sources'', JArr [JStr ''d'']), (''subqueries'', JInt 1)])"
    by (simp add: build_deep_research_response_def research_body_fields owner_of_def is_allowed_def
        RESEARCH_CAPABILITY_def research_idle_def tools_idle_def stats_acquire Let_def web
        stocked_run split_beta research_reply_def jopt_def)
  moreover have "rl_value (ag_limiter (rs_agent st')) = 2 \<and> rs_conns st' = []"
    using research_gated_and_cited [OF limiter(1), where enabled = True and available = True
        and al = "[(''a.io'', {''deep_research''})]" and env = stocked_research and secs = 0
        and authorization = "Some ''Bearer ta''" and body = "Some research_body" and token_verifier = "Some two_users"]
    unfolding x by (auto simp: limiter web web_use_def)
  ultimately show ?thesis
    using x by simp
qed

text \<open>C28: What other tenants have indexed has no effect on a research request: over two corpora that agree on
  the chunks of the caller's tenant, the reply, the questions put to the model, the connections and
  everything else are the same (of both stores; here the one over PostgreSQL).\<close>

theorem research_noninterference:
  fixes env :: "(pg_chunks, 'n) research_env"
  assumes "verify_and_extract authorization token_verifier = Inr claims"
    and "re_store env = PostgresRetrievalStore vdist"
    and "filter (\<lambda>c. dc_tenant_id c = extract_tenant_id claims) (pd_chunks corpus) =
         filter (\<lambda>c. dc_tenant_id c = extract_tenant_id claims) (pd_chunks (re_corpus env))"
  shows "build_deep_research_response enabled available al (env\<lparr>re_corpus := corpus\<rparr>) secs authorization body
           token_verifier st =
         build_deep_research_response enabled available al env secs authorization body token_verifier st"
  using assms by (intro pg_chunks.research_view) (simp_all add: pg_chunk_view_def)


lemma research_noninterference_witness:
  "build_deep_research_response True True [(''a.io'', {''deep_research''})]
       (example_research\<lparr>re_corpus := \<lparr>pd_documents = [], pd_chunks = [foreign_chunk]\<rparr>\<rparr>) 0
       (Some ''Bearer ta'') (Some research_body) (Some two_users) research_idle =
   build_deep_research_response True True [(''a.io'', {''deep_research''})] example_research 0
       (Some ''Bearer ta'') (Some research_body) (Some two_users) research_idle"
  by (rule research_noninterference [where claims = alice_claims and vdist = "\<lambda>_ _. 0"])
    (simp_all add: example_research_def foreign_chunk_def own_chunk_def)

end
