(* ===== verification/Storage.thy ===== *)
theory Storage
  imports Prelude
begin

text \<open>
  The object-storage client (app/storage/s3.py).  boto3's S3 client is a parameter: four operations on a
  state of its own, \<^term>\<open>None\<close> where one raises.  Bodies are byte strings.
\<close>

record 'o boto3_s3 =
  bo_put :: "string \<Rightarrow> string \<Rightarrow> string \<Rightarrow> string \<Rightarrow> 'o \<Rightarrow> 'o option"
  bo_get :: "string \<Rightarrow> string \<Rightarrow> 'o \<Rightarrow> (string \<times> string option) option"
  bo_delete :: "string \<Rightarrow> string \<Rightarrow> 'o \<Rightarrow> 'o option"
  bo_presign :: "string \<Rightarrow> string \<Rightarrow> string \<Rightarrow> nat \<Rightarrow> 'o \<Rightarrow> string option"

datatype storage_exn = StorageError string | BucketRequired

record s3_client =
  s3_bucket :: string

definition S3StorageClient :: "string \<Rightarrow> storage_exn + s3_client" where
  "S3StorageClient bucket =
     (if py_strip bucket = [] then Inl BucketRequired else Inr \<lparr>s3_bucket = py_strip bucket\<rparr>)"

text \<open>The message of the error; the text of the exception behind it is not modelled.\<close>

definition s3_error :: "string \<Rightarrow> s3_client \<Rightarrow> string \<Rightarrow> storage_exn" where
  "s3_error what client key =
     StorageError (''Failed to '' @ what @ '' s3://'' @ s3_bucket client @ ''/'' @ key)"

definition s3_put_object ::
    "'o boto3_s3 \<Rightarrow> s3_client \<Rightarrow> string \<Rightarrow> string \<Rightarrow> string \<Rightarrow> 'o \<Rightarrow> storage_exn + 'o" where
  "s3_put_object boto client key body content_type s =
     (case bo_put boto (s3_bucket client) key body content_type s of
        None \<Rightarrow> Inl (s3_error ''upload'' client key)
      | Some s' \<Rightarrow> Inr s')"

definition s3_get_object :: "'o boto3_s3 \<Rightarrow> s3_client \<Rightarrow> string \<Rightarrow> 'o \<Rightarrow> storage_exn + string" where
  "s3_get_object boto client key s =
     (case bo_get boto (s3_bucket client) key s of
        None \<Rightarrow> Inl (s3_error ''download'' client key)
      | Some (body, ctype) \<Rightarrow> Inr body)"

definition s3_get_object_with_type ::
    "'o boto3_s3 \<Rightarrow> s3_client \<Rightarrow> string \<Rightarrow> 'o \<Rightarrow> storage_exn + string \<times> string" where
  "s3_get_object_with_type boto client key s =
     (case bo_get boto (s3_bucket client) key s of
        None \<Rightarrow> Inl (s3_error ''download'' client key)
      | Some (body, ctype) \<Rightarrow>
          Inr (body, case ctype of None \<Rightarrow> ''application/octet-stream'' | Some t \<Rightarrow> t))"

definition s3_delete_object :: "'o boto3_s3 \<Rightarrow> s3_client \<Rightarrow> string \<Rightarrow> 'o \<Rightarrow> storage_exn + 'o" where
  "s3_delete_object boto client key s =
     (case bo_delete boto (s3_bucket client) key s of
        None \<Rightarrow> Inl (s3_error ''delete'' client key)
      | Some s' \<Rightarrow> Inr s')"

definition s3_generate_presigned_url ::
    "'o boto3_s3 \<Rightarrow> s3_client \<Rightarrow> string \<Rightarrow> nat \<Rightarrow> string \<Rightarrow> 'o \<Rightarrow> storage_exn + string" where
  "s3_generate_presigned_url boto client key expires_in operation s =
     (case bo_presign boto operation (s3_bucket client) key expires_in s of
        None \<Rightarrow> Inl (StorageError (''Failed to generate presigned URL for s3://'' @ s3_bucket client @ ''/'' @ key))
      | Some url \<Rightarrow> Inr url)"

section \<open>Documented behaviour of S3\<close>

text \<open>
  What the code relies on: a read after a write that succeeded returns the written object, a write or a
  deletion leaves the objects under other keys as they were, and a deleted object is gone.
\<close>

definition s3_contract :: "'o boto3_s3 \<Rightarrow> bool" where
  "s3_contract boto \<longleftrightarrow>
     (\<forall>bucket key body ctype s s'. bo_put boto bucket key body ctype s = Some s' \<longrightarrow>
        bo_get boto bucket key s' = Some (body, Some ctype) \<and>
        (\<forall>other. other \<noteq> key \<longrightarrow> bo_get boto bucket other s' = bo_get boto bucket other s)) \<and>
     (\<forall>bucket key s s'. bo_delete boto bucket key s = Some s' \<longrightarrow>
        bo_get boto bucket key s' = None \<and>
        (\<forall>other. other \<noteq> key \<longrightarrow> bo_get boto bucket other s' = bo_get boto bucket other s))"

text \<open>A service with this behaviour, for the examples: a map that never fails.\<close>

definition map_s3 :: "(string \<times> string \<Rightarrow> (string \<times> string) option) boto3_s3" where
  "map_s3 =
     \<lparr>bo_put = (\<lambda>bucket key body ctype s. Some (s((bucket, key) \<mapsto> (body, ctype)))),
      bo_get = (\<lambda>bucket key s. map_option (\<lambda>(body, ctype). (body, Some ctype)) (s (bucket, key))),
      bo_delete = (\<lambda>bucket key s. Some (s((bucket, key) := None))),
      bo_presign = (\<lambda>operation bucket key expires_in s. Some (''https://s3/'' @ bucket @ ''/'' @ key))\<rparr>"

lemma map_s3_contract: "s3_contract map_s3"
  by (auto simp: s3_contract_def map_s3_def)

lemma s3_put_get:
  assumes "s3_contract boto" and "s3_put_object boto client key body ctype s = Inr s'"
  shows "s3_get_object_with_type boto client key s' = Inr (body, ctype)"
    and "other \<noteq> key \<Longrightarrow> s3_get_object_with_type boto client other s' = s3_get_object_with_type boto client other s"
  using assms
  by (auto simp: s3_contract_def s3_put_object_def s3_get_object_with_type_def s3_error_def split: option.splits)

end
