(* ===== verification/Media.thy ===== *)
theory Media
  imports Integrations Storage
begin

text \<open>
  The media services (app/control_plane/media.py): the registry, the executor that forwards a request to
  its GPU backend and stores what it generated, and the handlers.  A backend is a parameter (\<open>post\<close>:
  what a request gave, given the requests before it), and so is the object store behind the S3 client.
\<close>

section \<open>Registry\<close>

definition DEFAULT_MAX_AUDIO_BYTES :: nat where "DEFAULT_MAX_AUDIO_BYTES = 26214400"
definition DEFAULT_MAX_PROMPT_CHARS :: nat where "DEFAULT_MAX_PROMPT_CHARS = 2000"
definition MEDIA_MAX_RESULT_BYTES :: nat where "MEDIA_MAX_RESULT_BYTES = 16777216"

record media_service =
  ms_name :: string
  ms_kind :: string
  ms_base_url :: string
  ms_model :: string

definition parse_media_service :: "string \<Rightarrow> json \<Rightarrow> media_service option" where
  "parse_media_service name spec =
     (case spec of
        JObj d \<Rightarrow>
          (case (dget d ''kind'', dget d ''base_url'') of
             (JStr kind, JStr base_url) \<Rightarrow>
               if kind \<in> {''stt'', ''image'', ''tts''} \<and> base_url \<noteq> []
               then Some \<lparr>ms_name = name, ms_kind = kind,
                          ms_base_url = py_rstrip_by (\<lambda>c. c = CHR ''/'') base_url,
                          ms_model = (case dget d ''model'' of
                                        JStr m \<Rightarrow> if m = [] then ''whisper-1'' else m
                                      | _ \<Rightarrow> ''whisper-1'')\<rparr>
               else None
           | _ \<Rightarrow> None)
      | _ \<Rightarrow> None)"

definition parse_media_services :: "json option \<Rightarrow> (string \<times> media_service) list" where
  "parse_media_services raw =
     (case raw of
        Some (JObj data) \<Rightarrow>
          List.map_filter (\<lambda>(name, spec). map_option (\<lambda>s. (name, s)) (parse_media_service name spec)) data
      | _ \<Rightarrow> [])"

definition parse_media_allowlist :: "(rat \<Rightarrow> string) \<Rightarrow> json option \<Rightarrow> allowlist" where
  "parse_media_allowlist fr raw = parse_allowlist fr raw"

section \<open>Executor\<close>

datatype media_result =
    Transcript json
  | Artifact string nat bool string

record media_outcome =
  mo_result_class :: string
  mo_status :: "int option"
  mo_result :: "media_result option"

definition media_fail :: "string \<Rightarrow> media_outcome" where
  "media_fail rc = \<lparr>mo_result_class = rc, mo_status = None, mo_result = None\<rparr>"

text \<open>A request to a backend, and what came of it; \<open>MediaRaised\<close> is an exception that is no \<^verbatim>\<open>OSError\<close>.\<close>

record media_post =
  mp_url :: string
  mp_data :: string
  mp_content_type :: string

datatype media_wire =
    MediaStatus int | MediaUrlError | MediaTimeout | MediaOSError | MediaRaised
  | MediaResponse int string string

record ('o, 'n) media_state =
  md_limiter :: rate_limiter
  md_audit :: "audit_entry list"
  md_notifs :: 'n
  md_posts :: "media_post list"
  md_objects :: 'o

record 'o media_env =
  me_services :: "(string \<times> media_service) list"
  me_post :: "media_post list \<Rightarrow> media_post \<Rightarrow> media_wire"
  me_storage :: "('o boto3_s3 \<times> s3_client) option"
  me_loads :: "string \<Rightarrow> json option"
  me_float :: "rat \<Rightarrow> string"

definition media_available :: "'o media_env \<Rightarrow> string \<Rightarrow> allowlist \<Rightarrow> string list" where
  "media_available env tenant_id al =
     sort (filter (\<lambda>n. is_allowed al tenant_id n) (map fst (me_services env)))"

definition artifact_key :: "owner \<Rightarrow> string \<Rightarrow> string" where
  "artifact_key who artifact_id = ''media/'' @ fst who @ ''/'' @ snd who @ ''/'' @ artifact_id @ ''.bin''"

definition artifact_url :: "'o media_env \<Rightarrow> string \<Rightarrow> owner \<Rightarrow> nat \<Rightarrow> 'o \<Rightarrow> string option" where
  "artifact_url env artifact_id who expires_in s =
     (case me_storage env of
        None \<Rightarrow> None
      | Some (boto, client) \<Rightarrow>
          (case s3_generate_presigned_url boto client (artifact_key who artifact_id) expires_in ''get_object'' s of
             Inl _ \<Rightarrow> None
           | Inr url \<Rightarrow> Some url))"

definition artifact_bytes :: "'o media_env \<Rightarrow> string \<Rightarrow> owner \<Rightarrow> 'o \<Rightarrow> (string \<times> string) option" where
  "artifact_bytes env artifact_id who s =
     (case me_storage env of
        None \<Rightarrow> None
      | Some (boto, client) \<Rightarrow>
          (case s3_get_object_with_type boto client (artifact_key who artifact_id) s of
             Inl _ \<Rightarrow> None
           | Inr got \<Rightarrow> Some got))"

text \<open>\<^verbatim>\<open>s.encode("utf-8")\<close> as a byte string.\<close>

definition utf8_encode :: "string \<Rightarrow> string" where
  "utf8_encode s =
     concat (map (\<lambda>c. let n = ord_of c in
       if n < 128 then [c] else [char_of (192 + n div 64), char_of (128 + n mod 64)]) s)"

definition crlf :: string where "crlf = [CHR 0x0D, CHR 0x0A]"
definition dquote :: string where "dquote = [CHR 0x22]"

text \<open>\<open>uid\<close> is the hexadecimal UUID drawn for the boundary.\<close>

definition multipart_audio :: "string \<Rightarrow> string \<Rightarrow> string \<Rightarrow> string \<Rightarrow> string \<times> string" where
  "multipart_audio uid audio filename model =
     (let boundary = ''----media'' @ uid in
      (py_join crlf
         [''--'' @ boundary,
          ''Content-Disposition: form-data; name='' @ dquote @ ''model'' @ dquote,
          [],
          utf8_encode model,
          ''--'' @ boundary,
          ''Content-Disposition: form-data; name='' @ dquote @ ''file'' @ dquote @ ''; filename='' @ dquote
            @ utf8_encode filename @ dquote,
          ''Content-Type: application/octet-stream'',
          [],
          audio,
          ''--'' @ boundary @ ''--'',
          []],
       ''multipart/form-data; boundary='' @ boundary))"

text \<open>\<^verbatim>\<open>_post\<close> with the handlers of its exceptions: a response, an outcome, or \<open>Inl\<close> an exception.\<close>

definition media_send ::
    "'o media_env \<Rightarrow> media_post \<Rightarrow> ('o, 'n) media_state
       \<Rightarrow> (unit + (media_outcome + int \<times> string \<times> string)) \<times> ('o, 'n) media_state" where
  "media_send env p st =
     ((case me_post env (md_posts st) p of
         MediaStatus code \<Rightarrow>
           Inr (Inl \<lparr>mo_result_class = ''backend_error'', mo_status = Some code, mo_result = None\<rparr>)
       | MediaUrlError \<Rightarrow> Inr (Inl (media_fail ''backend_timeout''))
       | MediaTimeout \<Rightarrow> Inr (Inl (media_fail ''backend_timeout''))
       | MediaOSError \<Rightarrow> Inr (Inl (media_fail ''backend_error''))
       | MediaRaised \<Rightarrow> Inl ()
       | MediaResponse status body ctype \<Rightarrow> Inr (Inr (status, take MEDIA_MAX_RESULT_BYTES body, ctype))),
      st\<lparr>md_posts := md_posts st @ [p]\<rparr>)"

text \<open>The registered service, if it is of the kind.\<close>

definition media_spec :: "'o media_env \<Rightarrow> string \<Rightarrow> string \<Rightarrow> media_outcome + media_service" where
  "media_spec env service kind =
     (case map_of (me_services env) service of
        None \<Rightarrow> Inl (media_fail ''unknown_service'')
      | Some spec \<Rightarrow> if ms_kind spec \<noteq> kind then Inl (media_fail ''wrong_kind'') else Inr spec)"

definition transcribe ::
    "'o media_env \<Rightarrow> string \<Rightarrow> string \<Rightarrow> string \<Rightarrow> ('o, 'n) media_state
       \<Rightarrow> (unit + media_outcome) \<times> ('o, 'n) media_state" where
  "transcribe env uid service audio st =
     (case media_spec env service ''stt'' of
        Inl outcome \<Rightarrow> (Inr outcome, st)
      | Inr spec \<Rightarrow>
          let (data, ctype) = multipart_audio uid audio ''audio'' (ms_model spec) in
          (case media_send env \<lparr>mp_url = ms_base_url spec @ ''/v1/audio/transcriptions'', mp_data = data,
                                mp_content_type = ctype\<rparr> st of
             (Inl ex, st) \<Rightarrow> (Inl ex, st)
           | (Inr (Inl outcome), st) \<Rightarrow> (Inr outcome, st)
           | (Inr (Inr (status, body, _)), st) \<Rightarrow>
               (Inr \<lparr>mo_result_class = ''success'', mo_status = Some status,
                     mo_result = Some (Transcript
                       (case me_loads env body of
                          Some (JObj d) \<Rightarrow> dget_or d ''text'' (JStr [])
                        | _ \<Rightarrow> JStr []))\<rparr>, st)))"

text \<open>Storing what a backend generated, under the caller's prefix.\<close>

definition store_artifact ::
    "'o media_env \<Rightarrow> string \<Rightarrow> owner \<Rightarrow> string \<Rightarrow> int \<Rightarrow> string \<Rightarrow> ('o, 'n) media_state
       \<Rightarrow> media_outcome \<times> ('o, 'n) media_state" where
  "store_artifact env artifact_id who ctype status body st =
     (let key = artifact_key who artifact_id;
          done = (\<lambda>stored. \<lparr>mo_result_class = ''success'', mo_status = Some status,
                    mo_result = Some (Artifact artifact_id (length body) stored key)\<rparr>)
      in case me_storage env of
           None \<Rightarrow> (done False, st)
         | Some (boto, client) \<Rightarrow>
             (case s3_put_object boto client key body ctype (md_objects st) of
                Inl _ \<Rightarrow> (media_fail ''backend_error'', st)
              | Inr s \<Rightarrow> (done True, st\<lparr>md_objects := s\<rparr>)))"

text \<open>\<^verbatim>\<open>{**base, **params}\<close>.\<close>

definition dict_merge :: "dict \<Rightarrow> dict \<Rightarrow> dict" where
  "dict_merge base params = foldl (\<lambda>d (k, v). dset d k v) base params"

definition generate_with ::
    "'o media_env \<Rightarrow> string \<Rightarrow> owner \<Rightarrow> string \<Rightarrow> string \<Rightarrow> dict \<Rightarrow> ('o, 'n) media_state
       \<Rightarrow> (unit + media_outcome) \<times> ('o, 'n) media_state" where
  "generate_with env artifact_id who url ctype_default payload st =
     (case media_send env \<lparr>mp_url = url, mp_data = json_dumps (me_float env) (JObj payload),
                           mp_content_type = ''application/json''\<rparr> st of
        (Inl ex, st) \<Rightarrow> (Inl ex, st)
      | (Inr (Inl outcome), st) \<Rightarrow> (Inr outcome, st)
      | (Inr (Inr (status, body, ctype)), st) \<Rightarrow>
          apfst Inr (store_artifact env artifact_id who (if ctype = [] then ctype_default else ctype)
                       status body st))"

definition generate ::
    "'o media_env \<Rightarrow> string \<Rightarrow> owner \<Rightarrow> string \<Rightarrow> string \<Rightarrow> dict \<Rightarrow> ('o, 'n) media_state
       \<Rightarrow> (unit + media_outcome) \<times> ('o, 'n) media_state" where
  "generate env artifact_id who service prompt params st =
     (case media_spec env service ''image'' of
        Inl outcome \<Rightarrow> (Inr outcome, st)
      | Inr spec \<Rightarrow>
          generate_with env artifact_id who (ms_base_url spec @ ''/v1/images/generations'')
            ''application/octet-stream'' (dict_merge [(''prompt'', JStr prompt)] params) st)"

definition synthesize ::
    "'o media_env \<Rightarrow> string \<Rightarrow> owner \<Rightarrow> string \<Rightarrow> string \<Rightarrow> dict \<Rightarrow> ('o, 'n) media_state
       \<Rightarrow> (unit + media_outcome) \<times> ('o, 'n) media_state" where
  "synthesize env artifact_id who service txt params st =
     (case media_spec env service ''tts'' of
        Inl outcome \<Rightarrow> (Inr outcome, st)
      | Inr spec \<Rightarrow>
          generate_with env artifact_id who (ms_base_url spec @ ''/v1/audio/speech'') ''audio/mpeg''
            (dict_merge [(''model'', JStr (ms_model spec)), (''input'', JStr txt)] params) st)"

section \<open>Handlers\<close>

definition media_gate :: "string option \<Rightarrow> verifier option \<Rightarrow> bool \<Rightarrow> reply + owner" where
  "media_gate authorization token_verifier enabled =
     (case verify_and_extract authorization token_verifier of
        Inl err \<Rightarrow> Inl err
      | Inr claims \<Rightarrow>
          if \<not> enabled
          then Inl (HTTP_UNAVAILABLE, err_degraded ''media_disabled'' ''Media services are disabled on this instance.'')
          else Inr (owner_of claims))"

type_synonym audit_args = "(string \<times> audit_value) list"

definition media_audit ::
    "owner \<Rightarrow> string \<Rightarrow> audit_args \<Rightarrow> string \<Rightarrow> string option \<Rightarrow> int option \<Rightarrow> ('o, 'n) media_state
       \<Rightarrow> ('o, 'n) media_state" where
  "media_audit who label args decision rc latency st =
     st\<lparr>md_audit := audit who label args decision rc latency None (md_audit st)\<rparr>"

text \<open>\<^verbatim>\<open>_authorize\<close>: the allow-list, then the tenant's switch; a refusal is audited.\<close>

definition media_authorize ::
    "allowlist \<Rightarrow> 's tenant_state \<Rightarrow> 's \<Rightarrow> owner \<Rightarrow> string \<Rightarrow> string \<Rightarrow> audit_args \<Rightarrow> ('o, 'n) media_state
       \<Rightarrow> reply option \<times> ('o, 'n) media_state" where
  "media_authorize al ts switch who service label shape st =
     (if \<not> is_allowed al (fst who) service
      then (Some (HTTP_FORBIDDEN, err_only ''service_not_allowed''), media_audit who label shape ''denied'' None None st)
      else if \<not> tn_is_enabled ts (fst who) service switch
      then (Some (HTTP_FORBIDDEN, err_only ''tenant_disabled''), media_audit who label shape ''tenant_disabled'' None None st)
      else (None, st))"

definition media_result_dict :: "media_result \<Rightarrow> json" where
  "media_result_dict r =
     (case r of
        Transcript t \<Rightarrow> JObj [(''text'', t)]
      | Artifact artifact_id n stored key \<Rightarrow>
          JObj [(''artifact_id'', JStr artifact_id), (''bytes'', JInt (int n)), (''stored'', JBool stored),
                (''key'', JStr key)])"

definition media_to_http :: "media_outcome \<Rightarrow> reply" where
  "media_to_http outcome =
     (let rc = mo_result_class outcome in
      if rc = ''success''
      then (HTTP_OK, JObj [(''status'', jopt JInt (mo_status outcome)),
                           (''result'', jopt media_result_dict (mo_result outcome))])
      else if rc = ''unknown_service'' then (HTTP_NOT_FOUND, err_only ''unknown_service'')
      else if rc = ''wrong_kind'' then (HTTP_BAD_REQUEST, err_only ''wrong_service_kind'')
      else if rc = ''backend_timeout'' then (HTTP_TIMEOUT, err_degraded0 ''backend_timeout'')
      else (HTTP_BAD_GATEWAY, err_degraded0 ''backend_error''))"

text \<open>What the handlers are given: allow-list, switches, notifications, clocks and the drawn ids.\<close>

record ('s, 'n) media_wiring =
  mw_enabled :: bool
  mw_allowlist :: allowlist
  mw_tenant_state :: "'s tenant_state"
  mw_switch :: 's
  mw_notif_store :: "'n notif_store option"
  mw_secs :: int
  mw_now :: datetime
  mw_latency :: int
  mw_uid :: string
  mw_nuid :: string

definition media_notify ::
    "('s, 'n) media_wiring \<Rightarrow> owner \<Rightarrow> string \<Rightarrow> media_outcome \<Rightarrow> ('o, 'n) media_state \<Rightarrow> ('o, 'n) media_state" where
  "media_notify w who service outcome st =
     st\<lparr>md_notifs := emit_event (mw_notif_store w) who
          (if mo_result_class outcome = ''success'' then ''media_task_completed'' else ''media_task_failed'')
          (''media:'' @ service) (mw_nuid w) (mw_now w) (md_notifs st)\<rparr>"

text \<open>
  From the authorisation on, the three handlers are alike: \<open>run\<close> is the executor's operation.  An
  exception that leaves it leaves the handler, after the slot is given back.
\<close>

definition media_run ::
    "('s, 'n) media_wiring \<Rightarrow> owner \<Rightarrow> string \<Rightarrow> string \<Rightarrow> audit_args
       \<Rightarrow> (('o, 'n) media_state \<Rightarrow> (unit + media_outcome) \<times> ('o, 'n) media_state)
       \<Rightarrow> ('o, 'n) media_state \<Rightarrow> (unit + reply) \<times> ('o, 'n) media_state" where
  "media_run w who service label args run st =
     (case media_authorize (mw_allowlist w) (mw_tenant_state w) (mw_switch w) who service label args st of
        (Some deny, st) \<Rightarrow> (Inr deny, st)
      | (None, st) \<Rightarrow>
          (case try_acquire (fst who) (mw_secs w) (md_limiter st) of
             (False, rl) \<Rightarrow>
               (Inr (HTTP_TOO_MANY, err_only ''rate_limited''),
                media_audit who label args ''rate_limited'' None None (st\<lparr>md_limiter := rl\<rparr>))
           | (True, rl) \<Rightarrow>
               let (r, st) = run (st\<lparr>md_limiter := rl\<rparr>);
                   st = st\<lparr>md_limiter := rl_release (md_limiter st)\<rparr>
               in (case r of
                     Inl ex \<Rightarrow> (Inl ex, st)
                   | Inr outcome \<Rightarrow>
                       (Inr (media_to_http outcome),
                        media_notify w who service outcome
                          (media_audit who label args ''allowed'' (Some (mo_result_class outcome))
                             (Some (mw_latency w)) st)))))"

definition build_media_list_response ::
    "'o media_env \<Rightarrow> bool \<Rightarrow> allowlist \<Rightarrow> string option \<Rightarrow> verifier option \<Rightarrow> reply" where
  "build_media_list_response env enabled al authorization token_verifier =
     (case media_gate authorization token_verifier enabled of
        Inl err \<Rightarrow> err
      | Inr who \<Rightarrow> (HTTP_OK, JObj [(''services'', JArr (map JStr (media_available env (fst who) al)))]))"

definition media_bad :: "string \<Rightarrow> reply" where
  "media_bad d = (HTTP_BAD_REQUEST, err_detail ''bad_request'' d)"

definition build_media_transcribe_response ::
    "'o media_env \<Rightarrow> ('s, 'n) media_wiring \<Rightarrow> nat \<Rightarrow> string option \<Rightarrow> string option \<Rightarrow> string \<Rightarrow> verifier option
       \<Rightarrow> ('o, 'n) media_state \<Rightarrow> (unit + reply) \<times> ('o, 'n) media_state" where
  "build_media_transcribe_response env w max_audio_bytes authorization service body token_verifier st =
     (case media_gate authorization token_verifier (mw_enabled w) of
        Inl err \<Rightarrow> (Inr err, st)
      | Inr who \<Rightarrow>
     (case service of
        None \<Rightarrow> (Inr (media_bad (quoted ''service'' @ '' query param is required.'')), st)
      | Some service \<Rightarrow>
          if service = [] then (Inr (media_bad (quoted ''service'' @ '' query param is required.'')), st)
          else if body = [] then (Inr (media_bad ''audio body is required.''), st)
          else if max_audio_bytes < length body then (Inr (HTTP_TOO_LARGE, err_only ''audio_too_large''), st)
          else media_run w who service (''media:'' @ service @ ''/transcribe'')
                 [(''audio'', ABytes (length body))] (transcribe env (mw_uid w) service body) st))"

text \<open>The fields of a generation: the service, the text under the key \<open>k\<close>, the parameters.\<close>

definition media_fields ::
    "string \<Rightarrow> string \<Rightarrow> nat \<Rightarrow> json option \<Rightarrow> reply + string \<times> string \<times> dict" where
  "media_fields k too_long max_chars body =
     (case body of
        Some (JObj data) \<Rightarrow>
          (case dget data ''service'' of
             JStr service \<Rightarrow>
               if service = [] then Inl (media_bad (quoted ''service'' @ '' is required.''))
               else
               (case dget data k of
                  JStr input \<Rightarrow>
                    if input = [] then Inl (media_bad (quoted k @ '' is required.''))
                    else
                    (case dget_or data ''params'' (JObj []) of
                       JObj params \<Rightarrow>
                         if max_chars < length input then Inl (HTTP_TOO_LARGE, err_only too_long)
                         else Inr (service, input, params)
                     | _ \<Rightarrow> Inl (media_bad (quoted ''params'' @ '' must be an object.'')))
                | _ \<Rightarrow> Inl (media_bad (quoted k @ '' is required.'')))
           | _ \<Rightarrow> Inl (media_bad (quoted ''service'' @ '' is required.'')))
      | _ \<Rightarrow> Inl (HTTP_BAD_REQUEST, err_only ''bad_request''))"

definition build_media_generate_response ::
    "'o media_env \<Rightarrow> ('s, 'n) media_wiring \<Rightarrow> nat \<Rightarrow> string option \<Rightarrow> json option \<Rightarrow> verifier option
       \<Rightarrow> ('o, 'n) media_state \<Rightarrow> (unit + reply) \<times> ('o, 'n) media_state" where
  "build_media_generate_response env w max_prompt_chars authorization body token_verifier st =
     (case media_gate authorization token_verifier (mw_enabled w) of
        Inl err \<Rightarrow> (Inr err, st)
      | Inr who \<Rightarrow>
     (case media_fields ''prompt'' ''prompt_too_long'' max_prompt_chars body of
        Inl err \<Rightarrow> (Inr err, st)
      | Inr (service, prompt, params) \<Rightarrow>
          media_run w who service (''media:'' @ service @ ''/generate'')
            (json_args [(''prompt'', JStr prompt), (''params'', JObj params)])
            (generate env (mw_uid w) who service prompt params) st))"

definition build_media_synthesize_response ::
    "'o media_env \<Rightarrow> ('s, 'n) media_wiring \<Rightarrow> nat \<Rightarrow> string option \<Rightarrow> json option \<Rightarrow> verifier option
       \<Rightarrow> ('o, 'n) media_state \<Rightarrow> (unit + reply) \<times> ('o, 'n) media_state" where
  "build_media_synthesize_response env w max_text_chars authorization body token_verifier st =
     (case media_gate authorization token_verifier (mw_enabled w) of
        Inl err \<Rightarrow> (Inr err, st)
      | Inr who \<Rightarrow>
     (case media_fields ''text'' ''text_too_long'' max_text_chars body of
        Inl err \<Rightarrow> (Inr err, st)
      | Inr (service, txt, params) \<Rightarrow>
          media_run w who service (''media:'' @ service @ ''/synthesize'')
            (json_args [(''text'', JStr txt), (''params'', JObj params)])
            (synthesize env (mw_uid w) who service txt params) st))"

section \<open>Artifacts\<close>

text \<open>\<^verbatim>\<open>^[A-Za-z0-9][A-Za-z0-9._-]{0,127}$\<close>: \<^verbatim>\<open>$\<close> also matches before a final newline.\<close>

definition artifact_name :: "string \<Rightarrow> bool" where
  "artifact_name s =
     (case s of
        [] \<Rightarrow> False
      | c # cs \<Rightarrow> is_alnum c \<and> length cs \<le> 127 \<and> list_all (\<lambda>d. is_alnum d \<or> d \<in> set ''._-'') cs)"

definition safe_artifact_id :: "string \<Rightarrow> bool" where
  "safe_artifact_id s \<longleftrightarrow> artifact_name s \<or> (s \<noteq> [] \<and> last s = CHR 0x0A \<and> artifact_name (butlast s))"

definition build_media_artifact_response ::
    "'o media_env \<Rightarrow> string option \<Rightarrow> string \<Rightarrow> verifier option \<Rightarrow> 'o \<Rightarrow> reply" where
  "build_media_artifact_response env authorization artifact_id token_verifier s =
     (case verify_and_extract authorization token_verifier of
        Inl err \<Rightarrow> err
      | Inr claims \<Rightarrow>
          if \<not> safe_artifact_id artifact_id then (HTTP_BAD_REQUEST, err_only ''bad_request'')
          else (case artifact_url env artifact_id (owner_of claims) 300 s of
                  None \<Rightarrow> (HTTP_NOT_FOUND, err_only ''not_found'')
                | Some url \<Rightarrow> (HTTP_OK, JObj [(''url'', JStr url), (''expires_in'', JInt 300)])))"

text \<open>Status, content type and the bytes written.\<close>

definition build_media_artifact_content ::
    "'o media_env \<Rightarrow> string option \<Rightarrow> string \<Rightarrow> verifier option \<Rightarrow> 'o \<Rightarrow> nat \<times> string \<times> string" where
  "build_media_artifact_content env authorization artifact_id token_verifier s =
     (case verify_and_extract authorization token_verifier of
        Inl (status, payload) \<Rightarrow> (status, ''application/json'', json_dumps (me_float env) payload)
      | Inr claims \<Rightarrow>
          if \<not> safe_artifact_id artifact_id
          then (HTTP_BAD_REQUEST, ''application/json'',
                ''{'' @ dquote @ ''error'' @ dquote @ '':'' @ dquote @ ''bad_request'' @ dquote @ ''}'')
          else (case artifact_bytes env artifact_id (owner_of claims) s of
                  None \<Rightarrow> (HTTP_NOT_FOUND, ''application/json'',
                           ''{'' @ dquote @ ''error'' @ dquote @ '':'' @ dquote @ ''not_found'' @ dquote @ ''}'')
                | Some (body, ctype) \<Rightarrow>
                    (HTTP_OK, if ctype = [] then ''application/octet-stream'' else ctype, body)))"

section \<open>Lemmas\<close>

datatype media_request =
    Transcribe "string option" string
  | Generate "json option"
  | Synthesize "json option"

text \<open>The media endpoints that take a POST, with the caps of their handlers.\<close>

fun media_handle ::
    "'o media_env \<Rightarrow> ('s, 'n) media_wiring \<Rightarrow> nat \<Rightarrow> nat \<Rightarrow> string option \<Rightarrow> verifier option \<Rightarrow> media_request
       \<Rightarrow> ('o, 'n) media_state \<Rightarrow> (unit + reply) \<times> ('o, 'n) media_state" where
  "media_handle env w audio_cap text_cap a v (Transcribe service body) st =
     build_media_transcribe_response env w audio_cap a service body v st"
| "media_handle env w audio_cap text_cap a v (Generate body) st =
     build_media_generate_response env w text_cap a body v st"
| "media_handle env w audio_cap text_cap a v (Synthesize body) st =
     build_media_synthesize_response env w text_cap a body v st"

fun media_kind :: "media_request \<Rightarrow> string" where
  "media_kind (Transcribe _ _) = ''stt''"
| "media_kind (Generate _) = ''image''"
| "media_kind (Synthesize _) = ''tts''"

text \<open>What an operation of the executor for \<open>who\<close> may do to the state.\<close>

definition stored_by :: "'o media_env \<Rightarrow> owner \<Rightarrow> string \<Rightarrow> 'o \<Rightarrow> 'o \<Rightarrow> bool" where
  "stored_by env who artifact_id s s' \<longleftrightarrow>
     s' = s \<or>
     (\<exists>boto client body ctype. me_storage env = Some (boto, client) \<and> length body \<le> MEDIA_MAX_RESULT_BYTES \<and>
        s3_put_object boto client (artifact_key who artifact_id) body ctype s = Inr s')"

definition media_effect ::
    "'o media_env \<Rightarrow> string \<Rightarrow> owner \<Rightarrow> string \<Rightarrow> string \<Rightarrow> ('o, 'n) media_state \<Rightarrow> ('o, 'n) media_state \<Rightarrow> bool" where
  "media_effect env artifact_id who service kind st st' \<longleftrightarrow>
     md_limiter st' = md_limiter st \<and> md_audit st' = md_audit st \<and> md_notifs st' = md_notifs st \<and>
     ((md_posts st' = md_posts st \<and> md_objects st' = md_objects st) \<or>
      (\<exists>spec p path. map_of (me_services env) service = Some spec \<and> ms_kind spec = kind \<and>
         mp_url p = ms_base_url spec @ path \<and> md_posts st' = md_posts st @ [p] \<and>
         stored_by env who artifact_id (md_objects st) (md_objects st')))"

lemma media_spec_Inr:
  "media_spec env service kind = Inr spec \<Longrightarrow> map_of (me_services env) service = Some spec \<and> ms_kind spec = kind"
  by (auto simp: media_spec_def split: option.splits if_splits)

lemma media_send_snd: "snd (media_send env p st) = st\<lparr>md_posts := md_posts st @ [p]\<rparr>"
  by (simp add: media_send_def)

lemma media_send_body:
  "fst (media_send env p st) = Inr (Inr (status, body, ctype)) \<Longrightarrow> length body \<le> MEDIA_MAX_RESULT_BYTES"
  by (auto simp: media_send_def split: media_wire.splits)

lemma transcribe_effect:
  "media_effect env artifact_id who service ''stt'' st (snd (transcribe env uid service audio st))"
proof (cases "media_spec env service ''stt''")
  case (Inl o1)
  then show ?thesis by (simp add: transcribe_def media_effect_def)
next
  case (Inr spec)
  obtain data ctype where m: "multipart_audio uid audio ''audio'' (ms_model spec) = (data, ctype)" by fastforce
  let ?p = "\<lparr>mp_url = ms_base_url spec @ ''/v1/audio/transcriptions'', mp_data = data, mp_content_type = ctype\<rparr>"
  obtain r s where send: "media_send env ?p st = (r, s)" by fastforce
  then have s: "s = st\<lparr>md_posts := md_posts st @ [?p]\<rparr>"
    using media_send_snd [of env ?p st] by simp
  have "snd (transcribe env uid service audio st) = s"
    using Inr m send by (auto simp: transcribe_def split: sum.split)
  moreover have "media_effect env artifact_id who service ''stt'' st s"
    unfolding media_effect_def s stored_by_def using media_spec_Inr [OF Inr]
    by (intro conjI disjI2 exI [of _ spec] exI [of _ ?p]) simp_all
  ultimately show ?thesis by simp
qed

lemma store_artifact_effect:
  assumes "length body \<le> MEDIA_MAX_RESULT_BYTES" and "store_artifact env aid who ctype status body st = (r, st')"
  shows "md_limiter st' = md_limiter st \<and> md_audit st' = md_audit st \<and> md_notifs st' = md_notifs st \<and>
    md_posts st' = md_posts st \<and> stored_by env who aid (md_objects st) (md_objects st')"
proof (cases "me_storage env")
  case None
  then show ?thesis using assms by (auto simp: store_artifact_def stored_by_def Let_def)
next
  case (Some bc)
  obtain boto client where bc: "bc = (boto, client)" by (cases bc)
  show ?thesis
  proof (cases "s3_put_object boto client (artifact_key who aid) body ctype (md_objects st)")
    case (Inl e)
    then show ?thesis using assms Some bc by (auto simp: store_artifact_def stored_by_def Let_def)
  next
    case (Inr s)
    then have "st' = st\<lparr>md_objects := s\<rparr>"
      using assms(2) Some bc by (simp add: store_artifact_def Let_def)
    then show ?thesis
      using assms(1) Some bc Inr unfolding stored_by_def by auto
  qed
qed

lemma generate_with_effect:
  assumes "map_of (me_services env) service = Some spec" and "ms_kind spec = kind"
    and "url = ms_base_url spec @ path"
  shows "media_effect env aid who service kind st (snd (generate_with env aid who url dflt payload st))"
proof -
  let ?p = "\<lparr>mp_url = url, mp_data = json_dumps (me_float env) (JObj payload), mp_content_type = ''application/json''\<rparr>"
  obtain r s where send: "media_send env ?p st = (r, s)" by fastforce
  then have s: "s = st\<lparr>md_posts := md_posts st @ [?p]\<rparr>"
    using media_send_snd [of env ?p st] by simp
  have eff: "media_effect env aid who service kind st st'"
    if "md_limiter st' = md_limiter s" "md_audit st' = md_audit s" "md_notifs st' = md_notifs s" "md_posts st' = md_posts s"
      "stored_by env who aid (md_objects s) (md_objects st')" for st'
    unfolding media_effect_def using that assms
    by (intro conjI disjI2 exI [of _ spec] exI [of _ ?p]) (simp_all add: s)
  show ?thesis
  proof (cases "\<exists>status body ctype. r = Inr (Inr (status, body, ctype))")
    case False
    then have "snd (generate_with env aid who url dflt payload st) = s"
      using send by (auto simp: generate_with_def split: sum.split)
    then show ?thesis
      using eff [of s] by (simp add: stored_by_def)
  next
    case True
    then obtain status body ctype where r: "r = Inr (Inr (status, body, ctype))" by blast
    let ?c = "if ctype = [] then dflt else ctype"
    obtain o2 st2 where st2: "store_artifact env aid who ?c status body s = (o2, st2)" by fastforce
    have "length body \<le> MEDIA_MAX_RESULT_BYTES"
      using media_send_body [of env ?p st status body ctype] send r by simp
    from store_artifact_effect [OF this st2] have "media_effect env aid who service kind st st2"
      by (intro eff) simp_all
    moreover have "snd (generate_with env aid who url dflt payload st) = st2"
      using send r st2 by (simp add: generate_with_def)
    ultimately show ?thesis by simp
  qed
qed

lemma generate_effect:
  "media_effect env aid who service ''image'' st (snd (generate env aid who service prompt params st))"
proof (cases "media_spec env service ''image''")
  case (Inr spec)
  then show ?thesis
    using generate_with_effect [OF conjunct1 conjunct2 refl, OF media_spec_Inr media_spec_Inr, OF Inr Inr]
    by (simp add: generate_def)
qed (simp add: generate_def media_effect_def)

lemma synthesize_effect:
  "media_effect env aid who service ''tts'' st (snd (synthesize env aid who service txt params st))"
proof (cases "media_spec env service ''tts''")
  case (Inr spec)
  then show ?thesis
    using generate_with_effect [OF conjunct1 conjunct2 refl, OF media_spec_Inr media_spec_Inr, OF Inr Inr]
    by (simp add: synthesize_def)
qed (simp add: synthesize_def media_effect_def)

text \<open>The guarded part of the handlers.\<close>

definition media_permitted ::
    "('s, 'n) media_wiring \<Rightarrow> owner \<Rightarrow> string \<Rightarrow> rate_limiter \<Rightarrow> bool" where
  "media_permitted w who service rl \<longleftrightarrow>
     is_allowed (mw_allowlist w) (fst who) service \<and>
     tn_is_enabled (mw_tenant_state w) (fst who) service (mw_switch w) \<and>
     fst (try_acquire (fst who) (mw_secs w) rl)"

definition media_untouched :: "('o, 'n) media_state \<Rightarrow> ('o, 'n) media_state \<Rightarrow> bool" where
  "media_untouched st st' \<longleftrightarrow>
     md_posts st' = md_posts st \<and> md_objects st' = md_objects st \<and> md_notifs st' = md_notifs st \<and>
     rl_value (md_limiter st') = rl_value (md_limiter st)"

lemma media_run_cases:
  assumes "media_run w who service label args run st = (r, st')"
  obtains (refused) p where "r = Inr p" "fst p \<in> {HTTP_FORBIDDEN, HTTP_TOO_MANY}" "media_untouched st st'"
  | (ran) rl q st2 where "try_acquire (fst who) (mw_secs w) (md_limiter st) = (True, rl)"
      "media_permitted w who service (md_limiter st)"
      "run (st\<lparr>md_limiter := rl\<rparr>) = (q, st2)" "md_posts st' = md_posts st2" "md_objects st' = md_objects st2"
      "md_limiter st' = rl_release (md_limiter st2)"
      "(case q of Inl ex \<Rightarrow> r = Inl ex | Inr outcome \<Rightarrow> r = Inr (media_to_http outcome))"
proof -
  obtain ok rl where t: "try_acquire (fst who) (mw_secs w) (md_limiter st) = (ok, rl)" by fastforce
  obtain q st2 where q: "run (st\<lparr>md_limiter := rl\<rparr>) = (q, st2)" by fastforce
  note D = assms [unfolded media_run_def media_authorize_def media_audit_def]
  show thesis
  proof (cases "is_allowed (mw_allowlist w) (fst who) service \<and>
      tn_is_enabled (mw_tenant_state w) (fst who) service (mw_switch w) \<and> ok")
    case True
    then show thesis
      using D t q by (cases q; intro ran [of rl q st2]) (auto simp: media_permitted_def media_notify_def Let_def)
  next
    case False
    then have "\<exists>p. r = Inr p \<and> fst p \<in> {HTTP_FORBIDDEN, HTTP_TOO_MANY} \<and> media_untouched st st'"
      using D t try_acquire_value(1) [of "fst who" "mw_secs w" "md_limiter st"]
      by (auto simp: media_untouched_def split: if_splits)
    then show thesis
      using refused by blast
  qed
qed

lemma media_gate_Inr:
  "media_gate a v enabled = Inr who \<longleftrightarrow> (\<exists>claims. verify_and_extract a v = Inr claims \<and> enabled \<and> who = owner_of claims)"
  by (auto simp: media_gate_def split: sum.splits)

lemma media_gate_Inl: "media_gate a v enabled = Inl e \<Longrightarrow> fst e \<noteq> HTTP_OK"
  by (auto simp: media_gate_def dest!: auth_error_status split: sum.splits if_splits)

text \<open>What a request must be, by itself: it names the service, and its audio or its text is there and
  within the cap of its endpoint.\<close>

definition asks_text :: "string \<Rightarrow> nat \<Rightarrow> json option \<Rightarrow> string \<Rightarrow> bool" where
  "asks_text k cap body service \<longleftrightarrow>
     (\<exists>data input. body = Some (JObj data) \<and> dget data ''service'' = JStr service \<and>
        dget data k = JStr input \<and> input \<noteq> [] \<and> length input \<le> cap)"

fun asks :: "nat \<Rightarrow> nat \<Rightarrow> media_request \<Rightarrow> string \<Rightarrow> bool" where
  "asks audio_cap text_cap (Transcribe named body) service \<longleftrightarrow>
     named = Some service \<and> body \<noteq> [] \<and> length body \<le> audio_cap"
| "asks audio_cap text_cap (Generate body) service \<longleftrightarrow> asks_text ''prompt'' text_cap body service"
| "asks audio_cap text_cap (Synthesize body) service \<longleftrightarrow> asks_text ''text'' text_cap body service"

lemma media_fields_Inl: "media_fields k t m b = Inl e \<Longrightarrow> fst e \<noteq> HTTP_OK"
  by (auto simp: media_fields_def media_bad_def split: option.splits json.splits if_splits)

lemma media_fields_Inr:
  "media_fields k t m b = Inr (service, input, params) \<Longrightarrow> service \<noteq> [] \<and> asks_text k m b service"
  by (auto simp: media_fields_def asks_text_def split: option.splits json.splits if_splits)

text \<open>A request is answered without any effect, or runs its executor's operation under the guard.\<close>

lemma media_handle_cases:
  assumes "media_handle env w ac tc a v req st = (r, st')"
  obtains (refused) p where "r = Inr p" "fst p \<noteq> HTTP_OK" "media_untouched st st'"
  | (guarded) claims service label args run where "verify_and_extract a v = Inr claims" "mw_enabled w" "asks ac tc req service"
      "media_run w (owner_of claims) service label args run st = (r, st')"
      "\<And>s. media_effect env (mw_uid w) (owner_of claims) service (media_kind req) s (snd (run s))"
proof -
  have same: "media_untouched st st"
    by (simp add: media_untouched_def)
  show thesis
  proof (cases "media_gate a v (mw_enabled w)")
    case (Inl e)
    then have "(r, st') = (Inr e, st)"
      using assms by (cases req) (simp_all add: build_media_transcribe_response_def
          build_media_generate_response_def build_media_synthesize_response_def)
    then show thesis
      using refused [of e] media_gate_Inl [OF Inl] same by simp
  next
    case gate: (Inr who)
    then obtain claims where c: "verify_and_extract a v = Inr claims" "mw_enabled w" "who = owner_of claims"
      unfolding media_gate_Inr by blast
    show thesis
    proof (cases req)
      case (Transcribe svc body)
      show thesis
      proof (cases "\<exists>s. svc = Some s \<and> s \<noteq> [] \<and> body \<noteq> [] \<and> length body \<le> ac")
        case True
        then obtain s where s: "svc = Some s" "s \<noteq> []" "body \<noteq> []" "length body \<le> ac" by blast
        then have "media_run w (owner_of claims) s (''media:'' @ s @ ''/transcribe'') [(''audio'', ABytes (length body))]
            (transcribe env (mw_uid w) s body) st = (r, st')"
          using assms Transcribe gate c by (simp add: build_media_transcribe_response_def)
        moreover have asks: "asks ac tc req s"
          using s Transcribe by simp
        moreover have "media_effect env (mw_uid w) (owner_of claims) s (media_kind req) x (snd ((transcribe env (mw_uid w) s body) x))" for x
          using transcribe_effect Transcribe by simp
        ultimately show thesis
          using guarded c(1,2) asks by blast
      next
        case False
        then have "\<exists>p. r = Inr p \<and> fst p \<noteq> HTTP_OK \<and> st' = st"
          using assms Transcribe gate
          by (auto simp: build_media_transcribe_response_def media_bad_def split: option.splits if_splits)
        then show thesis
          using refused same by blast
      qed
    next
      case (Generate body)
      show thesis
      proof (cases "media_fields ''prompt'' ''prompt_too_long'' tc body")
        case (Inl e)
        then show thesis
          using assms Generate gate refused [of e] media_fields_Inl [OF Inl] same
          by (simp add: build_media_generate_response_def)
      next
        case (Inr f)
        obtain s i ps where f: "f = (s, i, ps)" by (cases f)
        then have s: "asks ac tc req s"
          using Inr media_fields_Inr Generate by fastforce
        have "media_run w (owner_of claims) s (''media:'' @ s @ ''/generate'')
            (json_args [(''prompt'', JStr i), (''params'', JObj ps)]) (generate env (mw_uid w) (owner_of claims) s i ps) st = (r, st')"
          using assms Generate gate c Inr f by (simp add: build_media_generate_response_def)
        moreover have "media_effect env (mw_uid w) (owner_of claims) s (media_kind req) x (snd ((generate env (mw_uid w) (owner_of claims) s i ps) x))" for x
          using generate_effect Generate by simp
        ultimately show thesis
          using guarded c(1,2) s by blast
      qed
    next
      case (Synthesize body)
      show thesis
      proof (cases "media_fields ''text'' ''text_too_long'' tc body")
        case (Inl e)
        then show thesis
          using assms Synthesize gate refused [of e] media_fields_Inl [OF Inl] same
          by (simp add: build_media_synthesize_response_def)
      next
        case (Inr f)
        obtain s i ps where f: "f = (s, i, ps)" by (cases f)
        then have s: "asks ac tc req s"
          using Inr media_fields_Inr Synthesize by fastforce
        have "media_run w (owner_of claims) s (''media:'' @ s @ ''/synthesize'')
            (json_args [(''text'', JStr i), (''params'', JObj ps)]) (synthesize env (mw_uid w) (owner_of claims) s i ps) st = (r, st')"
          using assms Synthesize gate c Inr f by (simp add: build_media_synthesize_response_def)
        moreover have "media_effect env (mw_uid w) (owner_of claims) s (media_kind req) x (snd ((synthesize env (mw_uid w) (owner_of claims) s i ps) x))" for x
          using synthesize_effect Synthesize by simp
        ultimately show thesis
          using guarded c(1,2) s by blast
      qed
    qed
  qed
qed

text \<open>What a media request may leave behind.\<close>

lemma media_handle_effect:
  assumes "rl_ok (md_limiter st)" and "media_handle env w ac tc a v req st = (r, st')"
  shows "rl_value (md_limiter st') = rl_value (md_limiter st) \<and>
    ((md_posts st' = md_posts st \<and> md_objects st' = md_objects st) \<or>
     (\<exists>claims service spec p path. verify_and_extract a v = Inr claims \<and> mw_enabled w \<and>
        asks ac tc req service \<and> media_permitted w (owner_of claims) service (md_limiter st) \<and>
        map_of (me_services env) service = Some spec \<and> ms_kind spec = media_kind req \<and>
        mp_url p = ms_base_url spec @ path \<and> md_posts st' = md_posts st @ [p] \<and>
        stored_by env (owner_of claims) (mw_uid w) (md_objects st) (md_objects st')))"
  using assms(2)
proof (cases rule: media_handle_cases)
  case (refused p)
  then show ?thesis by (simp add: media_untouched_def)
next
  case (guarded claims service label args run)
  from guarded(4) show ?thesis
  proof (cases rule: media_run_cases)
    case (refused p)
    then show ?thesis by (simp add: media_untouched_def)
  next
    case (ran rl q st2)
    let ?s = "st\<lparr>md_limiter := rl\<rparr>"
    have eff: "media_effect env (mw_uid w) (owner_of claims) service (media_kind req) ?s st2"
      using guarded(5) [of ?s] ran(3) by simp
    then have "md_limiter st2 = rl"
      by (simp add: media_effect_def)
    then have "rl_value (md_limiter st') = rl_value (md_limiter st)"
      using acquire_release_value [OF assms(1), of "fst (owner_of claims)" "mw_secs w"] ran(1,6) by simp
    moreover have "(md_posts st2 = md_posts st \<and> md_objects st2 = md_objects st) \<or>
        (\<exists>spec p path. map_of (me_services env) service = Some spec \<and> ms_kind spec = media_kind req \<and>
           mp_url p = ms_base_url spec @ path \<and> md_posts st2 = md_posts st @ [p] \<and>
           stored_by env (owner_of claims) (mw_uid w) (md_objects st) (md_objects st2))"
      using eff by (simp add: media_effect_def)
    ultimately show ?thesis
      using guarded(1-3) ran(2,4,5) by metis
  qed
qed

text \<open>Keys: the tenant is the first segment and the name the last, so owners and names can be read off.\<close>

lemma append_sep_eq:
  assumes "c \<notin> set x" "c \<notin> set y" "x @ c # xs = y @ c # ys"
  shows "x = y \<and> xs = ys"
  using assms
proof (induction x arbitrary: y)
  case Nil
  then show ?case by (cases y) auto
next
  case (Cons d x)
  then show ?case by (cases y) auto
qed

lemma append_last_sep_eq:
  assumes "c \<notin> set xs" "c \<notin> set ys" "x @ c # xs = y @ c # ys"
  shows "x = y \<and> xs = ys"
proof -
  have "rev xs @ c # rev x = rev ys @ c # rev y"
    using arg_cong [OF assms(3), of rev] by simp
  then have "rev xs = rev ys \<and> rev x = rev y"
    using assms(1,2) by (intro append_sep_eq) simp_all
  then show ?thesis by simp
qed

lemma artifact_name_slash: "artifact_name s \<Longrightarrow> CHR ''/'' \<notin> set s"
proof -
  have "\<not> is_alnum (CHR ''/'')"
    by code_simp
  then show "artifact_name s \<Longrightarrow> CHR ''/'' \<notin> set s"
    by (auto simp: artifact_name_def list_all_iff split: list.splits)
qed

lemma safe_artifact_slash: "safe_artifact_id s \<Longrightarrow> CHR ''/'' \<notin> set s"
proof -
  assume "safe_artifact_id s"
  then consider "artifact_name s" | "s \<noteq> []" "last s = CHR 0x0A" "artifact_name (butlast s)"
    unfolding safe_artifact_id_def by blast
  then show ?thesis
  proof cases
    case 2
    then have "s = butlast s @ [CHR 0x0A]"
      by (metis append_butlast_last_id)
    then have "set s = set (butlast s) \<union> {CHR 0x0A}"
      by (metis list.set(1,2) set_append)
    then show ?thesis
      using artifact_name_slash [OF 2(3)] by simp
  qed (rule artifact_name_slash)
qed

text \<open>The prefix of a user's keys.  Two users share one only if one of their tenants has a slash in its name.\<close>

definition owner_prefix :: "owner \<Rightarrow> string" where
  "owner_prefix who = fst who @ ''/'' @ snd who"

lemma owner_prefix_inj:
  assumes "CHR ''/'' \<notin> set (fst who)" and "CHR ''/'' \<notin> set (fst who')" and "owner_prefix who = owner_prefix who'"
  shows "who = who'"
  using append_sep_eq [OF assms(1,2), of "snd who" "snd who'"] assms(3) by (simp add: owner_prefix_def prod_eq_iff)

lemma owner_prefix_shared: "artifact_key (''a'', ''b/c'') i = artifact_key (''a/b'', ''c'') i"
  by (simp add: artifact_key_def)

lemma artifact_key_inj:
  assumes "artifact_key who i = artifact_key who' i'" and "CHR ''/'' \<notin> set i" "CHR ''/'' \<notin> set i'"
  shows "owner_prefix who = owner_prefix who' \<and> i = i'"
proof -
  have "owner_prefix who @ CHR ''/'' # (i @ ''.bin'') = owner_prefix who' @ CHR ''/'' # (i' @ ''.bin'')"
    using assms(1) by (simp add: artifact_key_def owner_prefix_def)
  then have "owner_prefix who = owner_prefix who' \<and> i @ ''.bin'' = i' @ ''.bin''"
    using assms(2,3) by (intro append_last_sep_eq) simp_all
  then show ?thesis
    by simp
qed

lemma apfst_Inr_eq: "apfst Inr x = (Inr y, s) \<longleftrightarrow> x = (y, s)"
  by (cases x) auto

text \<open>A generation that succeeds stored what the backend sent, up to the cap.\<close>

definition generated ::
    "'o media_env \<Rightarrow> string \<Rightarrow> owner \<Rightarrow> 'o boto3_s3 \<Rightarrow> s3_client \<Rightarrow> media_post list \<Rightarrow> 'o \<Rightarrow> media_outcome \<Rightarrow> string
       \<Rightarrow> string \<Rightarrow> 'o \<Rightarrow> bool" where
  "generated env aid who boto client posts s outcome body ctype s' \<longleftrightarrow>
     (\<exists>p status full ct. me_post env posts p = MediaResponse status full ct \<and> body = take MEDIA_MAX_RESULT_BYTES full \<and>
        outcome = \<lparr>mo_result_class = ''success'', mo_status = Some status,
                   mo_result = Some (Artifact aid (length body) True (artifact_key who aid))\<rparr> \<and>
        s3_put_object boto client (artifact_key who aid) body ctype s = Inr s')"

lemma generate_with_success:
  assumes "me_storage env = Some (boto, client)"
    and "generate_with env aid who url dflt payload st = (Inr outcome, st')" and "mo_result_class outcome = ''success''"
  shows "\<exists>body ctype. generated env aid who boto client (md_posts st) (md_objects st) outcome body ctype (md_objects st')"
proof -
  let ?p = "\<lparr>mp_url = url, mp_data = json_dumps (me_float env) (JObj payload), mp_content_type = ''application/json''\<rparr>"
  show ?thesis
  proof (cases "me_post env (md_posts st) ?p")
    case (MediaResponse status full ct)
    let ?body = "take MEDIA_MAX_RESULT_BYTES full"
    let ?ct = "if ct = [] then dflt else ct"
    have st: "store_artifact env aid who ?ct status ?body (st\<lparr>md_posts := md_posts st @ [?p]\<rparr>) = (outcome, st')"
      using assms(2) MediaResponse
      by (simp add: generate_with_def media_send_def apfst_Inr_eq del: json_dumps.simps)
    then obtain s where s: "s3_put_object boto client (artifact_key who aid) ?body ?ct (md_objects st) = Inr s"
      using assms(1,3)
      by (cases "s3_put_object boto client (artifact_key who aid) ?body ?ct (md_objects st)")
        (auto simp: store_artifact_def media_fail_def Let_def)
    then have "outcome = \<lparr>mo_result_class = ''success'', mo_status = Some status,
        mo_result = Some (Artifact aid (length ?body) True (artifact_key who aid))\<rparr>" "md_objects st' = s"
      using st assms(1) by (auto simp: store_artifact_def Let_def)
    then show ?thesis
      unfolding generated_def using MediaResponse s by blast
  qed (use assms(2,3) in \<open>auto simp: generate_with_def media_send_def media_fail_def\<close>)
qed

lemma media_spec_Inl: "media_spec env service kind = Inl o1 \<Longrightarrow> mo_result_class o1 \<noteq> ''success''"
  by (auto simp: media_spec_def media_fail_def split: option.splits if_splits)

lemma media_to_http_ok: "fst (media_to_http o1) = HTTP_OK \<longleftrightarrow> mo_result_class o1 = ''success''"
  by (simp add: media_to_http_def Let_def)

lemma generate_success:
  assumes "me_storage env = Some (boto, client)"
    and "generate env aid who service prompt params st = (Inr outcome, st')" and "mo_result_class outcome = ''success''"
  shows "\<exists>body ctype. generated env aid who boto client (md_posts st) (md_objects st) outcome body ctype (md_objects st')"
proof (cases "media_spec env service ''image''")
  case (Inr spec)
  then show ?thesis
    using assms(2) by (intro generate_with_success [OF assms(1) _ assms(3)]) (simp add: generate_def)
qed (use assms media_spec_Inl in \<open>fastforce simp: generate_def\<close>)

lemma synthesize_success:
  assumes "me_storage env = Some (boto, client)"
    and "synthesize env aid who service txt params st = (Inr outcome, st')" and "mo_result_class outcome = ''success''"
  shows "\<exists>body ctype. generated env aid who boto client (md_posts st) (md_objects st) outcome body ctype (md_objects st')"
proof (cases "media_spec env service ''tts''")
  case (Inr spec)
  then show ?thesis
    using assms(2) by (intro generate_with_success [OF assms(1) _ assms(3)]) (simp add: synthesize_def)
qed (use assms media_spec_Inl in \<open>fastforce simp: synthesize_def\<close>)

lemma media_run_success:
  assumes "media_run w who service label args run st = (Inr reply, st')" and "fst reply = HTTP_OK"
    and "me_storage env = Some (boto, client)"
    and "\<And>s outcome s'. run s = (Inr outcome, s') \<Longrightarrow> mo_result_class outcome = ''success'' \<Longrightarrow>
      \<exists>body ctype. generated env aid who boto client (md_posts s) (md_objects s) outcome body ctype (md_objects s')"
  shows "\<exists>outcome body ctype. generated env aid who boto client (md_posts st) (md_objects st) outcome body ctype (md_objects st') \<and>
     reply = media_to_http outcome"
  using assms(1)
proof (cases rule: media_run_cases)
  case (refused p)
  then show ?thesis using assms(2) by simp
next
  case (ran rl q st2)
  obtain outcome where q: "q = Inr outcome" "reply = media_to_http outcome"
    using ran(7) by (cases q) auto
  then have "mo_result_class outcome = ''success''"
    using assms(2) media_to_http_ok by simp
  from assms(4) [OF ran(3) [unfolded q(1)] this]
  have "\<exists>body ctype. generated env aid who boto client (md_posts st) (md_objects st) outcome body ctype (md_objects st')"
    using ran(5) by simp
  with q(2) show ?thesis by blast
qed

lemma generation_stored:
  assumes "me_storage env = Some (boto, client)" and "media_handle env w ac tc a v req st = (Inr reply, st')"
    and "fst reply = HTTP_OK" and "media_kind req \<noteq> ''stt''" and "verify_and_extract a v = Inr claims"
  shows "\<exists>outcome body ctype. generated env (mw_uid w) (owner_of claims) boto client (md_posts st) (md_objects st)
      outcome body ctype (md_objects st') \<and> reply = media_to_http outcome"
proof (cases req)
  case (Generate b)
  have g: "media_gate a v (mw_enabled w) = Inr (owner_of claims)"
    using assms(2,3,5) Generate by (auto simp: build_media_generate_response_def media_gate_def split: if_splits)
  obtain s i ps where f: "media_fields ''prompt'' ''prompt_too_long'' tc b = Inr (s, i, ps)"
    using assms(2,3) Generate g media_fields_Inl
    by (cases "media_fields ''prompt'' ''prompt_too_long'' tc b") (auto simp: build_media_generate_response_def)
  show ?thesis
    using assms(2) Generate g f
    by (intro media_run_success [OF _ assms(3,1) generate_success [OF assms(1)]])
      (simp add: build_media_generate_response_def)
next
  case (Synthesize b)
  have g: "media_gate a v (mw_enabled w) = Inr (owner_of claims)"
    using assms(2,3,5) Synthesize by (auto simp: build_media_synthesize_response_def media_gate_def split: if_splits)
  obtain s i ps where f: "media_fields ''text'' ''text_too_long'' tc b = Inr (s, i, ps)"
    using assms(2,3) Synthesize g media_fields_Inl
    by (cases "media_fields ''text'' ''text_too_long'' tc b") (auto simp: build_media_synthesize_response_def)
  show ?thesis
    using assms(2) Synthesize g f
    by (intro media_run_success [OF _ assms(3,1) synthesize_success [OF assms(1)]])
      (simp add: build_media_synthesize_response_def)
qed (use assms(4) in simp)

section \<open>An example\<close>

definition media_body :: "string \<Rightarrow> json" where
  "media_body other = JObj [(''service'', JStr ''sd''), (''prompt'', JStr ''a cat''),
     (''params'', JObj [(''prompt'', JStr other)])]"

definition example_media :: "(string \<times> string \<Rightarrow> (string \<times> string) option) media_env" where
  "example_media =
     \<lparr>me_services = [(''sd'', \<lparr>ms_name = ''sd'', ms_kind = ''image'', ms_base_url = ''http://sd'', ms_model = ''m''\<rparr>)],
      me_post = (\<lambda>_ _. MediaResponse 200 ''png'' ''image/png''), me_storage = Some (map_s3, \<lparr>s3_bucket = ''b''\<rparr>),
      me_loads = (\<lambda>_. None), me_float = (\<lambda>_. [])\<rparr>"

definition example_wiring :: "((string \<times> string) set, unit) media_wiring" where
  "example_wiring =
     \<lparr>mw_enabled = True, mw_allowlist = [(''a.io'', {''sd''})], mw_tenant_state = InMemoryTenantIntegrationState,
      mw_switch = {}, mw_notif_store = None, mw_secs = 0, mw_now = 0, mw_latency = 5, mw_uid = ''x1'', mw_nuid = []\<rparr>"

definition media_idle :: "(string \<times> string \<Rightarrow> (string \<times> string) option, unit) media_state" where
  "media_idle = \<lparr>md_limiter = rate_limiter_init 5 2, md_audit = [], md_notifs = (), md_posts = [],
     md_objects = (\<lambda>_. None)\<rparr>"

lemma media_idle_ok: "rl_ok (md_limiter media_idle)" "rl_value (md_limiter media_idle) = 2"
  by (simp_all add: media_idle_def rl_ok_def rate_limiter_init_def spent_def)

lemma media_body_fields:
  "media_fields ''prompt'' ''prompt_too_long'' DEFAULT_MAX_PROMPT_CHARS (Some (media_body other)) =
     Inr (''sd'', ''a cat'', [(''prompt'', JStr other)])"
  by (simp add: media_fields_def media_body_def DEFAULT_MAX_PROMPT_CHARS_def)

definition example_post :: "string \<Rightarrow> media_post" where
  "example_post other =
     \<lparr>mp_url = ''http://sd/v1/images/generations'',
      mp_data = json_dumps (\<lambda>_. []) (JObj [(''prompt'', JStr other)]),
      mp_content_type = ''application/json''\<rparr>"

lemma example_generation:
  assumes "media_handle example_media example_wiring 1 DEFAULT_MAX_PROMPT_CHARS (Some ''Bearer ta'') (Some two_users)
     (Generate (Some (media_body other))) media_idle = (r, st')"
  shows "\<exists>payload. r = Inr (HTTP_OK, payload)" and "md_posts st' = [example_post other]"
    and "md_objects st' = [(''b'', ''media/a.io/alice/x1.bin'') \<mapsto> (''png'', ''image/png'')]"
proof -
  have t: "try_acquire (fst (owner_of alice_claims)) 0 (rate_limiter_init 5 2) =
      (True, (rate_limiter_init 5 2)\<lparr>rl_windows := [fst (owner_of alice_claims) \<mapsto> (0, 1)], rl_value := 1\<rparr>)"
    by (simp add: try_acquire_eq rate_limiter_init_def)
  have g: "generate example_media ''x1'' (owner_of alice_claims) ''sd'' ''a cat'' [(''prompt'', JStr other)] s =
     (Inr \<lparr>mo_result_class = ''success'', mo_status = Some 200,
           mo_result = Some (Artifact ''x1'' 3 True ''media/a.io/alice/x1.bin'')\<rparr>,
      s\<lparr>md_posts := md_posts s @ [example_post other],
        md_objects := (md_objects s)((''b'', ''media/a.io/alice/x1.bin'') \<mapsto> (''png'', ''image/png''))\<rparr>)"
    if "md_posts s = []" for s :: "(string \<times> string \<Rightarrow> (string \<times> string) option, unit) media_state"
    using that
    by (simp add: generate_def media_spec_def example_media_def generate_with_def media_send_def store_artifact_def
        MEDIA_MAX_RESULT_BYTES_def s3_put_object_def map_s3_def artifact_key_def owner_of_def dict_merge_def
        example_post_def Let_def del: json_dumps.simps)
  show "\<exists>payload. r = Inr (HTTP_OK, payload)" "md_posts st' = [example_post other]"
    "md_objects st' = [(''b'', ''media/a.io/alice/x1.bin'') \<mapsto> (''png'', ''image/png'')]"
    using assms
    by (auto simp: build_media_generate_response_def media_body_fields media_gate_def media_run_def media_authorize_def
        example_wiring_def is_allowed_def owner_of_def InMemoryTenantIntegrationState_def mem_is_enabled_def
        media_idle_def t [unfolded owner_of_def, simplified] g [unfolded owner_of_def, simplified] media_notify_def
        media_audit_def media_to_http_def Let_def)
qed

section \<open>Properties\<close>

text \<open>C14: A media request reaches a backend only past every gate: verified token, switch, a service on the
  tenant's allow-list that the operator has not disabled for it, an audio body or a text that is there and
  within the cap of its endpoint (the cap is on the field of the request; parameters of the same name are
  not counted), a slot held, and a registered service of the kind the endpoint is for, the one the request
  names.  It is then one request to that service; and what is stored, if anything, is one object under the
  caller's own prefix, of the drawn name and within the size cap of results.  The slot is given back on
  every path, also when the backend's client raises.\<close>

theorem media_gated:
  assumes "rl_ok (md_limiter st)"
  shows "case media_handle env w audio_cap text_cap authorization token_verifier req st of
     (r, st') \<Rightarrow>
       rl_value (md_limiter st') = rl_value (md_limiter st) \<and>
       ((md_posts st' = md_posts st \<and> md_objects st' = md_objects st) \<or>
        (\<exists>claims service spec p path.
           verify_and_extract authorization token_verifier = Inr claims \<and> mw_enabled w \<and>
           asks audio_cap text_cap req service \<and>
           is_allowed (mw_allowlist w) (extract_tenant_id claims) service \<and>
           tn_is_enabled (mw_tenant_state w) (extract_tenant_id claims) service (mw_switch w) \<and>
           fst (try_acquire (extract_tenant_id claims) (mw_secs w) (md_limiter st)) \<and>
           map_of (me_services env) service = Some spec \<and> ms_kind spec = media_kind req \<and>
           mp_url p = ms_base_url spec @ path \<and> md_posts st' = md_posts st @ [p] \<and>
           stored_by env (owner_of claims) (mw_uid w) (md_objects st) (md_objects st')))"
proof -
  obtain r st' where h: "media_handle env w audio_cap text_cap authorization token_verifier req st = (r, st')"
    by fastforce
  show ?thesis
    unfolding h prod.case using media_handle_effect [OF assms h]
    unfolding media_permitted_def owner_of_def fst_conv by blast
qed

lemma media_gated_witness:
  "(case media_handle example_media example_wiring 1 DEFAULT_MAX_PROMPT_CHARS (Some ''Bearer ta'') (Some two_users)
       (Generate (Some (media_body ''a dog''))) media_idle of
      (r, st') \<Rightarrow> rl_value (md_limiter st') = 2 \<and> md_posts st' = [example_post ''a dog''])"
proof -
  obtain r st' where h: "media_handle example_media example_wiring 1 DEFAULT_MAX_PROMPT_CHARS (Some ''Bearer ta'')
      (Some two_users) (Generate (Some (media_body ''a dog''))) media_idle = (r, st')"
    by fastforce
  have "rl_value (md_limiter st') = 2"
    using media_gated [OF media_idle_ok(1), where env = example_media and w = example_wiring and audio_cap = 1
        and text_cap = DEFAULT_MAX_PROMPT_CHARS and authorization = "Some ''Bearer ta''"
        and token_verifier = "Some two_users" and req = "Generate (Some (media_body ''a dog''))"]
    unfolding h by (simp add: media_idle_ok)
  then show ?thesis
    unfolding h using example_generation(2) [OF h] by simp
qed

text \<open>C26: Where S3 keeps its documented behaviour and an object store is configured, a generation that is
  answered with 200 can be read back by its user: the content endpoint returns, for the artifact id of the
  reply, exactly the bytes the backend sent (up to the cap), as many as the reply says.\<close>

theorem media_artifact_roundtrip:
  assumes "s3_contract boto" and "me_storage env = Some (boto, client)"
    and "media_handle env w audio_cap text_cap authorization token_verifier req st = (Inr (HTTP_OK, payload), st')"
    and "media_kind req \<noteq> ''stt''" and "safe_artifact_id (mw_uid w)"
  shows "\<exists>p status full ctype ctype' key.
     me_post env (md_posts st) p = MediaResponse status full ctype \<and>
     payload = JObj [(''status'', JInt status), (''result'', media_result_dict
       (Artifact (mw_uid w) (length (take MEDIA_MAX_RESULT_BYTES full)) True key))] \<and>
     build_media_artifact_content env authorization (mw_uid w) token_verifier (md_objects st') =
       (HTTP_OK, ctype', take MEDIA_MAX_RESULT_BYTES full)"
proof (cases "verify_and_extract authorization token_verifier")
  case (Inl e)
  then have "media_gate authorization token_verifier (mw_enabled w) = Inl e"
    by (simp add: media_gate_def)
  then show ?thesis
    using assms(3) auth_error_status [OF Inl]
    by (cases req) (auto simp: build_media_transcribe_response_def build_media_generate_response_def
        build_media_synthesize_response_def)
next
  case (Inr claims)
  obtain outcome body ctype p status full ct where g: "me_post env (md_posts st) p = MediaResponse status full ct"
      "body = take MEDIA_MAX_RESULT_BYTES full" "(HTTP_OK, payload) = media_to_http outcome"
      "outcome = \<lparr>mo_result_class = ''success'', mo_status = Some status,
                   mo_result = Some (Artifact (mw_uid w) (length body) True (artifact_key (owner_of claims) (mw_uid w)))\<rparr>"
      "s3_put_object boto client (artifact_key (owner_of claims) (mw_uid w)) body ctype (md_objects st) = Inr (md_objects st')"
    using generation_stored [OF assms(2,3) _ assms(4) Inr] unfolding generated_def by auto
  have "build_media_artifact_content env authorization (mw_uid w) token_verifier (md_objects st') =
      (HTTP_OK, if ctype = [] then ''application/octet-stream'' else ctype, body)"
    using s3_put_get(1) [OF assms(1) g(5)] assms(2,5) Inr
    by (simp add: build_media_artifact_content_def artifact_bytes_def)
  moreover have "payload = JObj [(''status'', JInt status), (''result'', media_result_dict
       (Artifact (mw_uid w) (length body) True (artifact_key (owner_of claims) (mw_uid w))))]"
    using g(3,4) by (simp add: media_to_http_def jopt_def)
  ultimately show ?thesis
    using g(1,2) by blast
qed

lemma media_artifact_roundtrip_witness:
  "\<exists>r st' ctype. media_handle example_media example_wiring 1 DEFAULT_MAX_PROMPT_CHARS (Some ''Bearer ta'')
       (Some two_users) (Generate (Some (media_body ''a dog''))) media_idle = (r, st') \<and>
     build_media_artifact_content example_media (Some ''Bearer ta'') ''x1'' (Some two_users) (md_objects st') =
       (HTTP_OK, ctype, ''png'')"
proof -
  obtain r st' where h: "media_handle example_media example_wiring 1 DEFAULT_MAX_PROMPT_CHARS (Some ''Bearer ta'')
      (Some two_users) (Generate (Some (media_body ''a dog''))) media_idle = (r, st')"
    by fastforce
  obtain payload where r: "r = Inr (HTTP_OK, payload)"
    using example_generation(1) [OF h] by blast
  have env: "me_storage example_media = Some (map_s3, \<lparr>s3_bucket = ''b''\<rparr>)" "mw_uid example_wiring = ''x1''"
    by (simp_all add: example_media_def example_wiring_def)
  have safe: "safe_artifact_id (mw_uid example_wiring)"
    unfolding env by code_simp
  from media_artifact_roundtrip [OF map_s3_contract env(1) h [unfolded r] _ safe]
  show ?thesis
    using h r by (fastforce simp: env example_media_def MEDIA_MAX_RESULT_BYTES_def)
qed

text \<open>C27: Where S3 keeps its documented behaviour, artifacts are isolated by the prefix of their keys, which is
  tenant, slash, user: whatever media request a caller makes, the content endpoint answers any user with
  another prefix, for any artifact id, exactly as before.  Two different users have different prefixes unless
  the name of one of their tenants holds a slash (\<open>owner_prefix_inj\<close>); with such names they may share one, and
  then the isolation does not hold.\<close>

theorem media_artifacts_isolated:
  assumes "s3_contract boto" and "me_storage env = Some (boto, client)"
    and "verify_and_extract authorization token_verifier = Inr claims"
    and "verify_and_extract authorization' token_verifier = Inr claims'"
    and "owner_prefix (owner_of claims') \<noteq> owner_prefix (owner_of claims)"
    and "safe_artifact_id (mw_uid w)" and "rl_ok (md_limiter st)"
  shows "build_media_artifact_content env authorization' artifact_id token_verifier
           (md_objects (snd (media_handle env w audio_cap text_cap authorization token_verifier req st))) =
         build_media_artifact_content env authorization' artifact_id token_verifier (md_objects st)"
proof -
  obtain r st' where h: "media_handle env w audio_cap text_cap authorization token_verifier req st = (r, st')"
    by fastforce
  have "stored_by env (owner_of claims) (mw_uid w) (md_objects st) (md_objects st')"
    using media_handle_effect [OF assms(7) h] assms(3) by (auto simp: stored_by_def)
  then consider "md_objects st' = md_objects st"
    | body ctype where "s3_put_object boto client (artifact_key (owner_of claims) (mw_uid w)) body ctype (md_objects st)
        = Inr (md_objects st')"
    unfolding stored_by_def using assms(2) by auto
  then show ?thesis
  proof cases
    case 2
    have "artifact_bytes env artifact_id (owner_of claims') (md_objects st') =
        artifact_bytes env artifact_id (owner_of claims') (md_objects st)" if "safe_artifact_id artifact_id"
    proof -
      have "artifact_key (owner_of claims') artifact_id \<noteq> artifact_key (owner_of claims) (mw_uid w)"
        using artifact_key_inj [of "owner_of claims'" artifact_id "owner_of claims" "mw_uid w"] assms(5)
          safe_artifact_slash [OF that] safe_artifact_slash [OF assms(6)]
        by blast
      from s3_put_get(2) [OF assms(1) 2 this] show ?thesis
        using assms(2) by (simp add: artifact_bytes_def)
    qed
    then show ?thesis
      by (simp add: h build_media_artifact_content_def assms(4))
  qed (simp add: h)
qed

lemma media_artifacts_isolated_witness:
  "build_media_artifact_content example_media (Some ''Bearer tb'') ''x1'' (Some two_users)
     (md_objects (snd (media_handle example_media example_wiring 1 DEFAULT_MAX_PROMPT_CHARS (Some ''Bearer ta'')
       (Some two_users) (Generate (Some (media_body ''a dog''))) media_idle))) =
   build_media_artifact_content example_media (Some ''Bearer tb'') ''x1'' (Some two_users) (md_objects media_idle)"
proof -
  have safe: "safe_artifact_id (mw_uid example_wiring)"
    unfolding example_wiring_def by code_simp
  show ?thesis
    by (rule media_artifacts_isolated [where boto = map_s3 and client = "\<lparr>s3_bucket = ''b''\<rparr>" and claims = alice_claims
          and claims' = bob_claims])
      (use safe media_idle_ok in \<open>simp_all add: map_s3_contract example_media_def owner_of_def owner_prefix_def\<close>)
qed

text \<open>The cap on the prompt binds the field \<^verbatim>\<open>prompt\<close> only: a \<^verbatim>\<open>prompt\<close> among the parameters, of any
  length, takes its place in what the backend is sent.\<close>

theorem prompt_cap_bypassed:
  "md_posts (snd (media_handle example_media example_wiring 1 DEFAULT_MAX_PROMPT_CHARS (Some ''Bearer ta'')
     (Some two_users) (Generate (Some (media_body other))) media_idle)) = [example_post other]"
  by (rule example_generation(2) [OF prod.collapse [symmetric]])

end
