(* ===== verification/Config.thy ===== *)
theory Config
  imports ModelRequests Research Chat Compare
begin

text \<open>
  Configuration (app/control_plane/config.py): reading the environment, the model list, readiness and the
  choice of the token verifier.  The environment is a map; a value that \<^verbatim>\<open>int\<close> or \<^verbatim>\<open>float\<close> refuses
  raises \<^verbatim>\<open>ValueError\<close>.  \<open>loads\<close> is \<^verbatim>\<open>json.loads\<close> on a text.
\<close>

section \<open>Numbers in text\<close>

text \<open>
  \<^verbatim>\<open>float(s)\<close>, with the exact value of the decimal: rounding to a double is not modelled.
  \<open>span_digits\<close> reads digits that single underscores may separate.
\<close>

fun span_digits :: "string \<Rightarrow> string \<times> string" where
  "span_digits [] = ([], [])"
| "span_digits [c] = (if digit_of c = None then ([], [c]) else ([c], []))"
| "span_digits (c # u # cs) =
     (if digit_of c = None then ([], c # u # cs)
      else apfst ((#) c)
             (if u = CHR ''_'' \<and> cs \<noteq> [] \<and> digit_of (hd cs) \<noteq> None then span_digits cs
              else span_digits (u # cs)))"

definition dec_nat :: "string \<Rightarrow> nat" where
  "dec_nat ds = foldl (\<lambda>n c. 10 * n + (case digit_of c of None \<Rightarrow> 0 | Some d \<Rightarrow> d)) 0 ds"

definition read_sign :: "string \<Rightarrow> bool \<times> string" where
  "read_sign s =
     (case s of
        [] \<Rightarrow> (False, [])
      | c # cs \<Rightarrow> if c = CHR ''-'' then (True, cs) else if c = CHR ''+'' then (False, cs) else (False, s))"

text \<open>The exponent that must fill the rest of the text.\<close>

definition read_exponent :: "string \<Rightarrow> int option" where
  "read_exponent s =
     (case s of
        [] \<Rightarrow> Some 0
      | c # cs \<Rightarrow>
          if c = CHR ''e'' \<or> c = CHR ''E''
          then (case read_sign cs of
                  (neg, ds) \<Rightarrow>
                    (case span_digits ds of
                       (digits, rest) \<Rightarrow>
                         if digits = [] \<or> rest \<noteq> [] then None
                         else Some (if neg then - int (dec_nat digits) else int (dec_nat digits))))
          else None)"

definition pow10 :: "int \<Rightarrow> rat" where
  "pow10 k = (if 0 \<le> k then 10 ^ nat k else 1 / 10 ^ nat (- k))"

definition read_decimal :: "string \<Rightarrow> rat option" where
  "read_decimal s =
     (let (whole, rest) = span_digits s;
          (frac, rest') = (case rest of
                             [] \<Rightarrow> ([], [])
                           | c # cs \<Rightarrow> if c = CHR ''.'' then span_digits cs else ([], rest))
      in if whole = [] \<and> frac = [] then None
         else map_option (\<lambda>k. of_nat (dec_nat (whole @ frac)) * pow10 (k - int (length frac)))
                (read_exponent rest'))"

definition py_float :: "string \<Rightarrow> pyfloat option" where
  "py_float s =
     (let (neg, t) = read_sign (py_strip s); word = py_lower t in
      if word = ''inf'' \<or> word = ''infinity'' then Some (if neg then NegInf else PosInf)
      else if word = ''nan'' then Some NaN
      else map_option (\<lambda>q. Fin (if neg then - q else q)) (read_decimal t))"

section \<open>The configuration\<close>

record control_plane_config =
  cf_service_name :: string
  cf_environment :: string
  cf_database_url :: "string option"
  cf_object_storage_bucket :: "string option"
  cf_secrets_provider :: string
  cf_inference_base_url :: "string option"
  cf_models :: "string option"
  cf_embedding_base_url :: "string option"
  cf_embedding_model :: string
  cf_retrieval_max_upload_bytes :: int
  cf_agent_tools_enabled :: bool
  cf_agent_tools_allowlist :: "string option"
  cf_agent_tools_rate_per_minute :: int
  cf_agent_tools_max_concurrency :: int
  cf_agent_tools_dispatcher_url :: "string option"
  cf_agent_tools_dispatcher_token :: "string option"
  cf_deep_research_max_subqueries :: int
  cf_deep_research_top_k :: int
  cf_deep_research_wall_clock_seconds :: pyfloat
  cf_mcp_enabled :: bool
  cf_mcp_allowlist :: "string option"
  cf_integrations_enabled :: bool
  cf_integrations_allowlist :: "string option"
  cf_integrations_rate_per_minute :: int
  cf_integrations_max_concurrency :: int
  cf_integrations_outbound_timeout_s :: pyfloat
  cf_integrations_fixture_url :: "string option"
  cf_integrations_secret_env :: "string option"
  cf_integrations_secret_ttl_s :: int
  cf_integrations_fixture_token :: "string option"
  cf_media_enabled :: bool
  cf_media_allowlist :: "string option"
  cf_media_services :: "string option"
  cf_media_rate_per_minute :: int
  cf_media_max_concurrency :: int
  cf_media_max_audio_bytes :: int
  cf_media_max_prompt_chars :: int
  cf_model_install_enabled :: bool
  cf_model_install_allowlist :: "string option"
  cf_model_install_max_open_per_tenant :: int
  cf_model_install_group :: "string option"
  cf_model_install_allow_all_users :: bool
  cf_model_installer_token :: "string option"
  cf_web_search :: "string option"
  cf_compare_enabled :: bool
  cf_documents_enabled :: bool
  cf_chat_stream_max_seconds :: pyfloat
  cf_agent_loop_max_steps :: int
  cf_agent_loop_wall_clock_seconds :: pyfloat
  cf_agent_loop_max_tokens :: int
  cf_agent_loop_model :: string
  cf_auth :: auth_settings
  cf_dev_auth_token :: "string option"
  cf_log_level :: string
  cf_log_format :: string
  cf_otel_endpoint :: "string option"

type_synonym environ = "string \<Rightarrow> string option"

definition clean :: "string option \<Rightarrow> string option" where
  "clean value =
     (case value of None \<Rightarrow> None | Some s \<Rightarrow> if py_strip s = [] then None else Some (py_strip s))"

definition env_get :: "environ \<Rightarrow> string \<Rightarrow> string \<Rightarrow> string" where
  "env_get env k dflt = (case env k of None \<Rightarrow> dflt | Some v \<Rightarrow> v)"

text \<open>\<^verbatim>\<open>int(values.get(k, d) or d)\<close>, \<^verbatim>\<open>float(values.get(k, d) or d)\<close>, \<^verbatim>\<open>values.get(k, d).lower() == "true"\<close>.\<close>

definition env_or :: "environ \<Rightarrow> string \<Rightarrow> string \<Rightarrow> string" where
  "env_or env k dflt = (let v = env_get env k dflt in if v = [] then dflt else v)"

definition env_int :: "environ \<Rightarrow> string \<Rightarrow> string \<Rightarrow> py_exn + int" where
  "env_int env k dflt = (case py_int (env_or env k dflt) of None \<Rightarrow> Inl ValueError | Some i \<Rightarrow> Inr i)"

definition env_float :: "environ \<Rightarrow> string \<Rightarrow> string \<Rightarrow> py_exn + pyfloat" where
  "env_float env k dflt = (case py_float (env_or env k dflt) of None \<Rightarrow> Inl ValueError | Some x \<Rightarrow> Inr x)"

definition env_true :: "environ \<Rightarrow> string \<Rightarrow> string \<Rightarrow> bool" where
  "env_true env k dflt = (py_lower (env_get env k dflt) = ''true'')"

definition upper_char :: "char \<Rightarrow> char" where
  "upper_char c =
     (let n = ord_of c in
      if (97 \<le> n \<and> n \<le> 122) \<or> (224 \<le> n \<and> n \<le> 254 \<and> n \<noteq> 247) then char_of (n - 32) else c)"

definition from_env :: "environ \<Rightarrow> py_exn + control_plane_config" where
  "from_env env =
     ebind (env_int env ''RETRIEVAL_MAX_UPLOAD_BYTES'' ''10485760'') (\<lambda>upload_bytes.
     ebind (env_int env ''AGENT_TOOLS_RATE_PER_MINUTE'' ''30'') (\<lambda>tools_rate.
     ebind (env_int env ''AGENT_TOOLS_MAX_CONCURRENCY'' ''4'') (\<lambda>tools_concurrency.
     ebind (env_int env ''AGENT_LOOP_MAX_STEPS'' ''6'') (\<lambda>max_steps.
     ebind (env_float env ''AGENT_LOOP_WALL_CLOCK_SECONDS'' ''60'') (\<lambda>loop_seconds.
     ebind (env_int env ''AGENT_LOOP_MAX_TOKENS'' ''512'') (\<lambda>max_tokens.
     ebind (env_int env ''DEEP_RESEARCH_MAX_SUBQUERIES'' ''4'') (\<lambda>max_subqueries.
     ebind (env_int env ''DEEP_RESEARCH_TOP_K'' ''5'') (\<lambda>top_k.
     ebind (env_float env ''DEEP_RESEARCH_WALL_CLOCK_SECONDS'' ''90'') (\<lambda>research_seconds.
     ebind (env_int env ''INTEGRATIONS_RATE_PER_MINUTE'' ''30'') (\<lambda>ix_rate.
     ebind (env_int env ''INTEGRATIONS_MAX_CONCURRENCY'' ''4'') (\<lambda>ix_concurrency.
     ebind (env_float env ''INTEGRATIONS_OUTBOUND_TIMEOUT_S'' ''10'') (\<lambda>ix_timeout.
     ebind (env_int env ''INTEGRATIONS_SECRET_TTL_S'' ''300'') (\<lambda>ix_ttl.
     ebind (env_float env ''CHAT_STREAM_MAX_SECONDS'' ''300'') (\<lambda>stream_seconds.
     ebind (env_int env ''MEDIA_RATE_PER_MINUTE'' ''10'') (\<lambda>media_rate.
     ebind (env_int env ''MEDIA_MAX_CONCURRENCY'' ''2'') (\<lambda>media_concurrency.
     ebind (env_int env ''MEDIA_MAX_AUDIO_BYTES'' ''26214400'') (\<lambda>audio_bytes.
     ebind (env_int env ''MEDIA_MAX_PROMPT_CHARS'' ''2000'') (\<lambda>prompt_chars.
     ebind (env_int env ''MODEL_INSTALL_MAX_OPEN_PER_TENANT'' ''25'') (\<lambda>max_open.
     Inr
       \<lparr>cf_service_name = env_get env ''CONTROL_PLANE_SERVICE_NAME'' ''private-ai-workspace-control-plane'',
        cf_environment = env_get env ''ENVIRONMENT'' ''development'',
        cf_database_url = clean (env ''DATABASE_URL''),
        cf_object_storage_bucket = clean (env ''OBJECT_STORAGE_BUCKET''),
        cf_secrets_provider = env_get env ''SECRETS_PROVIDER'' ''aws-secrets-manager'',
        cf_inference_base_url = clean (env ''INFERENCE_BASE_URL''),
        cf_models = clean (env ''MODELS''),
        cf_embedding_base_url = clean (env ''EMBEDDING_BASE_URL''),
        cf_embedding_model = env_get env ''EMBEDDING_MODEL'' ''embedding'',
        cf_retrieval_max_upload_bytes = upload_bytes,
        cf_agent_tools_enabled = env_true env ''AGENT_TOOLS_ENABLED'' ''false'',
        cf_agent_tools_allowlist = clean (env ''AGENT_TOOLS_ALLOWLIST''),
        cf_agent_tools_rate_per_minute = tools_rate,
        cf_agent_tools_max_concurrency = tools_concurrency,
        cf_agent_tools_dispatcher_url = clean (env ''AGENT_TOOLS_DISPATCHER_URL''),
        cf_agent_tools_dispatcher_token = clean (env ''AGENT_TOOLS_DISPATCHER_TOKEN''),
        cf_deep_research_max_subqueries = max_subqueries,
        cf_deep_research_top_k = top_k,
        cf_deep_research_wall_clock_seconds = research_seconds,
        cf_mcp_enabled = env_true env ''MCP_ENABLED'' ''false'',
        cf_mcp_allowlist = clean (env ''MCP_ALLOWLIST''),
        cf_integrations_enabled = env_true env ''INTEGRATIONS_ENABLED'' ''false'',
        cf_integrations_allowlist = clean (env ''INTEGRATIONS_ALLOWLIST''),
        cf_integrations_rate_per_minute = ix_rate,
        cf_integrations_max_concurrency = ix_concurrency,
        cf_integrations_outbound_timeout_s = ix_timeout,
        cf_integrations_fixture_url = clean (env ''INTEGRATIONS_FIXTURE_URL''),
        cf_integrations_secret_env = clean (env ''INTEGRATIONS_SECRET_ENV''),
        cf_integrations_secret_ttl_s = ix_ttl,
        cf_integrations_fixture_token = clean (env ''INTEGRATIONS_FIXTURE_TOKEN''),
        cf_media_enabled = env_true env ''MEDIA_ENABLED'' ''false'',
        cf_media_allowlist = clean (env ''MEDIA_ALLOWLIST''),
        cf_media_services = clean (env ''MEDIA_SERVICES''),
        cf_media_rate_per_minute = media_rate,
        cf_media_max_concurrency = media_concurrency,
        cf_media_max_audio_bytes = audio_bytes,
        cf_media_max_prompt_chars = prompt_chars,
        cf_model_install_enabled = env_true env ''MODEL_INSTALL_ENABLED'' ''false'',
        cf_model_install_allowlist = clean (env ''MODEL_INSTALL_ALLOWLIST''),
        cf_model_install_max_open_per_tenant = max_open,
        cf_model_install_group = clean (env ''MODEL_INSTALL_GROUP''),
        cf_model_install_allow_all_users = env_true env ''MODEL_INSTALL_ALLOW_ALL_USERS'' ''false'',
        cf_model_installer_token = clean (env ''MODEL_INSTALLER_TOKEN''),
        cf_web_search = clean (env ''WEB_SEARCH''),
        cf_compare_enabled = env_true env ''COMPARE_ENABLED'' ''true'',
        cf_documents_enabled = env_true env ''DOCUMENTS_ENABLED'' ''true'',
        cf_chat_stream_max_seconds = stream_seconds,
        cf_agent_loop_max_steps = max_steps,
        cf_agent_loop_wall_clock_seconds = loop_seconds,
        cf_agent_loop_max_tokens = max_tokens,
        cf_agent_loop_model = env_or env ''AGENT_LOOP_MODEL'' ''default'',
        cf_auth = \<lparr>as_issuer_url = clean (env ''AUTH_ISSUER_URL''), as_audience = clean (env ''AUTH_AUDIENCE''),
                   as_admin_group = clean (env ''AUTH_ADMIN_GROUP'')\<rparr>,
        cf_dev_auth_token = clean (env ''DEV_AUTH_TOKEN''),
        cf_log_level = map upper_char (env_get env ''LOG_LEVEL'' ''INFO''),
        cf_log_format = py_lower (env_get env ''LOG_FORMAT'' ''json''),
        cf_otel_endpoint = clean (env ''OTEL_EXPORTER_OTLP_ENDPOINT'')\<rparr>)))))))))))))))))))"

section \<open>What is derived from it\<close>

text \<open>\<^verbatim>\<open>[m for m in names if not (m in seen or seen.add(m))]\<close>.\<close>

fun dedupe :: "string set \<Rightarrow> string list \<Rightarrow> string list" where
  "dedupe seen [] = []"
| "dedupe seen (m # ms) = (if m \<in> seen then dedupe seen ms else m # dedupe (insert m seen) ms)"

definition nonblank :: "string list \<Rightarrow> string list" where
  "nonblank ms = filter (\<lambda>m. m \<noteq> []) (map py_strip ms)"

definition model_list ::
    "(rat \<Rightarrow> string) \<Rightarrow> (string \<Rightarrow> json option) \<Rightarrow> control_plane_config \<Rightarrow> string list" where
  "model_list fr loads config =
     (let names = (case cf_models config of
                     None \<Rightarrow> []
                   | Some raw \<Rightarrow>
                       if raw = [] then []
                       else (case loads raw of
                               Some (JArr parsed) \<Rightarrow> nonblank (map (py_str fr) parsed)
                             | Some _ \<Rightarrow> []
                             | None \<Rightarrow> nonblank (split_char (CHR '','') raw)));
          fallback = py_strip (cf_agent_loop_model config);
          names = (if names = []
                   then [if fallback \<noteq> [] \<and> fallback \<noteq> ''default'' then fallback else ''default'']
                   else names)
      in dedupe {} names)"

definition readiness_checks :: "control_plane_config \<Rightarrow> (string \<times> bool) list" where
  "readiness_checks config =
     [(''database_configured'', opt_truthy (cf_database_url config)),
      (''object_storage_configured'', opt_truthy (cf_object_storage_bucket config)),
      (''secrets_provider_configured'', cf_secrets_provider config \<noteq> []),
      (''inference_configured'', opt_truthy (cf_inference_base_url config)),
      (''auth_configured'', auth_is_configured (cf_auth config))]"

definition is_ready :: "control_plane_config \<Rightarrow> bool" where
  "is_ready config =
     (let checks = map_of (readiness_checks config)
      in checks ''database_configured'' = Some True \<and> checks ''object_storage_configured'' = Some True
       \<and> checks ''secrets_provider_configured'' = Some True \<and> checks ''auth_configured'' = Some True)"

text \<open>Which verifier is made: the development one, the OIDC one of an issuer and an audience, or none.\<close>

datatype verifier_choice = DevVerifier dev_verifier | OidcVerifier string string

definition make_token_verifier :: "control_plane_config \<Rightarrow> string + verifier_choice option" where
  "make_token_verifier config =
     (if cf_environment config = ''development'' \<and> opt_truthy (cf_dev_auth_token config)
      then map_sum id (\<lambda>v. Some (DevVerifier v))
             (dev_verifier_init (the (cf_dev_auth_token config)) ''dev-user'' ''dev@localhost''
                (if opt_truthy (as_admin_group (cf_auth config)) then the (as_admin_group (cf_auth config)) else ''admin'')
                (cf_environment config))
      else if auth_is_configured (cf_auth config)
      then Inr (Some (OidcVerifier (the (as_issuer_url (cf_auth config))) (the (as_audience (cf_auth config)))))
      else Inr None)"

end
