(* ===== verification/Startup.thy ===== *)
theory Startup
  imports Config Media Mcp
begin

text \<open>
  The start of the server (server.py, the \<^verbatim>\<open>_build_*\<close> functions and \<^verbatim>\<open>run_server\<close>): which store each
  component gets, and what the handlers are wired with.  The database is a parameter: for each attempt to
  open it (and, for the session store, to migrate it), the name of the exception's class, or none.
\<close>

section \<open>Stores\<close>

datatype backend = PostgresBackend | MemoryBackend

text \<open>What opening the pool for a component gave; \<open>db what url\<close> is \<^term>\<open>None\<close> on success.\<close>

type_synonym db_open = "string \<Rightarrow> string \<Rightarrow> string option"

definition is_dev :: "control_plane_config \<Rightarrow> bool" where
  "is_dev config = (cf_environment config = ''development'')"

definition in_environment :: "control_plane_config \<Rightarrow> string" where
  "in_environment config = ''environment='' @ repr_str (cf_environment config) @ ''.''"

definition build_session_store :: "control_plane_config \<Rightarrow> db_open \<Rightarrow> string + backend" where
  "build_session_store config db =
     (if \<not> opt_truthy (cf_database_url config)
      then (if \<not> is_dev config
            then Inl (''DATABASE_URL is required outside of development. ''
                      @ ''Refusing to start with an in-memory session store in '' @ in_environment config)
            else Inr MemoryBackend)
      else (case db ''session'' (the (cf_database_url config)) of
              None \<Rightarrow> Inr PostgresBackend
            | Some exc_type \<Rightarrow>
                if \<not> is_dev config
                then Inl (''Failed to initialize database session store ('' @ exc_type @ ''); ''
                          @ ''refusing to fall back to in-memory store in '' @ in_environment config)
                else Inr MemoryBackend))"

text \<open>The other stores share this; they differ in the name that their message gives.\<close>

definition pg_or_memory :: "string \<Rightarrow> control_plane_config \<Rightarrow> db_open \<Rightarrow> string + backend" where
  "pg_or_memory what config db =
     (if \<not> opt_truthy (cf_database_url config) then Inr MemoryBackend
      else (case db what (the (cf_database_url config)) of
              None \<Rightarrow> Inr PostgresBackend
            | Some exc_type \<Rightarrow>
                if \<not> is_dev config
                then Inl (''Failed to initialize PostgreSQL '' @ what @ '' ('' @ exc_type
                          @ ''); refusing to fall back in '' @ in_environment config)
                else Inr MemoryBackend))"

definition build_model_requests_store :: "control_plane_config \<Rightarrow> db_open \<Rightarrow> string + backend" where
  "build_model_requests_store = pg_or_memory ''model-request store''"

definition build_notes_store :: "control_plane_config \<Rightarrow> db_open \<Rightarrow> string + backend" where
  "build_notes_store = pg_or_memory ''notes store''"

definition build_conversation_store :: "control_plane_config \<Rightarrow> db_open \<Rightarrow> string + backend" where
  "build_conversation_store = pg_or_memory ''conversation store''"

definition build_tenant_integration_state :: "control_plane_config \<Rightarrow> db_open \<Rightarrow> string + backend" where
  "build_tenant_integration_state = pg_or_memory ''integration tenant-state''"

definition build_notification_store :: "control_plane_config \<Rightarrow> db_open \<Rightarrow> string + backend" where
  "build_notification_store = pg_or_memory ''notification store''"

definition build_retrieval_store :: "control_plane_config \<Rightarrow> db_open \<Rightarrow> string + backend" where
  "build_retrieval_store = pg_or_memory ''retrieval store''"

definition build_memory_store :: "control_plane_config \<Rightarrow> db_open \<Rightarrow> string + backend" where
  "build_memory_store = pg_or_memory ''memory store''"

section \<open>Clients\<close>

definition build_storage_client :: "control_plane_config \<Rightarrow> storage_exn + s3_client option" where
  "build_storage_client config =
     (if \<not> opt_truthy (cf_object_storage_bucket config) then Inr None
      else map_sum id Some (S3StorageClient (the (cf_object_storage_bucket config))))"

datatype embedding_choice = InferenceEmbedding string string | DeterministicEmbedding

definition build_embedding_client :: "control_plane_config \<Rightarrow> embedding_choice" where
  "build_embedding_client config =
     (if opt_truthy (cf_embedding_base_url config)
      then InferenceEmbedding (the (cf_embedding_base_url config)) (cf_embedding_model config)
      else DeterministicEmbedding)"

text \<open>The resolver of integration secrets: none, the development fixture's, or AWS Secrets Manager's.\<close>

datatype resolver_choice = NoResolver | DevFixture string | SecretsManager string int

definition build_integration_secret_resolver :: "control_plane_config \<Rightarrow> resolver_choice" where
  "build_integration_secret_resolver config =
     (if \<not> cf_integrations_enabled config then NoResolver
      else if is_dev config \<and> opt_truthy (cf_integrations_fixture_token config)
      then DevFixture (the (cf_integrations_fixture_token config))
      else SecretsManager
             (if opt_truthy (cf_integrations_secret_env config) then the (cf_integrations_secret_env config)
              else cf_environment config)
             (cf_integrations_secret_ttl_s config))"

definition dev_fixture_resolver :: "string \<Rightarrow> string \<Rightarrow> string \<Rightarrow> (string \<times> string) list option" where
  "dev_fixture_resolver token tenant_id integration =
     (if integration = ''loopback'' then Some [(''TOKEN'', token)] else None)"

section \<open>Wiring\<close>

text \<open>Budgets as configured: a float of the environment may be infinite or not a number.\<close>

record loop_settings =
  lo_max_steps :: int
  lo_wall_clock_seconds :: pyfloat
  lo_max_tokens :: int
  lo_model :: string

record research_settings =
  ls_max_subqueries :: int
  ls_top_k :: int
  ls_wall_clock_seconds :: pyfloat
  ls_max_tokens :: int
  ls_model :: string

record server_setup =
  su_config :: control_plane_config
  su_verifier :: "verifier_choice option"
  su_sessions :: backend
  su_storage :: "s3_client option"
  su_notifications :: backend
  su_retrieval :: backend
  su_memory :: backend
  su_conversations :: backend
  su_notes :: backend
  su_models :: backend
  su_embedding :: embedding_choice
  su_tools_enabled :: bool
  su_tools_allowlist :: allowlist
  su_tools_limiter :: rate_limiter
  su_loop :: loop_settings
  su_inference :: "(string \<times> pyfloat) option"
  su_dispatcher :: "string option \<times> string option"
  su_mcp_enabled :: bool
  su_mcp_allowlist :: allowlist
  su_ix_enabled :: bool
  su_ix_allowlist :: allowlist
  su_ix_registry :: "string list"
  su_ix_fixture :: "string option"
  su_ix_resolver :: resolver_choice
  su_ix_limiter :: rate_limiter
  su_tenant_state :: backend
  su_media_enabled :: bool
  su_media_allowlist :: allowlist
  su_media_services :: "(string \<times> media_service) list"
  su_media_limiter :: rate_limiter
  su_media_max_audio_bytes :: int
  su_media_max_prompt_chars :: int
  su_research :: research_settings
  su_web_search :: "web_search_config option"

datatype start_exn = StartRuntimeError string | StartValueError string

definition env_json :: "(string \<Rightarrow> json option) \<Rightarrow> string option \<Rightarrow> json option" where
  "env_json loads raw = (if opt_truthy raw then loads (the raw) else None)"

definition start_store :: "string + backend \<Rightarrow> start_exn + backend" where
  "start_store r = map_sum StartRuntimeError id r"

text \<open>\<^verbatim>\<open>run_server\<close> up to the listening socket, with no store or client passed in.\<close>

definition run_server_setup ::
    "(rat \<Rightarrow> string) \<Rightarrow> (string \<Rightarrow> json option) \<Rightarrow> db_open \<Rightarrow> control_plane_config \<Rightarrow> start_exn + server_setup" where
  "run_server_setup fr loads db config =
     ebind (map_sum StartValueError id (make_token_verifier config)) (\<lambda>verifier.
     ebind (start_store (build_session_store config db)) (\<lambda>sessions.
     ebind (map_sum (\<lambda>_. StartValueError ''bucket name is required'') id (build_storage_client config)) (\<lambda>storage.
     ebind (start_store (build_notification_store config db)) (\<lambda>notifications.
     ebind (start_store (build_retrieval_store config db)) (\<lambda>retrieval.
     ebind (start_store (build_memory_store config db)) (\<lambda>memory.
     ebind (start_store (build_conversation_store config db)) (\<lambda>conversations.
     ebind (start_store (build_notes_store config db)) (\<lambda>notes.
     ebind (start_store (build_model_requests_store config db)) (\<lambda>models.
     ebind (start_store (build_tenant_integration_state config db)) (\<lambda>tenant_state.
     Inr
       \<lparr>su_config = config, su_verifier = verifier, su_sessions = sessions, su_storage = storage,
        su_notifications = notifications, su_retrieval = retrieval, su_memory = memory,
        su_conversations = conversations, su_notes = notes, su_models = models,
        su_embedding = build_embedding_client config,
        su_tools_enabled = cf_agent_tools_enabled config,
        su_tools_allowlist = parse_allowlist fr (env_json loads (cf_agent_tools_allowlist config)),
        su_tools_limiter = rate_limiter_init (cf_agent_tools_rate_per_minute config)
          (cf_agent_tools_max_concurrency config),
        su_loop = \<lparr>lo_max_steps = cf_agent_loop_max_steps config,
                   lo_wall_clock_seconds = cf_agent_loop_wall_clock_seconds config,
                   lo_max_tokens = cf_agent_loop_max_tokens config, lo_model = cf_agent_loop_model config\<rparr>,
        su_inference = (if opt_truthy (cf_inference_base_url config)
                        then Some (the (cf_inference_base_url config), cf_agent_loop_wall_clock_seconds config)
                        else None),
        su_dispatcher = (cf_agent_tools_dispatcher_url config, cf_agent_tools_dispatcher_token config),
        su_mcp_enabled = cf_mcp_enabled config,
        su_mcp_allowlist = parse_mcp_allowlist fr (env_json loads (cf_mcp_allowlist config)),
        su_ix_enabled = cf_integrations_enabled config,
        su_ix_allowlist = parse_integration_allowlist fr (env_json loads (cf_integrations_allowlist config)),
        su_ix_registry = ''google_calendar''
          # (if opt_truthy (cf_integrations_fixture_url config) then [''loopback'', ''blocked_probe''] else []),
        su_ix_fixture = cf_integrations_fixture_url config,
        su_ix_resolver = build_integration_secret_resolver config,
        su_ix_limiter = rate_limiter_init (cf_integrations_rate_per_minute config)
          (cf_integrations_max_concurrency config),
        su_tenant_state = tenant_state,
        su_media_enabled = cf_media_enabled config,
        su_media_allowlist = parse_media_allowlist fr (env_json loads (cf_media_allowlist config)),
        su_media_services = parse_media_services (env_json loads (cf_media_services config)),
        su_media_limiter = rate_limiter_init (cf_media_rate_per_minute config) (cf_media_max_concurrency config),
        su_media_max_audio_bytes = cf_media_max_audio_bytes config,
        su_media_max_prompt_chars = cf_media_max_prompt_chars config,
        su_research = \<lparr>ls_max_subqueries = cf_deep_research_max_subqueries config,
                       ls_top_k = cf_deep_research_top_k config,
                       ls_wall_clock_seconds = cf_deep_research_wall_clock_seconds config,
                       ls_max_tokens = cf_agent_loop_max_tokens config, ls_model = cf_agent_loop_model config\<rparr>,
        su_web_search = parse_web_search_config fr (env_json loads (cf_web_search config))\<rparr>))))))))))"

section \<open>Lemmas\<close>

lemma map_sum_Inr: "map_sum f g x = Inr y \<longleftrightarrow> (\<exists>z. x = Inr z \<and> y = g z)"
  by (cases x) auto

lemma start_store_Inr [simp]: "start_store r = Inr b \<longleftrightarrow> r = Inr b"
  by (cases r) (simp_all add: start_store_def)

lemma pg_or_memory_Inr:
  assumes "pg_or_memory what config db = Inr b" and "\<not> is_dev config" and "opt_truthy (cf_database_url config)"
  shows "b = PostgresBackend \<and> db what (the (cf_database_url config)) = None"
  using assms by (auto simp: pg_or_memory_def split: option.splits if_splits)

lemma session_store_Inr:
  assumes "build_session_store config db = Inr b" and "\<not> is_dev config"
  shows "b = PostgresBackend \<and> opt_truthy (cf_database_url config) \<and> db ''session'' (the (cf_database_url config)) = None"
  using assms by (auto simp: build_session_store_def split: option.splits if_splits)

lemma token_verifier_choice:
  "make_token_verifier config = Inr c \<Longrightarrow> \<not> is_dev config \<Longrightarrow>
     c = (if auth_is_configured (cf_auth config)
          then Some (OidcVerifier (the (as_issuer_url (cf_auth config))) (the (as_audience (cf_auth config)))) else None)"
  by (auto simp: make_token_verifier_def is_dev_def)

lemmas store_builders = build_model_requests_store_def build_notes_store_def build_conversation_store_def
  build_tenant_integration_state_def build_notification_store_def build_retrieval_store_def build_memory_store_def

lemma set_dedupe: "set (dedupe seen ms) = set ms - seen"
  by (induction seen ms rule: dedupe.induct) auto

lemma distinct_dedupe: "distinct (dedupe seen ms) \<and> set (dedupe seen ms) \<inter> seen = {}"
  by (induction seen ms rule: dedupe.induct) (auto simp: set_dedupe)

lemma nonblank_stripped: "m \<in> set (nonblank ms) \<Longrightarrow> m \<noteq> [] \<and> (\<exists>s. m = py_strip s)"
  by (auto simp: nonblank_def)

lemma bind_storeE:
  assumes "ebind (start_store r) f = Inr y"
  obtains b where "r = Inr b" "f b = Inr y"
  using assms by (cases r) (simp_all add: start_store_def)

lemma bind_sumE:
  assumes "ebind (map_sum g id r) f = Inr y"
  obtains b where "r = Inr b" "f b = Inr y"
  using assms by (cases r) simp_all

lemma Inr_eqE:
  assumes "Inr x = (Inr y :: 'e + 'a)"
  obtains "y = x"
  using assms by simp

lemma run_setup_parts:
  assumes "run_server_setup fr loads db config = Inr setup"
  shows "make_token_verifier config = Inr (su_verifier setup)"
    and "build_session_store config db = Inr (su_sessions setup)"
    and "pg_or_memory ''notification store'' config db = Inr (su_notifications setup)"
    and "pg_or_memory ''retrieval store'' config db = Inr (su_retrieval setup)"
    and "pg_or_memory ''memory store'' config db = Inr (su_memory setup)"
    and "pg_or_memory ''conversation store'' config db = Inr (su_conversations setup)"
    and "pg_or_memory ''notes store'' config db = Inr (su_notes setup)"
    and "pg_or_memory ''model-request store'' config db = Inr (su_models setup)"
    and "pg_or_memory ''integration tenant-state'' config db = Inr (su_tenant_state setup)"
    and "su_ix_resolver setup = build_integration_secret_resolver config"
  using assms unfolding run_server_setup_def store_builders
  by (elim bind_storeE bind_sumE Inr_eqE; hypsubst; simp only: server_setup.select_convs id_apply)+

text \<open>The variables that are read as numbers; left unset they never stop the server.\<close>

definition NUMBER_VARIABLES :: "string list" where
  "NUMBER_VARIABLES =
     [''RETRIEVAL_MAX_UPLOAD_BYTES'', ''AGENT_TOOLS_RATE_PER_MINUTE'', ''AGENT_TOOLS_MAX_CONCURRENCY'',
      ''AGENT_LOOP_MAX_STEPS'', ''AGENT_LOOP_WALL_CLOCK_SECONDS'', ''AGENT_LOOP_MAX_TOKENS'',
      ''DEEP_RESEARCH_MAX_SUBQUERIES'', ''DEEP_RESEARCH_TOP_K'', ''DEEP_RESEARCH_WALL_CLOCK_SECONDS'',
      ''INTEGRATIONS_RATE_PER_MINUTE'', ''INTEGRATIONS_MAX_CONCURRENCY'', ''INTEGRATIONS_OUTBOUND_TIMEOUT_S'',
      ''INTEGRATIONS_SECRET_TTL_S'', ''CHAT_STREAM_MAX_SECONDS'', ''MEDIA_RATE_PER_MINUTE'',
      ''MEDIA_MAX_CONCURRENCY'', ''MEDIA_MAX_AUDIO_BYTES'', ''MEDIA_MAX_PROMPT_CHARS'',
      ''MODEL_INSTALL_MAX_OPEN_PER_TENANT'']"

lemma digit_eval:
  "digit_of (CHR ''0'') = Some 0" "digit_of (CHR ''1'') = Some 1" "digit_of (CHR ''2'') = Some 2"
  "digit_of (CHR ''3'') = Some 3" "digit_of (CHR ''4'') = Some 4" "digit_of (CHR ''5'') = Some 5"
  "digit_of (CHR ''6'') = Some 6" "digit_of (CHR ''7'') = Some 7" "digit_of (CHR ''8'') = Some 8"
  "digit_of (CHR ''9'') = Some 9"
  by code_simp+

lemma py_strip_eval:
  "py_strip ''10485760'' = ''10485760''" "py_strip ''30'' = ''30''" "py_strip ''4'' = ''4''" "py_strip ''6'' = ''6''"
  "py_strip ''512'' = ''512''" "py_strip ''5'' = ''5''" "py_strip ''300'' = ''300''" "py_strip ''10'' = ''10''"
  "py_strip ''2'' = ''2''" "py_strip ''26214400'' = ''26214400''" "py_strip ''2000'' = ''2000''" "py_strip ''25'' = ''25''"
  "py_strip ''60'' = ''60''" "py_strip ''90'' = ''90''"
  by code_simp+

lemma lower_eval:
  "map lower_char ''60'' = ''60''" "map lower_char ''90'' = ''90''" "map lower_char ''10'' = ''10''"
  "map lower_char ''300'' = ''300''"
  by code_simp+

lemma default_ints:
  "py_int ''10485760'' = Some 10485760" "py_int ''30'' = Some 30" "py_int ''4'' = Some 4" "py_int ''6'' = Some 6"
  "py_int ''512'' = Some 512" "py_int ''5'' = Some 5" "py_int ''300'' = Some 300" "py_int ''10'' = Some 10"
  "py_int ''2'' = Some 2" "py_int ''26214400'' = Some 26214400" "py_int ''2000'' = Some 2000" "py_int ''25'' = Some 25"
  by (simp_all add: py_int_def py_strip_eval digit_eval)

lemma default_floats:
  "py_float ''60'' = Some (Fin 60)" "py_float ''90'' = Some (Fin 90)" "py_float ''10'' = Some (Fin 10)"
  "py_float ''300'' = Some (Fin 300)"
  by (simp_all add: py_float_def py_strip_eval digit_eval read_sign_def read_decimal_def read_exponent_def dec_nat_def
      pow10_def py_lower_def lower_eval)

lemma env_unset:
  "env k = None \<Longrightarrow> env_int env k d = (case py_int d of None \<Rightarrow> Inl ValueError | Some i \<Rightarrow> Inr i)"
  "env k = None \<Longrightarrow> env_float env k d = (case py_float d of None \<Rightarrow> Inl ValueError | Some x \<Rightarrow> Inr x)"
  "env k = None \<Longrightarrow> env_true env k d = (py_lower d = ''true'')"
  by (simp_all add: env_int_def env_float_def env_true_def env_or_def env_get_def)

lemma from_env_unset:
  assumes "\<forall>k \<in> set NUMBER_VARIABLES. env k = None"
  shows "\<exists>c. from_env env = Inr c \<and> cf_environment c = env_get env ''ENVIRONMENT'' ''development'' \<and>
    cf_database_url c = clean (env ''DATABASE_URL'') \<and> cf_dev_auth_token c = clean (env ''DEV_AUTH_TOKEN'') \<and>
    cf_object_storage_bucket c = clean (env ''OBJECT_STORAGE_BUCKET'') \<and>
    cf_auth c = \<lparr>as_issuer_url = clean (env ''AUTH_ISSUER_URL''), as_audience = clean (env ''AUTH_AUDIENCE''),
                 as_admin_group = clean (env ''AUTH_ADMIN_GROUP'')\<rparr> \<and>
    cf_agent_tools_enabled c = env_true env ''AGENT_TOOLS_ENABLED'' ''false'' \<and>
    cf_mcp_enabled c = env_true env ''MCP_ENABLED'' ''false'' \<and>
    cf_integrations_enabled c = env_true env ''INTEGRATIONS_ENABLED'' ''false'' \<and>
    cf_media_enabled c = env_true env ''MEDIA_ENABLED'' ''false'' \<and>
    cf_model_install_enabled c = env_true env ''MODEL_INSTALL_ENABLED'' ''false'' \<and>
    cf_model_install_allow_all_users c = env_true env ''MODEL_INSTALL_ALLOW_ALL_USERS'' ''false'' \<and>
    cf_agent_tools_allowlist c = clean (env ''AGENT_TOOLS_ALLOWLIST'') \<and> cf_mcp_allowlist c = clean (env ''MCP_ALLOWLIST'') \<and>
    cf_integrations_allowlist c = clean (env ''INTEGRATIONS_ALLOWLIST'') \<and> cf_media_allowlist c = clean (env ''MEDIA_ALLOWLIST'') \<and>
    cf_media_services c = clean (env ''MEDIA_SERVICES'') \<and> cf_web_search c = clean (env ''WEB_SEARCH'') \<and>
    cf_model_installer_token c = clean (env ''MODEL_INSTALLER_TOKEN'')"
  using assms
  by (simp add: NUMBER_VARIABLES_def from_env_def env_unset default_ints default_floats)

section \<open>Properties\<close>

text \<open>C15: Outside development the server starts only with PostgreSQL behind every store that is scoped to a
  user or a tenant, never with one in memory; with no development token accepted (tokens are verified
  against the configured issuer and audience, or every request is refused as not configured) and no
  development credential for the integrations.\<close>

theorem startup_fails_closed:
  assumes "run_server_setup fr loads db config = Inr setup" and "cf_environment config \<noteq> ''development''"
  shows "su_sessions setup = PostgresBackend \<and> su_notifications setup = PostgresBackend \<and>
    su_retrieval setup = PostgresBackend \<and> su_memory setup = PostgresBackend \<and>
    su_conversations setup = PostgresBackend \<and> su_notes setup = PostgresBackend \<and>
    su_models setup = PostgresBackend \<and> su_tenant_state setup = PostgresBackend \<and>
    opt_truthy (cf_database_url config) \<and>
    su_verifier setup = (if auth_is_configured (cf_auth config)
      then Some (OidcVerifier (the (as_issuer_url (cf_auth config))) (the (as_audience (cf_auth config)))) else None) \<and>
    (\<forall>token. su_ix_resolver setup \<noteq> DevFixture token)"
proof -
  have dev: "\<not> is_dev config"
    using assms(2) by (simp add: is_dev_def)
  note s = run_setup_parts [OF assms(1)]
  note url = session_store_Inr [OF s(2) dev]
  then have pg: "b = PostgresBackend" if "pg_or_memory what config db = Inr b" for what b
    using pg_or_memory_Inr [OF that dev] by blast
  have "\<forall>token. build_integration_secret_resolver config \<noteq> DevFixture token"
    using dev by (simp add: build_integration_secret_resolver_def)
  then show ?thesis
    using url token_verifier_choice [OF s(1) dev] pg [OF s(3)] pg [OF s(4)] pg [OF s(5)] pg [OF s(6)] pg [OF s(7)]
      pg [OF s(8)] pg [OF s(9)] s(10)
    by simp
qed

text \<open>The list of selectable models is never empty, names no model twice and no model by a blank text,
  whatever is configured.\<close>

theorem model_list_selectable:
  "model_list fr loads config \<noteq> [] \<and> distinct (model_list fr loads config) \<and> [] \<notin> set (model_list fr loads config)"
proof -
  have "[] \<notin> set (nonblank ms)" for ms
    by (simp add: nonblank_def)
  moreover have "dedupe {} ms \<noteq> []" if "ms \<noteq> []" for ms
    using that by (cases ms) simp_all
  moreover have "[] \<notin> set (dedupe {} ms)" if "[] \<notin> set ms" for ms :: "string list"
    using that by (simp add: set_dedupe)
  ultimately show ?thesis
    using distinct_dedupe unfolding model_list_def Let_def
    by (auto split: option.split json.split)
qed

lemma startup_fails_closed_witness:
  "\<exists>env config setup. from_env env = Inr config \<and> cf_environment config = ''production'' \<and>
     run_server_setup (\<lambda>_. []) (\<lambda>_. None) (\<lambda>_ _. None) config = Inr setup \<and> su_notes setup = PostgresBackend"
proof -
  obtain env :: environ where env: "env = [''ENVIRONMENT'' \<mapsto> ''production'', ''DATABASE_URL'' \<mapsto> ''pg'']"
    by blast
  have n: "\<forall>k \<in> set NUMBER_VARIABLES. env k = None"
    by (simp add: NUMBER_VARIABLES_def env)
  have e: "env ''ENVIRONMENT'' = Some ''production''" "env ''DATABASE_URL'' = Some ''pg''" "env ''AUTH_ISSUER_URL'' = None"
    "env ''AUTH_AUDIENCE'' = None" "env ''AUTH_ADMIN_GROUP'' = None" "env ''OBJECT_STORAGE_BUCKET'' = None"
    by (simp_all add: env)
  have pg: "clean (Some ''pg'') = Some ''pg''" "clean None = None"
    by code_simp+
  from from_env_unset [OF n] obtain c where c: "from_env env = Inr c" "cf_environment c = ''production''" "cf_database_url c = Some ''pg''"
      "cf_auth c = \<lparr>as_issuer_url = None, as_audience = None, as_admin_group = None\<rparr>" "cf_object_storage_bucket c = None"
    by (elim exE conjE) (rule that; simp add: env_get_def pg e)
  have "make_token_verifier c = Inr None" "build_session_store c (\<lambda>_ _. None) = Inr PostgresBackend"
    "build_storage_client c = Inr None"
    using c by (simp_all add: make_token_verifier_def auth_is_configured_def opt_truthy_def build_session_store_def
        build_storage_client_def)
  moreover have "pg_or_memory what c (\<lambda>_ _. None) = Inr PostgresBackend" for what
    using c by (simp add: pg_or_memory_def opt_truthy_def)
  ultimately obtain su where s: "run_server_setup (\<lambda>_. []) (\<lambda>_. None) (\<lambda>_ _. None) c = Inr su"
    by (simp add: run_server_setup_def store_builders start_store_def)
  then have "su_notes su = PostgresBackend"
    using startup_fails_closed [OF s] c(2) by simp
  then show ?thesis
    using c(1,2) s by blast
qed

text \<open>An environment that sets nothing denies everything: no tool, MCP, integration, media or installation
  switch is on, every allow-list, service registry and internal token is absent, no verifier is made, so that no
  token is accepted, and the server is not ready.\<close>

theorem unset_environment_denies:
  "\<exists>c. from_env (\<lambda>_. None) = Inr c \<and>
     \<not> cf_agent_tools_enabled c \<and> \<not> cf_mcp_enabled c \<and> \<not> cf_integrations_enabled c \<and> \<not> cf_media_enabled c \<and>
     \<not> cf_model_install_enabled c \<and> \<not> cf_model_install_allow_all_users c \<and>
     cf_agent_tools_allowlist c = None \<and> cf_mcp_allowlist c = None \<and> cf_integrations_allowlist c = None \<and>
     cf_media_allowlist c = None \<and> cf_media_services c = None \<and> cf_web_search c = None \<and>
     cf_model_installer_token c = None \<and> make_token_verifier c = Inr None \<and> \<not> is_ready c"
proof -
  have f: "py_lower ''false'' \<noteq> ''true''"
    by code_simp
  obtain c where c: "from_env (\<lambda>_. None) = Inr c" "cf_dev_auth_token c = None" "cf_database_url c = None"
      "cf_auth c = \<lparr>as_issuer_url = None, as_audience = None, as_admin_group = None\<rparr>"
      "\<not> cf_agent_tools_enabled c" "\<not> cf_mcp_enabled c" "\<not> cf_integrations_enabled c" "\<not> cf_media_enabled c"
      "\<not> cf_model_install_enabled c" "\<not> cf_model_install_allow_all_users c"
      "cf_agent_tools_allowlist c = None" "cf_mcp_allowlist c = None" "cf_integrations_allowlist c = None"
      "cf_media_allowlist c = None" "cf_media_services c = None" "cf_web_search c = None" "cf_model_installer_token c = None"
    using from_env_unset [of "\<lambda>_. None"] f by (auto simp: clean_def env_unset)
  have "make_token_verifier c = Inr None" "\<not> is_ready c"
    by (simp_all add: c(2-4) make_token_verifier_def auth_is_configured_def opt_truthy_def is_ready_def readiness_checks_def)
  then show ?thesis
    using c by (intro exI [of _ c] conjI)
qed

end
