(* ===== verification/Routing.thy ===== *)
theory Routing
  imports Outbound Inference Auth
begin

text \<open>
  The inference plane's endpoints (app/control_plane/routing.py): normalising the configured base URL and
  the URLs built from it, over the model of \<^verbatim>\<open>urllib.parse\<close> in \<open>Outbound\<close>.
\<close>

section \<open>Definitions\<close>

text \<open>\<^verbatim>\<open>InferenceRoutingError\<close>, or the \<^verbatim>\<open>ValueError\<close> of a malformed bracketed host.\<close>

datatype routing_exn = RoutingRaised string | UrlValueError

definition ALLOWED_SCHEMES :: "string set" where "ALLOWED_SCHEMES = {''http'', ''https''}"

text \<open>\<^verbatim>\<open>urlparse\<close> cuts the parameters off the last segment of the path; \<^verbatim>\<open>urlunparse\<close> of scheme, host, path.\<close>

definition cut_params :: "string \<Rightarrow> string" where
  "cut_params path =
     (case rpartition (CHR ''/'') path of
        (None, segment) \<Rightarrow> fst (split_char1 (CHR '';'') segment)
      | (Some front, segment) \<Rightarrow> front @ ''/'' @ fst (split_char1 (CHR '';'') segment))"

definition urlunparse :: "string \<Rightarrow> string \<Rightarrow> string \<Rightarrow> string" where
  "urlunparse scheme netloc path =
     (let url = (if netloc \<noteq> [] \<or> path = [] \<or> starts_with ''/'' path
                 then ''//'' @ netloc @ (if path \<noteq> [] \<and> \<not> starts_with ''/'' path then ''/'' @ path else path)
                 else path)
      in scheme @ '':'' @ url)"

definition normalize_base_url :: "string \<Rightarrow> routing_exn + string" where
  "normalize_base_url raw =
     (if raw = [] then Inl (RoutingRaised ''Inference base URL is not configured.'')
      else (case urlsplit (py_strip raw) of
              None \<Rightarrow> Inl UrlValueError
            | Some parsed \<Rightarrow>
                if up_scheme parsed \<notin> ALLOWED_SCHEMES
                then Inl (RoutingRaised (''Inference URL scheme '' @ repr_str (up_scheme parsed)
                            @ '' is not allowed; use http or https.''))
                else if opt_truthy (fst (userinfo parsed)) \<or> opt_truthy (snd (userinfo parsed))
                then Inl (RoutingRaised (''Inference URL must not embed credentials. ''
                            @ ''Supply authentication headers separately.''))
                else Inr (urlunparse (up_scheme parsed) (up_netloc parsed)
                            (py_rstrip_by (\<lambda>c. c = CHR ''/'') (cut_params (up_path parsed))))))"

definition under_v1 :: "string \<Rightarrow> string \<Rightarrow> string" where
  "under_v1 base tail = base @ (if ends_with ''/v1'' base then [] else ''/v1'') @ tail"

definition build_chat_completions_url :: "string \<Rightarrow> routing_exn + string" where
  "build_chat_completions_url base_url =
     ebind (normalize_base_url base_url) (\<lambda>base. Inr (under_v1 base ''/chat/completions''))"

definition build_models_url :: "string \<Rightarrow> routing_exn + string" where
  "build_models_url base_url = ebind (normalize_base_url base_url) (\<lambda>base. Inr (under_v1 base ''/models''))"

definition build_health_url :: "string \<Rightarrow> routing_exn + string" where
  "build_health_url base_url =
     ebind (normalize_base_url base_url) (\<lambda>base.
       case urlsplit base of
         None \<Rightarrow> Inl UrlValueError
       | Some parsed \<Rightarrow> Inr (urlunparse (up_scheme parsed) (up_netloc parsed) ''/health''))"

record inference_endpoint =
  en_base_url :: string
  en_chat_completions_url :: string
  en_models_url :: string

definition from_base_url :: "string \<Rightarrow> routing_exn + inference_endpoint" where
  "from_base_url raw_base_url =
     ebind (normalize_base_url raw_base_url) (\<lambda>base.
     ebind (build_chat_completions_url base) (\<lambda>chat.
     ebind (build_models_url base) (\<lambda>models.
       Inr \<lparr>en_base_url = base, en_chat_completions_url = chat, en_models_url = models\<rparr>)))"

section \<open>Lemmas\<close>

text \<open>A path as \<^verbatim>\<open>urlsplit\<close> leaves it: no query, fragment or character it removes.\<close>

definition path_char :: "char \<Rightarrow> bool" where
  "path_char c \<longleftrightarrow> c \<noteq> CHR ''?'' \<and> c \<noteq> CHR ''#'' \<and> \<not> is_space c"

definition clean_host :: "string \<Rightarrow> bool" where
  "clean_host netloc \<longleftrightarrow> netloc_ok netloc \<and> (\<forall>c\<in>set netloc. \<not> netloc_end c \<and> \<not> is_space c)"

lemma unsafe_is_space: "unsafe_url_char c \<Longrightarrow> is_space c"
  by (auto simp: unsafe_url_char_def is_space_def Let_def)

lemma split_scheme_http:
  "s \<in> ALLOWED_SCHEMES \<Longrightarrow> split_scheme (s @ '':'' @ r) = (s, r)"
  by (auto simp: ALLOWED_SCHEMES_def split_scheme_def split_char1_def is_alpha_def scheme_char_def is_alnum_def
      py_lower_def lower_char_def ord_of_def)

lemma takeWhile_netloc:
  assumes "\<forall>c\<in>set n. \<not> netloc_end c" and "p = [] \<or> starts_with ''/'' p"
  shows "takeWhile (\<lambda>c. \<not> netloc_end c) (n @ p) = n" "dropWhile (\<lambda>c. \<not> netloc_end c) (n @ p) = p"
  using assms by (cases p; auto simp: netloc_end_def takeWhile_append2 dropWhile_append2)+

lemma filter_safe: "\<forall>c\<in>set s. \<not> is_space c \<Longrightarrow> filter (\<lambda>c. \<not> unsafe_url_char c) s = s"
  using unsafe_is_space by (auto intro: filter_True)

text \<open>What \<^verbatim>\<open>urlunparse\<close> puts together is split into the same parts.\<close>

lemma urlsplit_urlunparse:
  assumes s: "s \<in> ALLOWED_SCHEMES" and n: "clean_host n" and p: "\<forall>c\<in>set p. path_char c"
    and np: "n \<noteq> [] \<longrightarrow> p = [] \<or> starts_with ''/'' p"
  shows "urlsplit (urlunparse s n p) = Some \<lparr>up_scheme = s, up_netloc = n, up_path = p, up_query = []\<rparr>"
proof -
  let ?r = "if n \<noteq> [] \<or> p = [] \<or> starts_with ''/'' p then ''//'' @ n @ p else p"
  have u: "urlunparse s n p = s @ '':'' @ ?r"
    using np by (auto simp: urlunparse_def Let_def)
  have sp: "\<forall>c\<in>set (s @ '':'' @ ?r). \<not> is_space c"
  proof -
    have "\<forall>c\<in>set s. \<not> is_space c"
      using s unfolding ALLOWED_SCHEMES_def by (auto simp: is_space_def ord_of_def)
    moreover have "\<not> is_space (CHR '':'')" "\<not> is_space (CHR ''/'')"
      by (simp_all add: is_space_def ord_of_def)
    moreover have "\<forall>c\<in>set n \<union> set p. \<not> is_space c"
      using n p by (auto simp: clean_host_def path_char_def)
    ultimately show ?thesis
      by auto
  qed
  have "dropWhile is_c0_or_space (s @ '':'' @ ?r) = s @ '':'' @ ?r"
    using s by (auto simp: ALLOWED_SCHEMES_def is_c0_or_space_def ord_of_def)
  then have first: "filter (\<lambda>c. \<not> unsafe_url_char c) (dropWhile is_c0_or_space (s @ '':'' @ ?r)) = s @ '':'' @ ?r"
    using filter_safe [OF sp] by simp
  have q: "split_char1 (CHR ''#'') p = (p, None)" "split_char1 (CHR ''?'') p = (p, None)"
    using p by (auto intro!: split_char1_none simp: path_char_def)
  have h: "\<forall>c\<in>set n. \<not> netloc_end c" "netloc_ok n"
    using n by (auto simp: clean_host_def)
  have ok: "netloc_ok []"
    by (simp add: netloc_ok_def)
  show ?thesis
  proof (cases "n \<noteq> [] \<or> p = [] \<or> starts_with ''/'' p")
    case True
    then have "p = [] \<or> starts_with ''/'' p"
      using np by auto
    note tw = takeWhile_netloc [OF h(1) this]
    from True show ?thesis
      unfolding u urlsplit_def first Let_def split_scheme_http [OF s]
      by (simp add: split_scheme_http [OF s, simplified] tw q h)
  next
    case False
    then have "\<not> starts_with ''//'' p" "n = []"
      by (cases p; auto)+
    with False show ?thesis
      unfolding u urlsplit_def first Let_def
      by (simp add: split_scheme_http [OF s, simplified] q ok)
  qed
qed


lemma split_char1_fst:
  "set (fst (split_char1 c s)) \<subseteq> set s" "c \<notin> set (fst (split_char1 c s))"
  "starts_with [d] (fst (split_char1 c s)) \<longleftrightarrow> d \<noteq> c \<and> starts_with [d] s"
  by (cases s; auto simp: split_char1_def dest: set_takeWhileD)+

lemma set_dropWhile_le: "set (dropWhile P xs) \<subseteq> set xs"
  by (auto dest: set_dropWhileD)

lemma netloc_rest:
  "dropWhile (\<lambda>c. \<not> netloc_end c) s = [] \<or> netloc_end (hd (dropWhile (\<lambda>c. \<not> netloc_end c) s))"
  using hd_dropWhile [of "\<lambda>c. \<not> netloc_end c" s] by blast

lemma urlsplit_clean:
  assumes "urlsplit url = Some u" and sp: "\<forall>c\<in>set url. \<not> is_space c"
  shows "clean_host (up_netloc u)" "\<forall>c\<in>set (up_path u). path_char c"
    "up_netloc u \<noteq> [] \<longrightarrow> up_path u = [] \<or> starts_with ''/'' (up_path u)"
proof -
  define v where "v = filter (\<lambda>c. \<not> unsafe_url_char c) (dropWhile is_c0_or_space url)"
  define w where "w = snd (split_scheme v)"
  define n where "n = (if starts_with ''//'' w then takeWhile (\<lambda>c. \<not> netloc_end c) (drop 2 w) else [])"
  define r where "r = (if starts_with ''//'' w then dropWhile (\<lambda>c. \<not> netloc_end c) (drop 2 w) else w)"
  define p where "p = fst (split_char1 (CHR ''?'') (fst (split_char1 (CHR ''#'') r)))"
  obtain sc where sc: "split_scheme v = (sc, w)"
    by (metis w_def prod.collapse)
  have nr: "(if starts_with ''//'' w
      then (takeWhile (\<lambda>c. \<not> netloc_end c) (drop 2 w), dropWhile (\<lambda>c. \<not> netloc_end c) (drop 2 w))
      else ([], w)) = (n, r)"
    by (simp only: n_def r_def split: if_split) simp
  obtain q where pq: "split_char1 (CHR ''?'') (fst (split_char1 (CHR ''#'') r)) = (p, q)"
    by (metis p_def prod.collapse)
  have "netloc_ok n \<and> up_netloc u = n \<and> up_path u = p"
    using assms(1) unfolding urlsplit_def Let_def v_def [symmetric] sc prod.case nr pq
    by (simp only: split: if_splits) auto
  then have u: "netloc_ok n" "up_netloc u = n" "up_path u = p"
    by simp_all
  have "set w \<subseteq> set url"
    unfolding w_def v_def using split_scheme_set set_dropWhile_le by fastforce
  then have w: "\<forall>c\<in>set w. \<not> is_space c"
    using sp by blast
  have "set n \<subseteq> set w" "set r \<subseteq> set w" "\<forall>c\<in>set n. \<not> netloc_end c"
    unfolding n_def r_def using set_dropWhile_le [of "\<lambda>c. \<not> netloc_end c" "drop 2 w"]
    by (auto dest: set_takeWhileD in_set_dropD)
  then show "clean_host (up_netloc u)"
    using u w by (auto simp: clean_host_def)
  have "set p \<subseteq> set (fst (split_char1 (CHR ''#'') r))" "CHR ''?'' \<notin> set p"
    unfolding p_def by (rule split_char1_fst)+
  moreover have "set (fst (split_char1 (CHR ''#'') r)) \<subseteq> set r" "CHR ''#'' \<notin> set (fst (split_char1 (CHR ''#'') r))"
    by (rule split_char1_fst)+
  ultimately have "set p \<subseteq> set r" "CHR ''?'' \<notin> set p" "CHR ''#'' \<notin> set p"
    by blast+
  then show "\<forall>c\<in>set (up_path u). path_char c"
    using w \<open>set r \<subseteq> set w\<close> unfolding u path_char_def by blast
  show "up_netloc u \<noteq> [] \<longrightarrow> up_path u = [] \<or> starts_with ''/'' (up_path u)"
  proof
    assume "up_netloc u \<noteq> []"
    then have "r = dropWhile (\<lambda>c. \<not> netloc_end c) (drop 2 w)"
      by (simp add: u n_def r_def split: if_splits)
    then consider "r = []" | c cs where "r = c # cs" "netloc_end c"
      using netloc_rest [of "drop 2 w"] by (metis list.collapse)
    then have "p = [] \<or> starts_with ''/'' p"
    proof cases
      case 2
      then consider "c = CHR ''?'' \<or> c = CHR ''#''" | "c = CHR ''/''"
        by (auto simp: netloc_end_def)
      then show ?thesis
      proof cases
        case 1
        with 2 show ?thesis
          by (auto simp: p_def split_char1_def)
      next
        case 2
        with \<open>r = c # cs\<close> show ?thesis
          by (simp add: p_def split_char1_fst(3))
      qed
    qed (simp add: p_def split_char1_def)
    then show "up_path u = [] \<or> starts_with ''/'' (up_path u)"
      by (simp add: u)
  qed
qed

text \<open>Cutting the parameters and the trailing slashes.\<close>

definition trimmed :: "string \<Rightarrow> string" where
  "trimmed path = py_rstrip_by (\<lambda>c. c = CHR ''/'') (cut_params path)"

lemma rpartition_parts:
  "rpartition c s = (Some a, b) \<Longrightarrow> s = a @ c # b" "rpartition c s = (None, b) \<Longrightarrow> b = s"
proof -
  show "rpartition c s = (None, b) \<Longrightarrow> b = s"
    by (auto simp: rpartition_def Let_def split: if_splits)
  assume h: "rpartition c s = (Some a, b)"
  then have c: "c \<in> set s" and b: "b = rev (takeWhile (\<lambda>x. x \<noteq> c) (rev s))"
      and a: "a = take (length s - length b - 1) s"
    by (auto simp: rpartition_def Let_def split: if_splits)
  have ne: "dropWhile (\<lambda>x. x \<noteq> c) (rev s) \<noteq> []"
    using c by (simp add: dropWhile_eq_Nil_conv)
  obtain t where t: "dropWhile (\<lambda>x. x \<noteq> c) (rev s) = c # t"
    using hd_dropWhile [OF ne] ne by (cases "dropWhile (\<lambda>x. x \<noteq> c) (rev s)") simp_all
  have "rev s = rev b @ c # t"
    using t b takeWhile_dropWhile_id [of "\<lambda>x. x \<noteq> c" "rev s"] by simp
  then have "s = rev t @ c # b"
    by (metis append.assoc append_Cons append_Nil rev.simps(2) rev_append rev_rev_ident)
  then show "s = a @ c # b"
    using a by simp
qed

lemma trimmed_path:
  "set (trimmed p) \<subseteq> set p" "p = [] \<or> starts_with ''/'' p \<Longrightarrow> trimmed p = [] \<or> starts_with ''/'' (trimmed p)"
proof -
  have cut: "set (cut_params p) \<subseteq> set p \<and> (p = [] \<or> starts_with ''/'' p \<longrightarrow> cut_params p = [] \<or> starts_with ''/'' (cut_params p))"
  proof (cases "rpartition (CHR ''/'') p")
    case (Pair a b)
    then show ?thesis
    proof (cases a)
      case None
      then show ?thesis
        using rpartition_parts(2) [of "CHR ''/''" p b] Pair split_char1_fst(1,3)
        by (auto simp: cut_params_def split_char1_def)
    next
      case (Some f)
      then have "p = f @ CHR ''/'' # b"
        using rpartition_parts(1) Pair by blast
      then show ?thesis
        using split_char1_fst(1) [of "CHR '';''" b] unfolding cut_params_def Pair Some
        by (cases f) (simp_all add: subset_iff)
    qed
  qed
  have "\<exists>z. cut_params p = trimmed p @ z"
    by (metis trimmed_def py_rstrip_by_def takeWhile_dropWhile_id rev_append rev_rev_ident)
  then obtain z where z: "cut_params p = trimmed p @ z" ..
  then show "set (trimmed p) \<subseteq> set p"
    using cut by auto
  show "trimmed p = [] \<or> starts_with ''/'' (trimmed p)" if "p = [] \<or> starts_with ''/'' p"
    using cut that z by (cases "trimmed p") auto
qed


text \<open>Normalising what is normal already: the same scheme and host, and a path trimmed again.\<close>

definition base_parts :: "string \<Rightarrow> string \<Rightarrow> string \<Rightarrow> bool" where
  "base_parts s n p \<longleftrightarrow>
     s \<in> ALLOWED_SCHEMES \<and> clean_host n \<and> (\<forall>c\<in>set p. path_char c) \<and>
     (n \<noteq> [] \<longrightarrow> p = [] \<or> starts_with ''/'' p)"

lemma split_base: "base_parts s n p \<Longrightarrow>
    urlsplit (urlunparse s n p) = Some \<lparr>up_scheme = s, up_netloc = n, up_path = p, up_query = []\<rparr>"
  unfolding base_parts_def by (blast intro: urlsplit_urlunparse)

lemma base_parts_trimmed: "base_parts s n p \<Longrightarrow> base_parts s n (trimmed p)"
  using trimmed_path [of p] unfolding base_parts_def by blast

lemma base_spaces:
  assumes "base_parts s n p"
  shows "\<forall>c\<in>set (urlunparse s n p). \<not> is_space c"
proof -
  have "\<forall>c\<in>set s. \<not> is_space c"
    using assms unfolding base_parts_def ALLOWED_SCHEMES_def by (auto simp: is_space_def ord_of_def)
  moreover have "\<not> is_space (CHR '':'')" "\<not> is_space (CHR ''/'')"
    by (simp_all add: is_space_def ord_of_def)
  moreover have "\<forall>c\<in>set n \<union> set p. \<not> is_space c"
    using assms by (auto simp: base_parts_def clean_host_def path_char_def)
  ultimately show ?thesis
    by (auto simp: urlunparse_def Let_def)
qed

lemma py_strip_id: "\<forall>c\<in>set s. \<not> is_space c \<Longrightarrow> py_strip s = s"
proof -
  assume h: "\<forall>c\<in>set s. \<not> is_space c"
  have "dropWhile is_space xs = xs" if "\<forall>c\<in>set xs. \<not> is_space c" for xs
    using that by (cases xs) simp_all
  from this [of s] this [of "rev s"] h show ?thesis
    by (simp add: py_strip_def py_lstrip_def py_rstrip_by_def)
qed

text \<open>\<open>parsed\<close> has no credentials: it has neither name nor password, or empty ones.\<close>

definition no_credentials :: "url_parts \<Rightarrow> bool" where
  "no_credentials u \<longleftrightarrow> \<not> opt_truthy (fst (userinfo u)) \<and> \<not> opt_truthy (snd (userinfo u))"

lemma normalize_base:
  assumes "base_parts s n p" and "no_credentials \<lparr>up_scheme = s, up_netloc = n, up_path = p, up_query = []\<rparr>"
  shows "normalize_base_url (urlunparse s n p) = Inr (urlunparse s n (trimmed p))"
proof -
  have "urlunparse s n p \<noteq> []"
    by (simp add: urlunparse_def)
  then show ?thesis
    using assms split_base [OF assms(1)]
    by (simp add: normalize_base_url_def py_strip_id [OF base_spaces [OF assms(1)]] trimmed_def
        no_credentials_def base_parts_def)
qed

lemma normalize_Inr:
  assumes "normalize_base_url raw = Inr base" and "\<forall>c\<in>set (py_strip raw). \<not> is_space c"
  obtains u p where "urlsplit (py_strip raw) = Some u" "base_parts (up_scheme u) (up_netloc u) p" "no_credentials u"
    "base = urlunparse (up_scheme u) (up_netloc u) p"
proof -
  obtain u where u: "urlsplit (py_strip raw) = Some u" "up_scheme u \<in> ALLOWED_SCHEMES" "no_credentials u"
      "base = urlunparse (up_scheme u) (up_netloc u) (trimmed (up_path u))"
    using assms(1) by (auto simp: normalize_base_url_def no_credentials_def trimmed_def split: if_splits option.splits)
  have "base_parts (up_scheme u) (up_netloc u) (up_path u)"
    using u(2) urlsplit_clean [OF u(1) assms(2)] by (simp add: base_parts_def)
  then show ?thesis
    using that u base_parts_trimmed by blast
qed

lemma urlunparse_append:
  "starts_with ''/'' t \<Longrightarrow> urlunparse s n p @ t = urlunparse s n (p @ t)"
  by (cases p; cases t) (auto simp: urlunparse_def Let_def)

lemma base_parts_append:
  assumes "base_parts s n p" and "starts_with ''/'' t" and "\<forall>c\<in>set t. path_char c"
  shows "base_parts s n (p @ t)"
  using assms by (cases p; cases t) (auto simp: base_parts_def)

lemma under_v1_parts:
  assumes "base_parts s n p" and "t = ''/chat/completions'' \<or> t = ''/models''"
  shows "\<exists>path. urlsplit (under_v1 (urlunparse s n p) t) =
    Some \<lparr>up_scheme = s, up_netloc = n, up_path = path, up_query = []\<rparr>"
proof -
  have "starts_with ''/'' t" "starts_with ''/'' (''/v1'' @ t)" "\<forall>c\<in>set t. path_char c" "\<forall>c\<in>set (''/v1'' @ t). path_char c"
    using assms(2) by (auto simp: path_char_def is_space_def ord_of_def)
  note bs = split_base [OF base_parts_append [OF assms(1) this(1,3)]]
    split_base [OF base_parts_append [OF assms(1) this(2,4)]]
    urlunparse_append [OF this(1), of s n p] urlunparse_append [OF this(2), of s n p]
  show ?thesis
    unfolding under_v1_def using bs by (cases "ends_with ''/v1'' (urlunparse s n p)") auto
qed

text \<open>C21: Every URL that the inference client uses is one of the configured endpoint: where the base URL is
  accepted (and holds no blank), the endpoint resolves, its scheme is http or https, the URL holds no
  credentials, and the chat, models and health URLs are split into the scheme and the host of the configured
  URL, without a query.\<close>

theorem endpoint_confined:
  assumes "normalize_base_url raw = Inr base" and "\<forall>c\<in>set (py_strip raw). \<not> is_space c"
  shows "\<exists>parsed e health. urlsplit (py_strip raw) = Some parsed \<and> up_scheme parsed \<in> {''http'', ''https''} \<and>
    \<not> opt_truthy (fst (userinfo parsed)) \<and> \<not> opt_truthy (snd (userinfo parsed)) \<and>
    from_base_url raw = Inr e \<and> build_health_url raw = Inr health \<and>
    (\<forall>url \<in> {en_chat_completions_url e, en_models_url e, health}. \<exists>path.
       urlsplit url = Some \<lparr>up_scheme = up_scheme parsed, up_netloc = up_netloc parsed, up_path = path, up_query = []\<rparr>)"
proof -
  obtain u p where u: "urlsplit (py_strip raw) = Some u" "base_parts (up_scheme u) (up_netloc u) p" "no_credentials u"
      "base = urlunparse (up_scheme u) (up_netloc u) p"
    using normalize_Inr [OF assms] .
  let ?b = "urlunparse (up_scheme u) (up_netloc u) (trimmed p)"
  let ?e = "\<lparr>en_base_url = base, en_chat_completions_url = under_v1 ?b ''/chat/completions'',
             en_models_url = under_v1 ?b ''/models''\<rparr>"
  let ?h = "urlunparse (up_scheme u) (up_netloc u) ''/health''"
  have "no_credentials \<lparr>up_scheme = up_scheme u, up_netloc = up_netloc u, up_path = p, up_query = []\<rparr>"
    using u(3) by (simp add: no_credentials_def userinfo_def)
  then have "normalize_base_url base = Inr ?b"
    unfolding u(4) by (rule normalize_base [OF u(2)])
  then have e: "from_base_url raw = Inr ?e"
    by (simp add: from_base_url_def build_chat_completions_url_def build_models_url_def assms(1))
  have h: "build_health_url raw = Inr ?h"
    using split_base [OF u(2)] by (simp add: build_health_url_def assms(1) u(4))
  have "base_parts (up_scheme u) (up_netloc u) ''/health''"
    using u(2) by (auto simp: base_parts_def path_char_def is_space_def ord_of_def)
  note hp = split_base [OF this]
  have "\<exists>path. urlsplit (under_v1 ?b t) =
      Some \<lparr>up_scheme = up_scheme u, up_netloc = up_netloc u, up_path = path, up_query = []\<rparr>"
    if "t = ''/chat/completions'' \<or> t = ''/models''" for t
    using under_v1_parts [OF base_parts_trimmed [OF u(2)] that] .
  then show ?thesis
    using u(1,2,3) e h hp
    by (intro exI [of _ u] exI [of _ ?e] exI [of _ ?h]) (auto simp: base_parts_def ALLOWED_SCHEMES_def no_credentials_def)
qed

lemma endpoint_confined_witness:
  "\<exists>parsed e. urlsplit (py_strip '' https://vllm.svc:8000/v1/ '') = Some parsed \<and>
     from_base_url '' https://vllm.svc:8000/v1/ '' = Inr e \<and>
     (\<exists>path. urlsplit (en_models_url e) = Some \<lparr>up_scheme = up_scheme parsed, up_netloc = up_netloc parsed,
                                                 up_path = path, up_query = []\<rparr>)"
proof -
  have "normalize_base_url '' https://vllm.svc:8000/v1/ '' = Inr ''https://vllm.svc:8000/v1''"
    by code_simp
  moreover have "\<forall>c\<in>set (py_strip '' https://vllm.svc:8000/v1/ ''). \<not> is_space c"
    by code_simp
  ultimately show ?thesis
    using endpoint_confined by blast
qed

end
