(* ===== verification/Routes.thy ===== *)
theory Routes
  imports Routing Startup Chat
begin

text \<open>
  The routes of the server (app/control_plane/server.py): how a request's path and query are read, which
  handler a path belongs to, the body limit of each route, the operational GET endpoints
  (\<^verbatim>\<open>build_response\<close>) with the cached health probe, and the path label of the metrics (metrics.py).
\<close>

section \<open>Bytes as text\<close>

text \<open>
  UTF-8 decoding.  \<^term>\<open>None\<close> stands for each longest invalid part, which \<^verbatim>\<open>errors="replace"\<close> makes one
  replacement character; code points from 256 on become the character \<open>SUB\<close>, as they have no place in a string here.
\<close>

definition SUB :: char where "SUB = CHR 0x1A"

definition continues :: "char \<Rightarrow> bool" where
  "continues c = (let n = ord_of c in 128 \<le> n \<and> n \<le> 191)"

definition second_ok :: "nat \<Rightarrow> char \<Rightarrow> bool" where
  "second_ok lead c =
     (let n = ord_of c in
      (if lead = 224 then 160 else if lead = 240 then 144 else 128) \<le> n \<and>
      n \<le> (if lead = 237 then 159 else if lead = 244 then 143 else 191))"

fun utf8_scan :: "string \<Rightarrow> char option list" where
  "utf8_scan [] = []"
| "utf8_scan (b # rest) =
     (let n = ord_of b in
      if n < 128 then Some b # utf8_scan rest
      else if 194 \<le> n \<and> n \<le> 223
      then (case rest of
              [] \<Rightarrow> [None]
            | c # cs \<Rightarrow> if \<not> continues c then None # utf8_scan rest
                        else Some (if n < 196 then char_of ((n - 192) * 64 + (ord_of c - 128)) else SUB) # utf8_scan cs)
      else if 224 \<le> n \<and> n \<le> 239
      then (case rest of
              [] \<Rightarrow> [None]
            | c # cs \<Rightarrow> if \<not> second_ok n c then None # utf8_scan rest
                        else (case cs of
                                [] \<Rightarrow> [None]
                              | d # ds \<Rightarrow> if \<not> continues d then None # utf8_scan cs else Some SUB # utf8_scan ds))
      else if 240 \<le> n \<and> n \<le> 244
      then (case rest of
              [] \<Rightarrow> [None]
            | c # cs \<Rightarrow> if \<not> second_ok n c then None # utf8_scan rest
                        else (case cs of
                                [] \<Rightarrow> [None]
                              | d # ds \<Rightarrow> if \<not> continues d then None # utf8_scan cs
                                          else (case ds of
                                                  [] \<Rightarrow> [None]
                                                | e # es \<Rightarrow> if \<not> continues e then None # utf8_scan ds
                                                            else Some SUB # utf8_scan es)))
      else None # utf8_scan rest)"

definition utf8_decode :: "string \<Rightarrow> string option" where
  "utf8_decode s = (let r = utf8_scan s in if None \<in> set r then None else Some (map the r))"

definition utf8_replace :: "string \<Rightarrow> string" where
  "utf8_replace s = map (\<lambda>r. case r of None \<Rightarrow> SUB | Some c \<Rightarrow> c) (utf8_scan s)"

section \<open>Paths and queries\<close>

text \<open>\<^verbatim>\<open>urllib.parse.unquote\<close>: the escapes within each run of ASCII characters.\<close>

fun unquote_bytes :: "string \<Rightarrow> string" where
  "unquote_bytes [] = []"
| "unquote_bytes (c # cs) =
     (if c \<noteq> CHR 0x25 then c # unquote_bytes cs
      else (case cs of
              a # b # rest \<Rightarrow>
                (case (hex_value a, hex_value b) of
                   (Some x, Some y) \<Rightarrow> char_of (16 * x + y) # unquote_bytes rest
                 | _ \<Rightarrow> c # unquote_bytes cs)
            | _ \<Rightarrow> c # unquote_bytes cs))"

definition is_ascii :: "char \<Rightarrow> bool" where "is_ascii c = (ord_of c < 128)"

function unquote_runs :: "string \<Rightarrow> string" where
  "unquote_runs [] = []"
| "unquote_runs (c # cs) =
     (if is_ascii c
      then utf8_replace (unquote_bytes (takeWhile is_ascii (c # cs))) @ unquote_runs (dropWhile is_ascii (c # cs))
      else c # unquote_runs cs)"
  by pat_completeness auto
termination
  by (relation "measure length") (auto simp: length_dropWhile_le less_Suc_eq_le)

definition url_unquote :: "string \<Rightarrow> string" where
  "url_unquote s = (if CHR 0x25 \<in> set s then unquote_runs s else s)"

definition plus_to_blank :: "string \<Rightarrow> string" where
  "plus_to_blank s = map (\<lambda>c. if c = CHR ''+'' then CHR '' '' else c) s"

text \<open>\<^verbatim>\<open>parse_qs(query)\<close> as the pairs in their order; \<^verbatim>\<open>.get(k, [d])[0]\<close> is the first of a name.\<close>

definition parse_field :: "string \<Rightarrow> (string \<times> string) option" where
  "parse_field f =
     (case split_char1 (CHR ''='') f of
        (name, Some v) \<Rightarrow>
          if v = [] then None else Some (url_unquote (plus_to_blank name), url_unquote (plus_to_blank v))
      | (_, None) \<Rightarrow> None)"

definition parse_qs :: "string \<Rightarrow> (string \<times> string) list" where
  "parse_qs query = List.map_filter parse_field (split_char (CHR ''&'') query)"

definition query_first :: "string \<Rightarrow> string \<Rightarrow> string option" where
  "query_first k query = map_of (parse_qs query) k"

text \<open>\<^verbatim>\<open>self.path.split("?", 1)\<close>, and \<^verbatim>\<open>urlsplit(self.path).query\<close>.\<close>

definition path_of :: "string \<Rightarrow> string" where
  "path_of raw = fst (split_char1 (CHR ''?'') raw)"

definition params_of :: "string \<Rightarrow> string" where
  "params_of raw = (case snd (split_char1 (CHR ''?'') raw) of None \<Rightarrow> [] | Some q \<Rightarrow> q)"

definition url_query :: "string \<Rightarrow> string" where
  "url_query raw = (case urlsplit raw of None \<Rightarrow> [] | Some u \<Rightarrow> up_query u)"

section \<open>Routes\<close>

definition CHAT_PATH :: string where "CHAT_PATH = ''/v1/chat/completions''"
definition CHAT_STREAM_PATH :: string where "CHAT_STREAM_PATH = ''/v1/chat/stream''"
definition NOTIFICATIONS_PATH :: string where "NOTIFICATIONS_PATH = ''/v1/notifications''"
definition NOTIFICATIONS_STREAM_PATH :: string where "NOTIFICATIONS_STREAM_PATH = ''/v1/notifications/stream''"
definition RETRIEVAL_DOCUMENTS_PATH :: string where "RETRIEVAL_DOCUMENTS_PATH = ''/v1/retrieval/documents''"
definition RETRIEVAL_UPLOAD_PATH :: string where "RETRIEVAL_UPLOAD_PATH = ''/v1/retrieval/upload''"
definition RETRIEVAL_QUERY_PATH :: string where "RETRIEVAL_QUERY_PATH = ''/v1/retrieval/query''"
definition MEMORY_PATH :: string where "MEMORY_PATH = ''/v1/memory''"
definition MEMORY_RECALL_PATH :: string where "MEMORY_RECALL_PATH = ''/v1/memory/recall''"
definition AGENT_TOOLS_INVOKE_PATH :: string where "AGENT_TOOLS_INVOKE_PATH = ''/v1/agent/tools/invoke''"
definition AGENT_RUNS_PATH :: string where "AGENT_RUNS_PATH = ''/v1/agent/runs''"
definition AGENT_RESEARCH_PATH :: string where "AGENT_RESEARCH_PATH = ''/v1/agent/research''"
definition COMPARE_PATH :: string where "COMPARE_PATH = ''/v1/compare''"
definition NOTES_PATH :: string where "NOTES_PATH = ''/v1/notes''"
definition MODEL_REQUESTS_PATH :: string where "MODEL_REQUESTS_PATH = ''/v1/models/install-requests''"
definition MODEL_INSTALLER_PENDING :: string where
  "MODEL_INSTALLER_PENDING = ''/v1/internal/model-installer/pending''"
definition MODEL_INSTALLER_REQUESTS :: string where
  "MODEL_INSTALLER_REQUESTS = ''/v1/internal/model-installer/requests''"
definition DOCUMENT_EDIT_PATH :: string where "DOCUMENT_EDIT_PATH = ''/v1/documents/edit''"
definition MCP_INVOKE_PATH :: string where "MCP_INVOKE_PATH = ''/v1/mcp/invoke''"
definition MCP_LIST_PATH :: string where "MCP_LIST_PATH = ''/v1/mcp/tools/list''"
definition INTEGRATIONS_INVOKE_PATH :: string where "INTEGRATIONS_INVOKE_PATH = ''/v1/integrations/invoke''"
definition INTEGRATIONS_LIST_PATH :: string where "INTEGRATIONS_LIST_PATH = ''/v1/integrations/list''"
definition MEDIA_LIST_PATH :: string where "MEDIA_LIST_PATH = ''/v1/media/list''"
definition MEDIA_TRANSCRIBE_PATH :: string where "MEDIA_TRANSCRIBE_PATH = ''/v1/media/transcribe''"
definition MEDIA_GENERATE_PATH :: string where "MEDIA_GENERATE_PATH = ''/v1/media/generate''"
definition MEDIA_SYNTHESIZE_PATH :: string where "MEDIA_SYNTHESIZE_PATH = ''/v1/media/synthesize''"
definition MEDIA_ARTIFACTS_PREFIX :: string where "MEDIA_ARTIFACTS_PREFIX = ''/v1/media/artifacts/''"
definition CONVERSATIONS_PATH :: string where "CONVERSATIONS_PATH = ''/v1/conversations''"
definition METRICS_PATH :: string where "METRICS_PATH = ''/metrics''"
definition MAX_REQUEST_BODY :: int where "MAX_REQUEST_BODY = 1048576"

lemmas path_defs = CHAT_PATH_def CHAT_STREAM_PATH_def NOTIFICATIONS_PATH_def NOTIFICATIONS_STREAM_PATH_def
  RETRIEVAL_DOCUMENTS_PATH_def RETRIEVAL_UPLOAD_PATH_def RETRIEVAL_QUERY_PATH_def MEMORY_PATH_def
  MEMORY_RECALL_PATH_def AGENT_TOOLS_INVOKE_PATH_def AGENT_RUNS_PATH_def AGENT_RESEARCH_PATH_def COMPARE_PATH_def
  NOTES_PATH_def MODEL_REQUESTS_PATH_def MODEL_INSTALLER_PENDING_def MODEL_INSTALLER_REQUESTS_def
  DOCUMENT_EDIT_PATH_def MCP_INVOKE_PATH_def MCP_LIST_PATH_def INTEGRATIONS_INVOKE_PATH_def
  INTEGRATIONS_LIST_PATH_def MEDIA_LIST_PATH_def MEDIA_TRANSCRIBE_PATH_def MEDIA_GENERATE_PATH_def
  MEDIA_SYNTHESIZE_PATH_def MEDIA_ARTIFACTS_PREFIX_def CONVERSATIONS_PATH_def METRICS_PATH_def

text \<open>\<^verbatim>\<open>path[len(prefix):-len(suffix)]\<close>, and what may stand there as an identifier.\<close>

definition between :: "string \<Rightarrow> string \<Rightarrow> string \<Rightarrow> string" where
  "between front back path = drop (length front) (take (length path - length back) path)"

definition is_segment :: "string \<Rightarrow> bool" where
  "is_segment s \<longleftrightarrow> s \<noteq> [] \<and> CHR ''/'' \<notin> set s"

datatype get_route =
    GNotificationsStream | GNotifications | GMemory | GNotes | GModelRequests | GInstallerPending
  | GConversations | GConversation string | GArtifactContent string | GArtifact string | GOther

text \<open>\<^verbatim>\<open>do_GET\<close>: the conditions in their order.\<close>

definition route_get :: "string \<Rightarrow> get_route" where
  "route_get path =
     (if path = NOTIFICATIONS_STREAM_PATH then GNotificationsStream
      else if path = NOTIFICATIONS_PATH then GNotifications
      else if path = MEMORY_PATH then GMemory
      else if path = NOTES_PATH then GNotes
      else if path = MODEL_REQUESTS_PATH then GModelRequests
      else if path = MODEL_INSTALLER_PENDING then GInstallerPending
      else if path = CONVERSATIONS_PATH then GConversations
      else if starts_with (CONVERSATIONS_PATH @ ''/'') path \<and>
              is_segment (drop (length CONVERSATIONS_PATH + 1) path)
      then GConversation (drop (length CONVERSATIONS_PATH + 1) path)
      else if starts_with MEDIA_ARTIFACTS_PREFIX path \<and> ends_with ''/content'' path \<and>
              is_segment (between MEDIA_ARTIFACTS_PREFIX ''/content'' path)
      then GArtifactContent (between MEDIA_ARTIFACTS_PREFIX ''/content'' path)
      else if starts_with MEDIA_ARTIFACTS_PREFIX path \<and> is_segment (drop (length MEDIA_ARTIFACTS_PREFIX) path)
      then GArtifact (drop (length MEDIA_ARTIFACTS_PREFIX) path)
      else GOther)"

datatype post_route =
    PChatStream | PChat | PNotifications | PIndex | PUpload | PQuery | PRecall | PMemory | PInvoke | PRun
  | PResearch | PCompare | PEdit | PNotes | PNote string | PInstallerStatus string | PModelRequests
  | PMcpList | PMcpInvoke | PIntegrationsList | PIntegrationsInvoke | PMediaList | PTranscribe | PGenerate
  | PSynthesize | PConversations | PAppend string | PRead string | PNotFound

definition route_post :: "string \<Rightarrow> post_route" where
  "route_post path =
     (if path = CHAT_STREAM_PATH then PChatStream
      else if path = CHAT_PATH then PChat
      else if path = NOTIFICATIONS_PATH then PNotifications
      else if path = RETRIEVAL_DOCUMENTS_PATH then PIndex
      else if path = RETRIEVAL_UPLOAD_PATH then PUpload
      else if path = RETRIEVAL_QUERY_PATH then PQuery
      else if path = MEMORY_RECALL_PATH then PRecall
      else if path = MEMORY_PATH then PMemory
      else if path = AGENT_TOOLS_INVOKE_PATH then PInvoke
      else if path = AGENT_RUNS_PATH then PRun
      else if path = AGENT_RESEARCH_PATH then PResearch
      else if path = COMPARE_PATH then PCompare
      else if path = DOCUMENT_EDIT_PATH then PEdit
      else if path = NOTES_PATH then PNotes
      else if starts_with (NOTES_PATH @ ''/'') path \<and> is_segment (drop (length NOTES_PATH + 1) path)
      then PNote (drop (length NOTES_PATH + 1) path)
      else if starts_with (MODEL_INSTALLER_REQUESTS @ ''/'') path \<and> ends_with ''/status'' path \<and>
              is_segment (between (MODEL_INSTALLER_REQUESTS @ ''/'') ''/status'' path)
      then PInstallerStatus (between (MODEL_INSTALLER_REQUESTS @ ''/'') ''/status'' path)
      else if path = MODEL_REQUESTS_PATH then PModelRequests
      else if path = MCP_LIST_PATH then PMcpList
      else if path = MCP_INVOKE_PATH then PMcpInvoke
      else if path = INTEGRATIONS_LIST_PATH then PIntegrationsList
      else if path = INTEGRATIONS_INVOKE_PATH then PIntegrationsInvoke
      else if path = MEDIA_LIST_PATH then PMediaList
      else if path = MEDIA_TRANSCRIBE_PATH then PTranscribe
      else if path = MEDIA_GENERATE_PATH then PGenerate
      else if path = MEDIA_SYNTHESIZE_PATH then PSynthesize
      else if path = CONVERSATIONS_PATH then PConversations
      else if starts_with (CONVERSATIONS_PATH @ ''/'') path \<and> ends_with ''/messages'' path \<and>
              is_segment (between (CONVERSATIONS_PATH @ ''/'') ''/messages'' path)
      then PAppend (between (CONVERSATIONS_PATH @ ''/'') ''/messages'' path)
      else if starts_with (NOTIFICATIONS_PATH @ ''/'') path \<and> ends_with ''/read'' path \<and>
              between (NOTIFICATIONS_PATH @ ''/'') ''/read'' path \<noteq> []
      then PRead (between (NOTIFICATIONS_PATH @ ''/'') ''/read'' path)
      else PNotFound)"

datatype delete_route = DMemory string | DNote string | DConversation string | DNotFound

definition route_delete :: "string \<Rightarrow> delete_route" where
  "route_delete path =
     (if starts_with (MEMORY_PATH @ ''/'') path \<and> is_segment (drop (length (MEMORY_PATH @ ''/'')) path)
      then DMemory (drop (length (MEMORY_PATH @ ''/'')) path)
      else if starts_with (NOTES_PATH @ ''/'') path \<and> is_segment (drop (length (NOTES_PATH @ ''/'')) path)
      then DNote (drop (length (NOTES_PATH @ ''/'')) path)
      else if starts_with (CONVERSATIONS_PATH @ ''/'') path \<and>
              is_segment (drop (length (CONVERSATIONS_PATH @ ''/'')) path)
      then DConversation (drop (length (CONVERSATIONS_PATH @ ''/'')) path)
      else DNotFound)"

text \<open>The largest body a route reads.\<close>

definition body_cap :: "int \<Rightarrow> int \<Rightarrow> string \<Rightarrow> int" where
  "body_cap media_max_audio_bytes retrieval_max_upload_bytes path =
     (if path = MEDIA_TRANSCRIBE_PATH then media_max_audio_bytes
      else if path = RETRIEVAL_UPLOAD_PATH then retrieval_max_upload_bytes
      else MAX_REQUEST_BODY)"

text \<open>\<^verbatim>\<open>int(self.headers.get("Content-Length", 0) or 0)\<close>; \<^term>\<open>None\<close> is \<^verbatim>\<open>ValueError\<close>.\<close>

definition content_length :: "string option \<Rightarrow> int option" where
  "content_length header =
     (case header of None \<Rightarrow> Some 0 | Some h \<Rightarrow> if h = [] then Some 0 else py_int h)"

section \<open>Operational endpoints\<close>

text \<open>What they read of the outside: the health probe, the metrics registry, the clocks.\<close>

record status_env =
  se_float :: "rat \<Rightarrow> string"
  se_loads :: "string \<Rightarrow> json option"
  se_health :: "string \<Rightarrow> probe_result"
  se_metrics :: "string \<times> string"
  se_now :: datetime
  se_clock :: rat

definition GPU_PROBE_TTL_SECONDS :: rat where "GPU_PROBE_TTL_SECONDS = 3"

record probe_cache =
  gp_ts :: rat
  gp_base :: string
  gp_result :: json

text \<open>The probe, whose URL may be malformed: then \<^verbatim>\<open>ValueError\<close> leaves it.\<close>

definition probe_base :: "status_env \<Rightarrow> string \<Rightarrow> unit + json" where
  "probe_base env base_url =
     (case build_health_url base_url of
        Inl UrlValueError \<Rightarrow> Inl ()
      | Inl (RoutingRaised _) \<Rightarrow> Inr (probe_inference_health base_url None (se_health env))
      | Inr url \<Rightarrow> Inr (probe_inference_health base_url (Some url) (se_health env)))"

definition cached_gpu_probe :: "status_env \<Rightarrow> string \<Rightarrow> probe_cache option \<Rightarrow> (unit + json) \<times> probe_cache option" where
  "cached_gpu_probe env base_url cache =
     (let fresh = (case probe_base env base_url of
                     Inl ex \<Rightarrow> (Inl ex, cache)
                   | Inr result \<Rightarrow> (Inr result, Some \<lparr>gp_ts = se_clock env, gp_base = base_url, gp_result = result\<rparr>))
      in case cache of
           Some c \<Rightarrow>
             if gp_base c = base_url \<and> se_clock env - gp_ts c < GPU_PROBE_TTL_SECONDS
             then (Inr (gp_result c), cache) else fresh
         | None \<Rightarrow> fresh)"

definition inference_status ::
    "status_env \<Rightarrow> control_plane_config \<Rightarrow> string \<Rightarrow> probe_cache option \<Rightarrow> (unit + response) \<times> probe_cache option" where
  "inference_status env config query cache =
     (let configured = opt_truthy (cf_inference_base_url config);
          body = [(''status'', JStr (if configured then ''configured'' else ''not_configured'')),
                  (''backend'', JStr ''vllm-openai-compatible''), (''internal_only'', JBool True)];
          rest = [(''progress'', JNull), (''eta_seconds'', JNull), (''updated_at'', JStr (isoformat (se_now env)))];
          want_probe = (case query_first ''probe'' query of None \<Rightarrow> False | Some v \<Rightarrow> v \<in> {''1'', ''true'', ''yes''})
      in if \<not> want_probe then (Inr (json_response (HTTP_OK, JObj body)), cache)
         else if \<not> configured
         then (Inr (json_response (HTTP_OK, JObj (body @
                 [(''state'', JStr ''unconfigured''), (''detail'', JStr ''inference URL not configured''),
                  (''model'', JNull)] @ rest))), cache)
         else
           (case cached_gpu_probe env (the (cf_inference_base_url config)) cache of
              (Inl ex, cache) \<Rightarrow> (Inl ex, cache)
            | (Inr probe, cache) \<Rightarrow>
                let d = (case probe of JObj d \<Rightarrow> d | _ \<Rightarrow> []) in
                (Inr (json_response (HTTP_OK, JObj (body @
                   [(''state'', dget_or d ''gpu'' (JStr ''unknown'')), (''detail'', dget d ''detail''),
                    (''model'', JStr (hd (model_list (se_float env) (se_loads env) config)))] @ rest))), cache)))"

definition model_row :: "string \<Rightarrow> string \<Rightarrow> json" where
  "model_row default_model m =
     JObj [(''id'', JStr m), (''label'', JStr m), (''source'', JStr ''config''),
           (''served'', JBool (m = default_model)), (''status'', JStr ''unknown''), (''detail'', JNull),
           (''progress'', JNull), (''removable'', JBool False), (''warmable'', JBool True)]"

definition models_reply :: "string list \<Rightarrow> bool \<Rightarrow> reply" where
  "models_reply models install_enabled =
     (let default_model = (if models = [] then ''default'' else hd models) in
      (HTTP_OK, JObj
         [(''models'', JArr (map JStr models)), (''default'', JStr default_model),
          (''items'', JArr (map (model_row default_model) models)),
          (''capabilities'', JObj
             [(''search'', JBool False), (''install'', JBool False), (''request_install'', JBool install_enabled),
              (''warm'', JBool False), (''remove'', JBool False), (''token_config'', JBool False),
              (''admin'', JBool False)]),
          (''phase'', JInt 0)]))"

definition build_response ::
    "status_env \<Rightarrow> control_plane_config \<Rightarrow> string \<Rightarrow> probe_cache option \<Rightarrow> (unit + response) \<times> probe_cache option" where
  "build_response env config raw_path cache =
     (let path = path_of raw_path in
      if path = ''/healthz''
      then (Inr (json_response (HTTP_OK, JObj
              [(''status'', JStr ''ok''), (''service'', JStr (cf_service_name config)),
               (''environment'', JStr (cf_environment config))])), cache)
      else if path = ''/readyz''
      then (let ready = is_ready config in
            (Inr (json_response (if ready then HTTP_OK else HTTP_UNAVAILABLE, JObj
               [(''status'', JStr (if ready then ''ready'' else ''not_ready'')),
                (''checks'', JObj (map (\<lambda>(k, v). (k, JBool v)) (readiness_checks config)))])), cache))
      else if path = ''/v1/inference/status'' then inference_status env config (params_of raw_path) cache
      else if path = ''/v1/models''
      then (Inr (json_response (models_reply (model_list (se_float env) (se_loads env) config)
                                   (cf_model_install_enabled config))), cache)
      else if path = METRICS_PATH
      then (Inr \<lparr>rs_status = HTTP_OK, rs_payload = JObj [], rs_headers = [(''Content-Type'', snd (se_metrics env))],
                 rs_raw = Some (fst (se_metrics env))\<rparr>, cache)
      else (Inr (json_response (HTTP_NOT_FOUND, JObj [(''error'', JStr ''not_found''), (''path'', JStr path)])), cache))"

section \<open>Metric labels\<close>

definition KNOWN_PATHS :: "string set" where
  "KNOWN_PATHS =
     {''/healthz'', ''/readyz'', ''/v1/inference/status'', ''/v1/chat/completions'', ''/v1/notifications'',
      ''/v1/retrieval/documents'', ''/v1/retrieval/query'', ''/v1/memory'', ''/v1/memory/recall'', ''/metrics''}"

definition sanitise_path :: "string \<Rightarrow> string" where
  "sanitise_path raw =
     (let path = path_of raw in
      if path \<in> KNOWN_PATHS then path
      else if starts_with ''/v1/memory/'' path then ''/v1/memory/{id}''
      else if starts_with ''/v1/notifications/'' path \<and> ends_with ''/read'' path then ''/v1/notifications/{id}/read''
      else ''/unknown'')"

section \<open>Writing a response\<close>

text \<open>\<^verbatim>\<open>json.dumps(payload, sort_keys=True)\<close>.\<close>

fun sort_keys :: "json \<Rightarrow> json" where
  "sort_keys (JArr xs) = JArr (map sort_keys xs)"
| "sort_keys (JObj d) = JObj (sort_key (\<lambda>(k, v). map ord_of k) (map (\<lambda>(k, v). (k, sort_keys v)) d))"
| "sort_keys v = v"

text \<open>The status, the headers in their order and the body that are sent.\<close>

definition write_json :: "(rat \<Rightarrow> string) \<Rightarrow> nat \<Rightarrow> json \<Rightarrow> (string \<times> string) list \<Rightarrow> nat \<times> (string \<times> string) list \<times> string" where
  "write_json fr status payload extra_headers =
     (let body = json_dumps fr (sort_keys payload) in
      (status,
       [(''Content-Type'', ''application/json''), (''Content-Length'', str_nat (length body))] @ extra_headers,
       body))"

definition write_raw :: "nat \<Rightarrow> string \<Rightarrow> (string \<times> string) list \<Rightarrow> nat \<times> (string \<times> string) list \<times> string" where
  "write_raw status body extra_headers =
     (let content_type = (case map_of extra_headers ''Content-Type'' of
                            None \<Rightarrow> ''text/plain; charset=utf-8'' | Some t \<Rightarrow> t) in
      (status, [(''Content-Type'', content_type), (''Content-Length'', str_nat (length body))], body))"

definition write_response :: "(rat \<Rightarrow> string) \<Rightarrow> response \<Rightarrow> nat \<times> (string \<times> string) list \<times> string" where
  "write_response fr r =
     (case rs_raw r of
        Some body \<Rightarrow> write_raw (rs_status r) body (rs_headers r)
      | None \<Rightarrow> write_json fr (rs_status r) (rs_payload r) (rs_headers r))"

section \<open>Lemmas\<close>

lemma ends_with_conv: "ends_with p s \<longleftrightarrow> (\<exists>t. s = t @ p)"
  unfolding ends_with_def starts_with_iff
  by (metis rev_append rev_rev_ident)

lemma after_prefix: "starts_with p s \<Longrightarrow> p @ drop (length p) s = s"
  by (auto simp: starts_with_iff)

lemma between_append: "between p b (p @ m @ b) = m"
  by (simp add: between_def)

lemma between_prefix:
  assumes "starts_with p s" and "ends_with b s" and "between p b s \<noteq> []"
  shows "p @ between p b s @ b = s"
proof -
  obtain t where t: "s = t @ b"
    using assms(2) unfolding ends_with_conv by blast
  then have m: "between p b s = drop (length p) t"
    by (simp add: between_def)
  obtain z where "t @ b = p @ z"
    using assms(1) unfolding t starts_with_iff by blast
  then have "t = p @ drop (length p) t"
    using assms(3) m by (metis append_eq_append_conv_if append_take_drop_id drop_eq_Nil)
  then show ?thesis
    using t m by (metis append.assoc)
qed

text \<open>The URL of each route, and when it has one.\<close>

fun get_url :: "get_route \<Rightarrow> string" where
  "get_url GNotificationsStream = NOTIFICATIONS_STREAM_PATH"
| "get_url GNotifications = NOTIFICATIONS_PATH"
| "get_url GMemory = MEMORY_PATH"
| "get_url GNotes = NOTES_PATH"
| "get_url GModelRequests = MODEL_REQUESTS_PATH"
| "get_url GInstallerPending = MODEL_INSTALLER_PENDING"
| "get_url GConversations = CONVERSATIONS_PATH"
| "get_url (GConversation i) = CONVERSATIONS_PATH @ ''/'' @ i"
| "get_url (GArtifactContent i) = MEDIA_ARTIFACTS_PREFIX @ i @ ''/content''"
| "get_url (GArtifact i) = MEDIA_ARTIFACTS_PREFIX @ i"
| "get_url GOther = []"

fun get_ok :: "get_route \<Rightarrow> bool" where
  "get_ok (GConversation i) = is_segment i"
| "get_ok (GArtifactContent i) = is_segment i"
| "get_ok (GArtifact i) = is_segment i"
| "get_ok GOther = False"
| "get_ok _ = True"

fun post_url :: "post_route \<Rightarrow> string" where
  "post_url PChatStream = CHAT_STREAM_PATH"
| "post_url PChat = CHAT_PATH"
| "post_url PNotifications = NOTIFICATIONS_PATH"
| "post_url PIndex = RETRIEVAL_DOCUMENTS_PATH"
| "post_url PUpload = RETRIEVAL_UPLOAD_PATH"
| "post_url PQuery = RETRIEVAL_QUERY_PATH"
| "post_url PRecall = MEMORY_RECALL_PATH"
| "post_url PMemory = MEMORY_PATH"
| "post_url PInvoke = AGENT_TOOLS_INVOKE_PATH"
| "post_url PRun = AGENT_RUNS_PATH"
| "post_url PResearch = AGENT_RESEARCH_PATH"
| "post_url PCompare = COMPARE_PATH"
| "post_url PEdit = DOCUMENT_EDIT_PATH"
| "post_url PNotes = NOTES_PATH"
| "post_url (PNote i) = NOTES_PATH @ ''/'' @ i"
| "post_url (PInstallerStatus i) = MODEL_INSTALLER_REQUESTS @ ''/'' @ i @ ''/status''"
| "post_url PModelRequests = MODEL_REQUESTS_PATH"
| "post_url PMcpList = MCP_LIST_PATH"
| "post_url PMcpInvoke = MCP_INVOKE_PATH"
| "post_url PIntegrationsList = INTEGRATIONS_LIST_PATH"
| "post_url PIntegrationsInvoke = INTEGRATIONS_INVOKE_PATH"
| "post_url PMediaList = MEDIA_LIST_PATH"
| "post_url PTranscribe = MEDIA_TRANSCRIBE_PATH"
| "post_url PGenerate = MEDIA_GENERATE_PATH"
| "post_url PSynthesize = MEDIA_SYNTHESIZE_PATH"
| "post_url PConversations = CONVERSATIONS_PATH"
| "post_url (PAppend i) = CONVERSATIONS_PATH @ ''/'' @ i @ ''/messages''"
| "post_url (PRead i) = NOTIFICATIONS_PATH @ ''/'' @ i @ ''/read''"
| "post_url PNotFound = []"

fun post_ok :: "post_route \<Rightarrow> bool" where
  "post_ok (PNote i) = is_segment i"
| "post_ok (PInstallerStatus i) = is_segment i"
| "post_ok (PAppend i) = is_segment i"
| "post_ok (PRead i) = (i \<noteq> [])"
| "post_ok PNotFound = False"
| "post_ok _ = True"

fun delete_url :: "delete_route \<Rightarrow> string" where
  "delete_url (DMemory i) = MEMORY_PATH @ ''/'' @ i"
| "delete_url (DNote i) = NOTES_PATH @ ''/'' @ i"
| "delete_url (DConversation i) = CONVERSATIONS_PATH @ ''/'' @ i"
| "delete_url DNotFound = []"

fun delete_ok :: "delete_route \<Rightarrow> bool" where
  "delete_ok (DMemory i) = is_segment i"
| "delete_ok (DNote i) = is_segment i"
| "delete_ok (DConversation i) = is_segment i"
| "delete_ok DNotFound = False"

lemma segment_ne: "is_segment s \<Longrightarrow> s \<noteq> []"
  by (simp add: is_segment_def)

lemma after_slash: "starts_with (p @ ''/'') s \<Longrightarrow> p @ CHR ''/'' # drop (Suc (length p)) s = s"
  using after_prefix [of "p @ ''/''" s] by simp

lemma between_slash:
  assumes "starts_with (p @ ''/'') s" and "ends_with b s" and "between (p @ ''/'') b s \<noteq> []"
  shows "p @ CHR ''/'' # between (p @ ''/'') b s @ b = s"
  using between_prefix [OF assms] by simp

lemmas segment_facts = after_slash after_prefix between_slash between_prefix segment_ne

lemma if_either: "(c \<Longrightarrow> Q x) \<Longrightarrow> Q y \<Longrightarrow> Q (if c then x else y)"
  by simp

lemma route_get_sound:
  "route_get path \<noteq> GOther \<longrightarrow> get_ok (route_get path) \<and> get_url (route_get path) = path"
  unfolding route_get_def
  by (intro if_either [where Q = "\<lambda>r. r \<noteq> GOther \<longrightarrow> get_ok r \<and> get_url r = path"]) (simp_all add: segment_facts)

lemma route_post_sound:
  "route_post path \<noteq> PNotFound \<longrightarrow> post_ok (route_post path) \<and> post_url (route_post path) = path"
  unfolding route_post_def
  by (intro if_either [where Q = "\<lambda>r. r \<noteq> PNotFound \<longrightarrow> post_ok r \<and> post_url r = path"]) (simp_all add: segment_facts)

lemma route_delete_sound:
  "route_delete path \<noteq> DNotFound \<longrightarrow> delete_ok (route_delete path) \<and> delete_url (route_delete path) = path"
  unfolding route_delete_def
  by (intro if_either [where Q = "\<lambda>r. r \<noteq> DNotFound \<longrightarrow> delete_ok r \<and> delete_url r = path"]) (simp_all add: segment_facts)


lemma segment_head: "is_segment i \<Longrightarrow> \<exists>c cs. i = c # cs \<and> c \<noteq> CHR ''/'' \<and> CHR ''/'' \<notin> set cs"
  by (cases i) (auto simp: is_segment_def)

lemma ends_with_append: "ends_with b (p @ b)"
  by (auto simp: ends_with_conv)

lemma ends_with_Cons: "ends_with b (c # s) \<longleftrightarrow> b = c # s \<or> ends_with b s"
  unfolding ends_with_conv by (metis append_Cons append_Nil neq_Nil_conv list.inject)

text \<open>A segment has no suffix that begins with a slash, so nothing stands before one.\<close>

lemma between_segment:
  assumes "is_segment i" and "ends_with (CHR ''/'' # b) (p @ i)"
  shows "between p (CHR ''/'' # b) (p @ i) = []"
proof (rule ccontr)
  assume "between p (CHR ''/'' # b) (p @ i) \<noteq> []"
  then have "p @ between p (CHR ''/'' # b) (p @ i) @ CHR ''/'' # b = p @ i"
    using between_prefix [OF starts_with_append assms(2)] by blast
  then have "CHR ''/'' \<in> set i"
    by (metis append_same_eq in_set_conv_decomp same_append_eq)
  then show False
    using assms(1) by (simp add: is_segment_def)
qed

lemma route_get_complete: "get_ok r \<Longrightarrow> route_get (get_url r) = r"
proof (cases r)
  case (GConversation i)
  assume "get_ok r"
  with GConversation show ?thesis
    by (auto simp: route_get_def path_defs dest!: segment_head)
next
  case (GArtifactContent i)
  assume "get_ok r"
  moreover have "\<not> starts_with (CONVERSATIONS_PATH @ ''/'') (MEDIA_ARTIFACTS_PREFIX @ i @ ''/content'')"
    by (simp add: path_defs)
  moreover have "MEDIA_ARTIFACTS_PREFIX @ i @ ''/content'' \<noteq> q"
    if "q \<in> {NOTIFICATIONS_STREAM_PATH, NOTIFICATIONS_PATH, MEMORY_PATH, NOTES_PATH, MODEL_REQUESTS_PATH,
             MODEL_INSTALLER_PENDING, CONVERSATIONS_PATH}" for q
    using that by (auto simp: path_defs)
  ultimately show ?thesis
    using GArtifactContent ends_with_append [of "''/content''" "MEDIA_ARTIFACTS_PREFIX @ i"]
    by (simp add: route_get_def between_append)
next
  case (GArtifact i)
  assume "get_ok r"
  moreover have "\<not> starts_with (CONVERSATIONS_PATH @ ''/'') (MEDIA_ARTIFACTS_PREFIX @ i)"
    by (simp add: path_defs)
  moreover have "MEDIA_ARTIFACTS_PREFIX @ i \<noteq> q"
    if "q \<in> {NOTIFICATIONS_STREAM_PATH, NOTIFICATIONS_PATH, MEMORY_PATH, NOTES_PATH, MODEL_REQUESTS_PATH,
             MODEL_INSTALLER_PENDING, CONVERSATIONS_PATH}" for q
    using that by (auto simp: path_defs)
  moreover have "\<not> is_segment []"
    by (simp add: is_segment_def)
  ultimately show ?thesis
    using GArtifact between_segment [of i "''content''" MEDIA_ARTIFACTS_PREFIX]
    by (auto simp: route_get_def)
qed (simp_all add: route_get_def path_defs)

lemma route_delete_complete: "delete_ok r \<Longrightarrow> route_delete (delete_url r) = r"
  by (cases r) (auto simp: route_delete_def path_defs dest!: segment_head)

text \<open>The paths that \<^verbatim>\<open>do_POST\<close> compares with.\<close>

definition exact_paths :: "string set" where
  "exact_paths =
     {CHAT_STREAM_PATH, CHAT_PATH, NOTIFICATIONS_PATH, RETRIEVAL_DOCUMENTS_PATH, RETRIEVAL_UPLOAD_PATH,
      RETRIEVAL_QUERY_PATH, MEMORY_RECALL_PATH, MEMORY_PATH, AGENT_TOOLS_INVOKE_PATH, AGENT_RUNS_PATH,
      AGENT_RESEARCH_PATH, COMPARE_PATH, DOCUMENT_EDIT_PATH, NOTES_PATH, MODEL_REQUESTS_PATH, MCP_LIST_PATH,
      MCP_INVOKE_PATH, INTEGRATIONS_LIST_PATH, INTEGRATIONS_INVOKE_PATH, MEDIA_LIST_PATH, MEDIA_TRANSCRIBE_PATH,
      MEDIA_GENERATE_PATH, MEDIA_SYNTHESIZE_PATH, CONVERSATIONS_PATH}"

lemma route_post_complete: "post_ok r \<Longrightarrow> route_post (post_url r) = r"
proof (cases r)
  case (PNote i)
  assume "post_ok r"
  with PNote show ?thesis
    by (auto simp: route_post_def path_defs dest!: segment_head)
next
  case (PInstallerStatus i)
  let ?u = "MODEL_INSTALLER_REQUESTS @ ''/'' @ i @ ''/status''"
  assume "post_ok r"
  moreover have "starts_with (MODEL_INSTALLER_REQUESTS @ ''/'') ?u" "ends_with ''/status'' ?u"
      "between (MODEL_INSTALLER_REQUESTS @ ''/'') ''/status'' ?u = i"
    using starts_with_append [of "MODEL_INSTALLER_REQUESTS @ ''/''" "i @ ''/status''"] ends_with_append [of "''/status''" "MODEL_INSTALLER_REQUESTS @ ''/'' @ i"]
      between_append [of "MODEL_INSTALLER_REQUESTS @ ''/''" "''/status''" i]
    by simp_all
  moreover have "?u \<noteq> q" if "q \<in> exact_paths" for q
    using that unfolding exact_paths_def path_defs by auto
  moreover have "\<not> starts_with (NOTES_PATH @ ''/'') ?u"
    by (simp_all add: path_defs)
  ultimately show ?thesis
    using PInstallerStatus by (simp add: route_post_def exact_paths_def)
next
  case (PAppend i)
  let ?u = "CONVERSATIONS_PATH @ ''/'' @ i @ ''/messages''"
  assume "post_ok r"
  moreover have "starts_with (CONVERSATIONS_PATH @ ''/'') ?u" "ends_with ''/messages'' ?u"
      "between (CONVERSATIONS_PATH @ ''/'') ''/messages'' ?u = i"
    using starts_with_append [of "CONVERSATIONS_PATH @ ''/''" "i @ ''/messages''"] ends_with_append [of "''/messages''" "CONVERSATIONS_PATH @ ''/'' @ i"]
      between_append [of "CONVERSATIONS_PATH @ ''/''" "''/messages''" i]
    by simp_all
  moreover have "?u \<noteq> q" if "q \<in> exact_paths" for q
    using that unfolding exact_paths_def path_defs by auto
  moreover have "\<not> starts_with (NOTES_PATH @ ''/'') ?u" "\<not> starts_with (MODEL_INSTALLER_REQUESTS @ ''/'') ?u"
    by (simp_all add: path_defs)
  ultimately show ?thesis
    using PAppend by (simp add: route_post_def exact_paths_def)
next
  case (PRead i)
  let ?u = "NOTIFICATIONS_PATH @ ''/'' @ i @ ''/read''"
  assume "post_ok r"
  moreover have "starts_with (NOTIFICATIONS_PATH @ ''/'') ?u" "ends_with ''/read'' ?u"
      "between (NOTIFICATIONS_PATH @ ''/'') ''/read'' ?u = i"
    using starts_with_append [of "NOTIFICATIONS_PATH @ ''/''" "i @ ''/read''"] ends_with_append [of "''/read''" "NOTIFICATIONS_PATH @ ''/'' @ i"]
      between_append [of "NOTIFICATIONS_PATH @ ''/''" "''/read''" i]
    by simp_all
  moreover have "?u \<noteq> q" if "q \<in> exact_paths" for q
    using that unfolding exact_paths_def path_defs by auto
  moreover have "\<not> starts_with (NOTES_PATH @ ''/'') ?u" "\<not> starts_with (MODEL_INSTALLER_REQUESTS @ ''/'') ?u" "\<not> starts_with (CONVERSATIONS_PATH @ ''/'') ?u"
    by (simp_all add: path_defs)
  ultimately show ?thesis
    using PRead by (simp add: route_post_def exact_paths_def)
qed (simp_all add: route_post_def path_defs)

text \<open>C20: Routing is exact.  Apart from the fallbacks, a request reaches a handler if and only if its path is
  that handler's documented URL, with an identifier that is not empty and, except for a notification's, has no
  slash: no URL is shadowed by another, and no other path reaches a handler.\<close>

theorem routes_exact:
  "(route_get path = g \<and> g \<noteq> GOther) = (get_ok g \<and> get_url g = path) \<and>
   (route_post path = p \<and> p \<noteq> PNotFound) = (post_ok p \<and> post_url p = path) \<and>
   (route_delete path = d \<and> d \<noteq> DNotFound) = (delete_ok d \<and> delete_url d = path)"
  using route_get_sound [of path] route_post_sound [of path] route_delete_sound [of path]
    route_get_complete [of g] route_post_complete [of p] route_delete_complete [of d]
  by (auto elim: get_ok.elims post_ok.elims delete_ok.elims)

text \<open>The target of a request for one of the server's paths parses, so that its query is found.\<close>

lemma url_query_path: "urlsplit (CHR ''/'' # CHR ''v'' # r) \<noteq> None"
proof -
  let ?w = "CHR ''/'' # CHR ''v'' # filter (\<lambda>c. \<not> unsafe_url_char c) r"
  have f: "filter (\<lambda>c. \<not> unsafe_url_char c) (dropWhile is_c0_or_space (CHR ''/'' # CHR ''v'' # r)) = ?w"
    by (simp add: is_c0_or_space_def unsafe_url_char_def ord_of_def)
  have sc: "split_scheme ?w = ([], ?w)"
    by (auto simp: split_scheme_def split_char1_def is_alpha_def ord_of_def split: list.split)
  have "\<not> starts_with ''//'' ?w"
    by simp
  then show ?thesis
    unfolding urlsplit_def f Let_def sc prod.case if_not_P [OF \<open>\<not> starts_with ''//'' ?w\<close>]
    by (auto simp: netloc_ok_def split: prod.split)
qed

end
