(* ===== verification/Server.thy ===== *)
theory Server
  imports Routes Notes Notifications Conversations Memory Retrieval ModelRequests AgentLoop Integrations Mcp
    Documents Compare Research Media
begin

text \<open>
  The server as a whole (app/control_plane/server.py, \<^verbatim>\<open>ControlPlaneHandler\<close>): its wiring, the state that
  its handlers share, the three verbs with every route wired to its handler, and the frame around them
  (\<^verbatim>\<open>_instrument\<close>).  The agent tools' limiter is shared by tools, runs, research and MCP; the tenant switch by
  integrations and media; the audit log and the notification store by all.
\<close>

section \<open>Wiring and state\<close>

record ('nf, 'nt, 'cv, 'mm, 'rt, 'mq, 'ts, 'o) server =
  sv_config :: control_plane_config
  sv_verifier :: "verifier option"
  sv_notifications :: "'nf notif_store"
  sv_notes :: "'nt notes_store"
  sv_conversations :: "'cv conv_store"
  sv_memory :: "'mm memory_store"
  sv_retrieval :: "'rt retrieval_store"
  sv_models :: "'mq model_request_store"
  sv_tenants :: "'ts tenant_state"
  sv_embed :: embedder
  sv_tools_enabled :: bool
  sv_tools_allowlist :: allowlist
  sv_exec :: executor
  sv_job :: "job_executor option"
  sv_loop_budgets :: agent_loop_budgets
  sv_agent_model :: "chat_client option"
  sv_research_budgets :: research_budgets
  sv_web :: "web_env option"
  sv_mcp_enabled :: bool
  sv_mcp_allowlist :: allowlist
  sv_mcp :: mcp_env
  sv_ix_enabled :: bool
  sv_ix_allowlist :: allowlist
  sv_ix :: ix_env
  sv_media_enabled :: bool
  sv_media_allowlist :: allowlist
  sv_media :: "'o media_env"
  sv_media_max_audio_bytes :: int
  sv_media_max_prompt_chars :: int
  sv_inference :: "string \<Rightarrow> chat_client"
  sv_open_stream :: "string \<Rightarrow> chat_request list \<Rightarrow> chat_request \<Rightarrow> infer_exn + string list"
  sv_stream_seconds :: rat
  sv_status :: status_env
  sv_indent2 :: "json \<Rightarrow> string"

text \<open>What the handlers share and change.\<close>

record ('nf, 'nt, 'cv, 'mm, 'rt, 'mq, 'ts, 'o) server_state =
  st_notifs :: 'nf
  st_notes :: 'nt
  st_convs :: 'cv
  st_memories :: 'mm
  st_corpus :: 'rt
  st_models :: 'mq
  st_switch :: 'ts
  st_objects :: 'o
  st_tools_limiter :: rate_limiter
  st_compare_limiter :: rate_limiter
  st_documents_limiter :: rate_limiter
  st_chat_limiter :: rate_limiter
  st_install_limiter :: rate_limiter
  st_ix_limiter :: rate_limiter
  st_media_limiter :: rate_limiter
  st_audit :: "audit_entry list"
  st_spawned :: spawn_log
  st_servers :: "spawn list"
  st_ix :: ix_state
  st_posts :: "media_post list"
  st_asked :: "chat_request list"
  st_chats :: "chat_request list"
  st_searches :: "connection list"
  st_probe :: "probe_cache option"

text \<open>A request as the server sees it: the target, the headers it reads, the bytes on the wire.\<close>

record http_request =
  rq_path :: string
  rq_authorization :: "string option"
  rq_content_length :: "string option"
  rq_content_type :: "string option"
  rq_input :: string

text \<open>What a request draws of clocks and identifiers.\<close>

record draws =
  dr_now :: datetime
  dr_secs :: int
  dr_mono :: rat
  dr_latency :: int
  dr_elapsed :: "int \<Rightarrow> rat"
  dr_uid :: string
  dr_uids :: "nat \<Rightarrow> string"
  dr_nuid :: "string \<Rightarrow> string"
  dr_alive :: "nat \<Rightarrow> bool"
  dr_clock :: "nat \<Rightarrow> rat"

section \<open>The parts of the state each handler keeps\<close>

definition agent_part where
  "agent_part st = \<lparr>ag_limiter = st_tools_limiter st, ag_audit = st_audit st, ag_notifs = st_notifs st,
                    ag_spawned = st_spawned st\<rparr>"

definition put_agent where
  "put_agent a st = st\<lparr>st_tools_limiter := ag_limiter a, st_audit := ag_audit a, st_notifs := ag_notifs a,
                       st_spawned := ag_spawned a\<rparr>"

definition research_part where
  "research_part st = \<lparr>rs_agent = agent_part st, rs_sent = st_asked st, rs_conns = st_searches st\<rparr>"

definition put_research where
  "put_research r st = (put_agent (rs_agent r) st)\<lparr>st_asked := rs_sent r, st_searches := rs_conns r\<rparr>"

definition mcp_part where
  "mcp_part st = \<lparr>mc_limiter = st_tools_limiter st, mc_audit = st_audit st, mc_notifs = st_notifs st,
                  mc_spawned = st_servers st\<rparr>"

definition put_mcp where
  "put_mcp m st = st\<lparr>st_tools_limiter := mc_limiter m, st_audit := mc_audit m, st_notifs := mc_notifs m,
                     st_servers := mc_spawned m\<rparr>"

definition hub_part where
  "hub_part st = \<lparr>hb_limiter = st_ix_limiter st, hb_audit = st_audit st, hb_notifs = st_notifs st, hb_ix = st_ix st\<rparr>"

definition put_hub where
  "put_hub h st = st\<lparr>st_ix_limiter := hb_limiter h, st_audit := hb_audit h, st_notifs := hb_notifs h, st_ix := hb_ix h\<rparr>"

definition media_part where
  "media_part st = \<lparr>md_limiter = st_media_limiter st, md_audit = st_audit st, md_notifs = st_notifs st,
                    md_posts = st_posts st, md_objects = st_objects st\<rparr>"

definition put_media where
  "put_media m st = st\<lparr>st_media_limiter := md_limiter m, st_audit := md_audit m, st_notifs := md_notifs m,
                       st_posts := md_posts m, st_objects := md_objects m\<rparr>"

definition compare_part where
  "compare_part st = \<lparr>as_limiter = st_compare_limiter st, as_audit = st_audit st, as_sent = st_asked st\<rparr>"

definition put_compare where
  "put_compare a st = st\<lparr>st_compare_limiter := as_limiter a, st_audit := as_audit a, st_asked := as_sent a\<rparr>"

definition documents_part where
  "documents_part st = \<lparr>as_limiter = st_documents_limiter st, as_audit = st_audit st, as_sent = st_asked st\<rparr>"

definition put_documents where
  "put_documents a st = st\<lparr>st_documents_limiter := as_limiter a, st_audit := as_audit a, st_asked := as_sent a\<rparr>"

definition models_part where
  "models_part st = \<lparr>mst_store = st_models st, mst_limiter = Some (st_install_limiter st), mst_notifs = st_notifs st\<rparr>"

definition put_models where
  "put_models m st = st\<lparr>st_models := mst_store m, st_install_limiter := the (mst_limiter m), st_notifs := mst_notifs m\<rparr>"

lemmas part_defs = agent_part_def put_agent_def research_part_def put_research_def mcp_part_def put_mcp_def
  hub_part_def put_hub_def media_part_def put_media_def compare_part_def put_compare_def documents_part_def
  put_documents_def models_part_def put_models_def

section \<open>Environments built from the wiring\<close>

abbreviation notifier where "notifier sv \<equiv> Some (sv_notifications sv)"

definition model_config_of :: "control_plane_config \<Rightarrow> model_config" where
  "model_config_of c =
     \<lparr>mc_enabled = cf_model_install_enabled c, mc_allow_all_users = cf_model_install_allow_all_users c,
      mc_group = cf_model_install_group c, mc_admin_group = as_admin_group (cf_auth c),
      mc_allowlist = cf_model_install_allowlist c, mc_max_open = cf_model_install_max_open_per_tenant c,
      mc_installer_token = cf_model_installer_token c\<rparr>"

text \<open>The agent loop's and the research agent's environments; a request of theirs reads the corpus as it is.\<close>

definition loop_env_of where
  "loop_env_of sv dr asked =
     \<lparr>le_budgets = sv_loop_budgets sv, le_allowlist = sv_tools_allowlist sv, le_exec = sv_exec sv, le_job = sv_job sv,
      le_chat = (\<lambda>request. case the (sv_agent_model sv) asked request of Inl _ \<Rightarrow> None | Inr resp \<Rightarrow> Some resp),
      le_elapsed = dr_elapsed dr, le_loads = se_loads (sv_status sv), le_float = se_float (sv_status sv),
      le_indent2 = sv_indent2 sv, le_notif_store = notifier sv, le_now = dr_now dr, le_run_id = dr_uid dr,
      le_job_run_id = (\<lambda>k. dr_uids dr (nat k)), le_nuid = dr_nuid dr\<rparr>"

definition research_env_of where
  "research_env_of sv dr corpus =
     \<lparr>re_store = sv_retrieval sv, re_corpus = corpus, re_embed = sv_embed sv, re_chat = the (sv_agent_model sv),
      re_loads = se_loads (sv_status sv), re_budgets = sv_research_budgets sv, re_web = sv_web sv,
      re_elapsed = (\<lambda>k. dr_elapsed dr (int k)), re_notif_store = notifier sv, re_now = dr_now dr,
      re_run_id = dr_uid dr, re_nuid = dr_nuid dr\<rparr>"

definition media_wiring_of where
  "media_wiring_of sv dr switch =
     \<lparr>mw_enabled = sv_media_enabled sv, mw_allowlist = sv_media_allowlist sv, mw_tenant_state = sv_tenants sv,
      mw_switch = switch, mw_notif_store = notifier sv, mw_secs = dr_secs dr, mw_now = dr_now dr,
      mw_latency = dr_latency dr, mw_uid = dr_uid dr, mw_nuid = dr_nuid dr []\<rparr>"

text \<open>\<^verbatim>\<open>storage_client.put_object\<close> of the uploaded bytes; \<^term>\<open>None\<close> is no client, or an exception of its.\<close>

definition upload_put where
  "upload_put sv bytes =
     map_option (\<lambda>(boto, client) key (_ :: raw_body) content_type objects.
         case s3_put_object boto client key bytes content_type objects of Inl _ \<Rightarrow> None | Inr o' \<Rightarrow> Some o')
       (me_storage (sv_media sv))"

definition raw_body_of :: "string \<Rightarrow> raw_body" where
  "raw_body_of bytes = \<lparr>rb_len = length bytes, rb_text = utf8_decode bytes\<rparr>"

section \<open>Results of a handler\<close>

text \<open>\<open>Inl\<close>: an exception leaves the handler.\<close>

definition replied :: "reply \<Rightarrow> unit + response" where
  "replied r = Inr (json_response r)"

definition tried :: "'e + reply \<Rightarrow> unit + response" where
  "tried r = (case r of Inl _ \<Rightarrow> Inl () | Inr reply \<Rightarrow> Inr (json_response reply))"

section \<open>GET\<close>

text \<open>What a request is answered with: a response, the lines or frames of an event stream, or nothing, where
  an exception leaves a part of the handler that no frame catches.\<close>

datatype served = Sent response | Lines "string list" | Frames "frame list" | Dropped

text \<open>\<open>ticks\<close> are the notification stores that the stream's ticks see; the frames end with the caller's connection.\<close>

definition NOTIF_STREAM_MAX_TICKS :: nat where "NOTIF_STREAM_MAX_TICKS = 60"

definition handle_notifications_stream where
  "handle_notifications_stream sv alive authorization ticks =
     (case verify_and_extract authorization (sv_verifier sv) of
        Inl err \<Rightarrow> Sent (json_response err)
      | Inr claims \<Rightarrow>
          let frames = stream_notification_frames (sv_notifications sv) (owner_of claims) 50 []
                         (take NOTIF_STREAM_MAX_TICKS ticks)
          in Frames (take (length (takeWhile alive [0..<length frames])) frames))"

definition internal_error :: response where
  "internal_error = json_response (HTTP_SERVER_ERROR, err_only ''internal_error'')"

text \<open>\<^verbatim>\<open>_instrument\<close>: an exception of the handler it wraps is answered with 500.\<close>

definition instrument :: "unit + response \<Rightarrow> served" where
  "instrument r = Sent (case r of Inl _ \<Rightarrow> internal_error | Inr response \<Rightarrow> response)"

definition do_GET where
  "do_GET sv dr ticks rq st =
     (let authorization = rq_authorization rq; tv = sv_verifier sv; path = path_of (rq_path rq);
          answer = (\<lambda>r. (instrument (replied r), st))
      in case route_get path of
           GNotificationsStream \<Rightarrow> (handle_notifications_stream sv (dr_alive dr) authorization ticks, st)
         | GNotifications \<Rightarrow>
             answer (build_notifications_list_response (sv_notifications sv) authorization tv
                       (contains ''include_read=true'' (params_of (rq_path rq))) 50 (st_notifs st))
         | GMemory \<Rightarrow> answer (build_memory_list_response (sv_memory sv) authorization tv 50 (st_memories st))
         | GNotes \<Rightarrow>
             answer (build_notes_list_response (sv_notes sv) authorization tv
                       (query_first ''kind'' (url_query (rq_path rq))) 100 (st_notes st))
         | GModelRequests \<Rightarrow>
             answer (build_model_requests_list_response (sv_models sv) (model_config_of (sv_config sv))
                       authorization tv 100 (st_models st))
         | GInstallerPending \<Rightarrow>
             answer (build_reconciler_pending_response (sv_models sv) (model_config_of (sv_config sv))
                       authorization (st_models st))
         | GConversations \<Rightarrow>
             answer (build_conversations_list_response (sv_conversations sv) authorization tv 100 (st_convs st))
         | GConversation cid \<Rightarrow>
             answer (build_conversation_get_response (sv_conversations sv) authorization cid tv (st_convs st))
         | GArtifactContent aid \<Rightarrow>
             (case build_media_artifact_content (sv_media sv) authorization aid tv (st_objects st) of
                (status, ctype, raw) \<Rightarrow>
                  (Sent \<lparr>rs_status = status, rs_payload = JObj [], rs_headers = [(''Content-Type'', ctype)],
                         rs_raw = Some raw\<rparr>, st))
         | GArtifact aid \<Rightarrow>
             answer (build_media_artifact_response (sv_media sv) authorization aid tv (st_objects st))
         | GOther \<Rightarrow>
             (let env = (sv_status sv)\<lparr>se_now := dr_now dr, se_clock := dr_mono dr\<rparr>;
                  (r, cache) = build_response env (sv_config sv) (rq_path rq) (st_probe st)
              in (instrument r, st\<lparr>st_probe := cache\<rparr>)))"

section \<open>POST\<close>

text \<open>\<open>body\<close> is what was read, \<open>json\<close> what \<^verbatim>\<open>json.loads\<close> makes of it.\<close>

definition post_chat where
  "post_chat sv dr authorization json st =
     (case build_chat_response (sv_inference sv) (cf_inference_base_url (sv_config sv)) (dr_secs dr) authorization json
             (sv_verifier sv) \<lparr>ct_limiter = Some (st_chat_limiter st), ct_sent = st_chats st\<rparr> of
        (r, ct) \<Rightarrow>
          (case r of Inl _ \<Rightarrow> Inl () | Inr response \<Rightarrow> Inr response,
           st\<lparr>st_chat_limiter := the (ct_limiter ct), st_chats := ct_sent ct\<rparr>))"

definition post_content where
  "post_content sv dr route rq body json st =
     (let authorization = rq_authorization rq; tv = sv_verifier sv; now = dr_now dr in
      case route of
        PNotifications \<Rightarrow>
          (case build_notification_publish_response (sv_notifications sv) now (dr_uid dr) authorization json tv
                  (st_notifs st) of (r, s) \<Rightarrow> (tried r, st\<lparr>st_notifs := s\<rparr>))
      | PIndex \<Rightarrow>
          (case build_index_document_response (sv_retrieval sv) (notifier sv) (sv_embed sv) now (dr_uid dr)
                  (dr_uids dr) (dr_nuid dr []) authorization json tv (st_corpus st, st_notifs st) of
             (r, s, n) \<Rightarrow> (replied r, st\<lparr>st_corpus := s, st_notifs := n\<rparr>))
      | PUpload \<Rightarrow>
          (case build_retrieval_upload_response (sv_retrieval sv) (notifier sv) (sv_embed sv) (upload_put sv body)
                  (cf_retrieval_max_upload_bytes (sv_config sv)) now (dr_uid dr) (dr_uids dr) (dr_nuid dr [])
                  (dr_nuid dr ''upload'') authorization (query_first ''filename'' (url_query (rq_path rq)))
                  (rq_content_type rq) (raw_body_of body) tv ((st_corpus st, st_notifs st), st_objects st) of
             (r, (s, n), ob) \<Rightarrow> (replied r, st\<lparr>st_corpus := s, st_notifs := n, st_objects := ob\<rparr>))
      | PQuery \<Rightarrow>
          (tried (build_retrieval_query_response (sv_retrieval sv) (sv_embed sv) authorization json tv (st_corpus st)), st)
      | PRecall \<Rightarrow>
          (tried (build_memory_recall_response (sv_memory sv) (sv_embed sv) authorization json tv (st_memories st)), st)
      | PMemory \<Rightarrow>
          (case build_memory_record_response (sv_memory sv) (sv_embed sv) now (dr_uid dr) authorization json tv
                  (st_memories st) of (r, s) \<Rightarrow> (tried r, st\<lparr>st_memories := s\<rparr>))
      | _ \<Rightarrow> (Inl (), st))"

definition post_notes where
  "post_notes sv dr route rq json st =
     (let authorization = rq_authorization rq; tv = sv_verifier sv; now = dr_now dr in
      case route of
        PNotes \<Rightarrow>
          (case build_note_create_response (sv_notes sv) now (dr_uid dr) authorization json tv (st_notes st) of
             (r, s) \<Rightarrow> (replied r, st\<lparr>st_notes := s\<rparr>))
      | PNote note_id \<Rightarrow>
          (case build_note_update_response (sv_notes sv) now authorization note_id json tv (st_notes st) of
             (r, s) \<Rightarrow> (replied r, st\<lparr>st_notes := s\<rparr>))
      | _ \<Rightarrow> (Inl (), st))"

definition post_threads where
  "post_threads sv dr route rq json st =
     (let authorization = rq_authorization rq; tv = sv_verifier sv; now = dr_now dr in
      case route of
        PConversations \<Rightarrow>
          (case build_conversation_create_response (sv_conversations sv) now (dr_uid dr) authorization json tv
                  (st_convs st) of (r, s) \<Rightarrow> (replied r, st\<lparr>st_convs := s\<rparr>))
      | PAppend cid \<Rightarrow>
          (case build_conversation_append_response (sv_conversations sv) now (dr_uid dr) authorization cid json tv
                  (st_convs st) of (r, s) \<Rightarrow> (tried r, st\<lparr>st_convs := s\<rparr>))
      | PRead notification_id \<Rightarrow>
          (case build_notification_read_response (sv_notifications sv) now authorization notification_id tv
                  (st_notifs st) of (r, s) \<Rightarrow> (replied r, st\<lparr>st_notifs := s\<rparr>))
      | _ \<Rightarrow> (Inl (), st))"

definition post_agent where
  "post_agent sv dr route rq json st =
     (let authorization = rq_authorization rq; tv = sv_verifier sv; available = (sv_agent_model sv \<noteq> None);
          fr = se_float (sv_status sv)
      in case route of
        PInvoke \<Rightarrow>
          (case build_tool_invoke_response fr (notifier sv) (sv_tools_enabled sv) (sv_tools_allowlist sv) (sv_exec sv)
                  (sv_job sv) (dr_now dr) (dr_secs dr) (dr_latency dr) (dr_uid dr) (dr_nuid dr []) authorization json tv
                  (agent_part st) of (r, a) \<Rightarrow> (replied r, put_agent a st))
      | PRun \<Rightarrow>
          (case build_agent_run_response (sv_tools_enabled sv) available (loop_env_of sv dr (st_asked st)) (dr_secs dr)
                  authorization json tv (agent_part st) of (r, a) \<Rightarrow> (tried r, put_agent a st))
      | PResearch \<Rightarrow>
          (case build_deep_research_response (sv_tools_enabled sv) available (sv_tools_allowlist sv)
                  (research_env_of sv dr (st_corpus st)) (dr_secs dr) authorization json tv (research_part st) of
             (r, a) \<Rightarrow> (replied r, put_research a st))
      | PCompare \<Rightarrow>
          (case build_compare_response fr (cf_compare_enabled (sv_config sv)) (sv_agent_model sv) CMP_MAX_PROMPT_CHARS
                  (map JStr (model_list fr (se_loads (sv_status sv)) (sv_config sv))) (dr_secs dr) (dr_latency dr)
                  authorization json tv (compare_part st) of (r, a) \<Rightarrow> (tried r, put_compare a st))
      | PEdit \<Rightarrow>
          (case build_document_edit_response fr (cf_documents_enabled (sv_config sv)) (sv_agent_model sv)
                  DOC_MAX_CONTENT_CHARS (dr_secs dr) (dr_latency dr) authorization json tv (documents_part st) of
             (r, a) \<Rightarrow> (replied r, put_documents a st))
      | _ \<Rightarrow> (Inl (), st))"

definition post_services where
  "post_services sv dr route rq body json st =
     (let authorization = rq_authorization rq; tv = sv_verifier sv; fr = se_float (sv_status sv);
          w = media_wiring_of sv dr (st_switch st); media_text = nat (sv_media_max_prompt_chars sv)
      in case route of
        PMcpList \<Rightarrow>
          (case build_mcp_list_response (sv_mcp_enabled sv) (sv_mcp_allowlist sv) (sv_mcp sv) authorization json tv
                  (mcp_part st) of (r, m) \<Rightarrow> (tried r, put_mcp m st))
      | PMcpInvoke \<Rightarrow>
          (case build_mcp_invoke_response fr (notifier sv) (sv_mcp_enabled sv) (sv_mcp_allowlist sv) (sv_mcp sv)
                  (dr_now dr) (dr_secs dr) (dr_latency dr) (dr_nuid dr []) authorization json tv (mcp_part st) of
             (r, m) \<Rightarrow> (tried r, put_mcp m st))
      | PIntegrationsList \<Rightarrow>
          (replied (build_integrations_list_response (sv_ix_enabled sv) (sv_ix_allowlist sv) (sv_ix sv) authorization tv), st)
      | PIntegrationsInvoke \<Rightarrow>
          (case build_integrations_invoke_response fr (notifier sv) (sv_ix_enabled sv) (sv_ix_allowlist sv)
                  (sv_tenants sv) (st_switch st) (sv_ix sv) (dr_mono dr) (dr_now dr) (dr_secs dr) (dr_latency dr)
                  (dr_nuid dr []) authorization json tv (hub_part st) of (r, h) \<Rightarrow> (tried r, put_hub h st))
      | PMediaList \<Rightarrow>
          (replied (build_media_list_response (sv_media sv) (sv_media_enabled sv) (sv_media_allowlist sv) authorization tv), st)
      | PTranscribe \<Rightarrow>
          (case build_media_transcribe_response (sv_media sv) w (nat (sv_media_max_audio_bytes sv)) authorization
                  (query_first ''service'' (url_query (rq_path rq))) body tv (media_part st) of
             (r, m) \<Rightarrow> (tried r, put_media m st))
      | PGenerate \<Rightarrow>
          (case build_media_generate_response (sv_media sv) w media_text authorization json tv (media_part st) of
             (r, m) \<Rightarrow> (tried r, put_media m st))
      | PSynthesize \<Rightarrow>
          (case build_media_synthesize_response (sv_media sv) w media_text authorization json tv (media_part st) of
             (r, m) \<Rightarrow> (tried r, put_media m st))
      | _ \<Rightarrow> (Inl (), st))"

definition post_models where
  "post_models sv dr route rq json st =
     (let authorization = rq_authorization rq; config = model_config_of (sv_config sv) in
      case route of
        PInstallerStatus request_id \<Rightarrow>
          (case build_reconciler_status_response (sv_models sv) (notifier sv) config (dr_now dr) (dr_nuid dr [])
                  authorization request_id json (models_part st) of (r, m) \<Rightarrow> (replied r, put_models m st))
      | PModelRequests \<Rightarrow>
          (case build_model_request_create_response (sv_models sv) (notifier sv) config (dr_now dr) (dr_secs dr)
                  (dr_uid dr) (dr_nuid dr []) authorization json (sv_verifier sv) (models_part st) of
             (r, m) \<Rightarrow> (replied r, put_models m st))
      | _ \<Rightarrow> (Inl (), st))"

definition not_found :: "string \<Rightarrow> unit + response" where
  "not_found raw_path = replied (HTTP_NOT_FOUND, JObj [(''error'', JStr ''not_found''), (''path'', JStr raw_path)])"

definition post_routed where
  "post_routed sv dr rq body st =
     (let json = se_loads (sv_status sv) body; route = route_post (path_of (rq_path rq)) in
      case route of
        PChat \<Rightarrow> post_chat sv dr (rq_authorization rq) json st
      | PInvoke \<Rightarrow> post_agent sv dr route rq json st
      | PRun \<Rightarrow> post_agent sv dr route rq json st
      | PResearch \<Rightarrow> post_agent sv dr route rq json st
      | PCompare \<Rightarrow> post_agent sv dr route rq json st
      | PEdit \<Rightarrow> post_agent sv dr route rq json st
      | PInstallerStatus request_id \<Rightarrow> post_models sv dr route rq json st
      | PModelRequests \<Rightarrow> post_models sv dr route rq json st
      | PMcpList \<Rightarrow> post_services sv dr route rq body json st
      | PMcpInvoke \<Rightarrow> post_services sv dr route rq body json st
      | PIntegrationsList \<Rightarrow> post_services sv dr route rq body json st
      | PIntegrationsInvoke \<Rightarrow> post_services sv dr route rq body json st
      | PMediaList \<Rightarrow> post_services sv dr route rq body json st
      | PTranscribe \<Rightarrow> post_services sv dr route rq body json st
      | PGenerate \<Rightarrow> post_services sv dr route rq body json st
      | PSynthesize \<Rightarrow> post_services sv dr route rq body json st
      | PNotes \<Rightarrow> post_notes sv dr route rq json st
      | PNote note_id \<Rightarrow> post_notes sv dr route rq json st
      | PConversations \<Rightarrow> post_threads sv dr route rq json st
      | PAppend cid \<Rightarrow> post_threads sv dr route rq json st
      | PRead notification_id \<Rightarrow> post_threads sv dr route rq json st
      | PNotFound \<Rightarrow> (not_found (rq_path rq), st)
      | _ \<Rightarrow> post_content sv dr route rq body json st)"

text \<open>\<^verbatim>\<open>_post\<close>: the length, its cap, the body, the route.\<close>

definition request_too_large :: response where
  "request_too_large = json_response (HTTP_TOO_LARGE, err_only ''request_too_large'')"

definition read_body :: "int \<Rightarrow> string \<Rightarrow> string" where
  "read_body n input = (if 0 < n then take (nat n) input else [])"

definition post_handler where
  "post_handler sv dr rq st =
     (case content_length (rq_content_length rq) of
        None \<Rightarrow> (Inl (), st)
      | Some n \<Rightarrow>
          if body_cap (sv_media_max_audio_bytes sv) (cf_retrieval_max_upload_bytes (sv_config sv))
               (path_of (rq_path rq)) < n
          then (Inr request_too_large, st)
          else post_routed sv dr rq (read_body n (rq_input rq)) st)"

text \<open>\<^verbatim>\<open>_handle_chat_stream\<close> from the headers on: no frame answers an exception that leaves it.\<close>

definition serve_chat_stream where
  "serve_chat_stream sv dr rq st =
     (case content_length (rq_content_length rq) of
        None \<Rightarrow> (Dropped, st)
      | Some n \<Rightarrow>
          if MAX_REQUEST_BODY < n then (Sent request_too_large, st)
          else
            (case handle_chat_stream (sv_open_stream sv) (cf_inference_base_url (sv_config sv)) (sv_stream_seconds sv)
                    (dr_alive dr) (dr_clock dr) (dr_mono dr) (dr_secs dr) (rq_authorization rq)
                    (se_loads (sv_status sv) (read_body n (rq_input rq))) (sv_verifier sv)
                    (st_chat_limiter st, st_chats st) of
               (out, rl, sent) \<Rightarrow>
                 (case out of
                    Inl _ \<Rightarrow> Dropped
                  | Inr (Plain response) \<Rightarrow> Sent response
                  | Inr (EventStream lines) \<Rightarrow> Lines lines,
                  st\<lparr>st_chat_limiter := rl, st_chats := sent\<rparr>)))"

definition do_POST where
  "do_POST sv dr rq st =
     (if path_of (rq_path rq) = CHAT_STREAM_PATH then serve_chat_stream sv dr rq st
      else (case post_handler sv dr rq st of (r, st) \<Rightarrow> (instrument r, st)))"

section \<open>DELETE\<close>

definition do_DELETE where
  "do_DELETE sv rq st =
     (let authorization = rq_authorization rq; tv = sv_verifier sv in
      case route_delete (path_of (rq_path rq)) of
        DMemory memory_id \<Rightarrow>
          (case build_memory_delete_response (sv_memory sv) authorization memory_id tv (st_memories st) of
             (r, s) \<Rightarrow> (instrument (replied r), st\<lparr>st_memories := s\<rparr>))
      | DNote note_id \<Rightarrow>
          (case build_note_delete_response (sv_notes sv) authorization note_id tv (st_notes st) of
             (r, s) \<Rightarrow> (instrument (replied r), st\<lparr>st_notes := s\<rparr>))
      | DConversation cid \<Rightarrow>
          (case build_conversation_delete_response (sv_conversations sv) authorization cid tv (st_convs st) of
             (r, s) \<Rightarrow> (instrument (replied r), st\<lparr>st_convs := s\<rparr>))
      | DNotFound \<Rightarrow> (instrument (not_found (rq_path rq)), st))"

section \<open>A request\<close>

text \<open>The verbs the server implements; any other is refused by the base class with 501.\<close>

datatype http_method = GET | POST | DELETE

definition serve where
  "serve sv dr ticks verb rq st =
     (case verb of
        GET \<Rightarrow> do_GET sv dr ticks rq st
      | POST \<Rightarrow> do_POST sv dr rq st
      | DELETE \<Rightarrow> do_DELETE sv rq st)"

section \<open>An example server\<close>

text \<open>The PostgreSQL stores, two users, nothing enabled in the environment; services that fail.\<close>

definition example_server ::
    "(pg_notifs, pg_notes, pg_convs, pg_memories, pg_chunks, pg_models, (string \<times> string) set,
      string \<times> string \<Rightarrow> (string \<times> string) option) server" where
  "example_server =
     \<lparr>sv_config = projr (from_env (\<lambda>_. None)), sv_verifier = Some two_users,
      sv_notifications = PostgresNotificationStore, sv_notes = PostgresNotesStore,
      sv_conversations = PostgresConversationStore, sv_memory = PostgresMemoryStore (\<lambda>_ _. 0),
      sv_retrieval = PostgresRetrievalStore (\<lambda>_ _. 0), sv_models = PostgresModelRequestStore,
      sv_tenants = InMemoryTenantIntegrationState, sv_embed = zero_embed,
      sv_tools_enabled = False, sv_tools_allowlist = [], sv_exec = (\<lambda>_ _ _. outcome_of ''error'' None), sv_job = None,
      sv_loop_budgets = \<lparr>ab_max_steps = 6, ab_wall_clock_seconds = 60, ab_max_tokens = 512, ab_model = ''m''\<rparr>,
      sv_agent_model = None,
      sv_research_budgets = \<lparr>rb_max_subqueries = 3, rb_top_k = 4, rb_wall_clock_seconds = 60, rb_max_tokens = 512,
                             rb_model = ''m''\<rparr>,
      sv_web = None, sv_mcp_enabled = False, sv_mcp_allowlist = [], sv_mcp = example_mcp,
      sv_ix_enabled = False, sv_ix_allowlist = [], sv_ix = example_ix,
      sv_media_enabled = False, sv_media_allowlist = [], sv_media = example_media,
      sv_media_max_audio_bytes = 1048576, sv_media_max_prompt_chars = 2000,
      sv_inference = (\<lambda>_ _ _. Inl InferTimeout), sv_open_stream = (\<lambda>_ _ _. Inl InferTimeout), sv_stream_seconds = 60,
      sv_status = \<lparr>se_float = (\<lambda>_. []), se_loads = (\<lambda>_. None), se_health = (\<lambda>_. ProbeUnreachable),
                   se_metrics = ([], []), se_now = 0, se_clock = 0\<rparr>,
      sv_indent2 = (\<lambda>_. [])\<rparr>"

definition example_state ::
    "(pg_notifs, pg_notes, pg_convs, pg_memories, pg_chunks, pg_models, (string \<times> string) set,
      string \<times> string \<Rightarrow> (string \<times> string) option) server_state" where
  "example_state =
     (let rl = rate_limiter_init 5 2 in
      \<lparr>st_notifs = [], st_notes = [example_note], st_convs = \<lparr>pc_conversations = [], pc_messages = []\<rparr>,
       st_memories = [], st_corpus = \<lparr>pd_documents = [], pd_chunks = []\<rparr>, st_models = [],
       st_switch = {}, st_objects = (\<lambda>_. None), st_tools_limiter = rl, st_compare_limiter = rl,
       st_documents_limiter = rl, st_chat_limiter = rl, st_install_limiter = rl, st_ix_limiter = rl,
       st_media_limiter = rl, st_audit = [], st_spawned = [], st_servers = [], st_ix = empty_ix, st_posts = [],
       st_asked = [], st_chats = [], st_searches = [], st_probe = None\<rparr>)"

definition example_draws :: draws where
  "example_draws =
     \<lparr>dr_now = 0, dr_secs = 0, dr_mono = 0, dr_latency = 5, dr_elapsed = (\<lambda>_. 0), dr_uid = ''u1'',
      dr_uids = (\<lambda>_. ''c''), dr_nuid = (\<lambda>_. ''x''), dr_alive = (\<lambda>_. True), dr_clock = (\<lambda>_. 0)\<rparr>"

definition plain_request :: "string option \<Rightarrow> string \<Rightarrow> http_request" where
  "plain_request authorization path =
     \<lparr>rq_path = path, rq_authorization = authorization, rq_content_length = None, rq_content_type = None, rq_input = []\<rparr>"

end
