(* ===== verification/ServerGate.thy ===== *)
theory ServerGate
  imports Server
begin

text \<open>
  What holds of the server whatever is asked of it: requests without a token change nothing.
\<close>

section \<open>The handlers without a token\<close>

lemma token_required:
  assumes u: "verify_and_extract a tv = Inl err"
  shows "build_notifications_list_response nf a tv inc limit sn = err"
    "build_notification_publish_response nf now uid a body tv sn = (Inr err, sn)"
    "build_notification_read_response nf now a i tv sn = (err, sn)"
    "build_notes_list_response nt a tv kind limit st = err"
    "build_note_create_response nt now uid a body tv st = (err, st)"
    "build_note_update_response nt now a i body tv st = (err, st)"
    "build_note_delete_response nt a i tv st = (err, st)"
    "build_conversations_list_response cs a tv limit sc = err"
    "build_conversation_get_response cs a i tv sc = err"
    "build_conversation_create_response cs now uid a body tv sc = (err, sc)"
    "build_conversation_append_response cs now uid a i body tv sc = (Inr err, sc)"
    "build_conversation_delete_response cs a i tv sc = (err, sc)"
    "build_memory_list_response mm a tv limit sm = err"
    "build_memory_record_response mm emb now uid a body tv sm = (Inr err, sm)"
    "build_memory_recall_response mm emb a body tv sm = Inr err"
    "build_memory_delete_response mm a i tv sm = (err, sm)"
    "build_index_document_response rst ns emb now uid uids nuid a body tv sr = (err, sr)"
    "build_retrieval_upload_response rst ns emb put cap now uid uids nuid fuid a fname ctype raw tv su = (err, su)"
    "build_retrieval_query_response rst emb a body tv sq = Inr err"
    "build_model_requests_list_response mq cfg a tv limit sq' = err"
    "build_model_request_create_response mq ns' cfg now secs uid nuid a body tv sp = (err, sp)"
  by (simp_all add: u build_notifications_list_response_def build_notification_publish_response_def
      build_notification_read_response_def build_notes_list_response_def build_note_create_response_def
      build_note_update_response_def build_note_delete_response_def build_conversations_list_response_def
      build_conversation_get_response_def build_conversation_create_response_def
      build_conversation_append_response_def build_conversation_delete_response_def build_memory_list_response_def
      build_memory_record_response_def build_memory_recall_response_def build_memory_delete_response_def
      build_index_document_response_def build_retrieval_upload_response_def build_retrieval_query_response_def
      build_model_requests_list_response_def build_model_request_create_response_def)

lemma token_required_services:
  assumes u: "verify_and_extract a tv = Inl err"
  shows "build_tool_invoke_response fr ns en al ex job now secs lat rid nuid a body tv sa = (err, sa)"
    "build_agent_run_response en av lenv secs a body tv sa = (Inr err, sa)"
    "build_deep_research_response en av al renv secs a body tv sr = (err, sr)"
    "build_compare_response fr en cl cap dm secs lat a body tv sk = (Inr err, sk)"
    "build_document_edit_response fr en cl cap secs lat a body tv sk = (err, sk)"
    "build_mcp_list_response en al menv a body tv sm = (Inr err, sm)"
    "build_mcp_invoke_response fr ns en al menv now secs lat nuid a body tv sm = (Inr err, sm)"
    "build_integrations_list_response en al ienv a tv = err"
    "build_integrations_invoke_response fr ns en al ts sw ienv clock now secs lat nuid a body tv sh = (Inr err, sh)"
    "build_media_list_response mdenv en al a tv = err"
    "build_media_transcribe_response mdenv w cap a svc raw tv sd = (Inr err, sd)"
    "build_media_generate_response mdenv w cap a body tv sd = (Inr err, sd)"
    "build_media_synthesize_response mdenv w cap a body tv sd = (Inr err, sd)"
    "build_media_artifact_response mdenv a i tv so = err"
    "fst (build_media_artifact_content mdenv a i tv so) = fst err"
    "build_chat_response infer base secs a body tv sct = (Inr (json_response err), sct)"
  by (simp_all add: u build_tool_invoke_response_def build_agent_run_response_def build_deep_research_response_def
      build_compare_response_def build_document_edit_response_def build_mcp_list_response_def
      build_mcp_invoke_response_def mcp_gate_def build_integrations_list_response_def integrations_gate_def
      build_integrations_invoke_response_def build_media_list_response_def media_gate_def
      build_media_transcribe_response_def build_media_generate_response_def build_media_synthesize_response_def
      build_media_artifact_response_def build_media_artifact_content_def build_chat_response_def
      split: prod.split)


lemma stream_token_required:
  assumes "verify_and_extract a tv = Inl err"
  shows "\<exists>r. prepare_chat_stream base a body tv = Inr (Inl r) \<and> 400 \<le> rs_status r"
proof (cases "extract_bearer_token a")
  case None
  then show ?thesis
    by (simp add: prepare_chat_stream_def json_response_def unauth_missing_def)
next
  case (Some t)
  show ?thesis
  proof (cases tv)
    case None
    with Some show ?thesis
      by (simp add: prepare_chat_stream_def json_response_def)
  next
    case v: (Some verify)
    then have "verify t = None"
      using Some assms verify_and_extract_bearer [of a verify] by (cases "verify t") auto
    with Some v show ?thesis
      by (simp add: prepare_chat_stream_def json_response_def unauth_invalid_def)
  qed
qed

lemma reconciler_token_required:
  assumes "\<not> verify_reconciler_token a cfg"
  shows "fst (build_reconciler_pending_response mq cfg a s) = HTTP_NOT_FOUND"
    "fst (fst (build_reconciler_status_response mq ns cfg now nuid a i body m)) = HTTP_NOT_FOUND"
    "snd (build_reconciler_status_response mq ns cfg now nuid a i body m) = m"
  using assms by (simp_all add: build_reconciler_pending_response_def build_reconciler_status_response_def)

lemma reconciler_limiter:
  "mst_limiter (snd (build_reconciler_status_response mq ns cfg now nuid a i body m)) = mst_limiter m"
  by (simp add: build_reconciler_status_response_def split: sum.split prod.split option.split)

lemma put_part [simp]:
  "put_agent (agent_part st) st = st" "put_research (research_part st) st = st" "put_mcp (mcp_part st) st = st"
  "put_hub (hub_part st) st = st" "put_media (media_part st) st = st" "put_compare (compare_part st) st = st"
  "put_documents (documents_part st) st = st" "put_models (models_part st) st = st"
  by (simp_all add: part_defs)

section \<open>Requests without a token\<close>

fun refused :: "served \<Rightarrow> bool" where
  "refused (Sent r) = (400 \<le> rs_status r)"
| "refused Dropped = True"
| "refused _ = False"

definition reconciler_request where
  "reconciler_request sv verb rq \<longleftrightarrow>
     verify_reconciler_token (rq_authorization rq) (model_config_of (sv_config sv)) \<and>
     (verb = GET \<and> route_get (path_of (rq_path rq)) = GInstallerPending \<or>
      verb = POST \<and> (\<exists>i. route_post (path_of (rq_path rq)) = PInstallerStatus i))"

lemma refused_reply [simp]:
  "refused (instrument (replied r)) \<longleftrightarrow> 400 \<le> fst r" "refused (instrument (tried (Inr r))) \<longleftrightarrow> 400 \<le> fst r"
  "refused (instrument (Inl e))"
  by (simp_all add: instrument_def replied_def tried_def json_response_def internal_error_def)

lemma get_without_token:
  assumes u: "verify_and_extract (rq_authorization rq) (sv_verifier sv) = Inl err"
    and g: "do_GET sv dr ticks rq st = (out, st')"
  shows "(refused out \<and> st' = st) \<or> (route_get (path_of (rq_path rq)) = GOther \<and> st' = st\<lparr>st_probe := st_probe st'\<rparr>) \<or>
    (reconciler_request sv GET rq \<and> st' = st)"
proof -
  have e: "400 \<le> fst err"
    using auth_error_status [OF u] by auto
  note t = token_required [OF u] token_required_services [OF u]
  show ?thesis
  proof (cases "route_get (path_of (rq_path rq))")
    case GInstallerPending
    then show ?thesis
      using g reconciler_token_required(1) [of "rq_authorization rq" "model_config_of (sv_config sv)" "sv_models sv" "st_models st"]
      by (auto simp: do_GET_def Let_def reconciler_request_def)
  next
    case (GArtifactContent i)
    then show ?thesis
      using g t(36) [of "sv_media sv" i "st_objects st"] e
      by (cases "build_media_artifact_content (sv_media sv) (rq_authorization rq) i (sv_verifier sv) (st_objects st)")
        (auto simp: do_GET_def Let_def)
  next
    case GNotificationsStream
    then show ?thesis
      using g u e by (auto simp: do_GET_def Let_def handle_notifications_stream_def json_response_def)
  next
    case GOther
    then show ?thesis
      using g by (auto simp: do_GET_def Let_def split: prod.splits)
  qed (use g e in \<open>auto simp: t do_GET_def Let_def\<close>)
qed


lemma routed_without_token:
  assumes u: "verify_and_extract (rq_authorization rq) (sv_verifier sv) = Inl err"
    and g: "post_routed sv dr rq body st = (r, st')"
  shows "(refused (instrument r) \<and> st' = st) \<or>
    (reconciler_request sv POST rq \<and>
     st' = st\<lparr>st_models := st_models st', st_notifs := st_notifs st'\<rparr>)"
proof -
  have e: "400 \<le> fst err"
    using auth_error_status [OF u] by auto
  note t = token_required [OF u] token_required_services [OF u]
  show ?thesis
  proof (cases "route_post (path_of (rq_path rq))")
    case PChat
    then show ?thesis
      using g t(37) e by (auto simp: post_routed_def Let_def post_chat_def instrument_def json_response_def)
  next
    case (PInstallerStatus i)
    let ?m = "build_reconciler_status_response (sv_models sv) (Some (sv_notifications sv)) (model_config_of (sv_config sv))
        (dr_now dr) (dr_nuid dr []) (rq_authorization rq) i (se_loads (sv_status sv) body) (models_part st)"
    have g': "r = replied (fst ?m)" "st' = put_models (snd ?m) st"
      using g PInstallerStatus by (auto simp: post_routed_def Let_def post_models_def split: prod.splits)
    show ?thesis
    proof (cases "verify_reconciler_token (rq_authorization rq) (model_config_of (sv_config sv))")
      case True
      moreover have "mst_limiter (snd ?m) = Some (st_install_limiter st)"
        by (simp add: reconciler_limiter models_part_def)
      ultimately show ?thesis
        using PInstallerStatus by (auto simp: reconciler_request_def g' put_models_def)
    next
      case False
      then show ?thesis
        by (simp add: g' reconciler_token_required(2,3) [OF False])
    qed
  qed (use g e in \<open>auto simp: t post_routed_def Let_def post_content_def post_notes_def post_threads_def post_agent_def post_services_def
      post_models_def not_found_def instrument_def internal_error_def json_response_def replied_def tried_def\<close>)
qed

lemma post_without_token:
  assumes u: "verify_and_extract (rq_authorization rq) (sv_verifier sv) = Inl err"
    and g: "do_POST sv dr rq st = (out, st')"
  shows "(refused out \<and> st' = st) \<or>
    (reconciler_request sv POST rq \<and>
     st' = st\<lparr>st_models := st_models st', st_notifs := st_notifs st'\<rparr>)"
proof (cases "path_of (rq_path rq) = CHAT_STREAM_PATH")
  case True
  obtain r where p: "prepare_chat_stream (cf_inference_base_url (sv_config sv)) (rq_authorization rq) body (sv_verifier sv)
      = Inr (Inl (r body)) \<and> 400 \<le> rs_status (r body)" for body
    using stream_token_required [OF u] by metis
  show ?thesis
    using g True p
    by (auto simp: do_POST_def serve_chat_stream_def handle_chat_stream_def request_too_large_def json_response_def
        split: option.splits if_splits)
next
  case False
  show ?thesis
  proof (cases "content_length (rq_content_length rq)")
    case None
    then show ?thesis
      using g False by (auto simp: do_POST_def post_handler_def)
  next
    case (Some n)
    show ?thesis
    proof (cases "body_cap (sv_media_max_audio_bytes sv) (cf_retrieval_max_upload_bytes (sv_config sv))
        (path_of (rq_path rq)) < n")
      case True
      then show ?thesis
        using g False Some
        by (auto simp: do_POST_def post_handler_def instrument_def request_too_large_def json_response_def)
    next
      case small: False
      obtain r st'' where h: "post_routed sv dr rq (read_body n (rq_input rq)) st = (r, st'')"
        by fastforce
      have "out = instrument r" "st' = st''"
        using g False Some small h by (auto simp: do_POST_def post_handler_def)
      then show ?thesis
        using routed_without_token [OF u h] by simp
    qed
  qed
qed

lemma delete_without_token:
  assumes u: "verify_and_extract (rq_authorization rq) (sv_verifier sv) = Inl err"
    and g: "do_DELETE sv rq st = (out, st')"
  shows "refused out \<and> st' = st"
proof -
  have e: "400 \<le> fst err"
    using auth_error_status [OF u] by auto
  note t = token_required [OF u]
  show ?thesis
    by (cases "route_delete (path_of (rq_path rq))")
      (use g e in \<open>auto simp: t do_DELETE_def Let_def not_found_def instrument_def json_response_def replied_def\<close>)
qed


text \<open>C2: Without a valid token nothing happens.  Whatever is asked of the server, with whichever verb, path,
  headers and body, if the bearer token is missing, not accepted or not verifiable, the answer is a refusal
  (a status of 400 or more, or a dropped connection) and no store, limiter, log or outside service is
  touched.  The exceptions are the operational GET endpoints, which at most refresh the cached health probe,
  and the reconciler's two endpoints when they are given its own shared token, which change requests and
  notifications only.\<close>

theorem server_requires_token:
  assumes "verify_and_extract (rq_authorization rq) (sv_verifier sv) = Inl err"
  shows "case serve sv dr ticks verb rq st of (out, st') \<Rightarrow>
    (refused out \<and> st' = st) \<or>
    (verb = GET \<and> route_get (path_of (rq_path rq)) = GOther \<and> st' = st\<lparr>st_probe := st_probe st'\<rparr>) \<or>
    (reconciler_request sv verb rq \<and> st' = st\<lparr>st_models := st_models st', st_notifs := st_notifs st'\<rparr>)"
proof -
  obtain out st' where s: "serve sv dr ticks verb rq st = (out, st')"
    by fastforce
  show ?thesis
  proof (cases verb)
    case GET
    then show ?thesis
      using get_without_token [OF assms, of dr ticks st out st'] s by (auto simp: serve_def)
  next
    case POST
    then show ?thesis
      using post_without_token [OF assms, of dr st out st'] s by (auto simp: serve_def)
  next
    case DELETE
    then show ?thesis
      using delete_without_token [OF assms, of st out st'] s by (auto simp: serve_def)
  qed
qed

theorem server_requires_token_witness:
  "case serve example_server example_draws [] DELETE (plain_request None ''/v1/notes/n1'') example_state of
     (out, st') \<Rightarrow> refused out \<and> st_notes st' = [example_note]"
proof -
  have "verify_and_extract (rq_authorization (plain_request None ''/v1/notes/n1'')) (sv_verifier example_server) =
      Inl unauth_missing"
    by (simp add: verify_and_extract_def plain_request_def example_server_def)
  from server_requires_token [OF this, where dr = example_draws and ticks = "[]" and verb = DELETE
      and st = example_state]
  show ?thesis
    by (auto simp: reconciler_request_def example_state_def Let_def split: prod.splits)
qed

end
