(* ===== verification/ServerSlots.thy ===== *)
theory ServerSlots
  imports ServerGate
begin

text \<open>
  The seven limiters of the server: whatever a request does, the slots it took are given back.
\<close>

section \<open>Slots\<close>

text \<open>A limiter whose slots are as they were; what a handler does with one.\<close>

definition slot_kept :: "rate_limiter \<Rightarrow> rate_limiter \<Rightarrow> bool" where
  "slot_kept rl rl' \<longleftrightarrow> (rl_ok rl \<longrightarrow> rl_ok rl' \<and> rl_value rl' = rl_value rl)"

lemma slot_kept_refl [simp]: "slot_kept rl rl"
  by (simp add: slot_kept_def)

lemma slot_refused: "try_acquire t now rl = (False, rl') \<Longrightarrow> slot_kept rl rl'"
  using try_acquire_ok [of rl t now] try_acquire_value(1) [of t now rl] by (simp add: slot_kept_def)

lemma slot_returned: "try_acquire t now rl = (True, rl') \<Longrightarrow> slot_kept rl (rl_release rl')"
  using try_acquire_ok [of rl t now] acquire_release_value [of rl t now] rl_release_ok
  by (auto simp: slot_kept_def)

lemma slot_attempt:
  "\<not> fst (try_acquire t now rl) \<Longrightarrow> slot_kept rl (snd (try_acquire t now rl))"
  "fst (try_acquire t now rl) \<Longrightarrow> slot_kept rl (rl_release (snd (try_acquire t now rl)))"
  using slot_refused [of t now rl] slot_returned [of t now rl] by (cases "try_acquire t now rl"; simp)+

lemma slot_invoke:
  "slot_kept (ag_limiter st)
     (ag_limiter (snd (build_tool_invoke_response fr ns en al ex job now secs lat rid nuid a body tv st)))"
  using invoke_releases [of st] invoke_limiter_ok [of st] by (simp add: slot_kept_def)

lemma slot_run: "slot_kept (ag_limiter st) (ag_limiter (snd (build_agent_run_response en av env secs a body tv st)))"
  using run_handler_slot [of st en av env secs a body tv] by (auto simp: slot_kept_def prod_eq_iff)

lemma slot_mcp_list: "mc_limiter (snd (build_mcp_list_response en al env a body tv st)) = mc_limiter st"
  by (simp add: build_mcp_list_response_def Let_def split: sum.split prod.split)

lemma slot_mcp_invoke:
  "slot_kept (mc_limiter st)
     (mc_limiter (snd (build_mcp_invoke_response fr ns en al env now secs lat nuid a body tv st)))"
  by (auto simp: build_mcp_invoke_response_def Let_def slot_refused
      mcp_run_frame(2) [OF prod.collapse] slot_returned split: sum.split prod.split bool.split)

lemma slot_integrations:
  "slot_kept (hb_limiter st)
     (hb_limiter (snd (build_integrations_invoke_response fr ns en al ts sw env clock now secs lat nuid a body tv st)))"
  by (auto simp: build_integrations_invoke_response_def Let_def slot_refused run_hub(1) slot_returned
      split: sum.split prod.split bool.split)

lemma slot_documents:
  "slot_kept (as_limiter st) (as_limiter (snd (build_document_edit_response fr en cl cap secs lat a body tv st)))"
  by (auto simp: build_document_edit_response_def Let_def slot_attempt split_beta
      split: sum.split prod.split bool.split)


lemma media_effect_limiter: "media_effect env aid who service kind st st' \<Longrightarrow> md_limiter st' = md_limiter st"
  by (auto simp: media_effect_def)

lemmas media_limiter_run = media_effect_limiter [OF transcribe_effect] media_effect_limiter [OF generate_effect]
  media_effect_limiter [OF synthesize_effect]

lemma slot_media_run:
  assumes "\<And>s. md_limiter (snd (run s)) = md_limiter s"
  shows "slot_kept (md_limiter st) (md_limiter (snd (media_run w who service label args run st)))"
  using assms
  by (auto simp: media_run_def media_authorize_def media_audit_def media_notify_def Let_def split_beta slot_attempt
      split: sum.split prod.split bool.split)

lemma slot_media:
  "slot_kept (md_limiter st) (md_limiter (snd (build_media_transcribe_response env w cap a svc raw tv st)))"
  "slot_kept (md_limiter st) (md_limiter (snd (build_media_generate_response env w cap a body tv st)))"
  "slot_kept (md_limiter st) (md_limiter (snd (build_media_synthesize_response env w cap a body tv st)))"
  by (auto simp: build_media_transcribe_response_def build_media_generate_response_def
      build_media_synthesize_response_def slot_media_run media_limiter_run
      split: sum.split prod.split option.split)

lemma slot_research:
  "slot_kept (ag_limiter (rs_agent st))
     (ag_limiter (rs_agent (snd (build_deep_research_response en av al env secs a body tv st))))"
proof -
  have run: "ag_limiter (rs_agent (snd (run_deep_research env who q web s))) = ag_limiter (rs_agent s)" for who q web s
  proof -
    obtain outcome s' where r: "run_deep_research env who q web s = (outcome, s')"
      by fastforce
    show ?thesis
      using run_deep_research_effect [OF r] r by (auto simp: run_effect_def research_done_def)
  qed
  show ?thesis
    by (auto simp: build_deep_research_response_def Let_def split_beta slot_attempt run set_limiter_def
        split: sum.split prod.split bool.split)
qed

lemma cmp_one_limiter: "as_limiter (snd (cmp_one client model ms k st)) = as_limiter st"
  by (simp add: cmp_one_eq Let_def)

lemma compare_loop_limiter: "as_limiter (snd (compare_loop client ms k i models st)) = as_limiter st"
proof (induction models arbitrary: i st)
  case (Cons m models)
  then show ?case
    by (simp add: Let_def split_beta cmp_one_limiter)
qed simp

lemma run_compare_limiter: "as_limiter (snd (run_compare client prompt models k syn st)) = as_limiter st"
proof -
  obtain r s where l: "compare_loop client [\<lparr>cm_role = ''user'', cm_content = prompt\<rparr>] k 0 models st = (r, s)"
    by fastforce
  then have "as_limiter s = as_limiter st"
    using compare_loop_limiter [of client _ k 0 models st] by (metis snd_conv)
  then show ?thesis
    by (auto simp: run_compare_def l cmp_one_eq Let_def split: sum.split prod.split)
qed

lemma slot_compare:
  "slot_kept (as_limiter st) (as_limiter (snd (build_compare_response fr en ic cap dm secs lat a body tv st)))"
proof -
  have ran: "as_limiter s' = as_limiter s" if "run_compare c p ms k syn s = (r, s')" for c p ms k syn s r s'
    using run_compare_limiter [of c p ms k syn s] that by simp
  show ?thesis
    by (auto simp: build_compare_response_def Let_def slot_attempt split_beta dest: ran
        split: sum.split prod.split bool.split)
qed

lemma slot_chat:
  assumes "ct_limiter st = Some rl"
  shows "\<exists>rl'. ct_limiter (snd (build_chat_response client base secs a body tv st)) = Some rl' \<and> slot_kept rl rl'"
  using assms
  by (auto simp: build_chat_response_def chat_forward_def slot_refused slot_returned
      split: sum.split prod.split bool.split)

lemma slot_stream:
  "slot_kept (fst st) (fst (snd (handle_chat_stream op base mx alive clock start secs a body tv st)))"
  by (auto simp: handle_chat_stream_def Let_def slot_refused slot_returned split: sum.split prod.split bool.split)

lemma slot_install:
  assumes "mst_limiter st = Some rl"
  shows "\<exists>rl'. mst_limiter (snd (build_model_request_create_response store ns config now secs uid nuid a b v st))
           = Some rl' \<and> slot_kept rl rl'"
proof (cases "rl_ok rl")
  case True
  then show ?thesis
    using model_create_releases [OF assms, of store ns config now secs uid nuid a b v] by (auto simp: slot_kept_def)
next
  case False
  then show ?thesis
    using assms
    by (auto simp: slot_kept_def build_model_request_create_response_def Let_def split_beta model_create_body_limiter
        split: sum.split prod.split option.split bool.split)
qed

section \<open>The limiters of the server\<close>

definition limiters :: "('nf, 'nt, 'cv, 'mm, 'rt, 'mq, 'ts, 'o) server_state \<Rightarrow> rate_limiter list" where
  "limiters st = [st_tools_limiter st, st_compare_limiter st, st_documents_limiter st, st_chat_limiter st,
                  st_install_limiter st, st_ix_limiter st, st_media_limiter st]"

definition slots_kept where "slots_kept st st' \<longleftrightarrow> list_all2 slot_kept (limiters st) (limiters st')"

lemma slots_kept_refl [simp]: "slots_kept st st"
  by (simp add: slots_kept_def limiters_def)

lemma slots_kept_trans: "slots_kept st st' \<Longrightarrow> slots_kept st' st'' \<Longrightarrow> slots_kept st st''"
  by (auto simp: slots_kept_def limiters_def slot_kept_def)

lemma slots_put:
  "slots_kept st (put_agent a st) \<longleftrightarrow> slot_kept (st_tools_limiter st) (ag_limiter a)"
  "slots_kept st (put_research r st) \<longleftrightarrow> slot_kept (st_tools_limiter st) (ag_limiter (rs_agent r))"
  "slots_kept st (put_mcp m st) \<longleftrightarrow> slot_kept (st_tools_limiter st) (mc_limiter m)"
  "slots_kept st (put_hub h st) \<longleftrightarrow> slot_kept (st_ix_limiter st) (hb_limiter h)"
  "slots_kept st (put_media md st) \<longleftrightarrow> slot_kept (st_media_limiter st) (md_limiter md)"
  "slots_kept st (put_compare c st) \<longleftrightarrow> slot_kept (st_compare_limiter st) (as_limiter c)"
  "slots_kept st (put_documents c st) \<longleftrightarrow> slot_kept (st_documents_limiter st) (as_limiter c)"
  "slots_kept st (put_models ms st) \<longleftrightarrow> slot_kept (st_install_limiter st) (the (mst_limiter ms))"
  by (simp_all add: slots_kept_def limiters_def part_defs)

lemma limiter_part [simp]:
  "ag_limiter (agent_part st) = st_tools_limiter st" "ag_limiter (rs_agent (research_part st)) = st_tools_limiter st"
  "mc_limiter (mcp_part st) = st_tools_limiter st" "hb_limiter (hub_part st) = st_ix_limiter st"
  "md_limiter (media_part st) = st_media_limiter st" "as_limiter (compare_part st) = st_compare_limiter st"
  "as_limiter (documents_part st) = st_documents_limiter st" "mst_limiter (models_part st) = Some (st_install_limiter st)"
  by (simp_all add: part_defs)

lemma slots_other:
  "limiters st' = limiters st \<Longrightarrow> slots_kept st st'"
  by (simp add: slots_kept_def list.rel_refl)

section \<open>A request\<close>

lemma slots_post_chat: "slots_kept st (snd (post_chat sv dr a json st))"
proof -
  let ?st = "\<lparr>ct_limiter = Some (st_chat_limiter st), ct_sent = st_chats st\<rparr>"
  obtain r ct where b: "build_chat_response (sv_inference sv) (cf_inference_base_url (sv_config sv)) (dr_secs dr) a json
      (sv_verifier sv) ?st = (r, ct)"
    by fastforce
  then show ?thesis
    using slot_chat [of ?st "st_chat_limiter st" "sv_inference sv" "cf_inference_base_url (sv_config sv)" "dr_secs dr" a
        json "sv_verifier sv"]
    by (auto simp: post_chat_def slots_kept_def limiters_def)
qed

lemma slots_post_agent: "slots_kept st (snd (post_agent sv dr route rq json st))"
proof -
  note kept = slot_invoke [of "agent_part st", simplified] slot_run [of "agent_part st", simplified]
    slot_research [of "research_part st", simplified] slot_compare [of "compare_part st", simplified]
    slot_documents [of "documents_part st", simplified]
  show ?thesis
    by (cases route) (simp_all add: post_agent_def Let_def split_beta slots_put kept)
qed

lemma slots_post_services: "slots_kept st (snd (post_services sv dr route rq body json st))"
proof -
  note kept = slot_mcp_list [of _ _ _ _ _ _ "mcp_part st"] slot_mcp_invoke [of "mcp_part st", simplified]
    slot_integrations [of "hub_part st", simplified] slot_media [of "media_part st", simplified]
  show ?thesis
    by (cases route) (simp_all add: post_services_def Let_def split_beta slots_put kept)
qed

lemma slots_post_models: "slots_kept st (snd (post_models sv dr route rq json st))"
proof (cases route)
  case PModelRequests
  let ?c = "build_model_request_create_response (sv_models sv) (Some (sv_notifications sv)) (model_config_of (sv_config sv))
      (dr_now dr) (dr_secs dr) (dr_uid dr) (dr_nuid dr []) (rq_authorization rq) json (sv_verifier sv) (models_part st)"
  obtain rl' where "mst_limiter (snd ?c) = Some rl'" "slot_kept (st_install_limiter st) rl'"
    using slot_install [of "models_part st" "st_install_limiter st"] by fastforce
  then show ?thesis
    by (simp add: post_models_def Let_def split_beta slots_put PModelRequests)
qed (simp_all add: post_models_def Let_def split_beta slots_put reconciler_limiter)

lemma slots_post_content:
  "slots_kept st (snd (post_content sv dr route rq body json st))"
  "slots_kept st (snd (post_notes sv dr route rq json st))"
  "slots_kept st (snd (post_threads sv dr route rq json st))"
  by (cases route; simp add: post_content_def post_notes_def post_threads_def Let_def split_beta slots_other
      limiters_def)+

lemma slots_post_routed: "slots_kept st (snd (post_routed sv dr rq body st))"
  by (cases "route_post (path_of (rq_path rq))")
    (simp_all add: post_routed_def Let_def slots_post_chat slots_post_agent slots_post_services slots_post_models
      slots_post_content)

lemma slots_chat_stream: "slots_kept st (snd (serve_chat_stream sv dr rq st))"
proof (cases "content_length (rq_content_length rq)")
  case (Some n)
  note kept = slot_stream [of "(st_chat_limiter st, st_chats st)", simplified]
  show ?thesis
    using Some
    by (auto simp: serve_chat_stream_def split_beta slots_kept_def limiters_def kept)
qed (simp add: serve_chat_stream_def)

lemma slots_serve: "slots_kept st (snd (serve sv dr ticks verb rq st))"
proof (cases verb)
  case GET
  then show ?thesis
    by (cases "route_get (path_of (rq_path rq))")
      (auto simp: serve_def do_GET_def Let_def split_beta slots_other limiters_def)
next
  case POST
  then show ?thesis
    by (auto simp: serve_def do_POST_def slots_chat_stream post_handler_def slots_post_routed split_beta
        split: option.split)
next
  case DELETE
  then show ?thesis
    by (cases "route_delete (path_of (rq_path rq))")
      (auto simp: serve_def do_DELETE_def Let_def split_beta slots_other limiters_def)
qed

text \<open>Requests one after the other.\<close>

definition serve_all where
  "serve_all sv requests st = fold (\<lambda>(dr, ticks, verb, rq) st. snd (serve sv dr ticks verb rq st)) requests st"

text \<open>C6: No slot is ever lost.  After any sequence of requests, of any verb, path and body, answered, refused
  or ended by an exception anywhere in a handler, the free slots of each of the seven limiters (tools,
  comparison, documents, chat, installation, integrations, media) are as many as before: a handler that
  took a slot has given it back, and none gives back a slot it did not take.\<close>

theorem server_slots_return:
  "slots_kept st (serve_all sv requests st)"
proof (induction requests arbitrary: st)
  case (Cons q qs)
  obtain dr ticks verb rq where "q = (dr, ticks, verb, rq)"
    by (cases q)
  then show ?case
    using slots_kept_trans [OF slots_serve Cons.IH] by (simp add: serve_all_def)
qed (simp add: serve_all_def)

end
