(* ===== verification/ServerOwners.thy ===== *)
theory ServerOwners
  imports ServerGate
begin

text \<open>
  The personal stores of the server (notes, conversations, memories): what a request does to them, and that a
  user's view of them is out of reach of everyone else's requests, as a run of the server's steps.
\<close>

section \<open>What a request does to the personal stores\<close>

lemma personal_put [simp]:
  "st_notes (put_agent a st) = st_notes st" "st_convs (put_agent a st) = st_convs st"
  "st_memories (put_agent a st) = st_memories st"
  "st_notes (put_research r st) = st_notes st" "st_convs (put_research r st) = st_convs st"
  "st_memories (put_research r st) = st_memories st"
  "st_notes (put_mcp m st) = st_notes st" "st_convs (put_mcp m st) = st_convs st"
  "st_memories (put_mcp m st) = st_memories st"
  "st_notes (put_hub h st) = st_notes st" "st_convs (put_hub h st) = st_convs st"
  "st_memories (put_hub h st) = st_memories st"
  "st_notes (put_media md st) = st_notes st" "st_convs (put_media md st) = st_convs st"
  "st_memories (put_media md st) = st_memories st"
  "st_notes (put_compare c st) = st_notes st" "st_convs (put_compare c st) = st_convs st"
  "st_memories (put_compare c st) = st_memories st"
  "st_notes (put_documents c st) = st_notes st" "st_convs (put_documents c st) = st_convs st"
  "st_memories (put_documents c st) = st_memories st"
  "st_notes (put_models ms st) = st_notes st" "st_convs (put_models ms st) = st_convs st"
  "st_memories (put_models ms st) = st_memories st"
  by (simp_all add: part_defs)

definition personal_same where
  "personal_same st st' \<longleftrightarrow>
     st_notes st' = st_notes st \<and> st_convs st' = st_convs st \<and> st_memories st' = st_memories st"

lemma personal_agent: "personal_same st (snd (post_agent sv dr route rq json st))"
  by (cases route) (simp_all add: personal_same_def post_agent_def Let_def split_beta)

lemma personal_services: "personal_same st (snd (post_services sv dr route rq body json st))"
  by (cases route) (simp_all add: personal_same_def post_services_def Let_def split_beta)

lemma personal_models: "personal_same st (snd (post_models sv dr route rq json st))"
  by (cases route) (simp_all add: personal_same_def post_models_def Let_def split_beta)

lemma personal_chat: "personal_same st (snd (post_chat sv dr a json st))"
  by (simp add: personal_same_def post_chat_def split_beta)

lemma personal_stream: "personal_same st (snd (serve_chat_stream sv dr rq st))"
  by (simp add: personal_same_def serve_chat_stream_def split_beta split: option.split)

text \<open>A request touches a personal store as one request of that store's own handlers does.\<close>

definition note_made where
  "note_made sv dr rq s s' \<longleftrightarrow> s' = s \<or>
     (\<exists>q. note_auth q = rq_authorization rq \<and> s' = snd (notes_step (sv_notes sv) (sv_verifier sv) (dr_now dr) q s) \<and>
        (\<forall>a b uid. q = NoteCreate a b uid \<longrightarrow> uid = dr_uid dr))"

definition conv_made where
  "conv_made sv dr rq s s' \<longleftrightarrow> s' = s \<or>
     (\<exists>q. conv_auth q = rq_authorization rq \<and>
        s' = snd (conv_step (sv_conversations sv) (sv_verifier sv) (dr_now dr) q s) \<and>
        (\<forall>a b uid. q = ConvCreate a b uid \<longrightarrow> uid = dr_uid dr))"

definition memory_made where
  "memory_made sv dr rq s s' \<longleftrightarrow> s' = s \<or>
     (\<exists>q. memory_auth q = rq_authorization rq \<and>
        s' = snd (memory_step (sv_memory sv) (sv_embed sv) (sv_verifier sv) (dr_now dr) q s) \<and>
        (\<forall>a b uid. q = MemRecord a b uid \<longrightarrow> uid = dr_uid dr))"

definition personal_made where
  "personal_made sv dr rq st st' \<longleftrightarrow>
     note_made sv dr rq (st_notes st) (st_notes st') \<and> conv_made sv dr rq (st_convs st) (st_convs st') \<and>
     memory_made sv dr rq (st_memories st) (st_memories st')"

lemma personal_same_made: "personal_same st st' \<Longrightarrow> personal_made sv dr rq st st'"
  by (simp add: personal_same_def personal_made_def note_made_def conv_made_def memory_made_def)

lemma note_madeI:
  "note_made sv dr rq s (snd (build_note_create_response (sv_notes sv) (dr_now dr) (dr_uid dr) (rq_authorization rq) b
     (sv_verifier sv) s))"
  "note_made sv dr rq s (snd (build_note_update_response (sv_notes sv) (dr_now dr) (rq_authorization rq) i b
     (sv_verifier sv) s))"
  "note_made sv dr rq s (snd (build_note_delete_response (sv_notes sv) (rq_authorization rq) i (sv_verifier sv) s))"
  unfolding note_made_def
  by (rule disjI2, rule exI [of _ "NoteCreate (rq_authorization rq) b (dr_uid dr)"], simp)
    (rule disjI2, rule exI [of _ "NoteUpdate (rq_authorization rq) i b"], simp,
     rule disjI2, rule exI [of _ "NoteDelete (rq_authorization rq) i"], simp)

lemma conv_madeI:
  "conv_made sv dr rq s (snd (build_conversation_create_response (sv_conversations sv) (dr_now dr) (dr_uid dr)
     (rq_authorization rq) b (sv_verifier sv) s))"
  "conv_made sv dr rq s (snd (build_conversation_append_response (sv_conversations sv) (dr_now dr) (dr_uid dr)
     (rq_authorization rq) i b (sv_verifier sv) s))"
  "conv_made sv dr rq s (snd (build_conversation_delete_response (sv_conversations sv) (rq_authorization rq) i
     (sv_verifier sv) s))"
  unfolding conv_made_def
  by (rule disjI2, rule exI [of _ "ConvCreate (rq_authorization rq) b (dr_uid dr)"], simp add: split_beta)
    (rule disjI2, rule exI [of _ "ConvAppend (rq_authorization rq) i b (dr_uid dr)"], simp,
     rule disjI2, rule exI [of _ "ConvDelete (rq_authorization rq) i"], simp add: split_beta)

lemma memory_madeI:
  "memory_made sv dr rq s (snd (build_memory_record_response (sv_memory sv) (sv_embed sv) (dr_now dr) (dr_uid dr)
     (rq_authorization rq) b (sv_verifier sv) s))"
  "memory_made sv dr rq s (snd (build_memory_delete_response (sv_memory sv) (rq_authorization rq) i
     (sv_verifier sv) s))"
  unfolding memory_made_def
  by (rule disjI2, rule exI [of _ "MemRecord (rq_authorization rq) b (dr_uid dr)"], simp)
    (rule disjI2, rule exI [of _ "MemDelete (rq_authorization rq) i"], simp add: split_beta)

lemma made_refl [simp]: "note_made sv dr rq s s" "conv_made sv dr rq c c" "memory_made sv dr rq m m"
  by (simp_all add: note_made_def conv_made_def memory_made_def)

lemmas madeI = note_madeI conv_madeI memory_madeI

lemma personal_made_refl [simp]: "personal_made sv dr rq st st"
  by (simp add: personal_made_def)

lemmas personal_elsewhere = personal_agent [THEN personal_same_made] personal_services [THEN personal_same_made]
  personal_models [THEN personal_same_made] personal_chat [THEN personal_same_made]
  personal_stream [THEN personal_same_made]

lemma personal_content:
  "personal_made sv dr rq st (snd (post_content sv dr route rq body json st))"
  "personal_made sv dr rq st (snd (post_notes sv dr route rq json st))"
  "personal_made sv dr rq st (snd (post_threads sv dr route rq json st))"
  by (cases route; simp add: personal_made_def post_content_def post_notes_def post_threads_def Let_def split_beta
      madeI)+

lemma personal_routed: "personal_made sv dr rq st (snd (post_routed sv dr rq body st))"
  by (cases "route_post (path_of (rq_path rq))")
    (simp_all add: post_routed_def Let_def personal_content personal_elsewhere)

lemma serve_personal: "personal_made sv dr rq st (snd (serve sv dr ticks verb rq st))"
proof (cases verb)
  case GET
  have "personal_same st (snd (do_GET sv dr ticks rq st))"
    by (cases "route_get (path_of (rq_path rq))") (simp_all add: do_GET_def Let_def split_beta personal_same_def)
  then show ?thesis
    by (simp add: serve_def GET personal_same_made)
next
  case POST
  then show ?thesis
    by (auto simp: serve_def do_POST_def personal_elsewhere post_handler_def personal_routed split_beta
        split: option.split)
next
  case DELETE
  then show ?thesis
    by (cases "route_delete (path_of (rq_path rq))")
      (simp_all add: serve_def do_DELETE_def Let_def split_beta personal_made_def madeI)
qed

section \<open>Personal requests that read\<close>

fun personal_read :: "http_method \<Rightarrow> string \<Rightarrow> bool" where
  "personal_read GET path = (case route_get path of
     GNotes \<Rightarrow> True | GMemory \<Rightarrow> True | GConversations \<Rightarrow> True | GConversation _ \<Rightarrow> True | _ \<Rightarrow> False)"
| "personal_read POST path = (route_post path = PRecall)"
| "personal_read DELETE path = False"

lemma chat_stream_not_recall: "route_post CHAT_STREAM_PATH \<noteq> PRecall"
  by code_simp

section \<open>Everyone else's requests\<close>

text \<open>Requests, one after the other, none of them with a token of \<open>o'\<close>, each with an identifier that is new.\<close>

inductive served_others ::
    "('nf, 'nt, 'cv, 'mm, 'rt, 'mq, 'ts, 'o) server \<Rightarrow> owner
       \<Rightarrow> (('nf, 'nt, 'cv, 'mm, 'rt, 'mq, 'ts, 'o) server_state \<Rightarrow> string \<Rightarrow> bool)
       \<Rightarrow> ('nf, 'nt, 'cv, 'mm, 'rt, 'mq, 'ts, 'o) server_state
       \<Rightarrow> ('nf, 'nt, 'cv, 'mm, 'rt, 'mq, 'ts, 'o) server_state \<Rightarrow> bool"
  for sv o' fresh st where
  others_start: "served_others sv o' fresh st st"
| others_next: "served_others sv o' fresh st st' \<Longrightarrow> fresh st' (dr_uid dr) \<Longrightarrow>
    (\<And>claims. verify_and_extract (rq_authorization rq) (sv_verifier sv) = Inr claims \<Longrightarrow> owner_of claims \<noteq> o') \<Longrightarrow>
    served_others sv o' fresh st (snd (serve sv (dr :: draws) ticks verb (rq :: http_request) st'))"

text \<open>The view an owner has of the three stores, given how each store is viewed.\<close>

definition personal_view where
  "personal_view vn vc vm st o' = (vn (st_notes st) o', vc (st_convs st) o', vm (st_memories st) o')"

definition personal_fresh where
  "personal_fresh vn vc vm st uid \<longleftrightarrow>
     fresh_id ni_id vn (st_notes st) uid \<and> fresh_id cv_id vc (st_convs st) uid \<and> fresh_id sm_id vm (st_memories st) uid"

definition personal_inv where
  "personal_inv invn invc invm st \<longleftrightarrow> invn (st_notes st) \<and> invc (st_convs st) \<and> invm (st_memories st)"

locale personal_stores =
  nt: notes_store_contract vn invn store_n order_n +
  cv: conv_store_contract vc invc store_c add_c +
  mm: memory_store_contract vm invm store_m order_m sim_m
  for vn :: "'nt \<Rightarrow> owner \<Rightarrow> note_item list" and invn store_n order_n
    and vc :: "'cv \<Rightarrow> owner \<Rightarrow> conversation list" and invc store_c add_c
    and vm :: "'mm \<Rightarrow> owner \<Rightarrow> stored_memory list" and invm store_m order_m sim_m
begin

lemma note_keeps:
  assumes "note_made sv dr rq s s'" and "sv_notes sv = store_n" and "invn s" and "fresh_id ni_id vn s (dr_uid dr)"
    and "\<And>claims. verify_and_extract (rq_authorization rq) (sv_verifier sv) = Inr claims \<Longrightarrow> owner_of claims \<noteq> o'"
  shows "invn s' \<and> vn s' o' = vn s o'"
proof (cases "s' = s")
  case False
  then obtain q where q: "note_auth q = rq_authorization rq" "s' = snd (notes_step store_n (sv_verifier sv) (dr_now dr) q s)"
      "\<forall>a b uid. q = NoteCreate a b uid \<longrightarrow> uid = dr_uid dr"
    using assms(1,2) by (auto simp: note_made_def)
  then have "note_req_fresh vn s q"
    using assms(4) by (cases q) simp_all
  then show ?thesis
    using nt.step_inv nt.step_other_owner assms q by metis
qed (use assms in simp)

lemma conv_keeps:
  assumes "conv_made sv dr rq s s'" and "sv_conversations sv = store_c" and "invc s"
    and "fresh_id cv_id vc s (dr_uid dr)"
    and "\<And>claims. verify_and_extract (rq_authorization rq) (sv_verifier sv) = Inr claims \<Longrightarrow> owner_of claims \<noteq> o'"
  shows "invc s' \<and> vc s' o' = vc s o'"
proof (cases "s' = s")
  case False
  then obtain q where q: "conv_auth q = rq_authorization rq" "s' = snd (conv_step store_c (sv_verifier sv) (dr_now dr) q s)"
      "\<forall>a b uid. q = ConvCreate a b uid \<longrightarrow> uid = dr_uid dr"
    using assms(1,2) by (auto simp: conv_made_def)
  then have "conv_req_fresh vc s q"
    using assms(4) by (cases q) simp_all
  then show ?thesis
    using cv.step_inv cv.step_other_owner assms q by metis
qed (use assms in simp)

lemma memory_keeps:
  assumes "memory_made sv dr rq s s'" and "sv_memory sv = store_m" and "invm s" and "fresh_id sm_id vm s (dr_uid dr)"
    and "\<And>claims. verify_and_extract (rq_authorization rq) (sv_verifier sv) = Inr claims \<Longrightarrow> owner_of claims \<noteq> o'"
  shows "invm s' \<and> vm s' o' = vm s o'"
proof (cases "s' = s")
  case False
  then obtain q where q: "memory_auth q = rq_authorization rq"
      "s' = snd (memory_step store_m (sv_embed sv) (sv_verifier sv) (dr_now dr) q s)"
      "\<forall>a b uid. q = MemRecord a b uid \<longrightarrow> uid = dr_uid dr"
    using assms(1,2) by (auto simp: memory_made_def)
  then have "memory_req_fresh vm s q"
    using assms(4) by (cases q) simp_all
  then show ?thesis
    using mm.step_inv mm.step_other_owner assms q by metis
qed (use assms in simp)

definition wired where
  "wired sv \<longleftrightarrow> sv_notes sv = store_n \<and> sv_conversations sv = store_c \<and> sv_memory sv = store_m"

lemma others_keep:
  assumes "served_others sv o' (personal_fresh vn vc vm) st st'" and "wired sv" and "personal_inv invn invc invm st"
  shows "personal_inv invn invc invm st' \<and> personal_view vn vc vm st' o' = personal_view vn vc vm st o'"
  using assms(1)
proof induction
  case (others_next st' dr rq ticks verb)
  note made = serve_personal [of sv dr rq st' ticks verb, unfolded personal_made_def]
  let ?st = "snd (serve sv dr ticks verb rq st')"
  have "invn (st_notes ?st) \<and> vn (st_notes ?st) o' = vn (st_notes st') o'"
    by (rule note_keeps) (use made others_next assms(2) in \<open>auto simp: wired_def personal_fresh_def personal_inv_def\<close>)
  moreover have "invc (st_convs ?st) \<and> vc (st_convs ?st) o' = vc (st_convs st') o'"
    by (rule conv_keeps) (use made others_next assms(2) in \<open>auto simp: wired_def personal_fresh_def personal_inv_def\<close>)
  moreover have "invm (st_memories ?st) \<and> vm (st_memories ?st) o' = vm (st_memories st') o'"
    by (rule memory_keeps) (use made others_next assms(2) in \<open>auto simp: wired_def personal_fresh_def personal_inv_def\<close>)
  ultimately show ?case
    using others_next.IH by (simp add: personal_inv_def personal_view_def)
qed (use assms(3) in simp)

text \<open>What an owner reads of the three stores is a function of the view.\<close>

lemma read_same:
  assumes "wired sv" and "personal_inv invn invc invm st" and "personal_inv invn invc invm st'"
    and "personal_view vn vc vm st' o' = personal_view vn vc vm st o'"
    and v: "verify_and_extract (rq_authorization rq) (sv_verifier sv) = Inr claims" and o': "owner_of claims = o'"
    and r: "personal_read verb (path_of (rq_path rq))"
  shows "fst (serve sv dr ticks verb rq st') = fst (serve sv dr ticks verb rq st)"
proof -
  have inv: "invn (st_notes st)" "invn (st_notes st')" "invc (st_convs st)" "invc (st_convs st')"
      "invm (st_memories st)" "invm (st_memories st')"
    and view: "vn (st_notes st') o' = vn (st_notes st) o'" "vc (st_convs st') o' = vc (st_convs st) o'"
      "vm (st_memories st') o' = vm (st_memories st) o'"
    and stores: "sv_notes sv = store_n" "sv_conversations sv = store_c" "sv_memory sv = store_m"
    using assms(1-4) by (simp_all add: personal_inv_def personal_view_def wired_def)
  note seen = inv view v o' nt.list_view cv.list_view cv.get_view mm.list_view mm.recall_view stores
  show ?thesis
  proof (cases verb)
    case GET
    then show ?thesis
      using r
      by (cases "route_get (path_of (rq_path rq))")
        (simp_all add: seen serve_def do_GET_def Let_def build_notes_list_response_def build_memory_list_response_def
          build_conversations_list_response_def build_conversation_get_response_def)
  next
    case POST
    then have p: "route_post (path_of (rq_path rq)) = PRecall"
      using r by simp
    then have "path_of (rq_path rq) \<noteq> CHAT_STREAM_PATH"
      by (auto simp: chat_stream_not_recall)
    moreover have "build_memory_recall_response store_m em (rq_authorization rq) body (sv_verifier sv) (st_memories st')
        = build_memory_recall_response store_m em (rq_authorization rq) body (sv_verifier sv) (st_memories st)" for em body
      by (simp add: build_memory_recall_response_def seen split: sum.split prod.split option.split list.split)
    ultimately show ?thesis
      by (simp add: POST p stores serve_def do_POST_def post_handler_def post_routed_def post_content_def Let_def
          split: option.split)
  next
    case DELETE
    then show ?thesis
      using r by simp
  qed
qed

end

interpretation production: personal_stores "table_view ni_owner" "table_ok ni_id" PostgresNotesStore
  "sort_desc ni_created_at" pg_conv_view pg_conv_ok PostgresConversationStore pg_add
  "table_view sm_owner" "table_ok sm_id" "PostgresMemoryStore vdist" "sort_desc (\<lambda>x. me_created_at (fst x))"
  "\<lambda>q v. 1 - vdist v q" for vdist
  by unfold_locales

interpretation development: personal_stores bucket "buckets_ok ni_owner ni_id" InMemoryNotesStore rev
  mem_conv_view mem_conv_ok InMemoryConversationStore mem_add
  bucket "buckets_ok sm_owner sm_id" InMemoryMemoryStore rev cosine
  by unfold_locales

section \<open>Properties\<close>

text \<open>C1: The server keeps users apart.  On the PostgreSQL stores, after any sequence of requests of any kind made
  with anybody's token but a given user's (or with none), that user's notes, conversations and memories are
  what they were, item for item, and every request of theirs that reads them (the lists, a conversation, a
  recall) is answered as it would have been before.  New identifiers are assumed fresh.\<close>

theorem server_owner_isolated:
  assumes "served_others sv o' (personal_fresh (table_view ni_owner) pg_conv_view (table_view sm_owner)) st st'"
    and "sv_notes sv = PostgresNotesStore" "sv_conversations sv = PostgresConversationStore"
    and "sv_memory sv = PostgresMemoryStore vdist"
    and "personal_inv (table_ok ni_id) pg_conv_ok (table_ok sm_id) st"
  shows "personal_view (table_view ni_owner) pg_conv_view (table_view sm_owner) st' o' =
         personal_view (table_view ni_owner) pg_conv_view (table_view sm_owner) st o' \<and>
    (verify_and_extract (rq_authorization rq) (sv_verifier sv) = Inr claims \<and> owner_of claims = o' \<and>
     personal_read verb (path_of (rq_path rq)) \<longrightarrow>
       fst (serve sv dr ticks verb rq st') = fst (serve sv dr ticks verb rq st))"
proof -
  have w: "production.wired vdist sv"
    using assms(2-4) by (simp add: production.wired_def)
  note kept = production.others_keep [OF assms(1) w assms(5)]
  show ?thesis
    using kept production.read_same [OF w assms(5)] by blast
qed

theorem server_owner_isolated_witness:
  "let alice = plain_request (Some ''Bearer ta'') ''/v1/notes/n1''; bob = plain_request (Some ''Bearer tb'') ''/v1/notes'';
       st = example_state; st' = snd (serve example_server example_draws [] DELETE alice st)
   in table_view ni_owner (st_notes st') (''b.io'', ''bob'') = [example_note] \<and>
      fst (serve example_server example_draws [] GET bob st') = fst (serve example_server example_draws [] GET bob st)"
proof -
  let ?fresh = "personal_fresh (table_view ni_owner) pg_conv_view (table_view sm_owner)"
  let ?alice = "plain_request (Some ''Bearer ta'') ''/v1/notes/n1''" and ?bob = "plain_request (Some ''Bearer tb'') ''/v1/notes''"
  have "served_others example_server (''b.io'', ''bob'') ?fresh example_state
      (snd (serve example_server example_draws [] DELETE ?alice example_state))"
    by (rule others_next [OF others_start])
      (simp_all add: example_state_def example_draws_def personal_fresh_def fresh_id_def table_view_def example_note_def
        pg_conv_view_def plain_request_def example_server_def Let_def)
  moreover have "personal_inv (table_ok ni_id) pg_conv_ok (table_ok sm_id) example_state"
    by (simp add: personal_inv_def example_state_def Let_def table_ok_def pg_conv_ok_def)
  moreover have "route_get (path_of ''/v1/notes'') = GNotes"
    by code_simp
  ultimately show ?thesis
    using server_owner_isolated [where sv = example_server and o' = "(''b.io'', ''bob'')" and st = example_state
        and st' = "snd (serve example_server example_draws [] DELETE ?alice example_state)" and vdist = "\<lambda>_ _. 0"
        and rq = ?bob and claims = bob_claims and verb = GET and dr = example_draws and ticks = "[]"]
    by (simp add: example_server_def plain_request_def Let_def personal_view_def example_state_def table_view_def
        example_note_def ni_owner_def)
qed

end
