(* ===== verification/Embeddings.thy ===== *)
theory Embeddings
  imports Retrieval Config
begin

text \<open>
  The in-cluster embedding client (app/control_plane/embeddings.py, \<^verbatim>\<open>InferenceEmbeddingClient\<close>): the request,
  the checks of the answer, and the order of its vectors, which the backend need not keep.  The HTTP call is the
  parameter \<open>http\<close>.
\<close>

section \<open>The client\<close>

datatype embed_exn = EmbeddingError | EmbedRaised py_exn

text \<open>What \<^verbatim>\<open>urlopen\<close> and \<^verbatim>\<open>json.loads\<close> gave: \<open>EmbedBody None\<close> is a body that is not JSON, \<open>EmbedUnreachable\<close> a
  \<^verbatim>\<open>URLError\<close>, \<^verbatim>\<open>TimeoutError\<close> or \<^verbatim>\<open>OSError\<close>.\<close>

datatype embed_wire = EmbedBody "json option" | EmbedHttpError nat | EmbedUnreachable

definition embed_url :: "string \<Rightarrow> string" where
  "embed_url base_url = py_rstrip_by (\<lambda>c. c = CHR ''/'') base_url @ ''/v1/embeddings''"

definition embed_payload :: "string \<Rightarrow> string list \<Rightarrow> json" where
  "embed_payload model texts = JObj [(''model'', JStr model), (''input'', JArr (map JStr texts))]"

text \<open>\<^verbatim>\<open>x < y\<close> on two keys: numbers, or strings; anything else is a \<^verbatim>\<open>TypeError\<close> (so are two lists here, which
  Python compares).\<close>

fun number_of :: "json \<Rightarrow> pyfloat option" where
  "number_of (JBool b) = Some (Fin (if b then 1 else 0))"
| "number_of (JInt i) = Some (Fin (of_int i))"
| "number_of (JFloat x) = Some x"
| "number_of v = None"

fun number_less :: "pyfloat \<Rightarrow> pyfloat \<Rightarrow> bool" where
  "number_less (Fin a) (Fin b) = (a < b)"
| "number_less NegInf y = (y \<noteq> NegInf \<and> y \<noteq> NaN)"
| "number_less x PosInf = (x \<noteq> PosInf \<and> x \<noteq> NaN)"
| "number_less x y = False"

fun string_less :: "string \<Rightarrow> string \<Rightarrow> bool" where
  "string_less xs [] = False"
| "string_less [] (y # ys) = True"
| "string_less (x # xs) (y # ys) = (if x = y then string_less xs ys else ord_of x < ord_of y)"

definition key_less :: "json \<Rightarrow> json \<Rightarrow> py_exn + bool" where
  "key_less x y =
     (case (number_of x, number_of y) of
        (Some a, Some b) \<Rightarrow> Inr (number_less a b)
      | _ \<Rightarrow> (case (x, y) of (JStr s, JStr t) \<Rightarrow> Inr (string_less s t) | _ \<Rightarrow> Inl TypeError))"

text \<open>\<^verbatim>\<open>sorted(items, key=lambda d: d.get("index", 0))\<close>: all keys first, then a stable sort by insertion.\<close>

fun with_keys :: "json list \<Rightarrow> py_exn + (json \<times> json) list" where
  "with_keys [] = Inr []"
| "with_keys (item # items) =
     (case item of
        JObj d \<Rightarrow> ebind (with_keys items) (\<lambda>ks. Inr ((dget_or d ''index'' (JInt 0), item) # ks))
      | _ \<Rightarrow> Inl AttributeError)"

fun insert_key :: "json \<times> json \<Rightarrow> (json \<times> json) list \<Rightarrow> py_exn + (json \<times> json) list" where
  "insert_key p [] = Inr [p]"
| "insert_key p (q # qs) =
     ebind (key_less (fst p) (fst q)) (\<lambda>less.
     if less then Inr (p # q # qs) else ebind (insert_key p qs) (\<lambda>r. Inr (q # r)))"

fun sort_keyed :: "(json \<times> json) list \<Rightarrow> (json \<times> json) list \<Rightarrow> py_exn + (json \<times> json) list" where
  "sort_keyed [] done = Inr done"
| "sort_keyed (p # ps) done = ebind (insert_key p done) (\<lambda>r. sort_keyed ps r)"

text \<open>\<^verbatim>\<open>float(x)\<close>; an integer beyond the largest double raises.\<close>

definition to_float :: "json \<Rightarrow> py_exn + pyfloat" where
  "to_float v =
     (case v of
        JStr s \<Rightarrow> (case py_float s of None \<Rightarrow> Inl ValueError | Some x \<Rightarrow> Inr x)
      | JInt i \<Rightarrow> if 2 ^ 1024 - 2 ^ 970 \<le> \<bar>i\<bar> then Inl OverflowError else Inr (Fin (of_int i))
      | _ \<Rightarrow> (case number_of v of None \<Rightarrow> Inl TypeError | Some x \<Rightarrow> Inr x))"

fun floats :: "json list \<Rightarrow> py_exn + pyfloat list" where
  "floats [] = Inr []"
| "floats (x # xs) = ebind (to_float x) (\<lambda>f. ebind (floats xs) (\<lambda>fs. Inr (f # fs)))"

definition item_vector :: "nat \<Rightarrow> json \<Rightarrow> embed_exn + pyfloat list" where
  "item_vector dims item =
     (case item of
        JObj d \<Rightarrow>
          (case dget d ''embedding'' of
             JArr vec \<Rightarrow> if length vec \<noteq> dims then Inl EmbeddingError else map_sum EmbedRaised id (floats vec)
           | _ \<Rightarrow> Inl EmbeddingError)
      | _ \<Rightarrow> Inl EmbeddingError)"

fun item_vectors :: "nat \<Rightarrow> json list \<Rightarrow> embed_exn + pyfloat list list" where
  "item_vectors dims [] = Inr []"
| "item_vectors dims (item # items) =
     ebind (item_vector dims item) (\<lambda>v. ebind (item_vectors dims items) (\<lambda>vs. Inr (v # vs)))"

definition read_vectors :: "nat \<Rightarrow> nat \<Rightarrow> json \<Rightarrow> embed_exn + pyfloat list list" where
  "read_vectors dims n data =
     (case (case data of JObj d \<Rightarrow> dget d ''data'' | _ \<Rightarrow> JNull) of
        JArr items \<Rightarrow>
          if length items \<noteq> n then Inl EmbeddingError
          else (case ebind (with_keys items) (\<lambda>ks. sort_keyed ks []) of
                  Inl ex \<Rightarrow> Inl (EmbedRaised ex)
                | Inr sorted_items \<Rightarrow> item_vectors dims (map snd sorted_items))
      | _ \<Rightarrow> Inl EmbeddingError)"

definition inference_embed ::
    "(string \<Rightarrow> json \<Rightarrow> embed_wire) \<Rightarrow> string \<Rightarrow> string \<Rightarrow> nat \<Rightarrow> string list \<Rightarrow> embed_exn + pyfloat list list" where
  "inference_embed http base_url model dims texts =
     (case http (embed_url base_url) (embed_payload model texts) of
        EmbedHttpError code \<Rightarrow> Inl EmbeddingError
      | EmbedUnreachable \<Rightarrow> Inl EmbeddingError
      | EmbedBody None \<Rightarrow> Inl (EmbedRaised ValueError)
      | EmbedBody (Some data) \<Rightarrow> read_vectors dims (length texts) data)"

section \<open>Lemmas\<close>

lemma floats_length: "floats xs = Inr fs \<Longrightarrow> length fs = length xs"
  by (induction xs arbitrary: fs) (auto simp: ebind_Inr)

lemma item_vector_length: "item_vector dims item = Inr v \<Longrightarrow> length v = dims"
  by (auto simp: item_vector_def map_sum_def dest: floats_length split: json.splits if_splits sum.splits)

lemma item_vectors_shape: "item_vectors dims items = Inr vs \<Longrightarrow> length vs = length items \<and> (\<forall>v\<in>set vs. length v = dims)"
  by (induction items arbitrary: vs) (auto simp: ebind_Inr dest: item_vector_length)

lemma with_keys_length: "with_keys items = Inr ks \<Longrightarrow> length ks = length items"
  by (induction items arbitrary: ks) (auto simp: ebind_Inr split: json.splits)

lemma insert_key_length: "insert_key p qs = Inr r \<Longrightarrow> length r = Suc (length qs)"
  by (induction qs arbitrary: r) (auto simp: ebind_Inr split: if_splits)

lemma sort_keyed_length: "sort_keyed ps acc = Inr r \<Longrightarrow> length r = length ps + length acc"
  by (induction ps arbitrary: acc r) (auto simp: ebind_Inr dest: insert_key_length)

text \<open>On integer keys the sort is a sort.\<close>

definition int_keyed :: "(json \<times> json) list \<Rightarrow> bool" where
  "int_keyed ps \<longleftrightarrow> (\<forall>p\<in>set ps. \<exists>k. fst p = JInt k)"

fun key_int :: "json \<times> json \<Rightarrow> int" where
  "key_int (JInt k, item) = k"
| "key_int p = 0"

lemma key_less_int: "\<exists>a. x = JInt a \<Longrightarrow> \<exists>b. y = JInt b \<Longrightarrow> key_less x y = Inr (key_int (x, u) < key_int (y, w))"
  by (auto simp: key_less_def)

lemma insert_key_int:
  assumes "int_keyed (p # qs)" and "sorted (map key_int qs)"
  shows "\<exists>r. insert_key p qs = Inr r \<and> mset r = add_mset p (mset qs) \<and> sorted (map key_int r)"
  using assms
proof (induction qs)
  case (Cons q qs)
  have less: "key_less (fst p) (fst q) = Inr (key_int p < key_int q)"
    using key_less_int [of "fst p" "fst q" "snd p" "snd q"] Cons.prems(1) by (simp add: int_keyed_def)
  show ?case
  proof (cases "key_int p < key_int q")
    case True
    then show ?thesis
      using Cons.prems(2) by (fastforce simp: less)
  next
    case False
    have "int_keyed (p # qs)" "sorted (map key_int qs)"
      using Cons.prems by (simp_all add: int_keyed_def)
    then obtain r where r: "insert_key p qs = Inr r" "mset r = add_mset p (mset qs)" "sorted (map key_int r)"
      using Cons.IH by blast
    have "set r = insert p (set qs)"
      using r(2) by (metis set_mset_add_mset_insert set_mset_mset)
    then show ?thesis
      using r False Cons.prems(2) by (auto simp: less)
  qed
qed simp

lemma sort_keyed_int:
  assumes "int_keyed (ps @ acc)" and "sorted (map key_int acc)"
  shows "\<exists>r. sort_keyed ps acc = Inr r \<and> mset r = mset ps + mset acc \<and> sorted (map key_int r)"
  using assms
proof (induction ps arbitrary: acc)
  case (Cons p ps)
  have "int_keyed (p # acc)"
    using Cons.prems(1) by (simp add: int_keyed_def)
  then obtain a where a: "insert_key p acc = Inr a" "mset a = add_mset p (mset acc)" "sorted (map key_int a)"
    using insert_key_int Cons.prems(2) by blast
  have "set a = insert p (set acc)"
    using a(2) by (metis set_mset_add_mset_insert set_mset_mset)
  then have "int_keyed (ps @ a)"
    using Cons.prems(1) by (auto simp: int_keyed_def)
  from Cons.IH [OF this a(3)] show ?case
    using a by auto
qed simp

lemma key_int_order:
  assumes "mset r = mset t" and "sorted (map key_int r)" and "sorted (map key_int t)" and "distinct (map key_int t)"
  shows "r = t"
proof -
  have "mset (map key_int r) = mset (map key_int t)"
    using assms(1) by simp
  then have keys: "map key_int r = map key_int t"
    using properties_for_sort [OF _ assms(2)] properties_for_sort [OF refl assms(3)] by metis
  have "set r = set t"
    using assms(1) by (metis set_mset_mset)
  then have "inj_on key_int (set r \<union> set t)"
    using assms(4) by (simp add: distinct_map)
  then show ?thesis
    using keys by (rule map_inj_on [rotated])
qed

lemma floats_map: "floats (map JFloat xs) = Inr xs"
  by (induction xs) (simp_all add: to_float_def)

text \<open>The entry of the \<open>i\<close>-th text in an answer.\<close>

definition entry_of :: "nat \<Rightarrow> pyfloat list \<Rightarrow> json \<Rightarrow> bool" where
  "entry_of i v item \<longleftrightarrow>
     (\<exists>d. item = JObj d \<and> dget_or d ''index'' (JInt 0) = JInt (int i) \<and> dget d ''embedding'' = JArr (map JFloat v))"

definition keyed :: "json \<Rightarrow> json \<times> json" where
  "keyed item = ((case item of JObj d \<Rightarrow> dget_or d ''index'' (JInt 0) | _ \<Rightarrow> JNull), item)"

lemma with_keys_keyed: "\<forall>item\<in>set items. \<exists>d. item = JObj d \<Longrightarrow> with_keys items = Inr (map keyed items)"
  by (induction items) (auto simp: keyed_def)

lemma keyed_entry: "entry_of i v item \<Longrightarrow> keyed item = (JInt (int i), item)"
  by (auto simp: entry_of_def keyed_def)

lemma item_vectors_entries:
  assumes "length items = length vs" and "\<forall>i<length vs. entry_of i (vs ! i) (items ! i) \<and> length (vs ! i) = dims"
  shows "item_vectors dims items = Inr vs"
proof -
  have "item_vectors dims items = Inr vs"
    if "list_all2 (\<lambda>item v. (\<exists>i. entry_of i v item) \<and> length v = dims) items vs" for items vs
    using that
    by (induction rule: list_all2_induct) (auto simp: item_vector_def entry_of_def floats_map)
  moreover have "list_all2 (\<lambda>item v. (\<exists>i. entry_of i v item) \<and> length v = dims) items vs"
    using assms by (auto simp: list_all2_conv_all_nth)
  ultimately show ?thesis .
qed

lemma read_vectors_order:
  assumes data: "dget d0 ''data'' = JArr items" and perm: "mset items = mset answers"
    and len: "length answers = length vs"
    and entries: "\<forall>i<length vs. entry_of i (vs ! i) (answers ! i) \<and> length (vs ! i) = dims"
  shows "read_vectors dims (length vs) (JObj d0) = Inr vs"
proof -
  have same: "set items = set answers"
    using perm by (metis set_mset_mset)
  have each: "\<exists>i v. entry_of i v item" if "item \<in> set answers" for item
    using that entries len by (auto simp: in_set_conv_nth)
  have "\<forall>item\<in>set items. \<exists>d. item = JObj d"
    using each same by (auto simp: entry_of_def)
  then have ks: "with_keys items = Inr (map keyed items)"
    by (rule with_keys_keyed)
  have "int_keyed (map keyed items)"
    using each same keyed_entry by (fastforce simp: int_keyed_def)
  then obtain r where r: "sort_keyed (map keyed items) [] = Inr r" "mset r = mset (map keyed items)"
    "sorted (map key_int r)"
    using sort_keyed_int [of "map keyed items" "[]"] by auto
  have keys: "map key_int (map keyed answers) = map int [0..<length vs]"
    by (rule nth_equalityI) (use entries len in \<open>auto simp: keyed_entry\<close>)
  have "r = map keyed answers"
  proof (rule key_int_order)
    show "mset r = mset (map keyed answers)"
      using r(2) perm by simp
    show "sorted (map key_int (map keyed answers))" "distinct (map key_int (map keyed answers))"
      unfolding keys by (simp_all add: distinct_map inj_on_def sorted_map)
  qed (rule r(3))
  then have "map snd r = answers"
    by (simp add: keyed_def comp_def)
  moreover have "length items = length vs"
    using perm len by (metis mset_eq_length)
  ultimately show ?thesis
    using item_vectors_entries [OF len entries] by (simp add: read_vectors_def data ks r(1))
qed

lemma read_vectors_shape: "read_vectors dims n data = Inr vs \<Longrightarrow> length vs = n \<and> (\<forall>v\<in>set vs. length v = dims)"
  by (auto simp: read_vectors_def ebind_Inr dest!: item_vectors_shape with_keys_length sort_keyed_length
      split: json.splits if_splits sum.splits)

section \<open>Property\<close>

text \<open>C25: The vectors come back in the order of the texts.  Whatever the order in which the backend lists its entries,
  each with the index of its text and a vector of the model's dimension, the client returns the vector of each
  text at the place of that text; and whatever the backend answers, what the client returns is one vector of
  that dimension for each text.\<close>

theorem embedding_in_order:
  assumes "http (embed_url base_url) (embed_payload model texts) = EmbedBody (Some (JObj d0))"
    and "dget d0 ''data'' = JArr items" and "mset items = mset answers"
    and "length answers = length texts" and "length vs = length texts"
    and "\<forall>i<length texts. entry_of i (vs ! i) (answers ! i) \<and> length (vs ! i) = dims"
  shows "inference_embed http base_url model dims texts = Inr vs \<and>
    (inference_embed http2 base_url2 model2 dims2 texts2 = Inr vs2 \<longrightarrow>
       length vs2 = length texts2 \<and> (\<forall>v\<in>set vs2. length v = dims2))"
proof
  show "inference_embed http base_url model dims texts = Inr vs"
    using read_vectors_order [OF assms(2,3), of vs dims] assms(1,4-6) by (simp add: inference_embed_def)
  show "inference_embed http2 base_url2 model2 dims2 texts2 = Inr vs2 \<longrightarrow>
      length vs2 = length texts2 \<and> (\<forall>v\<in>set vs2. length v = dims2)"
    by (auto simp: inference_embed_def dest!: read_vectors_shape split: embed_wire.splits option.splits)
qed

definition example_entry :: "int \<Rightarrow> rat \<Rightarrow> json" where
  "example_entry i x = JObj [(''index'', JInt i), (''embedding'', JArr [JFloat (Fin x), JFloat (Fin 0)])]"

theorem embedding_in_order_witness:
  "inference_embed (\<lambda>_ _. EmbedBody (Some (JObj [(''data'', JArr [example_entry 1 7, example_entry 0 5])])))
     ''http://embed/'' ''m'' 2 [''a'', ''b''] = Inr [[Fin 5, Fin 0], [Fin 7, Fin 0]]"
proof -
  have "entry_of 0 [Fin 5, Fin 0] (example_entry 0 5)" "entry_of 1 [Fin 7, Fin 0] (example_entry 1 7)"
    by (simp_all add: entry_of_def example_entry_def dget_or_def dget_def)
  then show ?thesis
    using embedding_in_order [of "\<lambda>_ _. EmbedBody (Some (JObj [(''data'', JArr [example_entry 1 7, example_entry 0 5])]))"
        "''http://embed/''" "''m''" "[''a'', ''b'']" _ _ "[example_entry 0 5, example_entry 1 7]"
        "[[Fin 5, Fin 0], [Fin 7, Fin 0]]" 2]
    by (simp add: dget_def less_Suc_eq nth_Cons split: nat.split)
qed

end
