(* ===== verification/Logging.thy ===== *)
theory Logging
  imports Policy
begin

text \<open>
  The structured log (app/control_plane/logging_config.py, \<^verbatim>\<open>_JsonFormatter\<close>): one JSON object for each record, with
  the request's identifiers, the class of an exception and the audit payload of a tool call.
\<close>

section \<open>The formatter\<close>

text \<open>\<^verbatim>\<open>json.dumps(v, ensure_ascii=False)\<close>: control characters, quotes and backslashes are escaped, the rest kept.\<close>

definition raw_char :: "char \<Rightarrow> string" where
  "raw_char c = (if 127 \<le> ord_of c then [c] else dumps_char c)"

definition raw_str :: "string \<Rightarrow> string" where
  "raw_str s = [CHR 0x22] @ concat (map raw_char s) @ [CHR 0x22]"

fun raw_dumps :: "(rat \<Rightarrow> string) \<Rightarrow> json \<Rightarrow> string" where
  "raw_dumps fr (JStr s) = raw_str s"
| "raw_dumps fr (JArr xs) = ''['' @ py_join '', '' (map (raw_dumps fr) xs) @ '']''"
| "raw_dumps fr (JObj d) = ''{'' @ py_join '', '' (map (\<lambda>(k, v). raw_str k @ '': '' @ raw_dumps fr v) d) @ ''}''"
| "raw_dumps fr v = json_dumps fr v"

text \<open>The context of a request (the two context variables and the span's trace id, empty where there is none).\<close>

record log_context =
  lc_request_id :: string
  lc_correlation_id :: string
  lc_trace_id :: string

definition set_request_context :: "string \<Rightarrow> string \<Rightarrow> log_context \<Rightarrow> log_context" where
  "set_request_context request_id correlation_id c = c\<lparr>lc_request_id := request_id, lc_correlation_id := correlation_id\<rparr>"

definition clear_request_context :: "log_context \<Rightarrow> log_context" where
  "clear_request_context c = c\<lparr>lc_request_id := [], lc_correlation_id := []\<rparr>"

text \<open>\<open>lr_asctime\<close> is \<^verbatim>\<open>strftime\<close> of the local time, \<open>lr_exc\<close> the class and the text of the exception (no class for an
  empty \<^verbatim>\<open>exc_info\<close>), \<open>lr_audit\<close> the \<^verbatim>\<open>audit\<close> attribute.\<close>

record log_record =
  lr_asctime :: string
  lr_msecs :: nat
  lr_levelname :: string
  lr_name :: string
  lr_message :: string
  lr_exc :: "(string option \<times> string) option"
  lr_audit :: "json option"

definition log_entry :: "log_context \<Rightarrow> log_record \<Rightarrow> dict" where
  "log_entry c r =
     (let given = (\<lambda>k v. if v = [] then [] else [(k, JStr v)]) in
      [(''timestamp'', JStr (lr_asctime r @ ''.'' @ pad_left 3 (str_nat (lr_msecs r)) @ ''Z'')),
       (''level'', JStr (lr_levelname r)), (''logger'', JStr (lr_name r)), (''message'', JStr (lr_message r))]
      @ given ''request_id'' (lc_request_id c) @ given ''correlation_id'' (lc_correlation_id c)
      @ given ''trace_id'' (lc_trace_id c)
      @ (case lr_exc r of
           None \<Rightarrow> []
         | Some (cls, txt) \<Rightarrow> [(''exc_type'', JStr (case cls of None \<Rightarrow> ''unknown'' | Some n \<Rightarrow> n))])
      @ (case lr_audit r of Some (JObj d) \<Rightarrow> [(''audit'', JObj d)] | _ \<Rightarrow> []))"

definition log_format :: "(rat \<Rightarrow> string) \<Rightarrow> log_context \<Rightarrow> log_record \<Rightarrow> string" where
  "log_format fr c r = raw_dumps fr (JObj (log_entry c r))"

text \<open>What the handler's stream receives for a record: the line and its terminator.\<close>

definition log_line :: "(rat \<Rightarrow> string) \<Rightarrow> log_context \<Rightarrow> log_record \<Rightarrow> string" where
  "log_line fr c r = log_format fr c r @ [CHR 0x0A]"

section \<open>The audit record\<close>

definition shape_json :: "string \<times> string \<times> nat option \<Rightarrow> string \<times> json" where
  "shape_json a = (case a of (k, t, n) \<Rightarrow> (k, JObj [(''type'', JStr t), (''size'', jopt (\<lambda>n. JInt (int n)) n)]))"

definition audit_json :: "audit_entry \<Rightarrow> json" where
  "audit_json e =
     JObj [(''event'', JStr ''tool_invocation''), (''tenant_id'', JStr (au_tenant_id e)),
           (''user_id'', JStr (au_user_id e)), (''tool'', JStr (au_tool e)), (''decision'', JStr (au_decision e)),
           (''arg_shape'', JObj (map shape_json (au_arg_shape e))), (''result_class'', jopt JStr (au_result_class e)),
           (''latency_ms'', jopt JInt (au_latency_ms e)), (''sandbox_exit_code'', jopt JInt (au_exit_code e))]"

definition audit_record :: "string \<Rightarrow> nat \<Rightarrow> audit_entry \<Rightarrow> log_record" where
  "audit_record asctime msecs e =
     \<lparr>lr_asctime = asctime, lr_msecs = msecs, lr_levelname = ''INFO'', lr_name = ''app.control_plane.agent_tools'',
      lr_message = ''tool_invocation'', lr_exc = None, lr_audit = Some (audit_json e)\<rparr>"

section \<open>One record, one line\<close>

definition no_controls :: "string \<Rightarrow> bool" where
  "no_controls s \<longleftrightarrow> (\<forall>c\<in>set s. 32 \<le> ord_of c)"

lemma no_controls_append [simp]: "no_controls (s @ t) \<longleftrightarrow> no_controls s \<and> no_controls t"
  by (auto simp: no_controls_def)

lemma no_controls_Cons [simp]: "no_controls (c # s) \<longleftrightarrow> 32 \<le> ord_of c \<and> no_controls s"
  by (simp add: no_controls_def)

lemma no_controls_Nil [simp]: "no_controls []"
  by (simp add: no_controls_def)

lemma ord_of_char_of_small: "n < 256 \<Longrightarrow> ord_of (char_of n) = n"
  by (simp add: ord_of_def)

lemma no_controls_hex: "n < 16 \<Longrightarrow> 32 \<le> ord_of (hex_digit n)"
  by (simp add: hex_digit_def ord_of_char_of_small)

lemma no_controls_char: "no_controls (raw_char c)"
proof -
  have "ord_of c < 16 * 16"
    by (simp add: ord_of_def)
  then have "ord_of c div 16 < 16" "ord_of c mod 16 < 16"
    by (rule less_mult_imp_div_less) simp
  then have "32 \<le> ord_of (hex_digit (ord_of c div 16))" "32 \<le> ord_of (hex_digit (ord_of c mod 16))"
    by (simp_all add: no_controls_hex)
  then show ?thesis
    by (simp add: raw_char_def dumps_char_def Let_def ord_of_char_of_small) (simp add: ord_of_def)
qed

lemma no_controls_str: "no_controls (raw_str s)"
proof -
  have "no_controls (concat (map raw_char s))"
    by (induction s) (simp_all add: no_controls_char)
  then show ?thesis
    by (simp add: raw_str_def ord_of_def)
qed

lemma no_controls_join: "no_controls sep \<Longrightarrow> list_all no_controls ws \<Longrightarrow> no_controls (py_join sep ws)"
  by (induction sep ws rule: py_join.induct) simp_all

lemma no_controls_str_nat: "no_controls (str_nat n)"
proof (induction n rule: str_nat.induct)
  case (1 n)
  have "32 \<le> ord_of (char_of (48 + k :: nat))" if "k < 10" for k
    using that by (simp add: ord_of_char_of_small)
  then show ?case
    using 1 by (subst str_nat.simps) auto
qed

lemma no_controls_dumps:
  assumes "\<And>q. no_controls (fr q)"
  shows "no_controls (raw_dumps fr v)"
proof (induction v)
  case (JFloat f)
  show ?case
    using assms by (cases f) (simp_all add: ord_of_def)
next
  case (JArr xs)
  then show ?case
    by (simp add: ord_of_def no_controls_join list_all_iff)
next
  case (JObj d)
  have "list_all no_controls (map (\<lambda>(k, v). raw_str k @ '': '' @ raw_dumps fr v) d)"
    using JObj by (fastforce simp: list_all_iff no_controls_str ord_of_def)
  then show ?case
    by (simp add: ord_of_def no_controls_join)
qed (simp_all add: no_controls_str str_int_def no_controls_str_nat ord_of_def)

lemma no_newline: "no_controls s \<Longrightarrow> CHR 0x0A \<notin> set s"
  by (auto simp: no_controls_def ord_of_def)

lemma split_char_first: "c \<notin> set s \<Longrightarrow> split_char c (s @ c # t) = s # split_char c t"
  by (induction s) auto

section \<open>Property\<close>

text \<open>C24: The log of the JSON formatter, which is the default (with \<^verbatim>\<open>LOG_FORMAT=text\<close> a plain formatter writes the
  records instead, and none of this holds), cannot be forged and does not carry content.  Whatever messages, correlation ids (which callers
  choose), audit payloads and exceptions the records hold, the log splits at its newlines into exactly one line
  for each record; the text of an exception leaves no trace in its line; and two tool calls whose arguments
  have the same names, types and sizes are logged alike.\<close>

theorem log_lines_safe:
  assumes "\<And>q. no_controls (fr q)"
  shows "split_char (CHR 0x0A) (concat (map (\<lambda>(c, r). log_line fr c r) recs)) =
      map (\<lambda>(c, r). log_format fr c r) recs @ [[]] \<and>
    log_line fr c (r\<lparr>lr_exc := Some (cls, txt)\<rparr>) = log_line fr c (r\<lparr>lr_exc := Some (cls, txt')\<rparr>) \<and>
    (list_all2 (\<lambda>(k, v) (k', w). k = k' \<and> same_shape v w) args args' \<longrightarrow>
       map (\<lambda>e. log_line fr c (audit_record t ms e)) (audit who tool (json_args args) dc rc lat ec entries) =
       map (\<lambda>e. log_line fr c (audit_record t ms e)) (audit who tool (json_args args') dc rc lat ec entries))"
proof (intro conjI impI)
  have line: "CHR 0x0A \<notin> set (log_format fr c r)" for c r
    unfolding log_format_def by (rule no_newline [OF no_controls_dumps [OF assms]])
  show "split_char (CHR 0x0A) (concat (map (\<lambda>(c, r). log_line fr c r) recs)) =
      map (\<lambda>(c, r). log_format fr c r) recs @ [[]]"
    by (induction recs) (auto simp: log_line_def split_char_first [OF line])
  show "log_line fr c (r\<lparr>lr_exc := Some (cls, txt)\<rparr>) = log_line fr c (r\<lparr>lr_exc := Some (cls, txt')\<rparr>)"
    by (simp add: log_line_def log_format_def log_entry_def Let_def)
qed (simp add: audit_shape_only)

theorem log_lines_safe_witness:
  "split_char (CHR 0x0A) (log_line (\<lambda>_. ''1.5'') \<lparr>lc_request_id = ''r'', lc_correlation_id = [CHR 0x0A, CHR ''x''],
       lc_trace_id = []\<rparr> (audit_record ''now'' 7
       (\<lparr>au_tenant_id = ''t'', au_user_id = ''u'', au_tool = ''calculator'', au_decision = ''allowed'', 
        au_arg_shape = [], au_result_class = None, au_latency_ms = None, au_exit_code = None\<rparr>))) =
   [log_format (\<lambda>_. ''1.5'') \<lparr>lc_request_id = ''r'', lc_correlation_id = [CHR 0x0A, CHR ''x''], lc_trace_id = []\<rparr>
      (audit_record ''now'' 7
       (\<lparr>au_tenant_id = ''t'', au_user_id = ''u'', au_tool = ''calculator'', au_decision = ''allowed'', 
        au_arg_shape = [], au_result_class = None, au_latency_ms = None, au_exit_code = None\<rparr>)), []]"
proof -
  have "no_controls ''1.5''"
    by (simp add: ord_of_def)
  from log_lines_safe [OF this, where recs = "[(\<lparr>lc_request_id = ''r'', lc_correlation_id = [CHR 0x0A, CHR ''x''],
      lc_trace_id = []\<rparr>, audit_record ''now'' 7
       (\<lparr>au_tenant_id = ''t'', au_user_id = ''u'', au_tool = ''calculator'', au_decision = ''allowed'', 
        au_arg_shape = [], au_result_class = None, au_latency_ms = None, au_exit_code = None\<rparr>))]"] show ?thesis
    by simp
qed

end
