(* ===== verification/Telemetry.thy ===== *)
theory Telemetry
  imports Server Logging
begin

text \<open>
  What the server records of a request: the logger and the tracer as \<^verbatim>\<open>__main__.py\<close> sets them up (logging_config.py,
  tracing.py), the counters, the gauge and the histogram of metrics.py, and the frame around every handler
  (\<^verbatim>\<open>_instrument\<close> and \<^verbatim>\<open>_handle\<close> of server.py) that feeds them.
\<close>

section \<open>The root logger\<close>

datatype log_handler = JsonHandler | PlainHandler

record root_logger =
  lg_handlers :: "log_handler list"
  lg_level :: int

text \<open>\<^verbatim>\<open>getattr(logging, s)\<close> on upper-case names, as \<^verbatim>\<open>setLevel\<close> takes it: a level, a text that is none, a dictionary.\<close>

definition logging_attr :: "string \<Rightarrow> (py_exn + int) option" where
  "logging_attr s =
     (if s = ''CRITICAL'' \<or> s = ''FATAL'' then Some (Inr 50) else if s = ''ERROR'' then Some (Inr 40)
      else if s = ''WARNING'' \<or> s = ''WARN'' then Some (Inr 30) else if s = ''INFO'' then Some (Inr 20)
      else if s = ''DEBUG'' then Some (Inr 10) else if s = ''NOTSET'' then Some (Inr 0)
      else if s = ''BASIC_FORMAT'' then Some (Inl ValueError) else if s = ''_STYLES'' then Some (Inl TypeError)
      else None)"

definition configure_logging :: "string \<Rightarrow> bool \<Rightarrow> root_logger \<Rightarrow> py_exn option \<times> root_logger" where
  "configure_logging log_level json_format lg =
     (let lg' = lg\<lparr>lg_handlers := [if json_format then JsonHandler else PlainHandler]\<rparr> in
      case (case logging_attr (map upper_char log_level) of None \<Rightarrow> Inr 20 | Some v \<Rightarrow> v) of
        Inl ex \<Rightarrow> (Some ex, lg')
      | Inr level \<Rightarrow> (None, lg'\<lparr>lg_level := level\<rparr>))"

section \<open>The tracer\<close>

text \<open>\<open>OtelTracer\<close> holds the service, the endpoint spans are exported to, if any, and the environment; \<open>installed\<close> tells
  whether the OpenTelemetry packages can be imported.\<close>

datatype tracer = OtelTracer string "string option" string | NoopTracer

definition init_tracing ::
    "bool \<Rightarrow> environ \<Rightarrow> string \<Rightarrow> string option \<Rightarrow> string \<Rightarrow> tracer option \<Rightarrow> tracer option" where
  "init_tracing installed env service_name endpoint environment module_tracer =
     (case module_tracer of
        Some t \<Rightarrow> Some t
      | None \<Rightarrow>
          if \<not> installed then Some NoopTracer
          else let given = (case endpoint of None \<Rightarrow> [] | Some e \<Rightarrow> e);
                   resolved = (if given \<noteq> [] then given else env_get env ''OTEL_EXPORTER_OTLP_ENDPOINT'' [])
               in Some (OtelTracer service_name (if resolved = [] then None else Some resolved) environment))"

definition get_tracer :: "bool \<Rightarrow> environ \<Rightarrow> tracer option \<Rightarrow> tracer \<times> tracer option" where
  "get_tracer installed env module_tracer =
     (let t = (case module_tracer of
                 None \<Rightarrow> init_tracing installed env ''private-ai-workspace-control-plane'' None ''development'' None
               | Some t \<Rightarrow> Some t)
      in (the t, t))"

text \<open>\<open>main\<close> up to \<^verbatim>\<open>run_server\<close>: an exception of the logger's level is not caught.\<close>

definition main_setup ::
    "bool \<Rightarrow> environ \<Rightarrow> control_plane_config \<Rightarrow> root_logger \<Rightarrow> tracer option \<Rightarrow> py_exn + root_logger \<times> tracer option" where
  "main_setup installed env config lg module_tracer =
     (case configure_logging (cf_log_level config) (cf_log_format config \<noteq> ''text'') lg of
        (Some ex, _) \<Rightarrow> Inl ex
      | (None, lg') \<Rightarrow>
          Inr (lg', init_tracing installed env (cf_service_name config) (cf_otel_endpoint config)
                        (cf_environment config) module_tracer))"

text \<open>\<^verbatim>\<open>format(trace_id, "032x")\<close> of the current span's context, where there is a valid one.\<close>

fun hex_digits :: "nat \<Rightarrow> string" where
  "hex_digits n = (if n < 16 then [hex_digit n] else hex_digits (n div 16) @ [hex_digit (n mod 16)])"

declare hex_digits.simps [simp del]

definition current_trace_id :: "(bool \<times> nat) option \<Rightarrow> string" where
  "current_trace_id ctx = (case ctx of Some (True, n) \<Rightarrow> pad_left 32 (hex_digits n) | _ \<Rightarrow> [])"

section \<open>The metrics\<close>

text \<open>A counter or histogram with labels is a function of them.  The labels are the method, the path and the status.\<close>

type_synonym request_label = "string \<times> string \<times> string"

record metrics =
  mt_requests :: "request_label \<Rightarrow> nat"
  mt_errors :: "request_label \<Rightarrow> nat"
  mt_durations :: "string \<times> string \<Rightarrow> rat list"
  mt_in_flight :: int

definition inc :: "'l \<Rightarrow> ('l \<Rightarrow> nat) \<Rightarrow> 'l \<Rightarrow> nat" where
  "inc l f = f(l := Suc (f l))"

text \<open>What \<^verbatim>\<open>_handle\<close> counts before it writes.\<close>

definition handle_counts :: "string \<Rightarrow> string \<Rightarrow> response \<Rightarrow> metrics \<Rightarrow> metrics" where
  "handle_counts verb raw_path response m =
     (let label = (verb, sanitise_path raw_path, str_nat (rs_status response));
          m' = m\<lparr>mt_requests := inc label (mt_requests m)\<rparr>
      in if 400 \<le> rs_status response then m'\<lparr>mt_errors := inc label (mt_errors m')\<rparr> else m')"

section \<open>The frame around a handler\<close>

text \<open>A span records its attributes and, as \<^verbatim>\<open>start_as_current_span\<close> does by default, an exception that leaves its
  block, by class and text.\<close>

record span =
  sp_name :: string
  sp_attributes :: "(string \<times> json) list"
  sp_exception :: "(string \<times> string) option"

text \<open>What the server has recorded so far.\<close>

record telemetry =
  tl_metrics :: metrics
  tl_context :: log_context
  tl_spans :: "span list"
  tl_log :: "(log_context \<times> log_record) list"

text \<open>A request as the frame sees it: \<open>ob_traced\<close> tells that a tracer and a span could be had (an exception there is
  outside the frame's own handler), \<open>ob_trace\<close> is that span's context, \<open>ob_write\<close> the exception, if any, that writing
  the response ended with (a client that hung up, a payload \<^verbatim>\<open>json.dumps\<close> refuses), by its class and its text; the
  rest are the draws of the clock and of \<^verbatim>\<open>uuid4\<close>.\<close>

record observed =
  ob_method :: string
  ob_path :: string
  ob_correlation :: "string option"
  ob_request_id :: string
  ob_traced :: bool
  ob_trace :: "(bool \<times> nat) option"
  ob_write :: "(string \<times> string) option"
  ob_elapsed :: rat
  ob_asctime :: string
  ob_msecs :: nat

text \<open>What the wrapped handler did: \<open>Inl\<close> is an exception, by its class and its text.\<close>

type_synonym handled = "(string \<times> string) + response"

definition answer_of :: "handled \<Rightarrow> response" where
  "answer_of h = (case h of Inl _ \<Rightarrow> internal_error | Inr response \<Rightarrow> response)"

definition unhandled_record :: "observed \<Rightarrow> string \<times> string \<Rightarrow> log_record" where
  "unhandled_record ob ex =
     \<lparr>lr_asctime = ob_asctime ob, lr_msecs = ob_msecs ob, lr_levelname = ''ERROR'',
      lr_name = ''app.control_plane.server'', lr_message = ''Unhandled error in request handler'',
      lr_exc = Some (Some (fst ex), snd ex), lr_audit = None\<rparr>"

definition request_span :: "observed \<Rightarrow> handled \<Rightarrow> span" where
  "request_span ob h =
     (let safe_path = sanitise_path (ob_path ob) in
      \<lparr>sp_name = ob_method ob @ '' '' @ safe_path,
       sp_attributes =
         [(''http.method'', JStr (ob_method ob)), (''http.target'', JStr safe_path),
          (''request_id'', JStr (ob_request_id ob))]
         @ (case h of Inl ex \<Rightarrow> [(''error.type'', JStr (fst ex))] | Inr _ \<Rightarrow> [])
         @ [(''http.status_code'', JInt (int (rs_status (answer_of h))))],
       sp_exception = ob_write ob\<rparr>)"

text \<open>\<^verbatim>\<open>_instrument\<close>; the response is what \<^verbatim>\<open>_handle\<close> goes on to write, \<^term>\<open>None\<close> where no tracer could be had.  \<^verbatim>\<open>_handle\<close>
  counts first and writes then, inside the span: where the write raises, the counters have been moved, the
  exception is recorded on the span and, after the \<^verbatim>\<open>finally\<close> clause, leaves the frame.\<close>

definition instrumented :: "observed \<Rightarrow> handled \<Rightarrow> telemetry \<Rightarrow> response option \<times> telemetry" where
  "instrumented ob h t =
     (let c = set_request_context (ob_request_id ob) (case ob_correlation ob of None \<Rightarrow> [] | Some i \<Rightarrow> i) (tl_context t);
          safe_path = sanitise_path (ob_path ob);
          m = (tl_metrics t)\<lparr>mt_in_flight := mt_in_flight (tl_metrics t) + 1\<rparr>;
          (sent, m, spans, records) =
            (if \<not> ob_traced ob then (None, m, [], [])
             else (Some (answer_of h), handle_counts (ob_method ob) (ob_path ob) (answer_of h) m, [request_span ob h],
                   case h of
                     Inl ex \<Rightarrow> [(c\<lparr>lc_trace_id := current_trace_id (ob_trace ob)\<rparr>, unhandled_record ob ex)]
                   | Inr _ \<Rightarrow> []));
          l = (ob_method ob, safe_path);
          m = m\<lparr>mt_durations := (mt_durations m)(l := mt_durations m l @ [ob_elapsed ob])\<rparr>;
          m = m\<lparr>mt_in_flight := mt_in_flight m - 1\<rparr>
      in (sent, \<lparr>tl_metrics = m, tl_context = clear_request_context c, tl_spans = tl_spans t @ spans,
                 tl_log = tl_log t @ records\<rparr>))"


section \<open>Lemmas\<close>



lemma instrumented_answer:
  "ob_traced ob \<Longrightarrow> map_option Sent (fst (instrumented ob h t)) = Some (instrument (map_sum (\<lambda>_. ()) id h))"
  by (cases h) (simp_all add: instrumented_def instrument_def answer_of_def Let_def)
















lemma request_span_exception [simp]: "sp_exception (request_span ob h) = ob_write ob"
  by (simp add: request_span_def Let_def)








section \<open>Property\<close>






end
