(* ===== verification/Fixtures.thy ===== *)
theory Fixtures
  imports Startup
begin

text \<open>
  The ends of the integration harness: the resolver over AWS Secrets Manager (integration_secrets.py,
  \<^verbatim>\<open>make_secrets_manager_resolver\<close>; boto3 is a parameter) and the development fixtures
  (app/integration_fixtures): the loopback integration, the probe that must be blocked, and the fake
  calendar service.
\<close>

section \<open>Secrets Manager\<close>

text \<open>What \<^verbatim>\<open>get_secret_value\<close> answers at a time: the \<^verbatim>\<open>SecretString\<close>, if it has one, or an exception.  \<open>installed\<close> tells
  whether boto3 can be imported.\<close>

datatype sm_answer = SmSecret "string option" | SmNotFound | SmFailed

definition sm_fetch :: "bool \<Rightarrow> (rat \<Rightarrow> string \<Rightarrow> sm_answer) \<Rightarrow> rat \<Rightarrow> string \<Rightarrow> ix_exn + string option" where
  "sm_fetch installed get_secret_value now secret_id =
     (if \<not> installed then Inl SecretError
      else (case get_secret_value now secret_id of
              SmNotFound \<Rightarrow> Inr None
            | SmFailed \<Rightarrow> Inl SecretError
            | SmSecret s \<Rightarrow> Inr s))"

definition make_secrets_manager_resolver ::
    "(string \<Rightarrow> json option) \<Rightarrow> (rat \<Rightarrow> string) \<Rightarrow> bool \<Rightarrow> (rat \<Rightarrow> string \<Rightarrow> sm_answer) \<Rightarrow> string \<Rightarrow> string \<Rightarrow> rat \<Rightarrow> secret_env" where
  "make_secrets_manager_resolver loads fr installed get_secret_value env project ttl_seconds =
     \<lparr>re_env = env, re_project = project, re_ttl = ttl_seconds, re_fetch = sm_fetch installed get_secret_value,
      re_loads = loads, re_repr = fr\<rparr>"

section \<open>The integrations of development\<close>

text \<open>\<^verbatim>\<open>urlsplit\<close> of the configured URL may raise.\<close>

definition loopback_build :: "string \<Rightarrow> string \<Rightarrow> dict \<Rightarrow> creds option \<Rightarrow> built" where
  "loopback_build base operation params creds =
     (if operation \<noteq> ''list_events'' then UnknownOperation
      else let token = cred (case creds of None \<Rightarrow> [] | Some c \<Rightarrow> c) ''TOKEN'' in
           Built \<lparr>rq_method = ''GET'', rq_url = base @ ''/calendar/events'',
                  rq_headers = [(''Authorization'', ''Bearer '' @ token)], rq_body = None, rq_allow_http = True\<rparr>)"

definition loopback_integration :: "string \<Rightarrow> py_exn + integration" where
  "loopback_integration base_url =
     (let base = py_rstrip_by (\<lambda>c. c = CHR ''/'') base_url in
      case urlsplit base of
        None \<Rightarrow> Inl ValueError
      | Some parts \<Rightarrow>
          let host = (case hostname parts of None \<Rightarrow> [] | Some h \<Rightarrow> h) in
          Inr \<lparr>ig_hosts = {host}, ig_secret = True, ig_build = loopback_build base, ig_permit = {host},
               ig_refresh = None\<rparr>)"

definition blocked_probe :: integration where
  "blocked_probe =
     \<lparr>ig_hosts = {''10.255.255.1''}, ig_secret = False,
      ig_build = (\<lambda>operation params creds.
        Built \<lparr>rq_method = ''GET'', rq_url = ''http://10.255.255.1/probe'', rq_headers = [], rq_body = None,
               rq_allow_http = True\<rparr>),
      ig_permit = {}, ig_refresh = None\<rparr>"

definition build_fixture_registry :: "string \<Rightarrow> py_exn + (string \<times> integration) list" where
  "build_fixture_registry base_url =
     ebind (loopback_integration base_url) (\<lambda>lb. Inr [(''loopback'', lb), (''blocked_probe'', blocked_probe)])"

section \<open>The fake calendar\<close>

definition fixture_events :: json where
  "fixture_events =
     JObj [(''events'', JArr [JObj [(''id'', JStr ''evt-1''), (''title'', JStr ''Standup'')],
                            JObj [(''id'', JStr ''evt-2''), (''title'', JStr ''Review'')]])]"

definition fixture_do_GET :: "string \<Rightarrow> string \<Rightarrow> string option \<Rightarrow> nat \<times> json" where
  "fixture_do_GET expected_token path authorization =
     (if path = ''/healthz'' then (200, JObj [(''status'', JStr ''ok'')])
      else if path = ''/calendar/events''
      then (if (case authorization of None \<Rightarrow> [] | Some a \<Rightarrow> a) \<noteq> ''Bearer '' @ expected_token
            then (401, err_only ''unauthorized'')
            else (200, fixture_events))
      else (404, err_only ''not_found''))"

definition fixture_send :: "(rat \<Rightarrow> string) \<Rightarrow> nat \<times> json \<Rightarrow> wire" where
  "fixture_send fr r =
     (let body = json_dumps fr (snd r) in
      WireResponse (int (fst r))
        [(''Content-Type'', ''application/json''), (''Content-Length'', str_nat (length body))] body)"

text \<open>The network when the service listens: a GET gets what its handler writes (the integration sends nothing else).\<close>

definition fixture_net :: "(rat \<Rightarrow> string) \<Rightarrow> string \<Rightarrow> transport" where
  "fixture_net fr expected_token sent c =
     fixture_send fr (fixture_do_GET expected_token (cn_path c) (map_of (cn_headers c) ''Authorization''))"

section \<open>What they show of the harness\<close>

lemma probe_url:
  "urlsplit (py_strip ''http://10.255.255.1/probe'') =
     Some \<lparr>up_scheme = ''http'', up_netloc = ''10.255.255.1'', up_path = ''/probe'', up_query = []\<rparr>"
  by code_simp

lemma probe_parts:
  "userinfo \<lparr>up_scheme = ''http'', up_netloc = ''10.255.255.1'', up_path = ''/probe'', up_query = []\<rparr> = (None, None)"
  "hostname \<lparr>up_scheme = ''http'', up_netloc = ''10.255.255.1'', up_path = ''/probe'', up_query = []\<rparr> = Some ''10.255.255.1''"
  "port_of \<lparr>up_scheme = ''http'', up_netloc = ''10.255.255.1'', up_path = ''/probe'', up_query = []\<rparr> = Inr None"
  "py_lower ''http'' = ''http''" "py_lower ''10.255.255.1'' = ''10.255.255.1''"
  by code_simp+

lemma probe_private: "classify_ip ''10.255.255.1'' = Some ''private_ip''"
proof -
  have n: "CHR ''/'' \<notin> set ''10.255.255.1''" "length (split_char (CHR ''.'') ''10.255.255.1'') = 4"
    "''10.255.255.1'' \<notin> set METADATA_IPS"
    "those (map parse_octet (split_char (CHR ''.'') ''10.255.255.1'')) = Some [10, 255, 255, 1]"
    by code_simp+
  have a: "ip_address ''10.255.255.1'' = Some (V4 184549121)"
    unfolding ip_address_def parse_v4_def Let_def n(4)
    using n(1,2) by (simp add: octets_word_def del: split_char.simps)
  have "blocked4 184549121"
    by (simp add: blocked4_def is_private4_def private_nets4_def private_exceptions4_def in_net4_iff octets_word_def)
  then show ?thesis
    unfolding classify_ip_def a using n(3) by (simp add: classify4_def)
qed

text \<open>The probe never reaches the network: whatever is asked of it, the guard refuses its private address.\<close>

theorem blocked_probe_refused:
  assumes "map_of (ix_registry env) ''blocked_probe'' = Some blocked_probe"
    and "ix_dns env (ix_sent st) ''10.255.255.1'' 80 = Some [''10.255.255.1'']"
  shows "ix_invoke env now ''blocked_probe'' operation params tenant st = (Inr (io_fail ''blocked:private_ip''), st)"
  using assms
  by (simp add: ix_invoke_def ix_call_def ix_send_def blocked_probe_def validate_outbound_url_def probe_url probe_parts
      default_port_def probe_private Let_def)

lemma loopback_url:
  "urlsplit (py_strip ''http://loopback-fixture:8099/calendar/events'') =
     Some \<lparr>up_scheme = ''http'', up_netloc = ''loopback-fixture:8099'', up_path = ''/calendar/events'', up_query = []\<rparr>"
  "urlsplit ''http://loopback-fixture:8099'' =
     Some \<lparr>up_scheme = ''http'', up_netloc = ''loopback-fixture:8099'', up_path = [], up_query = []\<rparr>"
  "py_rstrip_by (\<lambda>c. c = CHR ''/'') ''http://loopback-fixture:8099/'' = ''http://loopback-fixture:8099''"
  by code_simp+

lemma loopback_netloc:
  "rpartition (CHR ''@'') ''loopback-fixture:8099'' = (None, ''loopback-fixture:8099'')"
  "split_char1 (CHR ''['') ''loopback-fixture:8099'' = (''loopback-fixture:8099'', None)"
  "split_char1 (CHR '':'') ''loopback-fixture:8099'' = (''loopback-fixture'', Some ''8099'')"
  "split_char1 (CHR ''%'') ''loopback-fixture'' = (''loopback-fixture'', None)"
  "list_all is_digit ''8099''" "py_lower ''http'' = ''http''" "py_lower ''loopback-fixture'' = ''loopback-fixture''"
  by code_simp+

lemma loopback_port: "dec_value ''8099'' = 8099"
  by (simp add: dec_value_def ord_of_def)

lemma loopback_parts:
  assumes "up_netloc u = ''loopback-fixture:8099''"
  shows "userinfo u = (None, None)" "hostname u = Some ''loopback-fixture''" "port_of u = Inr (Some 8099)"
  using loopback_netloc(5)
  by (simp_all add: userinfo_def hostname_def port_of_def hostinfo_def assms loopback_netloc(1-4,7) loopback_port Let_def)

lemma loopback_registry:
  "build_fixture_registry ''http://loopback-fixture:8099/'' =
     Inr [(''loopback'', \<lparr>ig_hosts = {''loopback-fixture''}, ig_secret = True,
            ig_build = loopback_build ''http://loopback-fixture:8099'', ig_permit = {''loopback-fixture''},
            ig_refresh = None\<rparr>), (''blocked_probe'', blocked_probe)]"
  by (simp add: build_fixture_registry_def loopback_integration_def loopback_url loopback_parts Let_def)

lemma events_short: "length (json_dumps fr fixture_events) \<le> MAX_RESULT_BYTES"
  by (simp add: fixture_events_def MAX_RESULT_BYTES_def dumps_str_def dumps_char_def ord_of_def)

text \<open>The tenant's own credential reaches the fake calendar through every part of the harness: its events come back
  exactly where the credential is the service's, at a private address that the integration permits.\<close>

theorem loopback_end_to_end:
  assumes reg: "build_fixture_registry ''http://loopback-fixture:8099/'' = Inr (ix_registry env)"
    and secrets: "ix_secrets env = Some re"
    and secret: "fst (secret_resolve re now tenant ''loopback'' (ix_cache st)) = Inr (Some [(''TOKEN'', t)])"
    and dns: "ix_dns env (ix_sent st) ''loopback-fixture'' 8099 = Some [ip]" "classify_ip ip = Some ''private_ip''"
    and net: "ix_net env = fixture_net fr expected_token"
    and loads: "ix_loads env (json_dumps fr fixture_events) = Some fixture_events"
  shows "\<exists>out. fst (ix_invoke env now ''loopback'' ''list_events'' params tenant st) = Inr out \<and>
    io_status out = Some (if t = expected_token then 200 else 401) \<and>
    (t = expected_token \<longrightarrow> (\<exists>d. io_result out = JObj d \<and> dget d ''data'' = fixture_events))"
proof -
  obtain cache where r: "secret_resolve re now tenant ''loopback'' (ix_cache st) = (Inr (Some [(''TOKEN'', t)]), cache)"
    using secret by (metis prod.collapse)
  have "ix_registry env = [(''loopback'', \<lparr>ig_hosts = {''loopback-fixture''}, ig_secret = True,
      ig_build = loopback_build ''http://loopback-fixture:8099'', ig_permit = {''loopback-fixture''},
      ig_refresh = None\<rparr>), (''blocked_probe'', blocked_probe)]"
    using reg by (simp add: loopback_registry)
  then show ?thesis
    using dns events_short [of fr]
    by (simp add: ix_invoke_def secrets r ensure_access_token_def ix_call_def loopback_build_def ix_send_def
        validate_outbound_url_def loopback_url loopback_parts loopback_netloc(6,7) str_path_def guarded_open_def connection_of_def net
        fixture_net_def fixture_send_def fixture_do_GET_def cred_def ix_decode_def loads dget_def Let_def)
qed

end
