(* ===== verification/Spec2Isabelle.thy ===== *)
theory Spec2Isabelle
  imports Notes Notifications Policy Conversations ModelRequests Retrieval Memory AgentTools Inference
    AgentLoop ModelInstaller InstallerCluster Sessions Dispatcher Integrations Mcp Chat Documents Compare WebSearch Research
    Storage Media Config Startup Routing Routes Server ServerGate ServerSlots ServerOwners
    Embeddings Logging Telemetry Fixtures
begin

text \<open>
  A verification library for the control plane of the private AI workspace (src/app).

  \<^bold>\<open>The program.\<close>  The control plane is an HTTP server (server.py) over a family of feature modules
  of one shape: a pure handler \<^verbatim>\<open>build_\<dots>_response\<close> takes the \<^verbatim>\<open>Authorization\<close> header, the body and
  the collaborators (token verifier, store, limiter, executor, inference client) and returns
  \<^verbatim>\<open>(HTTPStatus, payload)\<close>.  A handler authenticates, derives the tenant from the verified
  token, validates the body, and calls a store scoped to the owner \<open>(tenant_id, user_id)\<close>; each store
  has an in-memory and a PostgreSQL implementation of one protocol.  Tools run outside the process
  behind an allow-list, a limiter and an audit log, and the agent loop lets a model choose among
  them.

  \<^bold>\<open>Theories.\<close>

  \<^descr>[\<open>Prelude\<close>] Python's string methods, slices and stable sorts, decimal and ISO-8601 printing, the
    first-match updates of the in-memory stores.
  \<^descr>[\<open>Json\<close>] JSON values, \<^verbatim>\<open>dict.get\<close>, truthiness, \<^verbatim>\<open>json.dumps\<close>, \<^verbatim>\<open>repr\<close>, the
    exceptions, the reply shapes.
  \<^descr>[\<open>Auth\<close>] token_verifier.py and auth.py: claims, the development and the OIDC verifier, the
    bearer check, the tenant, principals and settings.
  \<^descr>[\<open>Stores\<close>] dictionaries of lists and tables with an owner and a key; the locale
    \<open>owner_scoped_store\<close>, the contract of every owner-scoped store.
  \<^descr>[\<open>Notes\<close>, \<open>Notifications\<close>, \<open>Conversations\<close>, \<open>Memory\<close>, \<open>Retrieval\<close>, \<open>ModelRequests\<close>] the module of
    that name: its data (records with the fields of the dataclass), its protocol (a record of
    operations, e.g. \<open>notes_store\<close>), its two stores, its validation and its handlers.  Each
    protocol's promises are a locale extending \<open>owner_scoped_store\<close> (\<open>retrieval_contract\<close> and
    \<open>model_request_contract\<close> state their own), interpreted on both stores (\<open>mem_\<dots>\<close>, \<open>pg_\<dots>\<close>); the
    handlers' lemmas are proved once inside the locale, and the properties are read off the two
    interpretations.
  \<^descr>[\<open>Policy\<close>] the gates of agent_tools.py: allow-list, limiter, audit log of argument shapes.
  \<^descr>[\<open>AgentTools\<close>] sandbox/tools.py, sandbox/runner.py, the executor and the invoke handler.
  \<^descr>[\<open>Inference\<close>] inference.py: requests, the retry loop, the health probe, reading a response.
  \<^descr>[\<open>AgentLoop\<close>] agent_loop.py: finding an action in model text, the loop, the run handler.
  \<^descr>[\<open>ModelInstaller\<close>] app/model_installer: one reconciler pass over the control plane's endpoints, whose
    calls may be delivered, lost or unanswered, refining the request lifecycle.
  \<^descr>[\<open>InstallerCluster\<close>] its AWS and Kubernetes clients (clients.py) over arbitrary APIs, the two polling loops, and the
    pass over them, which ends and refines the pass of \<open>ModelInstaller\<close>.
  \<^descr>[\<open>Texts\<close>] \<^verbatim>\<open>int(s)\<close>, \<^verbatim>\<open>strip\<close> and \<^verbatim>\<open>re.sub\<close> of a character class, URL quoting, and \<^verbatim>\<open>get\<close>, indexing
    and iteration on values an untrusted peer sent, with what they raise.
  \<^descr>[\<open>Sessions\<close>] session.py, session_postgres.py and the purge of db/migrations.py; both stores refine a
    specification over histories (\<open>session_contract\<close>, interpreted on both).
  \<^descr>[\<open>Dispatcher\<close>] app/dispatcher (Job manifest, Kubernetes client, polling and reaping, the HTTP service) and
    job_executor.py, its client in the control plane.
  \<^descr>[\<open>Outbound\<close>] outbound.py over models of \<^verbatim>\<open>urllib.parse\<close> and \<^verbatim>\<open>ipaddress\<close> (32- and 128-bit words): which URLs
    pass, and what a pinned connection is made with.
  \<^descr>[\<open>Integrations\<close>] integration_secrets.py, integrations.py, integrations_google.py: credentials, the tenant
    switches (\<open>switch_contract\<close>), the executor whose every connection goes through \<open>Outbound\<close>, the handlers.
  \<^descr>[\<open>Mcp\<close>] mcp.py and mcp_servers/stub_server.py: one server process per call, both ends of the pipe.
  \<^descr>[\<open>Chat\<close>] the chat endpoints of server.py: the body's validation, \<^verbatim>\<open>build_chat_response\<close> with its degraded
    replies, \<^verbatim>\<open>_handle_chat_stream\<close> and the relay of the upstream's lines.
  \<^descr>[\<open>Documents\<close>, \<open>Compare\<close>] documents.py and compare.py, over one state (\<open>ask_state\<close>: limiter, audit log, the
    requests the model was sent).
  \<^descr>[\<open>WebSearch\<close>, \<open>Research\<close>] web_search.py, whose connection goes through \<open>Outbound\<close>, and deep_research.py:
    plan, retrieval from the tenant's corpus and the web, synthesis.
  \<^descr>[\<open>Storage\<close>, \<open>Media\<close>] storage/s3.py over an arbitrary S3 (\<open>boto3_s3\<close>; \<open>s3_contract\<close> states what its documentation
    promises) and media.py: registry, executor, artifacts, handlers.
  \<^descr>[\<open>Config\<close>, \<open>Startup\<close>] config.py (the environment into the settings record) and what \<^verbatim>\<open>run_server\<close> wires from
    them: the \<^verbatim>\<open>_build_\<dots>\<close> functions, and when it refuses to start.

  \<^descr>[\<open>Routing\<close>] routing.py: the validation of the inference base URL and the endpoint URLs.
  \<^descr>[\<open>Routes\<close>] server.py and \<^verbatim>\<open>urllib.parse\<close> below its handlers: UTF-8 and percent decoding, query strings, which
    path reaches which handler under each verb, body caps, the operational endpoints with the cached health
    probe, the writers, and the path label of metrics.py.
  \<^descr>[\<open>Server\<close>] \<^verbatim>\<open>ControlPlaneHandler\<close>: the wiring (\<open>server\<close>), the state that all handlers share (\<open>server_state\<close>),
    each handler of the other theories called with its part of that state, \<^verbatim>\<open>_instrument\<close>, and \<open>serve\<close>, one
    request of any verb.
  \<^descr>[\<open>ServerGate\<close>, \<open>ServerSlots\<close>, \<open>ServerOwners\<close>] what holds of \<open>serve\<close> whatever is asked: nothing happens without
    a token, every slot comes back, users are kept apart (the locale \<open>personal_stores\<close> joins the contracts of
    the three personal stores; it is interpreted on the PostgreSQL and on the in-memory stores).
  \<^descr>[\<open>Embeddings\<close>] the HTTP client of embeddings.py: the request, the checks of the answer, its order.
  \<^descr>[\<open>Logging\<close>, \<open>Telemetry\<close>] logging_config.py (the JSON line of a record, and of an audit entry), tracing.py,
    metrics.py and \<^verbatim>\<open>__main__.py\<close>, and what the frame around every handler (\<^verbatim>\<open>_instrument\<close>, \<^verbatim>\<open>_handle\<close>) counts,
    times and logs.
  \<^descr>[\<open>Fixtures\<close>] the resolver over AWS Secrets Manager, and app/integration_fixtures: the loopback integration, end
    to end against its fake service, and the probe that the guard must refuse.

  \<^bold>\<open>How the state corresponds.\<close>  Shared mutable objects (a store, the limiter, the audit log, the
  feed) are values passed in and returned updated.  What a lock makes atomic is one step: the limiter's
  interleavings are sequences of \<open>rl_step\<close>, in which a thread's section under the lock and its semaphore are
  separate steps, with times drawn before the lock and so in any order; everywhere else a request is one step,
  and the \<open>\<dots>_reachable\<close> predicates range over sequences of requests of any callers.  Identifiers (\<^verbatim>\<open>uuid4\<close>) and
  the clock are arguments, new for each request where a property needs it.  The log \<open>ag_spawned\<close> of executions
  started has no counterpart in the code: it is what the safety properties of the tools count, and the caller
  of each execution is given by the request that was running (\<open>agent_reachable\<close>).

  \<^bold>\<open>Errors.\<close>  A reply of 4xx or 5xx is a value.  An exception that a handler does not catch is
  \<open>Inl\<close> of it; the server answers it with 500.  Handlers with no such type were seen to raise
  nothing on decoded JSON.

  \<^bold>\<open>Parameters.\<close>  Third-party code and the outside world are arguments: PyJWT and the JWKS
  (\<open>jwt_decode\<close>), the embedding service (a vector for each text to the handlers, an HTTP answer to \<open>Embeddings\<close>), pgvector's distance, object storage, the child process
  (\<open>proc\<close>, \<open>mx_spawn\<close>), the network (\<open>http\<close>, \<open>get\<close>, \<open>transport\<close>), DNS (\<open>resolver\<close>), the Kubernetes API
  (\<open>kube\<close>: any answer to any call, with a clock), AWS Secrets Manager (\<open>re_fetch\<close>, \<open>get_secret_value\<close>), S3 (\<open>boto3_s3\<close>), the media backends (\<open>me_post\<close>), the web search service (\<open>we_net\<close>),
  opening a database (\<open>db_open\<close>), the model (\<open>le_chat\<close>), \<^verbatim>\<open>float.__repr__\<close> (\<open>fr\<close>).
  \<^verbatim>\<open>json.loads\<close> of a request body is its result, \<open>None\<close> where it raised; a property quantifies over all
  of them, so it holds for what any body decodes to.

  \<^bold>\<open>What the lemma groups show.\<close>  Isolation: a request changes and shows only the caller's own
  items, in either store.  Invariants: every reachable store is well formed (owned, unique ids,
  validated fields, caps).  Functional: a created item is listed, a deleted one is gone, a read
  notification is read once, queries return the best-scoring items.  Gates: the limiter's bounds
  under every interleaving (the slots always; the requests of a window as long as no thread that read an earlier
  clock is overtaken, and how far beyond otherwise); a tool runs only past every gate, and every execution has its audit
  entry; a run is bounded by its budgets whatever the model says, completes if the model
  finishes in time, and finds a printed action inside prose; an integration connects, and an MCP
  server starts, only past its gates, with the caller's tenant's own secrets only.  Outside world: what passes the
  URL guard is a global address, one of the two ranges the guard's checks leave out, or a host the operator
  permitted by name; a Job is locked down, deleted again once its creation was answered, polled for a bounded time, and gives what
  the subprocess sandbox gives; an installer pass follows the request lifecycle over a lossy network; a search reaches
  the configured host only.  Composition: a research run cites only passages of the caller's tenant or of the
  search; a stored artifact is read back byte for byte by its user and nobody else; a server started outside
  development has no store in memory and no development credential; an empty environment denies everything.
  The whole server: every path reaches the handler documented for it; a request without a valid token changes
  nothing; no sequence of requests loses a slot, or touches what another user stored and reads.  What it records:
  one line of log for each record, counters that count, labels from a fixed set, and no content in either.

  \<^bold>\<open>Bounds.\<close>  The agent loop recurs on the number of iterations left, at most \<^verbatim>\<open>max_steps\<close>;
  \<open>vllm_attempts\<close> on the attempts left, at most two; every other recursion is structural or
  has a measure on the text.  The dispatcher's \<open>poll\<close> may run for ever on a clock that stands still: it is a
  \<^verbatim>\<open>partial_function\<close> whose \<open>None\<close> is not returning, and \<open>dispatcher_terminates\<close> shows that it returns, within 96
  calls of the cluster, on any clock that moves while it sleeps; so are the installer's loops
  (\<open>before_deadline\<close>, \<open>installer_pass_live\<close>).  There is no fuel.

  \<^bold>\<open>Limits of the model.\<close>  Strings hold code points 0 to 255; of the larger ones the sources use, the
  dashes and the ellipsis are represented by control characters (\<open>EM_DASH\<close> and its like in \<open>Texts\<close>), the others
  are not.  \<^verbatim>\<open>float()\<close> of a setting is the decimal it writes, exactly.  Floating-point rounding of similarity scores is left out (scores
  are exact rationals).  The email claim is a string or absent.  PostgreSQL ids are text: an id in
  a path that is not a UUID, which makes the real query raise, is an unknown id here.  The log lines of a
  handler other than the audit and the unhandled exception are not modelled, nor is memory exhaustion or
  recursion depth; neither are the counters of single handlers (authentication failures, inference and
  retrieval latencies).  An \<^verbatim>\<open>index\<close> of an embedding that is a list is incomparable here (Python compares two lists),
  and the order of keys among which there is a NaN is the insertion sort's.  A request is one
  atomic step of the server; two requests interleave only at the limiters (\<open>rl_step\<close>) and through the orders of
  a sequence.  What decodes to a code point above 255 is represented by \<open>SUB\<close>.  Verbs other than GET, POST and
  DELETE are refused by the base class.  A write of a reply that raises is recorded on its span (\<open>ob_write\<close>) and
  changes no state of the server; what of the reply the client saw is not modelled.

  \<^bold>\<open>Not modelled.\<close>  Opening database pools and applying the schema (calls of a driver), the exposition
  of the metrics and the exporter of spans (third-party packages), the \<^verbatim>\<open>__main__\<close> modules other than the control plane's.  The deterministic embedding of development hashes tokens with SHA-256 and
  normalises in floating point; the embedding service is a parameter.  The manifest lists every module.
\<close>

end
